(* ===== verification/Go_Base.thy ===== *)
theory Go_Base
  imports Main "HOL-Library.AList" "HOL-Library.Char_ord" "HOL-Library.List_Lexorder"
    "HOL-Library.Sublist" "HOL-Library.Multiset"
begin

text \<open>
  The prelude of the development: the parts of Go's language and standard library that the
  modelled packages share.

  \<^item> Go strings are \<open>string\<close>, lists of bytes. \<open>strings.ToLower\<close>, \<open>strings.EqualFold\<close>,
    \<open>strings.TrimSpace\<close> and \<open>strings.Fields\<close> are modelled on ASCII input, where a rune is
    one byte.
  \<^item> A Go map is an association list with distinct keys (\<open>gomap\<close>): lookups are \<open>map_of\<close>,
    stores are \<open>AList.update\<close>, deletions \<open>AList.delete\<close>. The position of an entry stands for
    one of the orders in which Go may range over the map, so a theorem that must not depend on
    that order is stated for every permutation of the list.
  \<^item> An \<open>error\<close> result is the left side of a sum.
  \<^item> A wall-clock reading is an explicit argument \<open>now\<close> (seconds or nanoseconds as in the code).
\<close>

named_theorems go_string_simps \<open>unfolding rules for the string functions\<close>
named_theorems gomap_simps \<open>rules for lookups in updated maps\<close>

section \<open>Strings\<close>

type_synonym 'v gomap = "(string \<times> 'v) list"

definition is_space :: "char \<Rightarrow> bool" where
  "is_space c \<longleftrightarrow> c \<in> {CHR 0x09, CHR 0x0A, CHR 0x0B, CHR 0x0C, CHR 0x0D, CHR '' ''}"

definition TrimLeftSpace :: "string \<Rightarrow> string" where
  "TrimLeftSpace s = dropWhile is_space s"

definition TrimSpace :: "string \<Rightarrow> string" where
  "TrimSpace s = rev (dropWhile is_space (rev (dropWhile is_space s)))"

definition HasPrefix :: "string \<Rightarrow> string \<Rightarrow> bool" where
  "HasPrefix s p \<longleftrightarrow> take (length p) s = p"

definition HasSuffix :: "string \<Rightarrow> string \<Rightarrow> bool" where
  "HasSuffix s p \<longleftrightarrow> length p \<le> length s \<and> drop (length s - length p) s = p"

definition TrimPrefix :: "string \<Rightarrow> string \<Rightarrow> string" where
  "TrimPrefix s p = (if HasPrefix s p then drop (length p) s else s)"

definition TrimSuffix :: "string \<Rightarrow> string \<Rightarrow> string" where
  "TrimSuffix s p = (if HasSuffix s p then take (length s - length p) s else s)"

text \<open>\<open>strings.Index\<close>: the first position of a substring; \<open>None\<close> is Go's \<open>-1\<close>.\<close>

fun Index :: "string \<Rightarrow> string \<Rightarrow> nat option" where
  "Index [] p = (if p = [] then Some 0 else None)"
| "Index (c # s) p =
     (if HasPrefix (c # s) p then Some 0 else map_option Suc (Index s p))"

text \<open>\<open>strings.Replace(s, [c], [d], 1)\<close>: the first occurrence of one byte.\<close>

fun replace_first :: "char \<Rightarrow> char \<Rightarrow> string \<Rightarrow> string" where
  "replace_first c d [] = []"
| "replace_first c d (x # s) = (if x = c then d # s else x # replace_first c d s)"

definition lower_char :: "char \<Rightarrow> char" where
  "lower_char c = (if 65 \<le> (of_char c :: nat) \<and> (of_char c :: nat) \<le> 90
                   then char_of (of_char c + 32 :: nat) else c)"

definition ToLower :: "string \<Rightarrow> string" where
  "ToLower s = map lower_char s"

definition EqualFold :: "string \<Rightarrow> string \<Rightarrow> bool" where
  "EqualFold a b \<longleftrightarrow> ToLower a = ToLower b"

definition ContainsAny :: "string \<Rightarrow> string \<Rightarrow> bool" where
  "ContainsAny s cs \<longleftrightarrow> list_ex (\<lambda>c. c \<in> set cs) s"

text \<open>\<open>strings.Split\<close> on one byte: always at least one part.\<close>

fun split_on :: "char \<Rightarrow> string \<Rightarrow> string list" where
  "split_on d [] = [[]]"
| "split_on d (c # s) =
     (if c = d then [] # split_on d s
      else (case split_on d s of p # ps \<Rightarrow> (c # p) # ps | [] \<Rightarrow> [[c]]))"

fun Join :: "string list \<Rightarrow> string \<Rightarrow> string" where
  "Join [] sep = []"
| "Join [x] sep = x"
| "Join (x # y # xs) sep = x @ sep @ Join (y # xs) sep"

text \<open>\<open>strings.Fields\<close>: the maximal runs of non-space bytes.\<close>

definition Fields :: "string \<Rightarrow> string list" where
  "Fields s = filter (\<lambda>w. w \<noteq> [])
     (split_on (CHR '' '') (map (\<lambda>c. if is_space c then CHR '' '' else c) s))"

text \<open>The \<open>%q\<close> verb of \<open>fmt\<close> on ASCII text.\<close>

definition hex_digit :: "nat \<Rightarrow> char" where
  "hex_digit n = (if n < 10 then char_of (48 + n) else char_of (87 + n))"

definition quote_char :: "char \<Rightarrow> string" where
  "quote_char c =
     (let n = (of_char c :: nat) in
      if c = CHR 0x22 then [CHR 0x5C, CHR 0x22]
      else if c = CHR 0x5C then [CHR 0x5C, CHR 0x5C]
      else if 32 \<le> n \<and> n < 127 then [c]
      else if n = 7 then [CHR 0x5C, CHR ''a'']
      else if n = 8 then [CHR 0x5C, CHR ''b'']
      else if n = 12 then [CHR 0x5C, CHR ''f'']
      else if n = 10 then [CHR 0x5C, CHR ''n'']
      else if n = 13 then [CHR 0x5C, CHR ''r'']
      else if n = 9 then [CHR 0x5C, CHR ''t'']
      else if n = 11 then [CHR 0x5C, CHR ''v'']
      else [CHR 0x5C, CHR ''x'', hex_digit (n div 16), hex_digit (n mod 16)])"

definition quoted :: "string \<Rightarrow> string" where
  "quoted s = [CHR 0x22] @ concat (map quote_char s) @ [CHR 0x22]"

text \<open>The \<open>%d\<close> verb.\<close>

fun nat_digits :: "nat \<Rightarrow> string" where
  "nat_digits n = (if n < 10 then [char_of (48 + n)]
                   else nat_digits (n div 10) @ [char_of (48 + n mod 10)])"

declare nat_digits.simps [simp del]

definition decimal :: "int \<Rightarrow> string" where
  "decimal i = (if i < 0 then CHR ''-'' # nat_digits (nat (- i)) else nat_digits (nat i))"

section \<open>Time\<close>

text \<open>A clock reading is in nanoseconds; \<open>unix\<close> is \<open>Time.Unix()\<close> and \<open>nanos\<close> turns seconds into
  nanoseconds.\<close>

definition nanos :: "int \<Rightarrow> int" where
  "nanos secs = secs * 1000000000"

definition unix :: "int \<Rightarrow> int" where
  "unix now = now div 1000000000"

lemma unix_pos: "nanos 1 \<le> now \<Longrightarrow> 0 < unix now"
  unfolding unix_def nanos_def by (simp add: pos_imp_zdiv_pos_iff)

section \<open>Facts about strings\<close>

lemma HasPrefix_iff_prefix [go_string_simps]: "HasPrefix s p \<longleftrightarrow> prefix p s"
  unfolding HasPrefix_def prefix_def
  by (metis append_eq_conv_conj append_take_drop_id)

lemma HasSuffix_iff_suffix [go_string_simps]: "HasSuffix s p \<longleftrightarrow> suffix p s"
proof
  assume "HasSuffix s p"
  then show "suffix p s"
    unfolding HasSuffix_def suffix_def by (metis append_take_drop_id)
next
  assume "suffix p s"
  then show "HasSuffix s p"
    unfolding HasSuffix_def suffix_def by auto
qed

lemma TrimSuffix_append [simp]: "TrimSuffix (s @ p) p = s"
  by (simp add: TrimSuffix_def HasSuffix_def)

lemma TrimPrefix_append [simp]: "TrimPrefix (p @ s) p = s"
  by (simp add: TrimPrefix_def HasPrefix_def)

lemma length_TrimSuffix: "length (TrimSuffix s p) \<le> length s"
  by (simp add: TrimSuffix_def)

lemma set_TrimSpace: "set (TrimSpace s) \<subseteq> set s"
  unfolding TrimSpace_def by (auto dest!: set_dropWhileD)

lemma dropWhile_rev_hd:
  "dropWhile P s = s \<Longrightarrow> dropWhile P (rev (dropWhile P (rev s))) = rev (dropWhile P (rev s))"
proof -
  assume fixed: "dropWhile P s = s"
  obtain t where t: "s = rev (dropWhile P (rev s)) @ t"
    by (metis rev_append rev_rev_ident takeWhile_dropWhile_id)
  show ?thesis
  proof (cases "rev (dropWhile P (rev s))")
    case Nil
    then show ?thesis by (simp only: dropWhile.simps)
  next
    case (Cons c cs)
    with t have "s = c # (cs @ t)" by simp
    with fixed have "\<not> P c"
      by (metis dropWhile.simps(2) impossible_Cons length_dropWhile_le)
    with Cons show ?thesis by (simp only: dropWhile.simps) simp
  qed
qed

lemma dropWhile_idem: "dropWhile P (dropWhile P s) = dropWhile P s"
  by (induction s) auto

lemma TrimSpace_idem [simp]: "TrimSpace (TrimSpace s) = TrimSpace s"
proof -
  let ?d = "dropWhile is_space s"
  have "dropWhile is_space ?d = ?d" by (rule dropWhile_idem)
  from dropWhile_rev_hd [OF this] show ?thesis
    by (simp add: TrimSpace_def dropWhile_idem)
qed

lemma lower_char_idem [simp]: "lower_char (lower_char c) = lower_char c"
proof (cases "65 \<le> (of_char c :: nat) \<and> (of_char c :: nat) \<le> 90")
  case True
  then have "of_char (char_of (of_char c + 32 :: nat)) = (of_char c + 32 :: nat)"
    by (simp add: of_char_of)
  with True show ?thesis by (simp add: lower_char_def)
next
  case False
  then show ?thesis by (auto simp: lower_char_def)
qed

lemma ToLower_idem [simp]: "ToLower (ToLower s) = ToLower s"
  by (simp add: ToLower_def)

lemma ToLower_Nil_iff [simp]: "ToLower s = [] \<longleftrightarrow> s = []"
  by (simp add: ToLower_def)

lemma EqualFold_refl [simp]: "EqualFold s s"
  by (simp add: EqualFold_def)

lemma EqualFold_sym: "EqualFold a b \<longleftrightarrow> EqualFold b a"
  by (auto simp: EqualFold_def)

subsection \<open>Splitting and joining\<close>

lemma split_on_neq_Nil [simp]: "split_on d s \<noteq> []"
  by (cases s) (auto split: list.splits)

lemma split_on_no_delim: "p \<in> set (split_on d s) \<Longrightarrow> d \<notin> set p"
  by (induction s arbitrary: p) (auto split: if_splits list.splits)

lemma split_on_single: "d \<notin> set p \<Longrightarrow> split_on d p = [p]"
  by (induction p) auto

lemma split_on_append_delim: "split_on d (p @ d # s) = split_on d p @ split_on d s"
proof (induction p)
  case Nil
  then show ?case by simp
next
  case (Cons c p)
  then show ?case by (auto split: list.splits)
qed

lemma Join_Cons: "xs \<noteq> [] \<Longrightarrow> Join (x # xs) sep = x @ sep @ Join xs sep"
  by (cases xs) auto

lemma Join_append:
  "xs \<noteq> [] \<Longrightarrow> ys \<noteq> [] \<Longrightarrow> Join (xs @ ys) sep = Join xs sep @ sep @ Join ys sep"
proof (induction xs)
  case Nil
  then show ?case by simp
next
  case (Cons x xs)
  then show ?case by (cases "xs = []") (simp_all add: Join_Cons)
qed

lemma split_on_Join:
  "xs \<noteq> [] \<Longrightarrow> (\<forall>x \<in> set xs. d \<notin> set x) \<Longrightarrow> split_on d (Join xs [d]) = xs"
proof (induction xs)
  case Nil
  then show ?case by simp
next
  case (Cons x xs)
  then show ?case
    by (cases xs) (auto simp: split_on_single split_on_append_delim)
qed

lemma Join_split_on: "Join (split_on d s) [d] = s"
proof (induction s)
  case Nil
  then show ?case by simp
next
  case (Cons c s)
  show ?case
  proof (cases "split_on d s")
    case Nil
    then show ?thesis by simp
  next
    case (Cons p ps)
    with \<open>Join (split_on d s) [d] = s\<close> show ?thesis
      by (cases ps) auto
  qed
qed

lemma split_on_inj: "split_on d s = split_on d t \<longleftrightarrow> s = t"
  by (metis Join_split_on)

section \<open>Searches in lists\<close>

lemma find_append: "find P (xs @ ys) = (case find P xs of Some x \<Rightarrow> Some x | None \<Rightarrow> find P ys)"
  by (induction xs) auto

lemma find_filter_other: "(\<And>x. P x \<Longrightarrow> Q x) \<Longrightarrow> find P (filter Q xs) = find P xs"
  by (induction xs) auto

section \<open>Maps\<close>

definition map_put :: "'v gomap \<Rightarrow> string \<Rightarrow> 'v \<Rightarrow> 'v gomap" where
  "map_put m k v = AList.update k v m"

definition map_del :: "'v gomap \<Rightarrow> string \<Rightarrow> 'v gomap" where
  "map_del m k = AList.delete k m"

abbreviation map_get :: "'v gomap \<Rightarrow> string \<Rightarrow> 'v option" where
  "map_get m k \<equiv> map_of m k"

definition wf_map :: "'v gomap \<Rightarrow> bool" where
  "wf_map m \<longleftrightarrow> distinct (map fst m)"

lemma map_get_put [gomap_simps, simp]:
  "map_get (map_put m k v) k' = (if k' = k then Some v else map_get m k')"
  by (simp add: map_put_def update_conv')

lemma map_get_del [gomap_simps, simp]:
  "map_get (map_del m k) k' = (if k' = k then None else map_get m k')"
  by (simp add: map_del_def delete_conv')

lemma wf_map_Nil [simp]: "wf_map []"
  by (simp add: wf_map_def)

lemma wf_map_put [simp]: "wf_map m \<Longrightarrow> wf_map (map_put m k v)"
  by (simp add: wf_map_def map_put_def distinct_update)

lemma wf_map_del [simp]: "wf_map m \<Longrightarrow> wf_map (map_del m k)"
  by (simp add: wf_map_def map_del_def distinct_delete)

lemma set_map_del: "(k', v) \<in> set (map_del m k) \<Longrightarrow> (k', v) \<in> set m \<and> k' \<noteq> k"
  by (auto simp: map_del_def AList.delete_eq)

lemma wf_map_get_iff: "wf_map m \<Longrightarrow> map_get m k = Some v \<longleftrightarrow> (k, v) \<in> set m"
  by (simp add: wf_map_def)

lemma wf_map_all:
  "wf_map m \<Longrightarrow> list_all (\<lambda>(k, v). P k v) m \<longleftrightarrow> (\<forall>k v. map_get m k = Some v \<longrightarrow> P k v)"
  by (auto simp: wf_map_get_iff list_all_iff)

lemma wf_map_distinct_values:
  assumes "wf_map m" and "list_all (\<lambda>(k, v). f v = k) m"
  shows "distinct (map (\<lambda>x. f (snd x)) m)"
proof -
  have "map (\<lambda>x. f (snd x)) m = map fst m"
    using assms(2) by (auto simp: list_all_iff)
  then show ?thesis using assms(1) unfolding wf_map_def by (simp only:)
qed

section \<open>Numerals\<close>

lemma digit_value_char: "n < 10 \<Longrightarrow> of_char (char_of (48 + n) :: char) = (48 + n :: nat)"
  by (simp add: of_char_of)

lemma nat_digits_chars: "c \<in> set (nat_digits n) \<Longrightarrow> 48 \<le> (of_char c :: nat) \<and> of_char c < (58 :: nat)"
proof (induction n rule: nat_digits.induct)
  case (1 n)
  then show ?case by (subst (asm) (2) nat_digits.simps) (auto simp: digit_value_char split: if_splits)
qed

fun dec_value :: "nat \<Rightarrow> string \<Rightarrow> nat" where
  "dec_value v [] = v"
| "dec_value v (c # s) = dec_value (10 * v + (of_char c - 48)) s"

lemma dec_value_append: "dec_value v (s @ t) = dec_value (dec_value v s) t"
  by (induction s arbitrary: v) auto

lemma dec_value_of: "dec_value 0 (nat_digits n) = n"
proof (induction n rule: nat_digits.induct)
  case (1 n)
  show ?case
  proof (cases "n < 10")
    case True
    then show ?thesis by (subst nat_digits.simps) (simp add: digit_value_char)
  next
    case False
    then have "dec_value 0 (nat_digits n) = 10 * (n div 10) + (of_char (char_of (48 + n mod 10) :: char) - 48)"
      using 1 by (subst nat_digits.simps) (simp add: dec_value_append)
    then show ?thesis using digit_value_char [of "n mod 10"] by simp
  qed
qed

lemma nat_digits_inject [simp]: "nat_digits m = nat_digits n \<longleftrightarrow> m = n"
  by (metis dec_value_of)

text \<open>Decimal numerals, as \<open>strconv.Atoi\<close> and \<open>ParseInt\<close> in base 10 read them within the range of a 64-bit integer.\<close>

definition Atoi :: "string \<Rightarrow> int option" where
  "Atoi s =
     (let (neg, ds) = (case s of c # t \<Rightarrow> if c = CHR ''-'' then (True, t) else if c = CHR ''+'' then (False, t) else (False, s)
                                | [] \<Rightarrow> (False, s)) in
      if ds = [] \<or> \<not> list_all (\<lambda>c. CHR ''0'' \<le> c \<and> c \<le> CHR ''9'') ds then None
      else let v = (if neg then - int (dec_value 0 ds) else int (dec_value 0 ds)) in
        if v < - (2 ^ 63) \<or> 2 ^ 63 \<le> v then None else Some v)"

lemma nat_digits_neq_Nil: "nat_digits n \<noteq> []"
  by (subst nat_digits.simps) simp

lemma nat_digits_numeral: "list_all (\<lambda>c. CHR ''0'' \<le> c \<and> c \<le> CHR ''9'') (nat_digits n)"
  using nat_digits_chars by (fastforce simp: list_all_iff less_eq_char_def)

lemma Atoi_decimal: "- (2 ^ 63) \<le> i \<Longrightarrow> i < 2 ^ 63 \<Longrightarrow> Atoi (decimal i) = Some i"
proof (cases "i < 0")
  case True
  then show "- (2 ^ 63) \<le> i \<Longrightarrow> Atoi (decimal i) = Some i"
    using nat_digits_numeral [of "nat (- i)"] nat_digits_neq_Nil by (simp add: decimal_def Atoi_def dec_value_of)
next
  case False
  obtain c t where n: "nat_digits (nat i) = c # t" using nat_digits_neq_Nil [of "nat i"] by (cases "nat_digits (nat i)") auto
  have "c \<noteq> CHR ''-'' \<and> c \<noteq> CHR ''+''" using nat_digits_chars [of c "nat i"] n by auto
  then show "- (2 ^ 63) \<le> i \<Longrightarrow> i < 2 ^ 63 \<Longrightarrow> Atoi (decimal i) = Some i"
    using False nat_digits_numeral [of "nat i"] dec_value_of [of "nat i"] n by (simp add: decimal_def Atoi_def)
qed

end
