(* ===== verification/Go_Path.thy ===== *)
theory Go_Path
  imports Go_Base
begin

text \<open>
  The functions of Go's package \<open>path\<close> that the territory checks use.

  \<open>path_clean\<close> is \<open>path.Clean\<close>, on the list of slash-separated components with a stack for
  the output. \<open>path_match\<close> is the boolean result of \<open>path.Match\<close>: the scan of the pattern in
  chunks, each matched at the leftmost position its star allows, without backtracking over an
  earlier chunk. A malformed pattern gives \<open>False\<close> (the callers drop the error).
\<close>

section \<open>path.Clean\<close>

abbreviation slash :: char where
  "slash \<equiv> CHR ''/''"

fun clean_step :: "bool \<Rightarrow> string list \<Rightarrow> string \<Rightarrow> string list" where
  "clean_step rooted st c =
     (if c = [] \<or> c = ''.'' then st
      else if c = ''..'' then
        (case st of
           [] \<Rightarrow> if rooted then [] else [''..'']
         | t # ts \<Rightarrow> if t = ''..'' then ''..'' # st else ts)
      else c # st)"

definition clean_comps :: "bool \<Rightarrow> string list \<Rightarrow> string list" where
  "clean_comps rooted cs = rev (foldl (clean_step rooted) [] cs)"

definition render_path :: "bool \<Rightarrow> string list \<Rightarrow> string" where
  "render_path rooted cs =
     (let out = (if rooted then ''/'' else []) @ Join cs ''/''
      in if out = [] then ''.'' else out)"

definition path_clean :: "string \<Rightarrow> string" where
  "path_clean s =
     (if s = [] then ''.''
      else let rooted = (hd s = slash)
           in render_path rooted (clean_comps rooted (split_on slash s)))"

text \<open>The shape of a cleaned component list (as the stack has it, innermost first): no empty
  component, no dot, no slash, and dot-dot only at the bottom of a relative path.\<close>

fun clean_stack :: "bool \<Rightarrow> string list \<Rightarrow> bool" where
  "clean_stack rooted [] = True"
| "clean_stack rooted (c # st) =
     (c \<noteq> [] \<and> c \<noteq> ''.'' \<and> slash \<notin> set c \<and> clean_stack rooted st \<and>
      (c = ''..'' \<longrightarrow> \<not> rooted \<and> (\<forall>x \<in> set st. x = ''..'')))"

lemma clean_stack_tl: "clean_stack rooted (c # st) \<Longrightarrow> clean_stack rooted st"
  by simp

lemma clean_stack_dotdot: "clean_stack rooted (''..'' # st) \<Longrightarrow> \<forall>x \<in> set st. x = ''..''"
  by simp

lemma clean_step_stack:
  "clean_stack rooted st \<Longrightarrow> slash \<notin> set c \<Longrightarrow> clean_stack rooted (clean_step rooted st c)"
  by (cases st) auto

lemma foldl_clean_step_stack:
  "clean_stack rooted st \<Longrightarrow> \<forall>c \<in> set cs. slash \<notin> set c \<Longrightarrow>
   clean_stack rooted (foldl (clean_step rooted) st cs)"
proof (induction cs arbitrary: st)
  case Nil
  then show ?case by simp
next
  case (Cons c cs)
  then have "clean_stack rooted (clean_step rooted st c)"
    by (intro clean_step_stack) auto
  moreover from Cons.prems have "\<forall>c \<in> set cs. slash \<notin> set c" by simp
  ultimately have "clean_stack rooted (foldl (clean_step rooted) (clean_step rooted st c) cs)"
    by (rule Cons.IH)
  then show ?case by (simp only: foldl.simps)
qed

lemma clean_step_push:
  assumes "clean_stack rooted (c # st)"
  shows "clean_step rooted st c = c # st"
proof (cases "c = ''..''")
  case False
  with assms show ?thesis by simp
next
  case True
  with assms have "\<not> rooted" and dots: "\<And>x. x \<in> set st \<Longrightarrow> x = ''..''" by auto
  show ?thesis
  proof (cases st)
    case Nil
    with True \<open>\<not> rooted\<close> show ?thesis by simp
  next
    case (Cons t ts)
    then have "t = ''..''" using dots by simp
    with True Cons show ?thesis by simp
  qed
qed

lemma clean_stack_append: "clean_stack rooted (xs @ ys) \<Longrightarrow> clean_stack rooted ys"
  by (induction xs) auto

lemma foldl_clean_step_id:
  "clean_stack rooted (rev cs @ st) \<Longrightarrow> foldl (clean_step rooted) st cs = rev cs @ st"
proof (induction cs arbitrary: st)
  case Nil
  then show ?case by simp
next
  case (Cons c cs)
  then have "clean_stack rooted (rev cs @ (c # st))" by simp
  moreover from this have "clean_stack rooted (c # st)" by (rule clean_stack_append)
  ultimately show ?case
    using Cons.IH [of "c # st"] by (simp add: clean_step_push del: clean_step.simps)
qed

lemma clean_comps_stack:
  "clean_stack rooted (rev (clean_comps rooted (split_on slash s)))"
  unfolding clean_comps_def rev_rev_ident
  by (rule foldl_clean_step_stack) (auto dest: split_on_no_delim)

lemma clean_stack_slash_free: "clean_stack rooted st \<Longrightarrow> c \<in> set st \<Longrightarrow> slash \<notin> set c"
  by (induction st) auto

lemma clean_stack_nonempty: "clean_stack rooted st \<Longrightarrow> c \<in> set st \<Longrightarrow> c \<noteq> [] \<and> c \<noteq> ''.''"
  by (induction st) auto

lemma Join_neq_Nil:
  "cs \<noteq> [] \<Longrightarrow> (\<forall>c \<in> set cs. c \<noteq> []) \<Longrightarrow> Join cs sep \<noteq> [] \<and> hd (Join cs sep) = hd (hd cs)"
  by (induction cs sep rule: Join.induct) auto

lemma clean_comps_render:
  assumes st: "clean_stack rooted (rev cs)"
  shows "clean_comps rooted (split_on slash (render_path rooted cs)) = cs
         \<and> (hd (render_path rooted cs) = slash \<longleftrightarrow> rooted)"
proof (cases "cs = []")
  case True
  then show ?thesis
    by (auto simp: render_path_def clean_comps_def)
next
  case False
  have slashfree: "\<forall>c \<in> set cs. slash \<notin> set c" and ne: "\<forall>c \<in> set cs. c \<noteq> []"
    using clean_stack_slash_free [OF st] clean_stack_nonempty [OF st] by auto
  have id: "foldl (clean_step rooted) [] cs = rev cs"
    using foldl_clean_step_id [of rooted cs "[]"] st by simp
  have sp: "split_on slash (Join cs ''/'') = cs"
    using split_on_Join [OF False slashfree] by simp
  from Join_neq_Nil [OF False ne, of "''/''"]
  have j: "Join cs ''/'' \<noteq> []" "hd (Join cs ''/'') = hd (hd cs)" by auto
  have "hd cs \<in> set cs" using False by simp
  then have hd: "hd (hd cs) \<noteq> slash"
    using slashfree ne by (metis hd_in_set)
  show ?thesis
  proof (cases rooted)
    case True
    then show ?thesis
      using id sp by (simp add: render_path_def clean_comps_def)
  next
    case False
    then show ?thesis
      using id sp j hd by (simp add: render_path_def clean_comps_def Let_def)
  qed
qed

lemma render_path_neq_Nil [simp]: "render_path rooted cs \<noteq> []"
  by (simp add: render_path_def Let_def)

lemma path_clean_neq_Nil [simp]: "path_clean s \<noteq> []"
  by (simp add: path_clean_def Let_def)

text \<open>Cleaning a cleaned path changes nothing.\<close>

lemma path_clean_render:
  "clean_stack rooted (rev cs) \<Longrightarrow> path_clean (render_path rooted cs) = render_path rooted cs"
proof -
  assume st: "clean_stack rooted (rev cs)"
  then have root: "(hd (render_path rooted cs) = slash) = rooted"
    and comps: "clean_comps rooted (split_on slash (render_path rooted cs)) = cs"
    using clean_comps_render [OF st] by blast+
  show "path_clean (render_path rooted cs) = render_path rooted cs"
    using comps by (simp add: path_clean_def root)
qed

lemma path_clean_idem: "path_clean (path_clean s) = path_clean s"
proof (cases "s = []")
  case True
  then show ?thesis by (simp add: path_clean_def render_path_def clean_comps_def)
next
  case False
  then show ?thesis
    by (simp add: path_clean_def [of s] Let_def path_clean_render clean_comps_stack)
qed

lemma path_clean_components:
  "\<exists>rooted cs. clean_stack rooted (rev cs) \<and> path_clean s = render_path rooted cs"
proof (cases "s = []")
  case True
  then show ?thesis
    by (intro exI [of _ False] exI [of _ "[]"]) (simp add: path_clean_def render_path_def)
next
  case False
  then show ?thesis
    unfolding path_clean_def Let_def using clean_comps_stack by auto
qed

section \<open>path.Match\<close>

text \<open>\<open>scanChunk\<close>: the leading stars, then the bytes up to the next star outside a class.\<close>

fun scan_chunk_body :: "bool \<Rightarrow> string \<Rightarrow> string \<times> string" where
  "scan_chunk_body inrange [] = ([], [])"
| "scan_chunk_body inrange (c # p) =
     (if c = CHR 0x5C then
        (case p of
           [] \<Rightarrow> ([c], [])
         | d # q \<Rightarrow> (let (ch, rest) = scan_chunk_body inrange q in (c # d # ch, rest)))
      else if c = CHR ''*'' \<and> \<not> inrange then ([], c # p)
      else (let inr = (if c = CHR ''['' then True else if c = CHR '']'' then False else inrange);
                (ch, rest) = scan_chunk_body inr p
            in (c # ch, rest)))"

definition scan_chunk :: "string \<Rightarrow> bool \<times> string \<times> string" where
  "scan_chunk p =
     (let q = dropWhile (\<lambda>c. c = CHR ''*'') p;
          (ch, rest) = scan_chunk_body False q
      in (q \<noteq> p, ch, rest))"

text \<open>\<open>getEsc\<close>: one possibly escaped byte of a class; \<open>None\<close> is \<open>ErrBadPattern\<close>.\<close>

definition get_esc :: "string \<Rightarrow> (char \<times> string) option" where
  "get_esc p =
     (case p of
        [] \<Rightarrow> None
      | c # p' \<Rightarrow>
          if c = CHR ''-'' \<or> c = CHR '']'' then None
          else (let q = (if c = CHR 0x5C then p' else p)
                in case q of
                     [] \<Rightarrow> None
                   | d # rest \<Rightarrow> if rest = [] then None else Some (d, rest)))"

lemma get_esc_length: "get_esc p = Some (c, q) \<Longrightarrow> length q < length p"
  by (auto simp: get_esc_def Let_def split: list.splits if_splits)

text \<open>The ranges of a class, up to its closing bracket: whether \<open>r\<close> is in one of them, and the
  pattern behind the class.\<close>

function class_ranges :: "char \<Rightarrow> bool \<Rightarrow> bool \<Rightarrow> string \<Rightarrow> (bool \<times> string) option" where
  "class_ranges r some_range matched p =
     (if some_range \<and> p \<noteq> [] \<and> hd p = CHR '']'' then Some (matched, tl p)
      else case get_esc p of
             None \<Rightarrow> None
           | Some (lo, q) \<Rightarrow>
               if hd q = CHR ''-'' then
                 (case get_esc (tl q) of
                    None \<Rightarrow> None
                  | Some (hi, q') \<Rightarrow>
                      class_ranges r True (matched \<or> (lo \<le> r \<and> r \<le> hi)) q')
               else class_ranges r True (matched \<or> r = lo) q)"
  by pat_completeness auto
termination
proof (relation "measure (\<lambda>(r, b, m, p). length p)")
  show "wf (measure (\<lambda>(r :: char, b :: bool, m :: bool, p :: string). length p))" by simp
next
  fix r b m p x lo q y hi q'
  assume "get_esc p = Some x" "(lo, q) = x" "get_esc (tl q) = Some y" "(hi, q') = y"
  then have "length q < length p" "length q' < length (tl q)"
    by (auto dest: get_esc_length)
  then show "((r, True, m \<or> lo \<le> r \<and> r \<le> hi, q'), r, b, m, p)
             \<in> measure (\<lambda>(r, b, m, p). length p)" by simp
next
  fix r b m p x lo q
  assume "get_esc p = Some x" "(lo, q) = x"
  then show "((r, True, m \<or> r = lo, q), r, b, m, p) \<in> measure (\<lambda>(r, b, m, p). length p)"
    by (auto dest: get_esc_length)
qed

declare class_ranges.simps [simp del]

lemma class_ranges_length:
  "class_ranges r b m p = Some (x, q) \<Longrightarrow> length q < length p"
proof (induction r b m p arbitrary: x q rule: class_ranges.induct)
  case (1 r b m p)
  show ?case
  proof (cases "b \<and> p \<noteq> [] \<and> hd p = CHR '']''")
    case True
    then have "class_ranges r b m p = Some (m, tl p)" by (subst class_ranges.simps) simp
    with "1.prems" have "tl p = q" by simp
    with True show ?thesis by (auto simp: neq_Nil_conv)
  next
    case False
    with "1.prems" obtain lo p1 where lo: "get_esc p = Some (lo, p1)"
      by (auto simp: class_ranges.simps [of r b m p] split: option.splits if_splits)
    then have l1: "length p1 < length p" by (rule get_esc_length)
    show ?thesis
    proof (cases "hd p1 = CHR ''-''")
      case True
      with False lo "1.prems" obtain hi p2 where hi: "get_esc (tl p1) = Some (hi, p2)"
        and rec: "class_ranges r True (m \<or> lo \<le> r \<and> r \<le> hi) p2 = Some (x, q)"
        by (auto simp: class_ranges.simps [of r b m p] split: option.splits if_splits)
      from hi have "length p2 < length (tl p1)" by (rule get_esc_length)
      moreover from "1.IH"(1) [OF False lo refl True hi refl rec] have "length q < length p2" .
      ultimately show ?thesis using l1 by simp
    next
      case noHi: False
      with False lo "1.prems" have rec: "class_ranges r True (m \<or> r = lo) p1 = Some (x, q)"
        by (auto simp: class_ranges.simps [of r b m p] split: option.splits if_splits)
      from "1.IH"(2) [OF False lo refl noHi rec] l1 show ?thesis by simp
    qed
  qed
qed

text \<open>\<open>matchChunk\<close>: the rest of the name behind a matched chunk. Both a mismatch and a malformed
  chunk are \<open>None\<close>: the boolean result of \<open>path.Match\<close> is the same for the two.\<close>

function match_chunk :: "string \<Rightarrow> string \<Rightarrow> string option" where
  "match_chunk [] s = Some s"
| "match_chunk (c # p) s =
     (case s of
        [] \<Rightarrow> None
      | x # s' \<Rightarrow>
          if c = CHR ''['' then
            (let negated = (p \<noteq> [] \<and> hd p = CHR ''^'');
                 q = (if negated then tl p else p)
             in case class_ranges x False False q of
                  None \<Rightarrow> None
                | Some (m, p') \<Rightarrow> if m = negated then None else match_chunk p' s')
          else if c = CHR ''?'' then (if x = slash then None else match_chunk p s')
          else if c = CHR 0x5C then
            (case p of
               [] \<Rightarrow> None
             | d # p' \<Rightarrow> if d = x then match_chunk p' s' else None)
          else if c = x then match_chunk p s' else None)"
  by pat_completeness auto
termination
  by (relation "measure (\<lambda>(p, s). length s)") auto

fun skip_match :: "string \<Rightarrow> bool \<Rightarrow> string \<Rightarrow> string option" where
  "skip_match chunk last_chunk [] = None"
| "skip_match chunk last_chunk (x # s) =
     (if x = slash then None
      else case match_chunk chunk s of
             Some t \<Rightarrow> if last_chunk \<and> t \<noteq> [] then skip_match chunk last_chunk s else Some t
           | None \<Rightarrow> skip_match chunk last_chunk s)"

lemma scan_chunk_body_length:
  "scan_chunk_body r p = (ch, rest) \<Longrightarrow> length ch + length rest = length p"
proof (induction r p arbitrary: ch rest rule: scan_chunk_body.induct)
  case (1 r)
  then show ?case by simp
next
  case (2 r c p)
  show ?case
  proof (cases "c = CHR 0x5C")
    case True
    with 2 show ?thesis by (cases p) (auto split: prod.splits)
  next
    case False
    define inr where
      "inr = (if c = CHR ''['' then True else if c = CHR '']'' then False else r)"
    obtain ch' rest' where rec: "scan_chunk_body inr p = (ch', rest')" by force
    from "2.IH"(2) [OF False _ inr_def rec] rec False "2.prems" show ?thesis
      by (auto simp: inr_def Let_def split: if_splits)
  qed
qed

lemma scan_chunk_body_progress:
  "p \<noteq> [] \<Longrightarrow> hd p \<noteq> CHR ''*'' \<Longrightarrow> scan_chunk_body False p = (ch, rest) \<Longrightarrow> ch \<noteq> []"
  by (cases p) (auto simp: Let_def split: if_splits list.splits prod.splits)

lemma scan_chunk_progress:
  assumes "p \<noteq> []" "scan_chunk p = (star, ch, rest)"
  shows "length rest < length p"
proof -
  let ?q = "dropWhile (\<lambda>c. c = CHR ''*'') p"
  from assms(2) have sb: "scan_chunk_body False ?q = (ch, rest)"
    by (simp add: scan_chunk_def Let_def split: prod.splits)
  have l: "length ch + length rest = length ?q" by (rule scan_chunk_body_length [OF sb])
  have lq: "length ?q \<le> length p" by (rule length_dropWhile_le)
  show ?thesis
  proof (cases "?q = []")
    case True
    with l assms(1) show ?thesis by simp
  next
    case False
    then have "hd ?q \<noteq> CHR ''*''" using hd_dropWhile by blast
    from scan_chunk_body_progress [OF False this sb] have "0 < length ch" by simp
    with l lq show ?thesis by linarith
  qed
qed

function path_match :: "string \<Rightarrow> string \<Rightarrow> bool" where
  "path_match pattern name =
     (if pattern = [] then name = []
      else case scan_chunk pattern of
             (star, chunk, rest) \<Rightarrow>
               if star \<and> chunk = [] then slash \<notin> set name
               else case match_chunk chunk name of
                      Some t \<Rightarrow>
                        if t = [] \<or> rest \<noteq> [] then path_match rest t
                        else if star then
                          (case skip_match chunk (rest = []) name of
                             Some t' \<Rightarrow> path_match rest t' | None \<Rightarrow> False)
                        else False
                    | None \<Rightarrow>
                        if star then
                          (case skip_match chunk (rest = []) name of
                             Some t' \<Rightarrow> path_match rest t' | None \<Rightarrow> False)
                        else False)"
  by pat_completeness auto
termination
  by (relation "measure (\<lambda>(p, n). length p)") (auto dest!: scan_chunk_progress [OF _ sym])

declare path_match.simps [simp del]

end
