(* ===== verification/Territory.thy ===== *)
theory Territory
  imports Go_Path
begin

text \<open>
  Territories and their collisions: \<open>pkg/protocol/federation.go\<close>.

  An \<open>ActiveTerritory\<close> is what a task claims of a repository. \<open>ClashesWith\<close> decides whether
  two territories collide and why, \<open>ClashesWithOther\<close> ignores a task's own record, and
  \<open>FindConflict\<close> searches the manifest of a cluster. The SHA-256 digest (in hex) is the
  parameter \<open>sha\<close>; where a theorem needs it, \<open>digest_ok\<close> says that digests are not empty and do
  not collide.
\<close>

section \<open>Data\<close>

record ActiveTerritory =
  at_TaskID :: string
  at_Repo :: string
  at_Branch :: string
  at_EditSurfaces :: "string list"
  at_Agent :: string
  at_TaskSummary :: string
  at_NodeID :: string
  at_StartedAt :: int
  at_Domain :: string
  at_BlastRadius :: string
  at_Phase :: string
  at_CurrentAction :: string
  at_LastActivityAt :: int

abbreviation BlastRadiusIsolated :: string where
  "BlastRadiusIsolated \<equiv> ''isolated-branch''"

datatype ConflictType = ConflictBranchLocked | ConflictSurfaceOverlap | ConflictDuplicateTask

record TerritoryConflict =
  tc_ConflictType :: ConflictType
  tc_ExistingTerritory :: ActiveTerritory
  tc_Message :: string

record TerritoryManifest =
  man_PeerID :: string
  man_ClusterName :: string
  man_Timestamp :: int
  man_Territories :: "ActiveTerritory list"

datatype TerritoryMode =
  TerritoryModeQueue | TerritoryModeWarn | TerritoryModeStrict | TerritoryModeDisabled
  | TerritoryModeOther string

fun TerritoryMode_Valid :: "TerritoryMode \<Rightarrow> bool" where
  "TerritoryMode_Valid TerritoryModeQueue = True"
| "TerritoryMode_Valid TerritoryModeWarn = True"
| "TerritoryMode_Valid TerritoryModeStrict = True"
| "TerritoryMode_Valid TerritoryModeDisabled = True"
| "TerritoryMode_Valid (TerritoryModeOther s) = False"

text \<open>The decoder's default for a missing blast radius (the JSON text itself is decoded by
  \<open>encoding/json\<close>).\<close>

definition UnmarshalJSON_default :: "ActiveTerritory \<Rightarrow> ActiveTerritory" where
  "UnmarshalJSON_default t =
     (if at_BlastRadius t = [] then t\<lparr>at_BlastRadius := BlastRadiusIsolated\<rparr> else t)"

section \<open>Normal forms\<close>

definition normalizeRepo :: "string \<Rightarrow> string" where
  "normalizeRepo repo =
     (let r = TrimSpace repo in
      if r = [] then []
      else let r1 = TrimSuffix r ''/'';
               r2 = TrimSuffix r1 ''.git'';
               r3 = (case Index r2 ''://'' of
                       Some idx \<Rightarrow> drop (idx + 3) r2
                     | None \<Rightarrow>
                         if HasPrefix r2 ''git@''
                         then replace_first (CHR '':'') slash (TrimPrefix r2 ''git@'')
                         else r2)
           in ToLower r3)"

definition repositoriesMatch :: "string \<Rightarrow> string \<Rightarrow> bool" where
  "repositoriesMatch repoA repoB =
     (let nA = normalizeRepo repoA; nB = normalizeRepo repoB
      in if nA = [] \<or> nB = [] then False else nA = nB)"

definition cleanSurface :: "string \<Rightarrow> string" where
  "cleanSurface s =
     (let s1 = TrimSpace s;
          s2 = TrimPrefix s1 ''./'';
          s3 = TrimSuffix s2 ''/'';
          cleaned = path_clean s3
      in if cleaned = [] \<or> cleaned = ''.'' then ''.'' else cleaned)"

definition glob_base :: "string \<Rightarrow> string" where
  "glob_base c = TrimSuffix (TrimSuffix c ''/*'') ''/**''"

text \<open>One of the two glob branches of \<open>surfacesOverlap\<close>: the pattern \<open>c1\<close> against \<open>c2\<close>.\<close>

definition glob_covers :: "string \<Rightarrow> string \<Rightarrow> bool" where
  "glob_covers c1 c2 \<longleftrightarrow>
     ContainsAny c1 ''*?[]'' \<and>
     (path_match c1 c2 \<or>
      (glob_base c1 \<noteq> c1 \<and> (c2 = glob_base c1 \<or> HasPrefix c2 (glob_base c1 @ ''/''))))"

definition surfacesOverlap :: "string \<Rightarrow> string \<Rightarrow> bool" where
  "surfacesOverlap s1 s2 =
     (let c1 = cleanSurface s1; c2 = cleanSurface s2 in
      if c1 = ''.'' \<or> c2 = ''.'' then True
      else if c1 = c2 then True
      else if HasPrefix c2 (c1 @ ''/'') \<or> HasPrefix c1 (c2 @ ''/'') then True
      else if glob_covers c1 c2 then True
      else if glob_covers c2 c1 then True
      else False)"

definition overlap_key :: "string \<Rightarrow> string \<Rightarrow> string" where
  "overlap_key a b =
     (if cleanSurface a \<noteq> cleanSurface b then cleanSurface a @ '' <-> '' @ cleanSurface b
      else cleanSurface a)"

fun add_overlap :: "string list \<Rightarrow> string \<times> string \<Rightarrow> string list" where
  "add_overlap overlaps (a, b) =
     (if surfacesOverlap a b then
        (if overlap_key a b \<in> set overlaps then overlaps else overlaps @ [overlap_key a b])
      else overlaps)"

definition findSurfaceOverlaps :: "string list \<Rightarrow> string list \<Rightarrow> string list" where
  "findSurfaceOverlaps surfacesA surfacesB =
     foldl add_overlap [] (List.product surfacesA surfacesB)"

definition normalizeTaskSummary :: "string \<Rightarrow> string" where
  "normalizeTaskSummary s =
     (let s1 = TrimSpace s in if s1 = [] then [] else Join (Fields (ToLower s1)) '' '')"

definition Fingerprint :: "(string \<Rightarrow> string) \<Rightarrow> ActiveTerritory \<Rightarrow> string" where
  "Fingerprint sha t =
     (let normRepo = normalizeRepo (at_Repo t);
          normSummary = normalizeTaskSummary (at_TaskSummary t)
      in if normRepo = [] \<and> normSummary = [] then []
         else sha (normRepo @ [CHR 0x0A] @ normSummary))"

section \<open>Collisions\<close>

definition conflict :: "ConflictType \<Rightarrow> ActiveTerritory \<Rightarrow> string \<Rightarrow> TerritoryConflict" where
  "conflict ty other msg =
     \<lparr>tc_ConflictType = ty, tc_ExistingTerritory = other, tc_Message = msg\<rparr>"

definition ClashesWith ::
  "(string \<Rightarrow> string) \<Rightarrow> ActiveTerritory \<Rightarrow> ActiveTerritory \<Rightarrow> TerritoryConflict option" where
  "ClashesWith sha t other =
     (if \<not> repositoriesMatch (at_Repo t) (at_Repo other) then None
      else let normBranchA = TrimSpace (at_Branch t); normBranchB = TrimSpace (at_Branch other) in
      if normBranchA \<noteq> [] \<and> normBranchB \<noteq> [] \<and> EqualFold normBranchA normBranchB then
        Some (conflict ConflictBranchLocked other
          (''branch '' @ quoted (at_Branch other) @ '' is already locked by task '' @
           quoted (at_TaskID other) @ '' on node '' @ quoted (at_NodeID other)))
      else let overlaps = findSurfaceOverlaps (at_EditSurfaces t) (at_EditSurfaces other) in
      if at_EditSurfaces t \<noteq> [] \<and> at_EditSurfaces other \<noteq> [] \<and> overlaps \<noteq> [] then
        Some (conflict ConflictSurfaceOverlap other
          (''edit surfaces overlap on ['' @ Join overlaps '', '' @ ''] with existing task '' @
           quoted (at_TaskID other)))
      else if at_TaskID t \<noteq> [] \<and> at_TaskID other \<noteq> [] \<and> at_TaskID t = at_TaskID other then
        Some (conflict ConflictDuplicateTask other
          (''duplicate task ID '' @ quoted (at_TaskID t) @ '' detected in repository '' @
           quoted (at_Repo other)))
      else let normSummaryA = normalizeTaskSummary (at_TaskSummary t);
               normSummaryB = normalizeTaskSummary (at_TaskSummary other) in
      if normSummaryA \<noteq> [] \<and> normSummaryB \<noteq> [] \<and> normSummaryA = normSummaryB then
        Some (conflict ConflictDuplicateTask other
          (''duplicate task detected with matching summary '' @ quoted (at_TaskSummary other) @
           '' (existing task '' @ quoted (at_TaskID other) @ '' on node '' @
           quoted (at_NodeID other) @ '')''))
      else let fpA = Fingerprint sha t; fpB = Fingerprint sha other in
      if fpA \<noteq> [] \<and> fpB \<noteq> [] \<and> fpA = fpB then
        Some (conflict ConflictDuplicateTask other
          (''duplicate task fingerprint match detected (existing task '' @
           quoted (at_TaskID other) @ '' on node '' @ quoted (at_NodeID other) @ '')''))
      else None)"

definition ClashesWithOther ::
  "(string \<Rightarrow> string) \<Rightarrow> ActiveTerritory \<Rightarrow> ActiveTerritory \<Rightarrow> TerritoryConflict option" where
  "ClashesWithOther sha t other =
     (if at_TaskID t \<noteq> [] \<and> at_TaskID other \<noteq> [] \<and> at_TaskID t = at_TaskID other then None
      else ClashesWith sha t other)"

fun first_conflict :: "('a \<Rightarrow> 'b option) \<Rightarrow> 'a list \<Rightarrow> 'b option" where
  "first_conflict f [] = None"
| "first_conflict f (x # xs) = (case f x of Some c \<Rightarrow> Some c | None \<Rightarrow> first_conflict f xs)"

definition FindConflict ::
  "(string \<Rightarrow> string) \<Rightarrow> TerritoryManifest \<Rightarrow> ActiveTerritory \<Rightarrow> TerritoryConflict option" where
  "FindConflict sha m target = first_conflict (ClashesWith sha target) (man_Territories m)"

section \<open>Surfaces\<close>

lemma findSurfaceOverlaps_foldl:
  "foldl add_overlap acc ps \<noteq> [] \<longleftrightarrow> acc \<noteq> [] \<or> (\<exists>(a, b) \<in> set ps. surfacesOverlap a b)"
proof (induction ps arbitrary: acc)
  case Nil
  then show ?case by simp
next
  case (Cons p ps)
  then show ?case by (cases p) auto
qed

lemma findSurfaceOverlaps_neq_Nil:
  "findSurfaceOverlaps A B \<noteq> [] \<longleftrightarrow> (\<exists>a \<in> set A. \<exists>b \<in> set B. surfacesOverlap a b)"
  unfolding findSurfaceOverlaps_def findSurfaceOverlaps_foldl by auto

lemma surfacesOverlap_comm: "surfacesOverlap s1 s2 = surfacesOverlap s2 s1"
  by (auto simp: surfacesOverlap_def Let_def)

lemma HasPrefix_slash_iff:
  "HasPrefix c2 (c1 @ ''/'') \<longleftrightarrow> strict_prefix (split_on slash c1) (split_on slash c2)"
proof
  assume "HasPrefix c2 (c1 @ ''/'')"
  then obtain t where "c2 = c1 @ slash # t"
    by (auto simp: HasPrefix_iff_prefix prefix_def)
  then show "strict_prefix (split_on slash c1) (split_on slash c2)"
    by (simp add: split_on_append_delim strict_prefix_def)
next
  assume "strict_prefix (split_on slash c1) (split_on slash c2)"
  then obtain r where r: "split_on slash c2 = split_on slash c1 @ r" and "r \<noteq> []"
    by (auto simp: strict_prefix_def prefix_def)
  have "c2 = Join (split_on slash c1 @ r) ''/''"
    by (metis Join_split_on r)
  also have "\<dots> = c1 @ ''/'' @ Join r ''/''"
    using \<open>r \<noteq> []\<close> by (simp add: Join_append Join_split_on)
  finally show "HasPrefix c2 (c1 @ ''/'')"
    by (auto simp: HasPrefix_iff_prefix prefix_def)
qed

definition surface_path :: "string \<Rightarrow> string list" where
  "surface_path s = split_on slash (cleanSurface s)"

definition plain_surface :: "string \<Rightarrow> bool" where
  "plain_surface s \<longleftrightarrow> \<not> ContainsAny (cleanSurface s) ''*?[]'' \<and> cleanSurface s \<noteq> ''.''"

text \<open>Two surfaces without wildcards, neither of which is the whole workspace, overlap
  exactly when the path of one is an ancestor of, or equal to, the path of the other.\<close>

theorem surfacesOverlap_plain:
  assumes "plain_surface s1" and "plain_surface s2"
  shows "surfacesOverlap s1 s2 \<longleftrightarrow>
     prefix (surface_path s1) (surface_path s2) \<or> prefix (surface_path s2) (surface_path s1)"
proof -
  have "\<not> glob_covers (cleanSurface s1) (cleanSurface s2)"
    "\<not> glob_covers (cleanSurface s2) (cleanSurface s1)"
    using assms by (auto simp: plain_surface_def glob_covers_def)
  then have "surfacesOverlap s1 s2 \<longleftrightarrow>
      cleanSurface s1 = cleanSurface s2 \<or>
      strict_prefix (surface_path s1) (surface_path s2) \<or>
      strict_prefix (surface_path s2) (surface_path s1)"
    using assms
    by (simp add: surfacesOverlap_def plain_surface_def Let_def surface_path_def
        HasPrefix_slash_iff)
  moreover have "cleanSurface s1 = cleanSurface s2 \<longleftrightarrow> surface_path s1 = surface_path s2"
    by (simp add: surface_path_def split_on_inj)
  ultimately show ?thesis by (auto simp: strict_prefix_def)
qed

theorem surfacesOverlap_plain_witness:
  "plain_surface ''./pkg/server/'' \<and> plain_surface ''pkg/server/http'' \<and>
   surfacesOverlap ''./pkg/server/'' ''pkg/server/http''"
proof -
  have p1: "plain_surface ''./pkg/server/''" by code_simp
  have p2: "plain_surface ''pkg/server/http''" by code_simp
  have "prefix (surface_path ''./pkg/server/'') (surface_path ''pkg/server/http'')" by code_simp
  with surfacesOverlap_plain [OF p1 p2] p1 p2 show ?thesis by blast
qed

text \<open>A wildcard surface and a directory can share files that the check does not see: the
  pattern covers a file below the directory, and still the two surfaces are reported as
  disjoint, because the pattern is only matched against the directory itself.\<close>

theorem surfacesOverlap_misses_glob_below_directory:
  "path_match ''src/*/api.go'' ''src/auth/api.go'' \<and>
   HasPrefix ''src/auth/api.go'' (''src/auth'' @ ''/'') \<and>
   \<not> surfacesOverlap ''src/*/api.go'' ''src/auth''"
  by code_simp

section \<open>Repositories\<close>

lemma repositoriesMatch_comm: "repositoriesMatch a b = repositoriesMatch b a"
  by (auto simp: repositoriesMatch_def Let_def)

lemma repositoriesMatch_iff:
  "repositoriesMatch a b \<longleftrightarrow> normalizeRepo a = normalizeRepo b \<and> normalizeRepo a \<noteq> []"
  by (auto simp: repositoriesMatch_def Let_def)

lemma TrimSpace_tight:
  assumes "s \<noteq> []" "\<not> is_space (hd s)" "\<not> is_space (last s)"
  shows "TrimSpace s = s"
proof -
  have "dropWhile is_space s = s" using assms(1,2) by (cases s) auto
  moreover have "dropWhile is_space (rev s) = rev s"
    using assms(1,3) by (cases s rule: rev_cases) auto
  ultimately show ?thesis by (simp add: TrimSpace_def)
qed

lemma Index_none: "CHR '':'' \<notin> set s \<Longrightarrow> Index s ''://'' = None"
  by (induction s) (auto simp: HasPrefix_def take_Cons')

lemma Index_skip:
  "CHR '':'' \<notin> set p \<Longrightarrow> Index (p @ s) ''://'' = map_option (\<lambda>n. n + length p) (Index s ''://'')"
proof (induction p)
  case Nil
  then show ?case by (simp add: option.map_ident)
next
  case (Cons c p)
  then show ?case
    by (auto simp: HasPrefix_def take_Cons' option.map_comp comp_def)
qed

lemma replace_first_skip:
  "c \<notin> set p \<Longrightarrow> replace_first c d (p @ c # s) = p @ d # s"
  by (induction p) auto

lemma TrimSuffix_other:
  "p \<noteq> [] \<Longrightarrow> s \<noteq> [] \<Longrightarrow> last s \<noteq> last p \<Longrightarrow> TrimSuffix s p = s"
  by (auto simp: TrimSuffix_def HasSuffix_iff_suffix suffix_def)

lemma normalizeRepo_https:
  assumes "CHR '':'' \<notin> set r"
  shows "normalizeRepo (''https://'' @ r @ ''.git'') = ToLower r"
proof -
  let ?u = "''https://'' @ r @ ''.git''"
  have "TrimSpace ?u = ?u"
    by (rule TrimSpace_tight) (auto simp: is_space_def)
  moreover have "TrimSuffix ?u ''/'' = ?u"
    by (rule TrimSuffix_other) auto
  moreover have "TrimSuffix ?u ''.git'' = ''https://'' @ r"
    using TrimSuffix_append [of "''https://'' @ r" "''.git''"] by simp
  moreover have "Index (''https://'' @ r) ''://'' = Some 5"
    by (simp add: HasPrefix_def)
  ultimately show ?thesis by (simp add: normalizeRepo_def Let_def)
qed

lemma normalizeRepo_ssh:
  assumes "CHR '':'' \<notin> set host" and "CHR '':'' \<notin> set path" and "\<not> prefix ''//'' path"
  shows "normalizeRepo (''git@'' @ host @ '':'' @ path @ ''.git'') = ToLower (host @ ''/'' @ path)"
proof -
  let ?r = "''git@'' @ host @ '':'' @ path"
  let ?u = "?r @ ''.git''"
  have "TrimSpace ?u = ?u"
    by (rule TrimSpace_tight) (auto simp: is_space_def)
  moreover have "TrimSuffix ?u ''/'' = ?u"
    by (rule TrimSuffix_other) auto
  moreover have "TrimSuffix ?u ''.git'' = ?r"
    by (rule TrimSuffix_append)
  moreover have "Index ?r ''://'' = None"
  proof -
    have "Index ('':'' @ path) ''://'' = None"
      using assms(2,3) Index_none [of path] by (auto simp: HasPrefix_iff_prefix)
    then show ?thesis
      using Index_skip [of "''git@'' @ host" "'':'' @ path"] assms(1) by simp
  qed
  moreover have "HasPrefix ?r ''git@''" by (simp add: HasPrefix_def)
  moreover have "replace_first (CHR '':'') slash (TrimPrefix ?r ''git@'') = host @ ''/'' @ path"
    using replace_first_skip [OF assms(1), of slash path]
    by (simp only: TrimPrefix_append) simp
  ultimately show ?thesis by (simp add: normalizeRepo_def Let_def)
qed

text \<open>The HTTPS and the SSH spelling of a clone URL name the same repository: both have the
  same non-empty normal form, so territories that use different spellings are compared.\<close>

theorem normalizeRepo_https_ssh:
  assumes "CHR '':'' \<notin> set host" and "CHR '':'' \<notin> set path" and "\<not> prefix ''//'' path"
  shows "repositoriesMatch (''https://'' @ host @ ''/'' @ path @ ''.git'')
                           (''git@'' @ host @ '':'' @ path @ ''.git'')"
proof -
  have "normalizeRepo (''https://'' @ (host @ ''/'' @ path) @ ''.git'') = ToLower (host @ ''/'' @ path)"
    using assms by (intro normalizeRepo_https) auto
  with normalizeRepo_ssh [OF assms] show ?thesis
    by (simp add: repositoriesMatch_iff)
qed

theorem normalizeRepo_https_ssh_witness:
  "repositoriesMatch (''https://'' @ ''GitHub.com'' @ ''/'' @ ''org/repo'' @ ''.git'')
                     (''git@'' @ ''GitHub.com'' @ '':'' @ ''org/repo'' @ ''.git'')"
  by (rule normalizeRepo_https_ssh) simp_all

section \<open>The collision relation\<close>

definition same_branch :: "ActiveTerritory \<Rightarrow> ActiveTerritory \<Rightarrow> bool" where
  "same_branch t u \<longleftrightarrow>
     TrimSpace (at_Branch t) \<noteq> [] \<and> EqualFold (TrimSpace (at_Branch t)) (TrimSpace (at_Branch u))"

definition surfaces_meet :: "ActiveTerritory \<Rightarrow> ActiveTerritory \<Rightarrow> bool" where
  "surfaces_meet t u \<longleftrightarrow>
     (\<exists>a \<in> set (at_EditSurfaces t). \<exists>b \<in> set (at_EditSurfaces u). surfacesOverlap a b)"

definition same_task :: "ActiveTerritory \<Rightarrow> ActiveTerritory \<Rightarrow> bool" where
  "same_task t u \<longleftrightarrow> at_TaskID t \<noteq> [] \<and> at_TaskID t = at_TaskID u"

definition same_summary :: "ActiveTerritory \<Rightarrow> ActiveTerritory \<Rightarrow> bool" where
  "same_summary t u \<longleftrightarrow>
     normalizeTaskSummary (at_TaskSummary t) = normalizeTaskSummary (at_TaskSummary u)"

definition digest_ok :: "(string \<Rightarrow> string) \<Rightarrow> bool" where
  "digest_ok sha \<longleftrightarrow> inj sha \<and> (\<forall>x. sha x \<noteq> [])"

lemma same_branch_comm: "same_branch t u = same_branch u t"
  by (auto simp: same_branch_def EqualFold_def ToLower_def)

lemma surfaces_meet_comm: "surfaces_meet t u = surfaces_meet u t"
  unfolding surfaces_meet_def using surfacesOverlap_comm by blast

lemma same_branch_iff:
  "same_branch t u \<longleftrightarrow>
     TrimSpace (at_Branch t) \<noteq> [] \<and> TrimSpace (at_Branch u) \<noteq> [] \<and>
     EqualFold (TrimSpace (at_Branch t)) (TrimSpace (at_Branch u))"
  by (metis same_branch_def same_branch_comm)

lemma surfaces_meet_iff:
  "surfaces_meet t u \<longleftrightarrow>
     at_EditSurfaces t \<noteq> [] \<and> at_EditSurfaces u \<noteq> [] \<and>
     findSurfaceOverlaps (at_EditSurfaces t) (at_EditSurfaces u) \<noteq> []"
  unfolding surfaces_meet_def findSurfaceOverlaps_neq_Nil by auto

lemma ClashesWith_Some_iff:
  "ClashesWith sha t u \<noteq> None \<longleftrightarrow>
     repositoriesMatch (at_Repo t) (at_Repo u) \<and>
     (same_branch t u \<or> surfaces_meet t u \<or> same_task t u \<or>
      (same_summary t u \<and> normalizeTaskSummary (at_TaskSummary t) \<noteq> []) \<or>
      (Fingerprint sha t \<noteq> [] \<and> Fingerprint sha t = Fingerprint sha u))"
  unfolding ClashesWith_def Let_def same_branch_iff surfaces_meet_iff same_task_def same_summary_def
  by auto

lemma ClashesWith_existing: "ClashesWith sha t u = Some c \<Longrightarrow> tc_ExistingTerritory c = u"
  unfolding ClashesWith_def Let_def by (auto simp: conflict_def split: if_splits)

text \<open>What a collision is: two territories collide exactly when they name the same
  repository and, in it, the same branch up to letter case, overlapping surfaces, the same task
  id, or the same normalised task summary. Two blank summaries are the same summary.\<close>

theorem ClashesWith_iff:
  assumes "digest_ok sha"
  shows "ClashesWith sha t u \<noteq> None \<longleftrightarrow>
     repositoriesMatch (at_Repo t) (at_Repo u) \<and>
     (same_branch t u \<or> surfaces_meet t u \<or> same_task t u \<or> same_summary t u)"
proof -
  have "(same_summary t u \<and> normalizeTaskSummary (at_TaskSummary t) \<noteq> []) \<or>
        (Fingerprint sha t \<noteq> [] \<and> Fingerprint sha t = Fingerprint sha u) \<longleftrightarrow> same_summary t u"
    if "repositoriesMatch (at_Repo t) (at_Repo u)"
    using that assms
    by (auto simp: repositoriesMatch_iff Fingerprint_def Let_def same_summary_def digest_ok_def
        inj_eq)
  then show ?thesis unfolding ClashesWith_Some_iff by blast
qed

definition sample_territory :: "string \<Rightarrow> string \<Rightarrow> ActiveTerritory" where
  "sample_territory tid branch =
     \<lparr>at_TaskID = tid, at_Repo = ''github.com/org/repo'', at_Branch = branch,
      at_EditSurfaces = [], at_Agent = [], at_TaskSummary = tid, at_NodeID = [],
      at_StartedAt = 0, at_Domain = [], at_BlastRadius = [], at_Phase = [],
      at_CurrentAction = [], at_LastActivityAt = 0\<rparr>"

lemma digest_ok_Cons: "digest_ok (Cons c)"
  by (simp add: digest_ok_def inj_def)

theorem ClashesWith_iff_witness:
  "digest_ok (Cons (CHR ''h'')) \<and>
   ClashesWith (Cons (CHR ''h'')) (sample_territory ''a'' ''main'') (sample_territory ''b'' ''MAIN'')
     \<noteq> None"
proof -
  have "repositoriesMatch ''github.com/org/repo'' ''github.com/org/repo''" by code_simp
  moreover have "same_branch (sample_territory ''a'' ''main'') (sample_territory ''b'' ''MAIN'')"
    by code_simp
  ultimately show ?thesis
    using ClashesWith_iff [OF digest_ok_Cons] digest_ok_Cons
    by (simp add: sample_territory_def)
qed

text \<open>Collision does not depend on who asks: a territory collides with another exactly when
  the other collides with it.\<close>

theorem ClashesWith_sym: "ClashesWith sha t u = None \<longleftrightarrow> ClashesWith sha u t = None"
proof -
  have "ClashesWith sha t u \<noteq> None \<longleftrightarrow> ClashesWith sha u t \<noteq> None"
    unfolding ClashesWith_Some_iff same_branch_comm [of t u] surfaces_meet_comm [of t u]
      repositoriesMatch_comm [of "at_Repo t"]
    by (auto simp: same_task_def same_summary_def)
  then show ?thesis by blast
qed

lemma first_conflict_None: "first_conflict f xs = None \<longleftrightarrow> (\<forall>x \<in> set xs. f x = None)"
  by (induction xs) (auto split: option.splits)

lemma first_conflict_SomeD:
  "first_conflict f xs = Some c \<Longrightarrow>
     \<exists>ys x zs. xs = ys @ x # zs \<and> f x = Some c \<and> (\<forall>y \<in> set ys. f y = None)"
proof (induction xs)
  case Nil
  then show ?case by simp
next
  case (Cons a xs)
  show ?case
  proof (cases "f a")
    case None
    with Cons obtain ys x zs where "xs = ys @ x # zs" "f x = Some c" "\<forall>y \<in> set ys. f y = None"
      by auto
    with None show ?thesis by (intro exI [of _ "a # ys"] exI [of _ x] exI [of _ zs]) auto
  next
    case (Some b)
    with Cons.prems have "a # xs = [] @ a # xs \<and> f a = Some c" by simp
    then show ?thesis by (metis empty_iff empty_set)
  qed
qed

lemma first_conflict_append:
  "\<forall>y \<in> set ys. f y = None \<Longrightarrow> first_conflict f (ys @ zs) = first_conflict f zs"
  by (induction ys) auto

text \<open>The search of a manifest is complete and stops at the first collision in its order,
  and the record it reports is the existing territory it collided with.\<close>

theorem FindConflict_first:
  "FindConflict sha m target = Some c \<longleftrightarrow>
     (\<exists>before u after. man_Territories m = before @ u # after \<and>
        ClashesWith sha target u = Some c \<and> tc_ExistingTerritory c = u \<and>
        (\<forall>v \<in> set before. ClashesWith sha target v = None))"
proof
  assume "FindConflict sha m target = Some c"
  then show "\<exists>before u after. man_Territories m = before @ u # after \<and>
        ClashesWith sha target u = Some c \<and> tc_ExistingTerritory c = u \<and>
        (\<forall>v \<in> set before. ClashesWith sha target v = None)"
    unfolding FindConflict_def by (fast dest: first_conflict_SomeD intro: ClashesWith_existing)
qed (auto simp: FindConflict_def first_conflict_append)

theorem FindConflict_first_witness:
  "\<exists>c. FindConflict (Cons (CHR ''h''))
     \<lparr>man_PeerID = ''p'', man_ClusterName = [], man_Timestamp = 0,
      man_Territories = [sample_territory ''a'' ''dev'', sample_territory ''b'' ''main'',
                         sample_territory ''c'' ''MAIN'']\<rparr>
     (sample_territory ''d'' ''main'') = Some c \<and>
     tc_ExistingTerritory c = sample_territory ''b'' ''main''"
proof -
  let ?sha = "Cons (CHR ''h'')" and ?d = "sample_territory ''d'' ''main''"
  let ?before = "[sample_territory ''a'' ''dev'']" and ?u = "sample_territory ''b'' ''main''"
  have none: "ClashesWith ?sha ?d (sample_territory ''a'' ''dev'') = None" by code_simp
  have "ClashesWith ?sha ?d ?u \<noteq> None" by code_simp
  then obtain c where c: "ClashesWith ?sha ?d ?u = Some c" by blast
  then have "tc_ExistingTerritory c = ?u" by (rule ClashesWith_existing)
  then show ?thesis
    using c none
    by (subst FindConflict_first)
      (intro exI [of _ c] conjI exI [of _ ?before] exI [of _ ?u]
        exI [of _ "[sample_territory ''c'' ''MAIN'']"], auto)
qed

end
