(* ===== verification/Branch_Locks.thy ===== *)
theory Branch_Locks
  imports Territory
begin

text \<open>
  The exclusive branch locks of the coordinator: \<open>pkg/server/registry/lock.go\<close>.

  The lock table maps a normalised \<open>branchKey\<close> to the task that holds it. \<open>ClaimLock\<close> and
  \<open>ReleaseLock\<close> return the error of the Go function (\<open>None\<close> for \<open>nil\<close>) and the new table. The
  locale \<open>exclusive_lock\<close> states what a client of the table may rely on; its lemmas on
  interleavings of claims and releases are proved once there and interpreted on the model.
\<close>

section \<open>The interface of an exclusive lock\<close>

text \<open>A request \<open>'r\<close> names a lock through \<open>key\<close>; a request without a key is a no-op. \<open>now\<close> is the
  time of the call.\<close>

datatype ('r, 't) lock_call = Claim int 'r 't | Release 'r 't

fun run_calls ::
  "(int \<Rightarrow> 's \<Rightarrow> 'r \<Rightarrow> 't \<Rightarrow> bool \<times> 's) \<Rightarrow> ('s \<Rightarrow> 'r \<Rightarrow> 't \<Rightarrow> bool \<times> 's) \<Rightarrow>
   's \<Rightarrow> ('r, 't) lock_call list \<Rightarrow> 's" where
  "run_calls claim release s [] = s"
| "run_calls claim release s (Claim now r t # cs) =
     run_calls claim release (snd (claim now s r t)) cs"
| "run_calls claim release s (Release r t # cs) =
     run_calls claim release (snd (release s r t)) cs"

lemma run_calls_append:
  "run_calls claim release s (xs @ ys) =
   run_calls claim release (run_calls claim release s xs) ys"
  by (induction claim release s xs rule: run_calls.induct) auto

locale exclusive_lock =
  fixes key :: "'r \<Rightarrow> 'k option"
    and holder :: "'s \<Rightarrow> 'k \<Rightarrow> 't option"
    and claim :: "int \<Rightarrow> 's \<Rightarrow> 'r \<Rightarrow> 't \<Rightarrow> bool \<times> 's"
    and release :: "'s \<Rightarrow> 'r \<Rightarrow> 't \<Rightarrow> bool \<times> 's"
  assumes claim_no_key: "key r = None \<Longrightarrow> claim now s r t = (True, s)"
    and release_no_key: "key r = None \<Longrightarrow> release s r t = (True, s)"
    and claim_ok: "key r = Some k \<Longrightarrow>
          fst (claim now s r t) \<longleftrightarrow> holder s k = None \<or> holder s k = Some t"
    and claim_holder: "key r = Some k \<Longrightarrow>
          holder (snd (claim now s r t)) k' =
            (if k' = k \<and> fst (claim now s r t) then Some t else holder s k')"
    and release_ok: "key r = Some k \<Longrightarrow>
          fst (release s r t) \<longleftrightarrow> holder s k = None \<or> holder s k = Some t"
    and release_holder: "key r = Some k \<Longrightarrow>
          holder (snd (release s r t)) k' =
            (if k' = k \<and> holder s k = Some t then None else holder s k')"
begin

lemma claim_keeps: "holder s k = Some t \<Longrightarrow> holder (snd (claim now s r u)) k = Some t"
  by (cases "key r"; cases "u = t") (auto simp: claim_no_key claim_holder claim_ok split: if_splits)

lemma release_keeps:
  "holder s k = Some t \<Longrightarrow> \<not> (key r = Some k \<and> u = t) \<Longrightarrow>
   holder (snd (release s r u)) k = Some t"
  by (cases "key r") (auto simp: release_no_key release_holder)

text \<open>A held lock survives every interleaving of calls in which its holder does not release it.\<close>

lemma held_until_released:
  assumes "holder s k = Some t"
    and "\<And>r. Release r t \<in> set cs \<Longrightarrow> key r \<noteq> Some k"
  shows "holder (run_calls claim release s cs) k = Some t"
  using assms
proof (induction cs arbitrary: s)
  case Nil
  then show ?case by simp
next
  case (Cons c cs)
  show ?case
  proof (cases c)
    case (Claim now r u)
    with Cons.prems have "holder (snd (claim now s r u)) k = Some t"
      by (simp add: claim_keeps)
    with Cons.IH Cons.prems Claim show ?thesis by simp
  next
    case (Release r u)
    with Cons.prems have "\<not> (key r = Some k \<and> u = t)" by auto
    with Cons.prems have "holder (snd (release s r u)) k = Some t"
      by (simp add: release_keeps)
    with Cons.IH Cons.prems Release show ?thesis by simp
  qed
qed

text \<open>Hence nobody else acquires it in between, and the holder can always claim it again.\<close>

lemma exclusion:
  assumes "holder s k = Some t"
    and "\<And>r. Release r t \<in> set cs \<Longrightarrow> key r \<noteq> Some k"
    and "key r = Some k"
  shows "fst (claim now (run_calls claim release s cs) r u) \<longleftrightarrow> u = t"
proof -
  have "holder (run_calls claim release s cs) k = Some t"
    using assms(1,2) by (rule held_until_released)
  with claim_ok [OF assms(3)] show ?thesis by auto
qed

text \<open>A release by its holder frees the lock for any claimer.\<close>

lemma release_then_claim:
  assumes "key r = Some k" "holder s k = Some t"
  shows "fst (claim now (snd (release s r t)) r u)"
  using assms by (simp add: claim_ok release_holder)

end

section \<open>The lock table\<close>

datatype lock_error = ErrBranchLocked | ErrLockNotOwned

datatype branchKey = BranchKey (bk_repo: string) (bk_branch: string)

record branchLock =
  bl_taskID :: string
  bl_acquiredAt :: int

type_synonym lock_table = "branchKey \<rightharpoonup> branchLock"

definition makeBranchKey :: "string \<Rightarrow> string \<Rightarrow> branchKey" where
  "makeBranchKey repo branch = BranchKey (normalizeRepo repo) (TrimSpace branch)"

definition NewBranchLockManager :: lock_table where
  "NewBranchLockManager = Map.empty"

definition ClaimLock ::
  "int \<Rightarrow> lock_table \<Rightarrow> string \<Rightarrow> string \<Rightarrow> string \<Rightarrow> lock_error option \<times> lock_table" where
  "ClaimLock now locks repo branch taskID =
     (let key = makeBranchKey repo branch in
      if bk_repo key = [] \<or> bk_branch key = [] then (None, locks)
      else case locks key of
             Some existing \<Rightarrow>
               if bl_taskID existing \<noteq> taskID then (Some ErrBranchLocked, locks)
               else (None, locks(key \<mapsto> \<lparr>bl_taskID = taskID, bl_acquiredAt = now\<rparr>))
           | None \<Rightarrow> (None, locks(key \<mapsto> \<lparr>bl_taskID = taskID, bl_acquiredAt = now\<rparr>)))"

definition ReleaseLock ::
  "lock_table \<Rightarrow> string \<Rightarrow> string \<Rightarrow> string \<Rightarrow> lock_error option \<times> lock_table" where
  "ReleaseLock locks repo branch taskID =
     (let key = makeBranchKey repo branch in
      if bk_repo key = [] \<or> bk_branch key = [] then (None, locks)
      else case locks key of
             None \<Rightarrow> (None, locks)
           | Some existing \<Rightarrow>
               if bl_taskID existing \<noteq> taskID then (Some ErrLockNotOwned, locks)
               else (None, locks(key := None)))"

definition GetLock :: "lock_table \<Rightarrow> string \<Rightarrow> string \<Rightarrow> (string \<times> int) option" where
  "GetLock locks repo branch =
     (let key = makeBranchKey repo branch in
      if bk_repo key = [] \<or> bk_branch key = [] then None
      else case locks key of
             None \<Rightarrow> None
           | Some lock \<Rightarrow> Some (bl_taskID lock, bl_acquiredAt lock))"

section \<open>The lock table is an exclusive lock\<close>

definition lock_key :: "string \<times> string \<Rightarrow> branchKey option" where
  "lock_key r =
     (let key = makeBranchKey (fst r) (snd r)
      in if bk_repo key = [] \<or> bk_branch key = [] then None else Some key)"

definition lock_holder :: "lock_table \<Rightarrow> branchKey \<Rightarrow> string option" where
  "lock_holder locks k = map_option bl_taskID (locks k)"

definition claim_call :: "int \<Rightarrow> lock_table \<Rightarrow> string \<times> string \<Rightarrow> string \<Rightarrow> bool \<times> lock_table" where
  "claim_call now locks r t =
     (let (e, locks') = ClaimLock now locks (fst r) (snd r) t in (e = None, locks'))"

definition release_call :: "lock_table \<Rightarrow> string \<times> string \<Rightarrow> string \<Rightarrow> bool \<times> lock_table" where
  "release_call locks r t =
     (let (e, locks') = ReleaseLock locks (fst r) (snd r) t in (e = None, locks'))"

lemmas lock_defs = lock_key_def lock_holder_def claim_call_def release_call_def
  ClaimLock_def ReleaseLock_def Let_def

interpretation branch_lock: exclusive_lock lock_key lock_holder claim_call release_call
  by unfold_locales (auto simp: lock_defs split: option.splits if_splits prod.splits)

text \<open>Mutual exclusion on branches: while a task holds a branch, no interleaving of claims and
  releases by anybody takes the branch away as long as that task does not release it itself, and
  a claim of the branch (under any spelling of the repository) succeeds for that task only.\<close>

theorem branch_lock_exclusion:
  assumes "lock_holder locks (makeBranchKey repo branch) = Some t"
    and "normalizeRepo repo \<noteq> []" and "TrimSpace branch \<noteq> []"
    and "\<And>repo' branch'. Release (repo', branch') t \<in> set calls \<Longrightarrow>
           makeBranchKey repo' branch' \<noteq> makeBranchKey repo branch"
  shows "fst (ClaimLock now (run_calls claim_call release_call locks calls) repo branch u) = None
         \<longleftrightarrow> u = t"
proof -
  have key: "lock_key (repo, branch) = Some (makeBranchKey repo branch)"
    using assms(2,3) by (simp add: lock_key_def makeBranchKey_def)
  have rel: "\<And>r. Release r t \<in> set calls \<Longrightarrow> lock_key r \<noteq> Some (makeBranchKey repo branch)"
    using assms(4) by (auto simp: lock_key_def Let_def split: if_splits)
  from branch_lock.exclusion [where cs = calls and now = now and u = u, OF assms(1) rel key]
  show ?thesis by (simp add: claim_call_def split_beta)
qed

theorem branch_lock_exclusion_witness:
  "let locks = snd (ClaimLock 0 NewBranchLockManager ''github.com/org/repo'' ''main'' ''t1'');
       calls = [Claim 1 (''github.com/org/repo'', ''main'') ''t2'',
                Release (''github.com/org/repo'', ''main'') ''t2'']
   in fst (ClaimLock 2 (run_calls claim_call release_call locks calls)
             ''git@github.com:org/repo'' ''main'' ''t2'') \<noteq> None"
proof -
  let ?locks = "snd (ClaimLock 0 NewBranchLockManager ''github.com/org/repo'' ''main'' ''t1'')"
  let ?calls = "[Claim 1 (''github.com/org/repo'', ''main'') ''t2'',
                 Release (''github.com/org/repo'', ''main'') ''t2'']"
  have h: "lock_holder ?locks (makeBranchKey ''git@github.com:org/repo'' ''main'') = Some ''t1''"
    by code_simp
  have n: "normalizeRepo ''git@github.com:org/repo'' \<noteq> []" by code_simp
  have b: "TrimSpace ''main'' \<noteq> []" by code_simp
  from branch_lock_exclusion [OF h n b, where calls = ?calls and now = 2 and u = "''t2''"] show ?thesis by simp
qed

text \<open>Only the holder can release a branch: any other task gets \<open>ErrLockNotOwned\<close> and the table
  is unchanged, and after the holder's release every task can claim the branch.\<close>

theorem ReleaseLock_owner_only:
  assumes "locks (makeBranchKey repo branch) = Some l"
    and "normalizeRepo repo \<noteq> []" and "TrimSpace branch \<noteq> []"
  shows "if t = bl_taskID l
         then fst (ReleaseLock locks repo branch t) = None \<and>
              fst (ClaimLock now (snd (ReleaseLock locks repo branch t)) repo branch u) = None
         else ReleaseLock locks repo branch t = (Some ErrLockNotOwned, locks)"
  using assms by (auto simp: ReleaseLock_def ClaimLock_def makeBranchKey_def Let_def)

theorem ReleaseLock_owner_only_witness:
  "ReleaseLock (snd (ClaimLock 0 NewBranchLockManager ''r'' ''main'' ''t1'')) ''r'' ''main'' ''t2''
     = (Some ErrLockNotOwned, snd (ClaimLock 0 NewBranchLockManager ''r'' ''main'' ''t1''))"
proof -
  have l: "snd (ClaimLock 0 NewBranchLockManager ''r'' ''main'' ''t1'') (makeBranchKey ''r'' ''main'')
            = Some \<lparr>bl_taskID = ''t1'', bl_acquiredAt = 0\<rparr>"
    by code_simp
  have n: "normalizeRepo ''r'' \<noteq> []" and b: "TrimSpace ''main'' \<noteq> []" by code_simp+
  from ReleaseLock_owner_only [where locks = "snd (ClaimLock 0 NewBranchLockManager ''r'' ''main'' ''t1'')"
      and t = "''t2''", OF l n b] show ?thesis by simp
qed

text \<open>The lock and the collision check disagree on letter case: two territories that collide
  because their branches are equal up to case can both hold their branch lock.\<close>

theorem branch_lock_case_gap:
  "let t = sample_territory ''a'' ''main''; u = sample_territory ''b'' ''MAIN'';
       (e1, locks) = ClaimLock 0 NewBranchLockManager (at_Repo t) (at_Branch t) (at_TaskID t);
       (e2, locks') = ClaimLock 1 locks (at_Repo u) (at_Branch u) (at_TaskID u)
   in same_branch t u \<and> repositoriesMatch (at_Repo t) (at_Repo u) \<and> e1 = None \<and> e2 = None"
  by code_simp

end
