(* ===== verification/Node_Registry.thy ===== *)
theory Node_Registry
  imports Go_Base "HOL-Library.Product_Lexorder" Complex_Main
begin

text \<open>
  The catalogue of worker nodes and the choice of a node for a task:
  \<open>pkg/server/registry/registry.go\<close> (the types of nodes are in \<open>pkg/protocol/mesh.go\<close>).

  The registry's node table is a \<open>gomap\<close>, so the loops over it run in the list's order; the
  choice of a node is proved independent of that order. Times are nanoseconds, \<open>LastHeartbeat\<close>
  is in seconds as in the code. The load ratio is a \<open>float64\<close> in the code: here it is
  \<open>rnd (load / capacity)\<close> for a rounding function \<open>rnd\<close>, a parameter, so that every theorem holds
  for the rounding of the machine. The selection counter is a natural number.
\<close>

section \<open>Data\<close>

datatype NodeStatus = NodeStatusOnline | NodeStatusDegraded | NodeStatusOffline

record NodeHardware =
  hw_CPUs :: int
  hw_RAMGB :: int
  hw_HasGPU :: bool
  hw_OS :: string

record AgentProfile =
  ap_Name :: string
  ap_Description :: string
  ap_Tags :: "string list"

record NodeJoinRequest =
  jr_NodeID :: string
  jr_Endpoint :: string
  jr_Role :: string
  jr_AgentPublicKey :: string
  jr_Hardware :: NodeHardware
  jr_Agents :: "AgentProfile list"
  jr_MaxConcurrency :: int

record NodeHeartbeatRequest =
  hr_NodeID :: string
  hr_ActiveTasks :: int
  hr_Timestamp :: int
  hr_QueuedTasks :: int

record NodeInfo =
  ni_NodeID :: string
  ni_Endpoint :: string
  ni_Role :: string
  ni_AgentPublicKey :: string
  ni_Hardware :: NodeHardware
  ni_Agents :: "AgentProfile list"
  ni_MaxConcurrency :: int
  ni_ActiveTasks :: int
  ni_Status :: NodeStatus
  ni_LastHeartbeat :: int

record Registry =
  rg_nodes :: "NodeInfo gomap"
  rg_heartbeatTimeout :: int
  rg_inFlight :: "string \<Rightarrow> int"
  rg_lastSelected :: "string \<Rightarrow> nat"
  rg_selectionSeq :: nat
  rg_lastCapacityLog :: int

datatype registry_error =
  ErrNodeNotFound | ErrAgentNotSupported | ErrInvalidNodeInfo

definition NewRegistry :: "int \<Rightarrow> Registry" where
  "NewRegistry heartbeatTimeout =
     \<lparr>rg_nodes = [], rg_heartbeatTimeout = heartbeatTimeout, rg_inFlight = (\<lambda>_. 0),
      rg_lastSelected = (\<lambda>_. 0), rg_selectionSeq = 0, rg_lastCapacityLog = 0\<rparr>"

section \<open>Registration and heartbeats\<close>

definition RegisterNode ::
  "int \<Rightarrow> Registry \<Rightarrow> NodeJoinRequest \<Rightarrow> (registry_error + NodeInfo) \<times> Registry" where
  "RegisterNode now r req =
     (if jr_NodeID req = [] \<or> jr_Endpoint req = [] then (Inl ErrInvalidNodeInfo, r)
      else
        let node =
          (case map_get (rg_nodes r) (jr_NodeID req) of
             Some existing \<Rightarrow>
               existing\<lparr>ni_Endpoint := jr_Endpoint req, ni_Role := jr_Role req,
                 ni_AgentPublicKey := jr_AgentPublicKey req, ni_Hardware := jr_Hardware req,
                 ni_Agents := jr_Agents req, ni_MaxConcurrency := jr_MaxConcurrency req,
                 ni_Status := NodeStatusOnline, ni_LastHeartbeat := unix now\<rparr>
           | None \<Rightarrow>
               \<lparr>ni_NodeID = jr_NodeID req, ni_Endpoint = jr_Endpoint req, ni_Role = jr_Role req,
                ni_AgentPublicKey = jr_AgentPublicKey req, ni_Hardware = jr_Hardware req,
                ni_Agents = jr_Agents req, ni_MaxConcurrency = jr_MaxConcurrency req,
                ni_ActiveTasks = 0, ni_Status = NodeStatusOnline, ni_LastHeartbeat = unix now\<rparr>)
        in (Inr node, r\<lparr>rg_nodes := map_put (rg_nodes r) (jr_NodeID req) node\<rparr>))"

definition DeregisterNode :: "Registry \<Rightarrow> string \<Rightarrow> registry_error option \<times> Registry" where
  "DeregisterNode r nodeID =
     (case map_get (rg_nodes r) nodeID of
        None \<Rightarrow> (Some ErrNodeNotFound, r)
      | Some _ \<Rightarrow> (None, r\<lparr>rg_nodes := map_del (rg_nodes r) nodeID\<rparr>))"

definition Heartbeat ::
  "int \<Rightarrow> Registry \<Rightarrow> NodeHeartbeatRequest \<Rightarrow> registry_error option \<times> Registry" where
  "Heartbeat now r req =
     (case map_get (rg_nodes r) (hr_NodeID req) of
        None \<Rightarrow> (Some ErrNodeNotFound, r)
      | Some node \<Rightarrow>
          let timestamp = (if hr_Timestamp req \<le> 0 then unix now else hr_Timestamp req)
          in (None, r\<lparr>rg_nodes := map_put (rg_nodes r) (hr_NodeID req)
                (node\<lparr>ni_LastHeartbeat := timestamp, ni_ActiveTasks := hr_ActiveTasks req,
                      ni_Status := NodeStatusOnline\<rparr>)\<rparr>))"

definition GetNode :: "Registry \<Rightarrow> string \<Rightarrow> NodeInfo option" where
  "GetNode r nodeID = map_get (rg_nodes r) nodeID"

definition ListNodes :: "Registry \<Rightarrow> NodeInfo list" where
  "ListNodes r = map snd (rg_nodes r)"

definition degradedThreshold :: "Registry \<Rightarrow> int" where
  "degradedThreshold r = (rg_heartbeatTimeout r * 3) div 2"

definition prune_node :: "int \<Rightarrow> Registry \<Rightarrow> NodeInfo \<Rightarrow> NodeInfo" where
  "prune_node now r node =
     (let elapsed = now - nanos (ni_LastHeartbeat node)
      in if elapsed > rg_heartbeatTimeout r * 3 then node\<lparr>ni_Status := NodeStatusOffline\<rparr>
         else if elapsed > degradedThreshold r then node\<lparr>ni_Status := NodeStatusDegraded\<rparr>
         else node)"

definition PruneStaleNodes :: "int \<Rightarrow> Registry \<Rightarrow> Registry" where
  "PruneStaleNodes now r =
     (if rg_heartbeatTimeout r \<le> 0 then r
      else r\<lparr>rg_nodes := map (\<lambda>(k, n). (k, prune_node now r n)) (rg_nodes r)\<rparr>)"

definition MarkNodeUnreachable :: "Registry \<Rightarrow> string \<Rightarrow> registry_error option \<times> Registry" where
  "MarkNodeUnreachable r nodeID =
     (case map_get (rg_nodes r) nodeID of
        None \<Rightarrow> (Some ErrNodeNotFound, r)
      | Some node \<Rightarrow>
          (None, r\<lparr>rg_nodes := map_put (rg_nodes r) nodeID
                     (node\<lparr>ni_Status := NodeStatusDegraded\<rparr>)\<rparr>))"

section \<open>Selection\<close>

definition hasAllTags :: "string list \<Rightarrow> string list \<Rightarrow> bool" where
  "hasAllTags profileTags requiredTags \<longleftrightarrow>
     requiredTags = [] \<or> list_all (\<lambda>req. req \<in> set profileTags) requiredTags"

definition nodeSupportsAgent :: "NodeInfo \<Rightarrow> string \<Rightarrow> string list \<Rightarrow> bool" where
  "nodeSupportsAgent node agent requiredTags \<longleftrightarrow>
     list_ex (\<lambda>p. ap_Name p = agent \<and> hasAllTags (ap_Tags p) requiredTags) (ni_Agents node)"

definition effectiveLoad :: "Registry \<Rightarrow> NodeInfo \<Rightarrow> int" where
  "effectiveLoad r node =
     (let inFlight = rg_inFlight r (ni_NodeID node)
      in if ni_ActiveTasks node > inFlight then ni_ActiveTasks node else inFlight)"

definition effectiveCapacity :: "NodeInfo \<Rightarrow> int" where
  "effectiveCapacity node = (if ni_MaxConcurrency node \<le> 0 then 1 else ni_MaxConcurrency node)"

definition heartbeatIsFresh :: "int \<Rightarrow> Registry \<Rightarrow> NodeInfo \<Rightarrow> bool" where
  "heartbeatIsFresh now r node \<longleftrightarrow>
     rg_heartbeatTimeout r \<le> 0 \<or> now - nanos (ni_LastHeartbeat node) \<le> degradedThreshold r"

definition load_ratio :: "(rat \<Rightarrow> rat) \<Rightarrow> Registry \<Rightarrow> NodeInfo \<Rightarrow> rat" where
  "load_ratio rnd r node = rnd (of_int (effectiveLoad r node) / of_int (effectiveCapacity node))"

definition preferOver ::
  "Registry \<Rightarrow> rat \<Rightarrow> int \<Rightarrow> NodeInfo \<Rightarrow> rat \<Rightarrow> int \<Rightarrow> NodeInfo \<Rightarrow> bool" where
  "preferOver r ratio load candidate bestRatio bestLoad best =
     (if ratio \<noteq> bestRatio then ratio < bestRatio
      else if load \<noteq> bestLoad then load < bestLoad
      else let candidateRecent = rg_lastSelected r (ni_NodeID candidate);
               bestRecent = rg_lastSelected r (ni_NodeID best)
           in if candidateRecent \<noteq> bestRecent then candidateRecent < bestRecent
              else ni_NodeID candidate < ni_NodeID best)"

definition pick ::
  "(rat \<Rightarrow> rat) \<Rightarrow> Registry \<Rightarrow> (NodeInfo \<times> rat \<times> int) option \<Rightarrow> NodeInfo \<Rightarrow>
   (NodeInfo \<times> rat \<times> int) option" where
  "pick rnd r best node =
     (let load = effectiveLoad r node; ratio = load_ratio rnd r node
      in case best of
           None \<Rightarrow> Some (node, ratio, load)
         | Some (b, bestRatio, bestLoad) \<Rightarrow>
             if preferOver r ratio load node bestRatio bestLoad b
             then Some (node, ratio, load) else best)"

definition eligible :: "int \<Rightarrow> Registry \<Rightarrow> string \<Rightarrow> string list \<Rightarrow> NodeInfo \<Rightarrow> bool" where
  "eligible now r agent tags node \<longleftrightarrow>
     ni_Status node = NodeStatusOnline \<and> heartbeatIsFresh now r node \<and>
     nodeSupportsAgent node agent tags"

definition has_slot :: "Registry \<Rightarrow> NodeInfo \<Rightarrow> bool" where
  "has_slot r node \<longleftrightarrow> effectiveLoad r node < effectiveCapacity node"

definition selectLocked ::
  "(rat \<Rightarrow> rat) \<Rightarrow> int \<Rightarrow> Registry \<Rightarrow> string \<Rightarrow> string list \<Rightarrow>
   (registry_error + NodeInfo) \<times> Registry" where
  "selectLocked rnd now r agent tags =
     (let matchingOnline = filter (eligible now r agent tags) (map snd (rg_nodes r)) in
      if matchingOnline = [] then (Inl ErrAgentNotSupported, r)
      else let free = filter (has_slot r) matchingOnline;
               r' = (if free = [] \<and> now - rg_lastCapacityLog r \<ge> nanos 1
                     then r\<lparr>rg_lastCapacityLog := now\<rparr> else r);
               candidates = (if free = [] then matchingOnline else free)
           in case foldl (pick rnd r) None candidates of
                Some (best, _, _) \<Rightarrow> (Inr best, r')
              | None \<Rightarrow> (Inl ErrAgentNotSupported, r'))"

definition SelectNodeForTask where
  "SelectNodeForTask = selectLocked"

definition SelectAndReserve ::
  "(rat \<Rightarrow> rat) \<Rightarrow> int \<Rightarrow> Registry \<Rightarrow> string \<Rightarrow> string list \<Rightarrow>
   (registry_error + NodeInfo) \<times> Registry" where
  "SelectAndReserve rnd now r agent tags =
     (case selectLocked rnd now r agent tags of
        (Inl e, r') \<Rightarrow> (Inl e, r')
      | (Inr node, r') \<Rightarrow>
          let nid = ni_NodeID node; seq = rg_selectionSeq r' + 1
          in (Inr node,
              r'\<lparr>rg_inFlight := (rg_inFlight r')(nid := rg_inFlight r' nid + 1),
                 rg_selectionSeq := seq,
                 rg_lastSelected := (rg_lastSelected r')(nid := seq)\<rparr>))"

definition ReleaseNode :: "Registry \<Rightarrow> string \<Rightarrow> Registry" where
  "ReleaseNode r nodeID =
     (if rg_inFlight r nodeID > 0
      then r\<lparr>rg_inFlight := (rg_inFlight r)(nodeID := rg_inFlight r nodeID - 1)\<rparr> else r)"

section \<open>The order of preference\<close>

text \<open>The rank of a node: load ratio, load, how recently it was selected, node id. \<open>preferOver\<close> is
  the strict order of ranks.\<close>

datatype node_rank = NodeRank (nr_ratio: rat) (nr_load: int) (nr_recent: nat) (nr_id: string)

definition rank_key :: "node_rank \<Rightarrow> rat \<times> int \<times> nat \<times> string" where
  "rank_key a = (nr_ratio a, nr_load a, nr_recent a, nr_id a)"

lemma rank_key_inj: "rank_key a = rank_key b \<longleftrightarrow> a = b"
  by (cases a; cases b) (simp add: rank_key_def)

instantiation node_rank :: linorder
begin

definition less_eq_node_rank :: "node_rank \<Rightarrow> node_rank \<Rightarrow> bool" where
  "less_eq_node_rank a b \<longleftrightarrow> rank_key a \<le> rank_key b"

definition less_node_rank :: "node_rank \<Rightarrow> node_rank \<Rightarrow> bool" where
  "less_node_rank a b \<longleftrightarrow> rank_key a < rank_key b"

instance
  by standard (auto simp: less_eq_node_rank_def less_node_rank_def rank_key_inj less_le)

end

definition rank :: "(rat \<Rightarrow> rat) \<Rightarrow> Registry \<Rightarrow> NodeInfo \<Rightarrow> node_rank" where
  "rank rnd r n =
     NodeRank (load_ratio rnd r n) (effectiveLoad r n) (rg_lastSelected r (ni_NodeID n)) (ni_NodeID n)"

lemma preferOver_rank:
  "preferOver r (load_ratio rnd r a) (effectiveLoad r a) a
     (load_ratio rnd r b) (effectiveLoad r b) b \<longleftrightarrow> rank rnd r a < rank rnd r b"
  by (auto simp: preferOver_def rank_def less_node_rank_def rank_key_def less_prod_def Let_def)

lemma rank_inj: "rank rnd r a = rank rnd r b \<Longrightarrow> ni_NodeID a = ni_NodeID b"
  by (simp add: rank_def)

fun pick_min :: "('a \<Rightarrow> 'b::linorder) \<Rightarrow> 'a \<Rightarrow> 'a list \<Rightarrow> 'a" where
  "pick_min f b [] = b"
| "pick_min f b (x # xs) = pick_min f (if f x < f b then x else b) xs"

lemma pick_min_in: "pick_min f b xs \<in> insert b (set xs)"
proof (induction xs arbitrary: b)
  case Nil
  then show ?case by simp
next
  case (Cons y xs)
  then show ?case using Cons.IH [of y] Cons.IH [of b] by auto
qed

lemma pick_min_le: "x \<in> insert b (set xs) \<Longrightarrow> f (pick_min f b xs) \<le> f x"
proof (induction xs arbitrary: b x)
  case Nil
  then show ?case by simp
next
  case (Cons y xs)
  show ?case
  proof (cases "f y < f b")
    case True
    then have "f (pick_min f y xs) \<le> f y" using Cons.IH by simp
    with True Cons show ?thesis by fastforce
  next
    case False
    then have "f (pick_min f b xs) \<le> f b" using Cons.IH by simp
    with False Cons show ?thesis by fastforce
  qed
qed

abbreviation picked :: "(rat \<Rightarrow> rat) \<Rightarrow> Registry \<Rightarrow> NodeInfo \<Rightarrow> (NodeInfo \<times> rat \<times> int) option" where
  "picked rnd r b \<equiv> Some (b, load_ratio rnd r b, effectiveLoad r b)"

lemma foldl_pick:
  "foldl (pick rnd r) (picked rnd r b) xs = picked rnd r (pick_min (rank rnd r) b xs)"
proof (induction xs arbitrary: b)
  case Nil
  then show ?case by simp
next
  case (Cons x xs)
  have "pick rnd r (picked rnd r b) x =
        picked rnd r (if rank rnd r x < rank rnd r b then x else b)"
    by (simp add: pick_def preferOver_rank Let_def)
  with Cons show ?case by simp
qed

text \<open>The choice over a list of candidates is a candidate of least rank.\<close>

lemma foldl_pick_least:
  assumes "cs \<noteq> []"
  obtains b where "foldl (pick rnd r) None cs = picked rnd r b" "b \<in> set cs"
    "\<And>n. n \<in> set cs \<Longrightarrow> rank rnd r b \<le> rank rnd r n"
proof -
  from assms obtain x xs where cs: "cs = x # xs" by (cases cs) auto
  let ?b = "pick_min (rank rnd r) x xs"
  have "foldl (pick rnd r) None cs = picked rnd r ?b"
    by (simp add: cs pick_def foldl_pick Let_def)
  moreover have "?b \<in> set cs" using pick_min_in [of "rank rnd r" x xs] by (simp add: cs)
  moreover have "\<And>n. n \<in> set cs \<Longrightarrow> rank rnd r ?b \<le> rank rnd r n"
    using pick_min_le [of _ x xs "rank rnd r"] by (simp add: cs)
  ultimately show thesis by (rule that)
qed

definition candidates :: "int \<Rightarrow> Registry \<Rightarrow> string \<Rightarrow> string list \<Rightarrow> NodeInfo set" where
  "candidates now r agent tags =
     (let online = {n \<in> snd ` set (rg_nodes r). eligible now r agent tags n};
          free = {n \<in> online. has_slot r n}
      in if free = {} then online else free)"

lemma selectLocked_cases:
  obtains (none) "candidates now r agent tags = {}"
      "selectLocked rnd now r agent tags = (Inl ErrAgentNotSupported, r)"
  | (some) best r' where "selectLocked rnd now r agent tags = (Inr best, r')"
      "best \<in> candidates now r agent tags"
      "\<And>n. n \<in> candidates now r agent tags \<Longrightarrow> rank rnd r best \<le> rank rnd r n"
      "r' = r\<lparr>rg_lastCapacityLog := rg_lastCapacityLog r'\<rparr>"
proof -
  let ?m = "filter (eligible now r agent tags) (map snd (rg_nodes r))"
  let ?f = "filter (has_slot r) ?m"
  let ?cs = "if ?f = [] then ?m else ?f"
  have cs: "set ?cs = candidates now r agent tags"
    unfolding candidates_def Let_def by (auto simp: filter_empty_conv)
  show thesis
  proof (cases "?m = []")
    case True
    then have "set ?cs = {}" by simp
    then have "candidates now r agent tags = {}" unfolding cs .
    with True show thesis by (intro none) (simp_all add: selectLocked_def)
  next
    case False
    then have "?cs \<noteq> []" by simp
    then obtain b where b: "foldl (pick rnd r) None ?cs = picked rnd r b" "b \<in> set ?cs"
      "\<And>n. n \<in> set ?cs \<Longrightarrow> rank rnd r b \<le> rank rnd r n"
      by (rule foldl_pick_least [where rnd = rnd and r = r]) blast
    let ?r' = "if ?f = [] \<and> now - rg_lastCapacityLog r \<ge> nanos 1
               then r\<lparr>rg_lastCapacityLog := now\<rparr> else r"
    have "selectLocked rnd now r agent tags = (Inr b, ?r')"
      unfolding selectLocked_def Let_def using False b(1) by simp
    then show thesis using b(2,3) unfolding cs by (intro some) auto
  qed
qed

text \<open>What the coordinator selects: it reports that no node supports the agent exactly when no
  registered node is online, fresh and capable; otherwise it returns a registered node that is all
  three, has a free slot whenever some such node has one, and is of least rank (load ratio, load,
  least recent, id) among the nodes it is compared with.\<close>

theorem SelectNodeForTask_spec:
  "case fst (SelectNodeForTask rnd now r agent tags) of
     Inl e \<Rightarrow> e = ErrAgentNotSupported \<and> (\<forall>m \<in> set (ListNodes r). \<not> eligible now r agent tags m)
   | Inr n \<Rightarrow> n \<in> set (ListNodes r) \<and> eligible now r agent tags n \<and>
       (\<forall>m \<in> set (ListNodes r). eligible now r agent tags m \<longrightarrow> has_slot r m \<longrightarrow> has_slot r n) \<and>
       (\<forall>m \<in> set (ListNodes r). eligible now r agent tags m \<longrightarrow> has_slot r m = has_slot r n \<longrightarrow>
          rank rnd r n \<le> rank rnd r m)"
proof (cases rule: selectLocked_cases [where now = now and r = r and agent = agent and tags = tags
      and rnd = rnd])
  case none
  then show ?thesis
    by (auto simp: SelectNodeForTask_def ListNodes_def candidates_def Let_def split: if_splits)
next
  case (some best r')
  from some(2) have "best \<in> set (ListNodes r)" "eligible now r agent tags best"
    by (auto simp: ListNodes_def candidates_def Let_def split: if_splits)
  moreover have slot: "has_slot r best"
    if "m \<in> set (ListNodes r)" "eligible now r agent tags m" "has_slot r m" for m
  proof -
    have "{n \<in> {n \<in> snd ` set (rg_nodes r). eligible now r agent tags n}. has_slot r n} \<noteq> {}"
      using that by (auto simp: ListNodes_def)
    with some(2) show ?thesis unfolding candidates_def Let_def by (simp only: if_False) blast
  qed
  moreover have "rank rnd r best \<le> rank rnd r m"
    if "m \<in> set (ListNodes r)" "eligible now r agent tags m" "has_slot r m = has_slot r best" for m
  proof (rule some(3))
    have "m \<in> {n \<in> snd ` set (rg_nodes r). eligible now r agent tags n}"
      using that(1,2) by (simp add: ListNodes_def)
    with some(2) that(3) show "m \<in> candidates now r agent tags"
      unfolding candidates_def Let_def by (simp split: if_split_asm)
  qed
  moreover have "fst (SelectNodeForTask rnd now r agent tags) = Inr best"
    using some(1) by (simp add: SelectNodeForTask_def)
  ultimately show ?thesis by (simp only: sum.case) blast
qed

definition sample_node :: "string \<Rightarrow> int \<Rightarrow> int \<Rightarrow> NodeInfo" where
  "sample_node nid active cap =
     \<lparr>ni_NodeID = nid, ni_Endpoint = ''https://h'', ni_Role = ''worker'', ni_AgentPublicKey = [],
      ni_Hardware = \<lparr>hw_CPUs = 4, hw_RAMGB = 8, hw_HasGPU = False, hw_OS = ''linux''\<rparr>,
      ni_Agents = [\<lparr>ap_Name = ''coder'', ap_Description = [], ap_Tags = [''go'']\<rparr>],
      ni_MaxConcurrency = cap, ni_ActiveTasks = active, ni_Status = NodeStatusOnline,
      ni_LastHeartbeat = 100\<rparr>"

definition sample_registry :: Registry where
  "sample_registry = (NewRegistry 10000000000)\<lparr>rg_nodes :=
     [(''a'', sample_node ''a'' 2 2), (''b'', sample_node ''b'' 1 4), (''c'', sample_node ''c'' 1 2)]\<rparr>"

lemma sample_select:
  "fst (SelectNodeForTask id 100000000000 sample_registry ''coder'' [''go''])
     = Inr (sample_node ''b'' 1 4)"
  by code_simp

theorem SelectNodeForTask_spec_witness:
  "sample_node ''b'' 1 4 \<in> set (ListNodes sample_registry) \<and>
   eligible 100000000000 sample_registry ''coder'' [''go''] (sample_node ''b'' 1 4)"
  using SelectNodeForTask_spec [where rnd = id and now = 100000000000 and r = sample_registry
      and agent = "''coder''" and tags = "[''go'']"]
  by (simp add: sample_select)

section \<open>Invariant\<close>

definition registry_inv :: "Registry \<Rightarrow> bool" where
  "registry_inv r \<longleftrightarrow>
     wf_map (rg_nodes r) \<and> (\<forall>(k, n) \<in> set (rg_nodes r). ni_NodeID n = k) \<and>
     (\<forall>k. 0 \<le> rg_inFlight r k) \<and> (\<forall>k. rg_lastSelected r k \<le> rg_selectionSeq r)"

lemma registry_invD:
  "registry_inv r \<Longrightarrow> map_get (rg_nodes r) k = Some n \<Longrightarrow> ni_NodeID n = k"
  by (auto simp: registry_inv_def dest: map_of_SomeD)

lemma set_map_put:
  "(k', v') \<in> set (map_put m k v) \<Longrightarrow> (k', v') = (k, v) \<or> (k', v') \<in> set m"
  by (induction m) (auto simp: map_put_def split: if_splits)

lemma registry_inv_put:
  "registry_inv r \<Longrightarrow> ni_NodeID n = k \<Longrightarrow>
   registry_inv (r\<lparr>rg_nodes := map_put (rg_nodes r) k n\<rparr>)"
  by (auto simp: registry_inv_def dest!: set_map_put)

lemma registry_inv_del:
  "registry_inv r \<Longrightarrow> registry_inv (r\<lparr>rg_nodes := map_del (rg_nodes r) k\<rparr>)"
  by (auto simp: registry_inv_def dest!: set_map_del)

lemma prune_node_id [simp]: "ni_NodeID (prune_node now r n) = ni_NodeID n"
  by (simp add: prune_node_def Let_def)

lemma registry_inv_prune: "registry_inv r \<Longrightarrow> registry_inv (PruneStaleNodes now r)"
  by (auto simp: registry_inv_def PruneStaleNodes_def wf_map_def comp_def split_beta)

lemma registry_inv_log: "registry_inv (r\<lparr>rg_lastCapacityLog := t\<rparr>) = registry_inv r"
  by (simp add: registry_inv_def)

lemma registry_inv_select: "registry_inv r \<Longrightarrow> registry_inv (snd (selectLocked rnd now r agent tags))"
  by (rule selectLocked_cases [where now = now and r = r and agent = agent and tags = tags
        and rnd = rnd]) (simp_all, metis registry_inv_log)

lemma registry_inv_reserve:
  "registry_inv r \<Longrightarrow> registry_inv (snd (SelectAndReserve rnd now r agent tags))"
  using registry_inv_select [of r rnd now agent tags]
  by (auto simp: SelectAndReserve_def registry_inv_def Let_def le_SucI split: prod.splits sum.splits)

lemma registry_inv_release: "registry_inv r \<Longrightarrow> registry_inv (ReleaseNode r k)"
  by (auto simp: registry_inv_def ReleaseNode_def)

lemma registry_inv_register: "registry_inv r \<Longrightarrow> registry_inv (snd (RegisterNode now r req))"
  by (auto simp: RegisterNode_def Let_def registry_invD intro!: registry_inv_put split: option.splits)

lemma registry_inv_heartbeat: "registry_inv r \<Longrightarrow> registry_inv (snd (Heartbeat now r req))"
  by (auto simp: Heartbeat_def Let_def registry_invD intro!: registry_inv_put split: option.splits)

lemma registry_inv_mark: "registry_inv r \<Longrightarrow> registry_inv (snd (MarkNodeUnreachable r k))"
  by (auto simp: MarkNodeUnreachable_def registry_invD intro!: registry_inv_put split: option.splits)

lemma registry_inv_deregister: "registry_inv r \<Longrightarrow> registry_inv (snd (DeregisterNode r k))"
  by (auto simp: DeregisterNode_def registry_inv_del split: option.splits)

lemma registry_inv_new: "registry_inv (NewRegistry t)"
  by (simp add: registry_inv_def NewRegistry_def)

datatype registry_call =
  CallRegister int NodeJoinRequest | CallDeregister string | CallHeartbeat int NodeHeartbeatRequest
  | CallPrune int | CallMark string | CallSelect int string "string list"
  | CallReserve int string "string list" | CallRelease string

fun registry_step :: "(rat \<Rightarrow> rat) \<Rightarrow> Registry \<Rightarrow> registry_call \<Rightarrow> Registry" where
  "registry_step rnd r (CallRegister now req) = snd (RegisterNode now r req)"
| "registry_step rnd r (CallDeregister k) = snd (DeregisterNode r k)"
| "registry_step rnd r (CallHeartbeat now req) = snd (Heartbeat now r req)"
| "registry_step rnd r (CallPrune now) = PruneStaleNodes now r"
| "registry_step rnd r (CallMark k) = snd (MarkNodeUnreachable r k)"
| "registry_step rnd r (CallSelect now a ts) = snd (SelectNodeForTask rnd now r a ts)"
| "registry_step rnd r (CallReserve now a ts) = snd (SelectAndReserve rnd now r a ts)"
| "registry_step rnd r (CallRelease k) = ReleaseNode r k"

lemma registry_inv_step: "registry_inv r \<Longrightarrow> registry_inv (registry_step rnd r c)"
  by (cases c)
    (simp_all add: registry_inv_register registry_inv_deregister registry_inv_heartbeat
      registry_inv_prune registry_inv_mark registry_inv_select registry_inv_reserve
      registry_inv_release SelectNodeForTask_def)

text \<open>After any sequence of calls on a new registry, every node is filed once, under its own
  id, no in-flight counter is negative, and no selection stamp is ahead of the counter.\<close>

theorem registry_inv_reachable:
  "registry_inv (foldl (registry_step rnd) (NewRegistry t) calls)"
proof -
  have "registry_inv r \<Longrightarrow> registry_inv (foldl (registry_step rnd) r calls)" for r
    by (induction calls arbitrary: r) (simp_all add: registry_inv_step)
  then show ?thesis by (simp add: registry_inv_new)
qed

text \<open>The selected node does not depend on the order in which Go ranges over the node table:
  any two arrangements of the same table give the same answer.\<close>

theorem selectLocked_order_independent:
  assumes "registry_inv r" and "mset nodes' = mset (rg_nodes r)"
  shows "fst (selectLocked rnd now (r\<lparr>rg_nodes := nodes'\<rparr>) agent tags)
         = fst (selectLocked rnd now r agent tags)"
proof -
  let ?r' = "r\<lparr>rg_nodes := nodes'\<rparr>"
  have nodes: "set nodes' = set (rg_nodes r)" using assms(2) by (metis set_mset_mset)
  have el: "eligible now ?r' agent tags n = eligible now r agent tags n" for n
    by (simp add: eligible_def heartbeatIsFresh_def degradedThreshold_def)
  have sl: "has_slot ?r' n = has_slot r n" for n
    by (simp add: has_slot_def effectiveLoad_def)
  have cand: "candidates now ?r' agent tags = candidates now r agent tags"
    by (simp add: candidates_def nodes el sl)
  have rank: "rank rnd ?r' n = rank rnd r n" for n
    by (simp add: rank_def load_ratio_def effectiveLoad_def)
  have unique: "m = n" if "m \<in> candidates now r agent tags" "n \<in> candidates now r agent tags"
    "rank rnd r m = rank rnd r n" for m n
  proof -
    from that obtain k l where kl: "(k, m) \<in> set (rg_nodes r)" "(l, n) \<in> set (rg_nodes r)"
      by (auto simp: candidates_def Let_def split: if_splits)
    with assms(1) have "k = ni_NodeID m" "l = ni_NodeID n" by (auto simp: registry_inv_def)
    with rank_inj [OF that(3)] kl assms(1) show ?thesis
      by (metis registry_inv_def wf_map_get_iff option.inject)
  qed
  show ?thesis
  proof (cases rule: selectLocked_cases [where now = now and r = r and agent = agent and tags = tags
        and rnd = rnd])
    case none
    then show ?thesis
      by (cases rule: selectLocked_cases [where now = now and r = ?r' and agent = agent and tags = tags
            and rnd = rnd]) (auto simp: cand)
  next
    case (some best)
    note b = this
    show ?thesis
    proof (cases rule: selectLocked_cases [where now = now and r = ?r' and agent = agent
          and tags = tags and rnd = rnd])
      case none
      with b cand show ?thesis by simp
    next
      case (some best')
      with b have "rank rnd r best = rank rnd r best'"
        by (intro antisym) (auto simp: cand rank)
      with unique b(2) some(2) cand have "best = best'" by simp
      with b(1) some(1) show ?thesis by simp
    qed
  qed
qed

theorem selectLocked_order_independent_witness:
  "fst (selectLocked id 100000000000 (sample_registry\<lparr>rg_nodes := rev (rg_nodes sample_registry)\<rparr>)
          ''coder'' [''go'']) = Inr (sample_node ''b'' 1 4)"
proof -
  have inv: "registry_inv sample_registry"
    by (simp add: registry_inv_def sample_registry_def NewRegistry_def wf_map_def sample_node_def)
  have "mset (rev (rg_nodes sample_registry)) = mset (rg_nodes sample_registry)" by simp
  from selectLocked_order_independent [OF inv this] sample_select show ?thesis
    by (simp add: SelectNodeForTask_def)
qed

section \<open>Reservations\<close>

text \<open>A reservation is exact and undone by its release: \<open>SelectAndReserve\<close> returns what the plain
  selection returns, counts one dispatch on that node and nowhere else, and releasing the node
  once restores every counter.\<close>

theorem SelectAndReserve_release:
  assumes "registry_inv r" and "SelectAndReserve rnd now r agent tags = (Inr n, r')"
  shows "fst (SelectNodeForTask rnd now r agent tags) = Inr n \<and>
         rg_inFlight r' = (rg_inFlight r)(ni_NodeID n := rg_inFlight r (ni_NodeID n) + 1) \<and>
         rg_inFlight (ReleaseNode r' (ni_NodeID n)) = rg_inFlight r"
proof (cases rule: selectLocked_cases [where now = now and r = r and agent = agent and tags = tags
      and rnd = rnd])
  case none
  with assms(2) show ?thesis by (simp add: SelectAndReserve_def)
next
  case (some best r'')
  have inf: "rg_inFlight r'' = rg_inFlight r" by (subst some(4)) simp
  from assms(1) have "0 \<le> rg_inFlight r (ni_NodeID n)" by (simp add: registry_inv_def)
  with some(1) assms(2) inf show ?thesis
    by (auto simp: SelectAndReserve_def SelectNodeForTask_def ReleaseNode_def Let_def)
qed

theorem SelectAndReserve_release_witness:
  "rg_inFlight (ReleaseNode (snd (SelectAndReserve id 100000000000 sample_registry ''coder'' [''go'']))
     ''b'') = rg_inFlight sample_registry"
proof -
  let ?p = "SelectAndReserve id 100000000000 sample_registry ''coder'' [''go'']"
  have inv: "registry_inv sample_registry"
    by (simp add: registry_inv_def sample_registry_def NewRegistry_def wf_map_def sample_node_def)
  have "fst ?p = Inr (sample_node ''b'' 1 4)" by code_simp
  then have "?p = (Inr (sample_node ''b'' 1 4), snd ?p)" by (metis prod.collapse)
  from SelectAndReserve_release [OF inv this] show ?thesis by (simp add: sample_node_def)
qed

text \<open>Equally loaded nodes take turns: right after a node was reserved, every other node that
  now has the same load and the same load ratio is preferred to it.\<close>

theorem SelectAndReserve_rotates:
  assumes "registry_inv r" and "SelectAndReserve rnd now r agent tags = (Inr n, r')"
    and "ni_NodeID m \<noteq> ni_NodeID n" and "effectiveLoad r' m = effectiveLoad r' n"
    and "load_ratio rnd r' m = load_ratio rnd r' n"
  shows "rank rnd r' m < rank rnd r' n"
proof -
  obtain r'' where sel: "selectLocked rnd now r agent tags = (Inr n, r'')"
    and r': "r' = r''\<lparr>rg_inFlight := (rg_inFlight r'')(ni_NodeID n := rg_inFlight r'' (ni_NodeID n) + 1),
        rg_selectionSeq := rg_selectionSeq r'' + 1,
        rg_lastSelected := (rg_lastSelected r'')(ni_NodeID n := rg_selectionSeq r'' + 1)\<rparr>"
    using assms(2) by (auto simp: SelectAndReserve_def Let_def split: prod.splits sum.splits)
  have "registry_inv r''" using registry_inv_select [OF assms(1), of rnd now agent tags] sel by simp
  then have "rg_lastSelected r'' (ni_NodeID m) < rg_selectionSeq r'' + 1"
    by (simp add: registry_inv_def le_imp_less_Suc)
  then have "rg_lastSelected r' (ni_NodeID m) < rg_lastSelected r' (ni_NodeID n)"
    using assms(3) by (simp add: r')
  with assms(4,5) show ?thesis
    by (simp add: rank_def less_node_rank_def rank_key_def less_prod_def)
qed

theorem SelectAndReserve_rotates_witness:
  "let r = (NewRegistry 0)\<lparr>rg_nodes := [(''a'', sample_node ''a'' 1 2), (''b'', sample_node ''b'' 1 2)]\<rparr>;
       r' = snd (SelectAndReserve id 0 r ''coder'' [])
   in rank id r' (sample_node ''b'' 1 2) < rank id r' (sample_node ''a'' 1 2)"
proof -
  let ?r = "(NewRegistry 0)\<lparr>rg_nodes :=
              [(''a'', sample_node ''a'' 1 2), (''b'', sample_node ''b'' 1 2)]\<rparr>"
  let ?p = "SelectAndReserve id 0 ?r ''coder'' []"
  have inv: "registry_inv ?r"
    by (simp add: registry_inv_def NewRegistry_def wf_map_def sample_node_def)
  have "fst ?p = Inr (sample_node ''a'' 1 2)" by code_simp
  then have sel: "?p = (Inr (sample_node ''a'' 1 2), snd ?p)" by (metis prod.collapse)
  have load: "effectiveLoad (snd ?p) (sample_node ''b'' 1 2) = effectiveLoad (snd ?p) (sample_node ''a'' 1 2)"
    by code_simp
  have "load_ratio id (snd ?p) (sample_node ''b'' 1 2) = load_ratio id (snd ?p) (sample_node ''a'' 1 2)"
    using load by (simp add: load_ratio_def effectiveCapacity_def sample_node_def)
  from SelectAndReserve_rotates [OF inv sel _ load this] show ?thesis
    by (simp add: sample_node_def Let_def)
qed

end
