(* ===== verification/Task_Log.thy ===== *)
theory Task_Log
  imports Go_Base
begin

text \<open>
  Events and the append-only event log of a task: \<open>pkg/protocol/events.go\<close>,
  \<open>pkg/protocol/tasks.go\<close> (the status values) and \<open>pkg/server/task/logger.go\<close>.

  An \<open>Event\<close> carries its type together with what \<open>UnmarshalPayload\<close> yields for that type
  (\<open>None\<close> when the raw payload does not decode into the payload struct). The log file is its list
  of lines: complete events, corrupt lines, and possibly an unterminated tail left by a torn
  write. What the operating system does in a write is the argument \<open>write_outcome\<close>. Lines
  above the scanner's limit of one megabyte are outside the model.
\<close>

section \<open>Events\<close>

datatype TaskStatus =
  TaskStatusQueued | TaskStatusPreparing | TaskStatusRunning
  | TaskStatusCompleted | TaskStatusFailed | TaskStatusCanceled
  | TaskStatusOther string

record StatusPayload =
  sp_Status :: TaskStatus
  sp_Message :: string

datatype tool_arg = ArgString string | ArgOther

record ToolCallPayload =
  tcp_CallID :: string
  tcp_Tool :: string
  tcp_Args :: "tool_arg gomap"

record ToolResultPayload =
  trp_CallID :: string
  trp_Output :: string
  trp_IsError :: bool

record CompletionPayload =
  cp_Result :: string
  cp_Text :: string
  cp_CommitHash :: string
  cp_Branch :: string
  cp_FilesChanged :: "string list"
  cp_DurationMs :: int
  cp_ExecutedLocally :: bool

record ErrorPayload =
  ep_Code :: string
  ep_Message :: string
  ep_Fatal :: bool

record RetryPayload =
  rp_RetryNumber :: int
  rp_MaxRetries :: int
  rp_RetryAfterSec :: int
  rp_LastError :: string

datatype event_body =
  EventStatus "StatusPayload option"
  | EventThought "string option"
  | EventToken "string option"
  | EventToolCall "ToolCallPayload option"
  | EventToolResult "ToolResultPayload option"
  | EventQuery
  | EventCompletion "CompletionPayload option"
  | EventError "ErrorPayload option"
  | EventRetry "RetryPayload option"
  | EventCheckpoint
  | EventOther string

record Event =
  ev_ID :: int
  ev_TaskID :: string
  ev_Timestamp :: int
  ev_Body :: event_body

definition Normalize :: "CompletionPayload \<Rightarrow> CompletionPayload" where
  "Normalize c =
     (let c1 = (if cp_Text c = [] \<and> cp_Result c \<noteq> [] then c\<lparr>cp_Text := cp_Result c\<rparr> else c)
      in if cp_Result c1 = [] \<and> cp_Text c1 \<noteq> [] then c1\<lparr>cp_Result := cp_Text c1\<rparr> else c1)"

text \<open>Marshalling a completion normalises it.\<close>

fun marshal_body :: "event_body \<Rightarrow> event_body" where
  "marshal_body (EventCompletion (Some c)) = EventCompletion (Some (Normalize c))"
| "marshal_body b = b"

definition NewEvent :: "int \<Rightarrow> int \<Rightarrow> string \<Rightarrow> event_body \<Rightarrow> Event" where
  "NewEvent now i tid body =
     \<lparr>ev_ID = i, ev_TaskID = tid, ev_Timestamp = unix now, ev_Body = marshal_body body\<rparr>"

lemma Normalize_idem: "Normalize (Normalize c) = Normalize c"
  by (cases "cp_Text c"; cases "cp_Result c") (simp_all add: Normalize_def)

lemma Normalize_blank_iff: "cp_Result (Normalize c) = [] \<longleftrightarrow> cp_Text (Normalize c) = []"
  by (cases "cp_Text c"; cases "cp_Result c") (simp_all add: Normalize_def)

section \<open>The log\<close>

datatype log_line = Line Event | Garbage

record JSONLLogger =
  lg_lines :: "log_line list"
  lg_torn :: bool
  lg_closed :: bool

text \<open>What a write of one line does: it succeeds, it fails before or after some bytes reached the
  file, or the bytes are written and the following \<open>Sync\<close> fails.\<close>

datatype write_outcome = WriteOk | WriteFailed bool | SyncFailed

datatype log_error = ErrLoggerClosed | ErrWrite | ErrSync | ErrCorruptLog

definition NewJSONLLogger :: "log_line list \<Rightarrow> bool \<Rightarrow> JSONLLogger" where
  "NewJSONLLogger lines torn = \<lparr>lg_lines = lines, lg_torn = torn, lg_closed = False\<rparr>"

fun critical :: "event_body \<Rightarrow> bool" where
  "critical (EventStatus _) = True"
| "critical (EventCompletion _) = True"
| "critical (EventError _) = True"
| "critical _ = False"

text \<open>Appending a complete line behind an unterminated tail makes one corrupt line of the two.\<close>

definition append_line :: "JSONLLogger \<Rightarrow> Event \<Rightarrow> JSONLLogger" where
  "append_line l e =
     l\<lparr>lg_lines := lg_lines l @ [if lg_torn l then Garbage else Line e], lg_torn := False\<rparr>"

definition WriteEvent ::
  "write_outcome \<Rightarrow> JSONLLogger \<Rightarrow> Event \<Rightarrow> log_error option \<times> JSONLLogger" where
  "WriteEvent w l e =
     (if lg_closed l then (Some ErrLoggerClosed, l)
      else case w of
             WriteFailed partial \<Rightarrow>
               (Some ErrWrite, if partial then l\<lparr>lg_torn := True\<rparr> else l)
           | WriteOk \<Rightarrow> (None, append_line l e)
           | SyncFailed \<Rightarrow>
               if critical (ev_Body e) then (Some ErrSync, append_line l e)
               else (None, append_line l e))"

definition file_lines :: "JSONLLogger \<Rightarrow> log_line list" where
  "file_lines l = lg_lines l @ (if lg_torn l then [Garbage] else [])"

fun read_lines :: "int \<Rightarrow> log_line list \<Rightarrow> log_error + Event list" where
  "read_lines sinceID [] = Inr []"
| "read_lines sinceID (Garbage # ls) = (if ls = [] then Inr [] else Inl ErrCorruptLog)"
| "read_lines sinceID (Line e # ls) =
     (case read_lines sinceID ls of
        Inl err \<Rightarrow> Inl err
      | Inr es \<Rightarrow> Inr (if ev_ID e > sinceID then e # es else es))"

definition ReadEvents :: "JSONLLogger \<Rightarrow> int \<Rightarrow> log_error + Event list" where
  "ReadEvents l sinceID = read_lines sinceID (file_lines l)"

definition CloseLogger :: "JSONLLogger \<Rightarrow> JSONLLogger" where
  "CloseLogger l = l\<lparr>lg_closed := True\<rparr>"

section \<open>Replay\<close>

lemma read_lines_Line:
  "read_lines sinceID (map Line es @ ls) =
     (case read_lines sinceID ls of
        Inl err \<Rightarrow> Inl err | Inr es' \<Rightarrow> Inr (filter (\<lambda>e. ev_ID e > sinceID) es @ es'))"
  by (induction es) (auto split: sum.splits)

fun write_all :: "JSONLLogger \<Rightarrow> Event list \<Rightarrow> JSONLLogger" where
  "write_all l [] = l"
| "write_all l (e # es) = write_all (snd (WriteEvent WriteOk l e)) es"

lemma write_all_lines:
  "\<not> lg_closed l \<Longrightarrow> \<not> lg_torn l \<Longrightarrow>
   write_all l es = l\<lparr>lg_lines := lg_lines l @ map Line es\<rparr>"
  by (induction es arbitrary: l) (simp_all add: WriteEvent_def append_line_def)

text \<open>The log round trip: what was written to an intact log is read back in order, from any
  resume position, also when the process dies in the middle of the next write.\<close>

theorem ReadEvents_write_all:
  assumes "\<not> lg_closed l" and "\<not> lg_torn l" and "lg_lines l = map Line old"
  shows "ReadEvents (write_all l es) sinceID = Inr (filter (\<lambda>e. ev_ID e > sinceID) (old @ es)) \<and>
         ReadEvents (snd (WriteEvent (WriteFailed torn) (write_all l es) e)) sinceID
           = Inr (filter (\<lambda>e. ev_ID e > sinceID) (old @ es))"
proof -
  have all: "write_all l es = l\<lparr>lg_lines := map Line (old @ es)\<rparr>"
    using assms by (simp add: write_all_lines)
  have "read_lines sinceID (map Line (old @ es)) = Inr (filter (\<lambda>e. ev_ID e > sinceID) (old @ es))"
    using read_lines_Line [of sinceID "old @ es" "[]"] by simp
  moreover have "read_lines sinceID (map Line (old @ es) @ [Garbage]) =
      Inr (filter (\<lambda>e. ev_ID e > sinceID) (old @ es))"
    using read_lines_Line [of sinceID "old @ es" "[Garbage]"] by simp
  ultimately show ?thesis
    using assms by (simp add: all ReadEvents_def file_lines_def WriteEvent_def)
qed

definition sample_event :: "int \<Rightarrow> Event" where
  "sample_event i = NewEvent 0 i ''t1'' (EventThought (Some ''x''))"

theorem ReadEvents_write_all_witness:
  "ReadEvents (write_all (NewJSONLLogger [] False) [sample_event 1, sample_event 2, sample_event 3]) 1
   = Inr [sample_event 2, sample_event 3]"
proof -
  have "\<not> lg_closed (NewJSONLLogger [] False)" "\<not> lg_torn (NewJSONLLogger [] False)"
    "lg_lines (NewJSONLLogger [] False) = map Line []"
    by (simp_all add: NewJSONLLogger_def)
  from ReadEvents_write_all [OF this, of "[sample_event 1, sample_event 2, sample_event 3]" 1]
  show ?thesis by (simp add: sample_event_def NewEvent_def)
qed

text \<open>A torn tail is not repaired: when a log whose last write was torn is opened again, the next
  event is written behind the torn bytes without an error and is lost for every reader, and one
  more event makes the whole log unreadable.\<close>

theorem torn_log_loses_events:
  "let l = NewJSONLLogger (map Line old) True;
       (err1, l1) = WriteEvent WriteOk l e1;
       (err2, l2) = WriteEvent WriteOk l1 e2
   in err1 = None \<and> ReadEvents l1 sinceID = Inr (filter (\<lambda>e. ev_ID e > sinceID) old) \<and>
      err2 = None \<and> ReadEvents l2 sinceID = Inl ErrCorruptLog"
proof -
  have "read_lines sinceID (map Line old @ [Garbage]) = Inr (filter (\<lambda>e. ev_ID e > sinceID) old)"
    using read_lines_Line [of sinceID old "[Garbage]"] by simp
  moreover have "read_lines sinceID (map Line old @ [Garbage, Line e2]) = Inl ErrCorruptLog"
    using read_lines_Line [of sinceID old "[Garbage, Line e2]"] by simp
  ultimately show ?thesis
    by (simp add: NewJSONLLogger_def WriteEvent_def append_line_def ReadEvents_def file_lines_def)
qed

end
