(* ===== verification/Task_Lifecycle.thy ===== *)
theory Task_Lifecycle
  imports Task_Log Territory
begin

text \<open>
  A task and its life: \<open>pkg/server/task/task.go\<close> (with \<open>CancelTask\<close> and \<open>FailTask\<close> of
  \<open>manager.go\<close>, which work on one task) and the request and state types of
  \<open>pkg/protocol/tasks.go\<close>.

  \<open>ManagedTask\<close> is the Go struct. Its context is the flag \<open>t_canceled\<close> (\<open>cancel()\<close> was called).
  Subscriber channels are numbered; \<open>t_chans\<close> is the heap of channels and \<open>t_subscribers\<close> the set
  of those that still receive. An operation returns its error, the new task and whether it calls
  the \<open>onUpdate\<close> hook. Every operation runs under the task's mutex, so operations of concurrent
  goroutines are sequences of these functions.
\<close>

section \<open>Data\<close>

record CheckpointPayload =
  ck_Step :: int
  ck_TotalSteps :: int
  ck_Progress :: string
  ck_FilesDone :: "string list"
  ck_Context :: "string gomap"
  ck_LastUpdated :: int

record TaskRequest =
  rq_TaskID :: string
  rq_IdempotencyKey :: string
  rq_SessionID :: string
  rq_Agent :: string
  rq_Task :: string
  rq_Prompt :: string
  rq_Context :: string
  rq_WorkspaceRoot :: string
  rq_GitRepo :: string
  rq_GitBranch :: string
  rq_Domain :: string
  rq_BlastRadius :: string
  rq_EditSurfaces :: "string list"
  rq_Patch :: string
  rq_TimeoutSeconds :: int
  rq_MaxRetries :: int
  rq_RetryDelay :: int
  rq_Priority :: int
  rq_Tags :: "string list"
  rq_ResumeFrom :: "CheckpointPayload option"
  rq_EnableCheckpoint :: bool
  rq_CheckpointInterval :: int

record event_chan =
  ch_buf :: "Event list"
  ch_cap :: nat
  ch_closed :: bool

record ManagedTask =
  t_TaskID :: string
  t_Request :: TaskRequest
  t_Status :: TaskStatus
  t_CreatedAt :: int
  t_StartedAt :: int
  t_FinishedAt :: int
  t_Completion :: "CompletionPayload option"
  t_Error :: "ErrorPayload option"
  t_Domain :: string
  t_BlastRadius :: string
  t_Phase :: string
  t_CurrentAction :: string
  t_LastActivityAt :: int
  t_EditSurfaces :: "string list"
  t_NodeID :: string
  t_retryAttempts :: int
  t_canceled :: bool
  t_eventSeq :: int
  t_logger :: "JSONLLogger option"
  t_subscribers :: "nat list"
  t_chans :: "nat \<Rightarrow> event_chan"
  t_nextchan :: nat
  t_pendingQueries :: "nat gomap"
  t_answers :: "nat \<Rightarrow> string option"
  t_finishedTime :: "int option"
  t_checkpoint :: "CheckpointPayload option"

record TaskState =
  ts_TaskID :: string
  ts_SessionID :: string
  ts_Request :: TaskRequest
  ts_Status :: TaskStatus
  ts_CreatedAt :: int
  ts_StartedAt :: int
  ts_FinishedAt :: int
  ts_Completion :: "CompletionPayload option"
  ts_Error :: "ErrorPayload option"
  ts_WorkerID :: string
  ts_Checkpoint :: "CheckpointPayload option"

datatype task_error =
  ErrInvalidStateTransition | ErrTaskAlreadyFinished | ErrQueryNotFound | ErrQueryTimedOut | ErrContext
  | ErrTaskNotFound | ErrTaskLog log_error | ErrManagerClosed | ErrStore

definition no_chan :: event_chan where
  "no_chan = \<lparr>ch_buf = [], ch_cap = 0, ch_closed = False\<rparr>"

definition NewManagedTask ::
  "int \<Rightarrow> string \<Rightarrow> TaskRequest \<Rightarrow> JSONLLogger option \<Rightarrow> ManagedTask" where
  "NewManagedTask now taskID req logger =
     \<lparr>t_TaskID = taskID, t_Request = req, t_Status = TaskStatusQueued, t_CreatedAt = unix now,
      t_StartedAt = 0, t_FinishedAt = 0, t_Completion = None, t_Error = None,
      t_Domain = rq_Domain req,
      t_BlastRadius = (if rq_BlastRadius req = [] then BlastRadiusIsolated else rq_BlastRadius req),
      t_Phase = [], t_CurrentAction = [], t_LastActivityAt = unix now,
      t_EditSurfaces = rq_EditSurfaces req, t_NodeID = [], t_retryAttempts = 0,
      t_canceled = False, t_eventSeq = 0, t_logger = logger, t_subscribers = [],
      t_chans = (\<lambda>_. no_chan), t_nextchan = 0, t_pendingQueries = [], t_answers = (\<lambda>_. None),
      t_finishedTime = None, t_checkpoint = None\<rparr>"

section \<open>Status\<close>

fun terminal_status :: "TaskStatus \<Rightarrow> bool" where
  "terminal_status TaskStatusCompleted = True"
| "terminal_status TaskStatusFailed = True"
| "terminal_status TaskStatusCanceled = True"
| "terminal_status _ = False"

definition isTerminalLocked :: "ManagedTask \<Rightarrow> bool" where
  "isTerminalLocked t \<longleftrightarrow>
     t_Status t = TaskStatusCompleted \<or> t_Status t = TaskStatusFailed \<or>
     t_Status t = TaskStatusCanceled"

lemma isTerminalLocked_iff: "isTerminalLocked t \<longleftrightarrow> terminal_status (t_Status t)"
  by (cases "t_Status t") (simp_all add: isTerminalLocked_def)

fun isValidTransition :: "TaskStatus \<Rightarrow> TaskStatus \<Rightarrow> bool" where
  "isValidTransition from to =
     (if from = to then False
      else case from of
             TaskStatusQueued \<Rightarrow>
               to = TaskStatusPreparing \<or> to = TaskStatusRunning \<or>
               to = TaskStatusCanceled \<or> to = TaskStatusFailed
           | TaskStatusPreparing \<Rightarrow>
               to = TaskStatusRunning \<or> to = TaskStatusCanceled \<or> to = TaskStatusFailed
           | TaskStatusRunning \<Rightarrow>
               to = TaskStatusCompleted \<or> to = TaskStatusCanceled \<or> to = TaskStatusFailed
           | _ \<Rightarrow> False)"

declare isValidTransition.simps [simp del]

section \<open>Events\<close>

definition broadcast :: "Event \<Rightarrow> ManagedTask \<Rightarrow> ManagedTask" where
  "broadcast evt t =
     t\<lparr>t_chans := (\<lambda>i. let c = t_chans t i in
         if i \<in> set (t_subscribers t) \<and> length (ch_buf c) < ch_cap c
         then c\<lparr>ch_buf := ch_buf c @ [evt]\<rparr> else c)\<rparr>"

definition close_subscribers :: "ManagedTask \<Rightarrow> ManagedTask" where
  "close_subscribers t =
     t\<lparr>t_chans := (\<lambda>i. if i \<in> set (t_subscribers t) then (t_chans t i)\<lparr>ch_closed := True\<rparr>
                       else t_chans t i),
       t_subscribers := []\<rparr>"

definition write_log ::
  "write_outcome \<Rightarrow> Event \<Rightarrow> ManagedTask \<Rightarrow> log_error option \<times> ManagedTask" where
  "write_log w evt t =
     (case t_logger t of
        None \<Rightarrow> (None, t)
      | Some l \<Rightarrow> let (e, l') = WriteEvent w l evt in (e, t\<lparr>t_logger := Some l'\<rparr>))"

definition next_event :: "int \<Rightarrow> event_body \<Rightarrow> ManagedTask \<Rightarrow> Event" where
  "next_event now body t = NewEvent now (t_eventSeq t + 1) (t_TaskID t) body"

definition bump_seq :: "ManagedTask \<Rightarrow> ManagedTask" where
  "bump_seq t = t\<lparr>t_eventSeq := t_eventSeq t + 1\<rparr>"

text \<open>The common end of \<open>TransitionTo\<close> and \<open>EmitEvent\<close>: append to the log (an error returns at once),
  offer the event to the subscribers, close them if the task is now terminal.\<close>

definition publish ::
  "write_outcome \<Rightarrow> Event \<Rightarrow> ManagedTask \<Rightarrow> log_error option \<times> ManagedTask" where
  "publish w evt t =
     (case write_log w evt t of
        (Some e, t1) \<Rightarrow> (Some e, t1)
      | (None, t1) \<Rightarrow>
          let t2 = broadcast evt t1
          in (None, if isTerminalLocked t2 then close_subscribers t2 else t2))"

definition stamp_started :: "int \<Rightarrow> ManagedTask \<Rightarrow> ManagedTask" where
  "stamp_started now t =
     (if t_Status t = TaskStatusRunning \<and> t_StartedAt t = 0
      then t\<lparr>t_StartedAt := unix now\<rparr> else t)"

definition stamp_finished :: "int \<Rightarrow> ManagedTask \<Rightarrow> ManagedTask" where
  "stamp_finished now t =
     (if t_FinishedAt t = 0
      then t\<lparr>t_FinishedAt := unix now, t_finishedTime := Some now\<rparr> else t)"

text \<open>On a status change the finish stamp and the cancellation go together.\<close>

definition stamp_terminal :: "int \<Rightarrow> ManagedTask \<Rightarrow> ManagedTask" where
  "stamp_terminal now t =
     (if isTerminalLocked t \<and> t_FinishedAt t = 0
      then (stamp_finished now t)\<lparr>t_canceled := True\<rparr> else t)"

definition enter_status :: "int \<Rightarrow> TaskStatus \<Rightarrow> ManagedTask \<Rightarrow> ManagedTask" where
  "enter_status now status t = stamp_terminal now (stamp_started now (t\<lparr>t_Status := status\<rparr>))"

definition TransitionTo ::
  "write_outcome \<Rightarrow> int \<Rightarrow> ManagedTask \<Rightarrow> TaskStatus \<Rightarrow> task_error option \<times> ManagedTask \<times> bool" where
  "TransitionTo w now t status =
     (if isTerminalLocked t then (Some ErrTaskAlreadyFinished, t, False)
      else if \<not> isValidTransition (t_Status t) status then (Some ErrInvalidStateTransition, t, False)
      else
        let t1 = enter_status now status (t\<lparr>t_LastActivityAt := unix now\<rparr>);
            evt = next_event now (EventStatus (Some \<lparr>sp_Status = status, sp_Message = []\<rparr>)) t1
        in case publish w evt (bump_seq t1) of
             (Some e, t2) \<Rightarrow> (Some (ErrTaskLog e), t2, False)
           | (None, t2) \<Rightarrow> (None, t2, True))"

definition SetStatus ::
  "write_outcome \<Rightarrow> int \<Rightarrow> ManagedTask \<Rightarrow> TaskStatus \<Rightarrow> task_error option \<times> ManagedTask \<times> bool" where
  "SetStatus w now t status =
     (if t_Status t = status then (None, t, False) else TransitionTo w now t status)"

definition setCurrentActionLocked :: "string \<Rightarrow> ManagedTask \<Rightarrow> ManagedTask" where
  "setCurrentActionLocked text t =
     (let line = (case Index text [CHR 0x0A] of Some i \<Rightarrow> take i text | None \<Rightarrow> text);
          action = take 100 (TrimSpace line)
      in if action \<noteq> [] then t\<lparr>t_CurrentAction := action\<rparr> else t)"

definition addEditSurfaceLocked :: "string \<Rightarrow> ManagedTask \<Rightarrow> ManagedTask" where
  "addEditSurfaceLocked surface t =
     (if surface = [] \<or> surface \<in> set (t_EditSurfaces t) then t
      else t\<lparr>t_EditSurfaces := t_EditSurfaces t @ [surface]\<rparr>)"

fun first_path_arg :: "tool_arg gomap \<Rightarrow> string list \<Rightarrow> string option" where
  "first_path_arg args [] = None"
| "first_path_arg args (k # ks) =
     (case map_get args k of
        Some (ArgString v) \<Rightarrow> if v \<noteq> [] then Some v else first_path_arg args ks
      | _ \<Rightarrow> first_path_arg args ks)"

definition note_tool_call :: "ToolCallPayload \<Rightarrow> ManagedTask \<Rightarrow> ManagedTask" where
  "note_tool_call tp t =
     (let tool = tcp_Tool tp;
          t1 = t\<lparr>t_CurrentAction := ''Running tool '' @ tool\<rparr>;
          t2 = (if tool \<in> {''read'', ''grep'', ''find''} then t1\<lparr>t_Phase := ''explore''\<rparr>
                else if tool \<in> {''edit'', ''write''} then t1\<lparr>t_Phase := ''apply''\<rparr>
                else if tool = ''bash'' then t1\<lparr>t_Phase := ''verify''\<rparr> else t1)
      in if tool = ''edit'' \<or> tool = ''write'' then
           (case first_path_arg (tcp_Args tp) [''path'', ''file'', ''target''] of
              Some v \<Rightarrow> addEditSurfaceLocked v t2 | None \<Rightarrow> t2)
         else t2)"

text \<open>The \<open>switch\<close> of \<open>EmitEvent\<close>: the updated task and the notify flag, or \<open>None\<close> where it returns
  \<open>ErrInvalidStateTransition\<close>.\<close>

fun apply_body :: "int \<Rightarrow> event_body \<Rightarrow> ManagedTask \<Rightarrow> (ManagedTask \<times> bool) option" where
  "apply_body now (EventStatus (Some sp)) t =
     (if sp_Status sp = TaskStatusOther [] \<or> sp_Status sp = t_Status t then Some (t, False)
      else if t_Status t = TaskStatusRunning \<and> sp_Status sp = TaskStatusQueued then Some (t, False)
      else if \<not> isValidTransition (t_Status t) (sp_Status sp) then None
      else Some (enter_status now (sp_Status sp) t, True))"
| "apply_body now (EventToolCall (Some tp)) t = Some (note_tool_call tp t, False)"
| "apply_body now (EventThought (Some text)) t =
     Some (if text \<noteq> [] then setCurrentActionLocked text t else t, False)"
| "apply_body now (EventToken (Some text)) t =
     Some (if text \<noteq> [] then setCurrentActionLocked text t else t, False)"
| "apply_body now (EventCompletion cp) t =
     (let t1 = (case cp of
                  Some c \<Rightarrow> fold addEditSurfaceLocked (cp_FilesChanged c)
                              (t\<lparr>t_Completion := Some (Normalize c)\<rparr>)
                | None \<Rightarrow> t)
      in Some ((stamp_finished now (t1\<lparr>t_Status := TaskStatusCompleted, t_Phase := ''verify'',
                  t_CurrentAction := ''Task completed''\<rparr>))\<lparr>t_canceled := True\<rparr>, True))"
| "apply_body now (EventError ep) t =
     (let t1 = (case ep of
                  Some e \<Rightarrow> if t_Error t = None then t\<lparr>t_Error := Some e\<rparr> else t
                | None \<Rightarrow> t)
      in Some ((stamp_finished now (t1\<lparr>t_Status := TaskStatusFailed\<rparr>))\<lparr>t_canceled := True\<rparr>, True))"
| "apply_body now _ t = Some (t, False)"

definition EmitEvent ::
  "write_outcome \<Rightarrow> int \<Rightarrow> ManagedTask \<Rightarrow> event_body \<Rightarrow>
   (task_error + Event) \<times> ManagedTask \<times> bool" where
  "EmitEvent w now t body =
     (if isTerminalLocked t then (Inl ErrTaskAlreadyFinished, t, False)
      else
        let evt = next_event now body t;
            t1 = (bump_seq t)\<lparr>t_LastActivityAt := unix now\<rparr>
        in case apply_body now body t1 of
             None \<Rightarrow> (Inl ErrInvalidStateTransition, t1, False)
           | Some (t2, notify) \<Rightarrow>
               (case publish w evt t2 of
                  (Some e, t3) \<Rightarrow> (Inl (ErrTaskLog e), t3, notify)
                | (None, t3) \<Rightarrow> (Inr evt, t3, notify)))"

section \<open>Cancelling and failing\<close>

definition cancel_task ::
  "write_outcome \<Rightarrow> int \<Rightarrow> ManagedTask \<Rightarrow> string \<Rightarrow> task_error option \<times> ManagedTask \<times> bool" where
  "cancel_task w now t reason =
     (if isTerminalLocked t then (Some ErrTaskAlreadyFinished, t, False)
      else
        let t1 = stamp_finished now (t\<lparr>t_canceled := True, t_Status := TaskStatusCanceled\<rparr>);
            evt = next_event now
                    (EventStatus (Some \<lparr>sp_Status = TaskStatusCanceled, sp_Message = reason\<rparr>)) t1;
            t2 = snd (write_log w evt (bump_seq t1))
        in (None, close_subscribers (broadcast evt t2), True))"

definition fail_task ::
  "write_outcome \<Rightarrow> write_outcome \<Rightarrow> int \<Rightarrow> ManagedTask \<Rightarrow> string \<Rightarrow> string \<Rightarrow>
   task_error option \<times> ManagedTask \<times> bool" where
  "fail_task w w' now t code message =
     (let payload = \<lparr>ep_Code = code, ep_Message = message, ep_Fatal = True\<rparr> in
      if isTerminalLocked t then (Some ErrTaskAlreadyFinished, t, False)
      else
        let alreadyReported = (t_Error t \<noteq> None);
            t1 = t\<lparr>t_Error := Some payload\<rparr>
        in if \<not> alreadyReported \<and> t_logger t \<noteq> None then
             (case EmitEvent w now t1 (EventError (Some payload)) of
                (Inl e, t2, n) \<Rightarrow> (Some e, t2, n)
              | (Inr _, t2, n) \<Rightarrow>
                  if t_Status t2 = TaskStatusFailed then (None, t2, n)
                  else TransitionTo w' now t2 TaskStatusFailed)
           else if t_Status t1 = TaskStatusFailed then (None, t1, False)
           else TransitionTo w' now t1 TaskStatusFailed)"

section \<open>Queries, scope, snapshots\<close>

definition RegisterQuery :: "ManagedTask \<Rightarrow> string \<Rightarrow> nat \<times> ManagedTask" where
  "RegisterQuery t queryID =
     (case map_get (t_pendingQueries t) queryID of
        Some ch \<Rightarrow> (ch, t)
      | None \<Rightarrow>
          let ch = t_nextchan t
          in (ch, t\<lparr>t_pendingQueries := map_put (t_pendingQueries t) queryID ch,
                    t_nextchan := Suc ch\<rparr>))"

definition ResolveQuery :: "ManagedTask \<Rightarrow> string \<Rightarrow> string \<Rightarrow> task_error option \<times> ManagedTask" where
  "ResolveQuery t queryID answer =
     (case map_get (t_pendingQueries t) queryID of
        None \<Rightarrow> (Some ErrQueryNotFound, t)
      | Some ch \<Rightarrow>
          (None, t\<lparr>t_pendingQueries := map_del (t_pendingQueries t) queryID,
                   t_answers := (t_answers t)(ch := Some answer)\<rparr>))"

text \<open>\<open>WaitForQuery\<close> registers the query and waits. It ends with the answer that \<open>ResolveQuery\<close> put into
  the channel, or, when its context is done first (\<open>deadline\<close> says whether by its deadline), it
  removes the query and returns an error.\<close>

datatype wait_end = Answered string | ContextDone bool

definition WaitForQuery :: "ManagedTask \<Rightarrow> string \<Rightarrow> nat \<times> ManagedTask" where
  "WaitForQuery t queryID = RegisterQuery t queryID"

definition WaitForQuery_end ::
  "ManagedTask \<Rightarrow> string \<Rightarrow> wait_end \<Rightarrow> (task_error + string) \<times> ManagedTask" where
  "WaitForQuery_end t queryID e =
     (case e of
        Answered ans \<Rightarrow> (Inr ans, t)
      | ContextDone deadline \<Rightarrow>
          (Inl (if deadline then ErrQueryTimedOut else ErrContext),
           t\<lparr>t_pendingQueries := map_del (t_pendingQueries t) queryID\<rparr>))"

definition UpdateActivity :: "int \<Rightarrow> string list \<Rightarrow> ManagedTask \<Rightarrow> ManagedTask" where
  "UpdateActivity now action t =
     (let t1 = t\<lparr>t_LastActivityAt := unix now\<rparr> in
      case action of
        [a] \<Rightarrow> if a \<noteq> [] then t1\<lparr>t_CurrentAction := a\<rparr> else t1
      | a # b # _ \<Rightarrow> t1\<lparr>t_Phase := a, t_CurrentAction := b\<rparr>
      | [] \<Rightarrow> t1)"

definition SetScope :: "int \<Rightarrow> string \<Rightarrow> string \<Rightarrow> string \<Rightarrow> string \<Rightarrow> ManagedTask \<Rightarrow> ManagedTask" where
  "SetScope now domain blastRadius phase action t =
     (let t1 = t\<lparr>t_Domain := domain\<rparr>;
          t2 = (if blastRadius \<noteq> [] then t1\<lparr>t_BlastRadius := blastRadius\<rparr>
                else if t_BlastRadius t1 = [] then t1\<lparr>t_BlastRadius := BlastRadiusIsolated\<rparr>
                else t1);
          t3 = (if phase \<noteq> [] then t2\<lparr>t_Phase := phase\<rparr> else t2)
      in t3\<lparr>t_CurrentAction := action, t_LastActivityAt := unix now\<rparr>)"

definition SetEditSurfaces :: "string list \<Rightarrow> ManagedTask \<Rightarrow> ManagedTask" where
  "SetEditSurfaces surfaces t = t\<lparr>t_EditSurfaces := surfaces\<rparr>"

definition SetCheckpoint :: "int \<Rightarrow> CheckpointPayload option \<Rightarrow> ManagedTask \<Rightarrow> ManagedTask" where
  "SetCheckpoint now cp t = t\<lparr>t_checkpoint := cp, t_LastActivityAt := unix now\<rparr>"

definition IncRetryAttempts :: "ManagedTask \<Rightarrow> int \<times> ManagedTask" where
  "IncRetryAttempts t = (t_retryAttempts t + 1, t\<lparr>t_retryAttempts := t_retryAttempts t + 1\<rparr>)"

definition AttributeNode :: "string \<Rightarrow> ManagedTask \<Rightarrow> ManagedTask \<times> bool" where
  "AttributeNode nodeID t =
     (if nodeID = [] \<or> t_NodeID t \<noteq> [] then (t, False) else (t\<lparr>t_NodeID := nodeID\<rparr>, True))"

definition TerritoryOf :: "ManagedTask \<Rightarrow> ActiveTerritory" where
  "TerritoryOf t =
     \<lparr>at_TaskID = t_TaskID t, at_Repo = rq_GitRepo (t_Request t),
      at_Branch = rq_GitBranch (t_Request t), at_EditSurfaces = t_EditSurfaces t,
      at_Agent = rq_Agent (t_Request t), at_TaskSummary = rq_Task (t_Request t),
      at_NodeID = t_NodeID t, at_StartedAt = t_StartedAt t, at_Domain = t_Domain t,
      at_BlastRadius = (if t_BlastRadius t = [] then BlastRadiusIsolated else t_BlastRadius t),
      at_Phase = t_Phase t, at_CurrentAction = t_CurrentAction t,
      at_LastActivityAt =
        (if t_LastActivityAt t = 0 then t_CreatedAt t else t_LastActivityAt t)\<rparr>"

definition TaskSnapshot :: "ManagedTask \<Rightarrow> TaskState" where
  "TaskSnapshot t =
     \<lparr>ts_TaskID = t_TaskID t, ts_SessionID = rq_SessionID (t_Request t), ts_Request = t_Request t,
      ts_Status = t_Status t, ts_CreatedAt = t_CreatedAt t, ts_StartedAt = t_StartedAt t,
      ts_FinishedAt = t_FinishedAt t, ts_Completion = t_Completion t, ts_Error = t_Error t,
      ts_WorkerID = t_NodeID t, ts_Checkpoint = t_checkpoint t\<rparr>"

section \<open>Subscriptions\<close>

definition SubscribeTask ::
  "ManagedTask \<Rightarrow> int \<Rightarrow> (task_error + nat) \<times> ManagedTask" where
  "SubscribeTask t sinceID =
     (case (case t_logger t of None \<Rightarrow> Inr [] | Some l \<Rightarrow> ReadEvents l sinceID) of
        Inl e \<Rightarrow> (Inl (ErrTaskLog e), t)
      | Inr history \<Rightarrow>
          let i = t_nextchan t in
          if isTerminalLocked t then
            (Inr i, t\<lparr>t_nextchan := Suc i,
               t_chans := (t_chans t)(i := \<lparr>ch_buf = history, ch_cap = length history,
                                            ch_closed = True\<rparr>)\<rparr>)
          else
            let bufSize = (if length history + 64 > 128 then length history + 64 else 128)
            in (Inr i, t\<lparr>t_nextchan := Suc i,
                 t_chans := (t_chans t)(i := \<lparr>ch_buf = history, ch_cap = bufSize,
                                              ch_closed = False\<rparr>),
                 t_subscribers := i # t_subscribers t\<rparr>))"

definition unsubscribe :: "ManagedTask \<Rightarrow> nat \<Rightarrow> ManagedTask" where
  "unsubscribe t i =
     (if i \<in> set (t_subscribers t)
      then t\<lparr>t_subscribers := filter (\<lambda>j. j \<noteq> i) (t_subscribers t),
             t_chans := (t_chans t)(i := (t_chans t i)\<lparr>ch_buf := [], ch_closed := True\<rparr>)\<rparr>
      else t)"

section \<open>Frames\<close>

text \<open>Publishing touches the log and the channels only: \<open>core\<close> is the rest of the task.\<close>

definition core :: "ManagedTask \<Rightarrow> ManagedTask" where
  "core t = t\<lparr>t_logger := None, t_subscribers := [], t_chans := (\<lambda>_. no_chan)\<rparr>"

lemma core_write_log [simp]: "core (snd (write_log w evt t)) = core t"
  by (simp add: write_log_def core_def split_beta split: option.splits)

lemma core_broadcast [simp]: "core (broadcast evt t) = core t"
  by (simp add: broadcast_def core_def)

lemma core_close [simp]: "core (close_subscribers t) = core t"
  by (simp add: close_subscribers_def core_def)

lemma core_publish [simp]: "core (snd (publish w evt t)) = core t"
proof -
  obtain e t1 where wl: "write_log w evt t = (e, t1)" by force
  then have "core t1 = core t" using core_write_log [of w evt t] by simp
  then show ?thesis by (cases e) (simp_all add: publish_def wl Let_def)
qed

lemma core_field: "(\<And>t. f (core t) = f t) \<Longrightarrow> core t = core u \<Longrightarrow> f t = f u"
  by metis

lemma publish_fields [simp]:
  "t_Status (snd (publish w evt t)) = t_Status t"
  "t_eventSeq (snd (publish w evt t)) = t_eventSeq t"
  "t_TaskID (snd (publish w evt t)) = t_TaskID t"
  "t_Request (snd (publish w evt t)) = t_Request t"
  "t_retryAttempts (snd (publish w evt t)) = t_retryAttempts t"
  "t_FinishedAt (snd (publish w evt t)) = t_FinishedAt t"
  "t_canceled (snd (publish w evt t)) = t_canceled t"
  "t_nextchan (snd (publish w evt t)) = t_nextchan t"
  by (rule core_field [OF _ core_publish]; simp add: core_def)+

text \<open>The outcome of a task: what a client of a finished task can see of it.\<close>

definition outcome where
  "outcome t = (t_Status t, t_FinishedAt t, t_Completion t, t_Error t, t_eventSeq t, t_canceled t)"

lemma outcome_frame [simp]:
  "outcome (t\<lparr>t_logger := l\<rparr>) = outcome t"
  "outcome (t\<lparr>t_chans := c\<rparr>) = outcome t"
  "outcome (t\<lparr>t_subscribers := s\<rparr>) = outcome t"
  "outcome (t\<lparr>t_LastActivityAt := i\<rparr>) = outcome t"
  "outcome (t\<lparr>t_CurrentAction := a\<rparr>) = outcome t"
  "outcome (t\<lparr>t_Phase := a\<rparr>) = outcome t"
  "outcome (t\<lparr>t_EditSurfaces := ss\<rparr>) = outcome t"
  by (simp_all add: outcome_def)

lemma outcome_core: "outcome (core t) = outcome t"
  by (simp add: core_def outcome_def)

lemma outcome_publish [simp]: "outcome (snd (publish w evt t)) = outcome t"
  by (rule core_field [where f = outcome, OF outcome_core core_publish])

lemma outcome_write_log [simp]: "outcome (snd (write_log w evt t)) = outcome t"
  by (rule core_field [where f = outcome, OF outcome_core core_write_log])

lemma outcome_broadcast [simp]: "outcome (broadcast evt t) = outcome t"
  by (rule core_field [where f = outcome, OF outcome_core core_broadcast])

lemma outcome_close [simp]: "outcome (close_subscribers t) = outcome t"
  by (rule core_field [where f = outcome, OF outcome_core core_close])

lemma outcome_setCurrentAction [simp]: "outcome (setCurrentActionLocked text t) = outcome t"
  by (simp add: setCurrentActionLocked_def Let_def)

lemma outcome_addEditSurface [simp]: "outcome (addEditSurfaceLocked s t) = outcome t"
  by (simp add: addEditSurfaceLocked_def)

lemma outcome_note_tool_call [simp]: "outcome (note_tool_call tp t) = outcome t"
  by (simp add: note_tool_call_def Let_def split: option.splits)

lemma outcome_fold_surfaces [simp]: "outcome (fold addEditSurfaceLocked ss t) = outcome t"
  by (induction ss arbitrary: t) auto

lemmas outcome_eq = outcome_def prod.inject

section \<open>Runs of a task\<close>

datatype task_op =
  OpTransition write_outcome int TaskStatus
  | OpSetStatus write_outcome int TaskStatus
  | OpEmit write_outcome int event_body
  | OpCancel write_outcome int string
  | OpFail write_outcome write_outcome int string string
  | OpRegisterQuery string
  | OpResolveQuery string string
  | OpWaitEnd string wait_end
  | OpActivity int "string list"
  | OpScope int string string string string
  | OpSurfaces "string list"
  | OpCheckpoint int "CheckpointPayload option"
  | OpRetry
  | OpAttribute string
  | OpSubscribe int
  | OpUnsubscribe nat

fun task_step :: "ManagedTask \<Rightarrow> task_op \<Rightarrow> ManagedTask" where
  "task_step t (OpTransition w now st) = fst (snd (TransitionTo w now t st))"
| "task_step t (OpSetStatus w now st) = fst (snd (SetStatus w now t st))"
| "task_step t (OpEmit w now body) = fst (snd (EmitEvent w now t body))"
| "task_step t (OpCancel w now reason) = fst (snd (cancel_task w now t reason))"
| "task_step t (OpFail w w' now code msg) = fst (snd (fail_task w w' now t code msg))"
| "task_step t (OpRegisterQuery q) = snd (RegisterQuery t q)"
| "task_step t (OpResolveQuery q a) = snd (ResolveQuery t q a)"
| "task_step t (OpWaitEnd q e) = snd (WaitForQuery_end t q e)"
| "task_step t (OpActivity now a) = UpdateActivity now a t"
| "task_step t (OpScope now d b p a) = SetScope now d b p a t"
| "task_step t (OpSurfaces ss) = SetEditSurfaces ss t"
| "task_step t (OpCheckpoint now cp) = SetCheckpoint now cp t"
| "task_step t OpRetry = snd (IncRetryAttempts t)"
| "task_step t (OpAttribute n) = fst (AttributeNode n t)"
| "task_step t (OpSubscribe since) = snd (SubscribeTask t since)"
| "task_step t (OpUnsubscribe i) = unsubscribe t i"

lemma outcome_passive:
  "outcome (snd (RegisterQuery t q)) = outcome t"
  "outcome (snd (ResolveQuery t q a)) = outcome t"
  "outcome (snd (WaitForQuery_end t q e)) = outcome t"
  "outcome (UpdateActivity now act t) = outcome t"
  "outcome (SetScope now d b p ac t) = outcome t"
  "outcome (SetEditSurfaces ss t) = outcome t"
  "outcome (SetCheckpoint now cp t) = outcome t"
  "outcome (snd (IncRetryAttempts t)) = outcome t"
  "outcome (fst (AttributeNode n t)) = outcome t"
  "outcome (snd (SubscribeTask t since)) = outcome t"
  "outcome (unsubscribe t i) = outcome t"
  by (simp_all add: outcome_def RegisterQuery_def ResolveQuery_def WaitForQuery_end_def UpdateActivity_def SetScope_def
      SetEditSurfaces_def SetCheckpoint_def IncRetryAttempts_def AttributeNode_def SubscribeTask_def
      unsubscribe_def Let_def split: option.splits list.splits sum.splits wait_end.splits)

lemma terminal_step_outcome:
  assumes "isTerminalLocked t"
  shows "outcome (task_step t op) = outcome t"
  using assms
  by (cases op)
    (simp_all add: outcome_passive TransitionTo_def SetStatus_def EmitEvent_def cancel_task_def
      fail_task_def Let_def)

lemma outcome_terminal: "outcome t = outcome u \<Longrightarrow> isTerminalLocked t = isTerminalLocked u"
  by (simp add: isTerminalLocked_def outcome_def)

text \<open>C1. Terminal states absorb: once a task is completed, failed or canceled, no sequence of
  operations changes its status, its finish time, its result, its error or its event counter.\<close>

theorem terminal_absorbing:
  assumes "isTerminalLocked t"
  shows "outcome (foldl task_step t ops) = outcome t"
  using assms
proof (induction ops arbitrary: t)
  case Nil
  then show ?case by simp
next
  case (Cons op ops)
  then have eq: "outcome (task_step t op) = outcome t" by (simp add: terminal_step_outcome)
  with Cons.prems have "isTerminalLocked (task_step t op)" using outcome_terminal by blast
  from Cons.IH [OF this] eq show ?case by simp
qed

definition sample_request :: TaskRequest where
  "sample_request =
     \<lparr>rq_TaskID = ''t1'', rq_IdempotencyKey = [], rq_SessionID = [], rq_Agent = ''coder'',
      rq_Task = ''fix login'', rq_Prompt = [], rq_Context = [], rq_WorkspaceRoot = [],
      rq_GitRepo = ''github.com/org/repo'', rq_GitBranch = ''main'', rq_Domain = [],
      rq_BlastRadius = [], rq_EditSurfaces = [''pkg/auth''], rq_Patch = [],
      rq_TimeoutSeconds = 0, rq_MaxRetries = 0, rq_RetryDelay = 0, rq_Priority = 0, rq_Tags = [],
      rq_ResumeFrom = None, rq_EnableCheckpoint = False, rq_CheckpointInterval = 0\<rparr>"

definition sample_task :: ManagedTask where
  "sample_task = NewManagedTask (nanos 100) ''t1'' sample_request (Some (NewJSONLLogger [] False))"

theorem terminal_absorbing_witness:
  "t_Status (foldl task_step
      (task_step sample_task (OpCancel WriteOk (nanos 101) ''stop''))
      [OpEmit WriteOk (nanos 102) (EventCompletion None), OpTransition WriteOk (nanos 103) TaskStatusRunning])
   = TaskStatusCanceled"
proof -
  let ?t = "task_step sample_task (OpCancel WriteOk (nanos 101) ''stop'')"
  have st: "t_Status ?t = TaskStatusCanceled" by code_simp
  then have "isTerminalLocked ?t" by (simp add: isTerminalLocked_def)
  from terminal_absorbing [OF this] st show ?thesis by (simp only: outcome_eq)
qed

section \<open>What one operation publishes\<close>

text \<open>\<open>io\<close> is the part of the task that publishing changes, and \<open>writes\<close> are the log writes an
  operation may ask for.\<close>

definition io :: "ManagedTask \<Rightarrow> JSONLLogger option \<times> nat list \<times> (nat \<Rightarrow> event_chan)" where
  "io t = (t_logger t, t_subscribers t, t_chans t)"

fun writes :: "task_op \<Rightarrow> write_outcome list" where
  "writes (OpTransition w _ _) = [w]"
| "writes (OpSetStatus w _ _) = [w]"
| "writes (OpEmit w _ _) = [w]"
| "writes (OpCancel w _ _) = [w]"
| "writes (OpFail w w' _ _ _) = [w, w']"
| "writes _ = []"

definition published :: "write_outcome \<Rightarrow> ManagedTask \<Rightarrow> ManagedTask \<Rightarrow> bool" where
  "published w t t' \<longleftrightarrow>
     (\<exists>evt t1. io t1 = io t \<and> ev_ID evt = t_eventSeq t + 1 \<and> t_eventSeq t1 = t_eventSeq t + 1 \<and>
        t_nextchan t1 = t_nextchan t \<and>
        (t' = snd (publish w evt t1) \<or>
         isTerminalLocked t1 \<and> t' = close_subscribers (broadcast evt (snd (write_log w evt t1)))))"

definition quiet :: "ManagedTask \<Rightarrow> ManagedTask \<Rightarrow> bool" where
  "quiet t t' \<longleftrightarrow> io t' = io t \<and> t_eventSeq t \<le> t_eventSeq t' \<and> t_Status t' = t_Status t \<and>
     t_nextchan t \<le> t_nextchan t'"

lemma quiet_refl [simp]: "quiet t t"
  by (simp add: quiet_def)

text \<open>Updates that only touch the rest of the task.\<close>

definition bookkeeping :: "ManagedTask \<Rightarrow> ManagedTask \<Rightarrow> bool" where
  "bookkeeping t t' \<longleftrightarrow> io t' = io t \<and> t_eventSeq t' = t_eventSeq t \<and> t_nextchan t' = t_nextchan t \<and>
     t_TaskID t' = t_TaskID t \<and> t_Request t' = t_Request t \<and>
     t_retryAttempts t' = t_retryAttempts t"

lemma bookkeeping_trans: "bookkeeping t u \<Longrightarrow> bookkeeping u v \<Longrightarrow> bookkeeping t v"
  by (simp add: bookkeeping_def)

lemma bookkeeping_surfaces: "bookkeeping t (fold addEditSurfaceLocked ss t)"
  by (induction ss arbitrary: t)
    (auto simp: bookkeeping_def addEditSurfaceLocked_def io_def)

lemma bookkeeping_enter: "bookkeeping t (enter_status now st t)"
  by (simp add: bookkeeping_def enter_status_def stamp_terminal_def stamp_started_def
      stamp_finished_def io_def)

lemma bookkeeping_tool_call: "bookkeeping t (note_tool_call tp t)"
  by (simp add: bookkeeping_def note_tool_call_def addEditSurfaceLocked_def io_def Let_def
      split: option.splits)

lemma bookkeeping_update:
  "bookkeeping t u \<Longrightarrow> bookkeeping t (u\<lparr>t_Status := st, t_Phase := ph, t_CurrentAction := ac\<rparr>)"
  "bookkeeping t u \<Longrightarrow> bookkeeping t (u\<lparr>t_Status := st\<rparr>)"
  "bookkeeping t u \<Longrightarrow> bookkeeping t (u\<lparr>t_canceled := b\<rparr>)"
  "bookkeeping t u \<Longrightarrow> bookkeeping t (u\<lparr>t_Completion := c\<rparr>)"
  "bookkeeping t u \<Longrightarrow> bookkeeping t (u\<lparr>t_Error := e\<rparr>)"
  "bookkeeping t u \<Longrightarrow> bookkeeping t (stamp_finished now u)"
  by (simp_all add: bookkeeping_def io_def stamp_finished_def)

lemma bookkeeping_refl: "bookkeeping t t"
  by (simp add: bookkeeping_def)

lemma bookkeeping_action: "bookkeeping t (setCurrentActionLocked text t)"
  by (simp add: bookkeeping_def setCurrentActionLocked_def io_def Let_def)

lemma bookkeeping_completion:
  "bookkeeping t (fold addEditSurfaceLocked ss (t\<lparr>t_Completion := c\<rparr>))"
  by (rule bookkeeping_trans [OF _ bookkeeping_surfaces])
    (rule bookkeeping_update [OF bookkeeping_refl])

lemmas bookkeeping_intros = bookkeeping_update bookkeeping_refl bookkeeping_action
  bookkeeping_completion bookkeeping_tool_call bookkeeping_enter

lemma bookkeeping_apply_body:
  assumes "apply_body now body t = Some (t', n)"
  shows "bookkeeping t t'"
  using assms
  by (cases "(now, body, t)" rule: apply_body.cases)
    (auto simp: Let_def intro!: bookkeeping_intros split: if_splits option.splits)

lemma published_TransitionTo:
  "fst (snd (TransitionTo w now t st)) = t \<or> published w t (fst (snd (TransitionTo w now t st)))"
proof (cases "isTerminalLocked t \<or> \<not> isValidTransition (t_Status t) st")
  case True
  then show ?thesis by (auto simp: TransitionTo_def)
next
  case False
  let ?t1 = "enter_status now st (t\<lparr>t_LastActivityAt := unix now\<rparr>)"
  let ?e = "next_event now (EventStatus (Some \<lparr>sp_Status = st, sp_Message = []\<rparr>)) ?t1"
  have bk: "bookkeeping (t\<lparr>t_LastActivityAt := unix now\<rparr>) ?t1" by (rule bookkeeping_enter)
  have "fst (snd (TransitionTo w now t st)) = snd (publish w ?e (bump_seq ?t1))"
    using False by (simp add: TransitionTo_def Let_def split: prod.splits option.splits)
  moreover have "io (bump_seq ?t1) = io t \<and> ev_ID ?e = t_eventSeq t + 1 \<and>
      t_eventSeq (bump_seq ?t1) = t_eventSeq t + 1 \<and> t_nextchan (bump_seq ?t1) = t_nextchan t"
    using bk by (simp add: bookkeeping_def io_def bump_seq_def next_event_def NewEvent_def)
  ultimately show ?thesis unfolding published_def by blast
qed

lemma published_EmitEvent:
  "quiet t (fst (snd (EmitEvent w now t body))) \<or> published w t (fst (snd (EmitEvent w now t body)))"
proof (cases "isTerminalLocked t")
  case True
  then show ?thesis by (simp add: EmitEvent_def)
next
  case False
  let ?t1 = "(bump_seq t)\<lparr>t_LastActivityAt := unix now\<rparr>"
  show ?thesis
  proof (cases "apply_body now body ?t1")
    case None
    with False show ?thesis by (simp add: EmitEvent_def Let_def quiet_def io_def bump_seq_def)
  next
    case (Some r)
    then obtain t2 n where ab: "apply_body now body ?t1 = Some (t2, n)" by (cases r) auto
    then have "bookkeeping ?t1 t2" by (rule bookkeeping_apply_body)
    then have "io t2 = io t \<and> t_eventSeq t2 = t_eventSeq t + 1 \<and> t_nextchan t2 = t_nextchan t"
      by (simp add: bookkeeping_def io_def bump_seq_def)
    moreover have "ev_ID (next_event now body t) = t_eventSeq t + 1"
      by (simp add: next_event_def NewEvent_def)
    moreover have "fst (snd (EmitEvent w now t body)) = snd (publish w (next_event now body t) t2)"
      using False ab by (simp add: EmitEvent_def Let_def split: prod.splits option.splits)
    ultimately show ?thesis unfolding published_def by blast
  qed
qed

lemma published_cancel:
  "fst (snd (cancel_task w now t reason)) = t \<or> published w t (fst (snd (cancel_task w now t reason)))"
proof (cases "isTerminalLocked t")
  case True
  then show ?thesis by (simp add: cancel_task_def)
next
  case False
  let ?t1 = "stamp_finished now (t\<lparr>t_canceled := True, t_Status := TaskStatusCanceled\<rparr>)"
  let ?e = "next_event now (EventStatus (Some \<lparr>sp_Status = TaskStatusCanceled, sp_Message = reason\<rparr>)) ?t1"
  have "fst (snd (cancel_task w now t reason)) =
      close_subscribers (broadcast ?e (snd (write_log w ?e (bump_seq ?t1))))"
    using False by (simp add: cancel_task_def Let_def)
  moreover have "io (bump_seq ?t1) = io t \<and> ev_ID ?e = t_eventSeq t + 1 \<and>
      t_eventSeq (bump_seq ?t1) = t_eventSeq t + 1 \<and> t_nextchan (bump_seq ?t1) = t_nextchan t \<and>
      isTerminalLocked (bump_seq ?t1)"
    by (simp add: stamp_finished_def io_def bump_seq_def next_event_def NewEvent_def
        isTerminalLocked_def)
  ultimately show ?thesis unfolding published_def by blast
qed

text \<open>\<open>FailTask\<close> is one \<open>EmitEvent\<close> or one \<open>TransitionTo\<close>, never both: the error event already fails
  the task.\<close>

lemma fail_task_cases:
  assumes "\<not> isTerminalLocked t"
  obtains (emit) p where "t_Error t = None"
      "fst (snd (fail_task w w' now t code msg)) =
       fst (snd (EmitEvent w now (t\<lparr>t_Error := Some p\<rparr>) (EventError (Some p))))"
  | (move) p where "fst (snd (fail_task w w' now t code msg)) =
       fst (snd (TransitionTo w' now (t\<lparr>t_Error := Some p\<rparr>) TaskStatusFailed))"
proof -
  let ?p = "\<lparr>ep_Code = code, ep_Message = msg, ep_Fatal = True\<rparr>"
  let ?t = "t\<lparr>t_Error := Some ?p\<rparr>"
  have nt: "\<not> isTerminalLocked ?t" "t_Status t \<noteq> TaskStatusFailed"
    using assms by (auto simp: isTerminalLocked_def)
  show ?thesis
  proof (cases "t_Error t = None \<and> t_logger t \<noteq> None")
    case False
    then have "fst (snd (fail_task w w' now t code msg)) =
        fst (snd (TransitionTo w' now ?t TaskStatusFailed))"
      using assms nt by (auto simp: fail_task_def Let_def)
    then show ?thesis by (rule move)
  next
    case True
    obtain r t2 n where em: "EmitEvent w now ?t (EventError (Some ?p)) = (r, t2, n)"
      by (metis prod_cases3)
    have "t_Status t2 = TaskStatusFailed"
    proof -
      let ?u = "(stamp_finished now (?t\<lparr>t_eventSeq := t_eventSeq t + 1,
                  t_LastActivityAt := unix now, t_Status := TaskStatusFailed\<rparr>))\<lparr>t_canceled := True\<rparr>"
      have "fst (snd (EmitEvent w now ?t (EventError (Some ?p)))) =
          snd (publish w (next_event now (EventError (Some ?p)) ?t) ?u)"
        using nt(1) by (simp add: EmitEvent_def Let_def bump_seq_def split: prod.splits option.splits)
      then show ?thesis by (simp add: em stamp_finished_def)
    qed
    then have "fst (snd (fail_task w w' now t code msg)) =
        fst (snd (EmitEvent w now ?t (EventError (Some ?p))))"
      using assms True em by (cases r) (auto simp: fail_task_def Let_def)
    then show ?thesis using True by (auto intro: emit)
  qed
qed

lemma published_frame: "io u = io t \<Longrightarrow> t_eventSeq u = t_eventSeq t \<Longrightarrow>
  t_nextchan u = t_nextchan t \<Longrightarrow> published w u t' \<Longrightarrow> published w t t'"
  unfolding published_def by metis

lemma quiet_frame: "io u = io t \<Longrightarrow> t_eventSeq u = t_eventSeq t \<Longrightarrow>
  t_nextchan u = t_nextchan t \<Longrightarrow> t_Status u = t_Status t \<Longrightarrow> quiet u t' \<Longrightarrow> quiet t t'"
  by (simp add: quiet_def)

lemma published_fail:
  "quiet t (fst (snd (fail_task w w' now t code msg))) \<or>
   (\<exists>v \<in> {w, w'}. published v t (fst (snd (fail_task w w' now t code msg))))"
proof (cases "isTerminalLocked t")
  case True
  then show ?thesis by (simp add: fail_task_def)
next
  case False
  have fr: "io (t\<lparr>t_Error := e\<rparr>) = io t" "t_eventSeq (t\<lparr>t_Error := e\<rparr>) = t_eventSeq t"
    "t_nextchan (t\<lparr>t_Error := e\<rparr>) = t_nextchan t" "t_Status (t\<lparr>t_Error := e\<rparr>) = t_Status t" for e
    by (simp_all add: io_def)
  from False show ?thesis
  proof (cases rule: fail_task_cases [where w = w and w' = w' and now = now and code = code and msg = msg])
    case (emit p)
    then show ?thesis
      using published_EmitEvent [of "t\<lparr>t_Error := Some p\<rparr>" w now "EventError (Some p)"]
        published_frame [OF fr(1-3)] quiet_frame [OF fr] by auto
  next
    case (move p)
    then show ?thesis
      using published_TransitionTo [of w' now "t\<lparr>t_Error := Some p\<rparr>" TaskStatusFailed]
        published_frame [OF fr(1-3)] by (auto simp: quiet_def fr)
  qed
qed

text \<open>Every operation other than a subscription is quiet or publishes one event.\<close>

lemma step_shape:
  assumes "\<forall>since. op \<noteq> OpSubscribe since" and "\<forall>i. op \<noteq> OpUnsubscribe i"
  shows "quiet t (task_step t op) \<or> (\<exists>w \<in> set (writes op). published w t (task_step t op))"
proof (cases op)
  case (OpTransition w now st)
  then show ?thesis using published_TransitionTo [of w now t st] by auto
next
  case (OpSetStatus w now st)
  then show ?thesis using published_TransitionTo [of w now t st] by (auto simp: SetStatus_def)
next
  case (OpEmit w now body)
  then show ?thesis using published_EmitEvent [of t w now body] by auto
next
  case (OpCancel w now reason)
  then show ?thesis using published_cancel [of w now t reason] by auto
next
  case (OpFail w w' now code msg)
  then show ?thesis using published_fail [of t w w' now code msg] by auto
qed (use assms in \<open>auto simp: quiet_def io_def RegisterQuery_def ResolveQuery_def WaitForQuery_end_def UpdateActivity_def
    SetScope_def SetEditSurfaces_def SetCheckpoint_def IncRetryAttempts_def AttributeNode_def
    Let_def split: option.splits list.splits wait_end.splits\<close>)

section \<open>The status graph\<close>

fun completes :: "task_op \<Rightarrow> bool" where
  "completes (OpEmit _ _ (EventCompletion _)) = True"
| "completes _ = False"

definition moves :: "bool \<Rightarrow> TaskStatus \<Rightarrow> TaskStatus \<Rightarrow> bool" where
  "moves completion s s' \<longleftrightarrow>
     s' = s \<or> isValidTransition s s' \<or>
     completion \<and> s' = TaskStatusCompleted \<and> (s = TaskStatusQueued \<or> s = TaskStatusPreparing)"

definition known_status :: "TaskStatus \<Rightarrow> bool" where
  "known_status s \<longleftrightarrow> (\<forall>x. s \<noteq> TaskStatusOther x)"

lemma moves_known: "known_status s \<Longrightarrow> moves b s s' \<Longrightarrow> known_status s'"
  by (cases s) (auto simp: moves_def known_status_def isValidTransition.simps split: if_splits)

lemma moves_terminal:
  "known_status s \<Longrightarrow> \<not> terminal_status s \<Longrightarrow> s' = TaskStatusFailed \<or> s' = TaskStatusCanceled \<Longrightarrow>
   moves b s s'"
  by (cases s) (auto simp: moves_def known_status_def isValidTransition.simps)

lemma status_surfaces: "t_Status (fold addEditSurfaceLocked ss t) = t_Status t"
  by (induction ss arbitrary: t) (auto simp: addEditSurfaceLocked_def)

lemma status_frames:
  "t_Status (note_tool_call tp t) = t_Status t"
  "t_Status (setCurrentActionLocked s t) = t_Status t"
  using outcome_note_tool_call [of tp t] outcome_setCurrentAction [of s t]
  by (simp_all add: outcome_def)

lemma status_enter [simp]: "t_Status (enter_status now st t) = st"
  by (simp add: enter_status_def stamp_terminal_def stamp_started_def stamp_finished_def)

lemma status_apply_body:
  assumes "apply_body now body t = Some (t', n)" "known_status (t_Status t)" "\<not> isTerminalLocked t"
  shows "moves (completes (OpEmit w now body)) (t_Status t) (t_Status t')"
  using assms
proof (cases "(now, body, t)" rule: apply_body.cases)
  case (5 now' cp t0)
  then have "t_Status t' = TaskStatusCompleted" "completes (OpEmit w now body)"
    using assms(1) by (auto simp: Let_def stamp_finished_def)
  then show ?thesis using assms(2,3)
    by (cases "t_Status t") (auto simp: moves_def known_status_def isTerminalLocked_def isValidTransition.simps)
next
  case (6 now' ep t0)
  then have "t_Status t' = TaskStatusFailed" using assms(1) by (auto simp: Let_def stamp_finished_def)
  then show ?thesis using assms(2,3) moves_terminal isTerminalLocked_iff by blast
qed (use assms in \<open>auto simp: moves_def status_frames split: if_splits\<close>)

lemma status_TransitionTo: "moves b (t_Status t) (t_Status (fst (snd (TransitionTo w now t st))))"
  by (auto simp: TransitionTo_def moves_def Let_def bump_seq_def prod.case_eq_if option.case_eq_if
     )

lemma status_EmitEvent:
  assumes "known_status (t_Status t)"
  shows "moves (completes (OpEmit w now body)) (t_Status t) (t_Status (fst (snd (EmitEvent w now t body))))"
proof (cases "isTerminalLocked t")
  case True
  then show ?thesis by (simp add: EmitEvent_def moves_def)
next
  case False
  let ?t1 = "(bump_seq t)\<lparr>t_LastActivityAt := unix now\<rparr>"
  have t1: "known_status (t_Status ?t1)" "\<not> isTerminalLocked ?t1" "t_Status ?t1 = t_Status t"
    using assms False by (simp_all add: bump_seq_def isTerminalLocked_def)
  show ?thesis
  proof (cases "apply_body now body ?t1")
    case None
    with False show ?thesis by (simp add: EmitEvent_def Let_def moves_def bump_seq_def)
  next
    case (Some r)
    then obtain t2 n where ab: "apply_body now body ?t1 = Some (t2, n)" by (cases r) auto
    have "t_Status (fst (snd (EmitEvent w now t body))) = t_Status t2"
      using False ab by (simp add: EmitEvent_def Let_def prod.case_eq_if option.case_eq_if)
    then show ?thesis using status_apply_body [OF ab t1(1,2)] t1(3) by simp
  qed
qed

lemma status_cancel:
  assumes "known_status (t_Status t)"
  shows "moves b (t_Status t) (t_Status (fst (snd (cancel_task w now t reason))))"
proof (cases "isTerminalLocked t")
  case True
  then show ?thesis by (simp add: cancel_task_def moves_def)
next
  case False
  have co: "t_Status u = t_Status v" if "core u = core v" for u v
    by (rule core_field [where f = t_Status, OF _ that]) (simp add: core_def)
  have "t_Status (fst (snd (cancel_task w now t reason))) = TaskStatusCanceled"
    using False
    by (simp add: cancel_task_def Let_def co [OF core_close] co [OF core_broadcast]
        co [OF core_write_log] bump_seq_def stamp_finished_def)
  then show ?thesis using False assms moves_terminal isTerminalLocked_iff by metis
qed

lemma status_fail:
  assumes "known_status (t_Status t)"
  shows "moves b (t_Status t) (t_Status (fst (snd (fail_task w w' now t code msg))))"
proof (cases "isTerminalLocked t")
  case True
  then show ?thesis by (simp add: fail_task_def moves_def)
next
  case False
  then show ?thesis
  proof (cases rule: fail_task_cases [where w = w and w' = w' and now = now and code = code and msg = msg])
    case (emit p)
    then show ?thesis
      using status_EmitEvent [of "t\<lparr>t_Error := Some p\<rparr>" w now "EventError (Some p)"] assms
      by (auto simp: moves_def)
  next
    case (move p)
    then show ?thesis
      using status_TransitionTo [of b "t\<lparr>t_Error := Some p\<rparr>" w' now TaskStatusFailed] by simp
  qed
qed

lemma status_passive: "outcome u = outcome t \<Longrightarrow> moves b (t_Status t) (t_Status u)"
  by (simp add: outcome_def moves_def)

lemma status_step:
  assumes "known_status (t_Status t)"
  shows "moves (completes op) (t_Status t) (t_Status (task_step t op))"
proof (cases op)
  case (OpTransition w now st)
  then show ?thesis using status_TransitionTo by simp
next
  case (OpSetStatus w now st)
  then show ?thesis using status_TransitionTo [of "completes op" t w now st]
    by (auto simp: SetStatus_def moves_def)
next
  case (OpEmit w now body)
  then show ?thesis using status_EmitEvent [OF assms, of w now body] by simp
next
  case (OpCancel w now reason)
  then show ?thesis using status_cancel [OF assms] by simp
next
  case (OpFail w w' now code msg)
  then show ?thesis using status_fail [OF assms] by simp
qed (simp_all add: status_passive outcome_passive)

definition fresh_task :: "int \<Rightarrow> string \<Rightarrow> TaskRequest \<Rightarrow> ManagedTask" where
  "fresh_task now taskID req = NewManagedTask now taskID req (Some (NewJSONLLogger [] False))"

lemma run_invariant:
  assumes "P t" and "\<And>u op. op \<in> set ops \<Longrightarrow> P u \<Longrightarrow> P (task_step u op)"
  shows "P (foldl task_step t ops)"
  using assms
proof (induction ops arbitrary: t)
  case Nil
  then show ?case by simp
next
  case (Cons op ops)
  then have "P (task_step t op)" by simp
  with Cons show ?case by simp
qed

lemma known_status_reachable: "known_status (t_Status (foldl task_step (fresh_task now tid req) ops))"
proof (rule run_invariant)
  show "known_status (t_Status (fresh_task now tid req))"
    by (simp add: fresh_task_def NewManagedTask_def known_status_def)
qed (use status_step moves_known in blast)

text \<open>C2. The lifecycle graph: whatever sequence of operations a task has seen, the next one leaves
  its status alone or moves it along an edge of \<open>isValidTransition\<close>. The one shortcut is a
  completion event, which also completes a task that is still queued or preparing.\<close>

theorem status_follows_lifecycle:
  "let t = foldl task_step (fresh_task now tid req) ops; t' = task_step t op
   in t_Status t' = t_Status t \<or> isValidTransition (t_Status t) (t_Status t') \<or>
      completes op \<and> t_Status t' = TaskStatusCompleted \<and>
        (t_Status t = TaskStatusQueued \<or> t_Status t = TaskStatusPreparing)"
  using status_step [OF known_status_reachable, of op now tid req ops]
  by (simp only: Let_def moves_def)

end
