(* ===== verification/Task_Stream.thy ===== *)
theory Task_Stream
  imports Task_Lifecycle
begin

text \<open>
  What a client of a task's event stream can rely on, over all sequences of operations of
  \<open>Task_Lifecycle\<close>: event ids, resuming after a reconnect, the finish stamp, and the equality of a
  live subscription with a replay of the log.
\<close>

section \<open>Event ids\<close>

fun events_of :: "log_line list \<Rightarrow> Event list" where
  "events_of [] = []"
| "events_of (Line e # ls) = e # events_of ls"
| "events_of (Garbage # ls) = events_of ls"

lemma events_of_append [simp]: "events_of (xs @ ys) = events_of xs @ events_of ys"
  by (induction xs rule: events_of.induct) auto

lemma events_of_Line [simp]: "events_of (map Line es) = es"
  by (induction es) auto

definition seq_inv :: "ManagedTask \<Rightarrow> bool" where
  "seq_inv t \<longleftrightarrow>
     (case t_logger t of
        None \<Rightarrow> False
      | Some l \<Rightarrow> sorted_wrt (<) (map ev_ID (events_of (lg_lines l))) \<and>
          list_all (\<lambda>e. 0 < ev_ID e \<and> ev_ID e \<le> t_eventSeq t) (events_of (lg_lines l))) \<and>
     0 \<le> t_eventSeq t"

lemma publish_logger:
  "t_logger (snd (publish w evt t)) = map_option (\<lambda>l. snd (WriteEvent w l evt)) (t_logger t)"
  by (auto simp: publish_def write_log_def broadcast_def close_subscribers_def Let_def
      split: option.splits prod.splits)

lemma cancel_logger:
  "t_logger (close_subscribers (broadcast evt (snd (write_log w evt t)))) =
   map_option (\<lambda>l. snd (WriteEvent w l evt)) (t_logger t)"
  by (auto simp: write_log_def broadcast_def close_subscribers_def Let_def
      split: option.splits prod.splits)

lemma cancel_fields:
  "t_eventSeq (close_subscribers (broadcast evt (snd (write_log w evt t)))) = t_eventSeq t"
  "t_Status (close_subscribers (broadcast evt (snd (write_log w evt t)))) = t_Status t"
  "t_nextchan (close_subscribers (broadcast evt (snd (write_log w evt t)))) = t_nextchan t"
  by (auto simp: write_log_def broadcast_def close_subscribers_def Let_def
      split: option.splits prod.splits)

lemma events_of_WriteEvent:
  "events_of (lg_lines (snd (WriteEvent w l e))) \<in>
     {events_of (lg_lines l), events_of (lg_lines l) @ [e]}"
  by (cases w) (auto simp: WriteEvent_def append_line_def)

lemma publishedE:
  assumes "published w t t'"
  obtains evt t1 where "io t1 = io t" "ev_ID evt = t_eventSeq t + 1"
    "t_eventSeq t' = t_eventSeq t + 1" "t_nextchan t' = t_nextchan t"
    "t_logger t' = map_option (\<lambda>l. snd (WriteEvent w l evt)) (t_logger t)"
    "isTerminalLocked t' = isTerminalLocked t1"
    "t' = snd (publish w evt t1) \<or>
     isTerminalLocked t1 \<and> t' = close_subscribers (broadcast evt (snd (write_log w evt t1)))"
proof -
  from assms obtain evt t1 where a: "io t1 = io t" "ev_ID evt = t_eventSeq t + 1"
    "t_eventSeq t1 = t_eventSeq t + 1" "t_nextchan t1 = t_nextchan t"
    "t' = snd (publish w evt t1) \<or>
     isTerminalLocked t1 \<and> t' = close_subscribers (broadcast evt (snd (write_log w evt t1)))"
    unfolding published_def by blast
  moreover have "t_logger t1 = t_logger t" using a(1) by (simp add: io_def)
  ultimately show thesis
    by (intro that [of t1 evt]) (auto simp: publish_logger cancel_logger cancel_fields isTerminalLocked_def)
qed

lemma seq_inv_published:
  assumes "seq_inv t" and "published w t t'"
  shows "seq_inv t'"
proof -
  from assms(1) obtain l where l: "t_logger t = Some l"
    "sorted_wrt (<) (map ev_ID (events_of (lg_lines l)))"
    "list_all (\<lambda>e. 0 < ev_ID e \<and> ev_ID e \<le> t_eventSeq t) (events_of (lg_lines l))" "0 \<le> t_eventSeq t"
    by (auto simp: seq_inv_def split: option.splits)
  from assms(2) obtain evt where e: "ev_ID evt = t_eventSeq t + 1" "t_eventSeq t' = t_eventSeq t + 1"
    "t_logger t' = Some (snd (WriteEvent w l evt))"
    by (elim publishedE) (simp add: l(1))
  have "list_all (\<lambda>e. 0 < ev_ID e \<and> ev_ID e \<le> t_eventSeq t + 1) (events_of (lg_lines l))"
    using l(3) by (auto simp: list_all_iff)
  then show ?thesis
    using events_of_WriteEvent [of w l evt] l e
    by (auto simp: seq_inv_def sorted_wrt_append list_all_iff)
qed

lemma seq_inv_mono:
  "seq_inv t \<Longrightarrow> t_logger t' = t_logger t \<Longrightarrow> t_eventSeq t \<le> t_eventSeq t' \<Longrightarrow> seq_inv t'"
  by (fastforce simp: seq_inv_def list_all_iff split: option.splits)

lemma subscription_frame:
  "t_logger (snd (SubscribeTask t since)) = t_logger t"
  "t_eventSeq (snd (SubscribeTask t since)) = t_eventSeq t"
  "t_logger (unsubscribe t i) = t_logger t"
  "t_eventSeq (unsubscribe t i) = t_eventSeq t"
  by (auto simp: SubscribeTask_def unsubscribe_def Let_def split: sum.splits)

lemma step_cases:
  obtains (quiet) "quiet t (task_step t op)"
  | (published) w where "w \<in> set (writes op)" "published w t (task_step t op)"
  | (subscribe) since where "op = OpSubscribe since"
  | (unsubscribe) i where "op = OpUnsubscribe i"
  using step_shape [of op t] by blast

lemma seq_inv_step: "seq_inv t \<Longrightarrow> seq_inv (task_step t op)"
proof (cases rule: step_cases [of t op])
  case (published w)
  then show "seq_inv t \<Longrightarrow> ?thesis" using seq_inv_published by blast
qed (auto elim!: seq_inv_mono simp: quiet_def io_def subscription_frame)

lemma seq_inv_reachable: "seq_inv (foldl task_step (fresh_task now tid req) ops)"
proof (rule run_invariant)
  show "seq_inv (fresh_task now tid req)"
    by (simp add: seq_inv_def fresh_task_def NewManagedTask_def NewJSONLLogger_def)
qed (rule seq_inv_step)

lemma read_lines_events:
  "read_lines k ls = Inr es \<Longrightarrow> es = filter (\<lambda>e. ev_ID e > k) (events_of ls)"
  by (induction k ls arbitrary: es rule: read_lines.induct) (auto split: sum.splits if_splits)

lemma read_lines_error: "read_lines k ls = Inl e \<Longrightarrow> read_lines k' ls = Inl ErrCorruptLog"
  by (induction k ls rule: read_lines.induct) (auto split: sum.splits if_splits)

lemma filter_above_dropWhile:
  "sorted_wrt (<) (map f xs) \<Longrightarrow> filter (\<lambda>x. (k :: int) < f x) xs = dropWhile (\<lambda>x. f x \<le> k) xs"
proof (induction xs)
  case (Cons x xs)
  show ?case
  proof (cases "f x \<le> k")
    case False
    with Cons.prems have "\<forall>y \<in> set xs. k < f y" by force
    with False show ?thesis by (simp add: filter_True)
  qed (use Cons in auto)
qed simp

lemma events_of_file_lines [simp]: "events_of (file_lines l) = events_of (lg_lines l)"
  by (simp add: file_lines_def)

lemma ReadEvents_all:
  "seq_inv t \<Longrightarrow> t_logger t = Some l \<Longrightarrow> ReadEvents l 0 = Inr es \<Longrightarrow> es = events_of (lg_lines l)"
  unfolding ReadEvents_def by (drule read_lines_events) (auto simp: seq_inv_def list_all_iff)

text \<open>C4. Resuming is exact: in every reachable state, also after failed or torn log writes, the ids of
  the events that a replay from the start yields are strictly increasing, and a client that
  resumes after event \<open>k\<close> gets exactly the rest of that replay (or the same error).\<close>

theorem resume_exact:
  "case t_logger (foldl task_step (fresh_task now tid req) ops) of
     None \<Rightarrow> False
   | Some l \<Rightarrow>
       (case ReadEvents l 0 of
          Inl _ \<Rightarrow> ReadEvents l k = Inl ErrCorruptLog
        | Inr es \<Rightarrow> sorted_wrt (<) (map ev_ID es) \<and>
                    ReadEvents l k = Inr (dropWhile (\<lambda>e. ev_ID e \<le> k) es))"
proof -
  let ?t = "foldl task_step (fresh_task now tid req) ops"
  have inv: "seq_inv ?t" by (rule seq_inv_reachable)
  then obtain l where l: "t_logger ?t = Some l"
    and srt: "sorted_wrt (<) (map ev_ID (events_of (lg_lines l)))"
    by (auto simp: seq_inv_def split: option.splits)
  show ?thesis
  proof (cases "ReadEvents l 0")
    case (Inl e)
    then show ?thesis using l read_lines_error [of 0 _ e k] by (simp add: ReadEvents_def)
  next
    case (Inr es)
    have es: "es = events_of (lg_lines l)" by (rule ReadEvents_all [OF inv l Inr])
    obtain es' where r: "ReadEvents l k = Inr es'"
      using Inr read_lines_error [of k "file_lines l" _ 0] by (cases "ReadEvents l k") (auto simp: ReadEvents_def)
    then have "es' = filter (\<lambda>e. ev_ID e > k) (events_of (lg_lines l))"
      unfolding ReadEvents_def by (auto dest: read_lines_events)
    then show ?thesis using l Inr r srt es by (simp add: filter_above_dropWhile)
  qed
qed

section \<open>Live subscriptions\<close>

text \<open>The log is intact while every write succeeds.\<close>

definition intact :: "JSONLLogger \<Rightarrow> Event list \<Rightarrow> bool" where
  "intact l es \<longleftrightarrow> \<not> lg_closed l \<and> \<not> lg_torn l \<and> lg_lines l = map Line es"

definition writes_ok :: "task_op \<Rightarrow> bool" where
  "writes_ok op \<longleftrightarrow> list_all (\<lambda>w. w = WriteOk) (writes op)"

lemma intact_write: "intact l es \<Longrightarrow> intact (snd (WriteEvent WriteOk l e)) (es @ [e])"
  by (simp add: intact_def WriteEvent_def append_line_def)

lemma intact_read: "intact l es \<Longrightarrow> ReadEvents l k = Inr (filter (\<lambda>e. ev_ID e > k) es)"
  using read_lines_Line [of k es "[]"] by (simp add: intact_def ReadEvents_def file_lines_def)

text \<open>The subscription of channel \<open>i\<close>, opened at position \<open>since\<close>, with room for \<open>n\<close> more events.\<close>

definition stream_inv :: "nat \<Rightarrow> int \<Rightarrow> nat \<Rightarrow> ManagedTask \<Rightarrow> bool" where
  "stream_inv i since n t \<longleftrightarrow>
     (\<exists>l es. t_logger t = Some l \<and> intact l es \<and>
        ch_buf (t_chans t i) = filter (\<lambda>e. ev_ID e > since) es) \<and>
     since \<le> t_eventSeq t \<and> i < t_nextchan t \<and>
     ch_closed (t_chans t i) = isTerminalLocked t \<and>
     (\<not> isTerminalLocked t \<longrightarrow>
        i \<in> set (t_subscribers t) \<and> length (ch_buf (t_chans t i)) + n \<le> ch_cap (t_chans t i)) \<and>
     (isTerminalLocked t \<longrightarrow> i \<notin> set (t_subscribers t))"

lemma publish_ok:
  assumes "t_logger t = Some l" and "intact l es"
  shows "snd (publish WriteOk evt t) =
     (let t2 = broadcast evt (t\<lparr>t_logger := Some (snd (WriteEvent WriteOk l evt))\<rparr>)
      in if isTerminalLocked t2 then close_subscribers t2 else t2)"
  using assms by (simp add: publish_def write_log_def WriteEvent_def intact_def Let_def)

lemma chan_publish:
  assumes "t_logger t = Some l" "intact l es" "i \<in> set (t_subscribers t)"
    "length (ch_buf (t_chans t i)) < ch_cap (t_chans t i)"
    "t' = snd (publish WriteOk evt t) \<or>
     isTerminalLocked t \<and> t' = close_subscribers (broadcast evt (snd (write_log WriteOk evt t)))"
  shows "t_chans t' i = (t_chans t i)\<lparr>ch_buf := ch_buf (t_chans t i) @ [evt],
           ch_closed := isTerminalLocked t \<or> ch_closed (t_chans t i)\<rparr> \<and>
         t_subscribers t' = (if isTerminalLocked t then [] else t_subscribers t)"
proof -
  have "t_subscribers (snd (write_log WriteOk evt t)) = t_subscribers t"
    "t_chans (snd (write_log WriteOk evt t)) = t_chans t"
    by (simp_all add: write_log_def Let_def split_beta split: option.splits)
  then show ?thesis
    using assms publish_ok [OF assms(1,2), of evt]
    by (auto simp: broadcast_def close_subscribers_def Let_def isTerminalLocked_def split: if_splits)
qed

lemma stream_published:
  assumes inv: "stream_inv i since (Suc n) t" and nt: "\<not> isTerminalLocked t"
    and pub: "published WriteOk t t'"
  shows "stream_inv i since n t'"
proof -
  from inv nt obtain l es where l: "t_logger t = Some l" "intact l es"
      "ch_buf (t_chans t i) = filter (\<lambda>e. ev_ID e > since) es"
    and r: "since \<le> t_eventSeq t" "i < t_nextchan t" "\<not> ch_closed (t_chans t i)"
      "i \<in> set (t_subscribers t)" "length (ch_buf (t_chans t i)) + Suc n \<le> ch_cap (t_chans t i)"
    by (auto simp: stream_inv_def)
  from pub obtain evt t1 where p: "io t1 = io t" "ev_ID evt = t_eventSeq t + 1"
    "t_eventSeq t' = t_eventSeq t + 1" "t_nextchan t' = t_nextchan t"
    "t_logger t' = map_option (\<lambda>l. snd (WriteEvent WriteOk l evt)) (t_logger t)"
    "isTerminalLocked t' = isTerminalLocked t1"
    "t' = snd (publish WriteOk evt t1) \<or>
     isTerminalLocked t1 \<and> t' = close_subscribers (broadcast evt (snd (write_log WriteOk evt t1)))"
    by (elim publishedE)
  have io: "t_logger t1 = t_logger t" "t_subscribers t1 = t_subscribers t" "t_chans t1 = t_chans t"
    using p(1) by (simp_all add: io_def)
  have ch: "t_chans t' i = (t_chans t i)\<lparr>ch_buf := ch_buf (t_chans t i) @ [evt],
           ch_closed := isTerminalLocked t1 \<or> ch_closed (t_chans t i)\<rparr>"
    "t_subscribers t' = (if isTerminalLocked t1 then [] else t_subscribers t)"
    using chan_publish [of t1 l es i t' evt] l r p(7) io by auto
  have "intact (snd (WriteEvent WriteOk l evt)) (es @ [evt])" using l(2) by (rule intact_write)
  moreover have "since < ev_ID evt" using r(1) p(2) by simp
  ultimately show ?thesis
    unfolding stream_inv_def using ch p l r by auto
qed

lemma terminal_step_io:
  assumes "isTerminalLocked t" "\<forall>since. op \<noteq> OpSubscribe since" "\<forall>i. op \<noteq> OpUnsubscribe i"
  shows "io (task_step t op) = io t"
  using assms
  by (cases op)
    (auto simp: io_def TransitionTo_def SetStatus_def EmitEvent_def cancel_task_def fail_task_def
      Let_def RegisterQuery_def ResolveQuery_def WaitForQuery_end_def UpdateActivity_def SetScope_def SetEditSurfaces_def
      SetCheckpoint_def IncRetryAttempts_def AttributeNode_def
      split: option.splits list.splits wait_end.splits)

lemma nextchan_mono: "t_nextchan t \<le> t_nextchan (task_step t op)"
proof (cases rule: step_cases [of t op])
  case (published w)
  then show ?thesis by (elim publishedE) simp
qed (auto simp: quiet_def SubscribeTask_def unsubscribe_def Let_def split: sum.splits)

lemma stream_weaken: "stream_inv i since (Suc n) t \<Longrightarrow> stream_inv i since n t"
  by (auto simp: stream_inv_def)

lemma stream_quiet:
  "stream_inv i since n t \<Longrightarrow> io t' = io t \<Longrightarrow> t_Status t' = t_Status t \<Longrightarrow>
   t_eventSeq t \<le> t_eventSeq t' \<Longrightarrow> t_nextchan t \<le> t_nextchan t' \<Longrightarrow> stream_inv i since n t'"
  by (auto simp: stream_inv_def io_def isTerminalLocked_def)

lemma stream_subscribe: "stream_inv i since n t \<Longrightarrow> stream_inv i since n (snd (SubscribeTask t k))"
  by (auto simp: stream_inv_def SubscribeTask_def Let_def isTerminalLocked_def split: sum.splits)

lemma stream_unsubscribe: "stream_inv i since n t \<Longrightarrow> j \<noteq> i \<Longrightarrow> stream_inv i since n (unsubscribe t j)"
  by (auto simp: stream_inv_def unsubscribe_def isTerminalLocked_def)

lemma stream_step:
  assumes inv: "stream_inv i since (Suc n) t" and ok: "writes_ok op" and ne: "op \<noteq> OpUnsubscribe i"
  shows "stream_inv i since n (task_step t op)"
proof (cases rule: step_cases [of t op])
  case quiet
  then show ?thesis using stream_quiet [OF stream_weaken [OF inv]] by (simp add: quiet_def)
next
  case (published w)
  have w: "w = WriteOk" using published(1) ok by (simp add: writes_ok_def list_all_iff)
  show ?thesis
  proof (cases "isTerminalLocked t")
    case True
    have st: "t_Status (task_step t op) = t_Status t" "t_eventSeq (task_step t op) = t_eventSeq t"
      using terminal_step_outcome [OF True, of op] by (simp_all add: outcome_def)
    have "io (task_step t op) = io t"
      using published(1) by (intro terminal_step_io [OF True]) auto
    then show ?thesis
      using stream_quiet [OF stream_weaken [OF inv]] st nextchan_mono [of t op] by simp
  next
    case False
    then show ?thesis using stream_published [OF inv] published(2) w by simp
  qed
next
  case (subscribe k)
  then show ?thesis using stream_subscribe [OF stream_weaken [OF inv]] by simp
next
  case (unsubscribe j)
  then show ?thesis using stream_unsubscribe [OF stream_weaken [OF inv]] ne by simp
qed

lemma stream_run:
  "stream_inv i since (n + length ops) t \<Longrightarrow> list_all writes_ok ops \<Longrightarrow> OpUnsubscribe i \<notin> set ops \<Longrightarrow>
   stream_inv i since n (foldl task_step t ops)"
  by (induction ops arbitrary: t) (auto intro!: stream_step)

definition log_intact :: "ManagedTask \<Rightarrow> bool" where
  "log_intact t \<longleftrightarrow> (\<exists>l es. t_logger t = Some l \<and> intact l es)"

lemma log_intact_step: "log_intact t \<Longrightarrow> writes_ok op \<Longrightarrow> log_intact (task_step t op)"
proof (cases rule: step_cases [of t op])
  case (published w)
  moreover assume "writes_ok op"
  ultimately have "published WriteOk t (task_step t op)" by (auto simp: writes_ok_def list_all_iff)
  then show "log_intact t \<Longrightarrow> ?thesis"
    by (elim publishedE) (auto simp: log_intact_def intro: intact_write)
qed (auto simp: log_intact_def quiet_def io_def subscription_frame)

lemma log_intact_reachable:
  assumes "list_all writes_ok ops"
  shows "log_intact (foldl task_step (fresh_task now tid req) ops)"
proof (rule run_invariant)
  show "log_intact (fresh_task now tid req)"
    by (auto simp: log_intact_def fresh_task_def NewManagedTask_def NewJSONLLogger_def intact_def)
qed (use assms log_intact_step in \<open>auto simp: list_all_iff\<close>)

lemma stream_start:
  assumes "log_intact t" and "since \<le> t_eventSeq t" and "SubscribeTask t since = (Inr i, t')"
    and "\<forall>j \<in> set (t_subscribers t). j < t_nextchan t"
  shows "stream_inv i since 64 t'"
proof -
  from assms(1) obtain l es where l: "t_logger t = Some l" "intact l es" by (auto simp: log_intact_def)
  then have "ReadEvents l since = Inr (filter (\<lambda>e. ev_ID e > since) es)" by (simp add: intact_read)
  then show ?thesis
    using assms l by (auto simp: SubscribeTask_def stream_inv_def Let_def isTerminalLocked_def
        split: if_splits)
qed

definition subs_below :: "ManagedTask \<Rightarrow> bool" where
  "subs_below t \<longleftrightarrow> (\<forall>j \<in> set (t_subscribers t). j < t_nextchan t)"

lemma publish_subs: "set (t_subscribers (snd (publish w evt t))) \<subseteq> set (t_subscribers t)"
  by (auto simp: publish_def write_log_def broadcast_def close_subscribers_def Let_def
      split: option.splits prod.splits if_splits)

lemma subs_below_step: "subs_below t \<Longrightarrow> subs_below (task_step t op)"
proof (cases rule: step_cases [of t op])
  case (published w)
  then obtain evt t1 where p: "io t1 = io t" "t_nextchan (task_step t op) = t_nextchan t"
    "task_step t op = snd (publish w evt t1) \<or>
     task_step t op = close_subscribers (broadcast evt (snd (write_log w evt t1)))"
    by (elim publishedE) blast
  then have "set (t_subscribers (task_step t op)) \<subseteq> set (t_subscribers t)"
    using publish_subs [of w evt t1] by (auto simp: io_def close_subscribers_def)
  then show "subs_below t \<Longrightarrow> ?thesis" using p(2) by (auto simp: subs_below_def)
qed (fastforce simp: subs_below_def quiet_def io_def SubscribeTask_def unsubscribe_def Let_def
    split: sum.splits if_splits)+

lemma subs_below_reachable: "subs_below (foldl task_step (fresh_task now tid req) ops)"
proof (rule run_invariant)
  show "subs_below (fresh_task now tid req)"
    by (simp add: subs_below_def fresh_task_def NewManagedTask_def)
qed (rule subs_below_step)



section \<open>Finishing\<close>

text \<open>A log write that fails while a task finishes strands its subscribers: the task is terminal and
  the operation reports the error, but a subscriber's channel stays open, and no later
  operation on the task closes it, apart from the subscriber's own unsubscription.\<close>

theorem failed_write_strands_subscribers:
  assumes "\<not> isTerminalLocked t" and "isValidTransition (t_Status t) st" and "terminal_status st"
    and "t_logger t = Some l" and "i \<in> set (t_subscribers t)" and "\<not> ch_closed (t_chans t i)"
    and "i < t_nextchan t" and "OpUnsubscribe i \<notin> set ops"
  shows "\<exists>e t1. TransitionTo (WriteFailed torn) now t st = (Some (ErrTaskLog e), t1, False) \<and>
     isTerminalLocked (foldl task_step t1 ops) \<and> i \<in> set (t_subscribers (foldl task_step t1 ops)) \<and>
     \<not> ch_closed (t_chans (foldl task_step t1 ops) i)"
proof -
  define stranded where "stranded u \<longleftrightarrow> isTerminalLocked u \<and> i \<in> set (t_subscribers u) \<and>
      \<not> ch_closed (t_chans u i) \<and> i < t_nextchan u" for u
  let ?e = "if lg_closed l then ErrLoggerClosed else ErrWrite"
  let ?t1 = "fst (snd (TransitionTo (WriteFailed torn) now t st))"
  have en: "bookkeeping (t\<lparr>t_LastActivityAt := unix now\<rparr>) (enter_status now st (t\<lparr>t_LastActivityAt := unix now\<rparr>))"
    by (rule bookkeeping_enter)
  then have tr: "TransitionTo (WriteFailed torn) now t st = (Some (ErrTaskLog ?e), ?t1, False)"
    using assms(1,2,4)
    by (simp add: TransitionTo_def Let_def publish_def write_log_def bump_seq_def WriteEvent_def
        bookkeeping_def io_def)
  have "t_subscribers ?t1 = t_subscribers t \<and> t_chans ?t1 = t_chans t \<and> t_nextchan ?t1 = t_nextchan t \<and>
      t_Status ?t1 = st"
    using assms(1,2,4) en
    by (simp add: TransitionTo_def Let_def publish_def write_log_def bump_seq_def WriteEvent_def
        bookkeeping_def io_def)
  then have "stranded ?t1" using assms(3,5-7) by (simp add: stranded_def isTerminalLocked_iff)
  moreover have "stranded (task_step u op)" if "op \<in> set ops" and u: "stranded u" for u op
  proof -
    have ti: "isTerminalLocked (task_step u op)"
      using u terminal_step_outcome outcome_terminal by (metis stranded_def)
    have nx: "t_nextchan u \<le> t_nextchan (task_step u op)" by (rule nextchan_mono)
    show ?thesis
    proof (cases "(\<exists>k. op = OpSubscribe k) \<or> (\<exists>j. op = OpUnsubscribe j)")
      case True
      have "op \<noteq> OpUnsubscribe i" using that(1) assms(8) by auto
      then show ?thesis using True u ti nx
        by (auto simp: stranded_def SubscribeTask_def unsubscribe_def Let_def
            split: sum.splits if_splits)
    next
      case False
      then have "io (task_step u op) = io u"
        using u by (intro terminal_step_io) (auto simp: stranded_def)
      then show ?thesis using u ti nx by (auto simp: stranded_def io_def)
    qed
  qed
  ultimately have "stranded (foldl task_step ?t1 ops)" by (rule run_invariant)
  then show ?thesis using tr unfolding stranded_def by blast
qed

theorem failed_write_strands_subscribers_witness:
  "\<exists>e t1. TransitionTo (WriteFailed False) (nanos 101)
      (task_step sample_task (OpSubscribe 0)) TaskStatusFailed = (Some (ErrTaskLog e), t1, False) \<and>
     \<not> ch_closed (t_chans (foldl task_step t1 [OpCancel WriteOk (nanos 102) ''stop'']) 0)"
proof -
  let ?t = "task_step sample_task (OpSubscribe 0)"
  have "\<not> isTerminalLocked ?t" "isValidTransition (t_Status ?t) TaskStatusFailed"
    "terminal_status TaskStatusFailed" "t_logger ?t = Some (NewJSONLLogger [] False)"
    "0 \<in> set (t_subscribers ?t)" "\<not> ch_closed (t_chans ?t 0)" "0 < t_nextchan ?t"
    "OpUnsubscribe 0 \<notin> set [OpCancel WriteOk (nanos 102) ''stop'']"
    by (simp_all add: sample_task_def NewManagedTask_def SubscribeTask_def ReadEvents_def
        file_lines_def NewJSONLLogger_def isTerminalLocked_def isValidTransition.simps Let_def)
  from failed_write_strands_subscribers [OF this, of False "nanos 101"] show ?thesis by blast
qed

definition after_epoch :: "task_op \<Rightarrow> bool" where
  "after_epoch op \<longleftrightarrow>
     (case op of
        OpTransition _ now _ \<Rightarrow> nanos 1 \<le> now
      | OpSetStatus _ now _ \<Rightarrow> nanos 1 \<le> now
      | OpEmit _ now _ \<Rightarrow> nanos 1 \<le> now
      | OpCancel _ now _ \<Rightarrow> nanos 1 \<le> now
      | OpFail _ _ now _ _ \<Rightarrow> nanos 1 \<le> now
      | _ \<Rightarrow> True)"

definition finish_inv :: "ManagedTask \<Rightarrow> bool" where
  "finish_inv t \<longleftrightarrow>
     (if isTerminalLocked t then t_canceled t \<and> t_FinishedAt t \<noteq> 0
      else \<not> t_canceled t \<and> t_FinishedAt t = 0)"

lemma finish_inv_outcome: "outcome u = outcome t \<Longrightarrow> finish_inv t \<Longrightarrow> finish_inv u"
  by (simp add: finish_inv_def outcome_def isTerminalLocked_def)

lemma finish_inv_frame:
  "t_Status u = t_Status t \<Longrightarrow> t_canceled u = t_canceled t \<Longrightarrow> t_FinishedAt u = t_FinishedAt t \<Longrightarrow>
   finish_inv t \<Longrightarrow> finish_inv u"
  by (simp add: finish_inv_def isTerminalLocked_def)

lemma finish_inv_finish:
  "nanos 1 \<le> now \<Longrightarrow> t_FinishedAt t = 0 \<Longrightarrow> terminal_status (t_Status t) \<Longrightarrow>
   finish_inv ((stamp_finished now t)\<lparr>t_canceled := True\<rparr>)"
  using unix_pos [of now] by (simp add: finish_inv_def stamp_finished_def isTerminalLocked_iff)

lemma finish_inv_enter:
  "nanos 1 \<le> now \<Longrightarrow> t_FinishedAt t = 0 \<Longrightarrow> \<not> t_canceled t \<Longrightarrow> finish_inv (enter_status now st t)"
  using unix_pos [of now]
  by (simp add: finish_inv_def enter_status_def stamp_terminal_def stamp_started_def
      stamp_finished_def isTerminalLocked_def)

lemma finish_inv_publish: "finish_inv t \<Longrightarrow> finish_inv (snd (publish w evt t))"
  by (rule finish_inv_outcome [OF outcome_publish])

lemma finished_at_surfaces: "t_FinishedAt (fold addEditSurfaceLocked ss t) = t_FinishedAt t"
  using outcome_fold_surfaces [of ss t] by (simp add: outcome_def)

lemma finish_inv_apply_body:
  assumes "apply_body now body t = Some (t', n)" "nanos 1 \<le> now" "finish_inv t" "\<not> isTerminalLocked t"
  shows "finish_inv t'"
proof -
  have f: "t_FinishedAt t = 0" "\<not> t_canceled t" using assms(3,4) by (simp_all add: finish_inv_def)
  have keep: "finish_inv u" if "outcome u = outcome t" for u
    using that assms(3) by (rule finish_inv_outcome)
  show ?thesis
  proof (cases "(now, body, t)" rule: apply_body.cases)
    case (1 now' sp t0)
    then show ?thesis using assms f by (auto intro!: finish_inv_enter split: if_splits)
  next
    case (5 now' cp t0)
    then show ?thesis using assms(1,2) f
      by (cases cp) (auto simp: Let_def finished_at_surfaces intro!: finish_inv_finish)
  next
    case (6 now' ep t0)
    then show ?thesis using assms(1,2) f
      by (cases ep) (auto simp: Let_def intro!: finish_inv_finish)
  qed (use assms(1) keep in auto)
qed

lemma finish_inv_TransitionTo:
  "nanos 1 \<le> now \<Longrightarrow> finish_inv t \<Longrightarrow> finish_inv (fst (snd (TransitionTo w now t st)))"
  by (auto simp: TransitionTo_def Let_def prod.case_eq_if option.case_eq_if bump_seq_def
      intro!: finish_inv_publish finish_inv_frame [OF _ _ _ finish_inv_enter])
    (auto simp: finish_inv_def)

lemma finish_inv_EmitEvent:
  assumes "nanos 1 \<le> now" "finish_inv t"
  shows "finish_inv (fst (snd (EmitEvent w now t body)))"
proof (cases "isTerminalLocked t")
  case False
  let ?t1 = "(bump_seq t)\<lparr>t_LastActivityAt := unix now\<rparr>"
  have t1: "finish_inv ?t1" "\<not> isTerminalLocked ?t1"
    using assms(2) False by (auto simp: bump_seq_def finish_inv_def isTerminalLocked_def)
  then show ?thesis
    using False finish_inv_apply_body [of now body ?t1, OF _ assms(1)]
    by (auto simp: EmitEvent_def Let_def prod.case_eq_if split: option.splits
        intro!: finish_inv_publish)
qed (use assms in \<open>simp add: EmitEvent_def\<close>)

lemma finish_inv_cancel:
  assumes "nanos 1 \<le> now" "finish_inv t"
  shows "finish_inv (fst (snd (cancel_task w now t reason)))"
proof (cases "isTerminalLocked t")
  case False
  then have "t_FinishedAt t = 0" using assms(2) by (simp add: finish_inv_def)
  then have "finish_inv (bump_seq (stamp_finished now (t\<lparr>t_canceled := True, t_Status := TaskStatusCanceled\<rparr>)))"
    using assms(1) unix_pos [of now]
    by (simp add: bump_seq_def finish_inv_def stamp_finished_def isTerminalLocked_def)
  then show ?thesis
    using False by (auto simp: cancel_task_def Let_def elim!: finish_inv_outcome [rotated])
qed (use assms in \<open>simp add: cancel_task_def\<close>)

lemma finish_inv_fail:
  assumes "nanos 1 \<le> now" "finish_inv t"
  shows "finish_inv (fst (snd (fail_task w w' now t code msg)))"
proof (cases "isTerminalLocked t")
  case False
  have "finish_inv (t\<lparr>t_Error := p\<rparr>)" for p
    using assms(2) by (rule finish_inv_frame [rotated 3]) simp_all
  with False assms(1) show ?thesis
    by (cases rule: fail_task_cases [where w = w and w' = w' and now = now and code = code and msg = msg])
      (simp_all add: finish_inv_EmitEvent finish_inv_TransitionTo)
qed (use assms in \<open>simp add: fail_task_def\<close>)

lemma finish_inv_step: "after_epoch op \<Longrightarrow> finish_inv t \<Longrightarrow> finish_inv (task_step t op)"
  by (cases op)
    (simp_all add: after_epoch_def finish_inv_TransitionTo finish_inv_EmitEvent finish_inv_cancel
      finish_inv_fail SetStatus_def finish_inv_outcome [OF outcome_passive(1)]
      finish_inv_outcome [OF outcome_passive(2)] finish_inv_outcome [OF outcome_passive(3)]
      finish_inv_outcome [OF outcome_passive(4)] finish_inv_outcome [OF outcome_passive(5)]
      finish_inv_outcome [OF outcome_passive(6)] finish_inv_outcome [OF outcome_passive(7)]
      finish_inv_outcome [OF outcome_passive(8)] finish_inv_outcome [OF outcome_passive(9)]
      finish_inv_outcome [OF outcome_passive(10)] finish_inv_outcome [OF outcome_passive(11)])

text \<open>Finishing is marked: with a clock after the epoch, in every reachable state a finished task has
  a finish time and a canceled context (its worker is told to stop), and an unfinished task has
  neither.\<close>

theorem finish_marked:
  assumes "list_all after_epoch ops"
  shows "finish_inv (foldl task_step (fresh_task now tid req) ops)"
proof (rule run_invariant)
  show "finish_inv (fresh_task now tid req)"
    by (simp add: finish_inv_def fresh_task_def NewManagedTask_def isTerminalLocked_def)
qed (use assms finish_inv_step in \<open>auto simp: list_all_iff\<close>)

theorem finish_marked_witness:
  "t_canceled (foldl task_step (fresh_task (nanos 100) ''t1'' sample_request)
     [OpTransition WriteOk (nanos 101) TaskStatusRunning,
      OpFail (WriteFailed True) WriteOk (nanos 102) ''E'' ''boom''])"
proof -
  let ?ops = "[OpTransition WriteOk (nanos 101) TaskStatusRunning,
      OpFail (WriteFailed True) WriteOk (nanos 102) ''E'' ''boom'']"
  let ?t = "foldl task_step (fresh_task (nanos 100) ''t1'' sample_request) ?ops"
  have "list_all after_epoch ?ops" by (simp add: after_epoch_def nanos_def)
  then have "finish_inv ?t" by (rule finish_marked)
  moreover have "isTerminalLocked ?t" by code_simp
  ultimately show ?thesis by (simp add: finish_inv_def)
qed

end
