(* ===== verification/Task_Store.thy ===== *)
theory Task_Store
  imports Task_Log "HOL-Library.Product_Lexorder" "HOL-Library.List_Lexorder" "HOL-Library.Char_ord"
begin

text \<open>
  The store of task records: \<open>pkg/server/store/store.go\<close> (the record, the filter and the
  \<open>TaskStore\<close> interface) and \<open>pkg/server/store/memory.go\<close> (\<open>MemoryStore\<close>). The interface is the
  locale \<open>task_store\<close>; \<open>MemoryStore\<close> is its interpretation. The flag \<open>done\<close> of an operation says
  that its context is already canceled or expired.
\<close>

record TaskRecord =
  tr_TaskID :: string
  tr_Branch :: string
  tr_Repository :: string
  tr_Domain :: string
  tr_BlastRadius :: string
  tr_Phase :: string
  tr_CurrentAction :: string
  tr_Status :: TaskStatus
  tr_WorkerID :: string
  tr_Tags :: "string list"
  tr_EditSurfaces :: "string list"
  tr_CreatedAt :: int
  tr_StartedAt :: int
  tr_FinishedAt :: int
  tr_ErrorMessage :: string
  tr_ResultSummary :: string
  tr_ExecutedLocally :: bool

record TaskFilter =
  tf_Status :: TaskStatus
  tf_Domain :: string
  tf_Branch :: string
  tf_Repository :: string
  tf_WorkerID :: string
  tf_Limit :: int
  tf_Offset :: int

record MemoryStore =
  ms_tasks :: "TaskRecord gomap"
  ms_closed :: bool

datatype store_error =
  ErrContextDone | ErrTaskIDEmpty | ErrStoreClosed | ErrRecordNotFound

abbreviation any_status :: TaskStatus where
  "any_status \<equiv> TaskStatusOther []"

definition all_tasks :: TaskFilter where
  "all_tasks = \<lparr>tf_Status = any_status, tf_Domain = [], tf_Branch = [], tf_Repository = [],
     tf_WorkerID = [], tf_Limit = 0, tf_Offset = 0\<rparr>"

definition Matches :: "TaskRecord \<Rightarrow> TaskFilter \<Rightarrow> bool" where
  "Matches t f =
     (if tf_Status f \<noteq> any_status \<and> tr_Status t \<noteq> tf_Status f then False
      else if tf_Domain f \<noteq> [] \<and> tr_Domain t \<noteq> tf_Domain f then False
      else if tf_Branch f \<noteq> [] \<and> tr_Branch t \<noteq> tf_Branch f then False
      else if tf_Repository f \<noteq> [] \<and> tr_Repository t \<noteq> tf_Repository f then False
      else if tf_WorkerID f \<noteq> [] \<and> tr_WorkerID t \<noteq> tf_WorkerID f then False
      else True)"

section \<open>MemoryStore\<close>

definition NewMemoryStore :: MemoryStore where
  "NewMemoryStore = \<lparr>ms_tasks = [], ms_closed = False\<rparr>"

definition SaveTask :: "bool \<Rightarrow> MemoryStore \<Rightarrow> TaskRecord \<Rightarrow> store_error option \<times> MemoryStore" where
  "SaveTask done s task =
     (if done then (Some ErrContextDone, s)
      else if tr_TaskID task = [] then (Some ErrTaskIDEmpty, s)
      else if ms_closed s then (Some ErrStoreClosed, s)
      else (None, s\<lparr>ms_tasks := map_put (ms_tasks s) (tr_TaskID task) task\<rparr>))"

definition GetRecord :: "bool \<Rightarrow> MemoryStore \<Rightarrow> string \<Rightarrow> store_error + TaskRecord" where
  "GetRecord done s taskID =
     (if done then Inl ErrContextDone
      else if taskID = [] then Inl ErrRecordNotFound
      else if ms_closed s then Inl ErrStoreClosed
      else case map_get (ms_tasks s) taskID of
             None \<Rightarrow> Inl ErrRecordNotFound
           | Some task \<Rightarrow> Inr task)"

definition set_status :: "TaskStatus \<Rightarrow> int \<Rightarrow> string \<Rightarrow> string \<Rightarrow> TaskRecord \<Rightarrow> TaskRecord" where
  "set_status status completedAt errMsg resultSummary task =
     (let t1 = task\<lparr>tr_Status := status\<rparr>;
          t2 = (if completedAt \<noteq> 0 then t1\<lparr>tr_FinishedAt := completedAt\<rparr> else t1)
      in t2\<lparr>tr_ErrorMessage := errMsg, tr_ResultSummary := resultSummary\<rparr>)"

definition UpdateStatus ::
  "bool \<Rightarrow> MemoryStore \<Rightarrow> string \<Rightarrow> TaskStatus \<Rightarrow> int \<Rightarrow> string \<Rightarrow> string \<Rightarrow>
   store_error option \<times> MemoryStore" where
  "UpdateStatus done s taskID status completedAt errMsg resultSummary =
     (if done then (Some ErrContextDone, s)
      else if taskID = [] then (Some ErrRecordNotFound, s)
      else if ms_closed s then (Some ErrStoreClosed, s)
      else case map_get (ms_tasks s) taskID of
             None \<Rightarrow> (Some ErrRecordNotFound, s)
           | Some task \<Rightarrow>
               (None, s\<lparr>ms_tasks := map_put (ms_tasks s) taskID
                          (set_status status completedAt errMsg resultSummary task)\<rparr>))"

text \<open>Newest first, then by descending id.\<close>

definition newest_first :: "TaskRecord list \<Rightarrow> TaskRecord list" where
  "newest_first rs = rev (sort_key (\<lambda>r. (tr_CreatedAt r, tr_TaskID r)) rs)"

definition paginate :: "int \<Rightarrow> int \<Rightarrow> 'a list \<Rightarrow> 'a list" where
  "paginate limit offset xs =
     (let off = (if offset < 0 then 0 else nat offset) in
      if off \<ge> length xs then []
      else let rest = drop off xs
           in if limit > 0 \<and> int (length rest) > limit then take (nat limit) rest else rest)"

definition ListRecords :: "bool \<Rightarrow> MemoryStore \<Rightarrow> TaskFilter \<Rightarrow> store_error + TaskRecord list" where
  "ListRecords done s f =
     (if done then Inl ErrContextDone
      else if ms_closed s then Inl ErrStoreClosed
      else Inr (paginate (tf_Limit f) (tf_Offset f)
             (newest_first (filter (\<lambda>t. Matches t f) (map snd (ms_tasks s))))))"

definition CloseStore :: "MemoryStore \<Rightarrow> MemoryStore" where
  "CloseStore s = s\<lparr>ms_closed := True, ms_tasks := []\<rparr>"

section \<open>The interface\<close>

text \<open>What the task manager relies on: an open store returns a saved record as it was saved, if the store can
  represent it, changing one record leaves the others alone, and listing yields the stored records.\<close>

locale task_store =
  fixes save :: "'s \<Rightarrow> TaskRecord \<Rightarrow> 's"
    and update :: "'s \<Rightarrow> string \<Rightarrow> TaskStatus \<Rightarrow> int \<Rightarrow> string \<Rightarrow> string \<Rightarrow> 's"
    and lookup :: "'s \<Rightarrow> string \<Rightarrow> TaskRecord option"
    and records :: "'s \<Rightarrow> TaskRecord list"
    and ready :: "'s \<Rightarrow> bool"
    and storable :: "TaskRecord \<Rightarrow> bool"
  assumes lookup_save: "ready s \<Longrightarrow> storable r \<Longrightarrow> tr_TaskID r \<noteq> [] \<Longrightarrow>
      lookup (save s r) i = (if i = tr_TaskID r then Some r else lookup s i)"
    and lookup_update: "ready s \<Longrightarrow> j \<noteq> [] \<Longrightarrow>
      lookup (update s j st fin err res) i =
        (if i = j then map_option (set_status st fin err res) (lookup s i) else lookup s i)"
    and ready_save: "ready s \<Longrightarrow> storable r \<Longrightarrow> ready (save s r)"
    and ready_update: "ready s \<Longrightarrow> ready (update s j st fin err res)"
    and records_lookup: "ready s \<Longrightarrow> r \<in> set (records s) \<longleftrightarrow> lookup s (tr_TaskID r) = Some r"
begin

definition sync :: "'s \<Rightarrow> TaskRecord \<Rightarrow> 's" where
  "sync s r = save (update s (tr_TaskID r) (tr_Status r) (tr_FinishedAt r) (tr_ErrorMessage r)
                      (tr_ResultSummary r)) r"

lemma ready_sync: "ready s \<Longrightarrow> storable r \<Longrightarrow> ready (sync s r)"
  by (simp add: sync_def ready_save ready_update)

lemma lookup_sync:
  "ready s \<Longrightarrow> storable r \<Longrightarrow> tr_TaskID r \<noteq> [] \<Longrightarrow>
   lookup (sync s r) i = (if i = tr_TaskID r then Some r else lookup s i)"
  by (simp add: sync_def lookup_save lookup_update ready_update)

lemma records_sync:
  "ready s \<Longrightarrow> storable r \<Longrightarrow> tr_TaskID r \<noteq> [] \<Longrightarrow> r \<in> set (records (sync s r))"
  by (simp add: records_lookup ready_sync lookup_sync)

end

definition store_wf :: "MemoryStore \<Rightarrow> bool" where
  "store_wf s \<longleftrightarrow> wf_map (ms_tasks s) \<and> list_all (\<lambda>(k, r). k \<noteq> [] \<and> tr_TaskID r = k) (ms_tasks s)"

definition store_ready :: "MemoryStore \<Rightarrow> bool" where
  "store_ready s \<longleftrightarrow> store_wf s \<and> \<not> ms_closed s"

definition find_record :: "MemoryStore \<Rightarrow> string \<Rightarrow> TaskRecord option" where
  "find_record s i = (case GetRecord False s i of Inl _ \<Rightarrow> None | Inr r \<Rightarrow> Some r)"

definition list_all_records :: "MemoryStore \<Rightarrow> TaskRecord list" where
  "list_all_records s = (case ListRecords False s all_tasks of Inl _ \<Rightarrow> [] | Inr rs \<Rightarrow> rs)"

lemma store_wf_iff:
  "store_wf s \<longleftrightarrow> wf_map (ms_tasks s) \<and>
     (\<forall>k r. map_get (ms_tasks s) k = Some r \<longrightarrow> k \<noteq> [] \<and> tr_TaskID r = k)"
  unfolding store_wf_def by (rule conj_cong [OF refl]) (rule wf_map_all)

lemma find_record_ready:
  assumes "store_ready s"
  shows "find_record s i = map_get (ms_tasks s) i"
proof (cases "i = []")
  case True
  have "map_get (ms_tasks s) [] \<noteq> Some r" for r
    using assms unfolding store_ready_def store_wf_iff by blast
  then show ?thesis using True by (cases "map_get (ms_tasks s) []") (auto simp: find_record_def GetRecord_def)
qed (use assms in \<open>simp add: find_record_def GetRecord_def store_ready_def split: option.splits\<close>)

lemma Matches_all [simp]: "Matches t all_tasks"
  by (simp add: Matches_def all_tasks_def)

lemma paginate_all [simp]: "paginate 0 0 xs = xs"
  by (simp add: paginate_def Let_def)

lemma set_newest_first [simp]: "set (newest_first rs) = set rs"
  by (simp add: newest_first_def)

lemma list_all_records_ready:
  "store_ready s \<Longrightarrow> set (list_all_records s) = snd ` set (ms_tasks s)"
  by (simp add: list_all_records_def ListRecords_def store_ready_def) (simp add: all_tasks_def)

lemma record_stored_iff:
  "store_wf s \<Longrightarrow> r \<in> snd ` set (ms_tasks s) \<longleftrightarrow> map_get (ms_tasks s) (tr_TaskID r) = Some r"
  by (force simp: store_wf_def wf_map_get_iff list_all_iff)

lemma store_ready_save: "store_ready s \<Longrightarrow> store_ready (snd (SaveTask False s r))"
  by (auto simp: store_ready_def SaveTask_def store_wf_iff)

lemma store_ready_update: "store_ready s \<Longrightarrow> store_ready (snd (UpdateStatus False s j st fin err res))"
  by (auto simp: store_ready_def UpdateStatus_def store_wf_iff set_status_def Let_def
      split: option.splits)

interpretation mem: task_store
  "\<lambda>s r. snd (SaveTask False s r)"
  "\<lambda>s j st fin err res. snd (UpdateStatus False s j st fin err res)"
  find_record list_all_records store_ready "\<lambda>_. True"
proof (unfold_locales, goal_cases)
  case (1 s r i)
  then have "find_record (snd (SaveTask False s r)) i = map_get (ms_tasks (snd (SaveTask False s r))) i"
    by (intro find_record_ready store_ready_save)
  with 1 show ?case by (auto simp: find_record_ready SaveTask_def store_ready_def)
next
  case (2 s j st fin err res i)
  then have "find_record (snd (UpdateStatus False s j st fin err res)) i =
      map_get (ms_tasks (snd (UpdateStatus False s j st fin err res))) i"
    by (intro find_record_ready store_ready_update)
  with 2 show ?case by (auto simp: find_record_ready UpdateStatus_def store_ready_def split: option.splits)
next
  case (5 s r)
  then show ?case
    by (simp add: list_all_records_ready record_stored_iff find_record_ready store_ready_def)
qed (simp_all add: store_ready_save store_ready_update)

section \<open>Listing\<close>

lemma newest_first_sorted:
  "sorted_wrt (\<lambda>a b. (tr_CreatedAt b, tr_TaskID b) \<le> (tr_CreatedAt a, tr_TaskID a)) (newest_first rs)"
proof -
  have "sorted_wrt (\<lambda>a b. (tr_CreatedAt a, tr_TaskID a) \<le> (tr_CreatedAt b, tr_TaskID b))
      (sort_key (\<lambda>r. (tr_CreatedAt r, tr_TaskID r)) rs)"
    using sorted_sort_key [of "\<lambda>r. (tr_CreatedAt r, tr_TaskID r)" rs] by (simp only: sorted_map)
  then show ?thesis by (simp add: newest_first_def sorted_wrt_rev)
qed

lemma distinct_newest_first [simp]: "distinct (newest_first rs) \<longleftrightarrow> distinct rs"
  by (simp add: newest_first_def)

lemma store_distinct: "store_wf s \<Longrightarrow> distinct (map snd (ms_tasks s))"
proof -
  assume wf: "store_wf s"
  then have "distinct (map (\<lambda>x. tr_TaskID (snd x)) (ms_tasks s))"
    by (intro wf_map_distinct_values) (auto simp: store_wf_def list_all_iff)
  then have "distinct (map tr_TaskID (map snd (ms_tasks s)))" by (simp add: comp_def)
  then show ?thesis using distinct_map by blast
qed

text \<open>An unpaginated listing of an open store is every stored record that satisfies the filter,
  each once, newest first and by descending id among records of the same second.\<close>

theorem ListRecords_spec:
  assumes "store_ready s" and "tf_Limit f = 0" and "tf_Offset f = 0"
  shows "\<exists>rs. ListRecords False s f = Inr rs \<and> distinct rs \<and>
     set rs = {r. find_record s (tr_TaskID r) = Some r \<and> Matches r f} \<and>
     sorted_wrt (\<lambda>a b. (tr_CreatedAt b, tr_TaskID b) \<le> (tr_CreatedAt a, tr_TaskID a)) rs"
proof -
  let ?rs = "newest_first (filter (\<lambda>t. Matches t f) (map snd (ms_tasks s)))"
  have wf: "store_wf s" using assms(1) by (simp add: store_ready_def)
  have "ListRecords False s f = Inr ?rs"
    using assms by (simp add: ListRecords_def store_ready_def)
  moreover have "distinct ?rs" using store_distinct [OF wf] by simp
  moreover have "set ?rs = {r. find_record s (tr_TaskID r) = Some r \<and> Matches r f}"
    using assms(1) record_stored_iff [OF wf] by (auto simp: find_record_ready)
  ultimately show ?thesis using newest_first_sorted by blast
qed

definition sample_record :: "string \<Rightarrow> int \<Rightarrow> TaskRecord" where
  "sample_record i at =
     \<lparr>tr_TaskID = i, tr_Branch = ''main'', tr_Repository = ''r'', tr_Domain = [], tr_BlastRadius = [],
      tr_Phase = [], tr_CurrentAction = [], tr_Status = TaskStatusQueued, tr_WorkerID = [],
      tr_Tags = [], tr_EditSurfaces = [], tr_CreatedAt = at, tr_StartedAt = 0, tr_FinishedAt = 0,
      tr_ErrorMessage = [], tr_ResultSummary = [], tr_ExecutedLocally = False\<rparr>"

definition sample_store :: MemoryStore where
  "sample_store = snd (SaveTask False (snd (SaveTask False NewMemoryStore (sample_record ''a'' 1)))
                         (sample_record ''b'' 2))"

lemma sample_store_ready: "store_ready sample_store"
  unfolding sample_store_def
  by (intro store_ready_save) (simp add: store_ready_def store_wf_def NewMemoryStore_def)

theorem ListRecords_spec_witness:
  "\<exists>rs. ListRecords False sample_store all_tasks = Inr rs \<and> distinct rs \<and> sample_record ''b'' 2 \<in> set rs"
proof -
  have f: "find_record sample_store ''b'' = Some (sample_record ''b'' 2)"
    using sample_store_ready
    by (simp add: find_record_ready) (simp add: sample_store_def SaveTask_def NewMemoryStore_def sample_record_def)
  have "tf_Limit all_tasks = 0" "tf_Offset all_tasks = 0" by (simp_all add: all_tasks_def)
  from ListRecords_spec [OF sample_store_ready this] obtain rs where
    "ListRecords False sample_store all_tasks = Inr rs" "distinct rs"
    "set rs = {r. find_record sample_store (tr_TaskID r) = Some r \<and> Matches r all_tasks}" by blast
  then show ?thesis using f by (intro exI [of _ rs]) (auto simp: sample_record_def)
qed

lemma paginate_page: "0 < n \<Longrightarrow> paginate (int n) (int off) xs = take n (drop off xs)"
  by (auto simp: paginate_def Let_def)

lemma concat_pages:
  "concat (map (\<lambda>p. take n (drop (p * n) xs)) [0..<k]) = take (k * n) xs"
  by (induction k) (simp_all add: take_add [symmetric] add.commute)

text \<open>Paging loses and repeats nothing: the pages of size \<open>n\<close>, in order, make up the unpaginated
  listing, and enough of them make up all of it.\<close>

theorem ListRecords_pages:
  assumes "0 < n" and "ListRecords False s (f\<lparr>tf_Limit := 0, tf_Offset := 0\<rparr>) = Inr rs"
  shows "\<exists>page. (\<forall>p. ListRecords False s (f\<lparr>tf_Limit := int n, tf_Offset := int (p * n)\<rparr>) = Inr (page p)) \<and>
     concat (map page [0..<k]) = take (k * n) rs"
proof -
  let ?page = "\<lambda>p. take n (drop (p * n) rs)"
  from assms(2) have open_: "\<not> ms_closed s"
    and rs: "rs = newest_first (filter (\<lambda>t. Matches t (f\<lparr>tf_Limit := 0, tf_Offset := 0\<rparr>)) (map snd (ms_tasks s)))"
    by (auto simp: ListRecords_def split: if_splits)
  have m: "Matches t (f\<lparr>tf_Limit := l, tf_Offset := off\<rparr>) = Matches t f" for t l off
    by (simp add: Matches_def)
  have "ListRecords False s (f\<lparr>tf_Limit := int n, tf_Offset := int (p * n)\<rparr>) = Inr (?page p)" for p
    using open_ assms(1) by (simp add: ListRecords_def rs m paginate_page del: of_nat_mult)
  then show ?thesis using concat_pages [of n rs k] by (intro exI [of _ ?page]) blast
qed

theorem ListRecords_pages_witness:
  "\<exists>page. (\<forall>p. ListRecords False sample_store
            (all_tasks\<lparr>tf_Limit := int 1, tf_Offset := int (p * 1)\<rparr>) = Inr (page p)) \<and>
     concat (map page [0..<2]) = take (2 * 1) [sample_record ''b'' 2, sample_record ''a'' 1]"
proof (rule ListRecords_pages)
  show "0 < (1::nat)" by simp
  show "ListRecords False sample_store (all_tasks\<lparr>tf_Limit := 0, tf_Offset := 0\<rparr>) =
      Inr [sample_record ''b'' 2, sample_record ''a'' 1]"
    by code_simp
qed

end
