(* ===== verification/Task_Manager.thy ===== *)
theory Task_Manager
  imports Task_Stream Task_Store
begin

text \<open>
  The manager of all tasks of a coordinator: \<open>pkg/server/task/manager.go\<close> over the store of
  \<open>Task_Store\<close>.

  \<open>tm_files\<close> are the log files on disk; while a task is live its logger holds the current content. Randomness, the
  clock and the results of file operations are arguments. \<open>Close\<close> waits for the runners between
  its two phases; the operations they still perform are an argument.
\<close>

section \<open>State\<close>

type_synonym log_file = "log_line list \<times> bool"

record TaskManager =
  tm_taskTTL :: int
  tm_store :: "MemoryStore option"
  tm_tasks :: "ManagedTask gomap"
  tm_closed :: bool
  tm_files :: "string \<Rightarrow> log_file option"

definition OrphanedTaskCode :: string where
  "OrphanedTaskCode = ''COORDINATOR_RESTARTED''"

definition OrphanedTaskMessage :: string where
  "OrphanedTaskMessage = ''coordinator restarted''"

definition error_message :: "ManagedTask \<Rightarrow> string" where
  "error_message t = (case t_Error t of None \<Rightarrow> [] | Some e \<Rightarrow> ep_Message e)"

definition result_summary :: "ManagedTask \<Rightarrow> string" where
  "result_summary t = (case t_Completion t of None \<Rightarrow> [] | Some c \<Rightarrow> cp_Result c)"

definition executed_locally :: "ManagedTask \<Rightarrow> bool" where
  "executed_locally t = (case t_Completion t of None \<Rightarrow> False | Some c \<Rightarrow> cp_ExecutedLocally c)"

definition record_of :: "ManagedTask \<Rightarrow> TaskRecord" where
  "record_of t =
     \<lparr>tr_TaskID = t_TaskID t, tr_Branch = rq_GitBranch (t_Request t),
      tr_Repository = rq_GitRepo (t_Request t), tr_Domain = t_Domain t,
      tr_BlastRadius = t_BlastRadius t, tr_Phase = t_Phase t,
      tr_CurrentAction = t_CurrentAction t, tr_Status = t_Status t, tr_WorkerID = t_NodeID t,
      tr_Tags = rq_Tags (t_Request t), tr_EditSurfaces = t_EditSurfaces t,
      tr_CreatedAt = t_CreatedAt t, tr_StartedAt = t_StartedAt t, tr_FinishedAt = t_FinishedAt t,
      tr_ErrorMessage = error_message t, tr_ResultSummary = result_summary t,
      tr_ExecutedLocally = executed_locally t\<rparr>"

definition syncTaskToStore :: "TaskManager \<Rightarrow> ManagedTask \<Rightarrow> TaskManager" where
  "syncTaskToStore m t =
     (case tm_store m of
        None \<Rightarrow> m
      | Some st \<Rightarrow>
          if tm_closed m then m
          else let r = record_of t;
                   st1 = snd (UpdateStatus False st (t_TaskID t) (t_Status t) (t_FinishedAt t)
                                (tr_ErrorMessage r) (tr_ResultSummary r));
                   st2 = snd (SaveTask False st1 r)
               in m\<lparr>tm_store := Some st2\<rparr>)"

text \<open>A task operation's effect on the manager: the task is replaced, and the update hook runs if the
  operation asks for it.\<close>

definition put_task :: "ManagedTask \<Rightarrow> TaskManager \<Rightarrow> TaskManager" where
  "put_task t m = m\<lparr>tm_tasks := map_put (tm_tasks m) (t_TaskID t) t\<rparr>"

definition commit :: "bool \<Rightarrow> ManagedTask \<Rightarrow> TaskManager \<Rightarrow> TaskManager" where
  "commit notify t m = (if notify then syncTaskToStore (put_task t m) t else put_task t m)"

section \<open>Creating tasks\<close>

definition new_task_id :: "int \<Rightarrow> string \<Rightarrow> string" where
  "new_task_id now hexbytes = ''task-'' @ decimal now @ ''-'' @ hexbytes"

definition queued_record :: "ManagedTask \<Rightarrow> TaskRequest \<Rightarrow> TaskRecord" where
  "queued_record t req =
     \<lparr>tr_TaskID = t_TaskID t, tr_Branch = rq_GitBranch req, tr_Repository = rq_GitRepo req,
      tr_Domain = rq_Domain req,
      tr_BlastRadius = (if t_BlastRadius t = [] then BlastRadiusIsolated else t_BlastRadius t),
      tr_Phase = t_Phase t, tr_CurrentAction = ''Task queued'', tr_Status = TaskStatusQueued,
      tr_WorkerID = t_NodeID t, tr_Tags = rq_Tags req, tr_EditSurfaces = rq_EditSurfaces req,
      tr_CreatedAt = t_CreatedAt t, tr_StartedAt = 0, tr_FinishedAt = 0, tr_ErrorMessage = [],
      tr_ResultSummary = [], tr_ExecutedLocally = False\<rparr>"

definition open_log :: "TaskManager \<Rightarrow> string \<Rightarrow> JSONLLogger" where
  "open_log m taskID =
     (case tm_files m taskID of
        None \<Rightarrow> NewJSONLLogger [] False
      | Some (ls, torn) \<Rightarrow> NewJSONLLogger ls torn)"

text \<open>A failed creation leaves its log file behind.\<close>

definition abandon_log :: "string \<Rightarrow> JSONLLogger option \<Rightarrow> TaskManager \<Rightarrow> TaskManager" where
  "abandon_log taskID l m =
     (case l of
        None \<Rightarrow> m
      | Some lg \<Rightarrow> m\<lparr>tm_files := (tm_files m)(taskID := Some (lg_lines lg, lg_torn lg))\<rparr>)"

datatype create_error =
  ErrCreateClosed | ErrRandom | ErrOpenLog | ErrSaveRecord store_error | ErrEmitQueued task_error

definition CreateTask ::
  "string option \<Rightarrow> bool \<Rightarrow> write_outcome \<Rightarrow> int \<Rightarrow> TaskManager \<Rightarrow> TaskRequest \<Rightarrow>
   (create_error + ManagedTask) \<times> TaskManager" where
  "CreateTask hexbytes log_ok w now m req =
     (if tm_closed m then (Inl ErrCreateClosed, m)
      else case hexbytes of
        None \<Rightarrow> (Inl ErrRandom, m)
      | Some hx \<Rightarrow>
          if \<not> log_ok then (Inl ErrOpenLog, m)
          else
            let taskID = new_task_id now hx;
                logger = open_log m taskID;
                req' = req\<lparr>rq_TaskID := taskID\<rparr>;
                task = NewManagedTask now taskID req' (Some logger);
                (saveErr, m1) =
                  (case tm_store m of
                     None \<Rightarrow> (None, m)
                   | Some st \<Rightarrow>
                       let (e, st') = SaveTask False st (queued_record task req')
                       in (e, m\<lparr>tm_store := Some st'\<rparr>))
            in case saveErr of
                 Some e \<Rightarrow> (Inl (ErrSaveRecord e), abandon_log taskID (t_logger task) m1)
               | None \<Rightarrow>
                   (case EmitEvent w now task
                           (EventStatus (Some \<lparr>sp_Status = TaskStatusQueued, sp_Message = []\<rparr>)) of
                      (Inl e, task', _) \<Rightarrow>
                        (Inl (ErrEmitQueued e), abandon_log taskID (t_logger task') m1)
                    | (Inr _, task', notify) \<Rightarrow> (Inr task', commit notify task' m1)))"

section \<open>Queries on the manager\<close>

definition GetTask :: "TaskManager \<Rightarrow> string \<Rightarrow> ManagedTask option" where
  "GetTask m taskID = map_get (tm_tasks m) taskID"

definition ListTasks :: "TaskManager \<Rightarrow> TaskState list" where
  "ListTasks m =
     sort_key (\<lambda>s. (ts_CreatedAt s, ts_TaskID s)) (map (\<lambda>(_, t). TaskSnapshot t) (tm_tasks m))"

definition by_start :: "ActiveTerritory list \<Rightarrow> ActiveTerritory list" where
  "by_start = sort_key (\<lambda>a. (at_StartedAt a, at_TaskID a))"

definition active_status :: "TaskStatus \<Rightarrow> bool" where
  "active_status s \<longleftrightarrow> s = TaskStatusRunning \<or> s = TaskStatusPreparing \<or> s = TaskStatusQueued"

definition running_status :: "TaskStatus \<Rightarrow> bool" where
  "running_status s \<longleftrightarrow> s = TaskStatusRunning \<or> s = TaskStatusPreparing"

definition territories_where :: "(TaskStatus \<Rightarrow> bool) \<Rightarrow> TaskManager \<Rightarrow> ActiveTerritory list" where
  "territories_where P m =
     by_start (map TerritoryOf (filter (\<lambda>t. P (t_Status t)) (map snd (tm_tasks m))))"

definition ActiveTerritories :: "TaskManager \<Rightarrow> ActiveTerritory list" where
  "ActiveTerritories m = territories_where active_status m"

definition RunningTerritories :: "TaskManager \<Rightarrow> ActiveTerritory list" where
  "RunningTerritories m = territories_where running_status m"

section \<open>Ending tasks\<close>

definition CancelTask ::
  "write_outcome \<Rightarrow> int \<Rightarrow> TaskManager \<Rightarrow> string \<Rightarrow> string \<Rightarrow> task_error option \<times> TaskManager" where
  "CancelTask w now m taskID reason =
     (case map_get (tm_tasks m) taskID of
        None \<Rightarrow> (Some ErrTaskNotFound, m)
      | Some t \<Rightarrow> let (e, t', notify) = cancel_task w now t reason in (e, commit notify t' m))"

definition FailTask ::
  "write_outcome \<times> write_outcome \<Rightarrow> int \<Rightarrow> TaskManager \<Rightarrow> string \<Rightarrow> string \<Rightarrow> string \<Rightarrow>
   task_error option \<times> TaskManager" where
  "FailTask ws now m taskID code message =
     (case map_get (tm_tasks m) taskID of
        None \<Rightarrow> (Some ErrTaskNotFound, m)
      | Some t \<Rightarrow>
          let (e, t', notify) = fail_task (fst ws) (snd ws) now t code message
          in (e, commit notify t' m))"

definition SubmitReply ::
  "write_outcome \<Rightarrow> int \<Rightarrow> TaskManager \<Rightarrow> string \<Rightarrow> string \<Rightarrow> string \<Rightarrow> task_error option \<times> TaskManager" where
  "SubmitReply w now m taskID queryID answer =
     (case GetTask m taskID of
        None \<Rightarrow> (Some ErrTaskNotFound, m)
      | Some t \<Rightarrow>
          (case ResolveQuery t queryID answer of
             (Some e, t1) \<Rightarrow> (Some e, put_task t1 m)
           | (None, t1) \<Rightarrow>
               let (_, t2, notify) = EmitEvent w now t1 (EventToolResult
                     (Some \<lparr>trp_CallID = queryID, trp_Output = answer, trp_IsError = False\<rparr>))
               in (None, commit notify t2 m)))"

definition Subscribe ::
  "TaskManager \<Rightarrow> string \<Rightarrow> int \<Rightarrow> (task_error + nat) \<times> TaskManager" where
  "Subscribe m taskID sinceID =
     (case GetTask m taskID of
        None \<Rightarrow> (Inl ErrTaskNotFound, m)
      | Some t \<Rightarrow> let (r, t') = SubscribeTask t sinceID in (r, put_task t' m))"

definition expired :: "int \<Rightarrow> TaskManager \<Rightarrow> ManagedTask \<Rightarrow> bool" where
  "expired now m t \<longleftrightarrow>
     t_FinishedAt t > 0 \<and>
     (case t_finishedTime t of
        Some fTime \<Rightarrow> now - fTime
      | None \<Rightarrow> now - nanos (t_FinishedAt t)) > tm_taskTTL m"

definition CleanupExpiredTasks :: "int \<Rightarrow> TaskManager \<Rightarrow> TaskManager" where
  "CleanupExpiredTasks now m =
     (if tm_taskTTL m \<le> 0 \<or> tm_closed m then m
      else let gone = map fst (filter (\<lambda>(_, t). expired now m t) (tm_tasks m))
           in m\<lparr>tm_tasks := filter (\<lambda>(_, t). \<not> expired now m t) (tm_tasks m),
                tm_files := (\<lambda>k. if k \<in> set gone then None else tm_files m k)\<rparr>)"

definition tasks_of_node :: "TaskManager \<Rightarrow> string \<Rightarrow> string list" where
  "tasks_of_node m nodeID =
     map (\<lambda>(_, t). t_TaskID t)
       (filter (\<lambda>(_, t). t_NodeID t = nodeID \<and> t_Status t = TaskStatusRunning) (tm_tasks m))"

fun fail_each ::
  "(string \<Rightarrow> write_outcome \<times> write_outcome) \<Rightarrow> int \<Rightarrow> string \<Rightarrow> string \<Rightarrow> TaskManager \<Rightarrow> string list \<Rightarrow>
   nat \<times> TaskManager" where
  "fail_each ws now code message m [] = (0, m)"
| "fail_each ws now code message m (k # ks) =
     (case FailTask (ws k) now m k code message of
        (e, m1) \<Rightarrow>
          (case fail_each ws now code message m1 ks of
             (n, m2) \<Rightarrow> (if e = None then Suc n else n, m2)))"

definition FailTasksOfNode ::
  "(string \<Rightarrow> write_outcome \<times> write_outcome) \<Rightarrow> int \<Rightarrow> TaskManager \<Rightarrow> string \<Rightarrow> string \<Rightarrow> string \<Rightarrow>
   nat \<times> TaskManager" where
  "FailTasksOfNode ws now m nodeID code message =
     (if nodeID = [] then (0, m)
      else fail_each ws now code message m (tasks_of_node m nodeID))"

section \<open>Operations of the runners\<close>

fun step_notifies :: "ManagedTask \<Rightarrow> task_op \<Rightarrow> bool" where
  "step_notifies t (OpTransition w now st) = snd (snd (TransitionTo w now t st))"
| "step_notifies t (OpSetStatus w now st) = snd (snd (SetStatus w now t st))"
| "step_notifies t (OpEmit w now body) = snd (snd (EmitEvent w now t body))"
| "step_notifies t (OpCancel w now reason) = snd (snd (cancel_task w now t reason))"
| "step_notifies t (OpFail w w' now code msg) = snd (snd (fail_task w w' now t code msg))"
| "step_notifies t (OpActivity now a) = True"
| "step_notifies t (OpScope now d b p a) = True"
| "step_notifies t (OpAttribute n) = snd (AttributeNode n t)"
| "step_notifies t _ = False"

definition run_op :: "TaskManager \<Rightarrow> string \<Rightarrow> task_op \<Rightarrow> TaskManager" where
  "run_op m taskID op =
     (case map_get (tm_tasks m) taskID of
        None \<Rightarrow> m
      | Some t \<Rightarrow> commit (step_notifies t op) (task_step t op) m)"

section \<open>Shutdown and restart\<close>

definition close_begin :: "TaskManager \<Rightarrow> TaskManager" where
  "close_begin m =
     m\<lparr>tm_closed := True, tm_tasks := map (\<lambda>(k, t). (k, t\<lparr>t_canceled := True\<rparr>)) (tm_tasks m)\<rparr>"

definition close_end :: "TaskManager \<Rightarrow> TaskManager" where
  "close_end m =
     m\<lparr>tm_tasks := map (\<lambda>(k, t). (k, close_subscribers
                        (t\<lparr>t_logger := map_option CloseLogger (t_logger t)\<rparr>))) (tm_tasks m),
       tm_store := map_option CloseStore (tm_store m)\<rparr>"

definition CloseManager :: "(string \<times> task_op) list \<Rightarrow> TaskManager \<Rightarrow> TaskManager" where
  "CloseManager runner_ops m =
     (if tm_closed m then m
      else close_end (foldl (\<lambda>m (k, op). run_op m k op) (close_begin m) runner_ops))"

definition no_request :: TaskRequest where
  "no_request =
     \<lparr>rq_TaskID = [], rq_IdempotencyKey = [], rq_SessionID = [], rq_Agent = [], rq_Task = [],
      rq_Prompt = [], rq_Context = [], rq_WorkspaceRoot = [], rq_GitRepo = [], rq_GitBranch = [],
      rq_Domain = [], rq_BlastRadius = [], rq_EditSurfaces = [], rq_Patch = [],
      rq_TimeoutSeconds = 0, rq_MaxRetries = 0, rq_RetryDelay = 0, rq_Priority = 0, rq_Tags = [],
      rq_ResumeFrom = None, rq_EnableCheckpoint = False, rq_CheckpointInterval = 0\<rparr>"

definition no_completion :: CompletionPayload where
  "no_completion = \<lparr>cp_Result = [], cp_Text = [], cp_CommitHash = [], cp_Branch = [],
     cp_FilesChanged = [], cp_DurationMs = 0, cp_ExecutedLocally = False\<rparr>"

definition last_event_id :: "JSONLLogger option \<Rightarrow> int" where
  "last_event_id l =
     (case l of
        None \<Rightarrow> 0
      | Some lg \<Rightarrow>
          (case ReadEvents lg 0 of
             Inl _ \<Rightarrow> 0
           | Inr events \<Rightarrow> if events = [] then 0 else ev_ID (last events)))"

definition rehydrateTask :: "log_file option \<Rightarrow> TaskRecord \<Rightarrow> ManagedTask" where
  "rehydrateTask file rec =
     (let blastRadius = (if tr_BlastRadius rec = [] then BlastRadiusIsolated else tr_BlastRadius rec);
          req = no_request\<lparr>rq_GitBranch := tr_Branch rec, rq_GitRepo := tr_Repository rec,
                  rq_Domain := tr_Domain rec, rq_BlastRadius := blastRadius,
                  rq_EditSurfaces := tr_EditSurfaces rec, rq_Tags := tr_Tags rec\<rparr>;
          logger = map_option (\<lambda>(ls, torn). NewJSONLLogger ls torn) file;
          lastActivity =
            (if tr_FinishedAt rec \<noteq> 0 then tr_FinishedAt rec
             else if tr_StartedAt rec \<noteq> 0 then tr_StartedAt rec else tr_CreatedAt rec)
      in \<lparr>t_TaskID = tr_TaskID rec, t_Request = req, t_Status = tr_Status rec,
          t_CreatedAt = tr_CreatedAt rec, t_StartedAt = tr_StartedAt rec,
          t_FinishedAt = tr_FinishedAt rec,
          t_Completion =
            (if tr_ResultSummary rec \<noteq> [] \<or> tr_Status rec = TaskStatusCompleted
             then Some (no_completion\<lparr>cp_Result := tr_ResultSummary rec,
                                      cp_ExecutedLocally := tr_ExecutedLocally rec\<rparr>)
             else None),
          t_Error =
            (if tr_ErrorMessage rec \<noteq> [] \<or> tr_Status rec = TaskStatusFailed
             then Some \<lparr>ep_Code = [], ep_Message = tr_ErrorMessage rec, ep_Fatal = False\<rparr>
             else None),
          t_Domain = tr_Domain rec, t_BlastRadius = blastRadius, t_Phase = tr_Phase rec,
          t_CurrentAction = tr_CurrentAction rec, t_LastActivityAt = lastActivity,
          t_EditSurfaces = tr_EditSurfaces rec, t_NodeID = tr_WorkerID rec, t_retryAttempts = 0,
          t_canceled = terminal_status (tr_Status rec), t_eventSeq = last_event_id logger,
          t_logger = logger, t_subscribers = [], t_chans = (\<lambda>_. no_chan), t_nextchan = 0,
          t_pendingQueries = [], t_answers = (\<lambda>_. None),
          t_finishedTime = (if tr_FinishedAt rec > 0 then Some (nanos (tr_FinishedAt rec)) else None),
          t_checkpoint = None\<rparr>)"

definition rehydrate_record :: "TaskManager \<Rightarrow> TaskRecord \<Rightarrow> TaskManager" where
  "rehydrate_record m rec =
     (if tr_TaskID rec = [] then m
      else m\<lparr>tm_tasks := map_put (tm_tasks m) (tr_TaskID rec)
                (rehydrateTask (tm_files m (tr_TaskID rec)) rec)\<rparr>)"

definition fail_if_pending ::
  "(string \<Rightarrow> write_outcome \<times> write_outcome) \<Rightarrow> int \<Rightarrow> TaskManager \<Rightarrow> string \<Rightarrow> TaskManager" where
  "fail_if_pending ws now m k =
     (case map_get (tm_tasks m) k of
        None \<Rightarrow> m
      | Some t \<Rightarrow>
          if active_status (t_Status t)
          then snd (FailTask (ws k) now m (t_TaskID t) OrphanedTaskCode OrphanedTaskMessage)
          else m)"

definition NewTaskManager ::
  "bool \<Rightarrow> (string \<Rightarrow> write_outcome \<times> write_outcome) \<Rightarrow> int \<Rightarrow> int \<Rightarrow> MemoryStore option \<Rightarrow>
   (string \<Rightarrow> log_file option) \<Rightarrow> store_error option + TaskManager" where
  "NewTaskManager mkdir_ok ws now taskTTL store files =
     (if \<not> mkdir_ok then Inl None
      else let m = \<lparr>tm_taskTTL = taskTTL, tm_store = store, tm_tasks = [], tm_closed = False,
                    tm_files = files\<rparr>
           in case store of
                None \<Rightarrow> Inr m
              | Some st \<Rightarrow>
                  (case ListRecords False st all_tasks of
                     Inl e \<Rightarrow> Inl (Some e)
                   | Inr records \<Rightarrow>
                       let m1 = foldl rehydrate_record m records
                       in Inr (foldl (fail_if_pending ws now) m1 (map fst (tm_tasks m1)))))"

section \<open>Frames of the task operations\<close>

text \<open>The id and the request of a task never change, and the retry counter only by \<open>IncRetryAttempts\<close>.\<close>

definition identity :: "ManagedTask \<Rightarrow> string \<times> TaskRequest" where
  "identity t = (t_TaskID t, t_Request t)"

definition tally :: "ManagedTask \<Rightarrow> string \<times> TaskRequest \<times> int" where
  "tally t = (t_TaskID t, t_Request t, t_retryAttempts t)"

lemma tally_frame [simp]:
  "tally (snd (publish w evt t)) = tally t"
  "tally (bump_seq t) = tally t"
  "tally (t\<lparr>t_LastActivityAt := i\<rparr>) = tally t"
  "tally (t\<lparr>t_Error := e\<rparr>) = tally t"
  "tally (close_subscribers t) = tally t"
  "tally (broadcast evt t) = tally t"
  "tally (stamp_finished now t) = tally t"
  "tally (t\<lparr>t_canceled := b, t_Status := s\<rparr>) = tally t"
  by (simp_all add: tally_def bump_seq_def close_subscribers_def broadcast_def stamp_finished_def)

lemma tally_write_log [simp]: "tally (snd (write_log w e t)) = tally t"
  by (simp add: tally_def write_log_def Let_def split_beta split: option.splits)

lemma tally_bookkeeping: "bookkeeping t u \<Longrightarrow> tally u = tally t"
  by (simp add: tally_def bookkeeping_def)

lemma tally_TransitionTo [simp]: "tally (fst (snd (TransitionTo w now t st))) = tally t"
  using tally_bookkeeping [OF bookkeeping_enter, of now st "t\<lparr>t_LastActivityAt := unix now\<rparr>"]
  by (simp add: TransitionTo_def Let_def prod.case_eq_if option.case_eq_if)

lemma tally_EmitEvent [simp]: "tally (fst (snd (EmitEvent w now t body))) = tally t"
proof (cases "apply_body now body ((bump_seq t)\<lparr>t_LastActivityAt := unix now\<rparr>)")
  case None
  then show ?thesis by (simp add: EmitEvent_def Let_def)
next
  case (Some r)
  then have "bookkeeping ((bump_seq t)\<lparr>t_LastActivityAt := unix now\<rparr>) (fst r)"
    by (intro bookkeeping_apply_body [of now body _ _ "snd r"]) simp
  from tally_bookkeeping [OF this] Some show ?thesis
    by (simp add: EmitEvent_def Let_def prod.case_eq_if option.case_eq_if)
qed

lemma tally_cancel [simp]: "tally (fst (snd (cancel_task w now t reason))) = tally t"
  by (simp add: cancel_task_def Let_def)

lemma tally_fail [simp]: "tally (fst (snd (fail_task w w' now t code msg))) = tally t"
proof (cases "isTerminalLocked t")
  case False
  then show ?thesis
    by (cases rule: fail_task_cases [where w = w and w' = w' and now = now and code = code and msg = msg])
      simp_all
qed (simp add: fail_task_def)

lemma tally_step: "op \<noteq> OpRetry \<Longrightarrow> tally (task_step t op) = tally t"
proof (cases op)
  case (OpSetStatus w now st)
  then show ?thesis by (simp add: SetStatus_def)
qed (auto simp: tally_def RegisterQuery_def ResolveQuery_def WaitForQuery_end_def
      UpdateActivity_def SetScope_def SetEditSurfaces_def SetCheckpoint_def IncRetryAttempts_def
      AttributeNode_def SubscribeTask_def unsubscribe_def Let_def
      tally_TransitionTo [unfolded tally_def prod.inject]
      tally_EmitEvent [unfolded tally_def prod.inject]
      tally_cancel [unfolded tally_def prod.inject]
      tally_fail [unfolded tally_def prod.inject]
      split: option.splits list.splits sum.splits wait_end.splits)

lemma identity_tally: "tally u = tally t \<Longrightarrow> identity u = identity t"
  by (simp add: identity_def tally_def)

lemmas identity_TransitionTo = identity_tally [OF tally_TransitionTo]
lemmas identity_cancel = identity_tally [OF tally_cancel]

lemma identity_step: "identity (task_step t op) = identity t"
  using identity_tally [OF tally_step, of op t] by (cases "op = OpRetry") (auto simp: identity_def IncRetryAttempts_def)

lemma retry_step: "t_retryAttempts t \<le> t_retryAttempts (task_step t op)"
  using tally_step [of op t] by (cases "op = OpRetry") (auto simp: tally_def IncRetryAttempts_def)

lemmas TaskID_EmitEvent [simp] = tally_EmitEvent [unfolded tally_def prod.inject, THEN conjunct1]

lemmas TaskID_fail [simp] = tally_fail [unfolded tally_def prod.inject, THEN conjunct1]

lemma TaskID_step [simp]: "t_TaskID (task_step t op) = t_TaskID t"
  and Request_step [simp]: "t_Request (task_step t op) = t_Request t"
  using identity_step [of t op] by (simp_all add: identity_def)

lemma active_not_terminal: "active_status (t_Status t) \<Longrightarrow> \<not> isTerminalLocked t"
  by (auto simp: active_status_def isTerminalLocked_def)

lemma active_can_fail: "active_status s \<Longrightarrow> isValidTransition s TaskStatusFailed"
  by (auto simp: active_status_def isValidTransition.simps)

text \<open>\<open>FailTask\<close> on an active task fails it with the given cause, whatever the log does.\<close>

lemma Error_enter [simp]: "t_Error (enter_status now st t) = t_Error t"
  by (simp add: enter_status_def stamp_terminal_def stamp_started_def stamp_finished_def)

lemma Error_publish [simp]: "t_Error (snd (publish w evt t)) = t_Error t"
  by (rule core_field [OF _ core_publish]) (simp add: core_def)

lemma TransitionTo_ends:
  assumes "\<not> isTerminalLocked t" "isValidTransition (t_Status t) st"
  shows "t_Status (fst (snd (TransitionTo w now t st))) = st \<and>
         t_Error (fst (snd (TransitionTo w now t st))) = t_Error t"
  using assms
  by (simp add: TransitionTo_def Let_def prod.case_eq_if option.case_eq_if bump_seq_def)

lemma EmitError_ends:
  assumes "\<not> isTerminalLocked t" "t_Error t = Some p"
  shows "t_Status (fst (snd (EmitEvent w now t (EventError q)))) = TaskStatusFailed \<and>
         t_Error (fst (snd (EmitEvent w now t (EventError q)))) = Some p"
  using assms
  by (cases q)
    (simp_all add: EmitEvent_def Let_def prod.case_eq_if option.case_eq_if bump_seq_def stamp_finished_def)

lemma fail_task_ends:
  assumes "active_status (t_Status t)"
  shows "t_Status (fst (snd (fail_task w w' now t code msg))) = TaskStatusFailed \<and>
         t_Error (fst (snd (fail_task w w' now t code msg))) =
           Some \<lparr>ep_Code = code, ep_Message = msg, ep_Fatal = True\<rparr>"
proof -
  let ?p = "\<lparr>ep_Code = code, ep_Message = msg, ep_Fatal = True\<rparr>"
  let ?t = "t\<lparr>t_Error := Some ?p\<rparr>"
  have nt: "\<not> isTerminalLocked t" "\<not> isTerminalLocked ?t" "t_Status t \<noteq> TaskStatusFailed"
    "isValidTransition (t_Status ?t) TaskStatusFailed"
    using assms active_not_terminal [of t] active_can_fail [of "t_Status t"]
    by (auto simp: isTerminalLocked_def)
  note em = EmitError_ends [OF nt(2), of ?p w now "Some ?p"]
  note tr = TransitionTo_ends [OF nt(2,4), of w' now]
  obtain r u n where e: "EmitEvent w now ?t (EventError (Some ?p)) = (r, u, n)" by (metis prod_cases3)
  show ?thesis using nt em tr e by (cases r) (auto simp: fail_task_def Let_def)
qed

section \<open>Restart\<close>

definition keyed :: "TaskManager \<Rightarrow> bool" where
  "keyed m \<longleftrightarrow> (\<forall>k t. map_get (tm_tasks m) k = Some t \<longrightarrow> t_TaskID t = k)"

lemma tasks_sync [simp]: "tm_tasks (syncTaskToStore m t) = tm_tasks m"
  by (simp add: syncTaskToStore_def Let_def split: option.splits)

lemma tasks_commit [simp]: "tm_tasks (commit n t m) = map_put (tm_tasks m) (t_TaskID t) t"
  by (simp add: commit_def put_task_def)

definition finalize :: "(string \<Rightarrow> write_outcome \<times> write_outcome) \<Rightarrow> int \<Rightarrow> ManagedTask \<Rightarrow> ManagedTask" where
  "finalize ws now t =
     (if active_status (t_Status t)
      then fst (snd (fail_task (fst (ws (t_TaskID t))) (snd (ws (t_TaskID t))) now t
                       OrphanedTaskCode OrphanedTaskMessage))
      else t)"

lemma TaskID_finalize [simp]: "t_TaskID (finalize ws now t) = t_TaskID t"
  by (simp add: finalize_def)

lemma get_fail_if_pending:
  assumes "keyed m"
  shows "map_get (tm_tasks (fail_if_pending ws now m k)) j =
     (if j = k then map_option (finalize ws now) (map_get (tm_tasks m) j) else map_get (tm_tasks m) j)"
  using assms
  by (auto simp: fail_if_pending_def FailTask_def finalize_def keyed_def prod.case_eq_if split: option.splits)

lemma keyed_fail_if_pending: "keyed m \<Longrightarrow> keyed (fail_if_pending ws now m k)"
  by (auto simp: keyed_def get_fail_if_pending [unfolded keyed_def])

lemma get_fail_all:
  "keyed m \<Longrightarrow> distinct ks \<Longrightarrow>
   map_get (tm_tasks (foldl (fail_if_pending ws now) m ks)) j =
     (if j \<in> set ks then map_option (finalize ws now) (map_get (tm_tasks m) j)
      else map_get (tm_tasks m) j)"
  by (induction ks arbitrary: m) (auto simp: keyed_fail_if_pending get_fail_if_pending)

lemma get_rehydrate_all:
  "distinct (map tr_TaskID rs) \<Longrightarrow>
   map_get (tm_tasks (foldl rehydrate_record m rs)) k =
     (case find (\<lambda>r. tr_TaskID r = k \<and> k \<noteq> []) rs of
        Some r \<Rightarrow> Some (rehydrateTask (tm_files m k) r)
      | None \<Rightarrow> map_get (tm_tasks m) k)"
proof (induction rs arbitrary: m)
  case (Cons r rs)
  have nf: "find (\<lambda>r. tr_TaskID r = k \<and> k \<noteq> []) rs = None" if "tr_TaskID r = k"
    using Cons.prems that by (simp add: find_None_iff) (metis image_eqI)
  show ?case
    using Cons.IH [of "rehydrate_record m r"] Cons.prems nf
    by (auto simp: rehydrate_record_def split: option.splits)
qed simp

lemma wf_rehydrate_all: "wf_map (tm_tasks m) \<Longrightarrow> wf_map (tm_tasks (foldl rehydrate_record m rs))"
  by (induction rs arbitrary: m) (auto simp: rehydrate_record_def)

lemma map_get_keys: "map_get m k = Some v \<Longrightarrow> k \<in> set (map fst m)"
  by (metis domI dom_map_of_conv_image_fst list.set_map)

lemma store_ids_distinct: "store_wf s \<Longrightarrow> distinct (map tr_TaskID (map snd (ms_tasks s)))"
  using wf_map_distinct_values [of "ms_tasks s" tr_TaskID]
  by (auto simp: store_wf_def list_all_iff comp_def)

lemma list_all_records_ids: "store_ready s \<Longrightarrow> distinct (map tr_TaskID (list_all_records s))"
proof -
  assume r: "store_ready s"
  have "mset (list_all_records s) = mset (map snd (ms_tasks s))"
    using r by (simp add: list_all_records_def ListRecords_def store_ready_def newest_first_def)
      (simp add: all_tasks_def)
  then have "mset (map tr_TaskID (list_all_records s)) = mset (map tr_TaskID (map snd (ms_tasks s)))"
    by (simp only: mset_map)
  then show ?thesis using store_ids_distinct [of s] r mset_eq_imp_distinct_iff
    unfolding store_ready_def by metis
qed

lemma TaskID_rehydrate [simp]: "t_TaskID (rehydrateTask f r) = tr_TaskID r"
  by (simp add: rehydrateTask_def Let_def)

lemma Status_rehydrate [simp]: "t_Status (rehydrateTask f r) = tr_Status r"
  by (simp add: rehydrateTask_def Let_def)

lemma find_by_id:
  assumes "store_ready s"
  shows "find (\<lambda>r. tr_TaskID r = k \<and> k \<noteq> []) (list_all_records s) = find_record s k"
proof (cases "find_record s k")
  case None
  have "\<not> (tr_TaskID r = k \<and> k \<noteq> [])" if "r \<in> set (list_all_records s)" for r
    using mem.records_lookup [OF assms, of r] that None by auto
  then show ?thesis using None by (auto simp: find_None_iff)
next
  case (Some r)
  have wf: "\<forall>k r. map_get (ms_tasks s) k = Some r \<longrightarrow> k \<noteq> [] \<and> tr_TaskID r = k"
    using assms unfolding store_ready_def store_wf_iff by blast
  have k: "tr_TaskID r = k \<and> k \<noteq> []"
    using Some assms wf by (auto simp: find_record_ready)
  have "r' = r" if "r' \<in> set (list_all_records s)" "tr_TaskID r' = k" for r'
    using mem.records_lookup [OF assms, of r'] that Some by simp
  moreover have "r \<in> set (list_all_records s)" using mem.records_lookup [OF assms, of r] Some k by simp
  ultimately show ?thesis using Some k
    by (metis (mono_tags, lifting) find_None_iff find_Some_iff nth_mem option.exhaust)
qed

text \<open>What a restart makes of the stored tasks.\<close>

lemma restart_tasks:
  assumes "store_ready st" "NewTaskManager True ws now ttl (Some st) files = Inr m"
  shows "map_get (tm_tasks m) k =
     map_option (\<lambda>r. finalize ws now (rehydrateTask (files k) r)) (find_record st k)"
proof -
  let ?m0 = "\<lparr>tm_taskTTL = ttl, tm_store = Some st, tm_tasks = [], tm_closed = False, tm_files = files\<rparr>"
  let ?m1 = "foldl rehydrate_record ?m0 (list_all_records st)"
  have m: "m = foldl (fail_if_pending ws now) ?m1 (map fst (tm_tasks ?m1))"
    using assms by (auto simp: NewTaskManager_def Let_def list_all_records_def split: sum.splits)
  have get: "map_get (tm_tasks ?m1) j = map_option (rehydrateTask (files j)) (find_record st j)" for j
    using get_rehydrate_all [OF list_all_records_ids [OF assms(1)], of ?m0 j]
    by (simp add: find_by_id [OF assms(1)] split: option.splits)
  have wf: "\<forall>k r. map_get (ms_tasks st) k = Some r \<longrightarrow> k \<noteq> [] \<and> tr_TaskID r = k"
    using assms(1) unfolding store_ready_def store_wf_iff by blast
  have "keyed ?m1" unfolding keyed_def get using assms(1) wf by (auto simp: find_record_ready)
  moreover have "distinct (map fst (tm_tasks ?m1))"
    using wf_rehydrate_all [of ?m0] by (simp add: wf_map_def)
  ultimately have "map_get (tm_tasks m) k =
      (if k \<in> set (map fst (tm_tasks ?m1)) then map_option (finalize ws now) (map_get (tm_tasks ?m1) k)
       else map_get (tm_tasks ?m1) k)"
    unfolding m by (rule get_fail_all)
  then show ?thesis
    using map_get_keys [of "tm_tasks ?m1" k] by (cases "find_record st k") (auto simp: get)
qed

text \<open>C5. A restart leaves nothing pending: for every stored record of a known status, the restarted
  coordinator has the task and it is finished. A finished one keeps its status; a pending one is
  failed with the restart cause, whatever the log files contain and whether or not its log can be
  written; and no other task appears.\<close>

theorem restart_finalizes:
  assumes "store_ready st" and "NewTaskManager True ws now ttl (Some st) files = Inr m"
  shows "(find_record st k = None \<longrightarrow> GetTask m k = None) \<and>
     (\<forall>r. find_record st k = Some r \<and> known_status (tr_Status r) \<longrightarrow>
        (\<exists>t. GetTask m k = Some t \<and> isTerminalLocked t \<and>
           (if terminal_status (tr_Status r) then t_Status t = tr_Status r
            else t_Status t = TaskStatusFailed \<and>
                 t_Error t = Some \<lparr>ep_Code = OrphanedTaskCode, ep_Message = OrphanedTaskMessage,
                                   ep_Fatal = True\<rparr>)))"
proof -
  have "isTerminalLocked (finalize ws now (rehydrateTask (files k) r)) \<and>
      (if terminal_status (tr_Status r) then t_Status (finalize ws now (rehydrateTask (files k) r)) = tr_Status r
       else t_Status (finalize ws now (rehydrateTask (files k) r)) = TaskStatusFailed \<and>
            t_Error (finalize ws now (rehydrateTask (files k) r)) =
              Some \<lparr>ep_Code = OrphanedTaskCode, ep_Message = OrphanedTaskMessage, ep_Fatal = True\<rparr>)"
    if "known_status (tr_Status r)" for r
  proof (cases "active_status (tr_Status r)")
    case True
    then have "\<not> terminal_status (tr_Status r)" by (auto simp: active_status_def)
    then show ?thesis
      using True fail_task_ends [of "rehydrateTask (files k) r"]
      by (simp add: finalize_def isTerminalLocked_def)
  next
    case False
    then have "terminal_status (tr_Status r)"
      using that by (cases "tr_Status r") (auto simp: active_status_def known_status_def)
    then show ?thesis using False by (simp add: finalize_def isTerminalLocked_iff)
  qed
  then show ?thesis using restart_tasks [OF assms, of k] by (auto simp: GetTask_def)
qed

definition restarted :: TaskManager where
  "restarted = projr (NewTaskManager True (\<lambda>_. (WriteFailed True, WriteFailed True)) (nanos 5) 0
                 (Some sample_store) (\<lambda>_. Some ([], True)))"

theorem restart_finalizes_witness:
  "\<exists>t. GetTask restarted ''a'' = Some t \<and> t_Status t = TaskStatusFailed"
proof -
  let ?n = "NewTaskManager True (\<lambda>_. (WriteFailed True, WriteFailed True)) (nanos 5) 0
                 (Some sample_store) (\<lambda>_. Some ([], True))"
  have "\<exists>m. ?n = Inr m" using sample_store_ready
    by (auto simp: NewTaskManager_def ListRecords_def store_ready_def Let_def)
  then have n: "?n = Inr restarted" by (auto simp: restarted_def)
  have "find_record sample_store ''a'' = Some (sample_record ''a'' 1)" by code_simp
  then show ?thesis
    using restart_finalizes [OF sample_store_ready n, of "''a''"]
    by (auto simp: sample_record_def known_status_def)
qed

end
