(* ===== verification/Task_Persistence.thy ===== *)
theory Task_Persistence
  imports Task_Manager
begin

text \<open>
  The task manager and its store together: what a stored record keeps of a task, that event ids
  keep growing across a restart, and that the store mirrors the tasks after every call of the
  manager while log writes succeed.
\<close>

section \<open>Records\<close>

text \<open>The record round trip: rehydrating the record of a task yields a task with the same record, so
  nothing that is stored is lost or changed by a restart (given a blast radius, which every task
  has, and a completion that is either of a completed task or has a text).\<close>

theorem rehydrate_record_of:
  assumes "t_BlastRadius t \<noteq> []"
    and "t_Completion t \<noteq> None \<Longrightarrow> t_Status t = TaskStatusCompleted \<or> result_summary t \<noteq> []"
  shows "record_of (rehydrateTask file (record_of t)) = record_of t"
proof -
  have "t_Completion t = None \<Longrightarrow> result_summary t = [] \<and> \<not> executed_locally t"
    by (simp add: result_summary_def executed_locally_def)
  then have "result_summary (rehydrateTask file (record_of t)) = result_summary t"
    "executed_locally (rehydrateTask file (record_of t)) = executed_locally t"
    using assms(2)
    by (auto simp: rehydrateTask_def record_of_def Let_def no_completion_def result_summary_def
        executed_locally_def split: option.splits)
  moreover have "error_message (rehydrateTask file (record_of t)) = error_message t"
    by (simp add: rehydrateTask_def record_of_def Let_def error_message_def)
  ultimately show ?thesis
    using assms(1) unfolding record_of_def [of "rehydrateTask file (record_of t)"]
    by (simp add: rehydrateTask_def Let_def no_request_def) (simp add: record_of_def)
qed

definition completed_sample :: ManagedTask where
  "completed_sample = task_step sample_task
     (OpEmit WriteOk (nanos 102)
        (EventCompletion (Some (no_completion\<lparr>cp_Text := ''done'', cp_ExecutedLocally := True\<rparr>))))"

theorem rehydrate_record_of_witness:
  "record_of (rehydrateTask None (record_of completed_sample)) = record_of completed_sample \<and>
   tr_ResultSummary (record_of completed_sample) = ''done''"
proof -
  have "t_BlastRadius completed_sample \<noteq> []" "t_Status completed_sample = TaskStatusCompleted"
    "tr_ResultSummary (record_of completed_sample) = ''done''"
    by code_simp+
  then show ?thesis using rehydrate_record_of [of completed_sample None] by simp
qed

section \<open>Event ids across a restart\<close>

definition log_file_of :: "ManagedTask \<Rightarrow> log_file option" where
  "log_file_of t = map_option (\<lambda>l. (lg_lines l, lg_torn l)) (t_logger t)"

lemma ReadEvents_file: "ReadEvents (NewJSONLLogger (lg_lines l) (lg_torn l)) k = ReadEvents l k"
  by (simp add: ReadEvents_def file_lines_def NewJSONLLogger_def)

lemma sorted_last_le:
  assumes "sorted_wrt (<) (map f xs)" "x \<in> set xs"
  shows "f x \<le> (f (last xs) :: int)"
  using assms
proof (induction xs)
  case (Cons y ys)
  show ?case
  proof (cases "ys = []")
    case False
    then have "f y \<le> f (last ys)" using Cons.prems by (simp add: less_imp_le)
    moreover have "x \<noteq> y \<Longrightarrow> f x \<le> f (last ys)" using Cons by simp
    ultimately show ?thesis using False by auto
  qed (use Cons in simp)
qed simp

lemma restart_seq:
  assumes "seq_inv t" "t_logger t = Some l" "ReadEvents l 0 = Inr es"
  shows "seq_inv (rehydrateTask (log_file_of t) (record_of t)) \<and>
         t_eventSeq (rehydrateTask (log_file_of t) (record_of t)) = (if es = [] then 0 else ev_ID (last es))"
proof -
  have es: "es = events_of (lg_lines l)" by (rule ReadEvents_all [OF assms])
  have inv: "sorted_wrt (<) (map ev_ID es)" "list_all (\<lambda>e. 0 < ev_ID e) es"
    using assms(1,2) es by (auto simp: seq_inv_def list_all_iff)
  have sq: "t_eventSeq (rehydrateTask (log_file_of t) (record_of t)) = (if es = [] then 0 else ev_ID (last es))"
    using assms(2,3) by (simp add: rehydrateTask_def Let_def last_event_id_def log_file_of_def ReadEvents_file)
  have lg: "t_logger (rehydrateTask (log_file_of t) (record_of t)) = Some (NewJSONLLogger (lg_lines l) (lg_torn l))"
    using assms(2) by (simp add: rehydrateTask_def Let_def log_file_of_def)
  have "0 < ev_ID e \<and> ev_ID e \<le> ev_ID (last es)" if "e \<in> set es" for e
    using inv sorted_last_le [OF inv(1) that] that by (simp add: list_all_iff)
  then show ?thesis
    using sq lg inv(1) es [symmetric]
    by (fastforce simp: seq_inv_def NewJSONLLogger_def list_all_iff dest: last_in_set)
qed

text \<open>C7. Event ids keep growing across a restart: take any task, any operations, a stop of the
  coordinator that leaves a readable log, and any operations of the restarted coordinator on the
  rehydrated task. The ids in the log are still strictly increasing, so a client's resume
  position stays valid.\<close>

theorem ids_increase_across_restart:
  assumes "t = foldl task_step (fresh_task now tid req) ops" and "t_logger t = Some l"
    and "ReadEvents l 0 = Inr es"
  shows "\<exists>l'. t_logger (foldl task_step (rehydrateTask (log_file_of t) (record_of t)) ops') = Some l' \<and>
     sorted_wrt (<) (map ev_ID (events_of (lg_lines l')))"
proof -
  have "seq_inv t" unfolding assms(1) by (rule seq_inv_reachable)
  then have "seq_inv (rehydrateTask (log_file_of t) (record_of t))"
    using restart_seq assms(2,3) by blast
  then have "seq_inv (foldl task_step (rehydrateTask (log_file_of t) (record_of t)) ops')"
    by (rule run_invariant) (rule seq_inv_step)
  then show ?thesis by (auto simp: seq_inv_def split: option.splits)
qed

theorem ids_increase_across_restart_witness:
  "\<exists>l'. t_logger (foldl task_step
       (rehydrateTask (log_file_of (foldl task_step (fresh_task (nanos 100) ''t1'' sample_request)
           [OpTransition WriteOk (nanos 101) TaskStatusRunning]))
         (record_of (foldl task_step (fresh_task (nanos 100) ''t1'' sample_request)
           [OpTransition WriteOk (nanos 101) TaskStatusRunning])))
       [OpFail WriteOk WriteOk (nanos 200) OrphanedTaskCode OrphanedTaskMessage]) = Some l' \<and>
     map ev_ID (events_of (lg_lines l')) = [1, 2]"
proof -
  let ?t = "foldl task_step (fresh_task (nanos 100) ''t1'' sample_request)
     [OpTransition WriteOk (nanos 101) TaskStatusRunning]"
  let ?u = "foldl task_step (rehydrateTask (log_file_of ?t) (record_of ?t))
     [OpFail WriteOk WriteOk (nanos 200) OrphanedTaskCode OrphanedTaskMessage]"
  have m: "map_option (\<lambda>l. map_sum id (map ev_ID) (ReadEvents l 0)) (t_logger ?t) = Some (Inr [1])"
    by code_simp
  then obtain l es where l: "t_logger ?t = Some l" "ReadEvents l 0 = Inr es"
    by (cases "t_logger ?t"; cases "ReadEvents (the (t_logger ?t)) 0") auto
  have "map_option (\<lambda>l. map ev_ID (events_of (lg_lines l))) (t_logger ?u) = Some [1, 2]" by code_simp
  then show ?thesis
    using ids_increase_across_restart [OF refl l, of "[OpFail WriteOk WriteOk (nanos 200) OrphanedTaskCode OrphanedTaskMessage]"]
    by auto
qed

section \<open>The store mirrors the tasks\<close>

text \<open>The part of a task that a client of the store sees change: status, finish time, error and
  result.\<close>

definition visible :: "ManagedTask \<Rightarrow> TaskStatus \<times> int \<times> string \<times> string" where
  "visible t = (t_Status t, t_FinishedAt t, error_message t, result_summary t)"

definition stored_view :: "TaskRecord \<Rightarrow> TaskStatus \<times> int \<times> string \<times> string" where
  "stored_view r = (tr_Status r, tr_FinishedAt r, tr_ErrorMessage r, tr_ResultSummary r)"

definition log_open :: "ManagedTask \<Rightarrow> bool" where
  "log_open t \<longleftrightarrow> (case t_logger t of None \<Rightarrow> True | Some l \<Rightarrow> \<not> lg_closed l)"

lemma visible_outcome: "outcome u = outcome t \<Longrightarrow> visible u = visible t"
  by (simp add: visible_def outcome_def error_message_def result_summary_def)

lemma stored_view_record_of [simp]: "stored_view (record_of t) = visible t"
  by (simp add: stored_view_def record_of_def visible_def)

lemma publish_ok_no_error: "log_open t \<Longrightarrow> fst (publish WriteOk evt t) = None"
  by (auto simp: log_open_def publish_def write_log_def WriteEvent_def Let_def split: option.splits)

lemma log_open_io: "io u = io t \<Longrightarrow> log_open u = log_open t"
  by (simp add: log_open_def io_def)

lemma log_open_published: "log_open t \<Longrightarrow> published w t t' \<Longrightarrow> log_open t'"
  by (erule publishedE)
    (auto simp: log_open_def WriteEvent_def append_line_def split: option.splits write_outcome.splits)

lemma log_open_step: "log_open t \<Longrightarrow> log_open (task_step t op)"
proof (cases rule: step_cases [of t op])
  case (published w)
  then show "log_open t \<Longrightarrow> ?thesis" using log_open_published by blast
qed (auto simp: log_open_def quiet_def io_def subscription_frame)

lemma TransitionTo_notifies:
  assumes "log_open t"
  shows "snd (snd (TransitionTo WriteOk now t st)) \<or> fst (snd (TransitionTo WriteOk now t st)) = t"
proof (cases "isTerminalLocked t \<or> \<not> isValidTransition (t_Status t) st")
  case False
  let ?t1 = "bump_seq (enter_status now st (t\<lparr>t_LastActivityAt := unix now\<rparr>))"
  have "io ?t1 = io t"
    using bookkeeping_enter [of "t\<lparr>t_LastActivityAt := unix now\<rparr>" now st]
    by (simp add: bookkeeping_def bump_seq_def io_def)
  then have "log_open ?t1" using assms log_open_io by blast
  from publish_ok_no_error [OF this] show ?thesis
    using False by (simp add: TransitionTo_def Let_def prod.case_eq_if option.case_eq_if)
qed (auto simp: TransitionTo_def)

lemma apply_body_quiet:
  assumes "apply_body now body t = Some (t', False)"
  shows "outcome t' = outcome t"
  using assms
  by (cases "(now, body, t)" rule: apply_body.cases) (auto simp: Let_def split: if_splits)

lemma EmitEvent_quiet:
  assumes "\<not> snd (snd (EmitEvent w now t body))"
  shows "visible (fst (snd (EmitEvent w now t body))) = visible t"
proof (cases "isTerminalLocked t")
  case False
  let ?t1 = "(bump_seq t)\<lparr>t_LastActivityAt := unix now\<rparr>"
  have v: "visible ?t1 = visible t"
    by (simp add: visible_def bump_seq_def error_message_def result_summary_def)
  show ?thesis
  proof (cases "apply_body now body ?t1")
    case None
    with False v show ?thesis by (simp add: EmitEvent_def Let_def)
  next
    case (Some r)
    with assms False have "\<not> snd r"
      by (auto simp: EmitEvent_def Let_def prod.case_eq_if option.case_eq_if split: if_splits)
    with Some have "outcome (fst r) = outcome ?t1"
      by (intro apply_body_quiet [of now body]) (cases r, auto)
    then have "visible (fst r) = visible t" using visible_outcome v by metis
    with Some False show ?thesis
      by (simp add: EmitEvent_def Let_def prod.case_eq_if option.case_eq_if
          visible_outcome [OF outcome_publish])
  qed
qed (simp add: EmitEvent_def)

lemma EmitError_notifies: "\<not> isTerminalLocked t \<Longrightarrow> snd (snd (EmitEvent w now t (EventError q)))"
  by (simp add: EmitEvent_def Let_def prod.case_eq_if option.case_eq_if)

lemma fail_notifies:
  assumes "log_open t" "\<not> snd (snd (fail_task WriteOk WriteOk now t code msg))"
    "active_status (t_Status t) \<or> isTerminalLocked t"
  shows "visible (fst (snd (fail_task WriteOk WriteOk now t code msg))) = visible t"
proof (cases "isTerminalLocked t")
  case False
  let ?p = "\<lparr>ep_Code = code, ep_Message = msg, ep_Fatal = True\<rparr>"
  let ?t = "t\<lparr>t_Error := Some ?p\<rparr>"
  have nt: "\<not> isTerminalLocked ?t" "isValidTransition (t_Status t) TaskStatusFailed" "t_Status t \<noteq> TaskStatusFailed"
    using False assms(3) active_can_fail by (auto simp: isTerminalLocked_def)
  have lo: "log_open ?t" using assms(1) by (simp add: log_open_def)
  have tr: "snd (snd (TransitionTo WriteOk now ?t TaskStatusFailed))"
    using TransitionTo_notifies [OF lo, of now TaskStatusFailed]
      TransitionTo_ends [OF nt(1), of TaskStatusFailed WriteOk now] nt by auto
  obtain r u n where e: "EmitEvent WriteOk now ?t (EventError (Some ?p)) = (r, u, n)" by (metis prod_cases3)
  have "n" "t_Status u = TaskStatusFailed"
    using EmitError_notifies [OF nt(1), of WriteOk now "Some ?p"]
      EmitError_ends [OF nt(1), of ?p WriteOk now "Some ?p"] e by auto
  then have "snd (snd (fail_task WriteOk WriteOk now t code msg))"
    using False e tr nt by (cases r) (auto simp: fail_task_def Let_def)
  then show ?thesis using assms(2) by simp
qed (simp add: fail_task_def)

lemma step_quiet_visible:
  assumes "log_open t" "writes_ok op" "\<not> step_notifies t op" "known_status (t_Status t)"
  shows "visible (task_step t op) = visible t"
proof (cases op)
  case (OpTransition w now st)
  then show ?thesis using assms TransitionTo_notifies [of t now st] by (auto simp: writes_ok_def)
next
  case (OpSetStatus w now st)
  then show ?thesis using assms TransitionTo_notifies [of t now st]
    by (auto simp: writes_ok_def SetStatus_def split: if_splits)
next
  case (OpEmit w now body)
  then show ?thesis using assms EmitEvent_quiet by simp
next
  case (OpCancel w now reason)
  then show ?thesis using assms by (auto simp: cancel_task_def Let_def split: if_splits)
next
  case (OpFail w w' now code msg)
  have "active_status (t_Status t) \<or> isTerminalLocked t"
    using assms(4) by (cases "t_Status t") (auto simp: known_status_def active_status_def isTerminalLocked_def)
  then show ?thesis using OpFail assms fail_notifies [of t now code msg] by (auto simp: writes_ok_def)
qed (simp_all add: visible_outcome [OF outcome_passive(1)] visible_outcome [OF outcome_passive(2)]
    visible_outcome [OF outcome_passive(3)] visible_outcome [OF outcome_passive(4)]
    visible_outcome [OF outcome_passive(5)] visible_outcome [OF outcome_passive(6)]
    visible_outcome [OF outcome_passive(7)] visible_outcome [OF outcome_passive(8)]
    visible_outcome [OF outcome_passive(9)] visible_outcome [OF outcome_passive(10)]
    visible_outcome [OF outcome_passive(11)])

definition mirrored :: "MemoryStore \<Rightarrow> string \<Rightarrow> ManagedTask \<Rightarrow> bool" where
  "mirrored st k t \<longleftrightarrow>
     t_TaskID t = k \<and> k \<noteq> [] \<and> log_open t \<and> known_status (t_Status t) \<and>
     (\<exists>r. find_record st k = Some r \<and> stored_view r = visible t)"

definition mirrors :: "TaskManager \<Rightarrow> bool" where
  "mirrors m \<longleftrightarrow>
     \<not> tm_closed m \<and> wf_map (tm_tasks m) \<and>
     (\<exists>st. tm_store m = Some st \<and> store_ready st \<and>
        (\<forall>k t. map_get (tm_tasks m) k = Some t \<longrightarrow> mirrored st k t))"

lemma syncTaskToStore_sync:
  "tm_store m = Some st \<Longrightarrow> \<not> tm_closed m \<Longrightarrow>
   syncTaskToStore m t = m\<lparr>tm_store := Some (mem.sync st (record_of t))\<rparr>"
  by (simp add: syncTaskToStore_def mem.sync_def Let_def record_of_def)

lemma TaskID_record_of [simp]: "tr_TaskID (record_of t) = t_TaskID t"
  by (simp add: record_of_def)

text \<open>Replacing a task keeps the mirror if the hook runs or nothing visible changed.\<close>

lemma mirrors_commit:
  assumes "mirrors m" "t_TaskID t' \<noteq> []" "log_open t'" "known_status (t_Status t')"
    "\<not> n \<Longrightarrow> \<exists>r st. tm_store m = Some st \<and> find_record st (t_TaskID t') = Some r \<and> stored_view r = visible t'"
  shows "mirrors (commit n t' m)"
proof -
  from assms(1) obtain st where st: "tm_store m = Some st" "store_ready st" "\<not> tm_closed m"
    "wf_map (tm_tasks m)" "\<And>k t. map_get (tm_tasks m) k = Some t \<Longrightarrow> mirrored st k t"
    by (auto simp: mirrors_def)
  show ?thesis
  proof (cases n)
    case True
    have c: "commit n t' m = (put_task t' m)\<lparr>tm_store := Some (mem.sync st (record_of t'))\<rparr>"
      using True st by (simp add: commit_def syncTaskToStore_sync put_task_def)
    show ?thesis
      unfolding mirrors_def c
      using st assms(2-4) mem.ready_sync [OF st(2)] mem.lookup_sync [OF st(2), of "record_of t'"]
      by (auto simp: put_task_def mirrored_def)
  next
    case False
    then show ?thesis
      using st assms by (auto simp: mirrors_def commit_def put_task_def mirrored_def)
  qed
qed

lemma mirrors_task:
  assumes "mirrors m" "map_get (tm_tasks m) k = Some t"
  obtains st r where "tm_store m = Some st" "t_TaskID t = k" "k \<noteq> []" "log_open t"
    "known_status (t_Status t)" "find_record st k = Some r" "stored_view r = visible t"
  using assms unfolding mirrors_def mirrored_def by blast

lemma mirrors_op:
  assumes "mirrors m" "map_get (tm_tasks m) k = Some t" "writes_ok op"
  shows "mirrors (commit (step_notifies t op) (task_step t op) m)"
proof -
  from mirrors_task [OF assms(1,2)] obtain st r where t: "tm_store m = Some st" "t_TaskID t = k"
    "k \<noteq> []" "log_open t" "known_status (t_Status t)" "find_record st k = Some r" "stored_view r = visible t" .
  have "known_status (t_Status (task_step t op))" using moves_known status_step t(5) by blast
  moreover have "\<not> step_notifies t op \<Longrightarrow> visible (task_step t op) = visible t"
    using step_quiet_visible [OF t(4) assms(3) _ t(5)] by blast
  ultimately show ?thesis
    using t log_open_step [OF t(4)] by (intro mirrors_commit [OF assms(1)]) auto
qed

lemma mirrors_run_op: "mirrors m \<Longrightarrow> writes_ok op \<Longrightarrow> mirrors (run_op m k op)"
  by (auto simp: run_op_def mirrors_op split: option.splits)

lemma CancelTask_run_op: "snd (CancelTask w now m k reason) = run_op m k (OpCancel w now reason)"
  by (simp add: CancelTask_def run_op_def prod.case_eq_if split: option.splits)

lemma FailTask_run_op:
  "snd (FailTask ws now m k code msg) = run_op m k (OpFail (fst ws) (snd ws) now code msg)"
  by (simp add: FailTask_def run_op_def prod.case_eq_if split: option.splits)

lemma put_task_over: "t_TaskID u = t_TaskID t \<Longrightarrow> commit n u (put_task t m) = commit n u m"
proof -
  assume i: "t_TaskID u = t_TaskID t"
  have "AList.update k v (AList.update k w xs) = AList.update k v xs" for k v w and xs :: "ManagedTask gomap"
    by (induction xs) auto
  then show ?thesis
    using i by (auto simp: commit_def put_task_def map_put_def syncTaskToStore_def Let_def split: option.splits)
qed

lemma commit_put: "commit False t m = put_task t m"
  by (simp add: commit_def)

lemma mirrors_put_passive:
  assumes "mirrors m" "map_get (tm_tasks m) k = Some t" "writes_ok op" "\<not> step_notifies t op"
  shows "mirrors (put_task (task_step t op) m)"
  using mirrors_op [OF assms(1-3)] assms(4) by (simp add: commit_put)

lemma mirrors_SubmitReply:
  assumes "mirrors m"
  shows "mirrors (snd (SubmitReply WriteOk now m k q a))"
proof (cases "map_get (tm_tasks m) k")
  case (Some t)
  let ?b = "EventToolResult (Some \<lparr>trp_CallID = q, trp_Output = a, trp_IsError = False\<rparr>)"
  obtain e t1 where r: "ResolveQuery t q a = (e, t1)" by force
  then have t1: "t1 = task_step t (OpResolveQuery q a)" by simp
  have m1: "mirrors (put_task t1 m)"
    using mirrors_put_passive [OF assms Some, of "OpResolveQuery q a"] t1 by (simp add: writes_ok_def)
  have "t_TaskID t1 = t_TaskID t" unfolding t1 by (rule TaskID_step)
  then have "map_get (tm_tasks (put_task t1 m)) (t_TaskID t1) = Some t1" by (simp add: put_task_def)
  from mirrors_op [OF m1 this, of "OpEmit WriteOk now ?b"]
  have "mirrors (commit (snd (snd (EmitEvent WriteOk now t1 ?b))) (fst (snd (EmitEvent WriteOk now t1 ?b))) m)"
    by (simp add: writes_ok_def put_task_over)
  then show ?thesis
    using Some r m1 by (cases e) (simp_all add: SubmitReply_def GetTask_def prod.case_eq_if)
qed (use assms in \<open>simp add: SubmitReply_def GetTask_def\<close>)

lemma mirrors_Subscribe:
  assumes "mirrors m" shows "mirrors (snd (Subscribe m k since))"
proof (cases "map_get (tm_tasks m) k")
  case (Some t)
  then show ?thesis
    using mirrors_put_passive [OF assms Some, of "OpSubscribe since"]
    by (simp add: Subscribe_def GetTask_def prod.case_eq_if writes_ok_def)
qed (use assms in \<open>simp add: Subscribe_def GetTask_def\<close>)

lemma map_get_filter:
  "wf_map m \<Longrightarrow> map_get (filter (\<lambda>(_, v). P v) m) k = Some v \<Longrightarrow> map_get m k = Some v"
  by (auto simp: wf_map_def dest: map_of_SomeD)

lemma mirrors_cleanup: "mirrors m \<Longrightarrow> mirrors (CleanupExpiredTasks now m)"
  by (auto simp: mirrors_def CleanupExpiredTasks_def Let_def wf_map_def distinct_map_filter
      dest: map_get_filter [unfolded wf_map_def])

lemma mirrors_fail_each: "mirrors m \<Longrightarrow> mirrors (snd (fail_each (\<lambda>_. (WriteOk, WriteOk)) now code msg m ks))"
proof (induction ks arbitrary: m)
  case (Cons k ks)
  then have "mirrors (snd (FailTask (WriteOk, WriteOk) now m k code msg))"
    by (simp add: FailTask_run_op mirrors_run_op writes_ok_def)
  with Cons.IH show ?case by (simp add: prod.case_eq_if)
qed simp

lemma new_task_id_neq [simp]: "new_task_id now hx \<noteq> []"
  by (simp add: new_task_id_def)

lemma create_event:
  assumes "t = NewManagedTask now i req (Some l)" "\<not> lg_closed l"
  shows "\<exists>evt t'. EmitEvent WriteOk now t (EventStatus (Some \<lparr>sp_Status = TaskStatusQueued, sp_Message = []\<rparr>))
      = (Inr evt, t', False) \<and> t_TaskID t' = i \<and> visible t' = (TaskStatusQueued, 0, [], []) \<and> log_open t'"
proof -
  let ?b = "EventStatus (Some \<lparr>sp_Status = TaskStatusQueued, sp_Message = []\<rparr>)"
  let ?e = "EmitEvent WriteOk now t ?b"
  have st: "t_Status t = TaskStatusQueued" "log_open t" "t_TaskID t = i"
    "visible t = (TaskStatusQueued, 0, [], [])" "\<not> isTerminalLocked t"
    using assms by (simp_all add: NewManagedTask_def log_open_def visible_def error_message_def
        result_summary_def isTerminalLocked_def)
  have "log_open ((bump_seq t)\<lparr>t_LastActivityAt := unix now\<rparr>)"
    using st(2) by (simp add: log_open_def bump_seq_def)
  then have r: "fst ?e = Inr (next_event now ?b t)" "\<not> snd (snd ?e)"
    using st publish_ok_no_error
    by (simp_all add: EmitEvent_def Let_def bump_seq_def prod.case_eq_if option.case_eq_if)
  have "visible (fst (snd ?e)) = visible t" by (rule EmitEvent_quiet [OF r(2)])
  moreover have "log_open (fst (snd ?e))" using log_open_step [OF st(2), of "OpEmit WriteOk now ?b"] by simp
  moreover have "?e = (Inr (next_event now ?b t), fst (snd ?e), False)"
    using r by (metis (full_types) prod.collapse)
  moreover have "t_TaskID (fst (snd ?e)) = i" using st(3) by simp
  ultimately show ?thesis using st(4) by metis
qed

lemma mirrors_CreateTask:
  assumes "mirrors m"
  shows "mirrors (snd (CreateTask hx log_ok WriteOk now m req))"
proof (cases "hx = None \<or> \<not> log_ok")
  case True
  then show ?thesis using assms by (cases hx) (auto simp: CreateTask_def)
next
  case False
  then obtain h where h: "hx = Some h" "log_ok" by auto
  from assms obtain st where st: "tm_store m = Some st" "store_ready st" "\<not> tm_closed m"
    "wf_map (tm_tasks m)" "\<And>k t. map_get (tm_tasks m) k = Some t \<Longrightarrow> mirrored st k t"
    by (auto simp: mirrors_def)
  let ?i = "new_task_id now h"
  let ?req = "req\<lparr>rq_TaskID := ?i\<rparr>"
  let ?t = "NewManagedTask now ?i ?req (Some (open_log m ?i))"
  let ?r = "queued_record ?t ?req"
  have lo: "\<not> lg_closed (open_log m ?i)"
    by (simp add: open_log_def NewJSONLLogger_def split: option.splits)
  have rid: "tr_TaskID ?r = ?i" and rv: "stored_view ?r = (TaskStatusQueued, 0, [], [])"
    by (simp_all add: queued_record_def NewManagedTask_def stored_view_def)
  have sv: "fst (SaveTask False st ?r) = None"
    using st(2) rid by (simp add: SaveTask_def store_ready_def)
  from create_event [OF refl lo] obtain evt t' where e:
    "EmitEvent WriteOk now ?t (EventStatus (Some \<lparr>sp_Status = TaskStatusQueued, sp_Message = []\<rparr>)) = (Inr evt, t', False)"
    "t_TaskID t' = ?i" "visible t' = (TaskStatusQueued, 0, [], [])" "log_open t'" by blast
  have "snd (CreateTask hx log_ok WriteOk now m req) =
      put_task t' (m\<lparr>tm_store := Some (snd (SaveTask False st ?r))\<rparr>)"
    using h st sv e(1) by (simp add: CreateTask_def Let_def prod.case_eq_if commit_put)
  moreover have "known_status (t_Status t')" using e(3) by (simp add: visible_def known_status_def)
  ultimately show ?thesis
    using st e rid rv mem.ready_save [OF st(2)] mem.lookup_save [OF st(2), of ?r]
    by (auto simp: mirrors_def mirrored_def put_task_def)
qed

datatype manager_call =
  CallCreate "string option" bool int TaskRequest
  | CallCancel int string string
  | CallFail int string string string
  | CallReply int string string string
  | CallSubscribe string int
  | CallCleanup int
  | CallNodeLost int string string string
  | CallRunner string task_op

fun manager_step :: "TaskManager \<Rightarrow> manager_call \<Rightarrow> TaskManager" where
  "manager_step m (CallCreate hx log_ok now req) = snd (CreateTask hx log_ok WriteOk now m req)"
| "manager_step m (CallCancel now k reason) = snd (CancelTask WriteOk now m k reason)"
| "manager_step m (CallFail now k code msg) = snd (FailTask (WriteOk, WriteOk) now m k code msg)"
| "manager_step m (CallReply now k q a) = snd (SubmitReply WriteOk now m k q a)"
| "manager_step m (CallSubscribe k since) = snd (Subscribe m k since)"
| "manager_step m (CallCleanup now) = CleanupExpiredTasks now m"
| "manager_step m (CallNodeLost now node code msg) =
     snd (FailTasksOfNode (\<lambda>_. (WriteOk, WriteOk)) now m node code msg)"
| "manager_step m (CallRunner k op) = (if writes_ok op then run_op m k op else m)"

lemma mirrors_step: "mirrors m \<Longrightarrow> mirrors (manager_step m c)"
  by (cases c)
    (simp_all add: mirrors_CreateTask CancelTask_run_op FailTask_run_op mirrors_run_op
      mirrors_SubmitReply mirrors_Subscribe mirrors_cleanup mirrors_fail_each FailTasksOfNode_def
      writes_ok_def)

lemma mirrors_run: "mirrors m \<Longrightarrow> mirrors (foldl manager_step m cs)"
  by (induction cs arbitrary: m) (auto simp: mirrors_step)

lemma rehydrate_visible: "known_status (tr_Status r) \<Longrightarrow> visible (rehydrateTask f r) = stored_view r"
  by (simp add: visible_def stored_view_def rehydrateTask_def Let_def error_message_def
      result_summary_def no_completion_def)

lemma rehydrate_log_open: "log_open (rehydrateTask f r)"
  by (cases f) (auto simp: log_open_def rehydrateTask_def Let_def NewJSONLLogger_def)

lemma mirrors_rehydrate:
  assumes "mirrors m" "tm_store m = Some st" "find_record st (tr_TaskID r) = Some r"
    "known_status (tr_Status r)" "tr_TaskID r \<noteq> []"
  shows "mirrors (rehydrate_record m r)"
proof -
  have "mirrors (commit False (rehydrateTask (tm_files m (tr_TaskID r)) r) m)"
    using assms by (intro mirrors_commit) (auto simp: rehydrate_log_open rehydrate_visible)
  then show ?thesis using assms(5) by (simp add: commit_put put_task_def rehydrate_record_def)
qed

lemma mirrors_rehydrate_all:
  assumes "mirrors m" "tm_store m = Some st"
    "\<And>r. r \<in> set rs \<Longrightarrow> find_record st (tr_TaskID r) = Some r \<and> known_status (tr_Status r) \<and> tr_TaskID r \<noteq> []"
  shows "mirrors (foldl rehydrate_record m rs)"
  using assms
proof (induction rs arbitrary: m)
  case (Cons r rs)
  have "mirrors (rehydrate_record m r)" using Cons.prems by (intro mirrors_rehydrate) auto
  moreover have "tm_store (rehydrate_record m r) = Some st"
    using Cons.prems(2) by (simp add: rehydrate_record_def)
  ultimately show ?case using Cons by simp
qed simp

lemma mirrors_fail_pending: "mirrors m \<Longrightarrow> mirrors (foldl (fail_if_pending (\<lambda>_. (WriteOk, WriteOk)) now) m ks)"
proof (induction ks arbitrary: m)
  case (Cons k ks)
  have "mirrors (fail_if_pending (\<lambda>_. (WriteOk, WriteOk)) now m k)"
    using Cons.prems
    by (simp add: fail_if_pending_def FailTask_run_op mirrors_run_op writes_ok_def split: option.splits)
  with Cons.IH show ?case by simp
qed simp

lemma mirrors_start:
  assumes "store_ready st" "\<And>k r. find_record st k = Some r \<Longrightarrow> known_status (tr_Status r)"
    "NewTaskManager True (\<lambda>_. (WriteOk, WriteOk)) now ttl (Some st) files = Inr m"
  shows "mirrors m"
proof -
  let ?m0 = "\<lparr>tm_taskTTL = ttl, tm_store = Some st, tm_tasks = [], tm_closed = False, tm_files = files\<rparr>"
  let ?m1 = "foldl rehydrate_record ?m0 (list_all_records st)"
  have m: "m = foldl (fail_if_pending (\<lambda>_. (WriteOk, WriteOk)) now) ?m1 (map fst (tm_tasks ?m1))"
    using assms(3) by (auto simp: NewTaskManager_def Let_def list_all_records_def split: sum.splits)
  have "mirrors ?m0" using assms(1) by (simp add: mirrors_def)
  moreover have "find_record st (tr_TaskID r) = Some r \<and> known_status (tr_Status r) \<and> tr_TaskID r \<noteq> []"
    if "r \<in> set (list_all_records st)" for r
  proof -
    have f: "find_record st (tr_TaskID r) = Some r" using mem.records_lookup [OF assms(1), of r] that by simp
    then have "tr_TaskID r \<noteq> []"
      using assms(1) unfolding store_ready_def store_wf_iff by (metis assms(1) find_record_ready)
    with f assms(2) show ?thesis by blast
  qed
  ultimately have "mirrors ?m1" by (intro mirrors_rehydrate_all) auto
  then show ?thesis unfolding m by (rule mirrors_fail_pending)
qed


definition sample_manager :: TaskManager where
  "sample_manager = projr (NewTaskManager True (\<lambda>_. (WriteOk, WriteOk)) (nanos 5) 0
                       (Some NewMemoryStore) (\<lambda>_. None))"


end
