(* ===== verification/Federation.thy ===== *)
theory Federation
  imports Territory "HOL-Library.List_Lexorder" "HOL-Library.Char_ord"
begin

text \<open>
  Peering of coordinators and the search for territory conflicts across them:
  \<open>pkg/server/federation/manager.go\<close>.

  \<open>LocalSource\<close> and \<open>RunningSource\<close> are arguments (the territories they return). A synchronisation
  reads the peer, talks HTTP without the lock, and then updates the peer if it still exists: its
  two locked sections are \<open>SyncPeer_begin\<close> and \<open>SyncPeer_end\<close>, and what the network did in between
  is \<open>sync_outcome\<close>.
\<close>

section \<open>State\<close>

datatype PeerStatus = PeerStatusActive | PeerStatusDegraded | PeerStatusOffline

record PeerInfo =
  pi_PeerID :: string
  pi_ClusterName :: string
  pi_Endpoint :: string
  pi_Status :: PeerStatus
  pi_LastSync :: int

record PeerRegisterRequest =
  pr_PeerID :: string
  pr_ClusterName :: string
  pr_Endpoint :: string
  pr_AuthToken :: string

record peerEntry =
  pe_info :: PeerInfo
  pe_authToken :: string
  pe_failureCount :: nat
  pe_cachedManifest :: "TerritoryManifest option"

record TerritoryManager =
  fm_PeerID :: string
  fm_ClusterName :: string
  fm_MaxFailures :: int
  fm_peers :: "peerEntry gomap"

datatype peer_error = ErrPeerNotFound | ErrInvalidPeerInfo | ErrSelfPeering | ErrSync

definition NewTerritoryManager :: "string \<Rightarrow> string \<Rightarrow> int \<Rightarrow> TerritoryManager" where
  "NewTerritoryManager peerID clusterName maxFailures =
     \<lparr>fm_PeerID = (if peerID = [] then ''local-coordinator'' else peerID),
      fm_ClusterName = (if clusterName = [] then ''gentle-mesh'' else clusterName),
      fm_MaxFailures = (if maxFailures \<le> 0 then 3 else maxFailures), fm_peers = []\<rparr>"

section \<open>Peers\<close>

definition RegisterPeer ::
  "TerritoryManager \<Rightarrow> PeerRegisterRequest \<Rightarrow> (peer_error + PeerInfo) \<times> TerritoryManager" where
  "RegisterPeer tm req =
     (if pr_PeerID req = [] \<or> pr_Endpoint req = [] then (Inl ErrInvalidPeerInfo, tm)
      else if pr_PeerID req = fm_PeerID tm then (Inl ErrSelfPeering, tm)
      else
        let entry =
          (case map_get (fm_peers tm) (pr_PeerID req) of
             Some e \<Rightarrow>
               let info1 = (if pr_ClusterName req \<noteq> []
                            then (pe_info e)\<lparr>pi_ClusterName := pr_ClusterName req\<rparr> else pe_info e)
               in e\<lparr>pe_info := info1\<lparr>pi_Endpoint := pr_Endpoint req, pi_Status := PeerStatusActive\<rparr>,
                    pe_authToken := (if pr_AuthToken req \<noteq> [] then pr_AuthToken req else pe_authToken e),
                    pe_failureCount := 0\<rparr>
           | None \<Rightarrow>
               \<lparr>pe_info = \<lparr>pi_PeerID = pr_PeerID req, pi_ClusterName = pr_ClusterName req,
                           pi_Endpoint = pr_Endpoint req, pi_Status = PeerStatusActive,
                           pi_LastSync = 0\<rparr>,
                pe_authToken = pr_AuthToken req, pe_failureCount = 0, pe_cachedManifest = None\<rparr>)
        in (Inr (pe_info entry), tm\<lparr>fm_peers := map_put (fm_peers tm) (pr_PeerID req) entry\<rparr>))"

definition DeregisterPeer :: "TerritoryManager \<Rightarrow> string \<Rightarrow> peer_error option \<times> TerritoryManager" where
  "DeregisterPeer tm peerID =
     (case map_get (fm_peers tm) peerID of
        None \<Rightarrow> (Some ErrPeerNotFound, tm)
      | Some _ \<Rightarrow> (None, tm\<lparr>fm_peers := map_del (fm_peers tm) peerID\<rparr>))"

definition GetPeer :: "TerritoryManager \<Rightarrow> string \<Rightarrow> peer_error + PeerInfo" where
  "GetPeer tm peerID =
     (case map_get (fm_peers tm) peerID of
        None \<Rightarrow> Inl ErrPeerNotFound
      | Some e \<Rightarrow> Inr (pe_info e))"

definition ListPeers :: "TerritoryManager \<Rightarrow> PeerInfo list" where
  "ListPeers tm = sort_key pi_PeerID (map (\<lambda>(_, e). pe_info e) (fm_peers tm))"

section \<open>Manifests\<close>

definition LocalManifest :: "int \<Rightarrow> TerritoryManager \<Rightarrow> ActiveTerritory list \<Rightarrow> TerritoryManifest" where
  "LocalManifest now tm local =
     \<lparr>man_PeerID = fm_PeerID tm, man_ClusterName = fm_ClusterName tm, man_Timestamp = unix now,
      man_Territories = local\<rparr>"

definition RunningManifest ::
  "int \<Rightarrow> TerritoryManager \<Rightarrow> ActiveTerritory list \<Rightarrow> ActiveTerritory list option \<Rightarrow> TerritoryManifest" where
  "RunningManifest now tm local running =
     (let manifest = LocalManifest now tm local
      in case running of None \<Rightarrow> manifest | Some ts \<Rightarrow> manifest\<lparr>man_Territories := ts\<rparr>)"

text \<open>The cached manifests of the peers in ascending order of their ids.\<close>

definition sorted_ids :: "TerritoryManager \<Rightarrow> string list" where
  "sorted_ids tm = sort (map fst (fm_peers tm))"

definition peer_manifests :: "TerritoryManager \<Rightarrow> TerritoryManifest list" where
  "peer_manifests tm =
     List.map_filter (\<lambda>i. Option.bind (map_get (fm_peers tm) i) pe_cachedManifest) (sorted_ids tm)"

definition FederatedTerritories :: "TerritoryManager \<Rightarrow> ActiveTerritory list \<Rightarrow> ActiveTerritory list" where
  "FederatedTerritories tm local = local @ concat (map man_Territories (peer_manifests tm))"

definition FindFederatedConflict ::
  "(string \<Rightarrow> string) \<Rightarrow> int \<Rightarrow> TerritoryManager \<Rightarrow> ActiveTerritory list \<Rightarrow> ActiveTerritory \<Rightarrow>
   TerritoryConflict option" where
  "FindFederatedConflict sha now tm local target =
     (case FindConflict sha (LocalManifest now tm local) target of
        Some c \<Rightarrow> Some c
      | None \<Rightarrow> first_conflict (\<lambda>m. FindConflict sha m target) (peer_manifests tm))"

definition FindRunningConflict ::
  "(string \<Rightarrow> string) \<Rightarrow> int \<Rightarrow> TerritoryManager \<Rightarrow> ActiveTerritory list \<Rightarrow>
   ActiveTerritory list option \<Rightarrow> ActiveTerritory \<Rightarrow> TerritoryConflict option" where
  "FindRunningConflict sha now tm local running target =
     (case first_conflict (ClashesWithOther sha target)
             (man_Territories (RunningManifest now tm local running)) of
        Some c \<Rightarrow> Some c
      | None \<Rightarrow>
          first_conflict (\<lambda>m. first_conflict (ClashesWithOther sha target) (man_Territories m))
            (peer_manifests tm))"

section \<open>Synchronisation\<close>

datatype sync_outcome =
  SyncNetworkError
  | SyncResponse int "TerritoryManifest option"

definition manifest_url :: "string \<Rightarrow> string" where
  "manifest_url endpoint = rev (dropWhile (\<lambda>c. c = CHR ''/'') (rev endpoint)) @ ''/v1/mesh/territory''"

definition auth_header :: "string \<Rightarrow> string option" where
  "auth_header authToken =
     (if authToken = [] then None
      else if \<not> HasPrefix (ToLower authToken) ''bearer '' then Some (''Bearer '' @ authToken)
      else Some authToken)"

definition SyncPeer_begin ::
  "TerritoryManager \<Rightarrow> string \<Rightarrow> peer_error + (string \<times> string option)" where
  "SyncPeer_begin tm peerID =
     (case map_get (fm_peers tm) peerID of
        None \<Rightarrow> Inl ErrPeerNotFound
      | Some e \<Rightarrow> Inr (manifest_url (pi_Endpoint (pe_info e)), auth_header (pe_authToken e)))"

definition recordSyncFailure :: "TerritoryManager \<Rightarrow> string \<Rightarrow> TerritoryManager" where
  "recordSyncFailure tm peerID =
     (case map_get (fm_peers tm) peerID of
        None \<Rightarrow> tm
      | Some e \<Rightarrow>
          let n = Suc (pe_failureCount e);
              st = (if int n \<ge> fm_MaxFailures tm then PeerStatusOffline else PeerStatusDegraded)
          in tm\<lparr>fm_peers := map_put (fm_peers tm) peerID
                 (e\<lparr>pe_failureCount := n, pe_info := (pe_info e)\<lparr>pi_Status := st\<rparr>\<rparr>)\<rparr>)"

definition SyncPeer_end ::
  "int \<Rightarrow> TerritoryManager \<Rightarrow> string \<Rightarrow> sync_outcome \<Rightarrow> (peer_error + TerritoryManifest) \<times> TerritoryManager" where
  "SyncPeer_end now tm peerID out =
     (case out of
        SyncNetworkError \<Rightarrow> (Inl ErrSync, recordSyncFailure tm peerID)
      | SyncResponse code body \<Rightarrow>
          if code < 200 \<or> code \<ge> 300 then (Inl ErrSync, recordSyncFailure tm peerID)
          else case body of
            None \<Rightarrow> (Inl ErrSync, recordSyncFailure tm peerID)
          | Some manifest \<Rightarrow>
              (case map_get (fm_peers tm) peerID of
                 None \<Rightarrow> (Inl ErrPeerNotFound, tm)
               | Some e \<Rightarrow>
                   let info1 = (pe_info e)\<lparr>pi_Status := PeerStatusActive, pi_LastSync := unix now\<rparr>;
                       info2 = (if man_ClusterName manifest \<noteq> []
                                then info1\<lparr>pi_ClusterName := man_ClusterName manifest\<rparr> else info1)
                   in (Inr manifest,
                       tm\<lparr>fm_peers := map_put (fm_peers tm) peerID
                            (e\<lparr>pe_cachedManifest := Some manifest, pe_failureCount := 0,
                               pe_info := info2\<rparr>)\<rparr>)))"

definition SyncPeer ::
  "int \<Rightarrow> TerritoryManager \<Rightarrow> string \<Rightarrow> sync_outcome \<Rightarrow> (peer_error + TerritoryManifest) \<times> TerritoryManager" where
  "SyncPeer now tm peerID out =
     (case SyncPeer_begin tm peerID of
        Inl e \<Rightarrow> (Inl e, tm)
      | Inr _ \<Rightarrow> SyncPeer_end now tm peerID out)"

text \<open>\<open>SyncAll\<close> synchronises every registered peer in its own goroutine: the second sections run in
  some order.\<close>

definition SyncAll ::
  "int \<Rightarrow> (string \<Rightarrow> sync_outcome) \<Rightarrow> string list \<Rightarrow> TerritoryManager \<Rightarrow> TerritoryManager" where
  "SyncAll now outs order tm = foldl (\<lambda>m i. snd (SyncPeer_end now m i (outs i))) tm order"

section \<open>Peer health\<close>

datatype peer_call =
  PeerRegister PeerRegisterRequest
  | PeerDeregister string
  | PeerSynced int string sync_outcome

fun peer_step :: "TerritoryManager \<Rightarrow> peer_call \<Rightarrow> TerritoryManager" where
  "peer_step tm (PeerRegister req) = snd (RegisterPeer tm req)"
| "peer_step tm (PeerDeregister i) = snd (DeregisterPeer tm i)"
| "peer_step tm (PeerSynced now i out) = snd (SyncPeer_end now tm i out)"

definition health :: "int \<Rightarrow> nat \<Rightarrow> PeerStatus" where
  "health maxFailures n =
     (if n = 0 then PeerStatusActive
      else if int n \<ge> maxFailures then PeerStatusOffline else PeerStatusDegraded)"

definition peers_inv :: "TerritoryManager \<Rightarrow> bool" where
  "peers_inv tm \<longleftrightarrow>
     wf_map (fm_peers tm) \<and> 0 < fm_MaxFailures tm \<and> fm_PeerID tm \<noteq> [] \<and>
     (\<forall>i e. map_get (fm_peers tm) i = Some e \<longrightarrow>
        i \<noteq> [] \<and> i \<noteq> fm_PeerID tm \<and> pi_PeerID (pe_info e) = i \<and> pi_Endpoint (pe_info e) \<noteq> [] \<and>
        pi_Status (pe_info e) = health (fm_MaxFailures tm) (pe_failureCount e))"

lemma peers_inv_new: "peers_inv (NewTerritoryManager i c n)"
  by (simp add: peers_inv_def NewTerritoryManager_def)

lemma peers_inv_put:
  assumes "peers_inv tm" "i \<noteq> []" "i \<noteq> fm_PeerID tm" "pi_PeerID (pe_info e) = i"
    "pi_Endpoint (pe_info e) \<noteq> []"
    "pi_Status (pe_info e) = health (fm_MaxFailures tm) (pe_failureCount e)"
  shows "peers_inv (tm\<lparr>fm_peers := map_put (fm_peers tm) i e\<rparr>)"
  using assms unfolding peers_inv_def by simp

lemma peers_inv_entry:
  "peers_inv tm \<Longrightarrow> map_get (fm_peers tm) i = Some e \<Longrightarrow>
   i \<noteq> [] \<and> i \<noteq> fm_PeerID tm \<and> pi_PeerID (pe_info e) = i \<and> pi_Endpoint (pe_info e) \<noteq> []"
  unfolding peers_inv_def by blast

lemma peers_inv_register: "peers_inv tm \<Longrightarrow> peers_inv (snd (RegisterPeer tm req))"
  by (cases "map_get (fm_peers tm) (pr_PeerID req)")
    (auto simp: RegisterPeer_def Let_def health_def intro!: peers_inv_put dest: peers_inv_entry)

lemma peers_inv_failure: "peers_inv tm \<Longrightarrow> peers_inv (recordSyncFailure tm i)"
  by (auto simp: recordSyncFailure_def Let_def health_def intro!: peers_inv_put
      dest: peers_inv_entry split: option.splits)

lemma peers_inv_sync: "peers_inv tm \<Longrightarrow> peers_inv (snd (SyncPeer_end now tm i out))"
  by (auto simp: SyncPeer_end_def Let_def peers_inv_failure health_def intro!: peers_inv_put
      dest: peers_inv_entry split: sync_outcome.splits option.splits)

lemma peers_inv_deregister: "peers_inv tm \<Longrightarrow> peers_inv (snd (DeregisterPeer tm i))"
  by (auto simp: DeregisterPeer_def peers_inv_def split: option.splits)

lemma peers_inv_step: "peers_inv tm \<Longrightarrow> peers_inv (peer_step tm c)"
  by (cases c) (simp_all add: peers_inv_register peers_inv_sync peers_inv_deregister)

text \<open>Peer health is the failure count: over any sequence of registrations, removals and finished
  synchronisations in any interleaving, the table never holds the coordinator itself, and a peer
  is active exactly when its last synchronisation succeeded (or none was tried since it
  registered), offline exactly after at least \<open>MaxFailures\<close> failures in a row, degraded between.\<close>

theorem peer_health:
  "peers_inv (foldl peer_step (NewTerritoryManager peerID clusterName maxFailures) cs)"
proof -
  have "peers_inv tm \<Longrightarrow> peers_inv (foldl peer_step tm cs)" for tm
    by (induction cs arbitrary: tm) (auto simp: peers_inv_step)
  then show ?thesis using peers_inv_new by blast
qed

section \<open>Conflicts across the mesh\<close>

lemma first_conflict_app:
  "first_conflict f (xs @ ys) = (case first_conflict f xs of Some c \<Rightarrow> Some c | None \<Rightarrow> first_conflict f ys)"
  by (induction xs) (auto split: option.splits)

lemma first_conflict_concat:
  "first_conflict f (concat xss) = first_conflict (first_conflict f) xss"
  by (induction xss) (auto simp: first_conflict_app split: option.splits)

lemma first_conflict_map: "first_conflict f (map g xs) = first_conflict (\<lambda>x. f (g x)) xs"
  by (induction xs) (auto split: option.splits)

lemma first_conflict_manifests:
  "first_conflict (\<lambda>m. first_conflict f (man_Territories m)) ms =
   first_conflict f (concat (map man_Territories ms))"
  by (simp only: first_conflict_concat first_conflict_map)

lemma FindRunningConflict_eq:
  "FindRunningConflict sha now tm local (Some running) target =
     first_conflict (ClashesWithOther sha target) (FederatedTerritories tm running)"
  unfolding FindRunningConflict_def first_conflict_manifests
  by (simp add: FederatedTerritories_def LocalManifest_def RunningManifest_def Let_def first_conflict_app)

text \<open>The conflict search is one pass over the federated territories: \<open>FindConflict\<close> of the
  manager returns the first collision in the list that \<open>FederatedTerritories\<close> reports, and the
  running variant the first in the running territories followed by the peers' cached ones, where
  records of the same task do not count.\<close>

theorem conflict_search_is_federated:
  "FindFederatedConflict sha now tm local target =
     first_conflict (ClashesWith sha target) (FederatedTerritories tm local) \<and>
   FindRunningConflict sha now tm local (Some running) target =
     first_conflict (ClashesWithOther sha target) (FederatedTerritories tm running)"
  unfolding FindFederatedConflict_def FindConflict_def FindRunningConflict_eq first_conflict_manifests
  by (simp add: FederatedTerritories_def LocalManifest_def first_conflict_app)

lemma FindRunningConflict_None:
  "FindRunningConflict sha now tm local (Some running) target = None \<longleftrightarrow>
     (\<forall>u \<in> set (FederatedTerritories tm running). ClashesWithOther sha target u = None)"
  by (simp only: FindRunningConflict_eq first_conflict_None)

end
