(* ===== verification/Scheduler.thy ===== *)
theory Scheduler
  imports Task_Persistence Federation Branch_Locks
begin

text \<open>
  The territory scheduler of the coordinator: \<open>pkg/server/http/scheduler.go\<close>.

  The scheduler's pointers to tasks are task ids into the task manager's table; a queue entry
  also keeps the task's request, which never changes. A task that the manager has purged is
  finished, and dispatching a finished task fails, so such an entry stays in the queue as it does
  in the code. \<open>sc_ending\<close> holds the tasks whose runner goroutine has released the branch lock in
  \<open>complete\<close> and has not yet entered its critical section. The federation's territory sources
  are the task manager's, as \<open>server.go\<close> wires them. \<open>sha\<close> is the SHA-256 of the fingerprints.
\<close>

section \<open>State\<close>

type_synonym queue_entry = "string \<times> TaskRequest"

record TerritoryScheduler =
  sc_mode :: TerritoryMode
  sc_queue :: "queue_entry list"
  sc_running :: "string list"
  sc_ending :: "string list"
  sc_tm :: TaskManager
  sc_fed :: TerritoryManager
  sc_locks :: lock_table

datatype sched_error =
  SchedLocked lock_error | SchedTask task_error | SchedAlreadyRunning | SchedConflict string
  | SchedNoTask

definition NewTerritoryScheduler ::
  "TerritoryMode \<Rightarrow> TaskManager \<Rightarrow> TerritoryManager \<Rightarrow> lock_table \<Rightarrow> TerritoryScheduler" where
  "NewTerritoryScheduler mode tm fed locks =
     \<lparr>sc_mode = (if TerritoryMode_Valid mode then mode else TerritoryModeQueue), sc_queue = [],
      sc_running = [], sc_ending = [], sc_tm = tm, sc_fed = fed, sc_locks = locks\<rparr>"

definition SetMode :: "TerritoryScheduler \<Rightarrow> TerritoryMode \<Rightarrow> TerritoryScheduler" where
  "SetMode s m = (if TerritoryMode_Valid m then s\<lparr>sc_mode := m\<rparr> else s)"

definition QueuedTasks :: "TerritoryScheduler \<Rightarrow> string list" where
  "QueuedTasks s = map fst (sc_queue s)"

definition RunningTasks :: "TerritoryScheduler \<Rightarrow> string list" where
  "RunningTasks s = sort (sc_running s)"

section \<open>The priority queue\<close>

definition ClampPriority :: "int \<Rightarrow> int" where
  "ClampPriority p = (if p < -100 then -100 else if p > 100 then 100 else p)"

definition priority_of :: "queue_entry \<Rightarrow> int" where
  "priority_of q = ClampPriority (rq_Priority (snd q))"

definition insertPos :: "queue_entry \<Rightarrow> queue_entry list \<Rightarrow> nat" where
  "insertPos e q = length (takeWhile (\<lambda>x. \<not> priority_of e > priority_of x) q)"

definition enqueueByPriority :: "queue_entry \<Rightarrow> queue_entry list \<Rightarrow> queue_entry list" where
  "enqueueByPriority e q = take (insertPos e q) q @ e # drop (insertPos e q) q"

section \<open>Locks and conflicts\<close>

definition lock_request :: "ManagedTask \<Rightarrow> string \<times> string" where
  "lock_request t = (rq_GitRepo (t_Request t), rq_GitBranch (t_Request t))"

definition claimBranchLock :: "int \<Rightarrow> lock_table \<Rightarrow> ManagedTask \<Rightarrow> lock_error option \<times> lock_table" where
  "claimBranchLock now locks t =
     (if rq_GitRepo (t_Request t) = [] \<or> rq_GitBranch (t_Request t) = [] then (None, locks)
      else ClaimLock now locks (rq_GitRepo (t_Request t)) (rq_GitBranch (t_Request t)) (t_TaskID t))"

definition releaseBranchLock :: "lock_table \<Rightarrow> ManagedTask \<Rightarrow> lock_table" where
  "releaseBranchLock locks t =
     (if rq_GitRepo (t_Request t) = [] \<or> rq_GitBranch (t_Request t) = [] then locks
      else snd (ReleaseLock locks (rq_GitRepo (t_Request t)) (rq_GitBranch (t_Request t)) (t_TaskID t)))"

definition findConflict ::
  "(string \<Rightarrow> string) \<Rightarrow> int \<Rightarrow> TerritoryScheduler \<Rightarrow> ManagedTask \<Rightarrow> TerritoryConflict option" where
  "findConflict sha now s t =
     FindRunningConflict sha now (sc_fed s) (ActiveTerritories (sc_tm s))
       (Some (RunningTerritories (sc_tm s))) (TerritoryOf t)"

section \<open>Dispatching\<close>

definition sched_task :: "TerritoryScheduler \<Rightarrow> string \<Rightarrow> ManagedTask option" where
  "sched_task s i = GetTask (sc_tm s) i"

definition dispatchUnderLock ::
  "write_outcome \<Rightarrow> int \<Rightarrow> TerritoryScheduler \<Rightarrow> string \<Rightarrow> sched_error option \<times> TerritoryScheduler" where
  "dispatchUnderLock w now s i =
     (case sched_task s i of
        None \<Rightarrow> (Some SchedNoTask, s)
      | Some t \<Rightarrow>
          (case claimBranchLock now (sc_locks s) t of
             (Some e, _) \<Rightarrow> (Some (SchedLocked e), s)
           | (None, locks1) \<Rightarrow>
               (case TransitionTo w now t TaskStatusRunning of
                  (Some e, t1, notify) \<Rightarrow>
                    (Some (SchedTask e), s\<lparr>sc_tm := commit notify t1 (sc_tm s),
                                           sc_locks := releaseBranchLock locks1 t1\<rparr>)
                | (None, t1, notify) \<Rightarrow>
                    (None, s\<lparr>sc_tm := commit notify t1 (sc_tm s), sc_locks := locks1,
                             sc_running := List.insert i (sc_running s)\<rparr>))))"

definition Dispatch ::
  "write_outcome \<Rightarrow> int \<Rightarrow> TerritoryScheduler \<Rightarrow> string \<Rightarrow> sched_error option \<times> TerritoryScheduler" where
  "Dispatch w now s i =
     (if i \<in> set (sc_running s) then (Some SchedAlreadyRunning, s) else dispatchUnderLock w now s i)"

fun drain_scan ::
  "(string \<Rightarrow> string) \<Rightarrow> (string \<Rightarrow> write_outcome) \<Rightarrow> int \<Rightarrow> TerritoryScheduler \<Rightarrow> queue_entry list \<Rightarrow>
   queue_entry list \<times> string list \<times> TerritoryScheduler" where
  "drain_scan sha ws now s [] = ([], [], s)"
| "drain_scan sha ws now s (e # q) =
     (case sched_task s (fst e) of
        None \<Rightarrow> (case drain_scan sha ws now s q of (kept, started, s') \<Rightarrow> (e # kept, started, s'))
      | Some t \<Rightarrow>
          if findConflict sha now s t \<noteq> None
          then (case drain_scan sha ws now s q of (kept, started, s') \<Rightarrow> (e # kept, started, s'))
          else (case dispatchUnderLock (ws (fst e)) now s (fst e) of
                  (Some _, s1) \<Rightarrow>
                    (case drain_scan sha ws now s1 q of (kept, started, s') \<Rightarrow> (e # kept, started, s'))
                | (None, s1) \<Rightarrow>
                    (case drain_scan sha ws now s1 q of
                       (kept, started, s') \<Rightarrow> (kept, fst e # started, s'))))"

definition drainUnderLock ::
  "(string \<Rightarrow> string) \<Rightarrow> (string \<Rightarrow> write_outcome) \<Rightarrow> int \<Rightarrow> TerritoryScheduler \<Rightarrow>
   string list \<times> TerritoryScheduler" where
  "drainUnderLock sha ws now s =
     (case drain_scan sha ws now s (sc_queue s) of
        (kept, toStart, s') \<Rightarrow> (toStart, s'\<lparr>sc_queue := kept\<rparr>))"

definition emitConflictWarning ::
  "write_outcome \<Rightarrow> int \<Rightarrow> TerritoryScheduler \<Rightarrow> string \<Rightarrow> TerritoryConflict \<Rightarrow> TerritoryScheduler" where
  "emitConflictWarning w now s i c =
     s\<lparr>sc_tm := run_op (sc_tm s) i
         (OpEmit w now (EventThought (Some (''territory conflict warning: '' @ tc_Message c))))\<rparr>"

definition enqueue :: "TerritoryScheduler \<Rightarrow> ManagedTask \<Rightarrow> TerritoryScheduler" where
  "enqueue s t = s\<lparr>sc_queue := enqueueByPriority (t_TaskID t, t_Request t) (sc_queue s)\<rparr>"

definition Schedule ::
  "(string \<Rightarrow> string) \<Rightarrow> write_outcome \<Rightarrow> write_outcome \<Rightarrow> int \<Rightarrow> TerritoryScheduler \<Rightarrow> string \<Rightarrow>
   (bool \<times> sched_error option) \<times> TerritoryScheduler" where
  "Schedule sha w w' now s i =
     (case sched_task s i of
        None \<Rightarrow> ((False, Some SchedNoTask), s)
      | Some t \<Rightarrow>
          (case sc_mode s of
             TerritoryModeDisabled \<Rightarrow>
               (let (e, s1) = Dispatch w now s i in ((False, e), s1))
           | TerritoryModeStrict \<Rightarrow>
               (case findConflict sha now s t of
                  Some c \<Rightarrow> ((False, Some (SchedConflict (''territory conflict: '' @ tc_Message c))), s)
                | None \<Rightarrow> (let (e, s1) = dispatchUnderLock w now s i in ((False, e), s1)))
           | TerritoryModeWarn \<Rightarrow>
               (let s1 = (case findConflict sha now s t of
                            Some c \<Rightarrow> emitConflictWarning w' now s i c | None \<Rightarrow> s);
                    (e, s2) = Dispatch w now s1 i
                in ((False, e), s2))
           | _ \<Rightarrow>
               (if findConflict sha now s t \<noteq> None then ((True, None), enqueue s t)
                else case dispatchUnderLock w now s i of
                       (None, s1) \<Rightarrow> ((False, None), s1)
                     | (Some (SchedLocked ErrBranchLocked), s1) \<Rightarrow> ((True, None), enqueue s1 t)
                     | (Some e, s1) \<Rightarrow> ((False, Some e), s1))))"

definition CancelQueued ::
  "write_outcome \<Rightarrow> int \<Rightarrow> TerritoryScheduler \<Rightarrow> string \<Rightarrow> string \<Rightarrow> bool \<times> TerritoryScheduler" where
  "CancelQueued w now s taskID reason =
     (case find (\<lambda>e. fst e = taskID) (sc_queue s) of
        None \<Rightarrow> (False, s)
      | Some e \<Rightarrow>
          (True, s\<lparr>sc_queue := remove1 e (sc_queue s),
                   sc_tm := snd (CancelTask w now (sc_tm s) taskID reason)\<rparr>))"

section \<open>The end of a task\<close>

definition complete_release :: "TerritoryScheduler \<Rightarrow> string \<Rightarrow> TerritoryScheduler" where
  "complete_release s i =
     (case sched_task s i of
        None \<Rightarrow> s\<lparr>sc_ending := i # sc_ending s\<rparr>
      | Some t \<Rightarrow> s\<lparr>sc_locks := releaseBranchLock (sc_locks s) t, sc_ending := i # sc_ending s\<rparr>)"

definition complete_drain ::
  "(string \<Rightarrow> string) \<Rightarrow> (string \<Rightarrow> write_outcome) \<Rightarrow> int \<Rightarrow> TerritoryScheduler \<Rightarrow> string \<Rightarrow>
   string list \<times> TerritoryScheduler" where
  "complete_drain sha ws now s i =
     drainUnderLock sha ws now (s\<lparr>sc_running := removeAll i (sc_running s),
                                  sc_ending := removeAll i (sc_ending s)\<rparr>)"

definition notifyWebhooks :: "ManagedTask \<Rightarrow> (string \<times> string) option" where
  "notifyWebhooks t =
     (case t_Status t of
        TaskStatusCompleted \<Rightarrow> Some (''task.completed'', [])
      | TaskStatusFailed \<Rightarrow>
          (case t_Error t of
             None \<Rightarrow> Some (''task.failed'', ''task failed'')
           | Some e \<Rightarrow>
               Some (if ep_Code e = ''TASK_TIMEOUT'' \<or> ep_Code e = ''TASK_INACTIVITY_TIMEOUT''
                     then ''task.timeout'' else ''task.failed'', ep_Message e))
      | _ \<Rightarrow> None)"

section \<open>The runner loop\<close>

datatype runner_error = DeadlineExceeded | ContextCanceled | NodeLost | OtherError string

fun failureCause :: "runner_error \<Rightarrow> string \<times> string" where
  "failureCause DeadlineExceeded = (''TASK_TIMEOUT'', ''task timeout'')"
| "failureCause ContextCanceled = (''TASK_CANCELED'', ''task canceled'')"
| "failureCause NodeLost = (''NODE_LOST'', ''node lost: stream ended without a result'')"
| "failureCause (OtherError msg) = (''DISPATCH_FAILED'', ''dispatch failed: '' @ msg)"

definition retryableCause :: "runner_error \<Rightarrow> bool" where
  "retryableCause err \<longleftrightarrow> fst (failureCause err) = ''DISPATCH_FAILED''"

fun error_text :: "runner_error \<Rightarrow> string" where
  "error_text DeadlineExceeded = ''context deadline exceeded''"
| "error_text ContextCanceled = ''context canceled''"
| "error_text NodeLost = ''node lost''"
| "error_text (OtherError msg) = msg"

definition failTask ::
  "write_outcome \<times> write_outcome \<Rightarrow> write_outcome \<Rightarrow> int \<Rightarrow> TaskManager \<Rightarrow> string \<Rightarrow> string \<Rightarrow> string \<Rightarrow>
   TaskManager" where
  "failTask ws w now m i code message =
     (case FailTask ws now m i code message of
        (None, m1) \<Rightarrow> m1
      | (Some _, m1) \<Rightarrow> run_op m1 i (OpSetStatus w now TaskStatusFailed))"

definition handleRetry ::
  "write_outcome \<Rightarrow> int \<Rightarrow> TaskManager \<Rightarrow> ManagedTask \<Rightarrow> runner_error \<Rightarrow> int option \<times> TaskManager" where
  "handleRetry w now m t lastErr =
     (let currentRetry = t_retryAttempts t; maxRetries = rq_MaxRetries (t_Request t) in
      if \<not> retryableCause lastErr \<or> currentRetry \<ge> maxRetries then (None, m)
      else
        let retryDelay = (if rq_RetryDelay (t_Request t) \<le> 0 then 30 else rq_RetryDelay (t_Request t));
            m1 = run_op m (t_TaskID t) OpRetry;
            m2 = run_op m1 (t_TaskID t) (OpEmit w now (EventRetry (Some
                   \<lparr>rp_RetryNumber = currentRetry + 1, rp_MaxRetries = maxRetries,
                    rp_RetryAfterSec = retryDelay, rp_LastError = error_text lastErr\<rparr>)))
        in (Some (nanos retryDelay), m2))"

text \<open>One attempt of the runner goroutine: what the runner does to the task, how \<open>Run\<close> ends, and how
  the wait before a retry ends (\<open>None\<close>: the timer fired; \<open>Some deadline\<close>: the context was done,
  by its deadline or by cancellation).\<close>

datatype run_result = RunOk | RunErr runner_error | RunPanic string

record attempt =
  try_ops :: "task_op list"
  try_result :: run_result
  try_wait :: "bool option"
  try_now :: int
  try_writes :: "write_outcome \<times> write_outcome"

definition run_attempt :: "TaskManager \<Rightarrow> string \<Rightarrow> attempt \<Rightarrow> bool \<times> TaskManager" where
  "run_attempt m i a =
     (let m1 = foldl (\<lambda>m op. run_op m i op) m (try_ops a); now = try_now a; ws = try_writes a in
      case try_result a of
        RunOk \<Rightarrow> (False, m1)
      | RunPanic msg \<Rightarrow>
          let m2 = run_op m1 i (OpEmit (fst ws) now (EventError
                     (Some \<lparr>ep_Code = ''RUNNER_PANIC'', ep_Message = ''runner panicked: '' @ msg,
                            ep_Fatal = True\<rparr>)))
          in (False, failTask ws (fst ws) now m2 i ''RUNNER_PANIC'' (''runner panicked: '' @ msg))
      | RunErr err \<Rightarrow>
          (case map_get (tm_tasks m1) i of
             None \<Rightarrow> (False, m1)
           | Some t \<Rightarrow>
               if terminal_status (t_Status t) then (False, m1)
               else case handleRetry (fst ws) now m1 t err of
                      (None, m2) \<Rightarrow>
                        (False, failTask ws (fst ws) now m2 i (fst (failureCause err)) (snd (failureCause err)))
                    | (Some delay, m2) \<Rightarrow>
                        (case try_wait a of
                           None \<Rightarrow> (True, m2)
                         | Some deadline \<Rightarrow>
                             (False, if deadline then failTask ws (fst ws) now m2 i ''TASK_TIMEOUT'' ''task timeout''
                                     else m2))))"

text \<open>The loop over the attempts that the environment provides: the number of calls of \<open>Run\<close>, whether
  the loop has ended, and the manager.\<close>

fun runner_loop :: "TaskManager \<Rightarrow> string \<Rightarrow> attempt list \<Rightarrow> nat \<times> bool \<times> TaskManager" where
  "runner_loop m i [] = (0, False, m)"
| "runner_loop m i (a # as) =
     (case run_attempt m i a of
        (False, m1) \<Rightarrow> (1, True, m1)
      | (True, m1) \<Rightarrow> (case runner_loop m1 i as of (n, ended, m2) \<Rightarrow> (Suc n, ended, m2)))"

section \<open>The handlers around the scheduler\<close>

text \<open>The end of \<open>handleCreateTask\<close>: create the task and schedule it; a scheduling error cancels it.\<close>

definition submit ::
  "(string \<Rightarrow> string) \<Rightarrow> string option \<Rightarrow> bool \<Rightarrow> (nat \<Rightarrow> write_outcome) \<Rightarrow> int \<Rightarrow> string \<Rightarrow>
   TerritoryScheduler \<Rightarrow> TaskRequest \<Rightarrow> TerritoryScheduler" where
  "submit sha hx log_ok w now errtext s req =
     (case CreateTask hx log_ok (w 0) now (sc_tm s) req of
        (Inl _, m1) \<Rightarrow> s\<lparr>sc_tm := m1\<rparr>
      | (Inr t, m1) \<Rightarrow>
          (case Schedule sha (w 1) (w 2) now (s\<lparr>sc_tm := m1\<rparr>) (t_TaskID t) of
             ((_, None), s2) \<Rightarrow> s2
           | ((_, Some e), s2) \<Rightarrow>
               s2\<lparr>sc_tm := snd (CancelTask (w 3) now (sc_tm s2) (t_TaskID t) errtext)\<rparr>))"

definition handleCancelTask ::
  "(string \<Rightarrow> string) \<Rightarrow> write_outcome \<Rightarrow> (string \<Rightarrow> write_outcome) \<Rightarrow> int \<Rightarrow> TerritoryScheduler \<Rightarrow> string \<Rightarrow>
   string \<Rightarrow> TerritoryScheduler" where
  "handleCancelTask sha w ws now s i reason =
     (case sched_task s i of
        None \<Rightarrow> s
      | Some t \<Rightarrow>
          (case CancelQueued w now s i reason of
             (True, s1) \<Rightarrow> s1
           | (False, _) \<Rightarrow>
               (case CancelTask w now (sc_tm s) i reason of
                  (Some _, m1) \<Rightarrow> s\<lparr>sc_tm := m1\<rparr>
                | (None, m1) \<Rightarrow>
                    snd (drainUnderLock sha ws now
                           (s\<lparr>sc_tm := m1, sc_locks := releaseBranchLock (sc_locks s) t\<rparr>)))))"

datatype sched_op =
  SchSubmit "string option" bool "nat \<Rightarrow> write_outcome" int string TaskRequest
  | SchDrain "string \<Rightarrow> write_outcome" int
  | SchRelease string
  | SchComplete "string \<Rightarrow> write_outcome" int string
  | SchCancel write_outcome "string \<Rightarrow> write_outcome" int string string
  | SchRun string task_op
  | SchCleanup int
  | SchSetMode TerritoryMode

text \<open>Task ids are new (a nanosecond clock reading and random bytes), and a runner goroutine ends once.\<close>

definition new_id :: "TerritoryScheduler \<Rightarrow> int \<Rightarrow> string option \<Rightarrow> bool" where
  "new_id s now hx \<longleftrightarrow>
     (case hx of
        None \<Rightarrow> True
      | Some h \<Rightarrow>
          let i = new_task_id now h
          in sched_task s i = None \<and> i \<notin> set (sc_running s) \<and> i \<notin> fst ` set (sc_queue s))"

fun sched_step :: "(string \<Rightarrow> string) \<Rightarrow> TerritoryScheduler \<Rightarrow> sched_op \<Rightarrow> TerritoryScheduler" where
  "sched_step sha s (SchSubmit hx log_ok w now errtext req) =
     (if new_id s now hx then submit sha hx log_ok w now errtext s req else s)"
| "sched_step sha s (SchDrain ws now) = snd (drainUnderLock sha ws now s)"
| "sched_step sha s (SchRelease i) =
     (if i \<in> set (sc_running s) \<and> i \<notin> set (sc_ending s) then complete_release s i else s)"
| "sched_step sha s (SchComplete ws now i) =
     (if i \<in> set (sc_ending s) then snd (complete_drain sha ws now s i) else s)"
| "sched_step sha s (SchCancel w ws now i reason) = handleCancelTask sha w ws now s i reason"
| "sched_step sha s (SchRun i op) = s\<lparr>sc_tm := run_op (sc_tm s) i op\<rparr>"
| "sched_step sha s (SchCleanup now) = s\<lparr>sc_tm := CleanupExpiredTasks now (sc_tm s)\<rparr>"
| "sched_step sha s (SchSetMode md) = SetMode s md"

end
