(* ===== verification/Scheduler_Safety.thy ===== *)
theory Scheduler_Safety
  imports Scheduler
begin

text \<open>
  Safety of the scheduler over all interleavings of submissions, drains, endings, cancellations
  and runner operations: branch exclusion of running tasks, the order of the queue, and what a
  drain does. The lock facts come from the interpretation \<open>branch_lock\<close> of the locale
  \<open>exclusive_lock\<close>.
\<close>

section \<open>Evolution of the task table\<close>

definition evolves :: "TaskManager \<Rightarrow> TaskManager \<Rightarrow> bool" where
  "evolves m m' \<longleftrightarrow>
     (wf_map (tm_tasks m) \<longrightarrow> wf_map (tm_tasks m')) \<and>
     (\<forall>j t'. map_get (tm_tasks m') j = Some t' \<longrightarrow>
        (\<exists>t. map_get (tm_tasks m) j = Some t \<and> identity t' = identity t \<and>
             (isTerminalLocked t \<longrightarrow> isTerminalLocked t')))"

lemma evolves_refl [simp]: "evolves m m"
  by (simp add: evolves_def)

lemma evolves_keyed: "evolves m m' \<Longrightarrow> keyed m \<Longrightarrow> keyed m'"
  by (fastforce simp: evolves_def keyed_def identity_def)

lemma terminal_step: "isTerminalLocked t \<Longrightarrow> isTerminalLocked (task_step t op)"
  using terminal_step_outcome [of t op] outcome_terminal [of "task_step t op" t] by simp

lemma evolves_commit:
  "keyed m \<Longrightarrow> map_get (tm_tasks m) i = Some t \<Longrightarrow> evolves m (commit n (task_step t op) m)"
  by (auto simp: evolves_def keyed_def identity_step terminal_step)

lemma evolves_run_op: "keyed m \<Longrightarrow> evolves m (run_op m i op)"
  by (auto simp: run_op_def evolves_commit split: option.splits)

lemma evolves_cancel: "keyed m \<Longrightarrow> evolves m (snd (CancelTask w now m i reason))"
  by (simp add: CancelTask_run_op evolves_run_op)

lemma evolves_cleanup: "wf_map (tm_tasks m) \<Longrightarrow> evolves m (CleanupExpiredTasks now m)"
  by (auto simp: CleanupExpiredTasks_def Let_def evolves_def wf_map_def distinct_map_filter
      dest: map_get_filter [unfolded wf_map_def])

lemma cancel_task_ends:
  "fst (cancel_task w now t reason) = None \<Longrightarrow> isTerminalLocked (fst (snd (cancel_task w now t reason)))"
  by (simp add: cancel_task_def Let_def isTerminalLocked_def cancel_fields bump_seq_def
      stamp_finished_def split: if_splits)

lemma CancelTask_terminal:
  assumes "CancelTask w now m i reason = (None, m')" "keyed m" "map_get (tm_tasks m') i = Some t'"
  shows "isTerminalLocked t'"
proof -
  from assms(1) obtain t where t: "map_get (tm_tasks m) i = Some t"
    by (auto simp: CancelTask_def split: option.splits)
  have "t_TaskID t = i" using t assms(2) by (simp add: keyed_def)
  then have "t_TaskID (fst (snd (cancel_task w now t reason))) = i"
    using identity_cancel [of w now t reason] by (simp add: identity_def)
  then have "fst (cancel_task w now t reason) = None" "t' = fst (snd (cancel_task w now t reason))"
    using assms t by (auto simp: CancelTask_def split_beta)
  then show ?thesis using cancel_task_ends by simp
qed

section \<open>Branch exclusion\<close>

lemma claimBranchLock_call:
  "claim_call now locks (lock_request t) (t_TaskID t) =
   (fst (claimBranchLock now locks t) = None, snd (claimBranchLock now locks t))"
  by (auto simp: claimBranchLock_def claim_call_def lock_request_def ClaimLock_def makeBranchKey_def
      normalizeRepo_def TrimSpace_def TrimLeftSpace_def Let_def split_beta)

lemma releaseBranchLock_call:
  "snd (release_call locks (lock_request t) (t_TaskID t)) = releaseBranchLock locks t"
  by (auto simp: releaseBranchLock_def release_call_def lock_request_def ReleaseLock_def
      makeBranchKey_def normalizeRepo_def TrimSpace_def TrimLeftSpace_def Let_def split_beta)

lemma claim_gives:
  assumes "claimBranchLock now locks t = (None, locks1)" "lock_key (lock_request t) = Some k"
  shows "lock_holder locks1 k = Some (t_TaskID t)"
  using branch_lock.claim_holder [OF assms(2), of now locks "t_TaskID t" k] assms(1)
  by (simp add: claimBranchLock_call)

lemma claim_keeps_others:
  "claimBranchLock now locks t = (None, locks1) \<Longrightarrow> lock_holder locks k = Some j \<Longrightarrow>
   lock_holder locks1 k = Some j"
  using branch_lock.claim_keeps [of locks k j now "lock_request t" "t_TaskID t"]
  by (simp add: claimBranchLock_call)

lemma release_keeps_others:
  "lock_holder locks k = Some j \<Longrightarrow> j \<noteq> t_TaskID t \<Longrightarrow>
   lock_holder (releaseBranchLock locks t) k = Some j"
  using branch_lock.release_keeps [of locks k j "lock_request t" "t_TaskID t"]
  by (simp add: releaseBranchLock_call)

definition lock_inv :: "TerritoryScheduler \<Rightarrow> bool" where
  "lock_inv s \<longleftrightarrow>
     keyed (sc_tm s) \<and> wf_map (tm_tasks (sc_tm s)) \<and>
     (\<forall>i t k. i \<in> set (sc_running s) \<and> i \<notin> set (sc_ending s) \<and> sched_task s i = Some t \<and>
        \<not> isTerminalLocked t \<and> lock_key (lock_request t) = Some k \<longrightarrow> lock_holder (sc_locks s) k = Some i)"

lemma lock_inv_evolves: "lock_inv s \<Longrightarrow> evolves (sc_tm s) m' \<Longrightarrow> lock_inv (s\<lparr>sc_tm := m'\<rparr>)"
  unfolding lock_inv_def
  by (auto simp: evolves_keyed sched_task_def GetTask_def evolves_def identity_def lock_request_def) metis

lemma lock_inv_locks:
  assumes "lock_inv s"
    "\<And>k j. lock_holder (sc_locks s) k = Some j \<Longrightarrow> j \<noteq> i \<Longrightarrow> lock_holder locks' k = Some j"
    "i \<notin> set (sc_running s) \<or> i \<in> set (sc_ending s) \<or> (\<forall>t. sched_task s i = Some t \<longrightarrow> isTerminalLocked t)"
  shows "lock_inv (s\<lparr>sc_locks := locks'\<rparr>)"
  using assms unfolding lock_inv_def sched_task_def by simp blast

text \<open>A dispatch in three parts: what it does to the tasks, to the locks, and to the running set.\<close>

lemma dispatch_frame:
  assumes "dispatchUnderLock w now s i = (e, s')"
  shows "sc_queue s' = sc_queue s \<and> sc_ending s' = sc_ending s \<and> sc_mode s' = sc_mode s \<and>
    sc_fed s' = sc_fed s \<and>
    sc_running s' = (if e = None then List.insert i (sc_running s) else sc_running s)"
  using assms by (auto simp: dispatchUnderLock_def split: option.splits prod.splits if_splits)

lemma dispatch_evolves:
  assumes "keyed (sc_tm s)" "dispatchUnderLock w now s i = (e, s')"
  shows "evolves (sc_tm s) (sc_tm s')"
proof (cases "sched_task s i")
  case (Some t)
  then have get: "map_get (tm_tasks (sc_tm s)) i = Some t" by (simp add: sched_task_def GetTask_def)
  have "evolves (sc_tm s) (commit n (fst (snd (TransitionTo w now t TaskStatusRunning))) (sc_tm s))" for n
    using evolves_commit [OF assms(1) get, of n "OpTransition w now TaskStatusRunning"] by simp
  then show ?thesis using assms(2) Some
    by (auto simp: dispatchUnderLock_def split: option.splits prod.splits)
qed (use assms(2) in \<open>simp add: dispatchUnderLock_def\<close>)

lemma dispatch_ok:
  assumes "dispatchUnderLock w now s i = (None, s')"
  obtains t t1 n locks1 where "sched_task s i = Some t" "claimBranchLock now (sc_locks s) t = (None, locks1)"
    "TransitionTo w now t TaskStatusRunning = (None, t1, n)"
    "s' = s\<lparr>sc_tm := commit n t1 (sc_tm s), sc_locks := locks1, sc_running := List.insert i (sc_running s)\<rparr>"
  using assms by (auto simp: dispatchUnderLock_def split: option.splits prod.splits)

lemma dispatch_fail:
  assumes "dispatchUnderLock w now s i = (Some e, s')"
  shows "s' = s \<or> (\<exists>t t1 n locks1 e'. sched_task s i = Some t \<and>
    claimBranchLock now (sc_locks s) t = (None, locks1) \<and>
    TransitionTo w now t TaskStatusRunning = (Some e', t1, n) \<and>
    s' = s\<lparr>sc_tm := commit n t1 (sc_tm s), sc_locks := releaseBranchLock locks1 t1\<rparr>)"
proof (cases "sched_task s i")
  case (Some t)
  obtain le locks1 where c: "claimBranchLock now (sc_locks s) t = (le, locks1)" by force
  obtain te t1 n where tr: "TransitionTo w now t TaskStatusRunning = (te, t1, n)" by (metis prod_cases3)
  show ?thesis using assms Some c tr
    by (cases le; cases te) (auto simp: dispatchUnderLock_def)
qed (use assms in \<open>simp add: dispatchUnderLock_def\<close>)

lemma transition_identity:
  "TransitionTo w now t st = (e, t1, n) \<Longrightarrow> identity t1 = identity t"
  using identity_TransitionTo [of w now t st] by simp

lemma lock_inv_dispatch:
  assumes inv: "lock_inv s" and ni: "i \<notin> set (sc_running s)" and d: "dispatchUnderLock w now s i = (e, s')"
  shows "lock_inv s'"
proof -
  have key: "keyed (sc_tm s)" using inv by (simp add: lock_inv_def)
  have ev: "evolves (sc_tm s) (sc_tm s')" by (rule dispatch_evolves [OF key d])
  have m: "lock_inv (s\<lparr>sc_tm := sc_tm s'\<rparr>)" by (rule lock_inv_evolves [OF inv ev])
  show ?thesis
  proof (cases e)
    case None
    with d obtain t t1 n locks1 where t: "sched_task s i = Some t"
      "claimBranchLock now (sc_locks s) t = (None, locks1)"
      "TransitionTo w now t TaskStatusRunning = (None, t1, n)"
      and s': "s' = s\<lparr>sc_tm := commit n t1 (sc_tm s), sc_locks := locks1, sc_running := List.insert i (sc_running s)\<rparr>"
      by (auto elim: dispatch_ok)
    have tid: "t_TaskID t = i" using t(1) key by (simp add: sched_task_def GetTask_def keyed_def)
    have id1: "t_TaskID t1 = i" "lock_request t1 = lock_request t"
      using transition_identity [OF t(3)] tid by (simp_all add: identity_def lock_request_def)
    have l: "lock_inv (s\<lparr>sc_tm := sc_tm s', sc_locks := locks1\<rparr>)"
      using lock_inv_locks [OF m, of i locks1] claim_keeps_others [OF t(2)] ni by simp
    have "lock_holder locks1 k = Some i" if "lock_key (lock_request t1) = Some k" for k
      using claim_gives [OF t(2)] that tid id1(2) by simp
    then show ?thesis
      using l id1(1) unfolding lock_inv_def s' by (auto simp: sched_task_def GetTask_def)
  next
    case (Some e')
    show ?thesis
    proof (cases "s' = s")
      case False
      with dispatch_fail [of w now s i e' s'] d Some obtain t t1 n locks1 e'' where
        t: "sched_task s i = Some t" "claimBranchLock now (sc_locks s) t = (None, locks1)"
          "TransitionTo w now t TaskStatusRunning = (Some e'', t1, n)"
        and s': "s' = s\<lparr>sc_tm := commit n t1 (sc_tm s), sc_locks := releaseBranchLock locks1 t1\<rparr>"
        by blast
      have "t_TaskID t1 = i"
        using transition_identity [OF t(3)] t(1) key by (simp add: identity_def sched_task_def GetTask_def keyed_def)
      then have "lock_inv (s\<lparr>sc_tm := sc_tm s', sc_locks := releaseBranchLock locks1 t1\<rparr>)"
        using lock_inv_locks [OF m, of i "releaseBranchLock locks1 t1"] ni
          claim_keeps_others [OF t(2)] release_keeps_others by auto
      then show ?thesis by (simp add: s')
    qed (use inv in simp)
  qed
qed

lemma dispatch_tasks:
  assumes "keyed (sc_tm s)" "dispatchUnderLock w now s i = (e, s')" "j \<noteq> i"
  shows "sched_task s' j = sched_task s j"
proof (cases "sched_task s i")
  case (Some t)
  have tid: "t_TaskID t = i" using Some assms(1) by (simp add: sched_task_def GetTask_def keyed_def)
  obtain le locks1 where c: "claimBranchLock now (sc_locks s) t = (le, locks1)" by force
  obtain te t1 n where tr: "TransitionTo w now t TaskStatusRunning = (te, t1, n)" by (metis prod_cases3)
  have "t_TaskID t1 = i" using transition_identity [OF tr] tid by (simp add: identity_def)
  then show ?thesis using assms(2,3) Some c tr
    by (cases le; cases te) (auto simp: dispatchUnderLock_def sched_task_def GetTask_def)
qed (use assms(2) in \<open>simp add: dispatchUnderLock_def\<close>)

section \<open>Draining\<close>

lemma drain_scan_frame:
  assumes "drain_scan sha ws now s q = (kept, started, s')"
  shows "sc_queue s' = sc_queue s \<and> sc_ending s' = sc_ending s \<and> sc_mode s' = sc_mode s \<and>
    sc_fed s' = sc_fed s \<and> set (sc_running s') = set started \<union> set (sc_running s)"
  using assms
proof (induction q arbitrary: s kept started s')
  case (Cons e q)
  show ?case
  proof (cases "sched_task s (fst e) = None \<or> findConflict sha now s (the (sched_task s (fst e))) \<noteq> None")
    case True
    then obtain kept' where "drain_scan sha ws now s q = (kept', started, s')"
      using Cons.prems by (auto split: prod.splits option.splits if_splits)
    from Cons.IH [OF this] show ?thesis .
  next
    case False
    obtain err s1 where d: "dispatchUnderLock (ws (fst e)) now s (fst e) = (err, s1)" by force
    obtain kept' started' s2 where r: "drain_scan sha ws now s1 q = (kept', started', s2)" by (metis prod_cases3)
    have "s' = s2 \<and> set started = (if err = None then {fst e} else {}) \<union> set started'"
      using Cons.prems False d r by (cases err) auto
    then show ?thesis using Cons.IH [OF r] dispatch_frame [OF d] by auto
  qed
qed simp

lemma drain_scan_started:
  assumes "drain_scan sha ws now s q = (kept, started, s')" "distinct (map fst q)"
  shows "kept = filter (\<lambda>e. fst e \<notin> set started) q \<and> set started \<subseteq> fst ` set q \<and> distinct started"
  using assms
proof (induction q arbitrary: s kept started s')
  case (Cons e q)
  have ne: "fst e \<notin> fst ` set q" "distinct (map fst q)" using Cons.prems(2) by auto
  show ?case
  proof (cases "sched_task s (fst e) = None \<or> findConflict sha now s (the (sched_task s (fst e))) \<noteq> None")
    case True
    then obtain kept' where r: "drain_scan sha ws now s q = (kept', started, s')" and k: "kept = e # kept'"
      using Cons.prems(1) by (auto split: prod.splits option.splits if_splits)
    from Cons.IH [OF r ne(2)] ne(1) k show ?thesis by auto
  next
    case False
    obtain err s1 where d: "dispatchUnderLock (ws (fst e)) now s (fst e) = (err, s1)" by force
    obtain kept' started' s2 where r: "drain_scan sha ws now s1 q = (kept', started', s2)" by (metis prod_cases3)
    have ih: "kept' = filter (\<lambda>e. fst e \<notin> set started') q \<and> set started' \<subseteq> fst ` set q \<and> distinct started'"
      by (rule Cons.IH [OF r ne(2)])
    show ?thesis
    proof (cases err)
      case None
      then have k: "kept = kept' \<and> started = fst e # started'" using Cons.prems(1) False d r by auto
      have "filter (\<lambda>x. fst x \<notin> set (fst e # started')) q = filter (\<lambda>x. fst x \<notin> set started') q"
        using ne(1) by (intro filter_cong refl) (metis image_eqI set_ConsD list.set_intros(2))
      then show ?thesis using ih k ne(1) by auto
    next
      case (Some x)
      then have "kept = e # kept' \<and> started = started'" using Cons.prems(1) False d r by auto
      then show ?thesis using ih ne(1) by auto
    qed
  qed
qed simp

lemma drain_scan_lock_inv:
  assumes "lock_inv s" "distinct (map fst q)" "fst ` set q \<inter> set (sc_running s) = {}"
    "drain_scan sha ws now s q = (kept, started, s')"
  shows "lock_inv s'"
  using assms
proof (induction q arbitrary: s kept started s')
  case (Cons e q)
  have ne: "fst e \<notin> set (sc_running s)" "fst e \<notin> fst ` set q" using Cons.prems by auto
  show ?case
  proof (cases "sched_task s (fst e) = None \<or> findConflict sha now s (the (sched_task s (fst e))) \<noteq> None")
    case True
    then obtain kept' where r: "drain_scan sha ws now s q = (kept', started, s')"
      using Cons.prems(4) by (auto split: prod.splits option.splits if_splits)
    show ?thesis using Cons.IH [OF Cons.prems(1) _ _ r] Cons.prems by auto
  next
    case False
    obtain err s1 where d: "dispatchUnderLock (ws (fst e)) now s (fst e) = (err, s1)" by force
    obtain kept' started' s2 where r: "drain_scan sha ws now s1 q = (kept', started', s2)" by (metis prod_cases3)
    have "s' = s2" using Cons.prems(4) False d r by (cases err) auto
    moreover have "fst ` set q \<inter> set (sc_running s1) = {}"
      using dispatch_frame [OF d] ne Cons.prems(3) by auto
    ultimately show ?thesis
      using Cons.IH [OF lock_inv_dispatch [OF Cons.prems(1) ne(1) d] _ _ r] Cons.prems(2) by auto
  qed
qed simp

section \<open>The queue\<close>

lemma lower_after_first:
  assumes "sorted_wrt (\<lambda>a b. f b \<le> f a) q" "y \<in> set (dropWhile (\<lambda>x. \<not> f x < p) q)"
  shows "f y < (p :: int)"
  using assms
proof (induction q)
  case (Cons x q)
  show ?case
  proof (cases "f x < p")
    case True
    with Cons.prems have "y \<in> set (x # q)" by simp
    then have "f y \<le> f x" using Cons.prems(1) by auto
    with True show ?thesis by simp
  next
    case False
    with Cons.prems have "y \<in> set (dropWhile (\<lambda>x. \<not> f x < p) q)" by simp
    with Cons show ?thesis by simp
  qed
qed simp

lemma enqueue_parts:
  assumes "sorted_wrt (\<lambda>a b. priority_of b \<le> priority_of a) q"
  obtains xs ys where "q = xs @ ys" "enqueueByPriority e q = xs @ e # ys"
    "\<forall>x \<in> set xs. priority_of e \<le> priority_of x" "\<forall>y \<in> set ys. priority_of y < priority_of e"
proof -
  let ?P = "\<lambda>x. \<not> priority_of e > priority_of x"
  have "q = takeWhile ?P q @ dropWhile ?P q" by simp
  moreover have "enqueueByPriority e q = takeWhile ?P q @ e # dropWhile ?P q"
    unfolding enqueueByPriority_def insertPos_def
    by (simp add: takeWhile_eq_take [symmetric] dropWhile_eq_drop [symmetric])
  moreover have "\<forall>x \<in> set (takeWhile ?P q). priority_of e \<le> priority_of x"
    by (auto dest!: set_takeWhileD)
  moreover have "\<forall>y \<in> set (dropWhile ?P q). priority_of y < priority_of e"
    using lower_after_first [OF assms] by blast
  ultimately show thesis by (rule that)
qed

definition queue_inv :: "TerritoryScheduler \<Rightarrow> bool" where
  "queue_inv s \<longleftrightarrow>
     sorted_wrt (\<lambda>a b. priority_of b \<le> priority_of a) (sc_queue s) \<and>
     distinct (map fst (sc_queue s)) \<and> fst ` set (sc_queue s) \<inter> set (sc_running s) = {}"

lemma queue_inv_enqueue:
  assumes "queue_inv s" "t_TaskID t \<notin> fst ` set (sc_queue s)" "t_TaskID t \<notin> set (sc_running s)"
  shows "queue_inv (enqueue s t)"
proof -
  let ?e = "(t_TaskID t, t_Request t)"
  from assms(1) obtain xs ys where q: "sc_queue s = xs @ ys" "enqueueByPriority ?e (sc_queue s) = xs @ ?e # ys"
    "\<forall>x \<in> set xs. priority_of ?e \<le> priority_of x" "\<forall>y \<in> set ys. priority_of y < priority_of ?e"
    unfolding queue_inv_def by (metis enqueue_parts)
  have "sorted_wrt (\<lambda>a b. priority_of b \<le> priority_of a) (xs @ ?e # ys)"
    using assms(1) q(1,3,4) by (auto simp: queue_inv_def sorted_wrt_append less_imp_le)
  moreover have "distinct (map fst (xs @ ?e # ys))"
    using assms(1,2) q(1) by (auto simp: queue_inv_def)
  moreover have "fst ` set (xs @ ?e # ys) \<inter> set (sc_running s) = {}"
    using assms(1,3) q(1) by (auto simp: queue_inv_def)
  ultimately show ?thesis by (simp add: queue_inv_def enqueue_def q(2))
qed

lemma queue_inv_drain:
  assumes "queue_inv s" "drainUnderLock sha ws now s = (started, s')"
  shows "queue_inv s'"
proof -
  from assms(2) obtain kept s1 where r: "drain_scan sha ws now s (sc_queue s) = (kept, started, s1)"
    and s': "s' = s1\<lparr>sc_queue := kept\<rparr>"
    by (auto simp: drainUnderLock_def split: prod.splits)
  have "kept = filter (\<lambda>e. fst e \<notin> set started) (sc_queue s)"
    using drain_scan_started [OF r] assms(1) by (simp add: queue_inv_def)
  then show ?thesis
    using drain_scan_frame [OF r] assms(1) s'
    by (auto simp: queue_inv_def sorted_wrt_filter distinct_map_filter)
qed

lemma lock_inv_queue [simp]: "lock_inv (s\<lparr>sc_queue := q\<rparr>) = lock_inv s"
  by (simp add: lock_inv_def sched_task_def)

lemma lock_inv_mode [simp]: "lock_inv (s\<lparr>sc_mode := md\<rparr>) = lock_inv s"
  by (simp add: lock_inv_def sched_task_def)

lemma lock_inv_drain:
  assumes "lock_inv s" "queue_inv s" "drainUnderLock sha ws now s = (started, s')"
  shows "lock_inv s'"
proof -
  from assms(3) obtain kept s1 where r: "drain_scan sha ws now s (sc_queue s) = (kept, started, s1)"
    and s': "s' = s1\<lparr>sc_queue := kept\<rparr>"
    by (auto simp: drainUnderLock_def split: prod.splits)
  then show ?thesis using drain_scan_lock_inv [OF assms(1) _ _ r] assms(2) by (simp add: queue_inv_def)
qed

section \<open>Steps\<close>

definition sched_inv :: "TerritoryScheduler \<Rightarrow> bool" where
  "sched_inv s \<longleftrightarrow> lock_inv s \<and> queue_inv s"

lemma sched_inv_tasks: "sched_inv s \<Longrightarrow> evolves (sc_tm s) m' \<Longrightarrow> sched_inv (s\<lparr>sc_tm := m'\<rparr>)"
  by (simp add: sched_inv_def lock_inv_evolves queue_inv_def)

lemma sched_inv_keyed: "sched_inv s \<Longrightarrow> keyed (sc_tm s) \<and> wf_map (tm_tasks (sc_tm s))"
  by (simp add: sched_inv_def lock_inv_def)

lemma sched_inv_drain: "sched_inv s \<Longrightarrow> sched_inv (snd (drainUnderLock sha ws now s))"
  using lock_inv_drain queue_inv_drain by (simp add: sched_inv_def) (metis prod.collapse)

lemma sched_inv_dispatch:
  assumes "sched_inv s" "i \<notin> set (sc_running s)" "i \<notin> fst ` set (sc_queue s)"
    "dispatchUnderLock w now s i = (e, s')"
  shows "sched_inv s'"
  using assms lock_inv_dispatch [OF _ assms(2,4)] dispatch_frame [OF assms(4)]
  by (auto simp: sched_inv_def queue_inv_def)

lemma sched_inv_Dispatch:
  "sched_inv s \<Longrightarrow> i \<notin> fst ` set (sc_queue s) \<Longrightarrow> sched_inv (snd (Dispatch w now s i))"
  using sched_inv_dispatch [of s i w now] by (simp add: Dispatch_def) (metis prod.collapse)

lemma sched_inv_enqueue:
  "sched_inv s \<Longrightarrow> t_TaskID t \<notin> fst ` set (sc_queue s) \<Longrightarrow> t_TaskID t \<notin> set (sc_running s) \<Longrightarrow>
   sched_inv (enqueue s t)"
  by (simp add: sched_inv_def queue_inv_enqueue) (simp add: enqueue_def)

lemma sched_inv_warning:
  "sched_inv s \<Longrightarrow> sched_inv (emitConflictWarning w now s i c)"
  by (simp add: emitConflictWarning_def sched_inv_tasks evolves_run_op sched_inv_keyed)

lemma sched_inv_queue_mode:
  assumes "sched_inv s" "sched_task s i = Some t" "i \<notin> set (sc_running s)" "i \<notin> fst ` set (sc_queue s)"
  shows "sched_inv (snd (if findConflict sha now s t \<noteq> None then ((True, None), enqueue s t)
                else case dispatchUnderLock w now s i of
                       (None, s1) \<Rightarrow> ((False, None), s1)
                     | (Some (SchedLocked ErrBranchLocked), s1) \<Rightarrow> ((True, None), enqueue s1 t)
                     | (Some e, s1) \<Rightarrow> ((False, Some e), s1)))"
proof -
  have tid: "t_TaskID t = i" using assms(1,2) sched_inv_keyed by (auto simp: sched_task_def GetTask_def keyed_def)
  obtain e s1 where d: "dispatchUnderLock w now s i = (e, s1)" by force
  have s1: "sched_inv s1" by (rule sched_inv_dispatch [OF assms(1,3,4) d])
  have "sched_inv (enqueue s1 t)" if "e \<noteq> None"
    using s1 dispatch_frame [OF d] that tid assms(3,4) by (intro sched_inv_enqueue) auto
  moreover have "sched_inv (enqueue s t)" using assms tid by (intro sched_inv_enqueue) auto
  ultimately show ?thesis
    using s1 d by (auto split: option.splits sched_error.splits lock_error.splits)
qed

lemma sched_inv_Schedule:
  assumes "sched_inv s" "i \<notin> set (sc_running s)" "i \<notin> fst ` set (sc_queue s)"
  shows "sched_inv (snd (Schedule sha w w' now s i))"
proof (cases "sched_task s i")
  case (Some t)
  have warn: "sched_inv (snd (Dispatch w now (case findConflict sha now s t of
      Some c \<Rightarrow> emitConflictWarning w' now s i c | None \<Rightarrow> s) i))"
    using assms sched_inv_Dispatch [OF sched_inv_warning [OF assms(1)]] sched_inv_Dispatch [OF assms(1)]
    by (auto simp: emitConflictWarning_def split: option.splits)
  have strict: "sched_inv (snd (dispatchUnderLock w now s i))"
    using sched_inv_dispatch [OF assms] by (metis prod.collapse)
  note q = sched_inv_queue_mode [OF assms(1) Some assms(2,3), of sha now w]
  show ?thesis
    using q warn strict assms sched_inv_Dispatch [OF assms(1,3), of w now]
    by (cases "sc_mode s") (auto simp: Schedule_def Some Let_def split_beta split: option.splits)
qed (use assms in \<open>simp add: Schedule_def\<close>)

lemma CreateTask_result:
  assumes "CreateTask hx log_ok w now m req = (r, m1)"
  shows "(case r of
     Inl _ \<Rightarrow> tm_tasks m1 = tm_tasks m
   | Inr t \<Rightarrow> \<exists>h. hx = Some h \<and> t_TaskID t = new_task_id now h \<and>
       tm_tasks m1 = map_put (tm_tasks m) (t_TaskID t) t)"
proof (cases "tm_closed m \<or> hx = None \<or> \<not> log_ok")
  case True
  then show ?thesis using assms by (cases hx) (auto simp: CreateTask_def split: if_splits)
next
  case False
  then obtain h where h: "hx = Some h" "log_ok" "\<not> tm_closed m" by auto
  let ?t = "NewManagedTask now (new_task_id now h) (req\<lparr>rq_TaskID := new_task_id now h\<rparr>)
              (Some (open_log m (new_task_id now h)))"
  have tid: "t_TaskID ?t = new_task_id now h" by (simp add: NewManagedTask_def)
  have ab: "tm_tasks (abandon_log i l m') = tm_tasks m'" for i l m'
    by (simp add: abandon_log_def split: option.splits)
  obtain se m2 where sv: "(case tm_store m of None \<Rightarrow> (None, m) | Some st \<Rightarrow>
      let (e, st') = SaveTask False st (queued_record ?t (req\<lparr>rq_TaskID := new_task_id now h\<rparr>))
      in (e, m\<lparr>tm_store := Some st'\<rparr>)) = (se, m2)" by force
  then have m2: "tm_tasks m2 = tm_tasks m" by (auto simp: split_beta split: option.splits)
  obtain er t' n where em: "EmitEvent w now ?t (EventStatus (Some \<lparr>sp_Status = TaskStatusQueued, sp_Message = []\<rparr>))
      = (er, t', n)" by (metis prod_cases3)
  then have "t_TaskID t' = new_task_id now h"
    using TaskID_EmitEvent [of w now ?t] tid by (metis fst_conv snd_conv)
  then show ?thesis
    using assms h sv em m2 by (cases se; cases er) (auto simp: CreateTask_def Let_def ab)
qed

lemma sched_inv_create:
  assumes "sched_inv s" "new_id s now (Some h)" "t_TaskID t = new_task_id now h"
    "tm_tasks m1 = map_put (tm_tasks (sc_tm s)) (t_TaskID t) t"
  shows "sched_inv (s\<lparr>sc_tm := m1\<rparr>)"
  using assms
  by (auto simp: sched_inv_def lock_inv_def queue_inv_def sched_task_def GetTask_def keyed_def
      new_id_def Let_def split: if_splits)

lemma sched_inv_submit:
  assumes "sched_inv s" "new_id s now hx"
  shows "sched_inv (submit sha hx log_ok w now errtext s req)"
proof -
  obtain r m1 where c: "CreateTask hx log_ok (w 0) now (sc_tm s) req = (r, m1)" by force
  show ?thesis
  proof (cases r)
    case (Inl e)
    then have "evolves (sc_tm s) m1" using CreateTask_result [OF c] by (simp add: evolves_def)
    then show ?thesis using c Inl assms(1) by (simp add: submit_def sched_inv_tasks)
  next
    case (Inr t)
    then obtain h where h: "hx = Some h" "t_TaskID t = new_task_id now h"
      "tm_tasks m1 = map_put (tm_tasks (sc_tm s)) (t_TaskID t) t"
      using CreateTask_result [OF c] by auto
    have s1: "sched_inv (s\<lparr>sc_tm := m1\<rparr>)" using sched_inv_create assms h by blast
    have fresh: "t_TaskID t \<notin> set (sc_running s)" "t_TaskID t \<notin> fst ` set (sc_queue s)"
      using assms(2) h(1,2) by (auto simp: new_id_def Let_def)
    obtain qd e s2 where sc: "Schedule sha (w 1) (w 2) now (s\<lparr>sc_tm := m1\<rparr>) (t_TaskID t) = ((qd, e), s2)"
      by (metis prod.exhaust)
    have "sched_inv s2" using sched_inv_Schedule [OF s1, of "t_TaskID t" sha "w 1" "w 2" now] fresh sc by simp
    then show ?thesis
      using c Inr sc
      by (cases e) (auto simp: submit_def intro!: sched_inv_tasks evolves_cancel dest: sched_inv_keyed)
  qed
qed

lemma sched_inv_release:
  assumes "sched_inv s"
  shows "sched_inv (complete_release s i)"
proof -
  have e: "sched_inv (s\<lparr>sc_ending := i # sc_ending s\<rparr>)"
    using assms by (auto simp: sched_inv_def lock_inv_def queue_inv_def sched_task_def)
  show ?thesis
  proof (cases "sched_task s i")
    case (Some t)
    have "t_TaskID t = i" using assms Some sched_inv_keyed by (auto simp: sched_task_def GetTask_def keyed_def)
    then have "lock_inv (s\<lparr>sc_ending := i # sc_ending s, sc_locks := releaseBranchLock (sc_locks s) t\<rparr>)"
      using e lock_inv_locks [of "s\<lparr>sc_ending := i # sc_ending s\<rparr>" i "releaseBranchLock (sc_locks s) t"]
        release_keeps_others by (auto simp: sched_inv_def)
    then have "lock_inv (s\<lparr>sc_locks := releaseBranchLock (sc_locks s) t, sc_ending := i # sc_ending s\<rparr>)"
      by (simp add: lock_inv_def sched_task_def)
    then show ?thesis using e Some by (simp add: complete_release_def sched_inv_def queue_inv_def)
  qed (use e in \<open>simp add: complete_release_def\<close>)
qed

lemma sched_inv_complete:
  assumes "sched_inv s" shows "sched_inv (snd (complete_drain sha ws now s i))"
proof -
  have "sched_inv (s\<lparr>sc_running := removeAll i (sc_running s), sc_ending := removeAll i (sc_ending s)\<rparr>)"
    using assms by (auto simp: sched_inv_def lock_inv_def queue_inv_def sched_task_def)
  then show ?thesis by (simp add: complete_drain_def sched_inv_drain)
qed

lemma sched_inv_cancel:
  assumes "sched_inv s" shows "sched_inv (handleCancelTask sha w ws now s i reason)"
proof (cases "sched_task s i")
  case (Some t)
  have key: "keyed (sc_tm s)" using sched_inv_keyed [OF assms] by simp
  have tid: "t_TaskID t = i" using Some key by (simp add: sched_task_def GetTask_def keyed_def)
  have ev: "evolves (sc_tm s) (snd (CancelTask w now (sc_tm s) i reason))" by (rule evolves_cancel [OF key])
  have t: "sched_inv (s\<lparr>sc_tm := snd (CancelTask w now (sc_tm s) i reason)\<rparr>)"
    by (rule sched_inv_tasks [OF assms ev])
  show ?thesis
  proof (cases "find (\<lambda>e. fst e = i) (sc_queue s)")
    case (Some e)
    have "sorted_wrt (\<lambda>a b. priority_of b \<le> priority_of a) (remove1 e (sc_queue s))"
      "distinct (map fst (remove1 e (sc_queue s)))"
      using assms by (auto simp: sched_inv_def queue_inv_def distinct_remove1_removeAll distinct_map_filter
          removeAll_filter_not_eq sorted_wrt_filter distinct_map elim: inj_on_subset)
    moreover have "fst ` set (remove1 e (sc_queue s)) \<inter> set (sc_running s) = {}"
      using assms set_remove1_subset [of e "sc_queue s"] unfolding sched_inv_def queue_inv_def by blast
    ultimately show ?thesis
      using Some \<open>sched_task s i = Some t\<close> t
      by (simp add: handleCancelTask_def CancelQueued_def sched_inv_def queue_inv_def lock_inv_def sched_task_def)
  next
    case None
    obtain e m1 where c: "CancelTask w now (sc_tm s) i reason = (e, m1)" by force
    show ?thesis
    proof (cases e)
      case None
      have fin: "isTerminalLocked t'" if "map_get (tm_tasks m1) i = Some t'" for t'
        using CancelTask_terminal [of w now "sc_tm s" i reason m1 t'] c None key that by simp
      have "lock_inv (s\<lparr>sc_tm := m1, sc_locks := releaseBranchLock (sc_locks s) t\<rparr>)"
        using t c lock_inv_locks [of "s\<lparr>sc_tm := m1\<rparr>" i "releaseBranchLock (sc_locks s) t"]
          release_keeps_others tid fin by (auto simp: sched_inv_def sched_task_def GetTask_def)
      then have "sched_inv (s\<lparr>sc_tm := m1, sc_locks := releaseBranchLock (sc_locks s) t\<rparr>)"
        using t c by (simp add: sched_inv_def queue_inv_def)
      then show ?thesis
        using None c \<open>find _ _ = None\<close> \<open>sched_task s i = Some t\<close>
        by (simp add: handleCancelTask_def CancelQueued_def sched_inv_drain)
    next
      case (Some x)
      then show ?thesis
        using c t \<open>find _ _ = None\<close> \<open>sched_task s i = Some t\<close>
        by (simp add: handleCancelTask_def CancelQueued_def)
    qed
  qed
qed (use assms in \<open>simp add: handleCancelTask_def\<close>)

lemma sched_inv_step: "sched_inv s \<Longrightarrow> sched_inv (sched_step sha s op)"
proof (cases op)
  case (SchSetMode md)
  then show "sched_inv s \<Longrightarrow> ?thesis" by (simp add: SetMode_def sched_inv_def queue_inv_def)
qed (auto simp: sched_inv_submit sched_inv_drain sched_inv_release sched_inv_complete sched_inv_cancel
    intro!: sched_inv_tasks evolves_run_op evolves_cleanup dest: sched_inv_keyed)

lemma sched_inv_run: "sched_inv s \<Longrightarrow> sched_inv (foldl (sched_step sha) s ops)"
  by (induction ops arbitrary: s) (auto simp: sched_inv_step)

lemma sched_inv_start: "keyed tm \<Longrightarrow> wf_map (tm_tasks tm) \<Longrightarrow> sched_inv (NewTerritoryScheduler mode tm fed locks)"
  by (simp add: NewTerritoryScheduler_def sched_inv_def lock_inv_def queue_inv_def)

text \<open>C39. Branch exclusion of running tasks: under every interleaving of submissions, drains, endings of
  runners (in their two critical sections), cancellations, expiry and arbitrary operations of the
  runners, with log writes that may fail, two different tasks that the scheduler runs and that
  have not finished never work on the same branch of the same repository.\<close>

theorem running_tasks_exclusive:
  assumes "keyed tm" and "wf_map (tm_tasks tm)"
    and "s = foldl (sched_step sha) (NewTerritoryScheduler mode tm fed locks) ops"
    and "i \<in> set (sc_running s)" and "i \<notin> set (sc_ending s)"
    and "sched_task s i = Some t" and "\<not> isTerminalLocked t"
    and "j \<in> set (sc_running s)" and "j \<notin> set (sc_ending s)"
    and "sched_task s j = Some u" and "\<not> isTerminalLocked u"
    and "i \<noteq> j" and "lock_key (lock_request t) = Some k"
  shows "lock_key (lock_request u) \<noteq> Some k"
proof -
  have "sched_inv s" unfolding assms(3) by (intro sched_inv_run sched_inv_start assms(1,2))
  then have "lock_inv s" by (simp add: sched_inv_def)
  then have "lock_holder (sc_locks s) k = Some i"
    and "lock_key (lock_request u) = Some k \<Longrightarrow> lock_holder (sc_locks s) k = Some j"
    using assms(4-13) unfolding lock_inv_def by blast+
  then show ?thesis using assms(12) by auto
qed

definition sample_scheduler :: TerritoryScheduler where
  "sample_scheduler =
     foldl (sched_step (Cons (CHR ''h'')))
       (NewTerritoryScheduler TerritoryModeQueue sample_manager (NewTerritoryManager [] [] 0) NewBranchLockManager)
       [SchSubmit (Some ''aa'') True (\<lambda>_. WriteOk) 1 [] sample_request,
        SchSubmit (Some ''bb'') True (\<lambda>_. WriteOk) 2 [] (sample_request\<lparr>rq_Task := ''other''\<rparr>)]"

definition two_running :: TerritoryScheduler where
  "two_running =
     foldl (sched_step (Cons (CHR ''h'')))
       (NewTerritoryScheduler TerritoryModeQueue sample_manager (NewTerritoryManager [] [] 0) NewBranchLockManager)
       [SchSubmit (Some ''aa'') True (\<lambda>_. WriteOk) 1 [] sample_request,
        SchSubmit (Some ''bb'') True (\<lambda>_. WriteOk) 2 []
          (sample_request\<lparr>rq_Task := ''other'', rq_GitBranch := ''dev'', rq_EditSurfaces := [''web'']\<rparr>)]"

theorem running_tasks_exclusive_witness:
  "set (sc_running two_running) = {''task-1-aa'', ''task-2-bb''} \<and>
   (\<exists>t u. sched_task two_running ''task-1-aa'' = Some t \<and> sched_task two_running ''task-2-bb'' = Some u \<and>
      lock_key (lock_request u) \<noteq> lock_key (lock_request t))"
proof -
  let ?k = "BranchKey ''github.com/org/repo'' ''main''"
  have st: "set (sc_running two_running) = {''task-1-aa'', ''task-2-bb''}" "sc_ending two_running = []"
    "map_option (\<lambda>t. (t_Status t, lock_key (lock_request t))) (sched_task two_running ''task-1-aa'') =
     Some (TaskStatusRunning, Some ?k)"
    "map_option t_Status (sched_task two_running ''task-2-bb'') = Some TaskStatusRunning"
    by code_simp+
  then obtain t u where t: "sched_task two_running ''task-1-aa'' = Some t" "t_Status t = TaskStatusRunning"
    "lock_key (lock_request t) = Some ?k"
    and u: "sched_task two_running ''task-2-bb'' = Some u" "t_Status u = TaskStatusRunning"
    by auto
  have m: "keyed sample_manager" "wf_map (tm_tasks sample_manager)"
    by (simp_all add: keyed_def sample_manager_def NewTaskManager_def ListRecords_def NewMemoryStore_def
        newest_first_def paginate_def Let_def)
  have "lock_key (lock_request u) \<noteq> Some ?k"
    using running_tasks_exclusive [OF m two_running_def, of "''task-1-aa''" t "''task-2-bb''" u ?k] st t u
    by (simp add: isTerminalLocked_def)
  then show ?thesis using st t u by auto
qed

text \<open>The queue is a priority queue, first in first out among equals: in every reachable state the
  waiting tasks are in order of clamped priority, no task waits twice or waits while it runs, and
  enqueuing puts a task behind all of its own or higher priority and before all of lower
  priority.\<close>

theorem queue_priority_fifo:
  assumes "keyed tm" and "wf_map (tm_tasks tm)"
    and "s = foldl (sched_step sha) (NewTerritoryScheduler mode tm fed locks) ops"
  shows "queue_inv s \<and>
    (\<exists>xs ys. sc_queue s = xs @ ys \<and> enqueueByPriority e (sc_queue s) = xs @ e # ys \<and>
       (\<forall>x \<in> set xs. priority_of e \<le> priority_of x) \<and> (\<forall>y \<in> set ys. priority_of y < priority_of e))"
proof -
  have "sched_inv s" unfolding assms(3) by (intro sched_inv_run sched_inv_start assms(1,2))
  then have "queue_inv s" by (simp add: sched_inv_def)
  moreover from this obtain xs ys where "sc_queue s = xs @ ys" "enqueueByPriority e (sc_queue s) = xs @ e # ys"
    "\<forall>x \<in> set xs. priority_of e \<le> priority_of x" "\<forall>y \<in> set ys. priority_of y < priority_of e"
    unfolding queue_inv_def by (metis enqueue_parts)
  ultimately show ?thesis by blast
qed

theorem queue_priority_fifo_witness:
  "queue_inv sample_scheduler \<and>
   map fst (enqueueByPriority (''x'', sample_request\<lparr>rq_Priority := 500\<rparr>) (sc_queue sample_scheduler)) =
     [''x'', ''task-2-bb'']"
proof -
  have m: "keyed sample_manager" "wf_map (tm_tasks sample_manager)"
    by (simp_all add: keyed_def sample_manager_def NewTaskManager_def ListRecords_def NewMemoryStore_def
        newest_first_def paginate_def Let_def)
  have "queue_inv sample_scheduler" using queue_priority_fifo [OF m sample_scheduler_def] by blast
  moreover have "map fst (enqueueByPriority (''x'', sample_request\<lparr>rq_Priority := 500\<rparr>) (sc_queue sample_scheduler)) =
     [''x'', ''task-2-bb'']"
    by code_simp
  ultimately show ?thesis by simp
qed

end
