(* ===== verification/Runner_Loop.thy ===== *)
theory Runner_Loop
  imports Scheduler_Safety
begin

text \<open>
  The runner goroutine of a task (\<open>startRunner\<close>, \<open>handleRetry\<close>, \<open>failTask\<close> of
  \<open>pkg/server/http/scheduler.go\<close>): retries are bounded, a failing runner leaves a finished task;
  and what a failed log write does to a drained task.
\<close>

section \<open>Tasks under runner operations\<close>

lemma get_run_op:
  assumes "keyed m"
  shows "map_get (tm_tasks (run_op m i op)) j =
     (if j = i then map_option (\<lambda>t. task_step t op) (map_get (tm_tasks m) j) else map_get (tm_tasks m) j)"
  using assms by (auto simp: run_op_def keyed_def split: option.splits)

lemma keyed_run_op: "keyed m \<Longrightarrow> keyed (run_op m i op)"
  by (rule evolves_keyed [OF evolves_run_op])

lemma keyed_run_ops: "keyed m \<Longrightarrow> keyed (foldl (\<lambda>m op. run_op m i op) m ops)"
  by (induction ops arbitrary: m) (auto simp: keyed_run_op)

lemma get_run_ops:
  "keyed m \<Longrightarrow> map_get (tm_tasks m) i = Some t \<Longrightarrow>
   map_get (tm_tasks (foldl (\<lambda>m op. run_op m i op) m ops)) i = Some (foldl task_step t ops)"
  by (induction ops arbitrary: m t) (auto simp: keyed_run_op get_run_op)

lemma keyed_failTask: "keyed m \<Longrightarrow> keyed (failTask ws w now m i code msg)"
proof -
  assume k: "keyed m"
  obtain e m1 where f: "FailTask ws now m i code msg = (e, m1)" by force
  have "keyed m1" using keyed_run_op [OF k] FailTask_run_op [of ws now m i code msg] f by simp
  then show ?thesis using f by (cases e) (simp_all add: failTask_def keyed_run_op)
qed

definition budget :: "ManagedTask \<Rightarrow> nat" where
  "budget t = nat (rq_MaxRetries (t_Request t) - t_retryAttempts t)"

lemma budget_step: "budget (task_step t op) \<le> budget t"
  using retry_step [of t op] by (simp add: budget_def)

lemma budget_steps: "budget (foldl task_step t ops) \<le> budget t"
proof (induction ops arbitrary: t)
  case (Cons op ops)
  show ?case using Cons.IH [of "task_step t op"] budget_step [of t op] by simp
qed simp

lemma handleRetry_spends:
  assumes "keyed m" "map_get (tm_tasks m) i = Some t" "handleRetry w now m t err = (Some delay, m')"
  shows "\<exists>t'. map_get (tm_tasks m') i = Some t' \<and> budget t' < budget t \<and> keyed m' \<and>
    (known_status (t_Status t) \<longrightarrow> known_status (t_Status t'))"
proof -
  have tid: "t_TaskID t = i" using assms(1,2) by (simp add: keyed_def)
  from assms(3) have lt: "t_retryAttempts t < rq_MaxRetries (t_Request t)"
    by (auto simp: handleRetry_def Let_def split: if_splits)
  from assms(3) obtain body where m': "m' = run_op (run_op m i OpRetry) i (OpEmit w now body)"
    unfolding handleRetry_def Let_def tid by (auto split: if_splits)
  have k1: "keyed (run_op m i OpRetry)" by (rule keyed_run_op [OF assms(1)])
  have "map_get (tm_tasks m') i = Some (task_step (task_step t OpRetry) (OpEmit w now body))"
    unfolding m' using assms(1,2) k1 by (simp add: get_run_op)
  moreover have "budget (task_step t OpRetry) < budget t"
    using lt by (simp add: budget_def IncRetryAttempts_def)
  then have "budget (task_step (task_step t OpRetry) (OpEmit w now body)) < budget t"
    using budget_step [of "task_step t OpRetry" "OpEmit w now body"] by linarith
  moreover have "keyed m'" unfolding m' by (rule keyed_run_op [OF k1])
  moreover have "known_status (t_Status t) \<Longrightarrow> known_status (t_Status (task_step (task_step t OpRetry) (OpEmit w now body)))"
    using moves_known status_step by blast
  ultimately show ?thesis by blast
qed

lemma run_attempt_continues:
  assumes "keyed m" "map_get (tm_tasks m) i = Some t" "run_attempt m i a = (True, m')"
  shows "\<exists>t'. map_get (tm_tasks m') i = Some t' \<and> budget t' < budget t \<and> keyed m'"
proof -
  let ?m1 = "foldl (\<lambda>m op. run_op m i op) m (try_ops a)" and ?t1 = "foldl task_step t (try_ops a)"
  have m1: "keyed ?m1" "map_get (tm_tasks ?m1) i = Some ?t1"
    using assms(1,2) by (simp_all add: keyed_run_ops get_run_ops)
  from assms(3) m1(2) obtain err delay where "handleRetry (fst (try_writes a)) (try_now a) ?m1 ?t1 err = (Some delay, m')"
    by (auto simp: run_attempt_def Let_def split: run_result.splits option.splits prod.splits if_splits)
  from handleRetry_spends [OF m1 this] show ?thesis using budget_steps [of t "try_ops a"] by fastforce
qed

text \<open>C40. Retries are bounded: whatever the runner does to the task and however it fails, the goroutine
  calls the runner at most \<open>MaxRetries\<close> minus the retries already used, plus one times, and it has
  ended after that many attempts.\<close>

theorem runner_loop_bounded:
  assumes "keyed m" and "map_get (tm_tasks m) i = Some t" and "runner_loop m i as = (n, ended, m')"
  shows "n \<le> budget t + 1 \<and> (length as > budget t \<longrightarrow> ended)"
  using assms
proof (induction m i as arbitrary: t n ended m' rule: runner_loop.induct)
  case (1 m i)
  then show ?case by simp
next
  case (2 m i a as)
  obtain c m1 where r: "run_attempt m i a = (c, m1)" by force
  show ?case
  proof (cases c)
    case False
    then show ?thesis using "2.prems"(3) r by simp
  next
    case True
    obtain n' e' m2 where rl: "runner_loop m1 i as = (n', e', m2)" by (metis prod_cases3)
    have "run_attempt m i a = (True, m1)" using r True by simp
    from run_attempt_continues [OF "2.prems"(1,2) this] obtain t' where
      t': "map_get (tm_tasks m1) i = Some t'" "budget t' < budget t" "keyed m1" by blast
    have "n' \<le> budget t' + 1 \<and> (length as > budget t' \<longrightarrow> e')"
      using "2.IH" [OF r [symmetric] _ t'(3,1) rl] True by simp
    then show ?thesis using "2.prems"(3) r rl True t'(2) by auto
  qed
qed

definition failing_attempt :: "attempt" where
  "failing_attempt = \<lparr>try_ops = [], try_result = RunErr (OtherError ''boom''), try_wait = None,
     try_now = nanos 200, try_writes = (WriteOk, WriteOk)\<rparr>"

definition one_running :: "int \<Rightarrow> TaskManager" where
  "one_running retries = put_task (task_step (sample_task\<lparr>t_Request := sample_request\<lparr>rq_MaxRetries := retries\<rparr>\<rparr>)
      (OpTransition WriteOk (nanos 101) TaskStatusRunning)) sample_manager"

lemma keyed_single:
  assumes "map fst (tm_tasks m) = [i]" "map_get (tm_tasks m) i = Some t" "t_TaskID t = i"
  shows "keyed m"
proof -
  have "t_TaskID u = k" if "map_get (tm_tasks m) k = Some u" for k u
  proof -
    have "k = i" using map_get_keys [OF that] assms(1) by simp
    then show ?thesis using that assms(2,3) by simp
  qed
  then show ?thesis by (simp add: keyed_def)
qed

theorem runner_loop_bounded_witness:
  "fst (runner_loop (one_running 2) ''t1'' (replicate 5 failing_attempt)) = 3 \<and>
   fst (runner_loop (one_running 2) ''t1'' (replicate 5 failing_attempt)) \<le> 2 + 1"
proof -
  let ?m = "one_running 2"
  have t: "map_option (\<lambda>t. (rq_MaxRetries (t_Request t), t_retryAttempts t, t_TaskID t))
      (map_get (tm_tasks ?m) ''t1'') = Some (2, 0, ''t1'')" by code_simp
  have t2: "map fst (tm_tasks ?m) = [''t1'']" by code_simp
  from t obtain u where u: "map_get (tm_tasks ?m) ''t1'' = Some u" "t_TaskID u = ''t1''" and b: "budget u = 2"
    by (auto simp: budget_def)
  have "keyed ?m" by (rule keyed_single [OF t2 u])
  moreover have "fst (runner_loop ?m ''t1'' (replicate 5 failing_attempt)) = 3" by code_simp
  moreover obtain n e m' where "runner_loop ?m ''t1'' (replicate 5 failing_attempt) = (n, e, m')"
    by (metis prod_cases3)
  ultimately show ?thesis using runner_loop_bounded [of ?m "''t1''" u] u(1) b by fastforce
qed

section \<open>A failing runner finishes the task\<close>

lemma FailTask_ends:
  assumes "keyed m" "map_get (tm_tasks m) i = Some t" "known_status (t_Status t)"
  shows "\<exists>t'. map_get (tm_tasks (snd (FailTask ws now m i code msg))) i = Some t' \<and> isTerminalLocked t'"
proof -
  have g: "map_get (tm_tasks (snd (FailTask ws now m i code msg))) i =
      Some (task_step t (OpFail (fst ws) (snd ws) now code msg))"
    unfolding FailTask_run_op using assms(1,2) by (simp add: get_run_op)
  show ?thesis
  proof (cases "isTerminalLocked t")
    case True
    then show ?thesis using g terminal_step by blast
  next
    case False
    then have "active_status (t_Status t)"
      using assms(3) by (cases "t_Status t") (auto simp: known_status_def active_status_def isTerminalLocked_def)
    then have "t_Status (task_step t (OpFail (fst ws) (snd ws) now code msg)) = TaskStatusFailed"
      using fail_task_ends by simp
    then show ?thesis using g by (simp add: isTerminalLocked_def)
  qed
qed

lemma failTask_ends:
  assumes "keyed m" "map_get (tm_tasks m) i = Some t" "known_status (t_Status t)"
  shows "\<exists>t'. map_get (tm_tasks (failTask ws w now m i code msg)) i = Some t' \<and> isTerminalLocked t'"
proof -
  obtain e m1 where f: "FailTask ws now m i code msg = (e, m1)" by force
  have k1: "keyed m1" using keyed_run_op [OF assms(1)] FailTask_run_op [of ws now m i code msg] f by simp
  obtain t1 where t1: "map_get (tm_tasks m1) i = Some t1" "isTerminalLocked t1"
    using FailTask_ends [OF assms, of ws now code msg] f by auto
  have "isTerminalLocked (fst (snd (SetStatus w now t1 TaskStatusFailed)))"
    using terminal_step [OF t1(2), of "OpSetStatus w now TaskStatusFailed"] by simp
  then show ?thesis using f t1 by (cases e) (auto simp: failTask_def get_run_op [OF k1])
qed

lemma known_steps: "known_status (t_Status t) \<Longrightarrow> known_status (t_Status (foldl task_step t ops))"
  by (induction ops arbitrary: t) (auto intro: moves_known status_step)

definition ends_by_failure :: "attempt \<Rightarrow> bool" where
  "ends_by_failure a \<longleftrightarrow> try_result a \<noteq> RunOk \<and> try_wait a \<noteq> Some False"

text \<open>A failing runner never leaves its task running: when an attempt ends the goroutine with an
  error, a panic or a timeout (rather than a cancellation), the task is finished, even if every
  log write fails.\<close>

theorem failed_runner_finishes_task:
  assumes "keyed m" and "map_get (tm_tasks m) i = Some t" and "known_status (t_Status t)"
    and "run_attempt m i a = (False, m')" and "ends_by_failure a"
  shows "\<exists>t'. map_get (tm_tasks m') i = Some t' \<and> isTerminalLocked t'"
proof -
  let ?m1 = "foldl (\<lambda>m op. run_op m i op) m (try_ops a)" and ?t1 = "foldl task_step t (try_ops a)"
  let ?ws = "try_writes a" and ?now = "try_now a"
  have m1: "keyed ?m1" "map_get (tm_tasks ?m1) i = Some ?t1" "known_status (t_Status ?t1)"
    using assms(1-3) by (simp_all add: keyed_run_ops get_run_ops known_steps)
  show ?thesis
  proof (cases "try_result a")
    case RunOk
    then show ?thesis using assms(5) by (simp add: ends_by_failure_def)
  next
    case (RunPanic msg)
    let ?op = "OpEmit (fst ?ws) ?now (EventError (Some \<lparr>ep_Code = ''RUNNER_PANIC'',
        ep_Message = ''runner panicked: '' @ msg, ep_Fatal = True\<rparr>))"
    have "map_get (tm_tasks (run_op ?m1 i ?op)) i = Some (task_step ?t1 ?op)"
      using m1 by (simp add: get_run_op)
    moreover have "known_status (t_Status (task_step ?t1 ?op))" using m1(3) moves_known status_step by blast
    ultimately have "\<exists>t'. map_get (tm_tasks (failTask ?ws (fst ?ws) ?now (run_op ?m1 i ?op) i ''RUNNER_PANIC''
        (''runner panicked: '' @ msg))) i = Some t' \<and> isTerminalLocked t'"
      by (rule failTask_ends [OF keyed_run_op [OF m1(1)]])
    moreover have "m' = failTask ?ws (fst ?ws) ?now (run_op ?m1 i ?op) i ''RUNNER_PANIC'' (''runner panicked: '' @ msg)"
      using assms(4) by (simp only: run_attempt_def Let_def RunPanic run_result.case prod.inject)
    ultimately show ?thesis by simp
  next
    case (RunErr err)
    show ?thesis
    proof (cases "terminal_status (t_Status ?t1)")
      case True
      then show ?thesis using assms(4) RunErr m1(2)
        by (auto simp: run_attempt_def Let_def isTerminalLocked_iff)
    next
      case False
      obtain d m2 where h: "handleRetry (fst ?ws) ?now ?m1 ?t1 err = (d, m2)" by force
      show ?thesis
      proof (cases d)
        case None
        then have "m2 = ?m1" using h by (auto simp: handleRetry_def Let_def split: if_splits)
        then show ?thesis
          using assms(4) RunErr m1 False h None failTask_ends [OF m1, of ?ws "fst ?ws" ?now "fst (failureCause err)" "snd (failureCause err)"]
          by (auto simp: run_attempt_def Let_def)
      next
        case (Some delay)
        have w: "try_wait a = Some True"
          using assms(4,5) RunErr m1(2) False h Some
          by (cases "try_wait a") (auto simp: run_attempt_def Let_def ends_by_failure_def)
        from handleRetry_spends [OF m1(1,2)] h Some m1(3) obtain t2 where
          t2: "map_get (tm_tasks m2) i = Some t2" "keyed m2" "known_status (t_Status t2)"
          by blast
        show ?thesis
          using assms(4) RunErr m1(2) False h Some w
            failTask_ends [OF t2(2,1,3), of ?ws "fst ?ws" ?now "''TASK_TIMEOUT''" "''task timeout''"]
          by (auto simp: run_attempt_def Let_def)
      qed
    qed
  qed
qed

theorem failed_runner_finishes_task_witness:
  "\<exists>t'. map_get (tm_tasks (snd (run_attempt (one_running 0) ''t1''
      (failing_attempt\<lparr>try_writes := (WriteFailed True, WriteFailed True)\<rparr>)))) ''t1'' = Some t' \<and> isTerminalLocked t'"
proof -
  let ?m = "one_running 0" and ?a = "failing_attempt\<lparr>try_writes := (WriteFailed True, WriteFailed True)\<rparr>"
  have t: "map_option (\<lambda>t. (t_Status t, t_TaskID t)) (map_get (tm_tasks ?m) ''t1'') = Some (TaskStatusRunning, ''t1'')"
    by code_simp
  have t2: "map fst (tm_tasks ?m) = [''t1'']" by code_simp
  have t3: "fst (run_attempt ?m ''t1'' ?a) = False" by code_simp
  from t obtain u where u: "map_get (tm_tasks ?m) ''t1'' = Some u" "t_Status u = TaskStatusRunning" "t_TaskID u = ''t1''"
    by auto
  have k: "keyed ?m" by (rule keyed_single [OF t2 u(1,3)])
  have r: "run_attempt ?m ''t1'' ?a = (False, snd (run_attempt ?m ''t1'' ?a))" using t3 by (metis prod.collapse)
  have "known_status (t_Status u)" "ends_by_failure ?a"
    using u(2) by (simp_all add: known_status_def ends_by_failure_def failing_attempt_def)
  from failed_runner_finishes_task [OF k u(1) this(1) r this(2)] show ?thesis .
qed

section \<open>A failed log write in a drain\<close>

lemma stuck_dispatch:
  assumes "keyed (sc_tm s)" "sched_task s i = Some t" "t_Status t = TaskStatusRunning"
    "dispatchUnderLock w now s i = (e, s')"
  shows "e \<noteq> None \<and> (\<exists>t'. sched_task s' i = Some t' \<and> t_Status t' = TaskStatusRunning)"
proof -
  have tr: "TransitionTo w now t TaskStatusRunning = (Some ErrInvalidStateTransition, t, False)"
    using assms(3) by (simp add: TransitionTo_def isTerminalLocked_def isValidTransition.simps)
  have "t_TaskID t = i" using assms(1,2) by (simp add: sched_task_def GetTask_def keyed_def)
  then show ?thesis
    using assms(2-4) tr
    by (auto simp: dispatchUnderLock_def sched_task_def GetTask_def commit_put put_task_def
        split: option.splits prod.splits)
qed

definition stuck :: "string \<Rightarrow> TerritoryScheduler \<Rightarrow> bool" where
  "stuck i s \<longleftrightarrow> keyed (sc_tm s) \<and> (\<exists>t. sched_task s i = Some t \<and> t_Status t = TaskStatusRunning)"

lemma stuck_other_dispatch:
  assumes "stuck i s" "dispatchUnderLock w now s j = (e, s')"
  shows "stuck i s'"
proof -
  have k: "keyed (sc_tm s)" using assms(1) by (simp add: stuck_def)
  have "keyed (sc_tm s')" by (rule evolves_keyed [OF dispatch_evolves [OF k assms(2)] k])
  then show ?thesis
    using assms dispatch_tasks [OF k assms(2)] stuck_dispatch [OF k _ _ assms(2)]
    by (cases "i = j") (auto simp: stuck_def)
qed

lemma stuck_scan:
  assumes "stuck i s" "drain_scan sha ws now s q = (kept, started, s')"
  shows "stuck i s' \<and> i \<notin> set started"
  using assms
proof (induction q arbitrary: s kept started s')
  case (Cons e q)
  show ?case
  proof (cases "sched_task s (fst e) = None \<or> findConflict sha now s (the (sched_task s (fst e))) \<noteq> None")
    case True
    then obtain kept' where "drain_scan sha ws now s q = (kept', started, s')"
      using Cons.prems(2) by (auto split: prod.splits option.splits if_splits)
    from Cons.IH [OF Cons.prems(1) this] show ?thesis .
  next
    case False
    obtain err s1 where d: "dispatchUnderLock (ws (fst e)) now s (fst e) = (err, s1)" by force
    obtain kept' started' s2 where r: "drain_scan sha ws now s1 q = (kept', started', s2)" by (metis prod_cases3)
    have "s' = s2 \<and> set started = (if err = None then {fst e} else {}) \<union> set started'"
      using Cons.prems(2) False d r by (cases err) auto
    moreover have "err = None \<Longrightarrow> fst e \<noteq> i"
      using stuck_dispatch [of s i _ "ws (fst e)" now err s1] d Cons.prems(1) by (auto simp: stuck_def)
    ultimately show ?thesis
      using Cons.IH [OF stuck_other_dispatch [OF Cons.prems(1) d] r] by auto
  qed
qed simp

definition stranded :: "string \<Rightarrow> TerritoryScheduler \<Rightarrow> bool" where
  "stranded i s \<longleftrightarrow> stuck i s \<and> distinct (map fst (sc_queue s)) \<and> i \<in> fst ` set (sc_queue s) \<and>
     i \<notin> set (sc_running s)"

lemma stranded_drain:
  assumes "stranded i s"
  shows "stranded i (snd (drainUnderLock sha ws now s))"
proof -
  obtain kept started s1 where r: "drain_scan sha ws now s (sc_queue s) = (kept, started, s1)" by (metis prod_cases3)
  have st: "stuck i s1 \<and> i \<notin> set started" using stuck_scan [OF _ r] assms by (simp add: stranded_def)
  have k: "kept = filter (\<lambda>e. fst e \<notin> set started) (sc_queue s)"
    using drain_scan_started [OF r] assms by (simp add: stranded_def)
  have "i \<in> fst ` set kept" using assms st k by (force simp: stranded_def)
  moreover have "i \<notin> set (sc_running s1)" using drain_scan_frame [OF r] st assms by (simp add: stranded_def)
  moreover have "distinct (map fst kept)" using k assms by (simp add: stranded_def distinct_map_filter)
  ultimately show ?thesis
    using st r by (simp add: stranded_def stuck_def drainUnderLock_def sched_task_def)
qed

lemma TransitionTo_write_fails:
  assumes "\<not> isTerminalLocked t" "isValidTransition (t_Status t) st" "t_logger t = Some l"
    "TransitionTo (WriteFailed torn) now t st = (te, t1, n)"
  shows "te \<noteq> None \<and> \<not> n"
proof -
  let ?u = "bump_seq (enter_status now st (t\<lparr>t_LastActivityAt := unix now\<rparr>))"
  have "t_logger ?u = Some l"
    using assms(3) bookkeeping_enter [of "t\<lparr>t_LastActivityAt := unix now\<rparr>" now st]
    by (simp add: bookkeeping_def bump_seq_def io_def)
  then have "fst (publish (WriteFailed torn) evt ?u) \<noteq> None" for evt
    by (simp add: publish_def write_log_def WriteEvent_def Let_def)
  then show ?thesis
    using assms(1,2,4)
    by (simp add: TransitionTo_def Let_def prod.case_eq_if option.case_eq_if) (metis fst_conv option.simps(3) snd_conv)
qed

text \<open>A log write that fails while a drain dispatches a task strands the task: it is marked running
  and so blocks its territory, its lock is released, no runner is started for it, it stays in the
  queue, and no later drain changes any of that.\<close>

theorem drain_write_failure_strands:
  assumes "keyed (sc_tm s)" and "distinct (map fst (sc_queue s))" and "sc_queue s = (i, req) # q"
    and "sched_task s i = Some t" and "t_Status t = TaskStatusQueued" and "t_logger t = Some l"
    and "findConflict sha now s t = None" and "fst (claimBranchLock now (sc_locks s) t) = None"
    and "ws i = WriteFailed torn" and "i \<notin> set (sc_running s)"
    and "s' = foldl (\<lambda>s (ws, now). snd (drainUnderLock sha ws now s)) s ((ws, now) # later)"
  shows "i \<in> set (QueuedTasks s') \<and> i \<notin> set (sc_running s') \<and>
         (\<exists>t'. sched_task s' i = Some t' \<and> t_Status t' = TaskStatusRunning)"
proof -
  have nt: "\<not> isTerminalLocked t" "isValidTransition (t_Status t) TaskStatusRunning"
    using assms(5) by (simp_all add: isTerminalLocked_def isValidTransition.simps)
  obtain te t1 n where tr: "TransitionTo (WriteFailed torn) now t TaskStatusRunning = (te, t1, n)"
    by (metis prod_cases3)
  have st1: "t_Status t1 = TaskStatusRunning" using TransitionTo_ends [OF nt, of "WriteFailed torn" now] tr by simp
  have tid: "t_TaskID t1 = i"
    using transition_identity [OF tr] assms(1,4) by (simp add: identity_def sched_task_def GetTask_def keyed_def)
  have "te \<noteq> None \<and> \<not> n" using TransitionTo_write_fails [OF nt assms(6) tr] .
  then obtain e where e: "te = Some e" "\<not> n" by auto
  obtain locks1 where c: "claimBranchLock now (sc_locks s) t = (None, locks1)"
    using assms(8) by (metis prod.collapse)
  let ?s1 = "s\<lparr>sc_tm := put_task t1 (sc_tm s), sc_locks := releaseBranchLock locks1 t1\<rparr>"
  have d: "dispatchUnderLock (ws i) now s i = (Some (SchedTask e), ?s1)"
    using assms(4,9) tr c e by (simp add: dispatchUnderLock_def commit_put)
  have k1: "keyed (sc_tm ?s1)" using evolves_keyed [OF dispatch_evolves [OF assms(1) d] assms(1)] .
  have stuck1: "stuck i ?s1"
    using k1 st1 tid by (simp add: stuck_def sched_task_def GetTask_def put_task_def)
  obtain kept started s2 where r: "drain_scan sha ws now ?s1 q = (kept, started, s2)" by (metis prod_cases3)
  have r0: "drain_scan sha ws now s (sc_queue s) = ((i, req) # kept, started, s2)"
    using assms(3,4,7) d r by simp
  have "distinct (map fst ((i, req) # kept))"
    using drain_scan_started [OF r0 assms(2)] assms(2) by (metis distinct_map_filter)
  then have "stranded i (snd (drainUnderLock sha ws now s))"
    using stuck_scan [OF stuck1 r] drain_scan_frame [OF r0] r0 assms(10)
    by (simp add: stranded_def drainUnderLock_def stuck_def sched_task_def)
  then have "stranded i (foldl (\<lambda>s (ws, now). snd (drainUnderLock sha ws now s)) (snd (drainUnderLock sha ws now s)) later)"
    by (induction later rule: rev_induct) (auto simp: stranded_drain)
  then show ?thesis by (auto simp: assms(11) stranded_def stuck_def QueuedTasks_def)
qed

definition one_waiting :: TerritoryScheduler where
  "one_waiting =
     (NewTerritoryScheduler TerritoryModeQueue (put_task sample_task sample_manager)
        (NewTerritoryManager [] [] 0) NewBranchLockManager)\<lparr>sc_queue := [(''t1'', sample_request)]\<rparr>"

theorem drain_write_failure_strands_witness:
  "\<exists>s'. s' = foldl (\<lambda>s (ws, now). snd (drainUnderLock (Cons (CHR ''h'')) ws now s)) one_waiting
       [((\<lambda>_. WriteFailed False), nanos 102), ((\<lambda>_. WriteOk), nanos 103)] \<and>
     ''t1'' \<in> set (QueuedTasks s') \<and> ''t1'' \<notin> set (sc_running s')"
proof -
  let ?sha = "Cons (CHR ''h'')" and ?s = one_waiting and ?ws = "\<lambda>_. WriteFailed False"
  let ?s' = "foldl (\<lambda>s (ws, now). snd (drainUnderLock ?sha ws now s)) ?s
       ((?ws, nanos 102) # [((\<lambda>_. WriteOk), nanos 103)])"
  have g: "sched_task ?s ''t1'' = Some sample_task"
    by (simp add: one_waiting_def sched_task_def GetTask_def NewTerritoryScheduler_def put_task_def
        sample_task_def NewManagedTask_def)
  have ids: "map fst (tm_tasks (sc_tm ?s)) = [''t1'']" by code_simp
  have "t_TaskID sample_task = ''t1''" by code_simp
  then have k: "keyed (sc_tm ?s)"
    using g by (intro keyed_single [OF ids, of sample_task]) (simp_all add: sched_task_def GetTask_def)
  have q: "distinct (map fst (sc_queue ?s))" "sc_queue ?s = (''t1'', sample_request) # []" "''t1'' \<notin> set (sc_running ?s)"
    by (simp_all add: one_waiting_def NewTerritoryScheduler_def)
  have st: "t_Status sample_task = TaskStatusQueued" "t_logger sample_task = Some (NewJSONLLogger [] False)"
    by (simp_all add: sample_task_def NewManagedTask_def)
  have c: "findConflict ?sha (nanos 102) ?s sample_task = None" by code_simp
  have l: "fst (claimBranchLock (nanos 102) (sc_locks ?s) sample_task) = None" by code_simp
  show ?thesis
    using drain_write_failure_strands [OF k q(1,2) g st c l, of ?ws False ?s' "[((\<lambda>_. WriteOk), nanos 103)]"] q(3)
    by auto
qed

end
