(* ===== verification/Go_Filepath.thy ===== *)
theory Go_Filepath
  imports Go_Path
begin

text \<open>
  The functions of Go's package \<open>path/filepath\<close> on Unix that the evaluator uses: \<open>Clean\<close> (which is
  \<open>path.Clean\<close> there), \<open>IsAbs\<close>, \<open>Join\<close>, \<open>Base\<close>, \<open>Dir\<close> and \<open>Rel\<close>, the last on the components of the cleaned
  paths. \<open>comps\<close> are the components of a cleaned path and \<open>rooted\<close> whether it starts with a slash.
\<close>

definition rooted :: "string \<Rightarrow> bool" where
  "rooted p \<longleftrightarrow> p \<noteq> [] \<and> hd p = slash"

definition comps :: "string \<Rightarrow> string list" where
  "comps p = clean_comps (rooted p) (split_on slash p)"

definition fp_join :: "string list \<Rightarrow> string" where
  "fp_join elems = (let es = dropWhile (\<lambda>e. e = []) elems in if es = [] then [] else path_clean (Join es ''/''))"

definition fp_base :: "string \<Rightarrow> string" where
  "fp_base p =
     (if p = [] then ''.''
      else let q = rev (dropWhile (\<lambda>c. c = slash) (rev p)) in
        if q = [] then ''/'' else last (split_on slash q))"

definition fp_dir :: "string \<Rightarrow> string" where
  "fp_dir p = path_clean (rev (dropWhile (\<lambda>c. c \<noteq> slash) (rev p)))"

fun rel_comps :: "string list \<Rightarrow> string list \<Rightarrow> string list option" where
  "rel_comps (b # bs) (t # ts) =
     (if b = t then rel_comps bs ts
      else if b = ''..'' then None else Some (replicate (length (b # bs)) ''..'' @ t # ts))"
| "rel_comps [] ts = Some ts"
| "rel_comps (b # bs) [] = (if b = ''..'' then None else Some (replicate (length (b # bs)) ''..''))"

definition fp_rel :: "string \<Rightarrow> string \<Rightarrow> string option" where
  "fp_rel base targ =
     (if path_clean base = path_clean targ then Some ''.''
      else if rooted base \<noteq> rooted targ then None
      else map_option (\<lambda>cs. Join cs ''/'') (rel_comps (comps base) (comps targ)))"

section \<open>Components\<close>

lemma path_clean_comps: "path_clean p = render_path (rooted p) (comps p)"
  by (cases "p = []") (simp_all add: path_clean_def rooted_def comps_def render_path_def clean_comps_def)

lemma comps_stack: "clean_stack (rooted p) (rev (comps p))"
  unfolding comps_def by (rule clean_comps_stack)

lemma comps_render:
  assumes "clean_stack r (rev cs)"
  shows "comps (render_path r cs) = cs \<and> rooted (render_path r cs) = r"
  using clean_comps_render [OF assms] by (simp add: comps_def rooted_def)

lemma comps_path_clean [simp]: "comps (path_clean p) = comps p" "rooted (path_clean p) = rooted p"
  using comps_render [OF comps_stack, of p] by (simp_all add: path_clean_comps [of p])

lemma comps_slash: "c \<in> set (comps p) \<Longrightarrow> c \<noteq> [] \<and> slash \<notin> set c"
  using clean_stack_slash_free [OF comps_stack [of p]] clean_stack_nonempty [OF comps_stack [of p]] by auto

lemma path_clean_eq_iff: "path_clean p = path_clean q \<longleftrightarrow> rooted p = rooted q \<and> comps p = comps q"
proof
  assume e: "path_clean p = path_clean q"
  have "rooted (path_clean p) = rooted (path_clean q)" "comps (path_clean p) = comps (path_clean q)" unfolding e by simp_all
  then show "rooted p = rooted q \<and> comps p = comps q" unfolding comps_path_clean by simp
qed (simp add: path_clean_comps)

lemma rel_comps_replicate:
  "rel_comps bs ts = Some rs \<Longrightarrow> (\<exists>zs. ts = bs @ zs \<and> rs = zs) \<or> (\<exists>zs. rs = ''..'' # zs)"
  by (induction bs ts rule: rel_comps.induct) (auto split: if_splits)

lemma rel_comps_extends: "rel_comps bs (bs @ zs) = Some zs"
  by (induction bs) simp_all

section \<open>Lengths\<close>

definition weight :: "string list \<Rightarrow> nat" where
  "weight cs = sum_list (map (\<lambda>c. Suc (length c)) cs)"

lemma weight_simps [simp]: "weight [] = 0" "weight (c # cs) = Suc (length c) + weight cs"
  "weight (cs @ ds) = weight cs + weight ds" "weight (rev cs) = weight cs"
  by (simp_all add: weight_def rev_map [symmetric])

lemma weight_split_on: "weight (split_on d s) = Suc (length s)"
  by (induction s) (auto split: list.splits)

lemma weight_Join: "cs \<noteq> [] \<Longrightarrow> Suc (length (Join cs [d])) = weight cs"
  by (induction cs "[d]" rule: Join.induct) auto

lemma weight_clean_step: "weight (clean_step r st c) \<le> weight st + (if c = [] then 0 else Suc (length c))"
  by (cases st) auto

lemma weight_clean_fold: "weight (foldl (clean_step r) st cs) \<le> weight st + weight (filter (\<lambda>c. c \<noteq> []) cs)"
proof (induction cs arbitrary: st)
  case (Cons c cs)
  have "weight (foldl (clean_step r) (clean_step r st c) cs) \<le> weight (clean_step r st c) + weight (filter (\<lambda>c. c \<noteq> []) cs)"
    by (rule Cons.IH)
  then show ?case using weight_clean_step [of r st c] by (simp del: clean_step.simps split: if_splits)
qed simp

lemma weight_comps: "weight (comps p) \<le> weight (filter (\<lambda>c. c \<noteq> []) (split_on slash p))"
  unfolding comps_def clean_comps_def using weight_clean_fold [of "rooted p" "[]"] by simp

lemma weight_filter: "weight (filter (\<lambda>c. c \<noteq> []) cs) + length (filter (\<lambda>c. c = []) cs) = weight cs"
  by (induction cs) auto

lemma length_path_clean: "p \<noteq> [] \<Longrightarrow> length (path_clean p) \<le> length p"
proof -
  assume p: "p \<noteq> []"
  have s: "weight (comps p) + length (filter (\<lambda>c. c = []) (split_on slash p)) \<le> Suc (length p)"
    using weight_comps [of p] weight_filter [of "split_on slash p"] weight_split_on [of slash p] by linarith
  have r: "rooted p \<Longrightarrow> 0 < length (filter (\<lambda>c. c = []) (split_on slash p))"
    by (cases p) (auto simp: rooted_def)
  have j: "comps p \<noteq> [] \<Longrightarrow> Suc (length (Join (comps p) ''/'')) = weight (comps p)" by (rule weight_Join)
  have pos: "0 < length p" using p by simp
  show ?thesis
  proof (cases "comps p = []")
    case True
    then show ?thesis using pos by (simp add: path_clean_comps render_path_def Suc_le_eq)
  next
    case False
    have "length (path_clean p) \<le> (if rooted p then weight (comps p) else max 1 (weight (comps p) - 1))"
      using j [OF False] by (auto simp: path_clean_comps render_path_def Let_def)
    moreover have "rooted p \<Longrightarrow> weight (comps p) \<le> length p" using r s by linarith
    moreover have "max 1 (weight (comps p) - 1) \<le> length p" using s pos by linarith
    ultimately show ?thesis by (cases "rooted p") auto
  qed
qed

lemma length_path_clean_trailing: "p \<noteq> [] \<Longrightarrow> length (path_clean (p @ ''/'')) \<le> length p"
proof -
  assume p: "p \<noteq> []"
  have sp: "split_on slash (p @ ''/'') = split_on slash p @ [[]]"
    using split_on_append_delim [of slash p "[]"] by simp
  have rt: "rooted (p @ ''/'') = rooted p" using p by (simp add: rooted_def)
  have "comps (p @ ''/'') = comps p" unfolding comps_def rt sp by (simp add: clean_comps_def)
  then have "path_clean (p @ ''/'') = path_clean p" using rt path_clean_eq_iff by blast
  then show ?thesis using length_path_clean [OF p] by simp
qed

text \<open>Every step to the parent directory that changes the path makes it smaller.\<close>

definition path_size :: "string \<Rightarrow> nat" where
  "path_size p = (if p = ''.'' then 0 else Suc (length p))"

lemma fp_dir_smaller:
  assumes "fp_dir p \<noteq> p" shows "path_size (fp_dir p) < path_size p"
proof -
  let ?q = "rev (dropWhile (\<lambda>c. c \<noteq> slash) (rev p))"
  obtain t where t: "p = ?q @ t"
    by (metis rev_append rev_rev_ident takeWhile_dropWhile_id)
  show ?thesis
  proof (cases "?q = []")
    case True
    then have "fp_dir p = ''.''" by (simp add: fp_dir_def path_clean_def)
    then show ?thesis using assms by (simp add: path_size_def)
  next
    case False
    then have "last ?q = slash" using hd_dropWhile [of "\<lambda>c. c \<noteq> slash" "rev p"] by (simp add: last_rev)
    then obtain u where u: "?q = u @ ''/''" using False by (metis append_butlast_last_id)
    have le: "length (fp_dir p) \<le> length ?q" using length_path_clean [OF False] by (simp only: fp_dir_def)
    have "length (fp_dir p) < length p"
    proof (cases "u = []")
      case True
      then have "fp_dir p = ''/''" using u by (simp add: fp_dir_def path_clean_def render_path_def clean_comps_def)
      then show ?thesis using assms t u True by (cases t) auto
    next
      case False
      have "length (fp_dir p) \<le> length u" using length_path_clean_trailing [OF False] u by (simp only: fp_dir_def)
      moreover have "length p = length u + 1 + length t" using arg_cong [OF t, of length] u by simp
      ultimately show ?thesis by linarith
    qed
    moreover have "p \<noteq> ''.''" using u t by (cases u) auto
    ultimately show ?thesis by (simp add: path_size_def)
  qed
qed

end
