(* ===== verification/Git_Safe.thy ===== *)
theory Git_Safe
  imports Go_Base
begin

text \<open>
  Hardened git invocations: \<open>pkg/gitsafe/gitsafe.go\<close>. What \<open>git config --get-regexp\<close> does is an argument: its
  output, its exit code (whose error text is \<open>exit status\<close> and the code) or a failure to run. The environment of
  a process is the list of its assignments; a later one of the same name wins.
\<close>

datatype git_output = GitOk string | GitExit int | GitFailed string

definition Contains :: "string \<Rightarrow> string \<Rightarrow> bool" where
  "Contains s p \<longleftrightarrow> Index s p \<noteq> None"

definition env_name :: "string \<Rightarrow> string" where
  "env_name kv = takeWhile (\<lambda>c. c \<noteq> CHR ''='') kv"

definition devNull :: string where
  "devNull = ''/dev/null''"

definition fixedArgs :: "string list" where
  "fixedArgs =
     [''-c'', ''core.hooksPath='' @ devNull, ''-c'', ''core.fsmonitor=false'', ''-c'', ''core.pager=cat'',
      ''-c'', ''diff.external='', ''-c'', ''credential.helper='', ''-c'', ''core.gitProxy='',
      ''-c'', ''protocol.file.allow=never'', ''--no-optional-locks'']"

definition filterAttrs :: "string list" where
  "filterAttrs = [''clean'', ''smudge'', ''process'']"

definition Overrides :: "string list" where
  "Overrides = [''GIT_CONFIG_NOSYSTEM=1'', ''GIT_CONFIG_GLOBAL='' @ devNull, ''GIT_OPTIONAL_LOCKS=0'', ''GIT_TERMINAL_PROMPT=0'']"

definition LastIndex :: "string \<Rightarrow> char \<Rightarrow> nat option" where
  "LastIndex s c = (if c \<in> set s then Some (length s - Suc (length (takeWhile (\<lambda>x. x \<noteq> c) (rev s)))) else None)"

definition driverName :: "string \<Rightarrow> string option" where
  "driverName key =
     (if \<not> HasPrefix key ''filter.'' \<or> drop 7 key = [] then None
      else let rest = drop 7 key in
        case LastIndex rest (CHR ''.'') of
          None \<Rightarrow> None
        | Some i \<Rightarrow>
            if i = 0 \<or> Suc i = length rest then None
            else if drop (Suc i) rest \<in> set filterAttrs then Some (take i rest) else None)"

fun collect_drivers :: "string list \<Rightarrow> string list \<Rightarrow> string list" where
  "collect_drivers seen [] = []"
| "collect_drivers seen (key # keys) =
     (case driverName (TrimSuffix key [CHR 0x0A]) of
        None \<Rightarrow> collect_drivers seen keys
      | Some name \<Rightarrow> if name \<in> set seen then collect_drivers seen keys else name # collect_drivers (name # seen) keys)"

definition filterDrivers :: "git_output \<Rightarrow> string + string list" where
  "filterDrivers out =
     (case out of
        GitOk keys \<Rightarrow> Inr (collect_drivers [] (split_on (CHR 0x00) keys))
      | GitExit code \<Rightarrow>
          if code = 1 then Inr []
          else if Contains (''exit status '' @ decimal code) ''not a git repository'' then Inr []
          else Inl (''exit status '' @ decimal code)
      | GitFailed e \<Rightarrow> if Contains e ''not a git repository'' then Inr [] else Inl e)"

definition driver_entries :: "string \<Rightarrow> (string \<times> string) list" where
  "driver_entries name =
     map (\<lambda>attr. (''filter.'' @ name @ ''.'' @ attr, [])) filterAttrs @ [(''filter.'' @ name @ ''.required'', ''false'')]"

fun config_env :: "nat \<Rightarrow> (string \<times> string) list \<Rightarrow> string list" where
  "config_env i [] = []"
| "config_env i ((k, v) # kvs) =
     (''GIT_CONFIG_KEY_'' @ nat_digits i @ ''='' @ k) # (''GIT_CONFIG_VALUE_'' @ nat_digits i @ ''='' @ v) # config_env (Suc i) kvs"

definition driverNeutralizationEnv :: "string list \<Rightarrow> string list" where
  "driverNeutralizationEnv drivers =
     (if drivers = [] then []
      else let kvs = concat (map driver_entries drivers) in
        (''GIT_CONFIG_COUNT='' @ nat_digits (length kvs)) # config_env 0 kvs)"

definition repoLocationVars :: "string list" where
  "repoLocationVars =
     [''GIT_DIR'', ''GIT_WORK_TREE'', ''GIT_COMMON_DIR'', ''GIT_INDEX_FILE'', ''GIT_OBJECT_DIRECTORY'',
      ''GIT_ALTERNATE_OBJECT_DIRECTORIES'', ''GIT_CEILING_DIRECTORIES'', ''GIT_DISCOVERY_ACROSS_FILESYSTEM'',
      ''GIT_NAMESPACE'', ''GIT_PREFIX'']"

definition Sanitize :: "string list \<Rightarrow> string list" where
  "Sanitize env = filter (\<lambda>kv. env_name kv \<notin> set repoLocationVars) env"

datatype git_plan_error = DiffFlagsMissing | DiffRangeOption | DriversUnknown string

definition checkDiffArgs :: "string list \<Rightarrow> git_plan_error option" where
  "checkDiffArgs args =
     (case args of
        [] \<Rightarrow> None
      | a # rest \<Rightarrow>
          if a \<noteq> ''diff'' then None
          else if ''--no-ext-diff'' \<notin> set rest \<or> ''--no-textconv'' \<notin> set rest then Some DiffFlagsMissing
          else if list_ex (\<lambda>x. Contains x ''..'' \<and> HasPrefix x ''-'') rest then Some DiffRangeOption
          else None)"

definition Plan :: "git_output \<Rightarrow> string \<Rightarrow> string list \<Rightarrow> git_plan_error + string list \<times> string list" where
  "Plan out dir args =
     (case checkDiffArgs args of
        Some e \<Rightarrow> Inl e
      | None \<Rightarrow>
          (case filterDrivers out of
             Inl e \<Rightarrow> Inl (DriversUnknown e)
           | Inr drivers \<Rightarrow>
               Inr (fixedArgs @ (if dir = [] then [] else [''-C'', dir]) @ args,
                    Overrides @ driverNeutralizationEnv drivers)))"

definition Command ::
  "git_output \<Rightarrow> string list \<Rightarrow> string \<Rightarrow> string list \<Rightarrow> git_plan_error + string list \<times> string list" where
  "Command out environ dir args =
     map_sum id (\<lambda>(argv, additions). (argv, Sanitize environ @ additions)) (Plan out dir args)"

section \<open>Every listed filter driver is neutralized\<close>

text \<open>What a process reads for a variable.\<close>

definition getenv :: "string list \<Rightarrow> string \<Rightarrow> string option" where
  "getenv env name =
     (case filter (\<lambda>kv. CHR ''='' \<in> set kv \<and> env_name kv = name) (rev env) of
        [] \<Rightarrow> None
      | kv # _ \<Rightarrow> Some (drop (Suc (length name)) kv))"

definition neutralized :: "string list \<Rightarrow> string \<Rightarrow> bool" where
  "neutralized env key \<longleftrightarrow>
     (\<exists>i n. getenv env ''GIT_CONFIG_COUNT'' = Some (nat_digits n) \<and> i < n \<and>
        getenv env (''GIT_CONFIG_KEY_'' @ nat_digits i) = Some key \<and>
        getenv env (''GIT_CONFIG_VALUE_'' @ nat_digits i) = Some [])"

lemma env_name_assign: "CHR ''='' \<notin> set n \<Longrightarrow> env_name (n @ ''='' @ v) = n"
  by (induction n) (auto simp: env_name_def)

lemma digits_no_eq: "CHR ''='' \<notin> set (nat_digits n)"
  using nat_digits_chars [of "CHR ''=''" n] by auto

lemma getenv_append:
  "getenv (xs @ ys) n = (case getenv ys n of Some v \<Rightarrow> Some v | None \<Rightarrow> getenv xs n)"
  by (auto simp: getenv_def split: list.splits)

lemma getenv_Cons:
  "getenv (kv # env) n =
     (case getenv env n of Some v \<Rightarrow> Some v
      | None \<Rightarrow> if CHR ''='' \<in> set kv \<and> env_name kv = n then Some (drop (Suc (length n)) kv) else None)"
proof -
  have "getenv [kv] n = (if CHR ''='' \<in> set kv \<and> env_name kv = n then Some (drop (Suc (length n)) kv) else None)"
    by (simp add: getenv_def)
  then show ?thesis using getenv_append [of "[kv]" env n] by (simp cong: option.case_cong)
qed

definition key_var :: "nat \<Rightarrow> string" where
  "key_var i = ''GIT_CONFIG_KEY_'' @ nat_digits i"

definition value_var :: "nat \<Rightarrow> string" where
  "value_var i = ''GIT_CONFIG_VALUE_'' @ nat_digits i"

lemma config_vars [simp]:
  "CHR ''='' \<notin> set (key_var i)" "CHR ''='' \<notin> set (value_var i)" "key_var i = key_var j \<longleftrightarrow> i = j"
  "value_var i = value_var j \<longleftrightarrow> i = j" "key_var i \<noteq> value_var j" "value_var i \<noteq> key_var j" "key_var i \<noteq> ''GIT_CONFIG_COUNT''"
  "value_var i \<noteq> ''GIT_CONFIG_COUNT''"
  using digits_no_eq by (auto simp: key_var_def value_var_def)

lemma config_env_Cons:
  "config_env i ((k, v) # kvs) = (key_var i @ ''='' @ k) # (value_var i @ ''='' @ v) # config_env (Suc i) kvs"
  by (simp add: key_var_def value_var_def)

lemma getenv_config:
  "getenv (config_env i kvs) (key_var j) = (if i \<le> j \<and> j < i + length kvs then Some (fst (kvs ! (j - i))) else None) \<and>
   getenv (config_env i kvs) (value_var j) = (if i \<le> j \<and> j < i + length kvs then Some (snd (kvs ! (j - i))) else None) \<and>
   getenv (config_env i kvs) ''GIT_CONFIG_COUNT'' = None"
proof (induction kvs arbitrary: i)
  case Nil
  then show ?case by (simp add: getenv_def)
next
  case (Cons kv kvs)
  obtain k v where kv: "kv = (k, v)" by (cases kv)
  have ev: "env_name (key_var i @ ''='' @ k) = key_var i" "env_name (value_var i @ ''='' @ v) = value_var i"
    using config_vars(1,2) env_name_assign by blast+
  show ?case
    unfolding kv config_env_Cons getenv_Cons ev
    using Cons.IH [of "Suc i"] by (auto simp: nth_Cons' Suc_le_eq split: if_splits)
qed

lemma collect_drivers_complete:
  "key \<in> set keys \<Longrightarrow> driverName (TrimSuffix key [CHR 0x0A]) = Some n \<Longrightarrow> n \<in> set seen \<union> set (collect_drivers seen keys)"
  by (induction seen keys rule: collect_drivers.induct) (auto split: option.splits if_splits)

lemma LastIndex_split: "LastIndex s c = Some i \<Longrightarrow> s = take i s @ c # drop (Suc i) s"
proof -
  assume l: "LastIndex s c = Some i"
  then have c: "c \<in> set s" and i: "i = length s - Suc (length (takeWhile (\<lambda>x. x \<noteq> c) (rev s)))"
    by (auto simp: LastIndex_def split: if_splits)
  have d: "dropWhile (\<lambda>x. x \<noteq> c) (rev s) \<noteq> []" using c by (auto simp: dropWhile_eq_Nil_conv)
  obtain t u where tu: "takeWhile (\<lambda>x. x \<noteq> c) (rev s) = t" "dropWhile (\<lambda>x. x \<noteq> c) (rev s) = c # u"
    using hd_dropWhile [OF d] d by (metis list.collapse)
  then have "rev s = t @ c # u" using takeWhile_dropWhile_id [of "\<lambda>x. x \<noteq> c" "rev s"] by simp
  then have s: "s = rev u @ c # rev t" by (simp add: rev_swap)
  then have "i = length u" using i tu(1) by simp
  then show ?thesis using s by simp
qed

lemma driverName_key:
  assumes "driverName key = Some n"
  shows "\<exists>attr \<in> set filterAttrs. key = ''filter.'' @ n @ ''.'' @ attr"
proof -
  let ?r = "drop 7 key"
  have p: "HasPrefix key ''filter.''" using assms unfolding driverName_def by (metis option.distinct(1))
  then have "take 7 key = ''filter.''" by (simp add: HasPrefix_def numeral_eq_Suc)
  then have k: "key = ''filter.'' @ ?r" by (metis append_take_drop_id)
  obtain i where i: "LastIndex ?r (CHR ''.'') = Some i" "drop (Suc i) ?r \<in> set filterAttrs" "n = take i ?r"
    using assms by (auto simp: driverName_def Let_def split: if_splits option.splits)
  have "?r = n @ ''.'' @ drop (Suc i) ?r" using LastIndex_split [OF i(1)] i(3) by simp
  then have "key = ''filter.'' @ n @ ''.'' @ drop (Suc i) ?r" using k by metis
  then show ?thesis using i(2) by blast
qed

lemma entries_neutralized:
  assumes "name \<in> set drivers" and "attr \<in> set filterAttrs"
  shows "neutralized (caller @ Overrides @ driverNeutralizationEnv drivers) (''filter.'' @ name @ ''.'' @ attr)"
proof -
  let ?kvs = "concat (map driver_entries drivers)"
  have "(''filter.'' @ name @ ''.'' @ attr, []) \<in> set (driver_entries name)" using assms(2) by (auto simp: driver_entries_def)
  then have "(''filter.'' @ name @ ''.'' @ attr, []) \<in> set ?kvs" using assms(1) by auto
  then obtain i where i: "i < length ?kvs" "?kvs ! i = (''filter.'' @ name @ ''.'' @ attr, [])" by (metis in_set_conv_nth)
  have e: "driverNeutralizationEnv drivers = (''GIT_CONFIG_COUNT='' @ nat_digits (length ?kvs)) # config_env 0 ?kvs"
    using assms(1) by (auto simp: driverNeutralizationEnv_def Let_def)
  note g = getenv_config [of 0 ?kvs i]
  have "getenv (driverNeutralizationEnv drivers) ''GIT_CONFIG_COUNT'' = Some (nat_digits (length ?kvs))"
    unfolding e getenv_Cons using g by (simp add: env_name_def)
  moreover have "getenv (driverNeutralizationEnv drivers) (key_var i) = Some (''filter.'' @ name @ ''.'' @ attr)"
    "getenv (driverNeutralizationEnv drivers) (value_var i) = Some []"
    unfolding e getenv_Cons using g i by simp_all
  ultimately show ?thesis unfolding neutralized_def key_var_def [symmetric] value_var_def [symmetric] append_assoc [symmetric]
    using i(1) by (intro exI [of _ i] exI [of _ "length ?kvs"]) (simp add: getenv_append)
qed


text \<open>The branch for a directory that is not a repository is dead: the error of a command that exits carries only
  its status.\<close>

lemma not_a_repository_dead: "filterDrivers (GitExit 128) = Inl ''exit status 128''"
  by code_simp

end
