(* ===== verification/Assertions.thy ===== *)
theory Assertions
  imports Go_Filepath Git_Safe
begin

text \<open>
  Settlement assertions and precondition commands: \<open>pkg/settlement/assertion.go\<close>, \<open>precondition.go\<close> and the command
  tokenizer of \<open>evaluate.go\<close>. A value of the parameter map is a string or an integer, the two kinds that
  \<open>parseParams\<close> and the engine's \<open>convertParams\<close> put there. An error is named by the branch that returns it.
\<close>

section \<open>Assertions\<close>

definition AllAssertionTypes :: "string list" where
  "AllAssertionTypes =
     [''file_modified'', ''file_hash_equals'', ''command_exit_code'', ''command_output_contains'', ''git_clean_worktree'',
      ''port_available'', ''no_regression'']"

datatype pvalue = PStr string | PInt int

definition pvalue_text :: "pvalue option \<Rightarrow> string" where
  "pvalue_text v = (case v of None \<Rightarrow> ''<nil>'' | Some (PStr s) \<Rightarrow> s | Some (PInt i) \<Rightarrow> decimal i)"

record SettAssertion =
  sa_ID :: string
  sa_Type :: string
  sa_Params :: "pvalue gomap"
  sa_Timeout :: int

datatype assertion_fault =
  UnknownType | RequiresParam string | BadExpectedHash | MissingColon | EmptyID | MissingType | BadPair string | EmptyKey

definition absent :: "pvalue gomap \<Rightarrow> string \<Rightarrow> bool" where
  "absent m k \<longleftrightarrow> map_get m k = None \<or> map_get m k = Some (PStr [])"

definition isHex :: "string \<Rightarrow> bool" where
  "isHex s \<longleftrightarrow> list_all (\<lambda>c. CHR ''0'' \<le> c \<and> c \<le> CHR ''9'' \<or> CHR ''a'' \<le> c \<and> c \<le> CHR ''f'') s"

definition AssertionValidate :: "SettAssertion \<Rightarrow> assertion_fault option" where
  "AssertionValidate a =
     (let ty = sa_Type a; m = sa_Params a in
      if ty \<notin> set AllAssertionTypes then Some UnknownType
      else if ty = ''file_modified'' then (if absent m ''path'' then Some (RequiresParam ''path'') else None)
      else if ty = ''file_hash_equals'' then
        (if absent m ''path'' then Some (RequiresParam ''path'')
         else if absent m ''expected_hash'' then Some (RequiresParam ''expected_hash'')
         else let h = pvalue_text (map_get m ''expected_hash'') in
           if length h \<noteq> 64 \<or> \<not> isHex h then Some BadExpectedHash else None)
      else if ty = ''command_exit_code'' then
        (if absent m ''command'' then Some (RequiresParam ''command'')
         else if map_get m ''expected_code'' = None then Some (RequiresParam ''expected_code'') else None)
      else if ty = ''command_output_contains'' then
        (if absent m ''command'' then Some (RequiresParam ''command'')
         else if absent m ''contains'' then Some (RequiresParam ''contains'') else None)
      else if ty = ''port_available'' then (if map_get m ''port'' = None then Some (RequiresParam ''port'') else None)
      else if ty = ''no_regression'' then (if absent m ''command'' then Some (RequiresParam ''command'') else None)
      else None)"

section \<open>The compact notation\<close>

definition quote_mark :: "char \<Rightarrow> bool" where
  "quote_mark c \<longleftrightarrow> c = CHR 0x22 \<or> c = CHR 0x27"

fun param_pairs :: "char option \<Rightarrow> string \<Rightarrow> string \<Rightarrow> string list" where
  "param_pairs q cur [] = (if TrimSpace cur \<noteq> [] then [TrimSpace cur] else [])"
| "param_pairs None cur (c # s) =
     (if quote_mark c then param_pairs (Some c) (cur @ [c]) s
      else if c = CHR '','' then TrimSpace cur # param_pairs None [] s
      else param_pairs None (cur @ [c]) s)"
| "param_pairs (Some q) cur (c # s) = param_pairs (if c = q then None else Some q) (cur @ [c]) s"

fun eq_index :: "char option \<Rightarrow> nat \<Rightarrow> string \<Rightarrow> nat option" where
  "eq_index q i [] = None"
| "eq_index None i (c # s) =
     (if quote_mark c then eq_index (Some c) (Suc i) s
      else if c = CHR ''='' then Some i else eq_index None (Suc i) s)"
| "eq_index (Some q) i (c # s) = eq_index (if c = q then None else Some q) (Suc i) s"

definition stripQuotes :: "string \<Rightarrow> string" where
  "stripQuotes s =
     (if 2 \<le> length s \<and> (hd s = CHR 0x22 \<and> last s = CHR 0x22 \<or> hd s = CHR 0x27 \<and> last s = CHR 0x27)
      then butlast (tl s) else s)"

fun add_pairs :: "pvalue gomap \<Rightarrow> string list \<Rightarrow> assertion_fault + pvalue gomap" where
  "add_pairs m [] = Inr m"
| "add_pairs m (p # ps) =
     (case eq_index None 0 p of
        None \<Rightarrow> Inl (BadPair p)
      | Some i \<Rightarrow>
          if i = 0 then Inl (BadPair p)
          else let key = TrimSpace (take i p); v = TrimSpace (drop (Suc i) p) in
            if key = [] then Inl EmptyKey else add_pairs (map_put m key (PStr (stripQuotes v))) ps)"

definition parseParams :: "string \<Rightarrow> assertion_fault + pvalue gomap" where
  "parseParams s = (if TrimSpace s = [] then Inr [] else add_pairs [] (param_pairs None [] s))"

definition ParseAssertion :: "string \<Rightarrow> assertion_fault + SettAssertion" where
  "ParseAssertion s =
     (case Index s '':'' of
        None \<Rightarrow> Inl MissingColon
      | Some i \<Rightarrow>
          if i = 0 then Inl MissingColon
          else let id = TrimSpace (take i s); rest = TrimSpace (drop (Suc i) s) in
            if id = [] then Inl EmptyID
            else (case Index rest '':'' of
                    None \<Rightarrow> Inl MissingType
                  | Some j \<Rightarrow>
                      if j = 0 then Inl MissingType
                      else let typ = TrimSpace (take j rest) in
                        if typ \<notin> set AllAssertionTypes then Inl UnknownType
                        else (case parseParams (TrimSpace (drop (Suc j) rest)) of
                                Inl e \<Rightarrow> Inl e
                              | Inr params \<Rightarrow>
                                  let a = \<lparr>sa_ID = id, sa_Type = typ, sa_Params = params, sa_Timeout = 0\<rparr> in
                                  (case AssertionValidate a of Some e \<Rightarrow> Inl e | None \<Rightarrow> Inr a))))"

section \<open>Commands\<close>

fun split_words :: "char option \<Rightarrow> string \<Rightarrow> string \<Rightarrow> string list" where
  "split_words q cur [] = (if TrimSpace cur \<noteq> [] then [TrimSpace cur] else [])"
| "split_words None cur (c # s) =
     (if quote_mark c then split_words (Some c) cur s
      else if c = CHR '' '' then
        (if TrimSpace cur \<noteq> [] then TrimSpace cur # split_words None [] s else split_words None cur s)
      else split_words None (cur @ [c]) s)"
| "split_words (Some q) cur (c # s) =
     (if c = q then split_words None cur s else split_words (Some q) (cur @ [c]) s)"

definition SplitCommand :: "string \<Rightarrow> string list" where
  "SplitCommand s = split_words None [] s"

definition allowedBinaries :: "string list" where
  "allowedBinaries =
     [''true'', ''false'', ''test'', ''['', ''go'', ''git'', ''python'', ''python3'', ''node'', ''cargo'', ''rustc'', ''docker'',
      ''pytest'']"

definition trustedSystemDirs :: "string list" where
  "trustedSystemDirs = [''/bin'', ''/usr/bin'', ''/usr/local/bin'']"

datatype precondition_fault =
  CommandEmpty | CommandNoTokens | UntrustedPath string | BinaryNotAllowed string | ArgumentsRequired
  | ArgumentForbidden string | SubcommandNotAllowed string | DiffNotQuiet | UnhandledBinary

definition first_in :: "string list \<Rightarrow> string list \<Rightarrow> precondition_fault option" where
  "first_in args oks =
     (case args of
        [] \<Rightarrow> Some ArgumentsRequired
      | a # _ \<Rightarrow> if a \<in> set oks then None else Some (SubcommandNotAllowed a))"

definition forbid :: "(string \<Rightarrow> bool) \<Rightarrow> string list \<Rightarrow> precondition_fault option \<Rightarrow> precondition_fault option" where
  "forbid P args k =
     (if args = [] then Some ArgumentsRequired
      else case find P args of Some a \<Rightarrow> Some (ArgumentForbidden a) | None \<Rightarrow> k)"

definition git_config_flag :: "string \<Rightarrow> bool" where
  "git_config_flag a \<longleftrightarrow>
     HasPrefix a ''-c'' \<or> HasPrefix a ''--config'' \<or> HasPrefix a ''--exec-path'' \<or> HasPrefix a ''--upload-pack''"

definition validateCommandArgs :: "string \<Rightarrow> string list \<Rightarrow> precondition_fault option" where
  "validateCommandArgs bin args =
     (if bin \<in> {''true'', ''false'', ''test'', ''[''} then None
      else if bin = ''go'' then first_in args [''version'', ''env'']
      else if bin = ''git'' then
        forbid git_config_flag args
          (if hd args = ''diff'' then (if ''--quiet'' \<in> set (tl args) then None else Some DiffNotQuiet)
           else first_in args [''status'', ''rev-parse'', ''describe'', ''version'', ''--version'', ''-v''])
      else if bin = ''python'' \<or> bin = ''python3'' then
        forbid (\<lambda>a. a = ''-c'' \<or> a = ''-m'') args (first_in args [''--version'', ''-V'', ''-v''])
      else if bin = ''node'' then
        forbid (\<lambda>a. a \<in> {''-e'', ''--eval'', ''-p'', ''--print''}) args (first_in args [''--version'', ''-v'', ''-V''])
      else if bin = ''cargo'' \<or> bin = ''rustc'' then first_in args [''--version'', ''-V'', ''version'']
      else if bin = ''docker'' then first_in args [''version'', ''--version'', ''-v'', ''info'']
      else if bin = ''pytest'' then first_in args [''--version'', ''-V'', ''-v'']
      else Some UnhandledBinary)"

definition ValidatePreconditionCommand :: "string \<Rightarrow> precondition_fault + string list" where
  "ValidatePreconditionCommand cmdStr =
     (if TrimSpace cmdStr = [] then Inl CommandEmpty
      else case SplitCommand cmdStr of
             [] \<Rightarrow> Inl CommandNoTokens
           | rawBin # args \<Rightarrow>
               if Contains rawBin ''/'' \<and> path_clean (fp_dir rawBin) \<notin> set trustedSystemDirs
               then Inl (UntrustedPath rawBin)
               else if fp_base rawBin \<notin> set allowedBinaries then Inl (BinaryNotAllowed (fp_base rawBin))
               else (case validateCommandArgs (fp_base rawBin) args of
                       Some e \<Rightarrow> Inl e
                     | None \<Rightarrow> Inr (rawBin # args)))"

section \<open>Accepted commands\<close>

text \<open>The first arguments with which each tool may be started.\<close>

definition inspection_args :: "string \<Rightarrow> string list" where
  "inspection_args bin =
     (if bin = ''go'' then [''version'', ''env'']
      else if bin = ''git'' then [''diff'', ''status'', ''rev-parse'', ''describe'', ''version'', ''--version'', ''-v'']
      else if bin \<in> {''python'', ''python3'', ''node'', ''pytest''} then [''--version'', ''-V'', ''-v'']
      else if bin \<in> {''cargo'', ''rustc''} then [''--version'', ''-V'', ''version'']
      else if bin = ''docker'' then [''version'', ''--version'', ''-v'', ''info''] else [])"

definition command_ok :: "string list \<Rightarrow> bool" where
  "command_ok parts =
     (case parts of
        [] \<Rightarrow> False
      | raw # args \<Rightarrow>
          (\<not> Contains raw ''/'' \<or> path_clean (fp_dir raw) \<in> set trustedSystemDirs) \<and>
          fp_base raw \<in> set allowedBinaries \<and>
          (fp_base raw \<in> {''true'', ''false'', ''test'', ''[''} \<or>
           args \<noteq> [] \<and> hd args \<in> set (inspection_args (fp_base raw)) \<and>
           (fp_base raw = ''git'' \<longrightarrow> \<not> list_ex git_config_flag args \<and> (hd args = ''diff'' \<longrightarrow> ''--quiet'' \<in> set (tl args))) \<and>
           (fp_base raw \<in> {''python'', ''python3''} \<longrightarrow> ''-c'' \<notin> set args \<and> ''-m'' \<notin> set args) \<and>
           (fp_base raw = ''node'' \<longrightarrow> set args \<inter> {''-e'', ''--eval'', ''-p'', ''--print''} = {})))"

lemma find_None_list_ex: "find P xs = None \<longleftrightarrow> \<not> list_ex P xs"
  by (induction xs) auto

lemma first_in_None: "first_in args oks = None \<longleftrightarrow> args \<noteq> [] \<and> hd args \<in> set oks"
  by (cases args) (auto simp: first_in_def)

lemma forbid_None: "forbid P args k = None \<longleftrightarrow> args \<noteq> [] \<and> \<not> list_ex P args \<and> k = None"
  by (auto simp: forbid_def find_None_list_ex [symmetric] split: option.splits)

lemma validateCommandArgs_iff:
  assumes "bin \<in> set allowedBinaries"
  shows "validateCommandArgs bin args = None \<longleftrightarrow>
     bin \<in> {''true'', ''false'', ''test'', ''[''} \<or>
     args \<noteq> [] \<and> hd args \<in> set (inspection_args bin) \<and>
     (bin = ''git'' \<longrightarrow> \<not> list_ex git_config_flag args \<and> (hd args = ''diff'' \<longrightarrow> ''--quiet'' \<in> set (tl args))) \<and>
     (bin \<in> {''python'', ''python3''} \<longrightarrow> ''-c'' \<notin> set args \<and> ''-m'' \<notin> set args) \<and>
     (bin = ''node'' \<longrightarrow> set args \<inter> {''-e'', ''--eval'', ''-p'', ''--print''} = {})"
  using assms unfolding allowedBinaries_def
  by (simp, elim disjE) (auto simp: validateCommandArgs_def inspection_args_def first_in_None forbid_None list_ex_iff)


text \<open>The list admits commands that run code or write: Python's and pytest's \<open>-v\<close> is verbose mode, not the version, and
  \<open>go env -w\<close> writes the tool's configuration.\<close>

lemma precondition_admits_code:
  "ValidatePreconditionCommand ''python3 -v evil.py'' = Inr [''python3'', ''-v'', ''evil.py'']"
  "ValidatePreconditionCommand ''pytest -v'' = Inr [''pytest'', ''-v'']"
  "ValidatePreconditionCommand ''go env -w GOFLAGS=-toolexec=x'' = Inr [''go'', ''env'', ''-w'', ''GOFLAGS=-toolexec=x'']"
  by code_simp+

section \<open>Tokens\<close>

lemma TrimSpace_no_space: "\<not> list_ex is_space s \<Longrightarrow> TrimSpace s = s"
proof -
  assume "\<not> list_ex is_space s"
  then have "\<forall>c \<in> set s. \<not> is_space c" by (auto simp: list_ex_iff)
  then have "dropWhile is_space s = s" "dropWhile is_space (rev s) = rev s"
    unfolding dropWhile_eq_self_iff by (metis hd_in_set, metis hd_in_set set_rev)
  then show ?thesis by (simp add: TrimSpace_def)
qed

definition plain_word :: "string \<Rightarrow> bool" where
  "plain_word w \<longleftrightarrow> w \<noteq> [] \<and> \<not> list_ex (\<lambda>c. is_space c \<or> quote_mark c) w"

lemma split_words_plain:
  "\<not> list_ex (\<lambda>c. is_space c \<or> quote_mark c) w \<Longrightarrow> split_words None cur (w @ s) = split_words None (cur @ w) s"
  by (induction w arbitrary: cur) (auto simp: is_space_def)

text \<open>Words without spaces and quotation marks survive the tokenizer.\<close>

lemma SplitCommand_words: "list_all plain_word ws \<Longrightarrow> SplitCommand (Join ws '' '') = ws"
proof (induction ws)
  case (Cons w ws)
  have w: "\<not> list_ex (\<lambda>c. is_space c \<or> quote_mark c) w" "w \<noteq> []" using Cons.prems by (auto simp: plain_word_def)
  then have tr: "TrimSpace w = w" by (intro TrimSpace_no_space) (auto simp: list_ex_iff)
  show ?case
  proof (cases "ws = []")
    case True
    then show ?thesis using split_words_plain [OF w(1), of "[]" "[]"] tr w(2) by (simp add: SplitCommand_def)
  next
    case False
    have "split_words None [] (w @ CHR '' '' # Join ws '' '') = w # split_words None [] (Join ws '' '')"
      unfolding split_words_plain [OF w(1)] using tr w(2) by (simp add: quote_mark_def)
    then show ?thesis using False Cons by (simp add: SplitCommand_def Join_Cons)
  qed
qed (simp add: SplitCommand_def TrimSpace_def)

end
