(* ===== verification/Go_Unicode.thy ===== *)
theory Go_Unicode
  imports Go_Base
begin

text \<open>
  UTF-8 and UTF-16 as Go's \<open>unicode/utf8\<close> and \<open>unicode/utf16\<close> packages define them: a string is a
  list of bytes, a rune a code point. \<open>decode_rune\<close> follows the acceptance table of
  \<open>utf8.DecodeRuneInString\<close> (no overlong forms, no surrogates, nothing above U+10FFFF); its \<open>None\<close> is
  the invalid result \<open>(RuneError, 1)\<close>. The lemmas show that decoding inverts \<open>utf8.EncodeRune\<close> and
  that \<open>utf16.Encode\<close> separates valid strings.
\<close>

definition byte :: "char \<Rightarrow> nat" where
  "byte c = of_char c"

definition in_range :: "nat \<Rightarrow> nat \<Rightarrow> char \<Rightarrow> bool" where
  "in_range lo hi c \<longleftrightarrow> lo \<le> byte c \<and> byte c \<le> hi"

lemma byte_less [simp]: "byte c < 256"
  unfolding byte_def by simp

lemma char_of_byte [simp]: "char_of (byte c) = c"
  unfolding byte_def by simp

lemma byte_char_of [simp]: "n < 256 \<Longrightarrow> byte (char_of n) = n"
  unfolding byte_def by simp

lemma byte_eq_iff: "byte a = byte b \<longleftrightarrow> a = b"
  by (metis char_of_byte)

fun decode_rune :: "string \<Rightarrow> (nat \<times> string \<times> string) option" where
  "decode_rune [] = None"
| "decode_rune (a # s) =
     (if byte a < 0x80 then Some (byte a, [a], s)
      else if in_range 0xC2 0xDF a then
        (case s of
           b # s' \<Rightarrow>
             if in_range 0x80 0xBF b
             then Some ((byte a - 0xC0) * 64 + (byte b - 0x80), [a, b], s') else None
         | _ \<Rightarrow> None)
      else if in_range 0xE0 0xEF a then
        (case s of
           b # c # s' \<Rightarrow>
             if in_range (if byte a = 0xE0 then 0xA0 else 0x80) (if byte a = 0xED then 0x9F else 0xBF) b \<and>
                in_range 0x80 0xBF c
             then Some ((byte a - 0xE0) * 4096 + (byte b - 0x80) * 64 + (byte c - 0x80), [a, b, c], s')
             else None
         | _ \<Rightarrow> None)
      else if in_range 0xF0 0xF4 a then
        (case s of
           b # c # d # s' \<Rightarrow>
             if in_range (if byte a = 0xF0 then 0x90 else 0x80) (if byte a = 0xF4 then 0x8F else 0xBF) b \<and>
                in_range 0x80 0xBF c \<and> in_range 0x80 0xBF d
             then Some ((byte a - 0xF0) * 262144 + (byte b - 0x80) * 4096 + (byte c - 0x80) * 64 +
                        (byte d - 0x80), [a, b, c, d], s')
             else None
         | _ \<Rightarrow> None)
      else None)"

text \<open>Code points are compared as integers when definitions are evaluated.\<close>

definition surrogate :: "nat \<Rightarrow> bool" where
  "surrogate r \<longleftrightarrow> 0xD800 \<le> r \<and> r \<le> 0xDFFF"

lemma surrogate_code [code]: "surrogate r \<longleftrightarrow> (let i = int r in 0xD800 \<le> i \<and> i \<le> 0xDFFF)"
  by (simp add: surrogate_def Let_def)

lemma in_range_code [code]: "in_range lo hi c \<longleftrightarrow> (let i = of_char c :: int in int lo \<le> i \<and> i \<le> int hi)"
  unfolding in_range_def byte_def Let_def by (metis of_nat_le_iff of_nat_of_char)

definition scalar :: "nat \<Rightarrow> bool" where
  "scalar r \<longleftrightarrow> r < 0xD800 \<or> (0xE000 \<le> r \<and> r < 0x110000)"

definition utf8_encode :: "nat \<Rightarrow> string" where
  "utf8_encode r =
     (if r < 0x80 then [char_of r]
      else if r < 0x800 then [char_of (0xC0 + r div 64), char_of (0x80 + r mod 64)]
      else if \<not> scalar r then [char_of (0xEF::nat), char_of (0xBF::nat), char_of (0xBD::nat)]
      else if r < 0x10000 then
        [char_of (0xE0 + r div 4096), char_of (0x80 + r div 64 mod 64), char_of (0x80 + r mod 64)]
      else
        [char_of (0xF0 + r div 262144), char_of (0x80 + r div 4096 mod 64),
         char_of (0x80 + r div 64 mod 64), char_of (0x80 + r mod 64)])"

lemma sixtyfour: "y < 64 \<Longrightarrow> (x * 64 + y) div 64 = x" "y < 64 \<Longrightarrow> (x * 64 + y) mod 64 = (y::nat)"
  by simp_all

lemma decode_rune_rest:
  "decode_rune s = Some (r, bs, rest) \<Longrightarrow> s = bs @ rest \<and> bs \<noteq> [] \<and> length rest < length s"
  by (cases s) (auto split: if_splits list.splits)

lemma decode_rune_append:
  "decode_rune s = Some (r, bs, rest) \<Longrightarrow> decode_rune (s @ t) = Some (r, bs, rest @ t)"
  by (cases s) (auto split: if_splits list.splits)

lemma decode_rune_prefix:
  assumes "decode_rune (bs @ rest) = Some (r, bs, rest)"
  shows "decode_rune (bs @ t) = Some (r, bs, t)"
proof -
  obtain a bs' where "bs = a # bs'" using decode_rune_rest [OF assms] by (cases bs) auto
  then show ?thesis using assms by (auto split: if_splits list.splits simp: Cons_eq_append_conv)
qed

lemma decode_two:
  assumes "in_range 0xC2 0xDF a" and "in_range 0x80 0xBF b"
  shows "utf8_encode ((byte a - 0xC0) * 64 + (byte b - 0x80)) = [a, b]"
    and "scalar ((byte a - 0xC0) * 64 + (byte b - 0x80))"
proof -
  define x y where "x = byte a - 0xC0" and "y = byte b - 0x80"
  have xy: "byte a = 0xC0 + x" "byte b = 0x80 + y" "2 \<le> x" "x < 32" "y < 64"
    using assms unfolding in_range_def x_def y_def by auto
  have ab: "a = char_of (0xC0 + x)" "b = char_of (0x80 + y)" using xy by (metis char_of_byte)+
  have "x * 64 + y < 0x800" "128 \<le> x * 64 + y" using xy by auto
  then show "utf8_encode ((byte a - 0xC0) * 64 + (byte b - 0x80)) = [a, b]"
    and "scalar ((byte a - 0xC0) * 64 + (byte b - 0x80))"
    using xy sixtyfour [of y x]
    unfolding x_def [symmetric] y_def [symmetric] by (simp_all add: utf8_encode_def ab scalar_def)
qed

lemma decode_three:
  assumes "in_range 0xE0 0xEF a" and "in_range (if byte a = 0xE0 then 0xA0 else 0x80) (if byte a = 0xED then 0x9F else 0xBF) b"
    and "in_range 0x80 0xBF c"
  shows "utf8_encode ((byte a - 0xE0) * 4096 + (byte b - 0x80) * 64 + (byte c - 0x80)) = [a, b, c]"
    and "scalar ((byte a - 0xE0) * 4096 + (byte b - 0x80) * 64 + (byte c - 0x80))"
proof -
  define x y z where "x = byte a - 0xE0" and "y = byte b - 0x80" and "z = byte c - 0x80"
  have e: "byte a = 0xE0 + x" "byte b = 0x80 + y" "byte c = 0x80 + z" "x < 16" "y < 64" "z < 64"
    "x = 0 \<Longrightarrow> 32 \<le> y" "x = 13 \<Longrightarrow> y < 32"
    using assms unfolding in_range_def x_def y_def z_def by (auto split: if_splits)
  have abc: "a = char_of (0xE0 + x)" "b = char_of (0x80 + y)" "c = char_of (0x80 + z)"
    using e by (metis char_of_byte)+
  let ?r = "x * 4096 + y * 64 + z"
  have r: "?r = (x * 64 + y) * 64 + z" by simp
  have d: "?r div 64 = x * 64 + y" "?r mod 64 = z" unfolding r using e sixtyfour by blast+
  have "?r div 4096 = ?r div 64 div 64" by (simp add: div_mult2_eq [symmetric])
  then have d2: "?r div 4096 = x" using d e by simp
  have "0x800 \<le> ?r" "?r < 0x10000" "scalar ?r"
    using e by (cases "x = 0"; cases "x = 13"; auto simp: scalar_def)+
  then show "utf8_encode ((byte a - 0xE0) * 4096 + (byte b - 0x80) * 64 + (byte c - 0x80)) = [a, b, c]"
    and "scalar ((byte a - 0xE0) * 4096 + (byte b - 0x80) * 64 + (byte c - 0x80))"
    using e(5) d d2
    unfolding x_def [symmetric] y_def [symmetric] z_def [symmetric] by (simp_all add: utf8_encode_def abc)
qed

lemma decode_four:
  assumes "in_range 0xF0 0xF4 a" and "in_range (if byte a = 0xF0 then 0x90 else 0x80) (if byte a = 0xF4 then 0x8F else 0xBF) b"
    and "in_range 0x80 0xBF c" and "in_range 0x80 0xBF d"
  shows "utf8_encode ((byte a - 0xF0) * 262144 + (byte b - 0x80) * 4096 + (byte c - 0x80) * 64 + (byte d - 0x80)) = [a, b, c, d]"
    and "scalar ((byte a - 0xF0) * 262144 + (byte b - 0x80) * 4096 + (byte c - 0x80) * 64 + (byte d - 0x80))"
proof -
  define x y z w where "x = byte a - 0xF0" and "y = byte b - 0x80" and "z = byte c - 0x80" and "w = byte d - 0x80"
  have e: "byte a = 0xF0 + x" "byte b = 0x80 + y" "byte c = 0x80 + z" "byte d = 0x80 + w"
    "x < 5" "y < 64" "z < 64" "w < 64" "x = 0 \<Longrightarrow> 16 \<le> y" "x = 4 \<Longrightarrow> y < 16"
    using assms unfolding in_range_def x_def y_def z_def w_def by (auto split: if_splits)
  have abcd: "a = char_of (0xF0 + x)" "b = char_of (0x80 + y)" "c = char_of (0x80 + z)" "d = char_of (0x80 + w)"
    using e by (metis char_of_byte)+
  let ?r = "x * 262144 + y * 4096 + z * 64 + w"
  have r: "?r = ((x * 64 + y) * 64 + z) * 64 + w" by simp
  have d1: "?r div 64 = (x * 64 + y) * 64 + z" "?r mod 64 = w" unfolding r using e sixtyfour by blast+
  have q: "?r div 4096 = ?r div 64 div 64" "?r div 262144 = ?r div 64 div 64 div 64"
    by (simp_all add: div_mult2_eq [symmetric])
  have d2: "?r div 4096 = x * 64 + y" "?r div 64 mod 64 = z" "(x * 64 + y) mod 64 = y"
    unfolding q d1 using e sixtyfour by blast+
  have d3: "?r div 262144 = x" unfolding q d1 using e sixtyfour by metis
  have "0x10000 \<le> ?r" "?r < 0x110000" using e by (cases "x = 0"; cases "x = 4"; auto)+
  then show "utf8_encode ((byte a - 0xF0) * 262144 + (byte b - 0x80) * 4096 + (byte c - 0x80) * 64 + (byte d - 0x80)) = [a, b, c, d]"
    and "scalar ((byte a - 0xF0) * 262144 + (byte b - 0x80) * 4096 + (byte c - 0x80) * 64 + (byte d - 0x80))"
    using d1 d2 d3
    unfolding x_def [symmetric] y_def [symmetric] z_def [symmetric] w_def [symmetric]
    by (simp_all add: utf8_encode_def abcd scalar_def)
qed

lemma decode_rune_encode:
  assumes "decode_rune s = Some (r, bs, rest)"
  shows "bs = utf8_encode r \<and> scalar r"
proof (cases s)
  case Nil
  then show ?thesis using assms by simp
next
  case (Cons a s')
  show ?thesis
  proof (cases "byte a < 0x80")
    case True
    then show ?thesis using assms Cons by (auto simp: utf8_encode_def scalar_def)
  next
    case False
    then consider "in_range 0xC2 0xDF a" | "in_range 0xE0 0xEF a" | "in_range 0xF0 0xF4 a"
      using assms Cons by (auto split: if_splits)
    then show ?thesis
    proof cases
      case 1
      then obtain b s'' where "s' = b # s''" "in_range 0x80 0xBF b"
        "r = (byte a - 0xC0) * 64 + (byte b - 0x80)" "bs = [a, b]"
        using assms Cons False by (auto split: list.splits if_splits)
      then show ?thesis using decode_two [OF 1] by metis
    next
      case 2
      then have "\<not> in_range 0xC2 0xDF a" by (auto simp: in_range_def)
      with 2 obtain b c s'' where "s' = b # c # s''"
        "in_range (if byte a = 0xE0 then 0xA0 else 0x80) (if byte a = 0xED then 0x9F else 0xBF) b" "in_range 0x80 0xBF c"
        "r = (byte a - 0xE0) * 4096 + (byte b - 0x80) * 64 + (byte c - 0x80)" "bs = [a, b, c]"
        using assms Cons False by (auto simp del: One_nat_def split: list.splits if_split_asm)
      then show ?thesis using decode_three [OF 2] by metis
    next
      case 3
      then have "\<not> in_range 0xC2 0xDF a" "\<not> in_range 0xE0 0xEF a" by (auto simp: in_range_def)
      with 3 obtain b c d s'' where "s' = b # c # d # s''"
        "in_range (if byte a = 0xF0 then 0x90 else 0x80) (if byte a = 0xF4 then 0x8F else 0xBF) b"
        "in_range 0x80 0xBF c" "in_range 0x80 0xBF d"
        "r = (byte a - 0xF0) * 262144 + (byte b - 0x80) * 4096 + (byte c - 0x80) * 64 + (byte d - 0x80)"
        "bs = [a, b, c, d]"
        using assms Cons False by (auto simp del: One_nat_def split: list.splits if_split_asm)
      then show ?thesis using decode_four [OF 3] by metis
    qed
  qed
qed

declare decode_rune.simps(2) [simp del]

lemma decode_rune_ascii [simp]: "byte a < 0x80 \<Longrightarrow> decode_rune (a # s) = Some (byte a, [a], s)"
  by (simp add: decode_rune.simps)

section \<open>Runes of a string\<close>

function runes :: "string \<Rightarrow> nat list option" where
  "runes s =
     (if s = [] then Some []
      else case decode_rune s of
             None \<Rightarrow> None
           | Some (r, _, rest) \<Rightarrow> map_option (Cons r) (runes rest))"
  by pat_completeness auto
termination
proof (relation "measure length")
  fix s x2 r p bs rest
  assume "decode_rune s = Some x2" "(r, p) = x2" "(bs, rest) = p"
  then have "decode_rune s = Some (r, bs, rest)" by simp
  then show "(rest, s) \<in> measure length" using decode_rune_rest by simp
qed simp

declare runes.simps [simp del]

lemma runes_Nil [simp]: "runes [] = Some []"
  by (simp add: runes.simps)

lemma runes_ConsD:
  assumes "runes s = Some (r # rs)"
  obtains rest where "decode_rune s = Some (r, utf8_encode r, rest)" "s = utf8_encode r @ rest"
    "runes rest = Some rs" "scalar r"
proof -
  obtain bs rest where d: "decode_rune s = Some (r, bs, rest)" "runes rest = Some rs"
    using assms by (subst (asm) runes.simps) (auto split: if_splits option.splits)
  then show thesis using that decode_rune_encode [OF d(1)] decode_rune_rest [OF d(1)] by blast
qed

lemma runes_NilD: "runes s = Some [] \<Longrightarrow> s = []"
  by (subst (asm) runes.simps) (auto split: if_splits option.splits)

definition utf8_valid :: "string \<Rightarrow> bool" where
  "utf8_valid s \<longleftrightarrow> runes s \<noteq> None"

lemma runes_encode: "runes s = Some rs \<Longrightarrow> s = concat (map utf8_encode rs) \<and> list_all scalar rs"
proof (induction rs arbitrary: s)
  case Nil
  then show ?case using runes_NilD by simp
next
  case (Cons r rs)
  then show ?case by (metis runes_ConsD concat.simps(2) list.map(2) list.pred_inject(2))
qed

lemma runes_inj: "runes s = Some rs \<Longrightarrow> runes t = Some rs \<Longrightarrow> s = t"
  using runes_encode by metis

lemma runes_append:
  "runes s = Some rs \<Longrightarrow> runes (s @ t) = map_option (append rs) (runes t)"
proof (induction rs arbitrary: s)
  case Nil
  then show ?case using runes_NilD [of s] by (simp add: option.map_ident)
next
  case (Cons r rs)
  then obtain rest where d: "decode_rune s = Some (r, utf8_encode r, rest)" "runes rest = Some rs"
    by (metis runes_ConsD)
  then have "runes (s @ t) = map_option (Cons r) (runes (rest @ t))"
    using decode_rune_append [OF d(1), of t] by (subst runes.simps) (auto dest: decode_rune_rest)
  then show ?case using Cons.IH [OF d(2)] by (simp add: option.map_comp comp_def)
qed

lemma utf8_valid_append: "utf8_valid s \<Longrightarrow> utf8_valid (s @ t) = utf8_valid t"
  unfolding utf8_valid_def by (auto simp: runes_append)

lemma utf8_valid_ascii: "list_all (\<lambda>c. byte c < 0x80) s \<Longrightarrow> utf8_valid s"
  unfolding utf8_valid_def by (induction s) (auto simp: runes.simps)

lemma utf8_encode_high:
  assumes "scalar r" and "0x80 \<le> r" and "c \<in> set (utf8_encode r)"
  shows "0x80 \<le> byte c"
proof -
  have "byte (char_of n) = n mod 256" for n :: nat unfolding byte_def by simp
  moreover have "r div 64 < 32" if "r < 0x800" using that by simp
  moreover have "r div 4096 < 16" if "r < 0x10000" using that by simp
  moreover have "r div 262144 < 5" using assms(1) by (auto simp: scalar_def)
  moreover have "n mod 64 < 64" for n :: nat by simp
  ultimately show ?thesis using assms
    by (auto simp: utf8_encode_def split: if_splits)
qed

section \<open>UTF-16\<close>

definition utf16_units :: "nat \<Rightarrow> nat list" where
  "utf16_units r = (if r < 0x10000 then [r]
                    else [0xD800 + (r - 0x10000) div 0x400, 0xDC00 + (r - 0x10000) mod 0x400])"

definition utf16 :: "string \<Rightarrow> nat list" where
  "utf16 s = (case runes s of None \<Rightarrow> [] | Some rs \<Rightarrow> concat (map utf16_units rs))"

lemma utf16_units_code [code]:
  "utf16_units r = (if int r < 0x10000 then [r]
                    else [0xD800 + (r - 0x10000) div 0x400, 0xDC00 + (r - 0x10000) mod 0x400])"
  by (simp add: utf16_units_def)

lemma surrogate_units:
  assumes "scalar r" and "\<not> r < 0x10000"
  shows "0xD800 \<le> hd (utf16_units r) \<and> hd (utf16_units r) < 0xDC00"
  using assms by (auto simp: utf16_units_def scalar_def)

lemma utf16_units_head:
  assumes "scalar r" and "scalar q" and "hd (utf16_units r) = hd (utf16_units q)"
  shows "r < 0x10000 \<longleftrightarrow> q < 0x10000"
  using assms surrogate_units [of r] surrogate_units [of q]
  by (auto simp: utf16_units_def scalar_def split: if_splits)

lemma utf16_units_inj:
  assumes "scalar r" and "scalar q" and "utf16_units r @ xs = utf16_units q @ ys"
  shows "r = q \<and> xs = ys"
proof -
  have h: "hd (utf16_units r) = hd (utf16_units q)"
    using assms(3) by (auto simp: utf16_units_def split: if_splits)
  show ?thesis
  proof (cases "r < 0x10000")
    case True
    then show ?thesis using assms(3) utf16_units_head [OF assms(1,2) h] by (simp add: utf16_units_def)
  next
    case False
    then have "(r - 0x10000) div 0x400 = (q - 0x10000) div 0x400" "(r - 0x10000) mod 0x400 = (q - 0x10000) mod 0x400"
      and e: "xs = ys" "\<not> q < 0x10000"
      using assms(3) utf16_units_head [OF assms(1,2) h] by (auto simp: utf16_units_def)
    then have "r - 0x10000 = q - 0x10000" by (metis mult_div_mod_eq)
    then show ?thesis using e False by simp
  qed
qed

lemma utf16_concat_inj:
  "list_all scalar rs \<Longrightarrow> list_all scalar qs \<Longrightarrow>
   concat (map utf16_units rs) = concat (map utf16_units qs) \<Longrightarrow> rs = qs"
proof (induction rs arbitrary: qs)
  case Nil
  then show ?case by (cases qs) (auto simp: utf16_units_def split: if_splits)
next
  case (Cons r rs)
  then obtain q qs' where q: "qs = q # qs'" by (cases qs) (auto simp: utf16_units_def split: if_splits)
  then have "r = q \<and> concat (map utf16_units rs) = concat (map utf16_units qs')"
    using Cons.prems utf16_units_inj [of r q] by simp
  then show ?case using Cons q by simp
qed

lemma utf16_inj: "utf8_valid s \<Longrightarrow> utf8_valid t \<Longrightarrow> utf16 s = utf16 t \<Longrightarrow> s = t"
  unfolding utf8_valid_def utf16_def
  by (auto) (metis runes_encode utf16_concat_inj)

end
