(* ===== verification/Jcs.thy ===== *)
theory Jcs
  imports Go_Unicode "HOL-Library.Word"
begin

text \<open>
  Canonical JSON: \<open>pkg/jcs/canonical.go\<close> and \<open>hash.go\<close>.

  A decoded value (Go's \<open>any\<close>) is a \<open>json\<close>; an object is the list of its members in some order of Go's
  map. The token stream of \<open>json.Decoder\<close> with \<open>UseNumber\<close>, which \<open>parseValue\<close>, \<open>parseObject\<close> and
  \<open>parseArray\<close> read, is taken from the bytes: white space, separators, literals, numbers and quoted
  strings are consumed as the decoder's token states accept them. A float64 is its bit pattern; what
  \<open>strconv.ParseFloat\<close> and \<open>strconv.FormatFloat\<close> with shortest precision return is the parameter
  \<open>number_format\<close>. Every error of the package is \<open>ErrNotValidJSON\<close>, the result \<open>None\<close>.
\<close>

unbundle bit_operations_syntax

datatype json =
  JNull | JBool bool | JNum string | JStr string | JArr "json list" | JObj "(string \<times> json) list"

record number_format =
  nf_parse :: "string \<Rightarrow> 64 word option"
  nf_format :: "char \<Rightarrow> 64 word \<Rightarrow> string"

section \<open>The syntax check\<close>

definition hex_val :: "char \<Rightarrow> nat option" where
  "hex_val c =
     (if in_range 48 57 c then Some (byte c - 48)
      else if in_range 97 102 c then Some (byte c - 87)
      else if in_range 65 70 c then Some (byte c - 55)
      else None)"

fun hex4 :: "string \<Rightarrow> nat option" where
  "hex4 (a # b # c # d # _) =
     (case (hex_val a, hex_val b, hex_val c, hex_val d) of
        (Some w, Some x, Some y, Some z) \<Rightarrow> Some (((w * 16 + x) * 16 + y) * 16 + z)
      | _ \<Rightarrow> None)"
| "hex4 _ = None"

function check_bytes :: "bool \<Rightarrow> string \<Rightarrow> bool" where
  "check_bytes inString [] = (\<not> inString)"
| "check_bytes False (b # s) = check_bytes (b = CHR 0x22) s"
| "check_bytes True (b # s) =
     (if b = CHR 0x22 then check_bytes False s
      else if byte b < 0x20 then False
      else if b \<noteq> CHR 0x5C then check_bytes True s
      else case s of
             [] \<Rightarrow> False
           | e # s' \<Rightarrow>
               if e \<in> {CHR 0x22, CHR 0x5C, CHR ''/'', CHR ''b'', CHR ''f'', CHR ''n'', CHR ''r'', CHR ''t''}
               then check_bytes True s'
               else if e = CHR ''u'' then
                 (case hex4 s' of
                    None \<Rightarrow> False
                  | Some cp \<Rightarrow>
                      if 0xD800 \<le> cp \<and> cp \<le> 0xDBFF then
                        (if take 2 (drop 4 s') \<noteq> [CHR 0x5C, CHR ''u''] then False
                         else case hex4 (drop 6 s') of
                                None \<Rightarrow> False
                              | Some low \<Rightarrow> 0xDC00 \<le> low \<and> low \<le> 0xDFFF \<and> check_bytes True (drop 10 s'))
                      else if 0xDC00 \<le> cp \<and> cp \<le> 0xDFFF then False
                      else check_bytes True (drop 4 s'))
               else False)"
  by pat_completeness auto
termination
  by (relation "measure (\<lambda>(i, s). length s)") auto

definition checkUnicodeAndSurrogates :: "string \<Rightarrow> bool" where
  "checkUnicodeAndSurrogates data \<longleftrightarrow> utf8_valid data \<and> check_bytes False data"

section \<open>The decoder\<close>

definition skip_ws :: "string \<Rightarrow> string" where
  "skip_ws s = dropWhile (\<lambda>c. c \<in> {CHR '' '', CHR 0x09, CHR 0x0D, CHR 0x0A}) s"

definition simple_escape :: "char \<Rightarrow> char option" where
  "simple_escape e = map_of
     [(CHR 0x22, CHR 0x22), (CHR 0x5C, CHR 0x5C), (CHR ''/'', CHR ''/''), (CHR ''b'', CHR 0x08),
      (CHR ''f'', CHR 0x0C), (CHR ''n'', CHR 0x0A), (CHR ''r'', CHR 0x0D), (CHR ''t'', CHR 0x09)] e"

definition surrogate_pair :: "nat \<Rightarrow> string \<Rightarrow> nat option" where
  "surrogate_pair hi s =
     (if take 2 s \<noteq> [CHR 0x5C, CHR ''u''] then None
      else case hex4 (drop 2 s) of
             None \<Rightarrow> None
           | Some lo \<Rightarrow>
               if hi \<le> 0xDBFF \<and> 0xDC00 \<le> lo \<and> lo \<le> 0xDFFF
               then Some (0x10000 + (hi - 0xD800) * 0x400 + (lo - 0xDC00)) else None)"

definition prepend :: "string \<Rightarrow> (string \<times> string) option \<Rightarrow> (string \<times> string) option" where
  "prepend p = map_option (\<lambda>(t, r). (p @ t, r))"

function parse_string :: "string \<Rightarrow> (string \<times> string) option" where
  "parse_string [] = None"
| "parse_string (c # s) =
     (if c = CHR 0x22 then Some ([], s)
      else if byte c < 0x20 then None
      else if c \<noteq> CHR 0x5C then prepend [c] (parse_string s)
      else case s of
             [] \<Rightarrow> None
           | e # s' \<Rightarrow>
               (case simple_escape e of
                  Some d \<Rightarrow> prepend [d] (parse_string s')
                | None \<Rightarrow>
                    if e \<noteq> CHR ''u'' then None
                    else case hex4 s' of
                           None \<Rightarrow> None
                         | Some cp \<Rightarrow>
                             if 0xD800 \<le> cp \<and> cp \<le> 0xDFFF then
                               (case surrogate_pair cp (drop 4 s') of
                                  Some r \<Rightarrow> prepend (utf8_encode r) (parse_string (drop 10 s'))
                                | None \<Rightarrow> prepend (utf8_encode 0xFFFD) (parse_string (drop 4 s')))
                             else prepend (utf8_encode cp) (parse_string (drop 4 s'))))"
  by pat_completeness auto
termination
  by (relation "measure length") auto

definition is_digit :: "char \<Rightarrow> bool" where
  "is_digit c \<longleftrightarrow> in_range 48 57 c"

text \<open>The number scanner: sign and integer part, fraction, exponent, each with the text it consumes.\<close>

definition digits1 :: "string \<Rightarrow> (string \<times> string) option" where
  "digits1 s = (let ds = takeWhile is_digit s in if ds = [] then None else Some (ds, drop (length ds) s))"

fun lex_nat :: "string \<Rightarrow> (string \<times> string) option" where
  "lex_nat [] = None"
| "lex_nat (c # s) = (if c = CHR ''0'' then Some ([c], s) else digits1 (c # s))"

fun lex_int :: "string \<Rightarrow> (string \<times> string) option" where
  "lex_int [] = None"
| "lex_int (c # s) = (if c = CHR ''-'' then prepend [c] (lex_nat s) else lex_nat (c # s))"

fun lex_frac :: "string \<Rightarrow> (string \<times> string) option" where
  "lex_frac [] = Some ([], [])"
| "lex_frac (c # s) = (if c = CHR ''.'' then prepend [c] (digits1 s) else Some ([], c # s))"

fun lex_exp_digits :: "string \<Rightarrow> (string \<times> string) option" where
  "lex_exp_digits [] = None"
| "lex_exp_digits (c # s) =
     (if c = CHR ''+'' \<or> c = CHR ''-'' then prepend [c] (digits1 s) else digits1 (c # s))"

fun lex_exp :: "string \<Rightarrow> (string \<times> string) option" where
  "lex_exp [] = Some ([], [])"
| "lex_exp (c # s) =
     (if c = CHR ''e'' \<or> c = CHR ''E'' then prepend [c] (lex_exp_digits s) else Some ([], c # s))"

definition lex_number :: "string \<Rightarrow> (string \<times> string) option" where
  "lex_number s =
     (case lex_int s of
        None \<Rightarrow> None
      | Some (i, r) \<Rightarrow>
          (case lex_frac r of
             None \<Rightarrow> None
           | Some (f, r') \<Rightarrow> prepend (i @ f) (lex_exp r')))"

definition literal :: "string \<Rightarrow> json \<Rightarrow> string \<Rightarrow> (json \<times> string) option" where
  "literal w v s = (if HasPrefix s w then Some (v, drop (length w) s) else None)"

definition parse_scalar :: "string \<Rightarrow> (json \<times> string) option" where
  "parse_scalar s =
     (case s of
        [] \<Rightarrow> None
      | c # r \<Rightarrow>
          if c = CHR 0x22 then map_option (map_prod JStr id) (parse_string r)
          else if c = CHR ''t'' then literal ''true'' (JBool True) s
          else if c = CHR ''f'' then literal ''false'' (JBool False) s
          else if c = CHR ''n'' then literal ''null'' JNull s
          else map_option (map_prod JNum id) (lex_number s))"

text \<open>What the decoder reads before the next element of an array or an object: nothing before the
  first one, a comma before every other.\<close>

definition next_element :: "bool \<Rightarrow> string \<Rightarrow> string option" where
  "next_element first s =
     (if first then Some s
      else case s of c # r \<Rightarrow> if c = CHR '','' then Some (skip_ws r) else None | [] \<Rightarrow> None)"

text \<open>A key and the colon after it.\<close>

definition parse_key :: "string \<Rightarrow> (string \<times> string) option" where
  "parse_key s =
     (case s of
        [] \<Rightarrow> None
      | q # r \<Rightarrow>
          if q \<noteq> CHR 0x22 then None
          else case parse_string r of
                 None \<Rightarrow> None
               | Some (k, r1) \<Rightarrow>
                   (case skip_ws r1 of
                      d # r2 \<Rightarrow> if d = CHR '':'' then Some (k, r2) else None
                    | [] \<Rightarrow> None))"

lemma length_skip_ws: "length (skip_ws s) \<le> length s"
  unfolding skip_ws_def by (rule length_dropWhile_le)

lemma parse_string_length: "parse_string s = Some (t, r) \<Longrightarrow> length r < length s"
proof (induction s arbitrary: t rule: parse_string.induct)
  case 1
  then show ?case by simp
next
  case (2 c s)
  then show ?case
    by (fastforce simp: prepend_def split: if_splits list.splits option.splits)
qed

lemma digits1_length: "digits1 s = Some (t, r) \<Longrightarrow> length r < length s"
  unfolding digits1_def Let_def
  by (auto split: if_splits) (metis diff_less length_greater_0_conv takeWhile_eq_Nil_iff)

lemma lex_nat_length: "lex_nat s = Some (t, r) \<Longrightarrow> length r < length s"
  by (cases s) (auto split: if_splits dest: digits1_length)

lemma lex_int_length: "lex_int s = Some (t, r) \<Longrightarrow> length r < length s"
  by (cases s) (auto simp: prepend_def split: if_splits dest: digits1_length lex_nat_length)

lemma lex_frac_length: "lex_frac s = Some (t, r) \<Longrightarrow> length r \<le> length s"
  by (cases s) (auto simp: prepend_def split: if_splits dest: digits1_length)

lemma lex_exp_length: "lex_exp s = Some (t, r) \<Longrightarrow> length r \<le> length s"
  by (cases s; cases "tl s") (auto simp: prepend_def split: if_splits dest: digits1_length)

lemma lex_number_length: "lex_number s = Some (t, r) \<Longrightarrow> length r < length s"
  by (auto simp: lex_number_def prepend_def split: option.splits
      dest!: lex_int_length lex_frac_length lex_exp_length)

lemma parse_scalar_length: "parse_scalar s = Some (v, r) \<Longrightarrow> length r < length s"
  by (cases s)
    (auto simp: parse_scalar_def literal_def HasPrefix_def split: if_splits
      dest: parse_string_length lex_number_length)

lemma next_element_length: "next_element first s = Some r \<Longrightarrow> length r \<le> length s"
  unfolding next_element_def using length_skip_ws
  by (auto split: if_splits list.splits) (meson le_SucI)

lemma parse_key_length: "parse_key s = Some (k, r) \<Longrightarrow> length r < length s"
  unfolding parse_key_def
  using length_skip_ws
  by (auto split: if_splits list.splits option.splits dest!: parse_string_length)
    (metis length_Cons less_SucI less_trans_Suc less_le_trans not_less_eq le_less_trans Suc_lessD)

section \<open>The strict parser\<close>

function parse_value :: "string \<Rightarrow> (json \<times> string) option"
  and parse_object :: "(string \<times> json) list \<Rightarrow> bool \<Rightarrow> string \<Rightarrow> (json \<times> string) option"
  and parse_array :: "json list \<Rightarrow> bool \<Rightarrow> string \<Rightarrow> (json \<times> string) option" where
  "parse_value s =
     (case skip_ws s of
        [] \<Rightarrow> None
      | c # r \<Rightarrow>
          if c = CHR ''{'' then parse_object [] True r
          else if c = CHR ''['' then parse_array [] True r
          else parse_scalar (c # r))"
| "parse_object obj first s =
     (case skip_ws s of
        [] \<Rightarrow> None
      | c # r \<Rightarrow>
          if c = CHR ''}'' then Some (JObj obj, r)
          else if c = CHR '']'' then None
          else case next_element first (c # r) of
                 None \<Rightarrow> None
               | Some s1 \<Rightarrow>
                   (case parse_key s1 of
                      None \<Rightarrow> None
                    | Some (key, s2) \<Rightarrow>
                        if map_of obj key \<noteq> None then None
                        else case parse_value s2 of
                               None \<Rightarrow> None
                             | Some (val, s3) \<Rightarrow> parse_object (obj @ [(key, val)]) False s3))"
| "parse_array arr first s =
     (case skip_ws s of
        [] \<Rightarrow> None
      | c # r \<Rightarrow>
          if c = CHR '']'' then Some (JArr arr, r)
          else if c = CHR ''}'' then None
          else case next_element first (c # r) of
                 None \<Rightarrow> None
               | Some s1 \<Rightarrow>
                   (case parse_value s1 of
                      None \<Rightarrow> None
                    | Some (elem, s2) \<Rightarrow> parse_array (arr @ [elem]) False s2))"
  by pat_completeness auto

lemma skip_ws_shorter: "skip_ws s = c # r \<Longrightarrow> length r < length s"
  using length_skip_ws [of s] by simp

lemma next_element_ws: "skip_ws s = c # r \<Longrightarrow> next_element first (c # r) = Some s1 \<Longrightarrow> length s1 \<le> length s"
  using next_element_length length_skip_ws by (metis le_trans)

lemma parse_pairs_length:
  "parse_value_parse_object_parse_array_dom (Inl s) \<Longrightarrow> parse_value s = Some (v, r) \<Longrightarrow> length r < length s"
  "parse_value_parse_object_parse_array_dom (Inr (Inl (obj, first, s))) \<Longrightarrow>
     parse_object obj first s = Some (v, r) \<Longrightarrow> length r < length s"
  "parse_value_parse_object_parse_array_dom (Inr (Inr (arr, first, s))) \<Longrightarrow>
     parse_array arr first s = Some (v, r) \<Longrightarrow> length r < length s"
proof (induction s and obj first s and arr first s arbitrary: v r and v r and v r
    rule: parse_value_parse_object_parse_array.pinduct)
  case (1 s)
  from 1(4) obtain c r0 where ws: "skip_ws s = c # r0"
    unfolding parse_value.psimps [OF 1(1)] by (auto split: list.splits)
  then show ?case
    using 1(2,3) 1(4) skip_ws_shorter [OF ws] length_skip_ws [of s] parse_scalar_length [of "c # r0" v r]
    unfolding parse_value.psimps [OF 1(1)] by (fastforce split: if_splits)
next
  case (2 obj first s)
  note eq = 2(4) [unfolded parse_object.psimps [OF 2(1)]]
  from eq obtain c r0 where ws: "skip_ws s = c # r0" by (auto split: list.splits)
  show ?case
  proof (cases "c = CHR ''}''")
    case True
    then show ?thesis using eq ws by (auto dest: skip_ws_shorter)
  next
    case False
    with eq ws obtain s1 key s2 val s3 where e: "c \<noteq> CHR '']''" "next_element first (c # r0) = Some s1"
      "parse_key s1 = Some (key, s2)" "map_of obj key = None" "parse_value s2 = Some (val, s3)"
      "parse_object (obj @ [(key, val)]) False s3 = Some (v, r)"
      by (auto split: option.splits if_splits)
    have "length s3 < length s2" using 2(2) ws False e by blast
    moreover have "length r < length s3" using 2(3) ws False e by blast
    moreover have "length s2 < length s1" using e(3) by (rule parse_key_length)
    moreover have "length s1 \<le> length s" using ws e(2) by (rule next_element_ws)
    ultimately show ?thesis by simp
  qed
next
  case (3 arr first s)
  note eq = 3(4) [unfolded parse_array.psimps [OF 3(1)]]
  from eq obtain c r0 where ws: "skip_ws s = c # r0" by (auto split: list.splits)
  show ?case
  proof (cases "c = CHR '']''")
    case True
    then show ?thesis using eq ws by (auto dest: skip_ws_shorter)
  next
    case False
    with eq ws obtain s1 el s2 where e: "c \<noteq> CHR ''}''" "next_element first (c # r0) = Some s1"
      "parse_value s1 = Some (el, s2)" "parse_array (arr @ [el]) False s2 = Some (v, r)"
      by (auto split: option.splits if_splits)
    have "length s2 < length s1" using 3(2) ws False e by blast
    moreover have "length r < length s2" using 3(3) ws False e by blast
    moreover have "length s1 \<le> length s" using ws e(2) by (rule next_element_ws)
    ultimately show ?thesis by simp
  qed
qed

termination parse_value
proof (relation "measure (\<lambda>x. case x of Inl s \<Rightarrow> 2 * length s | Inr (Inl (_, _, s)) \<Rightarrow> 2 * length s + 1
      | Inr (Inr (_, _, s)) \<Rightarrow> 2 * length s + 1)")
qed (auto dest!: parse_pairs_length parse_key_length dest: skip_ws_shorter next_element_ws)

declare parse_value.simps [simp del] parse_object.simps [simp del] parse_array.simps [simp del]

definition parseStrict :: "string \<Rightarrow> json option" where
  "parseStrict input =
     (case parse_value input of
        None \<Rightarrow> None
      | Some (v, r) \<Rightarrow> if skip_ws r = [] then Some v else None)"

section \<open>The canonical serializer\<close>

definition invalidPattern :: "64 word" where
  "invalidPattern = 0x7ff0000000000000"

definition abs_bits :: "64 word \<Rightarrow> 64 word" where
  "abs_bits f = f AND 0x7fffffffffffffff"

text \<open>The bit patterns of 1e-6 and 1e+21; for positive floats the order of the values is the order of
  the patterns.\<close>

definition number_kind :: "64 word \<Rightarrow> char" where
  "number_kind g = (if g < 0x444b1ae4d6e2ef50 \<and> 0x3eb0c6f7a0b5ed8d \<le> g then CHR ''f'' else CHR ''e'')"

definition trim_exponent :: "string \<Rightarrow> string" where
  "trim_exponent t =
     (case Index t ''e'' of
        None \<Rightarrow> t
      | Some e \<Rightarrow>
          if 0 < e \<and> e + 2 < length t \<and> t ! (e + 2) = CHR ''0''
          then take (e + 2) t @ drop (e + 3) t else t)"

definition numberToJSON :: "number_format \<Rightarrow> 64 word \<Rightarrow> string option" where
  "numberToJSON nf f =
     (if f AND invalidPattern = invalidPattern then None
      else if abs_bits f = 0 then Some ''0''
      else Some ((if bit f 63 then ''-'' else []) @
                 trim_exponent (nf_format nf (number_kind (abs_bits f)) (abs_bits f))))"

definition escape_char :: "char \<Rightarrow> string" where
  "escape_char b =
     (if b = CHR 0x22 then [CHR 0x5C, CHR 0x22]
      else if b = CHR 0x5C then [CHR 0x5C, CHR 0x5C]
      else if b = CHR 0x08 then [CHR 0x5C, CHR ''b'']
      else if b = CHR 0x0C then [CHR 0x5C, CHR ''f'']
      else if b = CHR 0x0A then [CHR 0x5C, CHR ''n'']
      else if b = CHR 0x0D then [CHR 0x5C, CHR ''r'']
      else if b = CHR 0x09 then [CHR 0x5C, CHR ''t'']
      else if byte b < 0x20 then
        [CHR 0x5C, CHR ''u'', CHR ''0'', CHR ''0'', hex_digit (byte b div 16), hex_digit (byte b mod 16)]
      else [b])"

definition short_escape :: "char \<Rightarrow> bool" where
  "short_escape b \<longleftrightarrow> byte b < 0x20 \<or> b = CHR 0x22 \<or> b = CHR 0x5C"

function serialize_body :: "string \<Rightarrow> string option" where
  "serialize_body [] = Some []"
| "serialize_body (b # s) =
     (if short_escape b then map_option (append (escape_char b)) (serialize_body s)
      else case decode_rune (b # s) of
             None \<Rightarrow> None
           | Some (r, bs, rest) \<Rightarrow>
               if surrogate r then None else map_option (append bs) (serialize_body rest))"
  by pat_completeness auto
termination
proof (relation "measure length")
  fix b s x2 r p bs rest
  assume "decode_rune (b # s) = Some x2" "(r, p) = x2" "(bs, rest) = p"
  then have d: "decode_rune (b # s) = Some (r, bs, rest)" by simp
  show "(rest, b # s) \<in> measure length" using decode_rune_rest [OF d] by simp
qed simp_all

definition serializeString :: "string \<Rightarrow> string option" where
  "serializeString s =
     (if \<not> utf8_valid s then None
      else map_option (\<lambda>t. CHR 0x22 # t @ [CHR 0x22]) (serialize_body s))"

fun utf16Less :: "nat list \<Rightarrow> nat list \<Rightarrow> bool" where
  "utf16Less a [] = False"
| "utf16Less [] (y # b) = True"
| "utf16Less (x # a) (y # b) = (if x \<noteq> y then x < y else utf16Less a b)"

fun insert_member :: "string \<times> 'a \<Rightarrow> (string \<times> 'a) list \<Rightarrow> (string \<times> 'a) list" where
  "insert_member m [] = [m]"
| "insert_member m (x # xs) =
     (if utf16Less (utf16 (fst x)) (utf16 (fst m)) then x # insert_member m xs else m # x # xs)"

definition sort_members :: "(string \<times> 'a) list \<Rightarrow> (string \<times> 'a) list" where
  "sort_members ms = foldr insert_member ms []"

lemma mset_insert_member [simp]: "mset (insert_member m xs) = add_mset m (mset xs)"
  by (induction xs) auto

lemma mset_sort_members [simp]: "mset (sort_members ms) = mset ms"
  unfolding sort_members_def by (induction ms) auto

lemma set_sort_members [simp, termination_simp]: "set (sort_members ms) = set ms"
  by (metis mset_sort_members set_mset_mset)

definition member_text :: "string \<Rightarrow> string option \<Rightarrow> string option" where
  "member_text k t =
     (case serializeString k of None \<Rightarrow> None | Some ks \<Rightarrow> map_option (\<lambda>v. ks @ CHR '':'' # v) t)"

fun serializeCanonical :: "number_format \<Rightarrow> json \<Rightarrow> string option" where
  "serializeCanonical nf JNull = Some ''null''"
| "serializeCanonical nf (JBool b) = Some (if b then ''true'' else ''false'')"
| "serializeCanonical nf (JNum t) =
     (case nf_parse nf t of None \<Rightarrow> None | Some f \<Rightarrow> numberToJSON nf f)"
| "serializeCanonical nf (JStr s) = serializeString s"
| "serializeCanonical nf (JArr vs) =
     map_option (\<lambda>ts. ''['' @ Join ts '','' @ '']'') (those (map (serializeCanonical nf) vs))"
| "serializeCanonical nf (JObj ms) =
     (if list_ex (\<lambda>(k, v). \<not> utf8_valid k) ms then None
      else map_option (\<lambda>ts. ''{'' @ Join ts '','' @ ''}'')
             (those (map (\<lambda>(k, v). member_text k (serializeCanonical nf v)) (sort_members ms))))"

definition Canonicalize :: "number_format \<Rightarrow> string \<Rightarrow> string option" where
  "Canonicalize nf input =
     (if \<not> checkUnicodeAndSurrogates input then None
      else case parseStrict input of None \<Rightarrow> None | Some v \<Rightarrow> serializeCanonical nf v)"

text \<open>\<open>Hash\<close> and \<open>HashHex\<close>: \<open>sha\<close> is the hex text of the SHA-256 digest.\<close>

definition HashHex :: "number_format \<Rightarrow> (string \<Rightarrow> string) \<Rightarrow> string \<Rightarrow> string option" where
  "HashHex nf sha input = map_option sha (Canonicalize nf input)"

end
