(* ===== verification/Jcs_Canonical.thy ===== *)
theory Jcs_Canonical
  imports Jcs
begin

text \<open>
  What canonicalization guarantees. The serializer's output passes the syntax check and parses back to
  the normal form of the value it came from (members sorted, numbers rewritten), so canonicalizing twice
  changes nothing, two values have the same canonical bytes exactly when they have the same normal form,
  and the order in which Go ranges over an object's map does not matter. The only facts used of the
  number conversions are those of \<open>number_format_ok\<close>, which the documentation of \<open>strconv\<close> states.
\<close>

section \<open>Strings\<close>

lemma escape_char_plain: "\<not> short_escape c \<Longrightarrow> escape_char c = [c]"
  unfolding short_escape_def escape_char_def by (auto simp: byte_def)

lemma high_not_short: "0x80 \<le> byte c \<Longrightarrow> \<not> short_escape c"
  unfolding short_escape_def by (auto simp: byte_def)

lemma escape_high: "(\<And>c. c \<in> set bs \<Longrightarrow> 0x80 \<le> byte c) \<Longrightarrow> concat (map escape_char bs) = bs"
  by (induction bs) (auto simp: escape_char_plain high_not_short)

lemma serialize_body_runes:
  "runes s = Some rs \<Longrightarrow> serialize_body s = Some (concat (map escape_char s))"
proof (induction rs arbitrary: s)
  case Nil
  then show ?case using runes_NilD by force
next
  case (Cons r rs)
  then obtain rest where d: "decode_rune s = Some (r, utf8_encode r, rest)" "s = utf8_encode r @ rest"
    "runes rest = Some rs" "scalar r" by (metis runes_ConsD)
  note IH = Cons.IH [OF d(3)]
  show ?case
  proof (cases "r < 0x80")
    case True
    then have s: "s = char_of r # rest" using d(2) by (simp add: utf8_encode_def)
    then show ?thesis using IH d(1) True by (auto simp: escape_char_plain utf8_encode_def surrogate_def)
  next
    case False
    then have hi: "0x80 \<le> byte c" if "c \<in> set (utf8_encode r)" for c
      using utf8_encode_high [OF d(4)] that by auto
    obtain b bs where b: "utf8_encode r = b # bs" using decode_rune_rest [OF d(1)] by (cases "utf8_encode r") auto
    have e: "concat (map escape_char (utf8_encode r)) = utf8_encode r" using hi by (rule escape_high)
    have ns: "\<not> short_escape b" using hi b by (intro high_not_short) simp
    have "\<not> surrogate r" using d(4) by (auto simp: scalar_def surrogate_def)
    then have "serialize_body s = map_option (append (utf8_encode r)) (serialize_body rest)"
      using d(1,2) b ns by auto
    then show ?thesis using IH e d(2) by simp
  qed
qed

lemma serializeString_eq:
  "serializeString s = (if utf8_valid s then Some (CHR 0x22 # concat (map escape_char s) @ [CHR 0x22]) else None)"
  unfolding serializeString_def by (auto simp: utf8_valid_def serialize_body_runes)

lemma hex_digit_val: "n < 16 \<Longrightarrow> hex_val (hex_digit n) = Some n"
  unfolding hex_val_def hex_digit_def by (auto simp: in_range_def)

lemma escape_cases:
  obtains "\<not> short_escape c" "escape_char c = [c]"
  | e where "escape_char c = [CHR 0x5C, e]" "simple_escape e = Some c"
  | "byte c < 0x20" "escape_char c = [CHR 0x5C, CHR ''u'', CHR ''0'', CHR ''0'', hex_digit (byte c div 16), hex_digit (byte c mod 16)]"
proof (cases "c \<in> {CHR 0x22, CHR 0x5C, CHR 0x08, CHR 0x0C, CHR 0x0A, CHR 0x0D, CHR 0x09}")
  case True
  then show ?thesis using that(2) by (auto simp: escape_char_def simple_escape_def)
next
  case False
  then show ?thesis using that(1,3) by (cases "byte c < 0x20") (auto simp: escape_char_def short_escape_def)
qed

lemma hex4_control:
  "byte c < 0x20 \<Longrightarrow>
   hex4 (CHR ''0'' # CHR ''0'' # hex_digit (byte c div 16) # hex_digit (byte c mod 16) # s) = Some (byte c)"
proof -
  assume "byte c < 0x20"
  then have "byte c div 16 < 16" "byte c mod 16 < 16" by auto
  moreover have "hex_val (CHR ''0'') = Some 0" by (simp add: hex_val_def in_range_def byte_def)
  ultimately show ?thesis by (simp add: hex_digit_val)
qed

lemma parse_string_escape: "parse_string (escape_char c @ s) = prepend [c] (parse_string s)"
proof (cases c rule: escape_cases)
  case 1
  then show ?thesis by (auto simp: short_escape_def)
next
  case (2 e)
  then show ?thesis by (simp add: byte_def)
next
  case 3
  have "utf8_encode (byte c) = [c]" using 3(1) by (simp add: utf8_encode_def)
  moreover have "simple_escape (CHR ''u'') = None" by (simp add: simple_escape_def)
  ultimately show ?thesis using 3 hex4_control [OF 3(1), of s] by (simp add: byte_def)
qed

lemma parse_string_body:
  "parse_string (concat (map escape_char s) @ CHR 0x22 # r) = Some (s, r)"
  by (induction s) (simp_all add: parse_string_escape prepend_def)

lemma check_bytes_escape: "check_bytes True (escape_char c @ s) = check_bytes True s"
proof (cases c rule: escape_cases)
  case 1
  then show ?thesis by (auto simp: short_escape_def)
next
  case (2 e)
  then have "e \<in> {CHR 0x22, CHR 0x5C, CHR ''/'', CHR ''b'', CHR ''f'', CHR ''n'', CHR ''r'', CHR ''t''}"
    by (auto simp: simple_escape_def split: if_splits)
  then show ?thesis using 2 by (auto simp: byte_def)
next
  case 3
  then show ?thesis using hex4_control [OF 3(1), of s] by (simp add: byte_def)
qed

lemma check_bytes_body:
  "check_bytes True (concat (map escape_char s) @ CHR 0x22 # r) = check_bytes False r"
  by (induction s) (simp_all add: check_bytes_escape)

lemma check_bytes_outside: "CHR 0x22 \<notin> set t \<Longrightarrow> check_bytes False (t @ r) = check_bytes False r"
  by (induction t) auto

lemma escape_char_ascii: "byte c < 0x80 \<Longrightarrow> list_all (\<lambda>d. byte d < 0x80) (escape_char c)"
proof -
  assume "byte c < 0x80"
  moreover have "byte (hex_digit n) < 0x80" if "n < 16" for n using that by (simp add: hex_digit_def)
  moreover have "byte c div 16 < 16" using byte_less [of c] by linarith
  ultimately show ?thesis unfolding escape_char_def by (simp add: byte_def)
qed

lemma utf8_valid_body: "runes s = Some rs \<Longrightarrow> utf8_valid (concat (map escape_char s))"
proof (induction rs arbitrary: s)
  case Nil
  then show ?case using runes_NilD by (force simp: utf8_valid_def)
next
  case (Cons r rs)
  then obtain rest where d: "decode_rune s = Some (r, utf8_encode r, rest)" "s = utf8_encode r @ rest"
    "runes rest = Some rs" "scalar r" by (metis runes_ConsD)
  note IH = Cons.IH [OF d(3)]
  show ?case
  proof (cases "r < 0x80")
    case True
    then have "list_all (\<lambda>d. byte d < 0x80) (concat (map escape_char (utf8_encode r)))"
      by (simp add: utf8_encode_def escape_char_ascii)
    then show ?thesis using IH d(2) utf8_valid_ascii by (simp add: utf8_valid_append)
  next
    case False
    then have e: "concat (map escape_char (utf8_encode r)) = utf8_encode r"
      using utf8_encode_high [OF d(4)] by (intro escape_high) auto
    have "decode_rune (utf8_encode r @ t) = Some (r, utf8_encode r, t)" for t
      using d(1,2) decode_rune_prefix by metis
    then have "runes (utf8_encode r @ concat (map escape_char rest)) \<noteq> None"
      using IH decode_rune_rest [OF d(1)] by (subst runes.simps) (auto simp: utf8_valid_def)
    then show ?thesis using d(2) e by (simp add: utf8_valid_def)
  qed
qed

section \<open>Numbers\<close>

text \<open>The shapes that \<open>strconv.FormatFloat\<close> documents for the formats \<open>f\<close> and \<open>e\<close>: digits without a leading
  zero, an optional fraction, and for \<open>e\<close> a signed exponent of at least two digits.\<close>

definition nat_text :: "string \<Rightarrow> bool" where
  "nat_text i \<longleftrightarrow> lex_nat i = Some (i, [])"

definition frac_text :: "string \<Rightarrow> bool" where
  "frac_text f \<longleftrightarrow> f = [] \<or> (\<exists>ds. f = CHR ''.'' # ds \<and> ds \<noteq> [] \<and> list_all is_digit ds)"

definition exp_text :: "char \<Rightarrow> string \<Rightarrow> bool" where
  "exp_text sg ds \<longleftrightarrow> sg \<in> {CHR ''+'', CHR ''-''} \<and> ds \<noteq> [] \<and> list_all is_digit ds"

definition float_text :: "char \<Rightarrow> string \<Rightarrow> bool" where
  "float_text k t \<longleftrightarrow>
     (\<exists>i f. nat_text i \<and> frac_text f \<and>
        (if k = CHR ''f'' then t = i @ f
         else \<exists>sg ds. t = i @ f @ CHR ''e'' # sg # ds \<and> exp_text sg ds \<and> 2 \<le> length ds))"

definition finite_positive :: "64 word \<Rightarrow> bool" where
  "finite_positive g \<longleftrightarrow> \<not> bit g 63 \<and> g \<noteq> 0 \<and> g AND invalidPattern \<noteq> invalidPattern"

text \<open>What the code relies on of \<open>strconv\<close>: \<open>FormatFloat\<close> with precision \<open>-1\<close> writes a number of the shape
  above that \<open>ParseFloat\<close> reads back exactly; \<open>ParseFloat\<close> reads zero, a minus sign, and a leading zero of
  an exponent as they are meant.\<close>

definition number_format_ok :: "number_format \<Rightarrow> bool" where
  "number_format_ok nf \<longleftrightarrow>
     nf_parse nf ''0'' = Some 0 \<and>
     (\<forall>g. finite_positive g \<longrightarrow>
        float_text (number_kind g) (nf_format nf (number_kind g) g) \<and>
        nf_parse nf (nf_format nf (number_kind g) g) = Some g) \<and>
     (\<forall>t g. nf_parse nf t = Some g \<and> finite_positive g \<longrightarrow>
        nf_parse nf (CHR ''-'' # t) = Some (set_bit 63 g)) \<and>
     (\<forall>m sg ds. exp_text sg ds \<longrightarrow>
        nf_parse nf (m @ CHR ''e'' # sg # CHR ''0'' # ds) = nf_parse nf (m @ CHR ''e'' # sg # ds))"

text \<open>What may follow a value.\<close>

definition stops :: "string \<Rightarrow> bool" where
  "stops r \<longleftrightarrow> (case r of [] \<Rightarrow> True | c # _ \<Rightarrow> c \<in> {CHR '','', CHR '']'', CHR ''}''})"

lemma stops_no_digit: "stops r \<Longrightarrow> takeWhile is_digit r = []"
  by (cases r) (auto simp: stops_def is_digit_def in_range_def byte_def)

lemma digits1_append:
  "ds \<noteq> [] \<Longrightarrow> list_all is_digit ds \<Longrightarrow> takeWhile is_digit r = [] \<Longrightarrow> digits1 (ds @ r) = Some (ds, r)"
  by (simp add: digits1_def Let_def list_all_iff takeWhile_append2)

lemma digits1_all: "digits1 s = Some (s, []) \<Longrightarrow> s \<noteq> [] \<and> list_all is_digit s"
proof -
  assume "digits1 s = Some (s, [])"
  then have "s \<noteq> []" "takeWhile is_digit s = s" by (auto simp: digits1_def Let_def split: if_splits)
  then show ?thesis by (metis list_all_iff set_takeWhileD)
qed

lemma nat_text_digits: "nat_text i \<Longrightarrow> i \<noteq> [] \<and> list_all is_digit i"
  unfolding nat_text_def
  by (cases i) (auto split: if_splits dest: digits1_all simp: is_digit_def in_range_def byte_def)

lemma lex_nat_append: "nat_text i \<Longrightarrow> takeWhile is_digit r = [] \<Longrightarrow> lex_nat (i @ r) = Some (i, r)"
proof -
  assume i: "nat_text i" and r: "takeWhile is_digit r = []"
  obtain c s where cs: "i = c # s" using nat_text_digits [OF i] by (cases i) auto
  show ?thesis
  proof (cases "c = CHR ''0''")
    case True
    then show ?thesis using i cs by (simp add: nat_text_def)
  next
    case False
    then show ?thesis using digits1_append [of i r] nat_text_digits [OF i] r cs by simp
  qed
qed

definition number_tail :: "string \<Rightarrow> bool" where
  "number_tail r \<longleftrightarrow> (case r of [] \<Rightarrow> True | c # _ \<Rightarrow> \<not> is_digit c \<and> c \<noteq> CHR ''.'')"

lemma lex_frac_append: "frac_text f \<Longrightarrow> number_tail r \<Longrightarrow> lex_frac (f @ r) = Some (f, r)"
  unfolding frac_text_def number_tail_def using digits1_append [of _ "[]"]
  by (cases r) (auto simp: digits1_append prepend_def)

lemma frac_no_digit: "frac_text f \<Longrightarrow> number_tail r \<Longrightarrow> takeWhile is_digit (f @ r) = []"
  unfolding frac_text_def number_tail_def
  by (cases r) (auto simp: is_digit_def in_range_def byte_def)

lemma lex_int_append:
  "nat_text i \<Longrightarrow> takeWhile is_digit r = [] \<Longrightarrow> mn \<in> {[], ''-''} \<Longrightarrow> lex_int (mn @ i @ r) = Some (mn @ i, r)"
proof -
  assume i: "nat_text i" and r: "takeWhile is_digit r = []" and s: "mn \<in> {[], ''-''}"
  obtain c s where cs: "i = c # s" "is_digit c" using nat_text_digits [OF i] by (cases i) auto
  then have "c \<noteq> CHR ''-''" by (auto simp: is_digit_def in_range_def byte_def)
  then show ?thesis using s cs(1) lex_nat_append [OF i r] by (auto simp: prepend_def)
qed

lemma lex_number_fixed:
  assumes "nat_text i" and "frac_text f" and "stops r" and "mn \<in> {[], ''-''}"
  shows "lex_number (mn @ i @ f @ r) = Some (mn @ i @ f, r)"
proof -
  have nt: "number_tail r" using assms(3) by (cases r) (auto simp: stops_def number_tail_def is_digit_def in_range_def byte_def)
  have "lex_exp r = Some ([], r)" using assms(3) by (cases r) (auto simp: stops_def)
  then show ?thesis
    using lex_int_append [OF assms(1) frac_no_digit [OF assms(2) nt] assms(4)] lex_frac_append [OF assms(2) nt]
    by (simp add: lex_number_def prepend_def)
qed

lemma lex_number_exp:
  assumes "nat_text i" and "frac_text f" and "exp_text sg ds" and "stops r" and "mn \<in> {[], ''-''}"
  shows "lex_number (mn @ i @ f @ CHR ''e'' # sg # ds @ r) = Some (mn @ i @ f @ CHR ''e'' # sg # ds, r)"
proof -
  let ?x = "CHR ''e'' # sg # ds @ r"
  have nt: "number_tail ?x" by (simp add: number_tail_def is_digit_def in_range_def byte_def)
  have "lex_exp_digits (sg # ds @ r) = Some (sg # ds, r)"
    using assms(3) digits1_append [of ds r] stops_no_digit [OF assms(4)]
    by (auto simp: exp_text_def prepend_def)
  then have "lex_exp ?x = Some (CHR ''e'' # sg # ds, r)" by (simp add: prepend_def)
  then show ?thesis
    using lex_int_append [OF assms(1) frac_no_digit [OF assms(2) nt] assms(5)] lex_frac_append [OF assms(2) nt]
    by (simp add: lex_number_def prepend_def)
qed

text \<open>The characters of a number.\<close>

definition number_char :: "char \<Rightarrow> bool" where
  "number_char c \<longleftrightarrow> is_digit c \<or> c \<in> {CHR ''-'', CHR ''+'', CHR ''.'', CHR ''e''}"

lemma digit_char: "is_digit c \<Longrightarrow> number_char c"
  by (simp add: number_char_def)

lemma digits_no_e: "list_all is_digit ds \<Longrightarrow> CHR ''e'' \<notin> set ds"
  by (auto simp: list_all_iff is_digit_def in_range_def byte_def)

lemma mantissa_chars:
  assumes "nat_text i" and "frac_text f"
  shows "list_all number_char (i @ f)" and "CHR ''e'' \<notin> set (i @ f)" and "i @ f \<noteq> []"
proof -
  have i: "i \<noteq> []" "list_all is_digit i" using nat_text_digits [OF assms(1)] by auto
  then show "list_all number_char (i @ f)" "CHR ''e'' \<notin> set (i @ f)" "i @ f \<noteq> []"
    using assms(2) digits_no_e
    by (auto simp: frac_text_def list_all_iff digit_char number_char_def dest: digits_no_e [unfolded list_all_iff])
qed

lemma Index_e: "CHR ''e'' \<notin> set m \<Longrightarrow> Index (m @ CHR ''e'' # s) ''e'' = Some (length m)"
  by (induction m) (auto simp: HasPrefix_def)

lemma Index_no_e: "CHR ''e'' \<notin> set m \<Longrightarrow> Index m ''e'' = None"
  by (induction m) (auto simp: HasPrefix_def)

lemma trim_exponent_fixed: "CHR ''e'' \<notin> set m \<Longrightarrow> trim_exponent m = m"
  by (simp add: trim_exponent_def Index_no_e)

lemma trim_exponent_exp:
  assumes "CHR ''e'' \<notin> set m" and "m \<noteq> []" and "ds \<noteq> []"
  shows "trim_exponent (m @ CHR ''e'' # sg # ds) =
           m @ CHR ''e'' # sg # (if hd ds = CHR ''0'' then tl ds else ds)"
  using assms by (cases ds) (auto simp: trim_exponent_def Index_e nth_append)

definition number_text :: "string \<Rightarrow> bool" where
  "number_text t \<longleftrightarrow> (\<forall>r. stops r \<longrightarrow> lex_number (t @ r) = Some (t, r)) \<and> list_all number_char t \<and> t \<noteq> []"

lemma number_text_fixed:
  "nat_text i \<Longrightarrow> frac_text f \<Longrightarrow> mn \<in> {[], ''-''} \<Longrightarrow> number_text (mn @ i @ f)"
  using lex_number_fixed mantissa_chars(1,3) unfolding number_text_def
  by (auto simp: number_char_def)

lemma number_text_exp:
  assumes "nat_text i" and "frac_text f" and "exp_text sg ds" and "mn \<in> {[], ''-''}"
  shows "number_text (mn @ i @ f @ CHR ''e'' # sg # ds)"
proof -
  have "list_all number_char (sg # ds)"
    using assms(3) by (auto simp: exp_text_def number_char_def list_all_iff)
  moreover have "list_all number_char (i @ f)" using mantissa_chars(1) assms by blast
  moreover have "list_all number_char mn" "number_char (CHR ''e'')" using assms(4) by (auto simp: number_char_def)
  ultimately show ?thesis using lex_number_exp [OF assms(1-3) _ assms(4)] unfolding number_text_def by simp
qed

lemma trimmed_float:
  assumes "number_format_ok nf" and "float_text k t" and "nf_parse nf t = Some g" and "mn \<in> {[], ''-''}"
  shows "nf_parse nf (trim_exponent t) = Some g \<and> number_text (mn @ trim_exponent t)"
proof -
  obtain i f where i: "nat_text i" "frac_text f"
    and t: "if k = CHR ''f'' then t = i @ f
            else \<exists>sg ds. t = i @ f @ CHR ''e'' # sg # ds \<and> exp_text sg ds \<and> 2 \<le> length ds"
    using assms(2) unfolding float_text_def by blast
  note m = mantissa_chars [OF i]
  show ?thesis
  proof (cases "k = CHR ''f''")
    case True
    then show ?thesis using t assms(3,4) m(2) number_text_fixed [OF i] by (simp add: trim_exponent_fixed)
  next
    case False
    then obtain sg ds where d: "t = (i @ f) @ CHR ''e'' # sg # ds" "exp_text sg ds" "2 \<le> length ds" using t by auto
    then obtain x ds' where ds: "ds = x # ds'" "ds' \<noteq> []" by (cases ds; cases "tl ds") auto
    have tr: "trim_exponent t = (i @ f) @ CHR ''e'' # sg # (if x = CHR ''0'' then ds' else ds)"
      using trim_exponent_exp [OF m(2,3), of ds sg] d(1) ds by simp
    have e': "exp_text sg ds'" using d(2) ds by (simp add: exp_text_def)
    have p: "nf_parse nf ((i @ f) @ CHR ''e'' # sg # CHR ''0'' # ds') = nf_parse nf ((i @ f) @ CHR ''e'' # sg # ds')"
      using assms(1) e' unfolding number_format_ok_def by blast
    show ?thesis
    proof (cases "x = CHR ''0''")
      case True
      then show ?thesis using tr d(1) ds p assms(3) number_text_exp [OF i e' assms(4)] by simp
    next
      case False
      then show ?thesis using tr d(1) assms(3) number_text_exp [OF i d(2) assms(4)] by simp
    qed
  qed
qed

lemma abs_bits_bit: "bit (abs_bits f) n \<longleftrightarrow> bit f n \<and> n < 63"
proof -
  have m: "(0x7fffffffffffffff :: 64 word) = mask 63" by (simp add: mask_eq_exp_minus_1)
  show ?thesis unfolding abs_bits_def m by (auto simp: bit_simps dest: bit_imp_le_length)
qed

lemma abs_bits_restore: "bit f 63 \<Longrightarrow> set_bit 63 (abs_bits f) = f" "\<not> bit f 63 \<Longrightarrow> abs_bits f = f"
  by (rule bit_word_eqI; use less_Suc_eq [of _ 63] in \<open>auto simp: bit_simps abs_bits_bit\<close>)+

lemma abs_bits_invalid: "abs_bits f AND invalidPattern = f AND invalidPattern"
proof -
  have "\<not> bit invalidPattern 63" unfolding invalidPattern_def by simp
  then show ?thesis
    by (intro bit_word_eqI) (use less_Suc_eq [of _ 63] in \<open>auto simp: bit_simps abs_bits_bit\<close>)
qed

lemma numberToJSON_text:
  assumes ok: "number_format_ok nf" and n: "numberToJSON nf f = Some t"
  shows "number_text t \<and> (\<exists>f'. nf_parse nf t = Some f' \<and> numberToJSON nf f' = Some t)"
proof (cases "abs_bits f = 0")
  case True
  then have t: "t = ''0''" using n by (simp add: numberToJSON_def split: if_splits)
  have "nat_text ''0''" "frac_text []" by (simp_all add: nat_text_def frac_text_def)
  then have "number_text ''0''" using number_text_fixed [of "''0''" "[]" "[]"] by simp
  moreover have "nf_parse nf ''0'' = Some 0" using ok by (simp add: number_format_ok_def)
  moreover have "numberToJSON nf 0 = Some ''0''" by (simp add: numberToJSON_def invalidPattern_def abs_bits_def)
  ultimately show ?thesis using t by blast
next
  case False
  let ?g = "abs_bits f" and ?mn = "if bit f 63 then ''-'' else []"
  let ?u = "nf_format nf (number_kind ?g) ?g"
  have fin: "finite_positive ?g"
    using False n by (auto simp: finite_positive_def abs_bits_bit abs_bits_invalid numberToJSON_def)
  have t: "t = ?mn @ trim_exponent ?u" using False n by (auto simp: numberToJSON_def split: if_splits)
  have u: "float_text (number_kind ?g) ?u" "nf_parse nf ?u = Some ?g"
    using ok fin unfolding number_format_ok_def by blast+
  have tr: "nf_parse nf (trim_exponent ?u) = Some ?g" "number_text t"
    using trimmed_float [OF ok u, of ?mn] t by auto
  have "nf_parse nf t = Some f"
  proof (cases "bit f 63")
    case True
    have "nf_parse nf (CHR ''-'' # trim_exponent ?u) = Some (set_bit 63 ?g)"
      using ok tr(1) fin unfolding number_format_ok_def by blast
    then show ?thesis using t True by (simp add: abs_bits_restore)
  next
    case False
    then show ?thesis using t tr(1) by (simp add: abs_bits_restore)
  qed
  then show ?thesis using tr(2) n by blast
qed

section \<open>The order of members\<close>

lemma utf16Less_iff: "utf16Less a b \<longleftrightarrow> a < b"
  by (induction a b rule: utf16Less.induct) auto

abbreviation member_key :: "string \<times> 'a \<Rightarrow> nat list" where
  "member_key m \<equiv> utf16 (fst m)"

lemma insert_member_insort: "insert_member m xs = insort_key member_key m xs"
  by (induction xs) (auto simp: utf16Less_iff)

lemma sort_members_eq: "sort_members ms = sort_key member_key ms"
  unfolding sort_members_def sort_key_def by (induction ms) (auto simp: insert_member_insort)

lemma sort_members_map: "sort_members (map (apsnd f) ms) = map (apsnd f) (sort_members ms)"
proof -
  have "insert_member (apsnd f m) (map (apsnd f) xs) = map (apsnd f) (insert_member m xs)" for m xs
    by (induction xs) auto
  then show ?thesis unfolding sort_members_def by (induction ms) auto
qed

lemma sort_members_idem [simp]: "sort_members (sort_members ms) = sort_members ms"
  unfolding sort_members_eq by (simp add: sort_key_id_if_sorted)

lemma sort_members_perm:
  assumes "mset ms = mset ns" and "distinct (map fst ms)" and "\<And>k v. (k, v) \<in> set ms \<Longrightarrow> utf8_valid k"
  shows "sort_members ms = sort_members ns"
proof -
  have "inj_on member_key (set ms)"
  proof (rule inj_onI)
    fix m n assume m: "m \<in> set ms" "n \<in> set ms" and eq: "member_key m = member_key n"
    then have "utf8_valid (fst m)" "utf8_valid (fst n)" using assms(3) by (metis prod.collapse)+
    then have "fst m = fst n" using utf16_inj eq by blast
    then show "m = n" using m assms(2) by (metis eq_key_imp_eq_value prod.collapse)
  qed
  then show ?thesis unfolding sort_members_eq
    using assms(1) by (metis sort_key_eq_sort_key)
qed

section \<open>The normal form of a value\<close>

fun keys_distinct :: "json \<Rightarrow> bool" where
  "keys_distinct (JArr vs) = list_all keys_distinct vs"
| "keys_distinct (JObj ms) = (distinct (map fst ms) \<and> list_all (\<lambda>(k, v). keys_distinct v) ms)"
| "keys_distinct _ = True"

definition canonical_number :: "number_format \<Rightarrow> string \<Rightarrow> string option" where
  "canonical_number nf t = (case nf_parse nf t of None \<Rightarrow> None | Some f \<Rightarrow> numberToJSON nf f)"

fun normal :: "number_format \<Rightarrow> json \<Rightarrow> json" where
  "normal nf (JNum t) = JNum (case canonical_number nf t of None \<Rightarrow> t | Some u \<Rightarrow> u)"
| "normal nf (JArr vs) = JArr (map (normal nf) vs)"
| "normal nf (JObj ms) = JObj (sort_members (map (\<lambda>(k, v). (k, normal nf v)) ms))"
| "normal nf v = v"

lemma normal_members: "sort_members (map (\<lambda>(k, v). (k, normal nf v)) ms) = map (\<lambda>(k, v). (k, normal nf v)) (sort_members ms)"
proof -
  have e: "(\<lambda>(k, v). (k, normal nf v)) = apsnd (normal nf)" by auto
  show ?thesis unfolding e by (rule sort_members_map)
qed

text \<open>What a serialized value looks like to the parser: it can be told from white space and from the
  closing brackets, and it is read back in full.\<close>

definition reads_as :: "string \<Rightarrow> json \<Rightarrow> bool" where
  "reads_as t v \<longleftrightarrow>
     t \<noteq> [] \<and> hd t \<notin> {CHR '' '', CHR 0x09, CHR 0x0D, CHR 0x0A, CHR '']'', CHR ''}'', CHR '',''} \<and>
     (\<forall>r. stops r \<longrightarrow> parse_value (t @ r) = Some (v, r))"

lemma skip_ws_start: "t \<noteq> [] \<Longrightarrow> hd t \<notin> {CHR '' '', CHR 0x09, CHR 0x0D, CHR 0x0A} \<Longrightarrow> skip_ws (t @ r) = t @ r"
  by (cases t) (auto simp: skip_ws_def)

lemma reads_as_ws: "reads_as t v \<Longrightarrow> skip_ws (t @ r) = t @ r"
  unfolding reads_as_def by (auto intro: skip_ws_start)

lemma stops_simps [simp]: "stops []" "stops (CHR '','' # r)" "stops (CHR '']'' # r)" "stops (CHR ''}'' # r)"
  by (simp_all add: stops_def)

lemma skip_ws_simps [simp]:
  "skip_ws (CHR '','' # r) = CHR '','' # r" "skip_ws (CHR '']'' # r) = CHR '']'' # r"
  "skip_ws (CHR ''}'' # r) = CHR ''}'' # r" "skip_ws (CHR '':'' # r) = CHR '':'' # r"
  "skip_ws (CHR ''['' # r) = CHR ''['' # r" "skip_ws (CHR ''{'' # r) = CHR ''{'' # r"
  "skip_ws (CHR 0x22 # r) = CHR 0x22 # r" "skip_ws [] = []"
  by (simp_all add: skip_ws_def)

lemma parse_array_more:
  "list_all2 reads_as ts vs \<Longrightarrow>
   parse_array arr False (concat (map (Cons (CHR '','')) ts) @ CHR '']'' # r) = Some (JArr (arr @ vs), r)"
proof (induction ts arbitrary: arr vs)
  case Nil
  then show ?case by (simp add: parse_array.simps)
next
  case (Cons t ts)
  then obtain v vs' where v: "vs = v # vs'" "reads_as t v" "list_all2 reads_as ts vs'"
    by (auto simp: list_all2_Cons1)
  let ?rest = "concat (map (Cons (CHR '','')) ts) @ CHR '']'' # r"
  have st: "stops ?rest" by (cases ts) auto
  have "next_element False (CHR '','' # t @ ?rest) = Some (t @ ?rest)"
    by (simp add: next_element_def reads_as_ws [OF v(2)])
  moreover have "parse_value (t @ ?rest) = Some (v, ?rest)" using v(2) st by (simp add: reads_as_def)
  ultimately show ?case using Cons.IH [OF v(3), of "arr @ [v]"] v(1) by (subst parse_array.simps) simp
qed

lemma Join_comma: "ts \<noteq> [] \<Longrightarrow> Join ts '','' = hd ts @ concat (map (Cons (CHR '','')) (tl ts))"
proof (induction ts)
  case (Cons t ts)
  then show ?case by (cases ts) auto
qed simp

lemma reads_as_array: "list_all2 reads_as ts vs \<Longrightarrow> reads_as (''['' @ Join ts '','' @ '']'') (JArr vs)"
proof -
  assume l: "list_all2 reads_as ts vs"
  have "parse_array [] True (Join ts '','' @ CHR '']'' # r) = Some (JArr vs, r)" for r
  proof (cases ts)
    case Nil
    then show ?thesis using l by (simp add: parse_array.simps)
  next
    case (Cons t ts')
    then obtain v vs' where v: "vs = v # vs'" "reads_as t v" "list_all2 reads_as ts' vs'"
      using l by (auto simp: list_all2_Cons1)
    let ?rest = "concat (map (Cons (CHR '','')) ts') @ CHR '']'' # r"
    have st: "stops ?rest" by (cases ts') auto
    obtain c t' where c: "t = c # t'" "c \<noteq> CHR '']''" "c \<noteq> CHR ''}''" using v(2) by (cases t) (auto simp: reads_as_def)
    have j: "Join ts '','' @ CHR '']'' # r = t @ ?rest" using Cons Join_comma [of ts] by simp
    have pv: "parse_value (t @ ?rest) = Some (v, ?rest)" using v(2) st by (simp add: reads_as_def)
    have ws: "skip_ws (t @ ?rest) = c # t' @ ?rest" using reads_as_ws [OF v(2)] c(1) by simp
    show ?thesis unfolding j
      using parse_array_more [OF v(3), of "[v]" r] pv ws c v(1)
      by (subst parse_array.simps) (simp add: next_element_def)
  qed
  then show ?thesis by (auto simp: reads_as_def parse_value.simps)
qed

definition reads_as_member :: "string \<Rightarrow> string \<times> json \<Rightarrow> bool" where
  "reads_as_member t m \<longleftrightarrow>
     (\<exists>u. t = CHR 0x22 # concat (map escape_char (fst m)) @ CHR 0x22 # CHR '':'' # u \<and> reads_as u (snd m))"

lemma parse_key_text:
  "parse_key (CHR 0x22 # concat (map escape_char k) @ CHR 0x22 # CHR '':'' # r) = Some (k, r)"
  by (simp add: parse_key_def parse_string_body)

lemma parse_object_step:
  assumes "reads_as_member t (k, v)" and "stops r" and "map_of obj k = None"
    and "next_element first (p @ t @ r) = Some (t @ r)" and "skip_ws (p @ t @ r) = p @ t @ r"
    and "p @ t @ r = c # s" and "c \<noteq> CHR ''}''" and "c \<noteq> CHR '']''"
  shows "parse_object obj first (p @ t @ r) = parse_object (obj @ [(k, v)]) False r"
proof -
  obtain u where u: "t = CHR 0x22 # concat (map escape_char k) @ CHR 0x22 # CHR '':'' # u" "reads_as u v"
    using assms(1) by (auto simp: reads_as_member_def)
  have "parse_key (t @ r) = Some (k, u @ r)" using parse_key_text [of k "u @ r"] u(1) by simp
  moreover have "parse_value (u @ r) = Some (v, r)" using u(2) assms(2) by (simp add: reads_as_def)
  ultimately show ?thesis using assms(3-8) by (subst parse_object.simps) simp
qed

lemma parse_object_more:
  "list_all2 reads_as_member ts ms \<Longrightarrow> distinct (map fst (obj @ ms)) \<Longrightarrow>
   parse_object obj False (concat (map (Cons (CHR '','')) ts) @ CHR ''}'' # r) = Some (JObj (obj @ ms), r)"
proof (induction ts arbitrary: obj ms)
  case Nil
  then show ?case by (simp add: parse_object.simps)
next
  case (Cons t ts)
  then obtain k v ms' where v: "ms = (k, v) # ms'" "reads_as_member t (k, v)" "list_all2 reads_as_member ts ms'"
    by (auto simp: list_all2_Cons1)
  let ?rest = "concat (map (Cons (CHR '','')) ts) @ CHR ''}'' # r"
  have st: "stops ?rest" by (cases ts) auto
  obtain t' where t': "t = CHR 0x22 # t'" using v(2) by (auto simp: reads_as_member_def)
  have new: "map_of obj k = None" using Cons.prems(2) v(1) by (auto simp: map_of_eq_None_iff)
  have "next_element False (CHR '','' # t @ ?rest) = Some (t @ ?rest)" using t' by (simp add: next_element_def)
  then have "parse_object obj False ('','' @ t @ ?rest) = parse_object (obj @ [(k, v)]) False ?rest"
    using st new by (intro parse_object_step [OF v(2)]) auto
  then show ?case using Cons.IH [OF v(3), of "obj @ [(k, v)]"] Cons.prems(2) v(1) by simp
qed

lemma reads_as_object:
  assumes l: "list_all2 reads_as_member ts ms" and d: "distinct (map fst ms)"
  shows "reads_as (''{'' @ Join ts '','' @ ''}'') (JObj ms)"
proof -
  have "parse_object [] True (Join ts '','' @ CHR ''}'' # r) = Some (JObj ms, r)" for r
  proof (cases ts)
    case Nil
    then show ?thesis using l by (simp add: parse_object.simps)
  next
    case (Cons t ts')
    then obtain k v ms' where v: "ms = (k, v) # ms'" "reads_as_member t (k, v)" "list_all2 reads_as_member ts' ms'"
      using l by (auto simp: list_all2_Cons1)
    let ?rest = "concat (map (Cons (CHR '','')) ts') @ CHR ''}'' # r"
    have st: "stops ?rest" by (cases ts') auto
    obtain t' where t': "t = CHR 0x22 # t'" using v(2) by (auto simp: reads_as_member_def)
    have j: "Join ts '','' @ CHR ''}'' # r = [] @ t @ ?rest" using Cons Join_comma [of ts] by simp
    have "parse_object [] True ([] @ t @ ?rest) = parse_object ([] @ [(k, v)]) False ?rest"
      using st t' by (intro parse_object_step [OF v(2)]) (auto simp: next_element_def)
    then show ?thesis unfolding j using parse_object_more [OF v(3), of "[(k, v)]" r] d v(1) by simp
  qed
  then show ?thesis by (auto simp: reads_as_def parse_value.simps)
qed

section \<open>Round trip\<close>

lemma those_Some: "those xs = Some ys \<longleftrightarrow> xs = map Some ys"
proof (induction xs arbitrary: ys)
  case (Cons x xs)
  then show ?case by (cases x; cases ys) auto
qed auto

lemma reads_as_string: "reads_as (CHR 0x22 # concat (map escape_char s) @ [CHR 0x22]) (JStr s)"
  by (auto simp: reads_as_def parse_value.simps parse_scalar_def parse_string_body)

lemma number_head:
  assumes "number_text t"
  obtains c s where "t = c # s" "is_digit c \<or> c = CHR ''-''"
proof -
  obtain c s where cs: "t = c # s" using assms by (cases t) (auto simp: number_text_def)
  have "lex_number (t @ []) = Some (t, [])" using assms stops_simps(1) unfolding number_text_def by blast
  then have "lex_int t \<noteq> None" by (auto simp: lex_number_def split: option.splits)
  then have "is_digit c \<or> c = CHR ''-''"
    using cs by (auto simp: digits1_def Let_def is_digit_def in_range_def byte_def split: if_splits)
  then show thesis using that cs by blast
qed

lemma reads_as_number: "number_text t \<Longrightarrow> reads_as t (JNum t)"
proof -
  assume n: "number_text t"
  obtain c s where cs: "t = c # s" "is_digit c \<or> c = CHR ''-''" using n by (rule number_head)
  then have ne: "c \<notin> {CHR '' '', CHR 0x09, CHR 0x0D, CHR 0x0A, CHR '']'', CHR ''}'', CHR '','', CHR ''{'', CHR ''['', CHR 0x22,
      CHR ''t'', CHR ''f'', CHR ''n''}"
    by (auto simp: is_digit_def in_range_def byte_def)
  have "parse_value (t @ r) = Some (JNum t, r)" if "stops r" for r
  proof -
    have "skip_ws (t @ r) = c # s @ r" using cs(1) ne by (simp add: skip_ws_def)
    moreover have "lex_number (c # s @ r) = Some (t, r)" using n that cs(1) by (simp add: number_text_def)
    ultimately show ?thesis using ne by (simp add: parse_value.simps parse_scalar_def)
  qed
  then show ?thesis using cs(1) ne by (simp add: reads_as_def)
qed

lemma reads_as_literal: "reads_as ''null'' JNull" "reads_as ''true'' (JBool True)" "reads_as ''false'' (JBool False)"
  by (auto simp: reads_as_def parse_value.simps skip_ws_def parse_scalar_def literal_def HasPrefix_def)

lemma member_text_Some:
  "member_text k t = Some u \<longleftrightarrow>
     utf8_valid k \<and> (\<exists>v. t = Some v \<and> u = CHR 0x22 # concat (map escape_char k) @ CHR 0x22 # CHR '':'' # v)"
  by (auto simp: member_text_def serializeString_eq split: option.splits)

lemma serialize_reads:
  "number_format_ok nf \<Longrightarrow> keys_distinct v \<Longrightarrow> serializeCanonical nf v = Some y \<Longrightarrow> reads_as y (normal nf v)"
proof (induction nf v arbitrary: y rule: serializeCanonical.induct)
  case (3 nf t)
  then obtain f where f: "nf_parse nf t = Some f" "numberToJSON nf f = Some y" by (auto split: option.splits)
  then have "number_text y" using numberToJSON_text 3(1) by blast
  then show ?case using f reads_as_number by (simp add: canonical_number_def)
next
  case (5 nf vs)
  then obtain ts where ts: "map (serializeCanonical nf) vs = map Some ts" "y = ''['' @ Join ts '','' @ '']''"
    by (auto simp: those_Some)
  have len: "length vs = length ts" using ts(1) by (rule map_eq_imp_length_eq)
  have "reads_as (ts ! i) (normal nf (vs ! i))" if "i < length vs" for i
  proof -
    have "serializeCanonical nf (vs ! i) = Some (ts ! i)" using ts(1) that len by (metis nth_map)
    moreover have "keys_distinct (vs ! i)" using 5(3) that by (simp add: list_all_length)
    ultimately show ?thesis using 5(1,2) that by simp
  qed
  then have "list_all2 reads_as ts (map (normal nf) vs)" using len by (simp add: list_all2_conv_all_nth)
  then show ?case using ts(2) reads_as_array by simp
next
  case (6 nf ms)
  let ?ms = "sort_members ms"
  have valid: "\<not> list_ex (\<lambda>(k, v). \<not> utf8_valid k) ms" using 6(4) by (auto split: if_splits)
  then obtain ts where ts: "map (\<lambda>(k, v). member_text k (serializeCanonical nf v)) ?ms = map Some ts"
    "y = ''{'' @ Join ts '','' @ ''}''"
    using 6(4) by (auto simp: those_Some)
  have len: "length ?ms = length ts" using ts(1) by (rule map_eq_imp_length_eq)
  have "reads_as_member (ts ! i) (map (\<lambda>(k, v). (k, normal nf v)) ?ms ! i)" if i: "i < length ?ms" for i
  proof -
    obtain k v where kv: "?ms ! i = (k, v)" by force
    have "(k, v) \<in> set ?ms" using kv i by (metis nth_mem)
    then have m: "(k, v) \<in> set ms" by simp
    have "member_text k (serializeCanonical nf v) = Some (ts ! i)"
      using ts(1) i len kv by (metis (mono_tags, lifting) nth_map case_prod_conv)
    then obtain u where u: "serializeCanonical nf v = Some u"
      "ts ! i = CHR 0x22 # concat (map escape_char k) @ CHR 0x22 # CHR '':'' # u"
      by (auto simp: member_text_Some)
    have "keys_distinct v" using 6(3) m by (auto simp: list_all_iff)
    then have "reads_as u (normal nf v)" using 6(1) [OF valid] m 6(2) u(1) by auto
    then show ?thesis using u(2) kv i by (simp add: reads_as_member_def)
  qed
  then have "list_all2 reads_as_member ts (map (\<lambda>(k, v). (k, normal nf v)) ?ms)"
    using len by (simp add: list_all2_conv_all_nth)
  moreover have "distinct (map fst (map (\<lambda>(k, v). (k, normal nf v)) ?ms))"
  proof -
    have "map fst (map (\<lambda>(k, v). (k, normal nf v)) ?ms) = map fst ?ms" by auto
    moreover have "mset (map fst ?ms) = mset (map fst ms)" by simp
    ultimately show ?thesis using 6(3) by (metis keys_distinct.simps(2) mset_eq_imp_distinct_iff)
  qed
  ultimately show ?case using reads_as_object ts(2) by (simp add: normal_members)
qed (auto simp: reads_as_literal reads_as_string serializeString_eq split: if_splits)

lemma serialize_normal:
  "number_format_ok nf \<Longrightarrow> serializeCanonical nf v = Some y \<Longrightarrow> serializeCanonical nf (normal nf v) = Some y"
proof (induction nf v arbitrary: y rule: serializeCanonical.induct)
  case (3 nf t)
  then show ?case using numberToJSON_text by (fastforce simp: canonical_number_def split: option.splits)
next
  case (5 nf vs)
  then obtain ts where ts: "map (serializeCanonical nf) vs = map Some ts" "y = ''['' @ Join ts '','' @ '']''"
    by (auto simp: those_Some)
  have "serializeCanonical nf (normal nf v) = serializeCanonical nf v" if v: "v \<in> set vs" for v
  proof -
    have "serializeCanonical nf v \<in> set (map Some ts)" using v ts(1) by (metis image_eqI list.set_map)
    then show ?thesis using 5(1) [OF v 5(2)] by auto
  qed
  then have "map (serializeCanonical nf) (map (normal nf) vs) = map (serializeCanonical nf) vs" by simp
  then show ?case using ts by (simp add: those_Some)
next
  case (6 nf ms)
  let ?f = "\<lambda>(k, v). member_text k (serializeCanonical nf v)" and ?n = "\<lambda>(k, v). (k, normal nf v)"
  have valid: "\<not> list_ex (\<lambda>(k, v). \<not> utf8_valid k) ms" using 6(3) by (auto split: if_splits)
  then obtain ts where ts: "map ?f (sort_members ms) = map Some ts" "y = ''{'' @ Join ts '','' @ ''}''"
    using 6(3) by (auto simp: those_Some)
  have "?f (?n m) = ?f m" if m: "m \<in> set (sort_members ms)" for m
  proof -
    obtain k v where kv: "m = (k, v)" by force
    have "?f m \<in> set (map Some ts)" using m ts(1) by (metis (no_types, lifting) image_eqI list.set_map)
    then obtain u where u: "serializeCanonical nf v = Some u" using kv by (auto simp: member_text_Some)
    have "serializeCanonical nf (normal nf v) = Some u" using 6(1) [OF valid m kv [symmetric] 6(2) u] by simp
    then show ?thesis using kv u by simp
  qed
  then have "map (?f \<circ> ?n) (sort_members ms) = map ?f (sort_members ms)" by (intro map_cong) (auto simp: comp_def)
  then have "map ?f (map ?n (sort_members ms)) = map Some ts" using ts(1) by simp
  moreover have "sort_members (map ?n (sort_members ms)) = map ?n (sort_members ms)"
    using normal_members by (metis sort_members_idem)
  moreover have "\<not> list_ex (\<lambda>(k, v). \<not> utf8_valid k) (map ?n (sort_members ms))"
    using valid by (auto simp: list_ex_iff)
  ultimately show ?case using ts(2) by (simp add: normal_members those_Some)
qed auto

text \<open>Bytes that leave the syntax check where it was.\<close>

definition clean :: "string \<Rightarrow> bool" where
  "clean t \<longleftrightarrow> (\<forall>r. check_bytes False (t @ r) = check_bytes False r) \<and> utf8_valid t"

lemma clean_append: "clean s \<Longrightarrow> clean t \<Longrightarrow> clean (s @ t)"
  unfolding clean_def by (simp add: utf8_valid_append)

lemma clean_plain: "CHR 0x22 \<notin> set t \<Longrightarrow> list_all (\<lambda>c. byte c < 0x80) t \<Longrightarrow> clean t"
  unfolding clean_def by (simp add: check_bytes_outside utf8_valid_ascii)

lemma clean_literals:
  "clean ''null''" "clean ''true''" "clean ''false''" "clean '',''" "clean ''[''" "clean '']''" "clean ''{''" "clean ''}''"
  "clean '':''" "clean []"
  by (rule clean_plain; simp add: byte_def)+

lemma clean_quoted: "utf8_valid k \<Longrightarrow> clean (CHR 0x22 # concat (map escape_char k) @ [CHR 0x22])"
proof -
  assume "utf8_valid k"
  then have b: "utf8_valid (concat (map escape_char k))" by (auto simp: utf8_valid_def dest: utf8_valid_body [unfolded utf8_valid_def])
  have q: "utf8_valid [CHR 0x22]" by (rule utf8_valid_ascii) (simp add: byte_def)
  then have "utf8_valid ([CHR 0x22] @ concat (map escape_char k) @ [CHR 0x22])"
    using b by (simp only: utf8_valid_append)
  then show ?thesis unfolding clean_def by (simp add: check_bytes_body)
qed

lemma clean_Join: "list_all clean ts \<Longrightarrow> clean (Join ts '','')"
proof (induction ts)
  case (Cons t ts)
  then have IH: "clean (Join ts '','')" "clean t" by auto
  show ?case
  proof (cases ts)
    case Nil
    then show ?thesis using IH by simp
  next
    case (Cons u us)
    note ts = this
    have "clean (t @ '','' @ Join ts '','')" using IH by (intro clean_append clean_literals) auto
    then show ?thesis using ts by simp
  qed
qed (simp add: clean_literals)

lemma clean_number: "number_text t \<Longrightarrow> clean t"
  by (rule clean_plain)
    (auto simp: number_text_def list_all_iff number_char_def is_digit_def in_range_def byte_def)

lemma serialize_clean:
  "number_format_ok nf \<Longrightarrow> serializeCanonical nf v = Some y \<Longrightarrow> clean y"
proof (induction nf v arbitrary: y rule: serializeCanonical.induct)
  case (3 nf t)
  then show ?case using numberToJSON_text clean_number by (auto split: option.splits)
next
  case (5 nf vs)
  then obtain ts where ts: "map (serializeCanonical nf) vs = map Some ts" "y = ''['' @ Join ts '','' @ '']''"
    by (auto simp: those_Some)
  have "clean t" if "t \<in> set ts" for t
  proof -
    have "Some t \<in> set (map (serializeCanonical nf) vs)" using that ts(1) by simp
    then show ?thesis using 5(1,2) by auto
  qed
  then have "clean (Join ts '','')" by (intro clean_Join) (simp add: list_all_iff)
  then show ?case unfolding ts(2) by (intro clean_append clean_literals)
next
  case (6 nf ms)
  have valid: "\<not> list_ex (\<lambda>(k, v). \<not> utf8_valid k) ms" using 6(3) by (auto split: if_splits)
  then obtain ts where ts: "map (\<lambda>(k, v). member_text k (serializeCanonical nf v)) (sort_members ms) = map Some ts"
    "y = ''{'' @ Join ts '','' @ ''}''"
    using 6(3) by (auto simp: those_Some)
  have "clean t" if "t \<in> set ts" for t
  proof -
    have "Some t \<in> set (map (\<lambda>(k, v). member_text k (serializeCanonical nf v)) (sort_members ms))"
      using that ts(1) by simp
    then obtain k v where m: "(k, v) \<in> set (sort_members ms)" "member_text k (serializeCanonical nf v) = Some t" by auto
    then obtain u where u: "serializeCanonical nf v = Some u" "utf8_valid k"
      "t = (CHR 0x22 # concat (map escape_char k) @ [CHR 0x22]) @ '':'' @ u"
      by (auto simp: member_text_Some)
    have "clean u" using 6(1) [OF valid m(1) refl 6(2) u(1)] .
    then show ?thesis unfolding u(3) using clean_quoted [OF u(2)] by (intro clean_append clean_literals)
  qed
  then have "clean (Join ts '','')" by (intro clean_Join) (simp add: list_all_iff)
  then show ?case unfolding ts(2) by (intro clean_append clean_literals)
qed (auto simp: clean_literals serializeString_eq clean_quoted split: if_splits)

lemma parse_scalar_distinct: "parse_scalar s = Some (v, r) \<Longrightarrow> keys_distinct v"
  by (auto simp: parse_scalar_def literal_def split: list.splits if_splits)

lemma parse_distinct:
  "parse_value s = Some (v, r) \<Longrightarrow> keys_distinct v"
  "keys_distinct (JObj obj) \<Longrightarrow> parse_object obj first s = Some (v, r) \<Longrightarrow> keys_distinct v"
  "keys_distinct (JArr arr) \<Longrightarrow> parse_array arr first s = Some (v, r) \<Longrightarrow> keys_distinct v"
proof (induction s and obj first s and arr first s arbitrary: v r and v r and v r
    rule: parse_value_parse_object_parse_array.induct)
  case (1 s)
  note eq = 1(3) [unfolded parse_value.simps [of s]]
  from eq obtain c r0 where ws: "skip_ws s = c # r0" by (auto split: list.splits)
  then show ?case using eq 1(1,2) by (auto split: if_splits dest: parse_scalar_distinct)
next
  case (2 obj first s)
  note eq = 2(4) [unfolded parse_object.simps [of obj]]
  from eq obtain c r0 where ws: "skip_ws s = c # r0" by (auto split: list.splits)
  show ?case
  proof (cases "c = CHR ''}''")
    case True
    then show ?thesis using eq ws 2(3) by auto
  next
    case False
    with eq ws obtain s1 key s2 val s3 where e: "c \<noteq> CHR '']''" "next_element first (c # r0) = Some s1"
      "parse_key s1 = Some (key, s2)" "map_of obj key = None" "parse_value s2 = Some (val, s3)"
      "parse_object (obj @ [(key, val)]) False s3 = Some (v, r)"
      by (auto split: option.splits if_splits)
    have "keys_distinct val" using 2(1) ws False e by blast
    then have "keys_distinct (JObj (obj @ [(key, val)]))" using 2(3) e(4) by (auto simp: map_of_eq_None_iff)
    then show ?thesis using 2(2) ws False e by blast
  qed
next
  case (3 arr first s)
  note eq = 3(4) [unfolded parse_array.simps [of arr]]
  from eq obtain c r0 where ws: "skip_ws s = c # r0" by (auto split: list.splits)
  show ?case
  proof (cases "c = CHR '']''")
    case True
    then show ?thesis using eq ws 3(3) by auto
  next
    case False
    with eq ws obtain s1 el s2 where e: "c \<noteq> CHR ''}''" "next_element first (c # r0) = Some s1"
      "parse_value s1 = Some (el, s2)" "parse_array (arr @ [el]) False s2 = Some (v, r)"
      by (auto split: option.splits if_splits)
    have "keys_distinct el" using 3(1) ws False e by blast
    then show ?thesis using 3(2,3) ws False e by simp
  qed
qed


lemma Canonicalize_Some:
  assumes "number_format_ok nf" and "Canonicalize nf x = Some y"
  obtains v where "parseStrict x = Some v" "keys_distinct v" "serializeCanonical nf v = Some y"
    "parseStrict y = Some (normal nf v)" "checkUnicodeAndSurrogates y"
proof -
  obtain v where v: "parseStrict x = Some v" "serializeCanonical nf v = Some y"
    using assms(2) by (auto simp: Canonicalize_def split: if_splits option.splits)
  have kd: "keys_distinct v" using v(1) parse_distinct(1)
    by (fastforce simp: parseStrict_def split: option.splits if_splits)
  have "parse_value (y @ []) = Some (normal nf v, [])"
    using serialize_reads [OF assms(1) kd v(2)] stops_simps(1) unfolding reads_as_def by blast
  then have "parseStrict y = Some (normal nf v)" by (simp add: parseStrict_def)
  moreover have "checkUnicodeAndSurrogates y"
    using serialize_clean [OF assms(1) v(2)] unfolding clean_def checkUnicodeAndSurrogates_def
    by (metis append_Nil2 check_bytes.simps(1))
  ultimately show thesis using that v kd by blast
qed

text \<open>C21. Canonical JSON is a fixed point: whatever bytes \<open>Canonicalize\<close> accepts, canonicalizing its output
  again succeeds and returns the output unchanged.\<close>

theorem Canonicalize_idempotent:
  assumes "number_format_ok nf" and "Canonicalize nf x = Some y"
  shows "Canonicalize nf y = Some y"
proof -
  obtain v where v: "serializeCanonical nf v = Some y" "parseStrict y = Some (normal nf v)" "checkUnicodeAndSurrogates y"
    using Canonicalize_Some [OF assms] by blast
  then show ?thesis using serialize_normal [OF assms(1) v(1)] by (simp add: Canonicalize_def)
qed

lemma normal_eq_serialize:
  assumes "number_format_ok nf" and "serializeCanonical nf v = Some a" and "serializeCanonical nf w = Some b"
    and "keys_distinct v" and "keys_distinct w"
  shows "a = b \<longleftrightarrow> normal nf v = normal nf w"
proof
  assume "a = b"
  have "parse_value (a @ []) = Some (normal nf v, [])" "parse_value (b @ []) = Some (normal nf w, [])"
    using serialize_reads assms stops_simps(1) unfolding reads_as_def by blast+
  with \<open>a = b\<close> show "normal nf v = normal nf w" by simp
next
  assume "normal nf v = normal nf w"
  then show "a = b" using serialize_normal [OF assms(1)] assms(2,3) by (metis option.inject)
qed

text \<open>C22. Canonical bytes identify the document: two inputs that \<open>Canonicalize\<close> accepts get the same bytes
  exactly when they decode to values with the same normal form, that is to the same value up to the
  order of object members and the spelling of numbers.\<close>

theorem Canonicalize_complete:
  assumes "number_format_ok nf" and "Canonicalize nf x = Some a" and "Canonicalize nf y = Some b"
  shows "a = b \<longleftrightarrow> map_option (normal nf) (parseStrict x) = map_option (normal nf) (parseStrict y)"
proof -
  obtain v where v: "parseStrict x = Some v" "keys_distinct v" "serializeCanonical nf v = Some a"
    using Canonicalize_Some [OF assms(1,2)] by blast
  obtain w where w: "parseStrict y = Some w" "keys_distinct w" "serializeCanonical nf w = Some b"
    using Canonicalize_Some [OF assms(1,3)] by blast
  show ?thesis using normal_eq_serialize [OF assms(1) v(3) w(3) v(2) w(2)] v(1) w(1) by simp
qed

text \<open>The order in which Go ranges over an object's map does not matter.\<close>

lemma serialize_order_independent:
  assumes "mset ms = mset ns" and "distinct (map fst ms)"
  shows "serializeCanonical nf (JObj ms) = serializeCanonical nf (JObj ns)"
proof -
  have s: "set ms = set ns" using assms(1) by (metis set_mset_mset)
  then have l: "list_ex (\<lambda>(k, v). \<not> utf8_valid k) ms = list_ex (\<lambda>(k, v). \<not> utf8_valid k) ns"
    by (simp add: list_ex_iff)
  show ?thesis
  proof (cases "list_ex (\<lambda>(k, v). \<not> utf8_valid k) ms")
    case True
    then show ?thesis using l by simp
  next
    case False
    then have "sort_members ms = sort_members ns"
      using assms by (intro sort_members_perm) (auto simp: list_ex_iff)
    then show ?thesis using l by simp
  qed
qed

lemma bit_invalidPattern: "bit invalidPattern n \<longleftrightarrow> 52 \<le> n \<and> n < 63"
proof -
  have m: "invalidPattern = push_bit 52 (mask 11)" by (simp add: invalidPattern_def mask_eq_exp_minus_1 push_bit_eq_mult)
  show ?thesis unfolding m by (auto simp: bit_simps)
qed

lemma invalid_exponent: "drop_bit 52 (abs_bits f) = 0x7ff \<longleftrightarrow> f AND invalidPattern = invalidPattern"
proof -
  have m: "(0x7ff :: 64 word) = mask 11" by (simp add: mask_eq_exp_minus_1)
  have "drop_bit 52 (abs_bits f) = 0x7ff \<longleftrightarrow> (\<forall>n < 11. bit f (52 + n))"
  proof -
    have "drop_bit 52 (abs_bits f) = mask 11 \<longleftrightarrow> (\<forall>n<64. (bit f (52 + n) \<and> n < 11) = (n < 11))"
      by (auto simp: bit_eq_iff bit_simps abs_bits_bit)
    also have "\<dots> \<longleftrightarrow> (\<forall>n < 11. bit f (52 + n))"
    proof -
      have "n < 64" if "n < 11" for n :: nat using that by simp
      then show ?thesis by blast
    qed
    finally show ?thesis unfolding m .
  qed
  also have "\<dots> \<longleftrightarrow> (\<forall>n. 52 \<le> n \<and> n < 63 \<longrightarrow> bit f n)"
  proof (intro iffI allI impI)
    fix n :: nat assume "\<forall>n < 11. bit f (52 + n)" and "52 \<le> n \<and> n < 63"
    moreover from this have "n - 52 < 11" by auto
    ultimately have "bit f (52 + (n - 52))" by blast
    then show "bit f n" using \<open>52 \<le> n \<and> n < 63\<close> by simp
  qed auto
  also have "\<dots> \<longleftrightarrow> f AND invalidPattern = invalidPattern"
  proof -
    have l: "n < 64" if "n < 63" for n :: nat using that by simp
    have "f AND invalidPattern = invalidPattern \<longleftrightarrow> (\<forall>n<64. (bit f n \<and> 52 \<le> n \<and> n < 63) = (52 \<le> n \<and> n < 63))"
      by (auto simp: bit_eq_iff bit_simps bit_invalidPattern)
    then show ?thesis using l by blast
  qed
  finally show ?thesis .
qed

lemma sign_bit: "bit f 63 \<longleftrightarrow> 2 ^ 63 \<le> uint f" for f :: "64 word"
proof -
  have u: "0 \<le> uint f" "uint f < 2 ^ 64" using uint_lt2p [of f] by simp_all
  then have "uint f div 2 ^ 63 = (if 2 ^ 63 \<le> uint f then 1 else 0)"
    using div_pos_pos_trivial [of "uint f" "2 ^ 63"] int_div_pos_eq [of "uint f" "2 ^ 63" 1 "uint f - 2 ^ 63"] by auto
  then have "bit (uint f) 63 \<longleftrightarrow> 2 ^ 63 \<le> uint f" by (simp add: bit_iff_odd)
  then show ?thesis by (simp add: bit_uint_iff)
qed

text \<open>Numbers that have no JSON form are rejected and only those: \<open>numberToJSON\<close> fails exactly on the bit
  patterns with an all-ones exponent (infinities and NaNs), writes both zeros as \<open>0\<close>, and otherwise the
  text of the magnitude after a minus sign exactly for a set sign bit.\<close>

theorem numberToJSON_bounds:
  "numberToJSON nf f =
     (if drop_bit 52 (abs_bits f) = 0x7ff then None
      else if abs_bits f = 0 then Some ''0''
      else Some ((if 2 ^ 63 \<le> uint f then ''-'' else []) @
             trim_exponent (nf_format nf (number_kind (abs_bits f)) (abs_bits f))))"
proof -
  have "drop_bit 52 (abs_bits f) = 0x7ff \<longleftrightarrow> f AND invalidPattern = invalidPattern" by (rule invalid_exponent)
  moreover have "bit f 63 \<longleftrightarrow> 2 ^ 63 \<le> uint f" by (rule sign_bit)
  ultimately show ?thesis by (simp add: numberToJSON_def)
qed

section \<open>A number format\<close>

text \<open>A format that meets \<open>number_format_ok\<close>: it writes the bit pattern of a float in decimal.\<close>

definition digits_value :: "string \<Rightarrow> nat" where
  "digits_value ds = foldl (\<lambda>a c. a * 10 + (byte c - 48)) 0 ds"

fun bits_parse :: "string \<Rightarrow> 64 word option" where
  "bits_parse t =
     (case t of
        c # s \<Rightarrow>
          if c = CHR ''-'' then Some (set_bit 63 (of_nat (digits_value (takeWhile is_digit s))))
          else Some (of_nat (digits_value (takeWhile is_digit t)))
      | [] \<Rightarrow> None)"

definition bits_format :: number_format where
  "bits_format = \<lparr>nf_parse = bits_parse,
     nf_format = (\<lambda>k g. nat_digits (unat g) @ (if k = CHR ''f'' then [] else ''e+00''))\<rparr>"

lemma digit_char_of: "n < 10 \<Longrightarrow> is_digit (char_of (48 + n)) \<and> byte (char_of (48 + n)) - 48 = n"
  by (simp add: is_digit_def in_range_def)

lemma nat_digits_facts:
  "list_all is_digit (nat_digits n) \<and> digits_value (nat_digits n) = n \<and> nat_digits n \<noteq> [] \<and>
   (0 < n \<longrightarrow> hd (nat_digits n) \<noteq> CHR ''0'')"
proof (induction n rule: nat_digits.induct)
  case (1 n)
  show ?case
  proof (cases "n < 10")
    case True
    have "char_of (48 + n) \<noteq> CHR ''0''" if "0 < n"
    proof
      assume "char_of (48 + n) = CHR ''0''"
      then have "byte (char_of (48 + n)) = 48" by (simp add: byte_def)
      then show False using that True by simp
    qed
    then show ?thesis using True digit_char_of [of n] by (subst (1 2 3 4) nat_digits.simps) (simp add: digits_value_def)
  next
    case False
    then have IH: "list_all is_digit (nat_digits (n div 10))" "digits_value (nat_digits (n div 10)) = n div 10"
      "nat_digits (n div 10) \<noteq> []" "hd (nat_digits (n div 10)) \<noteq> CHR ''0''"
      using 1 by auto
    have "nat_digits n = nat_digits (n div 10) @ [char_of (48 + n mod 10)]"
      using False by (subst nat_digits.simps) simp
    then show ?thesis using IH digit_char_of [of "n mod 10"] by (simp add: digits_value_def)
  qed
qed

lemma bits_parse_digits:
  assumes "takeWhile is_digit r = []"
  shows "bits_parse (nat_digits n @ r) = Some (of_nat n)"
proof -
  note f = nat_digits_facts [of n]
  then obtain c s where c: "nat_digits n = c # s" "is_digit c" by (cases "nat_digits n") auto
  then have "c \<noteq> CHR ''-''" by (auto simp: is_digit_def in_range_def byte_def)
  moreover have "takeWhile is_digit (nat_digits n @ r) = nat_digits n"
    using f assms by (simp add: list_all_iff takeWhile_append2)
  ultimately show ?thesis using c(1) f by simp
qed

lemma nat_text_digits_of: "0 < n \<Longrightarrow> nat_text (nat_digits n)"
proof -
  assume "0 < n"
  then obtain c s where "nat_digits n = c # s" "c \<noteq> CHR ''0''" using nat_digits_facts [of n] by (cases "nat_digits n") auto
  then show ?thesis
    using nat_digits_facts [of n] digits1_append [of "nat_digits n" "[]"] by (simp add: nat_text_def)
qed

lemma bits_format_ok: "number_format_ok bits_format"
  unfolding number_format_ok_def
proof (intro conjI allI impI)
  show "nf_parse bits_format ''0'' = Some 0"
    by (simp add: bits_format_def is_digit_def in_range_def byte_def digits_value_def)
next
  fix g :: "64 word" assume fin: "finite_positive g"
  then have pos: "0 < unat g" by (simp add: finite_positive_def unat_gt_0)
  have e: "exp_text (CHR ''+'') ''00''" by (simp add: exp_text_def is_digit_def in_range_def byte_def)
  have fr: "frac_text []" by (simp add: frac_text_def)
  show "float_text (number_kind g) (nf_format bits_format (number_kind g) g)"
    unfolding float_text_def bits_format_def
    using nat_text_digits_of [OF pos] fr e
    by (intro exI [of _ "nat_digits (unat g)"] exI [of _ "[]"]) (auto intro!: exI [of _ "CHR ''+''"] exI [of _ "''00''"])
  show "nf_parse bits_format (nf_format bits_format (number_kind g) g) = Some g"
    using bits_parse_digits [of "[]" "unat g"] bits_parse_digits [of "''e+00''" "unat g"]
    by (simp add: bits_format_def is_digit_def in_range_def byte_def del: bits_parse.simps)
next
  fix t and g :: "64 word" assume "nf_parse bits_format t = Some g \<and> finite_positive g"
  moreover have "bit (set_bit 63 w) 63" for w :: "64 word" by (simp add: bit_set_bit_iff)
  ultimately show "nf_parse bits_format (CHR ''-'' # t) = Some (set_bit 63 g)"
    by (cases t) (auto simp: bits_format_def finite_positive_def split: if_splits)
next
  fix m ds and sg :: char assume "exp_text sg ds"
  have "takeWhile is_digit (m @ CHR ''e'' # x) = takeWhile is_digit m" for m x
    by (induction m) (auto simp: is_digit_def in_range_def byte_def)
  then show "nf_parse bits_format (m @ CHR ''e'' # sg # CHR ''0'' # ds) = nf_parse bits_format (m @ CHR ''e'' # sg # ds)"
    by (cases m) (auto simp: bits_format_def is_digit_def in_range_def byte_def)
qed

definition sample_json :: string where
  "sample_json = ''{ '' @ [CHR 0x22] @ ''b'' @ [CHR 0x22] @ '':[ true,null ],'' @ [CHR 0x22] @ ''a'' @ [CHR 0x22] @ '':-12}''"

definition sample_canonical :: string where
  "sample_canonical = ''{'' @ [CHR 0x22] @ ''a'' @ [CHR 0x22] @ '':-12e+0,'' @ [CHR 0x22] @ ''b'' @ [CHR 0x22] @ '':[true,null]}''"

lemma sample_canonicalizes: "Canonicalize bits_format sample_json = Some sample_canonical"
  by code_simp

theorem Canonicalize_idempotent_witness:
  "Canonicalize bits_format sample_json = Some sample_canonical \<and>
   Canonicalize bits_format sample_canonical = Some sample_canonical"
  using Canonicalize_idempotent [OF bits_format_ok sample_canonicalizes] sample_canonicalizes by blast

theorem Canonicalize_complete_witness:
  "map_option (normal bits_format) (parseStrict sample_json) =
   map_option (normal bits_format) (parseStrict sample_canonical)"
proof -
  have c: "Canonicalize bits_format sample_canonical = Some sample_canonical" by code_simp
  show ?thesis using Canonicalize_complete [OF bits_format_ok sample_canonicalizes c] by simp
qed

end
