(* ===== verification/Signing.thy ===== *)
theory Signing
  imports Jcs_Canonical
begin

text \<open>
  Signatures: \<open>pkg/signing/signer.go\<close>. Ed25519 itself is the parameter \<open>ed25519\<close> (public key of a
  private key, signing, verification on byte strings); the base64url text of a signature
  (\<open>base64.RawURLEncoding\<close>, strict decoding, newlines skipped) is computed.
\<close>

section \<open>Base64url without padding\<close>

definition b64_alphabet :: string where
  "b64_alphabet = ''ABCDEFGHIJKLMNOPQRSTUVWXYZabcdefghijklmnopqrstuvwxyz0123456789-_''"

definition b64_char :: "nat \<Rightarrow> char" where
  "b64_char n = b64_alphabet ! n"

definition b64_index :: "char \<Rightarrow> nat option" where
  "b64_index c = map_of (zip b64_alphabet [0..<64]) c"

fun b64_encode :: "string \<Rightarrow> string" where
  "b64_encode (a # b # c # s) =
     b64_char (byte a div 4) # b64_char (byte a mod 4 * 16 + byte b div 16)
     # b64_char (byte b mod 16 * 4 + byte c div 64) # b64_char (byte c mod 64) # b64_encode s"
| "b64_encode [a, b] =
     [b64_char (byte a div 4), b64_char (byte a mod 4 * 16 + byte b div 16), b64_char (byte b mod 16 * 4)]"
| "b64_encode [a] = [b64_char (byte a div 4), b64_char (byte a mod 4 * 16)]"
| "b64_encode [] = []"

text \<open>The sextets of a quantum; strict decoding rejects set bits after the last byte.\<close>

fun b64_sextets :: "nat list \<Rightarrow> string option" where
  "b64_sextets (w # x # y # z # s) =
     map_option (\<lambda>t. char_of (w * 4 + x div 16) # char_of (x mod 16 * 16 + y div 4)
                     # char_of (y mod 4 * 64 + z) # t) (b64_sextets s)"
| "b64_sextets [w, x, y] =
     (if y mod 4 = 0 then Some [char_of (w * 4 + x div 16), char_of (x mod 16 * 16 + y div 4)] else None)"
| "b64_sextets [w, x] = (if x mod 16 = 0 then Some [char_of (w * 4 + x div 16)] else None)"
| "b64_sextets [w] = None"
| "b64_sextets [] = Some []"

definition b64_decode :: "string \<Rightarrow> string option" where
  "b64_decode s =
     (case those (map b64_index (filter (\<lambda>c. c \<noteq> CHR 0x0A \<and> c \<noteq> CHR 0x0D) s)) of
        None \<Rightarrow> None
      | Some ns \<Rightarrow> b64_sextets ns)"

section \<open>Signing and verification\<close>

record ed25519 =
  ed_public :: "string \<Rightarrow> string"
  ed_sign :: "string \<Rightarrow> string \<Rightarrow> string"
  ed_verify :: "string \<Rightarrow> string \<Rightarrow> string \<Rightarrow> bool"

record BasicSigner =
  bs_privateKey :: string
  bs_agentID :: string

datatype signing_error = ErrEmptyData | ErrInvalidSig | ErrVerifyFailed | ErrKeySize nat

definition PublicKey :: "ed25519 \<Rightarrow> BasicSigner \<Rightarrow> string" where
  "PublicKey ed s = ed_public ed (bs_privateKey s)"

definition Sign :: "ed25519 \<Rightarrow> BasicSigner \<Rightarrow> string \<Rightarrow> signing_error + string" where
  "Sign ed s d = (if d = [] then Inl ErrEmptyData else Inr (b64_encode (ed_sign ed (bs_privateKey s) d)))"

definition Verify :: "ed25519 \<Rightarrow> string \<Rightarrow> string \<Rightarrow> string \<Rightarrow> signing_error option" where
  "Verify ed publicKey d signatureB64 =
     (if length publicKey \<noteq> 32 then Some (ErrKeySize (length publicKey))
      else if d = [] then Some ErrEmptyData
      else if signatureB64 = [] then Some ErrInvalidSig
      else case b64_decode signatureB64 of
             None \<Rightarrow> Some ErrInvalidSig
           | Some sig \<Rightarrow>
               if length sig \<noteq> 64 then Some ErrInvalidSig
               else if b64_encode sig \<noteq> signatureB64 then Some ErrInvalidSig
               else if \<not> ed_verify ed publicKey d sig then Some ErrVerifyFailed
               else None)"

section \<open>Base64 round trip\<close>

lemma b64_index_char: "n < 64 \<Longrightarrow> b64_index (b64_char n) = Some n"
proof -
  assume n: "n < 64"
  have "list_all (\<lambda>n. b64_index (b64_char n) = Some n) [0..<64]" by code_simp
  then show ?thesis using n by (simp add: list_all_iff)
qed

lemma b64_char_plain: "n < 64 \<Longrightarrow> b64_char n \<noteq> CHR 0x0A \<and> b64_char n \<noteq> CHR 0x0D"
proof -
  assume n: "n < 64"
  have "list_all (\<lambda>n. b64_char n \<noteq> CHR 0x0A \<and> b64_char n \<noteq> CHR 0x0D) [0..<64]" by code_simp
  then show ?thesis using n by (simp add: list_all_iff)
qed

fun sextets_of :: "string \<Rightarrow> nat list" where
  "sextets_of (a # b # c # s) =
     byte a div 4 # (byte a mod 4 * 16 + byte b div 16) # (byte b mod 16 * 4 + byte c div 64) # byte c mod 64 # sextets_of s"
| "sextets_of [a, b] = [byte a div 4, byte a mod 4 * 16 + byte b div 16, byte b mod 16 * 4]"
| "sextets_of [a] = [byte a div 4, byte a mod 4 * 16]"
| "sextets_of [] = []"

lemma byte_parts:
  "byte a div 4 < 64" "byte a div 16 < 16" "byte a div 64 < 4" "byte a mod 4 * 16 + byte b div 16 < 64"
  "byte a mod 16 * 4 + byte b div 64 < 64" "byte a mod 16 * 4 < 64" "byte a mod 4 * 16 < 64"
proof -
  have d: "byte x div 4 < 64" "byte x div 16 < 16" "byte x div 64 < 4" for x
    by (rule less_mult_imp_div_less, simp)+
  show "byte a div 4 < 64" "byte a div 16 < 16" "byte a div 64 < 4" by (rule d)+
  have "byte b div 16 < 16" "byte b div 64 < 4" "byte a mod 4 < 4" "byte a mod 16 < 16" by (auto intro: d)
  then show "byte a mod 4 * 16 + byte b div 16 < 64"
    "byte a mod 16 * 4 + byte b div 64 < 64" "byte a mod 16 * 4 < 64" "byte a mod 4 * 16 < 64"
    by linarith+
qed

lemma sextets_small: "list_all (\<lambda>n. n < 64) (sextets_of s)"
  by (induction s rule: sextets_of.induct) (simp_all add: byte_parts)

lemma b64_encode_sextets: "b64_encode s = map b64_char (sextets_of s)"
  by (induction s rule: sextets_of.induct) simp_all

lemma sextet_bytes:
  "byte a div 4 * 4 + (byte a mod 4 * 16 + byte b div 16) div 16 = byte a"
  "(byte a mod 4 * 16 + byte b div 16) mod 16 * 16 + (byte b mod 16 * 4 + byte c div 64) div 4 = byte b"
  "(byte b mod 16 * 4 + byte c div 64) mod 4 * 64 + byte c mod 64 = byte c"
proof -
  have h: "byte b div 16 < 16" "byte c div 64 < 4" by (rule byte_parts)+
  have "(byte a mod 4 * 16 + byte b div 16) div 16 = byte a mod 4"
    "(byte a mod 4 * 16 + byte b div 16) mod 16 = byte b div 16" using h by auto
  moreover have "(byte b mod 16 * 4 + byte c div 64) div 4 = byte b mod 16"
    "(byte b mod 16 * 4 + byte c div 64) mod 4 = byte c div 64" using h by auto
  ultimately show "byte a div 4 * 4 + (byte a mod 4 * 16 + byte b div 16) div 16 = byte a"
    "(byte a mod 4 * 16 + byte b div 16) mod 16 * 16 + (byte b mod 16 * 4 + byte c div 64) div 4 = byte b"
    "(byte b mod 16 * 4 + byte c div 64) mod 4 * 64 + byte c mod 64 = byte c"
    by (simp_all add: mult.commute [of "_ div _"])
qed

lemma sextet_bytes_short:
  "byte a div 4 * 4 + byte a mod 4 * 16 div 16 = byte a"
  "(byte a mod 4 * 16 + byte b div 16) mod 16 * 16 + byte b mod 16 * 4 div 4 = byte b"
proof -
  have "byte b div 16 < 16" by (rule byte_parts)
  then have "(byte a mod 4 * 16 + byte b div 16) mod 16 = byte b div 16" by auto
  then show "byte a div 4 * 4 + byte a mod 4 * 16 div 16 = byte a"
    "(byte a mod 4 * 16 + byte b div 16) mod 16 * 16 + byte b mod 16 * 4 div 4 = byte b"
    by (simp_all add: mult.commute [of "_ div _"])
qed

lemma b64_sextets_of: "b64_sextets (sextets_of s) = Some s"
  by (induction s rule: sextets_of.induct)
    (simp_all only: sextets_of.simps b64_sextets.simps sextet_bytes sextet_bytes_short char_of_byte,
     simp_all)

lemma b64_roundtrip: "b64_decode (b64_encode s) = Some s"
proof -
  have "filter (\<lambda>c. c \<noteq> CHR 0x0A \<and> c \<noteq> CHR 0x0D) (b64_encode s) = b64_encode s"
    using sextets_small [of s] b64_char_plain by (auto simp: filter_id_conv b64_encode_sextets list_all_iff)
  moreover have "map b64_index (b64_encode s) = map Some (sextets_of s)"
    using sextets_small [of s] by (auto simp: b64_encode_sextets list_all_iff b64_index_char)
  moreover have "those (map Some (sextets_of s)) = Some (sextets_of s)" by (simp add: those_Some)
  ultimately show ?thesis by (simp add: b64_decode_def b64_sextets_of)
qed

text \<open>What the code relies on of Ed25519.\<close>

definition ed25519_ok :: "ed25519 \<Rightarrow> bool" where
  "ed25519_ok ed \<longleftrightarrow>
     (\<forall>k d. length (ed_public ed k) = 32 \<and> length (ed_sign ed k d) = 64 \<and>
            ed_verify ed (ed_public ed k) d (ed_sign ed k d))"

lemma Verify_Sign:
  assumes "ed25519_ok ed" and "Sign ed s d = Inr sig"
  shows "Verify ed (PublicKey ed s) d sig = None \<and> sig \<noteq> []"
proof -
  have s: "sig = b64_encode (ed_sign ed (bs_privateKey s) d)" "d \<noteq> []"
    using assms(2) by (auto simp: Sign_def split: if_splits)
  have "sig \<noteq> []" using s(1) assms(1) b64_roundtrip by (metis b64_encode.simps(4) ed25519_ok_def list.size(3) option.inject zero_neq_numeral)
  then show ?thesis using s assms(1) by (simp add: Verify_def PublicKey_def b64_roundtrip ed25519_ok_def)
qed

text \<open>A signature has one accepted text: two texts that carry the same signature bytes are not both accepted.\<close>

lemma Verify_not_malleable:
  "Verify ed k d s = None \<Longrightarrow> Verify ed k d t = None \<Longrightarrow> b64_decode s = b64_decode t \<Longrightarrow> s = t"
  by (auto simp: Verify_def split: if_splits option.splits)

end
