(* ===== verification/Go_Host.thy ===== *)
theory Go_Host
  imports Signing
begin

text \<open>
  What the contract, receipt and join-log packages use of their host: number conversion, SHA-256 (as hex
  text), Ed25519, the RFC 3339 text of a time, \<open>url.Parse\<close> and \<open>regexp.Compile\<close> (whether they accept a
  text). The encoding of a struct is the \<open>json\<close> value that \<open>json.Marshal\<close> writes for its tags;
  \<open>omitempty\<close> leaves a member out. \<open>jcs.Marshal\<close> of a struct is the canonical text of that value.
\<close>

record go_host =
  gh_numbers :: number_format
  gh_sha :: "string \<Rightarrow> string"
  gh_ed :: ed25519
  gh_time :: "int \<Rightarrow> string"
  gh_url :: "string \<Rightarrow> bool"
  gh_regexp :: "string \<Rightarrow> bool"

definition jint :: "int \<Rightarrow> json" where
  "jint i = JNum (decimal i)"

definition omit_str :: "string \<Rightarrow> string \<Rightarrow> (string \<times> json) list" where
  "omit_str k s = (if s = [] then [] else [(k, JStr s)])"

definition omit_int :: "string \<Rightarrow> int \<Rightarrow> (string \<times> json) list" where
  "omit_int k i = (if i = 0 then [] else [(k, jint i)])"

definition omit_bool :: "string \<Rightarrow> bool \<Rightarrow> (string \<times> json) list" where
  "omit_bool k b = (if b then [(k, JBool True)] else [])"

definition omit_list :: "string \<Rightarrow> json list \<Rightarrow> (string \<times> json) list" where
  "omit_list k vs = (if vs = [] then [] else [(k, JArr vs)])"

text \<open>A slice or map that may be nil: nil is written as null.\<close>

definition jslice :: "('a \<Rightarrow> json) \<Rightarrow> 'a list option \<Rightarrow> json" where
  "jslice f v = (case v of None \<Rightarrow> JNull | Some xs \<Rightarrow> JArr (map f xs))"

lemmas json_field_defs = omit_str_def omit_int_def omit_bool_def omit_list_def jint_def jslice_def

named_theorems json_keys \<open>introduction rules for the distinct keys of encoded structs\<close>

lemma omit_distinct [json_keys]:
  "k \<notin> fst ` set ms \<Longrightarrow> distinct (map fst ms) \<Longrightarrow> distinct (map fst (omit_str k s @ ms))"
  "k \<notin> fst ` set ms \<Longrightarrow> distinct (map fst ms) \<Longrightarrow> distinct (map fst (omit_int k i @ ms))"
  "k \<notin> fst ` set ms \<Longrightarrow> distinct (map fst ms) \<Longrightarrow> distinct (map fst (omit_bool k b @ ms))"
  "k \<notin> fst ` set ms \<Longrightarrow> distinct (map fst ms) \<Longrightarrow> distinct (map fst (omit_list k vs @ ms))"
  "k \<notin> fst ` set ms \<Longrightarrow> distinct (map fst ms) \<Longrightarrow> distinct (map fst ((k, v) # ms))"
  "distinct (map fst (omit_str k s))" "distinct (map fst (omit_int k i))" "distinct (map fst [(k, v)])"
  by (auto simp: json_field_defs)

lemma omit_fresh [json_keys]:
  "k \<noteq> j \<Longrightarrow> k \<notin> fst ` set ms \<Longrightarrow> k \<notin> fst ` set (omit_str j s @ ms)"
  "k \<noteq> j \<Longrightarrow> k \<notin> fst ` set ms \<Longrightarrow> k \<notin> fst ` set (omit_int j i @ ms)"
  "k \<noteq> j \<Longrightarrow> k \<notin> fst ` set ms \<Longrightarrow> k \<notin> fst ` set (omit_bool j b @ ms)"
  "k \<noteq> j \<Longrightarrow> k \<notin> fst ` set ms \<Longrightarrow> k \<notin> fst ` set (omit_list j vs @ ms)"
  "k \<noteq> j \<Longrightarrow> k \<notin> fst ` set ms \<Longrightarrow> k \<notin> fst ` set ((j, v) # ms)"
  "k \<noteq> j \<Longrightarrow> k \<notin> fst ` set (omit_str j s)" "k \<noteq> j \<Longrightarrow> k \<notin> fst ` set (omit_int j i)"
  "k \<notin> fst ` set []"
  by (auto simp: json_field_defs)

lemma omit_values [simp]:
  "list_all (\<lambda>(k, v). keys_distinct v) (omit_str k s)"
  "list_all (\<lambda>(k, v). keys_distinct v) (omit_int k i)"
  "list_all (\<lambda>(k, v). keys_distinct v) (omit_bool k b)"
  "list_all (\<lambda>(k, v). keys_distinct v) (omit_list k vs) \<longleftrightarrow> list_all keys_distinct vs"
  "keys_distinct (jint i)" "list_all keys_distinct (map JStr ss)"
  by (auto simp: json_field_defs list_all_iff)

lemma jslice_distinct: "(\<And>x xs. v = Some xs \<Longrightarrow> x \<in> set xs \<Longrightarrow> keys_distinct (f x)) \<Longrightarrow> keys_distinct (jslice f v)"
  by (auto simp: jslice_def list_all_iff split: option.splits)

lemma keys_distinctI:
  "distinct (map fst ms) \<Longrightarrow> list_all (\<lambda>(k, v). keys_distinct v) ms \<Longrightarrow> keys_distinct (JObj ms)"
  by simp

definition Marshal :: "go_host \<Rightarrow> json \<Rightarrow> string option" where
  "Marshal h v = serializeCanonical (gh_numbers h) v"

definition hash_json :: "go_host \<Rightarrow> json \<Rightarrow> string option" where
  "hash_json h v =
     (case Marshal h v of
        None \<Rightarrow> None
      | Some d \<Rightarrow> HashHex (gh_numbers h) (gh_sha h) d)"

lemma Canonicalize_serialized:
  assumes "number_format_ok nf" and "keys_distinct v" and "serializeCanonical nf v = Some y"
  shows "Canonicalize nf y = Some y"
proof -
  have "parse_value (y @ []) = Some (normal nf v, [])"
    using serialize_reads [OF assms] stops_simps(1) unfolding reads_as_def by blast
  then have "parseStrict y = Some (normal nf v)" by (simp add: parseStrict_def)
  moreover have "checkUnicodeAndSurrogates y"
    using serialize_clean [OF assms(1,3)] unfolding clean_def checkUnicodeAndSurrogates_def
    by (metis append_Nil2 check_bytes.simps(1))
  ultimately show ?thesis using serialize_normal [OF assms(1,3)] by (simp add: Canonicalize_def)
qed

lemma hash_json_eq:
  assumes "number_format_ok (gh_numbers h)" and "keys_distinct v"
  shows "hash_json h v = map_option (gh_sha h) (serializeCanonical (gh_numbers h) v)"
  using Canonicalize_serialized [OF assms]
  by (auto simp: hash_json_def Marshal_def HashHex_def split: option.splits)

definition sha_collision :: "(string \<Rightarrow> string) \<Rightarrow> bool" where
  "sha_collision sha \<longleftrightarrow> (\<exists>x y. x \<noteq> y \<and> sha x = sha y)"

lemma hash_json_binds:
  assumes "number_format_ok (gh_numbers h)" and "keys_distinct v" and "keys_distinct w"
    and "hash_json h v = Some x" and "hash_json h w = Some x"
  shows "normal (gh_numbers h) v = normal (gh_numbers h) w \<or> sha_collision (gh_sha h)"
proof -
  obtain a b where "serializeCanonical (gh_numbers h) v = Some a" "serializeCanonical (gh_numbers h) w = Some b"
    "gh_sha h a = gh_sha h b"
    using assms hash_json_eq by auto
  then show ?thesis using normal_eq_serialize assms(1-3) unfolding sha_collision_def by metis
qed

lemma normal_object_fields:
  assumes "normal nf (JObj ms) = normal nf (JObj ns)" and "distinct (map fst ms)" and "distinct (map fst ns)"
  shows "map_option (normal nf) (map_of ms k) = map_option (normal nf) (map_of ns k)"
proof -
  let ?f = "\<lambda>(k, v). (k, normal nf v)"
  have d: "distinct (map fst (map ?f ms))" "distinct (map fst (map ?f ns))"
  proof -
    have "map fst (map ?f xs) = map fst xs" for xs by auto
    then show "distinct (map fst (map ?f ms))" "distinct (map fst (map ?f ns))" using assms(2,3) by metis+
  qed
  have "set (sort_members (map ?f ms)) = set (sort_members (map ?f ns))" using assms(1) by simp
  then have "set (map ?f ms) = set (map ?f ns)" by (simp only: set_sort_members)
  then have "map_of (map ?f ms) = map_of (map ?f ns)" using map_of_inject_set [OF d] by blast
  moreover have "map_of (map ?f xs) k = map_option (normal nf) (map_of xs k)" for xs
    by (induction xs) auto
  ultimately show ?thesis by metis
qed

section \<open>Encodable values\<close>

text \<open>Values on which serialization cannot fail.\<close>

fun encodable :: "number_format \<Rightarrow> json \<Rightarrow> bool" where
  "encodable nf (JNum t) = (canonical_number nf t \<noteq> None)"
| "encodable nf (JStr s) = utf8_valid s"
| "encodable nf (JArr vs) = list_all (encodable nf) vs"
| "encodable nf (JObj ms) = list_all (\<lambda>(k, v). utf8_valid k \<and> encodable nf v) ms"
| "encodable nf v = True"

lemma those_total: "\<forall>x \<in> set xs. x \<noteq> None \<Longrightarrow> \<exists>ys. those xs = Some ys"
  by (induction xs) (auto split: option.splits)

lemma serialize_total: "encodable nf v \<Longrightarrow> \<exists>y. serializeCanonical nf v = Some y"
proof (induction nf v rule: serializeCanonical.induct)
  case (3 nf t)
  then show ?case by (auto simp: canonical_number_def split: option.splits)
next
  case (5 nf vs)
  then have "\<forall>x \<in> set (map (serializeCanonical nf) vs). x \<noteq> None" by (fastforce simp: list_all_iff)
  from those_total [OF this] show ?case by auto
next
  case (6 nf ms)
  then have v: "\<not> list_ex (\<lambda>(k, v). \<not> utf8_valid k) ms" by (auto simp: list_all_iff list_ex_iff)
  have "member_text k (serializeCanonical nf v) \<noteq> None" if kv: "(k, v) \<in> set (sort_members ms)" for k v
  proof -
    have k: "utf8_valid k" "encodable nf v" using kv 6(2) by (auto simp: list_all_iff)
    moreover obtain y where "serializeCanonical nf v = Some y" using 6(1) [OF v kv refl k(2)] by auto
    ultimately show ?thesis by (simp add: member_text_def serializeString_eq)
  qed
  then have "\<forall>x \<in> set (map (\<lambda>(k, v). member_text k (serializeCanonical nf v)) (sort_members ms)). x \<noteq> None" by auto
  from those_total [OF this] show ?case using v by auto
qed (auto simp: serializeString_eq)

lemma hash_json_total:
  assumes "number_format_ok (gh_numbers h)" and "keys_distinct v" and "encodable (gh_numbers h) v"
  shows "\<exists>x. hash_json h v = Some (gh_sha h x) \<and> serializeCanonical (gh_numbers h) v = Some x"
  using serialize_total [OF assms(3)] hash_json_eq [OF assms(1,2)] by auto

lemma utf8_valid_Cons [simp]: "byte c < 0x80 \<Longrightarrow> utf8_valid (c # s) = utf8_valid s"
  by (auto simp: utf8_valid_def runes.simps [of "c # s"])

lemma utf8_valid_Nil [simp]: "utf8_valid []"
  by (simp add: utf8_valid_def)

lemma encodable_fields [simp]:
  "list_all (\<lambda>(k, v). utf8_valid k \<and> encodable nf v) (omit_str k s) \<longleftrightarrow> s = [] \<or> utf8_valid k \<and> utf8_valid s"
  "list_all (\<lambda>(k, v). utf8_valid k \<and> encodable nf v) (omit_int k i) \<longleftrightarrow> i = 0 \<or> utf8_valid k \<and> encodable nf (jint i)"
  "list_all (\<lambda>(k, v). utf8_valid k \<and> encodable nf v) (omit_bool k b) \<longleftrightarrow> \<not> b \<or> utf8_valid k"
  "list_all (\<lambda>(k, v). utf8_valid k \<and> encodable nf v) (omit_list k vs) \<longleftrightarrow>
     vs = [] \<or> utf8_valid k \<and> list_all (encodable nf) vs"
  by (auto simp: json_field_defs)

text \<open>A host for evaluation: numbers and digests as their own text.\<close>

definition sample_ed :: ed25519 where
  "sample_ed = \<lparr>ed_public = (\<lambda>k. take 32 (k @ replicate 32 (CHR ''k''))),
     ed_sign = (\<lambda>k d. take 32 (k @ replicate 32 (CHR ''k'')) @ take 32 (d @ replicate 32 (CHR ''d''))),
     ed_verify = (\<lambda>p d s. s = p @ take 32 (d @ replicate 32 (CHR ''d'')))\<rparr>"

definition sample_host :: go_host where
  "sample_host = \<lparr>gh_numbers = bits_format, gh_sha = (\<lambda>s. CHR ''h'' # s), gh_ed = sample_ed,
     gh_time = decimal, gh_url = (\<lambda>_. True), gh_regexp = (\<lambda>_. True)\<rparr>"

lemma sample_ed_ok: "ed25519_ok sample_ed"
  by (auto simp: ed25519_ok_def sample_ed_def min_def)

lemma sample_host_simps [simp]:
  "gh_numbers sample_host = bits_format" "gh_ed sample_host = sample_ed" "gh_sha sample_host = Cons (CHR ''h'')"
  by (simp_all add: sample_host_def)

lemma bits_encodes_int: "0 \<le> i \<Longrightarrow> i < 2 ^ 52 \<Longrightarrow> encodable bits_format (jint i)"
proof -
  assume i: "0 \<le> i" "i < 2 ^ 52"
  let ?w = "of_nat (nat i) :: 64 word"
  have "bits_parse (nat_digits (nat i)) = Some ?w" using bits_parse_digits [of "[]" "nat i"] by simp
  moreover have "\<not> bit ?w 52"
  proof -
    have "nat i < 2 ^ 52" using i by simp
    then have "nat i div 2 ^ 52 = 0" by simp
    then have "\<not> bit (nat i) 52" by (simp add: bit_iff_odd)
    then show ?thesis by (simp add: bit_of_nat_iff)
  qed
  then have "?w AND invalidPattern \<noteq> invalidPattern"
  proof -
    assume n: "\<not> bit ?w 52"
    have "bit invalidPattern 52" by (simp add: bit_invalidPattern)
    then show ?thesis using n by (metis bit_and_iff)
  qed
  ultimately show ?thesis using i
    by (simp add: jint_def decimal_def canonical_number_def bits_format_def numberToJSON_def del: bits_parse.simps)
qed

end
