(* ===== verification/Evaluator.thy ===== *)
theory Evaluator
  imports Assertions Go_Host
begin

text \<open>
  The assertion evaluator: \<open>pkg/settlement/evaluate.go\<close>. The operating system is an argument: what a symbolic link, a
  file, a command, \<open>git config\<close> and a port answer when they are asked, and the clock. Since a command may change
  all of that, each assertion is evaluated against a system of its own. The wording of a message is named by
  an \<open>eval_note\<close>.
\<close>

section \<open>The operating system\<close>

datatype link_result = LinkTo string | LinkMissing | LinkError string
datatype stat_result = StatOk int | StatMissing | StatError string
datatype read_result = ReadOk string | ReadMissing | ReadError string

text \<open>A command exits with a code, is killed by a signal (Go's exit code \<open>-1\<close>), is not started because the deadline
  has passed, or fails to start.\<close>

datatype exec_result = RunExit nat string string | RunKilled string string | RunDeadline | RunFailed string

record system =
  os_symlinks :: "string \<Rightarrow> link_result"
  os_stat :: "string \<Rightarrow> stat_result"
  os_read :: "string \<Rightarrow> read_result"
  os_run :: "string \<Rightarrow> string list \<Rightarrow> string list \<Rightarrow> exec_result"
  os_gitconfig :: "string \<Rightarrow> git_output"
  os_listen :: "int \<Rightarrow> bool"
  os_now :: int

record Evaluator =
  el_workingDir :: string
  el_env :: "string list"
  el_timeout :: int

section \<open>Environment\<close>

definition evaluatorEnvAllowlist :: "string list" where
  "evaluatorEnvAllowlist =
     [''PATH'', ''HOME'', ''USER'', ''LOGNAME'', ''SHELL'', ''TMPDIR'', ''TMP'', ''TEMP'', ''LANG'', ''LC_ALL'', ''LC_CTYPE'', ''TZ'',
      ''GOPATH'', ''GOCACHE'', ''GOMODCACHE'', ''GOTMPDIR'', ''GOROOT'', ''GOTOOLCHAIN'', ''CGO_ENABLED'', ''GODEBUG'']"

definition assigns :: "string \<Rightarrow> string \<Rightarrow> bool" where
  "assigns name kv \<longleftrightarrow> HasPrefix kv (name @ ''='')"

definition first_assignment :: "string list \<Rightarrow> string \<Rightarrow> string list" where
  "first_assignment environ name = (case find (assigns name) environ of None \<Rightarrow> [] | Some kv \<Rightarrow> [kv])"

definition allowlistedEnv :: "string list \<Rightarrow> string list" where
  "allowlistedEnv environ = concat (map (first_assignment environ) evaluatorEnvAllowlist)"

definition overrideEnv :: "string list \<Rightarrow> string \<Rightarrow> string list" where
  "overrideEnv env kv =
     (if CHR ''='' \<notin> set kv then env else filter (\<lambda>e. \<not> assigns (env_name kv) e) env @ [kv])"

definition NewEvaluator :: "string list \<Rightarrow> string \<Rightarrow> Evaluator" where
  "NewEvaluator environ workingDir =
     \<lparr>el_workingDir = workingDir, el_env = allowlistedEnv environ, el_timeout = nanos 60\<rparr>"

definition WithEnv :: "Evaluator \<Rightarrow> string list \<Rightarrow> Evaluator" where
  "WithEnv e env = e\<lparr>el_env := foldl overrideEnv (el_env e) env\<rparr>"

fun extra_allowed :: "string list \<Rightarrow> string list \<Rightarrow> string list \<Rightarrow> string list \<Rightarrow> string list" where
  "extra_allowed environ allowed seen [] = []"
| "extra_allowed environ allowed seen (n # names) =
     (let name = TrimSpace n in
      if name = [] \<or> name \<in> set seen then extra_allowed environ allowed seen names
      else (if name \<in> set allowed then [] else first_assignment environ name) @
           extra_allowed environ allowed (name # seen) names)"

definition WithEnvAllow :: "string list \<Rightarrow> Evaluator \<Rightarrow> string list \<Rightarrow> Evaluator" where
  "WithEnvAllow environ e names =
     (let allowed = map env_name (filter (\<lambda>kv. CHR ''='' \<in> set kv) (el_env e)) in
      e\<lparr>el_env := foldl overrideEnv (el_env e) (extra_allowed environ allowed [] names)\<rparr>)"

definition WithTimeout :: "Evaluator \<Rightarrow> int \<Rightarrow> Evaluator" where
  "WithTimeout e timeout = e\<lparr>el_timeout := timeout\<rparr>"

section \<open>Results\<close>

datatype eval_result = EvalPass | EvalFail | EvalError

datatype eval_note =
  NoNote | NoteUnknownType string | NoteTimedOut int | NoteErr string | NoteNoFile string | NoteModified int
  | NoteHashMismatch string string | NoteHashMatches string | NoteCommandError string | NoteExitCode int int
  | NoteExitOk int | NoteNotContained string | NoteContained string | NoteDirty string | NoteClean | NotePortBusy int
  | NotePortFree int | NoteRegressionError string | NoteRegression int | NoteNoRegression

record Evidence =
  vd_Command :: string
  vd_ExitCode :: int
  vd_Stdout :: string
  vd_Stderr :: string
  vd_ActualHash :: string
  vd_ExpectedHash :: string
  vd_FileExists :: bool
  vd_GitStatus :: string
  vd_PortAvailable :: bool
  vd_CheckedAt :: int

record EvalResult =
  er_AssertionIndex :: int
  er_AssertionID :: string
  er_AssertionType :: string
  er_Result :: eval_result
  er_Evidence :: Evidence
  er_Message :: eval_note

datatype eval_fault = DeadlineExceeded | EvalFault string

section \<open>Paths\<close>

definition withinRoot :: "string \<Rightarrow> string \<Rightarrow> bool" where
  "withinRoot root p =
     (case fp_rel root p of
        None \<Rightarrow> False
      | Some rel \<Rightarrow> \<not> (rel = ''..'' \<or> HasPrefix rel ''../''))"

function resolve_prefix :: "system \<Rightarrow> string \<Rightarrow> string \<Rightarrow> string + string" where
  "resolve_prefix os remainder cur =
     (case os_symlinks os cur of
        LinkTo resolved \<Rightarrow> Inr (if remainder = [] then resolved else fp_join [resolved, remainder])
      | LinkError e \<Rightarrow> Inl e
      | LinkMissing \<Rightarrow>
          if fp_dir cur = cur then Inl ''no existing ancestor''
          else resolve_prefix os (fp_join [fp_base cur, remainder]) (fp_dir cur))"
  by pat_completeness auto

termination
  by (relation "measure (\<lambda>(os, remainder, cur). path_size cur)") (simp_all add: fp_dir_smaller)

declare resolve_prefix.simps [simp del]

definition resolveExistingPrefix :: "system \<Rightarrow> string \<Rightarrow> string + string" where
  "resolveExistingPrefix os path = resolve_prefix os [] path"

definition workspace_root :: "system \<Rightarrow> string \<Rightarrow> string + string" where
  "workspace_root os dir =
     (case os_symlinks os dir of
        LinkTo root \<Rightarrow> Inr root
      | LinkMissing \<Rightarrow> Inr (path_clean dir)
      | LinkError e \<Rightarrow> Inl e)"

definition absPath :: "system \<Rightarrow> Evaluator \<Rightarrow> string \<Rightarrow> string + string" where
  "absPath os e p =
     (if p = [] then Inl ''path is required''
      else if rooted p then Inl ''absolute path is not allowed''
      else case workspace_root os (el_workingDir e) of
             Inl x \<Rightarrow> Inl x
           | Inr root \<Rightarrow>
               let joined = fp_join [root, path_clean p] in
               if \<not> withinRoot root joined then Inl ''path escapes the workspace root''
               else (case resolveExistingPrefix os joined of
                       Inl x \<Rightarrow> Inl x
                     | Inr resolved \<Rightarrow>
                         if \<not> withinRoot root resolved then Inl ''path resolves outside the workspace root''
                         else Inr joined))"

section \<open>Commands\<close>

definition truncateOutput :: "string \<Rightarrow> string" where
  "truncateOutput s = (if length s \<le> 4096 then s else take 4096 s @ [CHR 0x0A] @ ''... (truncated)'')"

datatype cmd_fault = EmptyCommand | CmdKilled | CmdDeadline | CmdFailed string

definition runCommand :: "system \<Rightarrow> Evaluator \<Rightarrow> string \<Rightarrow> int \<times> string \<times> string \<times> cmd_fault option" where
  "runCommand os e cmdStr =
     (case SplitCommand cmdStr of
        [] \<Rightarrow> (-1, [], [], Some EmptyCommand)
      | parts \<Rightarrow>
          (case os_run os (el_workingDir e) (el_env e) parts of
             RunExit n out err \<Rightarrow> (int n, out, err, None)
           | RunKilled out err \<Rightarrow> (-1, out, err, Some CmdKilled)
           | RunDeadline \<Rightarrow> (-1, [], [], Some CmdDeadline)
           | RunFailed m \<Rightarrow> (-1, [], [], Some (CmdFailed m))))"

definition toInt :: "pvalue option \<Rightarrow> int option" where
  "toInt v = (case v of None \<Rightarrow> None | Some (PInt n) \<Rightarrow> Some n | Some (PStr s) \<Rightarrow> Atoi (TrimSpace s))"

section \<open>Evaluators\<close>

abbreviation evidence :: "(Evidence \<Rightarrow> Evidence) \<Rightarrow> EvalResult \<Rightarrow> EvalResult" where
  "evidence f r \<equiv> r\<lparr>er_Evidence := f (er_Evidence r)\<rparr>"

definition outcome :: "eval_result \<Rightarrow> eval_note \<Rightarrow> EvalResult \<Rightarrow> EvalResult" where
  "outcome x note r = r\<lparr>er_Result := x, er_Message := note\<rparr>"

definition command_evidence :: "string \<Rightarrow> int \<Rightarrow> string \<Rightarrow> string \<Rightarrow> EvalResult \<Rightarrow> EvalResult" where
  "command_evidence cmd code out err r =
     evidence (\<lambda>v. v\<lparr>vd_Command := cmd, vd_ExitCode := code, vd_Stdout := truncateOutput out,
                     vd_Stderr := truncateOutput err\<rparr>) r"

definition evalFileModified :: "system \<Rightarrow> Evaluator \<Rightarrow> SettAssertion \<Rightarrow> EvalResult \<Rightarrow> eval_fault option \<times> EvalResult" where
  "evalFileModified os e a r =
     (case absPath os e (pvalue_text (map_get (sa_Params a) ''path'')) of
        Inl x \<Rightarrow> (Some (EvalFault x), r)
      | Inr path \<Rightarrow>
          (case os_stat os path of
             StatMissing \<Rightarrow> (None, outcome EvalFail (NoteNoFile path) (evidence (\<lambda>v. v\<lparr>vd_FileExists := False\<rparr>) r))
           | StatError x \<Rightarrow> (Some (EvalFault x), r)
           | StatOk t \<Rightarrow> (None, outcome EvalPass (NoteModified t) (evidence (\<lambda>v. v\<lparr>vd_FileExists := True\<rparr>) r))))"

definition evalFileHashEquals ::
  "(string \<Rightarrow> string) \<Rightarrow> system \<Rightarrow> Evaluator \<Rightarrow> SettAssertion \<Rightarrow> EvalResult \<Rightarrow> eval_fault option \<times> EvalResult" where
  "evalFileHashEquals sha os e a r =
     (case absPath os e (pvalue_text (map_get (sa_Params a) ''path'')) of
        Inl x \<Rightarrow> (Some (EvalFault x), r)
      | Inr path \<Rightarrow>
          let expectedHash = pvalue_text (map_get (sa_Params a) ''expected_hash'') in
          (case os_read os path of
             ReadMissing \<Rightarrow> (None, outcome EvalFail (NoteNoFile path) (evidence (\<lambda>v. v\<lparr>vd_FileExists := False\<rparr>) r))
           | ReadError x \<Rightarrow> (Some (EvalFault x), r)
           | ReadOk bytes \<Rightarrow>
               let actualHash = sha bytes;
                   r' = evidence (\<lambda>v. v\<lparr>vd_ActualHash := actualHash, vd_ExpectedHash := expectedHash, vd_FileExists := True\<rparr>) r in
               if \<not> EqualFold actualHash expectedHash
               then (None, outcome EvalFail (NoteHashMismatch expectedHash actualHash) r')
               else (None, outcome EvalPass (NoteHashMatches actualHash) r')))"

definition fault_text :: "cmd_fault \<Rightarrow> string" where
  "fault_text f =
     (case f of EmptyCommand \<Rightarrow> ''empty command'' | CmdKilled \<Rightarrow> ''signal: killed''
      | CmdDeadline \<Rightarrow> ''context deadline exceeded'' | CmdFailed m \<Rightarrow> m)"

definition evalCommandExitCode ::
  "system \<Rightarrow> Evaluator \<Rightarrow> SettAssertion \<Rightarrow> EvalResult \<Rightarrow> eval_fault option \<times> EvalResult" where
  "evalCommandExitCode os e a r =
     (let cmdStr = pvalue_text (map_get (sa_Params a) ''command'') in
      case toInt (map_get (sa_Params a) ''expected_code'') of
        None \<Rightarrow> (Some (EvalFault ''expected_code''), r)
      | Some expectedCode \<Rightarrow>
          (case runCommand os e cmdStr of
             (exitCode, out, err, fault) \<Rightarrow>
               let r' = command_evidence cmdStr exitCode out err r in
               (case fault of
                  Some CmdKilled \<Rightarrow> (Some (EvalFault ''context deadline exceeded''), r')
                | Some CmdDeadline \<Rightarrow> (Some DeadlineExceeded, r')
                | Some f \<Rightarrow> (None, outcome EvalFail (NoteCommandError (fault_text f)) r')
                | None \<Rightarrow>
                    if exitCode \<noteq> expectedCode then (None, outcome EvalFail (NoteExitCode exitCode expectedCode) r')
                    else (None, outcome EvalPass (NoteExitOk exitCode) r'))))"

definition evalCommandOutputContains ::
  "system \<Rightarrow> Evaluator \<Rightarrow> SettAssertion \<Rightarrow> EvalResult \<Rightarrow> eval_fault option \<times> EvalResult" where
  "evalCommandOutputContains os e a r =
     (let cmdStr = pvalue_text (map_get (sa_Params a) ''command''); contains = pvalue_text (map_get (sa_Params a) ''contains'') in
      case runCommand os e cmdStr of
        (exitCode, out, err, fault) \<Rightarrow>
          let r' = command_evidence cmdStr exitCode out err r in
          (case fault of
             Some f \<Rightarrow>
               if f \<noteq> CmdDeadline then (None, outcome EvalError (NoteCommandError (fault_text f)) r')
               else if \<not> Contains out contains then (None, outcome EvalFail (NoteNotContained contains) r')
               else (None, outcome EvalPass (NoteContained contains) r')
           | None \<Rightarrow>
               if \<not> Contains out contains then (None, outcome EvalFail (NoteNotContained contains) r')
               else (None, outcome EvalPass (NoteContained contains) r')))"

definition evalGitCleanWorktree ::
  "system \<Rightarrow> Evaluator \<Rightarrow> SettAssertion \<Rightarrow> EvalResult \<Rightarrow> eval_fault option \<times> EvalResult" where
  "evalGitCleanWorktree os e a r =
     (case (if absent (sa_Params a) ''cwd'' then Inr (el_workingDir e)
            else absPath os e (pvalue_text (map_get (sa_Params a) ''cwd''))) of
        Inl x \<Rightarrow> (Some (EvalFault x), r)
      | Inr cwd \<Rightarrow>
          (case Plan (os_gitconfig os cwd) cwd [''status'', ''--porcelain''] of
             Inl _ \<Rightarrow> (Some (EvalFault ''git status''), r)
           | Inr (argv, gitEnv) \<Rightarrow>
               (case os_run os [] (el_env e @ gitEnv) (''git'' # argv) of
                  RunExit n out _ \<Rightarrow>
                    if n \<noteq> 0 then (Some (EvalFault ''git status''), r)
                    else let r' = evidence (\<lambda>v. v\<lparr>vd_GitStatus := out\<rparr>) r in
                      if TrimSpace out \<noteq> [] then (None, outcome EvalFail (NoteDirty (TrimSpace out)) r')
                      else (None, outcome EvalPass NoteClean r')
                | RunDeadline \<Rightarrow> (Some DeadlineExceeded, r)
                | _ \<Rightarrow> (Some (EvalFault ''git status''), r))))"

definition evalPortAvailable :: "system \<Rightarrow> SettAssertion \<Rightarrow> EvalResult \<Rightarrow> eval_fault option \<times> EvalResult" where
  "evalPortAvailable os a r =
     (case toInt (map_get (sa_Params a) ''port'') of
        None \<Rightarrow> (Some (EvalFault ''port''), r)
      | Some port \<Rightarrow>
          if \<not> os_listen os port
          then (None, outcome EvalFail (NotePortBusy port) (evidence (\<lambda>v. v\<lparr>vd_PortAvailable := False\<rparr>) r))
          else (None, outcome EvalPass (NotePortFree port) (evidence (\<lambda>v. v\<lparr>vd_PortAvailable := True\<rparr>) r)))"

definition evalNoRegression :: "system \<Rightarrow> Evaluator \<Rightarrow> SettAssertion \<Rightarrow> EvalResult \<Rightarrow> eval_fault option \<times> EvalResult" where
  "evalNoRegression os e a r =
     (let cmdStr = pvalue_text (map_get (sa_Params a) ''command'') in
      case runCommand os e cmdStr of
        (exitCode, out, err, fault) \<Rightarrow>
          let r' = command_evidence cmdStr exitCode out err r in
          (case fault of
             Some CmdKilled \<Rightarrow> (Some (EvalFault ''context deadline exceeded''), r')
           | Some CmdDeadline \<Rightarrow> (Some DeadlineExceeded, r')
           | Some f \<Rightarrow> (None, outcome EvalError (NoteRegressionError (fault_text f)) r')
           | None \<Rightarrow>
               if exitCode \<noteq> 0 then (None, outcome EvalFail (NoteRegression exitCode) r')
               else (None, outcome EvalPass NoteNoRegression r')))"

definition new_result :: "system \<Rightarrow> SettAssertion \<Rightarrow> nat \<Rightarrow> EvalResult" where
  "new_result os a i =
     \<lparr>er_AssertionIndex = int i, er_AssertionID = sa_ID a, er_AssertionType = sa_Type a, er_Result = EvalError,
      er_Evidence = \<lparr>vd_Command = [], vd_ExitCode = 0, vd_Stdout = [], vd_Stderr = [], vd_ActualHash = [],
        vd_ExpectedHash = [], vd_FileExists = False, vd_GitStatus = [], vd_PortAvailable = False, vd_CheckedAt = os_now os\<rparr>,
      er_Message = NoNote\<rparr>"

definition Evaluate :: "(string \<Rightarrow> string) \<Rightarrow> system \<Rightarrow> Evaluator \<Rightarrow> SettAssertion \<Rightarrow> nat \<Rightarrow> EvalResult" where
  "Evaluate sha os e a i =
     (let r = new_result os a i; timeout = (if 0 < sa_Timeout a then sa_Timeout a else el_timeout e); ty = sa_Type a in
      if ty \<notin> set AllAssertionTypes then outcome EvalError (NoteUnknownType ty) r
      else case (if ty = ''file_modified'' then evalFileModified os e a r
                 else if ty = ''file_hash_equals'' then evalFileHashEquals sha os e a r
                 else if ty = ''command_exit_code'' then evalCommandExitCode os e a r
                 else if ty = ''command_output_contains'' then evalCommandOutputContains os e a r
                 else if ty = ''git_clean_worktree'' then evalGitCleanWorktree os e a r
                 else if ty = ''port_available'' then evalPortAvailable os a r
                 else evalNoRegression os e a r) of
             (None, r') \<Rightarrow> r'
           | (Some DeadlineExceeded, r') \<Rightarrow> outcome EvalError (NoteTimedOut timeout) r'
           | (Some (EvalFault m), r') \<Rightarrow> outcome EvalError (NoteErr m) r')"

fun evaluate_from ::
  "(string \<Rightarrow> string) \<Rightarrow> (nat \<Rightarrow> system) \<Rightarrow> Evaluator \<Rightarrow> nat \<Rightarrow> SettAssertion list \<Rightarrow> EvalResult list" where
  "evaluate_from sha os e i [] = []"
| "evaluate_from sha os e i (a # as) = Evaluate sha (os i) e a i # evaluate_from sha os e (Suc i) as"

definition EvaluateAll ::
  "(string \<Rightarrow> string) \<Rightarrow> (nat \<Rightarrow> system) \<Rightarrow> Evaluator \<Rightarrow> SettAssertion list \<Rightarrow> EvalResult list" where
  "EvaluateAll sha os e as = evaluate_from sha os e 0 as"

definition Summary :: "EvalResult list \<Rightarrow> bool \<times> nat \<times> nat" where
  "Summary rs =
     (list_all (\<lambda>r. er_Result r = EvalPass) rs, length (filter (\<lambda>r. er_Result r = EvalFail) rs),
      length (filter (\<lambda>r. er_Result r = EvalError) rs))"

end
