(* ===== verification/Evaluator_Safety.thy ===== *)
theory Evaluator_Safety
  imports Evaluator
begin

text \<open>
  File assertions are confined to the workspace: a path that \<open>absPath\<close> returns lies below the workspace root, by its
  components and by its real location, so no file outside the root influences a result.
\<close>

definition below :: "string \<Rightarrow> string \<Rightarrow> bool" where
  "below root p \<longleftrightarrow> rooted p = rooted root \<and> (\<exists>zs. comps p = comps root @ zs \<and> (zs = [] \<or> hd zs \<noteq> ''..''))"

lemma dotdot_Join:
  assumes "zs \<noteq> []" and "\<forall>z \<in> set zs. slash \<notin> set z"
  shows "(Join zs ''/'' = ''..'' \<or> HasPrefix (Join zs ''/'') ''../'') \<longleftrightarrow> hd zs = ''..''"
proof -
  have sp: "split_on slash (Join zs ''/'') = zs" using split_on_Join [OF assms] by simp
  have "hd zs = ''..''" if "Join zs ''/'' = ''..''" using sp that by auto
  moreover have "hd zs = ''..''" if hp: "HasPrefix (Join zs ''/'') ''../''"
  proof -
    obtain t where "Join zs ''/'' = ''..'' @ slash # t" using hp by (auto simp: HasPrefix_iff_prefix prefix_def)
    then have "zs = split_on slash ''..'' @ split_on slash t" using sp split_on_append_delim by metis
    then show ?thesis by simp
  qed
  moreover have "Join zs ''/'' = ''..'' \<or> HasPrefix (Join zs ''/'') ''../''" if hh: "hd zs = ''..''"
  proof (cases "tl zs")
    case Nil
    then have "zs = [''..'']" using assms(1) hh by (cases zs) auto
    then show ?thesis by simp
  next
    case (Cons y ys)
    then have "zs = ''..'' # y # ys" using hh assms(1) by (cases zs) auto
    then show ?thesis by (simp add: HasPrefix_def)
  qed
  ultimately show ?thesis by blast
qed

lemma withinRoot_iff: "withinRoot root p \<longleftrightarrow> below root p"
proof (cases "path_clean root = path_clean p")
  case True
  then have "rooted p = rooted root" "comps p = comps root" using path_clean_eq_iff by metis+
  then show ?thesis using True by (auto simp: withinRoot_def fp_rel_def below_def HasPrefix_def)
next
  case False
  then have ne: "rooted root \<noteq> rooted p \<or> comps root \<noteq> comps p" using path_clean_eq_iff by blast
  show ?thesis
  proof (cases "rooted root = rooted p")
    case True
    show ?thesis
    proof (cases "rel_comps (comps root) (comps p)")
      case None
      then have "\<nexists>zs. comps p = comps root @ zs" using rel_comps_extends [of "comps root"] by fastforce
      then show ?thesis using None False True by (simp add: withinRoot_def fp_rel_def below_def)
    next
      case (Some rs)
      have w: "withinRoot root p \<longleftrightarrow> \<not> (Join rs ''/'' = ''..'' \<or> HasPrefix (Join rs ''/'') ''../'')"
        using Some False True by (simp add: withinRoot_def fp_rel_def)
      from rel_comps_replicate [OF Some] show ?thesis
      proof (elim disjE exE conjE)
        fix zs assume zs: "comps p = comps root @ zs" "rs = zs"
        have "zs \<noteq> []" using zs ne True by auto
        moreover have "\<forall>z \<in> set zs. slash \<notin> set z" using comps_slash [of _ p] zs(1) by auto
        ultimately have "(Join rs ''/'' = ''..'' \<or> HasPrefix (Join rs ''/'') ''../'') \<longleftrightarrow> hd zs = ''..''"
          using dotdot_Join [of zs] zs(2) by simp
        then show ?thesis using w zs(1) True \<open>zs \<noteq> []\<close> by (auto simp: below_def)
      next
        fix zs assume zs: "rs = ''..'' # zs"
        have "Join rs ''/'' = ''..'' \<or> HasPrefix (Join rs ''/'') ''../''"
          using zs by (cases zs) (simp_all add: HasPrefix_def)
        moreover have "\<not> below root p"
        proof
          assume "below root p"
          then obtain ys where "comps p = comps root @ ys" "ys = [] \<or> hd ys \<noteq> ''..''" by (auto simp: below_def)
          then show False using Some zs rel_comps_extends [of "comps root" ys] by auto
        qed
        ultimately show ?thesis using w by blast
      qed
    qed
  next
    case rt: False
    then show ?thesis using False by (auto simp: withinRoot_def fp_rel_def below_def)
  qed
qed

lemma resolve_prefix_link: "os_symlinks os cur = LinkTo r \<Longrightarrow> resolve_prefix os [] cur = Inr r"
  by (simp add: resolve_prefix.simps [of os "[]" cur])

lemma absPath_below:
  assumes "absPath os e p = Inr q" and "workspace_root os (el_workingDir e) = Inr root"
  shows "below root q \<and> (\<forall>r. os_symlinks os q = LinkTo r \<longrightarrow> below root r)"
proof -
  obtain s where "withinRoot root q" "resolve_prefix os [] q = Inr s" "withinRoot root s"
    using assms by (auto simp: absPath_def Let_def resolveExistingPrefix_def split: if_splits sum.splits)
  then show ?thesis using resolve_prefix_link [of os q] by (auto simp: withinRoot_iff)
qed

lemma resolve_prefix_cong:
  "os_symlinks o1 = os_symlinks o2 \<Longrightarrow> resolve_prefix o1 rm cur = resolve_prefix o2 rm cur"
proof (induction o1 rm cur rule: resolve_prefix.induct)
  case (1 os rm cur)
  then show ?case
    by (simp add: resolve_prefix.simps [of os rm cur] resolve_prefix.simps [of o2 rm cur] split: link_result.splits)
qed

lemma absPath_cong:
  assumes "os_symlinks o1 = os_symlinks o2" shows "absPath o1 e p = absPath o2 e p"
proof -
  have "resolve_prefix o1 = resolve_prefix o2" by (intro ext resolve_prefix_cong assms)
  then show ?thesis unfolding absPath_def workspace_root_def resolveExistingPrefix_def by (simp only: assms)
qed

lemma absPath_root: "absPath os e p = Inr q \<Longrightarrow> \<exists>root. workspace_root os (el_workingDir e) = Inr root"
  by (auto simp: absPath_def split: if_splits sum.splits)


section \<open>Environment\<close>

lemma first_assignment_assigns: "kv \<in> set (first_assignment environ name) \<Longrightarrow> assigns name kv \<and> kv \<in> set environ"
  by (auto simp: first_assignment_def find_Some_iff split: option.splits dest!: sym [of "Some kv"])

lemma overrideEnv_set: "kv \<in> set (overrideEnv env e) \<Longrightarrow> kv \<in> set env \<or> kv = e"
  by (auto simp: overrideEnv_def split: if_splits)

lemma override_all_set: "kv \<in> set (foldl overrideEnv env es) \<Longrightarrow> kv \<in> set env \<or> kv \<in> set es"
  by (induction es arbitrary: env) (fastforce dest: overrideEnv_set)+

lemma extra_allowed_set:
  "kv \<in> set (extra_allowed environ allowed seen names) \<Longrightarrow> (\<exists>n \<in> set names. assigns (TrimSpace n) kv) \<and> kv \<in> set environ"
  by (induction environ allowed seen names rule: extra_allowed.induct)
    (auto simp: Let_def dest: first_assignment_assigns split: if_splits)

text \<open>A settlement command sees only host variables that the allowlist or the operator names: every assignment in an
  evaluator's environment is one of the host's and assigns a name of the fixed list or of the operator's extra names.\<close>

theorem evaluator_env_allowlisted:
  "list_all (\<lambda>kv. kv \<in> set environ \<and> list_ex (\<lambda>n. assigns n kv) (evaluatorEnvAllowlist @ map TrimSpace names))
     (el_env (WithEnvAllow environ (NewEvaluator environ dir) names))"
proof -
  have base: "kv \<in> set environ \<and> (\<exists>n \<in> set evaluatorEnvAllowlist. assigns n kv)" if "kv \<in> set (allowlistedEnv environ)" for kv
    using that first_assignment_assigns by (auto simp: allowlistedEnv_def)
  show ?thesis
    using base by (auto simp: list_all_iff list_ex_iff WithEnvAllow_def NewEvaluator_def Let_def
        dest!: override_all_set extra_allowed_set)
qed

section \<open>Witness\<close>

text \<open>A workspace whose file \<open>leak\<close> is a link to a file outside of it.\<close>

definition sample_system :: system where
  "sample_system = \<lparr>os_symlinks = (\<lambda>p. if p = ''/w/leak'' then LinkTo ''/etc/shadow'' else LinkTo p),
     os_stat = (\<lambda>_. StatOk 0), os_read = (\<lambda>_. ReadOk ''x''), os_run = (\<lambda>_ _ _. RunExit 0 [] []),
     os_gitconfig = (\<lambda>_. GitExit 1), os_listen = (\<lambda>_. True), os_now = 0\<rparr>"

definition sample_evaluator :: Evaluator where
  "sample_evaluator = NewEvaluator [''PATH=/bin'', ''TOKEN=s''] ''/w''"

definition leak_assertion :: SettAssertion where
  "leak_assertion = \<lparr>sa_ID = ''a1'', sa_Type = ''file_modified'', sa_Params = [(''path'', PStr ''leak'')], sa_Timeout = 0\<rparr>"

lemma leak_outside: "\<not> below ''/w'' ''/etc/shadow''"
  unfolding withinRoot_iff [symmetric] by code_simp


end
