(* ===== verification/Contract.thy ===== *)
theory Contract
  imports Go_Host Go_Path
begin

text \<open>
  Contracts between an emitter and an executor agent: \<open>pkg/envelope\<close> (\<open>types.go\<close>, \<open>contract_state.go\<close>,
  \<open>validate.go\<close>, \<open>signer.go\<close>). A slice or map without \<open>omitempty\<close> that may be nil is an option. The mutex of
  the state machine makes each of its calls one step.
\<close>

section \<open>The contract state machine\<close>

datatype ContractStatus =
  Proposed | Accepted | Executing | Settling | Remediating | Settled | AcceptedFinal | Rejected | Expired
  | SettlementFailed | Disputed | Abandoned | SettlementTimeout | Resolved

fun IsTerminal :: "ContractStatus \<Rightarrow> bool" where
  "IsTerminal s =
     (s \<in> {Settled, AcceptedFinal, Rejected, Expired, SettlementFailed, Abandoned, SettlementTimeout, Resolved})"

fun allowedTransitions :: "ContractStatus \<Rightarrow> ContractStatus list option" where
  "allowedTransitions Proposed = Some [Accepted, Rejected]"
| "allowedTransitions Accepted = Some [Executing, Expired, Abandoned]"
| "allowedTransitions Executing = Some [Settling, Abandoned, SettlementTimeout]"
| "allowedTransitions Settling = Some [Settled, Remediating, SettlementFailed, SettlementTimeout]"
| "allowedTransitions Remediating = Some [Settling, SettlementFailed]"
| "allowedTransitions Settled = Some [AcceptedFinal, Disputed]"
| "allowedTransitions Disputed = Some [Resolved, Abandoned]"
| "allowedTransitions _ = None"

record TransitionRecord =
  tr_From :: ContractStatus
  tr_To :: ContractStatus
  tr_Reason :: string

record ContractStateMachine =
  sm_current :: ContractStatus
  sm_history :: "TransitionRecord list"

datatype contract_error =
  FromAbsorbing ContractStatus ContractStatus
  | NotAllowed ContractStatus ContractStatus
  | Unexpected ContractStatus ContractStatus

definition NewContractStateMachine :: "ContractStatus \<Rightarrow> ContractStateMachine" where
  "NewContractStateMachine initial = \<lparr>sm_current = initial, sm_history = []\<rparr>"

definition NextContractStatuses :: "ContractStatus \<Rightarrow> ContractStatus list" where
  "NextContractStatuses s = (case allowedTransitions s of None \<Rightarrow> [] | Some nexts \<Rightarrow> nexts)"

definition ValidateContractTransition :: "ContractStatus \<Rightarrow> ContractStatus \<Rightarrow> contract_error option" where
  "ValidateContractTransition from to =
     (case allowedTransitions from of
        None \<Rightarrow> Some (FromAbsorbing from to)
      | Some nexts \<Rightarrow> if to \<in> set nexts then None else Some (NotAllowed from to))"

definition TransitionWithReason ::
  "ContractStateMachine \<Rightarrow> ContractStatus \<Rightarrow> string \<Rightarrow> contract_error option \<times> ContractStateMachine" where
  "TransitionWithReason sm target reason =
     (case ValidateContractTransition (sm_current sm) target of
        Some e \<Rightarrow> (Some e, sm)
      | None \<Rightarrow>
          (None, sm\<lparr>sm_history := sm_history sm @ [\<lparr>tr_From = sm_current sm, tr_To = target, tr_Reason = reason\<rparr>],
                    sm_current := target\<rparr>))"

definition ContractTransitionTo ::
  "ContractStateMachine \<Rightarrow> ContractStatus \<Rightarrow> contract_error option \<times> ContractStateMachine" where
  "ContractTransitionTo sm target = TransitionWithReason sm target []"

definition TransitionFrom ::
  "ContractStateMachine \<Rightarrow> ContractStatus \<Rightarrow> ContractStatus \<Rightarrow> string \<Rightarrow>
   contract_error option \<times> ContractStateMachine" where
  "TransitionFrom sm expectedFrom target reason =
     (if sm_current sm \<noteq> expectedFrom then (Some (Unexpected (sm_current sm) expectedFrom), sm)
      else case ValidateContractTransition (sm_current sm) target of
             Some e \<Rightarrow> (Some e, sm)
           | None \<Rightarrow>
               (None, sm\<lparr>sm_history := sm_history sm @ [\<lparr>tr_From = sm_current sm, tr_To = target, tr_Reason = reason\<rparr>],
                         sm_current := target\<rparr>))"

datatype contract_call =
  CallTransition ContractStatus string | CallTransitionFrom ContractStatus ContractStatus string

fun contract_step :: "ContractStateMachine \<Rightarrow> contract_call \<Rightarrow> ContractStateMachine" where
  "contract_step sm (CallTransition target reason) = snd (TransitionWithReason sm target reason)"
| "contract_step sm (CallTransitionFrom from target reason) = snd (TransitionFrom sm from target reason)"

section \<open>Envelopes and leases\<close>

record EnvTerritory =
  et_Repository :: string
  et_Branch :: string
  et_WorkspacePath :: string

record Precondition =
  pc_Type :: string
  pc_Params :: "string gomap option"

record AssertionParams =
  ap_Description :: string
  ap_FilePath :: string
  ap_ExpectedSHA256 :: string
  ap_Command :: string
  ap_ExpectedExitCode :: int
  ap_ContainsPattern :: string
  ap_ContainsRegex :: bool
  ap_WorkingDir :: string
  ap_Env :: "string list"
  ap_TimeoutSeconds :: int
  ap_Port :: int

record Assertion =
  as_ID :: string
  as_Type :: string
  as_Params :: AssertionParams

record CognitiveTaskEnvelope =
  ev_ProtocolVersion :: string
  ev_MeshID :: string
  ev_EnvelopeID :: string
  ev_EmitterAgentID :: string
  ev_ExecutorAgentID :: string
  ev_Territory :: EnvTerritory
  ev_Preconditions :: "Precondition list option"
  ev_Assertions :: "Assertion list option"
  ev_TimeoutSeconds :: int
  ev_MaxRemediations :: int
  ev_NoSubdelegation :: bool
  ev_CreatedAt :: int
  ev_Capabilities :: "string list"
  ev_EmitterSignature :: string
  ev_EnvelopeHash :: string

record PreconditionResult =
  pr_Index :: int
  pr_Type :: string
  pr_Passed :: bool
  pr_Message :: string

record Lease =
  le_ProtocolVersion :: string
  le_MeshID :: string
  le_LeaseID :: string
  le_EnvelopeID :: string
  le_ExecutorAgentID :: string
  le_Accepted :: bool
  le_PreconditionResults :: "PreconditionResult list"
  le_RejectionReason :: string
  le_ExpiresAt :: int
  le_ExecutorSignature :: string

definition CurrentProtocolVersion :: string where
  "CurrentProtocolVersion = ''2''"

section \<open>Validation\<close>

datatype territory_error =
  RepositoryEmpty | RepositoryEmptyNormalized | RepositoryMalformed | BranchEmpty | BranchInvalid
  | WorkspaceEmpty | WorkspaceNotAbsolute

datatype assertion_error =
  ErrInvalidAssertionID | FilePathRequired | ExpectedSHARequired | ExpectedSHAInvalid | CommandRequired
  | PatternRequired | PatternInvalid | PortInvalid | ErrInvalidAssertionType

datatype validation_error =
  ErrUnknownProtocolVersion | ErrInvalidMeshID | ErrInvalidEnvelopeID | ErrInvalidEmitter | ErrInvalidExecutor
  | ErrSameAgent | ErrInvalidTerritory territory_error | ErrNoAssertions | AssertionInvalid nat assertion_error
  | AssertionDuplicate string | CapabilityEmpty nat | CapabilityDuplicate string | ErrNegativeTimeout
  | ErrNegativeRemediations | LeaseIDEmpty | ToolRequired | PreconditionCommandRequired | PreconditionUnknown

definition trim_repo :: "string \<Rightarrow> string" where
  "trim_repo r = TrimSuffix (TrimSuffix r ''/'') ''.git''"

definition isValidRepoURL :: "go_host \<Rightarrow> string \<Rightarrow> bool" where
  "isValidRepoURL h repo =
     (if Index repo ''://'' \<noteq> None then gh_url h repo
      else case split_on (CHR ''/'') repo of
             a # b # _ \<Rightarrow> a \<noteq> [] \<and> (b \<noteq> [])
           | _ \<Rightarrow> False)"

definition ValidateTerritory :: "go_host \<Rightarrow> EnvTerritory \<Rightarrow> territory_error option" where
  "ValidateTerritory h t =
     (if et_Repository t = [] then Some RepositoryEmpty
      else if trim_repo (et_Repository t) = [] then Some RepositoryEmptyNormalized
      else if \<not> isValidRepoURL h (trim_repo (et_Repository t)) then Some RepositoryMalformed
      else if et_Branch t = [] then Some BranchEmpty
      else if ContainsAny (et_Branch t) [CHR '' '', CHR 0x09, CHR 0x0A] then Some BranchInvalid
      else if et_WorkspacePath t = [] then Some WorkspaceEmpty
      else if \<not> HasPrefix (et_WorkspacePath t) ''/'' then Some WorkspaceNotAbsolute
      else None)"

definition isSHA256 :: "string \<Rightarrow> bool" where
  "isSHA256 s \<longleftrightarrow> length s = 64 \<and> list_all (\<lambda>c. hex_val c \<noteq> None) s"

definition ValidateAssertion :: "go_host \<Rightarrow> Assertion \<Rightarrow> assertion_error option" where
  "ValidateAssertion h a =
     (let p = as_Params a in
      if as_ID a = [] then Some ErrInvalidAssertionID
      else if as_Type a = ''file_modified'' then
        (if ap_FilePath p = [] then Some FilePathRequired
         else if ap_ExpectedSHA256 p = [] then Some ExpectedSHARequired
         else if \<not> isSHA256 (ap_ExpectedSHA256 p) then Some ExpectedSHAInvalid
         else None)
      else if as_Type a = ''file_hash_equals'' then
        (if ap_FilePath p = [] then Some FilePathRequired
         else if \<not> isSHA256 (ap_ExpectedSHA256 p) then Some ExpectedSHAInvalid
         else None)
      else if as_Type a = ''command_exit_code'' then
        (if ap_Command p = [] then Some CommandRequired else None)
      else if as_Type a = ''command_output_contains'' then
        (if ap_Command p = [] then Some CommandRequired
         else if ap_ContainsPattern p = [] then Some PatternRequired
         else if ap_ContainsRegex p \<and> \<not> gh_regexp h (ap_ContainsPattern p) then Some PatternInvalid
         else None)
      else if as_Type a = ''no_regression'' then
        (if ap_Command p = [] then Some CommandRequired else None)
      else if as_Type a = ''git_clean_worktree'' then None
      else if as_Type a = ''port_available'' then
        (if ap_Port p \<le> 0 \<or> 65535 < ap_Port p then Some PortInvalid else None)
      else Some ErrInvalidAssertionType)"

definition precondition_param :: "Precondition \<Rightarrow> string \<Rightarrow> string" where
  "precondition_param p k =
     (case pc_Params p of
        None \<Rightarrow> []
      | Some m \<Rightarrow> (case map_of m k of None \<Rightarrow> [] | Some v \<Rightarrow> v))"

definition ValidatePrecondition :: "Precondition \<Rightarrow> validation_error option" where
  "ValidatePrecondition p =
     (if pc_Type p = ''command_exit_code'' then
        (if precondition_param p ''command'' = [] then Some PreconditionCommandRequired else None)
      else if pc_Type p = ''git_clean_worktree'' then None
      else if pc_Type p = ''port_available'' then None
      else if pc_Type p = ''tool_available'' then
        (if precondition_param p ''tool'' = [] then Some ToolRequired else None)
      else Some PreconditionUnknown)"

text \<open>The loops over assertions and capabilities: position, ids seen so far, rest.\<close>

fun check_assertions :: "go_host \<Rightarrow> nat \<Rightarrow> string list \<Rightarrow> Assertion list \<Rightarrow> validation_error option" where
  "check_assertions h i seenIDs [] = None"
| "check_assertions h i seenIDs (a # rest) =
     (case ValidateAssertion h a of
        Some e \<Rightarrow> Some (AssertionInvalid i e)
      | None \<Rightarrow>
          if as_ID a \<in> set seenIDs then Some (AssertionDuplicate (as_ID a))
          else check_assertions h (Suc i) (as_ID a # seenIDs) rest)"

fun check_capabilities :: "nat \<Rightarrow> string list \<Rightarrow> string list \<Rightarrow> validation_error option" where
  "check_capabilities i seenCaps [] = None"
| "check_capabilities i seenCaps (c # rest) =
     (if TrimSpace c = [] then Some (CapabilityEmpty i)
      else if c \<in> set seenCaps then Some (CapabilityDuplicate c)
      else check_capabilities (Suc i) (c # seenCaps) rest)"

definition assertions_of :: "CognitiveTaskEnvelope \<Rightarrow> Assertion list" where
  "assertions_of env = (case ev_Assertions env of None \<Rightarrow> [] | Some xs \<Rightarrow> xs)"

definition Validate :: "go_host \<Rightarrow> CognitiveTaskEnvelope \<Rightarrow> validation_error option" where
  "Validate h env =
     (if ev_ProtocolVersion env \<noteq> CurrentProtocolVersion then Some ErrUnknownProtocolVersion
      else if TrimSpace (ev_MeshID env) = [] then Some ErrInvalidMeshID
      else if ev_EnvelopeID env = [] then Some ErrInvalidEnvelopeID
      else if ev_EmitterAgentID env = [] then Some ErrInvalidEmitter
      else if ev_ExecutorAgentID env = [] then Some ErrInvalidExecutor
      else if ev_EmitterAgentID env = ev_ExecutorAgentID env then Some ErrSameAgent
      else case ValidateTerritory h (ev_Territory env) of
             Some e \<Rightarrow> Some (ErrInvalidTerritory e)
           | None \<Rightarrow>
               if assertions_of env = [] then Some ErrNoAssertions
               else case check_assertions h 0 [] (assertions_of env) of
                      Some e \<Rightarrow> Some e
                    | None \<Rightarrow>
                        (case check_capabilities 0 [] (ev_Capabilities env) of
                           Some e \<Rightarrow> Some e
                         | None \<Rightarrow>
                             if ev_TimeoutSeconds env \<le> 0 then Some ErrNegativeTimeout
                             else if ev_MaxRemediations env < 0 then Some ErrNegativeRemediations
                             else None))"

definition ValidateLease :: "Lease \<Rightarrow> validation_error option" where
  "ValidateLease l =
     (if le_ProtocolVersion l \<noteq> CurrentProtocolVersion then Some ErrUnknownProtocolVersion
      else if TrimSpace (le_MeshID l) = [] then Some ErrInvalidMeshID
      else if le_LeaseID l = [] then Some LeaseIDEmpty
      else if le_EnvelopeID l = [] then Some ErrInvalidEnvelopeID
      else if le_ExecutorAgentID l = [] then Some ErrInvalidExecutor
      else None)"

definition ResolvePath :: "string \<Rightarrow> string \<Rightarrow> string" where
  "ResolvePath workspace filePath =
     (if HasPrefix filePath ''/'' then filePath
      else if workspace = [] then (if filePath = [] then [] else path_clean filePath)
      else if filePath = [] then path_clean workspace
      else path_clean (workspace @ ''/'' @ filePath))"

section \<open>JSON forms\<close>

definition territory_json :: "EnvTerritory \<Rightarrow> json" where
  "territory_json t = JObj
     [(''repository'', JStr (et_Repository t)), (''branch'', JStr (et_Branch t)),
      (''workspace_path'', JStr (et_WorkspacePath t))]"

definition precondition_json :: "Precondition \<Rightarrow> json" where
  "precondition_json p = JObj
     [(''type'', JStr (pc_Type p)),
      (''params'', case pc_Params p of None \<Rightarrow> JNull | Some m \<Rightarrow> JObj (map (\<lambda>(k, v). (k, JStr v)) m))]"

definition params_json :: "AssertionParams \<Rightarrow> json" where
  "params_json p = JObj
     (omit_str ''description'' (ap_Description p) @ omit_str ''file_path'' (ap_FilePath p) @
      omit_str ''expected_sha256'' (ap_ExpectedSHA256 p) @ omit_str ''command'' (ap_Command p) @
      omit_int ''expected_exit_code'' (ap_ExpectedExitCode p) @
      omit_str ''contains_pattern'' (ap_ContainsPattern p) @
      omit_bool ''contains_regex'' (ap_ContainsRegex p) @ omit_str ''working_dir'' (ap_WorkingDir p) @
      omit_list ''env'' (map JStr (ap_Env p)) @ omit_int ''timeout_seconds'' (ap_TimeoutSeconds p) @
      omit_int ''port'' (ap_Port p))"

definition assertion_json :: "Assertion \<Rightarrow> json" where
  "assertion_json a = JObj
     [(''id'', JStr (as_ID a)), (''type'', JStr (as_Type a)), (''params'', params_json (as_Params a))]"

definition envelope_members :: "go_host \<Rightarrow> CognitiveTaskEnvelope \<Rightarrow> (string \<times> json) list" where
  "envelope_members h e =
     ([(''protocol_version'', JStr (ev_ProtocolVersion e)), (''mesh_id'', JStr (ev_MeshID e)),
       (''envelope_id'', JStr (ev_EnvelopeID e)), (''emitter_agent_id'', JStr (ev_EmitterAgentID e)),
       (''executor_agent_id'', JStr (ev_ExecutorAgentID e)), (''territory'', territory_json (ev_Territory e)),
       (''preconditions'', jslice precondition_json (ev_Preconditions e)),
       (''assertions'', jslice assertion_json (ev_Assertions e)),
       (''timeout_seconds'', jint (ev_TimeoutSeconds e)), (''max_remediations'', jint (ev_MaxRemediations e)),
       (''no_subdelegation'', JBool (ev_NoSubdelegation e)), (''created_at'', JStr (gh_time h (ev_CreatedAt e)))] @
      omit_list ''capabilities'' (map JStr (ev_Capabilities e)) @
      omit_str ''emitter_signature'' (ev_EmitterSignature e) @
      omit_str ''envelope_hash'' (ev_EnvelopeHash e))"

definition envelope_json :: "go_host \<Rightarrow> CognitiveTaskEnvelope \<Rightarrow> json" where
  "envelope_json h e = JObj (envelope_members h e)"

definition precondition_result_json :: "PreconditionResult \<Rightarrow> json" where
  "precondition_result_json r = JObj
     ([(''precondition_index'', jint (pr_Index r)), (''type'', JStr (pr_Type r)), (''passed'', JBool (pr_Passed r))] @
      omit_str ''message'' (pr_Message r))"

definition lease_json :: "go_host \<Rightarrow> Lease \<Rightarrow> json" where
  "lease_json h l = JObj
     ([(''protocol_version'', JStr (le_ProtocolVersion l)), (''mesh_id'', JStr (le_MeshID l)),
       (''lease_id'', JStr (le_LeaseID l)), (''envelope_id'', JStr (le_EnvelopeID l)),
       (''executor_agent_id'', JStr (le_ExecutorAgentID l)), (''accepted'', JBool (le_Accepted l)),
       (''expires_at'', JStr (gh_time h (le_ExpiresAt l)))] @
      omit_list ''precondition_results'' (map precondition_result_json (le_PreconditionResults l)) @
      omit_str ''rejection_reason'' (le_RejectionReason l) @
      omit_str ''executor_signature'' (le_ExecutorSignature l))"

section \<open>Hashing and signing\<close>

datatype envelope_error =
  InvalidEnvelope validation_error | JcsFailed | HashMismatch string string | MissingSignature
  | SigningFailed signing_error

definition signable_envelope :: "CognitiveTaskEnvelope \<Rightarrow> CognitiveTaskEnvelope" where
  "signable_envelope env =
     env\<lparr>ev_Territory := (ev_Territory env)\<lparr>et_Repository := trim_repo (et_Repository (ev_Territory env))\<rparr>,
         ev_EmitterSignature := [], ev_EnvelopeHash := []\<rparr>"

definition ComputeEnvelopeHash :: "go_host \<Rightarrow> CognitiveTaskEnvelope \<Rightarrow> envelope_error + string" where
  "ComputeEnvelopeHash h env =
     (case Validate h env of
        Some e \<Rightarrow> Inl (InvalidEnvelope e)
      | None \<Rightarrow>
          (case hash_json h (envelope_json h (signable_envelope env)) of
             None \<Rightarrow> Inl JcsFailed
           | Some x \<Rightarrow> Inr x))"

definition SignEnvelope ::
  "go_host \<Rightarrow> CognitiveTaskEnvelope \<Rightarrow> BasicSigner \<Rightarrow> envelope_error option \<times> CognitiveTaskEnvelope" where
  "SignEnvelope h env signer =
     (case Validate h env of
        Some e \<Rightarrow> (Some (InvalidEnvelope e), env)
      | None \<Rightarrow>
          (case ComputeEnvelopeHash h env of
             Inl e \<Rightarrow> (Some e, env)
           | Inr x \<Rightarrow>
               let env1 = env\<lparr>ev_EnvelopeHash := x\<rparr> in
               (case Marshal h (envelope_json h (env1\<lparr>ev_EmitterSignature := []\<rparr>)) of
                  None \<Rightarrow> (Some JcsFailed, env1)
                | Some canonical \<Rightarrow>
                    (case Sign (gh_ed h) signer canonical of
                       Inl e \<Rightarrow> (Some (SigningFailed e), env1)
                     | Inr sig \<Rightarrow> (None, env1\<lparr>ev_EmitterSignature := sig\<rparr>)))))"

definition VerifyEnvelopeSignature ::
  "go_host \<Rightarrow> CognitiveTaskEnvelope \<Rightarrow> string \<Rightarrow> envelope_error option" where
  "VerifyEnvelopeSignature h env emitterPublicKey =
     (if ev_EmitterSignature env = [] then Some MissingSignature
      else case Validate h env of
             Some e \<Rightarrow> Some (InvalidEnvelope e)
           | None \<Rightarrow>
               (case ComputeEnvelopeHash h env of
                  Inl e \<Rightarrow> Some e
                | Inr expectedHash \<Rightarrow>
                    if ev_EnvelopeHash env \<noteq> expectedHash then Some (HashMismatch (ev_EnvelopeHash env) expectedHash)
                    else case Marshal h (envelope_json h (env\<lparr>ev_EmitterSignature := []\<rparr>)) of
                           None \<Rightarrow> Some JcsFailed
                         | Some canonical \<Rightarrow>
                             map_option SigningFailed
                               (Verify (gh_ed h) emitterPublicKey canonical (ev_EmitterSignature env))))"

definition ComputeLeaseHash :: "go_host \<Rightarrow> Lease \<Rightarrow> envelope_error + string" where
  "ComputeLeaseHash h l =
     (case ValidateLease l of
        Some e \<Rightarrow> Inl (InvalidEnvelope e)
      | None \<Rightarrow>
          (case hash_json h (lease_json h (l\<lparr>le_ExecutorSignature := []\<rparr>)) of
             None \<Rightarrow> Inl JcsFailed
           | Some x \<Rightarrow> Inr x))"

definition SignLease :: "go_host \<Rightarrow> Lease \<Rightarrow> BasicSigner \<Rightarrow> envelope_error option \<times> Lease" where
  "SignLease h l signer =
     (case ValidateLease l of
        Some e \<Rightarrow> (Some (InvalidEnvelope e), l)
      | None \<Rightarrow>
          (case Marshal h (lease_json h (l\<lparr>le_ExecutorSignature := []\<rparr>)) of
             None \<Rightarrow> (Some JcsFailed, l)
           | Some canonical \<Rightarrow>
               (case Sign (gh_ed h) signer canonical of
                  Inl e \<Rightarrow> (Some (SigningFailed e), l)
                | Inr sig \<Rightarrow> (None, l\<lparr>le_ExecutorSignature := sig\<rparr>))))"

definition VerifyLeaseSignature :: "go_host \<Rightarrow> Lease \<Rightarrow> string \<Rightarrow> envelope_error option" where
  "VerifyLeaseSignature h l executorPublicKey =
     (if le_ExecutorSignature l = [] then Some MissingSignature
      else case ValidateLease l of
             Some e \<Rightarrow> Some (InvalidEnvelope e)
           | None \<Rightarrow>
               (case Marshal h (lease_json h (l\<lparr>le_ExecutorSignature := []\<rparr>)) of
                  None \<Rightarrow> Some JcsFailed
                | Some canonical \<Rightarrow>
                    map_option SigningFailed (Verify (gh_ed h) executorPublicKey canonical (le_ExecutorSignature l))))"

end
