(* ===== verification/Receipt.thy ===== *)
theory Receipt
  imports Contract "HOL-Library.Product_Lexorder"
begin

text \<open>
  Settlement receipts: \<open>pkg/receipt/types.go\<close>, \<open>signer.go\<close> and the hashes of \<open>chain.go\<close>. The receipt's
  territory has the fields of the envelope's. A time is nanoseconds since the epoch in UTC, as every
  writer of these fields produces it; an unset \<open>EmitterAcceptanceAt\<close> is \<open>None\<close>.
\<close>

section \<open>Types\<close>

datatype Verdict = VerdictSettledClean | VerdictRemediated | VerdictFailed | VerdictDisputed | VerdictTimeout

fun Verdict_String :: "Verdict \<Rightarrow> string" where
  "Verdict_String VerdictSettledClean = ''SETTLED_CLEAN''"
| "Verdict_String VerdictRemediated = ''SETTLED_WITH_REPAIR''"
| "Verdict_String VerdictFailed = ''SETTLEMENT_FAILED''"
| "Verdict_String VerdictDisputed = ''SETTLEMENT_DISPUTED''"
| "Verdict_String VerdictTimeout = ''SETTLEMENT_TIMEOUT''"

definition Verdict_IsTerminal :: "Verdict \<Rightarrow> bool" where
  "Verdict_IsTerminal v \<longleftrightarrow> v \<in> {VerdictSettledClean, VerdictRemediated, VerdictFailed, VerdictTimeout}"

definition Verdict_IsSuccess :: "Verdict \<Rightarrow> bool" where
  "Verdict_IsSuccess v \<longleftrightarrow> v = VerdictSettledClean \<or> v = VerdictRemediated"

datatype Acceptance = NoAcceptance | AcceptanceAccepted | AcceptanceDisputed

fun Acceptance_String :: "Acceptance \<Rightarrow> string" where
  "Acceptance_String NoAcceptance = []"
| "Acceptance_String AcceptanceAccepted = ''ACCEPTED''"
| "Acceptance_String AcceptanceDisputed = ''DISPUTED''"

datatype Result = ResultPass | ResultFail | ResultSkip

fun Result_String :: "Result \<Rightarrow> string" where
  "Result_String ResultPass = ''PASS''"
| "Result_String ResultFail = ''FAIL''"
| "Result_String ResultSkip = ''SKIP''"

record AssertionEvidence =
  ae_Command :: string
  ae_ExitCode :: int
  ae_StdoutHash :: string
  ae_StderrHash :: string
  ae_StdoutContains :: bool
  ae_StderrContains :: bool
  ae_FilePath :: string
  ae_ExpectedSHA256 :: string
  ae_ActualSHA256 :: string
  ae_FileWasModified :: bool
  ae_GitStatus :: string
  ae_Port :: int
  ae_PortWasFree :: bool
  ae_CheckedAt :: int

record AssertionResult =
  ar_AssertionIndex :: int
  ar_AssertionID :: string
  ar_AssertionType :: string
  ar_Result :: Result
  ar_Evidence :: AssertionEvidence
  ar_Message :: string

datatype RemediationResult = RemediationSuccess | RemediationFailure

record RemediationAttempt =
  ra_AttemptIndex :: int
  ra_TriggeredBy :: string
  ra_Action :: string
  ra_Command :: string
  ra_ExitCode :: int
  ra_AssertionsRechecked :: "string list"
  ra_Result :: RemediationResult
  ra_Message :: string
  ra_AttemptedAt :: int

record SettlementReceipt =
  rc_ProtocolVersion :: string
  rc_MeshID :: string
  rc_ReceiptID :: string
  rc_ContractID :: string
  rc_EnvelopeHash :: string
  rc_EmitterAgentID :: string
  rc_ExecutorAgentID :: string
  rc_Territory :: EnvTerritory
  rc_Verdict :: Verdict
  rc_Assertions :: "AssertionResult list option"
  rc_RemediationChain :: "RemediationAttempt list"
  rc_ExecutorSignature :: string
  rc_ExecutorSignedAt :: int
  rc_PreviousReceiptHash :: string
  rc_SequenceNumber :: int
  rc_EmitterAcceptance :: Acceptance
  rc_EmitterAcceptanceAt :: "int option"
  rc_DisputeReason :: string
  rc_EmitterSignature :: string

datatype receipt_error =
  ReceiptVersion | ReceiptMesh | ReceiptIDEmpty | ContractIDEmpty | EnvelopeHashEmpty | EmitterEmpty | ExecutorEmpty

definition ValidateReceipt :: "SettlementReceipt \<Rightarrow> receipt_error option" where
  "ValidateReceipt r =
     (if rc_ProtocolVersion r \<noteq> CurrentProtocolVersion then Some ReceiptVersion
      else if TrimSpace (rc_MeshID r) = [] then Some ReceiptMesh
      else if rc_ReceiptID r = [] then Some ReceiptIDEmpty
      else if rc_ContractID r = [] then Some ContractIDEmpty
      else if rc_EnvelopeHash r = [] then Some EnvelopeHashEmpty
      else if rc_EmitterAgentID r = [] then Some EmitterEmpty
      else if rc_ExecutorAgentID r = [] then Some ExecutorEmpty
      else None)"

datatype ReceiptStatus =
  ReceiptStatusEmitted | ReceiptStatusAccepted | ReceiptStatusDisputed | ReceiptStatusResolved | ReceiptStatusStale

definition ReceiptStatus_IsTerminal :: "ReceiptStatus \<Rightarrow> bool" where
  "ReceiptStatus_IsTerminal s \<longleftrightarrow> s \<in> {ReceiptStatusAccepted, ReceiptStatusResolved, ReceiptStatusStale}"

section \<open>JSON form\<close>

definition omit_time :: "go_host \<Rightarrow> string \<Rightarrow> int option \<Rightarrow> (string \<times> json) list" where
  "omit_time h k v = (case v of None \<Rightarrow> [] | Some t \<Rightarrow> [(k, JStr (gh_time h t))])"

lemma omit_time_keys [json_keys]:
  "k \<notin> fst ` set ms \<Longrightarrow> distinct (map fst ms) \<Longrightarrow> distinct (map fst (omit_time h k v @ ms))"
  "k \<noteq> j \<Longrightarrow> k \<notin> fst ` set ms \<Longrightarrow> k \<notin> fst ` set (omit_time h j v @ ms)"
  by (auto simp: omit_time_def split: option.splits)

lemma omit_time_values [simp]: "list_all (\<lambda>(k, v). keys_distinct v) (omit_time h k v)"
  by (auto simp: omit_time_def split: option.splits)

definition evidence_json :: "go_host \<Rightarrow> AssertionEvidence \<Rightarrow> json" where
  "evidence_json h e = JObj
     (omit_str ''command'' (ae_Command e) @ omit_int ''exit_code'' (ae_ExitCode e) @
      omit_str ''stdout_hash'' (ae_StdoutHash e) @ omit_str ''stderr_hash'' (ae_StderrHash e) @
      omit_bool ''stdout_contains'' (ae_StdoutContains e) @ omit_bool ''stderr_contains'' (ae_StderrContains e) @
      omit_str ''file_path'' (ae_FilePath e) @ omit_str ''expected_sha256'' (ae_ExpectedSHA256 e) @
      omit_str ''actual_sha256'' (ae_ActualSHA256 e) @ omit_bool ''file_was_modified'' (ae_FileWasModified e) @
      omit_str ''git_status'' (ae_GitStatus e) @ omit_int ''port'' (ae_Port e) @
      omit_bool ''port_was_free'' (ae_PortWasFree e) @
      [(''checked_at'', JStr (gh_time h (ae_CheckedAt e)))])"

definition result_json :: "go_host \<Rightarrow> AssertionResult \<Rightarrow> json" where
  "result_json h r = JObj
     ([(''assertion_index'', jint (ar_AssertionIndex r)), (''assertion_id'', JStr (ar_AssertionID r)),
       (''assertion_type'', JStr (ar_AssertionType r)), (''result'', JStr (Result_String (ar_Result r))),
       (''evidence'', evidence_json h (ar_Evidence r))] @
      omit_str ''message'' (ar_Message r))"

definition remediation_json :: "go_host \<Rightarrow> RemediationAttempt \<Rightarrow> json" where
  "remediation_json h a = JObj
     ([(''attempt_index'', jint (ra_AttemptIndex a)), (''triggered_by_assertion_id'', JStr (ra_TriggeredBy a)),
       (''action'', JStr (ra_Action a)),
       (''result'', JStr (if ra_Result a = RemediationSuccess then ''SUCCESS'' else ''FAILURE'')),
       (''attempted_at'', JStr (gh_time h (ra_AttemptedAt a)))] @
      omit_str ''command'' (ra_Command a) @ omit_int ''exit_code'' (ra_ExitCode a) @
      omit_list ''assertions_rechecked'' (map JStr (ra_AssertionsRechecked a)) @
      omit_str ''message'' (ra_Message a))"

definition receipt_members :: "go_host \<Rightarrow> SettlementReceipt \<Rightarrow> (string \<times> json) list" where
  "receipt_members h r =
     ([(''protocol_version'', JStr (rc_ProtocolVersion r)), (''mesh_id'', JStr (rc_MeshID r)),
       (''receipt_id'', JStr (rc_ReceiptID r)), (''contract_id'', JStr (rc_ContractID r)),
       (''envelope_hash'', JStr (rc_EnvelopeHash r)), (''emitter_agent_id'', JStr (rc_EmitterAgentID r)),
       (''executor_agent_id'', JStr (rc_ExecutorAgentID r)), (''territory'', territory_json (rc_Territory r)),
       (''verdict'', JStr (Verdict_String (rc_Verdict r))),
       (''assertions'', jslice (result_json h) (rc_Assertions r)),
       (''executor_signed_at'', JStr (gh_time h (rc_ExecutorSignedAt r)))] @
      omit_list ''remediation_chain'' (map (remediation_json h) (rc_RemediationChain r)) @
      omit_str ''executor_signature'' (rc_ExecutorSignature r) @
      omit_str ''previous_receipt_hash'' (rc_PreviousReceiptHash r) @
      omit_int ''sequence_number'' (rc_SequenceNumber r) @
      omit_str ''emitter_acceptance'' (Acceptance_String (rc_EmitterAcceptance r)) @
      omit_time h ''emitter_acceptance_at'' (rc_EmitterAcceptanceAt r) @
      omit_str ''dispute_reason'' (rc_DisputeReason r) @
      omit_str ''emitter_signature'' (rc_EmitterSignature r))"

definition receipt_json :: "go_host \<Rightarrow> SettlementReceipt \<Rightarrow> json" where
  "receipt_json h r = JObj (receipt_members h r)"

section \<open>Hashes and signatures\<close>

definition executor_view :: "SettlementReceipt \<Rightarrow> SettlementReceipt" where
  "executor_view r =
     r\<lparr>rc_ExecutorSignature := [], rc_EmitterAcceptance := NoAcceptance, rc_EmitterAcceptanceAt := None,
       rc_EmitterSignature := [], rc_DisputeReason := [], rc_SequenceNumber := 0\<rparr>"

definition ComputeReceiptHash :: "go_host \<Rightarrow> SettlementReceipt \<Rightarrow> string option" where
  "ComputeReceiptHash h r = hash_json h (receipt_json h (executor_view r))"

definition emitter_view :: "SettlementReceipt \<Rightarrow> SettlementReceipt" where
  "emitter_view r =
     r\<lparr>rc_ExecutorSignature := [], rc_EmitterSignature := [], rc_EmitterAcceptanceAt := None, rc_SequenceNumber := 0\<rparr>"

definition ComputeEmitterReceiptHash :: "go_host \<Rightarrow> SettlementReceipt \<Rightarrow> string option" where
  "ComputeEmitterReceiptHash h r = hash_json h (receipt_json h (emitter_view r))"

datatype sign_receipt_error =
  ReceiptHashFailed | ReceiptSignFailed signing_error | ReceiptSignatureMissing | AcceptanceMissing
  | DisputeReasonRequired

definition SignReceipt ::
  "go_host \<Rightarrow> int \<Rightarrow> SettlementReceipt \<Rightarrow> BasicSigner \<Rightarrow> sign_receipt_error option \<times> SettlementReceipt" where
  "SignReceipt h now r signer =
     (let r1 = r\<lparr>rc_ExecutorSignedAt := now\<rparr> in
      case ComputeReceiptHash h r1 of
        None \<Rightarrow> (Some ReceiptHashFailed, r1)
      | Some x \<Rightarrow>
          (case Sign (gh_ed h) signer x of
             Inl e \<Rightarrow> (Some (ReceiptSignFailed e), r1)
           | Inr sig \<Rightarrow> (None, r1\<lparr>rc_ExecutorSignature := sig\<rparr>)))"

definition VerifyExecutorSignature :: "go_host \<Rightarrow> SettlementReceipt \<Rightarrow> string \<Rightarrow> sign_receipt_error option" where
  "VerifyExecutorSignature h r executorPublicKey =
     (if rc_ExecutorSignature r = [] then Some ReceiptSignatureMissing
      else case ComputeReceiptHash h r of
             None \<Rightarrow> Some ReceiptHashFailed
           | Some x \<Rightarrow> map_option ReceiptSignFailed (Verify (gh_ed h) executorPublicKey x (rc_ExecutorSignature r)))"

definition sign_decision ::
  "go_host \<Rightarrow> SettlementReceipt \<Rightarrow> BasicSigner \<Rightarrow> sign_receipt_error option \<times> SettlementReceipt" where
  "sign_decision h r emitterSigner =
     (case ComputeEmitterReceiptHash h r of
        None \<Rightarrow> (Some ReceiptHashFailed, r)
      | Some x \<Rightarrow>
          (case Sign (gh_ed h) emitterSigner x of
             Inl e \<Rightarrow> (Some (ReceiptSignFailed e), r)
           | Inr sig \<Rightarrow> (None, r\<lparr>rc_EmitterSignature := sig\<rparr>)))"

definition AcceptReceipt ::
  "go_host \<Rightarrow> int \<Rightarrow> SettlementReceipt \<Rightarrow> BasicSigner \<Rightarrow> int \<Rightarrow> sign_receipt_error option \<times> SettlementReceipt" where
  "AcceptReceipt h now r emitterSigner executorSignedAt =
     sign_decision h
       (r\<lparr>rc_ExecutorSignedAt := executorSignedAt, rc_EmitterAcceptance := AcceptanceAccepted,
          rc_DisputeReason := [], rc_EmitterAcceptanceAt := Some now\<rparr>) emitterSigner"

definition DisputeReceipt ::
  "go_host \<Rightarrow> int \<Rightarrow> SettlementReceipt \<Rightarrow> BasicSigner \<Rightarrow> string \<Rightarrow> int \<Rightarrow>
   sign_receipt_error option \<times> SettlementReceipt" where
  "DisputeReceipt h now r emitterSigner reason executorSignedAt =
     (if reason = [] then (Some DisputeReasonRequired, r)
      else sign_decision h
             (r\<lparr>rc_ExecutorSignedAt := executorSignedAt, rc_EmitterAcceptance := AcceptanceDisputed,
                rc_DisputeReason := reason, rc_EmitterAcceptanceAt := Some now\<rparr>) emitterSigner)"

definition VerifyEmitterSignature :: "go_host \<Rightarrow> SettlementReceipt \<Rightarrow> string \<Rightarrow> sign_receipt_error option" where
  "VerifyEmitterSignature h r emitterPublicKey =
     (if rc_EmitterSignature r = [] then Some ReceiptSignatureMissing
      else if rc_EmitterAcceptance r = NoAcceptance then Some AcceptanceMissing
      else case ComputeEmitterReceiptHash h r of
             None \<Rightarrow> Some ReceiptHashFailed
           | Some x \<Rightarrow> map_option ReceiptSignFailed (Verify (gh_ed h) emitterPublicKey x (rc_EmitterSignature r)))"

section \<open>What the hashes bind\<close>

lemma evidence_json_distinct: "keys_distinct (evidence_json h e)"
  unfolding evidence_json_def by (rule keys_distinctI, (rule json_keys | (simp; fail))+)

lemma result_json_distinct: "keys_distinct (result_json h r)"
  unfolding result_json_def append_Cons append_Nil
  by (rule keys_distinctI, (rule json_keys | (simp add: evidence_json_distinct; fail))+)

lemma remediation_json_distinct: "keys_distinct (remediation_json h a)"
  unfolding remediation_json_def append_Cons append_Nil
  by (rule keys_distinctI, (rule json_keys | (simp; fail))+)

lemma receipt_members_distinct: "distinct (map fst (receipt_members h r))"
  unfolding receipt_members_def append_Cons append_Nil by (rule json_keys | (simp; fail))+

lemma receipt_json_distinct: "keys_distinct (receipt_json h r)"
  unfolding receipt_json_def
proof (rule keys_distinctI [OF receipt_members_distinct])
  have "keys_distinct (jslice (result_json h) (rc_Assertions r))" by (intro jslice_distinct result_json_distinct)
  moreover have "list_all keys_distinct (map (remediation_json h) (rc_RemediationChain r))"
    by (simp add: list_all_iff remediation_json_distinct)
  ultimately show "list_all (\<lambda>(k, v). keys_distinct v) (receipt_members h r)"
    by (simp add: receipt_members_def territory_json_def)
qed

end
