(* ===== verification/Receipt_Chain.thy ===== *)
theory Receipt_Chain
  imports Receipt "HOL-Library.Product_Lexorder"
begin

text \<open>
  The receipt chain store: \<open>pkg/receipt/chain.go\<close> and \<open>append.go\<close>. The table \<open>receipts\<close> is the list of its
  rows in insertion order; the JSON column \<open>data\<close> holds the receipt it decodes to. A column written by
  \<open>Format(time.RFC3339)\<close> holds whole seconds. What the database does to a transaction is an argument: which
  statement fails, if any. What other writers do to the table while an append is between its read and its
  write is an argument of the append.
\<close>

section \<open>The table\<close>

record receipt_row =
  rr_receipt_id :: string
  rr_contract_id :: string
  rr_envelope_hash :: string
  rr_emitter :: string
  rr_executor :: string
  rr_verdict :: Verdict
  rr_previous :: "string option"
  rr_executor_signature :: string
  rr_executor_signed_at :: int
  rr_acceptance :: "string option"
  rr_acceptance_at :: "int option"
  rr_emitter_signature :: "string option"
  rr_dispute_reason :: "string option"
  rr_data :: SettlementReceipt
  rr_seq :: int

type_synonym receipt_table = "receipt_row list"

datatype db_fault = NoFault | FaultBegin | FaultQuery | FaultInsert | FaultCommit

datatype chain_error =
  ErrReceiptNotFound | ErrChainBroken | ErrInvalidReceipt | ErrInvalidPreviousHash | ErrSequenceConflict
  | ErrDuplicateContract | ErrDatabase db_fault | ErrUniqueIndex

definition seconds :: "int \<Rightarrow> int" where
  "seconds t = t div 1000000000"

definition nullable :: "string \<Rightarrow> string option" where
  "nullable s = (if s = [] then None else Some s)"

definition receipt_columns :: "SettlementReceipt \<Rightarrow> int \<Rightarrow> receipt_row" where
  "receipt_columns r seq =
     \<lparr>rr_receipt_id = rc_ReceiptID r, rr_contract_id = rc_ContractID r, rr_envelope_hash = rc_EnvelopeHash r,
      rr_emitter = rc_EmitterAgentID r, rr_executor = rc_ExecutorAgentID r, rr_verdict = rc_Verdict r,
      rr_previous = nullable (rc_PreviousReceiptHash r), rr_executor_signature = rc_ExecutorSignature r,
      rr_executor_signed_at = seconds (rc_ExecutorSignedAt r),
      rr_acceptance = nullable (Acceptance_String (rc_EmitterAcceptance r)),
      rr_acceptance_at = map_option seconds (rc_EmitterAcceptanceAt r),
      rr_emitter_signature = nullable (rc_EmitterSignature r), rr_dispute_reason = nullable (rc_DisputeReason r),
      rr_data = r, rr_seq = seq\<rparr>"

definition pair_rows :: "string \<Rightarrow> string \<Rightarrow> receipt_table \<Rightarrow> receipt_row list" where
  "pair_rows em ex t = filter (\<lambda>row. rr_emitter row = em \<and> rr_executor row = ex) t"

definition chain_rows :: "string \<Rightarrow> string \<Rightarrow> receipt_table \<Rightarrow> receipt_row list" where
  "chain_rows em ex t = sort_key (\<lambda>row. (rr_seq row, rr_executor_signed_at row)) (pair_rows em ex t)"

definition row_receipt :: "receipt_row \<Rightarrow> SettlementReceipt" where
  "row_receipt row = (rr_data row)\<lparr>rc_SequenceNumber := rr_seq row\<rparr>"

section \<open>Operations of the store\<close>

definition GetReceipt :: "receipt_table \<Rightarrow> string \<Rightarrow> chain_error + SettlementReceipt" where
  "GetReceipt t receiptID =
     (case find (\<lambda>row. rr_receipt_id row = receiptID) t of
        None \<Rightarrow> Inl ErrReceiptNotFound
      | Some row \<Rightarrow> Inr (row_receipt row))"

definition GetReceiptByContractID :: "receipt_table \<Rightarrow> string \<Rightarrow> chain_error + SettlementReceipt" where
  "GetReceiptByContractID t contractID =
     (case find (\<lambda>row. rr_contract_id row = contractID) t of
        None \<Rightarrow> Inl ErrReceiptNotFound
      | Some row \<Rightarrow> Inr (row_receipt row))"

definition GetChain :: "receipt_table \<Rightarrow> string \<Rightarrow> string \<Rightarrow> SettlementReceipt list" where
  "GetChain t emitterID executorID = map row_receipt (chain_rows emitterID executorID t)"

definition GetLastReceipt :: "receipt_table \<Rightarrow> string \<Rightarrow> string \<Rightarrow> chain_error + SettlementReceipt" where
  "GetLastReceipt t emitterID executorID =
     (case rev (chain_rows emitterID executorID t) of
        [] \<Rightarrow> Inl ErrReceiptNotFound
      | row # _ \<Rightarrow> Inr (row_receipt row))"

definition Count :: "receipt_table \<Rightarrow> string \<Rightarrow> string \<Rightarrow> nat" where
  "Count t emitterID executorID = length (pair_rows emitterID executorID t)"

definition DeleteAll :: "receipt_table \<Rightarrow> string \<Rightarrow> string \<Rightarrow> receipt_table" where
  "DeleteAll t emitterID executorID =
     filter (\<lambda>row. \<not> (rr_emitter row = emitterID \<and> rr_executor row = executorID)) t"

definition same_pair_seq :: "receipt_row \<Rightarrow> receipt_row \<Rightarrow> bool" where
  "same_pair_seq r s \<longleftrightarrow> rr_emitter r = rr_emitter s \<and> rr_executor r = rr_executor s \<and> rr_seq r = rr_seq s"

definition insert_row :: "receipt_table \<Rightarrow> receipt_row \<Rightarrow> chain_error + receipt_table" where
  "insert_row t row =
     (if list_ex (same_pair_seq row) t then Inl ErrSequenceConflict
      else if list_ex (\<lambda>s. rr_contract_id s = rr_contract_id row) t then Inl ErrDuplicateContract
      else Inr (t @ [row]))"

definition expected_position ::
  "go_host \<Rightarrow> receipt_table \<Rightarrow> SettlementReceipt \<Rightarrow> chain_error + int" where
  "expected_position h t r =
     (case rev (chain_rows (rc_EmitterAgentID r) (rc_ExecutorAgentID r) t) of
        [] \<Rightarrow> if rc_PreviousReceiptHash r \<noteq> [] then Inl ErrInvalidPreviousHash else Inr 1
      | row # _ \<Rightarrow>
          if rc_PreviousReceiptHash r \<noteq> gh_sha h (rc_ExecutorSignature (rr_data row))
          then Inl ErrInvalidPreviousHash else Inr (rr_seq row + 1))"

definition SaveReceipt ::
  "go_host \<Rightarrow> db_fault \<Rightarrow> receipt_table \<Rightarrow> SettlementReceipt \<Rightarrow>
   chain_error option \<times> SettlementReceipt \<times> receipt_table" where
  "SaveReceipt h io t r =
     (if ValidateReceipt r \<noteq> None then (Some ErrInvalidReceipt, r, t)
      else if io = FaultBegin \<or> io = FaultQuery then (Some (ErrDatabase io), r, t)
      else case expected_position h t r of
             Inl e \<Rightarrow> (Some e, r, t)
           | Inr expectedSeq \<Rightarrow>
               if rc_SequenceNumber r \<noteq> 0 \<and> rc_SequenceNumber r \<noteq> expectedSeq then (Some ErrSequenceConflict, r, t)
               else let r' = r\<lparr>rc_SequenceNumber := expectedSeq\<rparr> in
                 if io = FaultInsert then (Some (ErrDatabase io), r', t)
                 else case insert_row t (receipt_columns r' expectedSeq) of
                        Inl e \<Rightarrow> (Some e, r', t)
                      | Inr t' \<Rightarrow> if io = FaultCommit then (Some (ErrDatabase io), r', t) else (None, r', t'))"

definition UpdateReceipt ::
  "db_fault \<Rightarrow> receipt_table \<Rightarrow> SettlementReceipt \<Rightarrow> chain_error option \<times> receipt_table" where
  "UpdateReceipt io t r =
     (if rc_ReceiptID r = [] \<or> rc_ContractID r = [] \<or> ValidateReceipt r \<noteq> None then (Some ErrInvalidReceipt, t)
      else if io \<noteq> NoFault then (Some (ErrDatabase io), t)
      else if \<not> list_ex (\<lambda>row. rr_receipt_id row = rc_ReceiptID r) t then (Some ErrReceiptNotFound, t)
      else (None, map (\<lambda>row. if rr_receipt_id row = rc_ReceiptID r then row\<lparr>rr_data := r\<rparr> else row) t))"

text \<open>\<open>INSERT OR REPLACE\<close> deletes the rows that a unique index of the table puts in conflict with the new one.\<close>

definition InjectReceipt ::
  "db_fault \<Rightarrow> receipt_table \<Rightarrow> SettlementReceipt \<Rightarrow> chain_error option \<times> receipt_table" where
  "InjectReceipt io t r =
     (if ValidateReceipt r \<noteq> None then (Some ErrInvalidReceipt, t)
      else if io \<noteq> NoFault then (Some (ErrDatabase io), t)
      else let row = receipt_columns r (rc_SequenceNumber r) in
        (None, filter (\<lambda>s. \<not> same_pair_seq row s \<and> rr_contract_id s \<noteq> rr_contract_id row) t @ [row]))"

section \<open>Verification\<close>

datatype verification_note =
  NoteNone | NoteGap | NoteOutOfOrder | NoteFirstPrevious | NoteBroken | NoteHash | NoteExecutorSignature
  | NoteMissingSignature | NoteEmitterHash | NoteEmitterSignature | NoteNoDecision

record VerificationResult =
  vr_ReceiptID :: string
  vr_ContractID :: string
  vr_Verdict :: Verdict
  vr_Index :: int
  vr_SequenceNumber :: int
  vr_PreviousHashValid :: bool
  vr_SequenceValid :: bool
  vr_ExecutorSignatureValid :: bool
  vr_EmitterSignatureValid :: bool
  vr_Valid :: bool
  vr_Error :: verification_note

definition first_note :: "verification_note list \<Rightarrow> verification_note" where
  "first_note ns = (case filter (\<lambda>n. n \<noteq> NoteNone) ns of [] \<Rightarrow> NoteNone | n # _ \<Rightarrow> n)"

definition check_sequence :: "int \<Rightarrow> SettlementReceipt \<Rightarrow> verification_note" where
  "check_sequence i r =
     (if rc_SequenceNumber r = i + 1 then NoteNone
      else if rc_SequenceNumber r > i + 1 then NoteGap else NoteOutOfOrder)"

definition check_link :: "go_host \<Rightarrow> SettlementReceipt option \<Rightarrow> SettlementReceipt \<Rightarrow> verification_note" where
  "check_link h prev r =
     (case prev of
        None \<Rightarrow> if rc_PreviousReceiptHash r = [] then NoteNone else NoteFirstPrevious
      | Some q \<Rightarrow> if gh_sha h (rc_ExecutorSignature q) = rc_PreviousReceiptHash r then NoteNone else NoteBroken)"

definition check_executor :: "go_host \<Rightarrow> string \<Rightarrow> SettlementReceipt \<Rightarrow> verification_note" where
  "check_executor h executorPublicKey r =
     (if rc_ExecutorSignature r = [] then NoteMissingSignature
      else case ComputeReceiptHash h r of
             None \<Rightarrow> NoteHash
           | Some x \<Rightarrow> if Verify (gh_ed h) executorPublicKey x (rc_ExecutorSignature r) = None then NoteNone
                      else NoteExecutorSignature)"

definition check_emitter :: "go_host \<Rightarrow> string \<Rightarrow> SettlementReceipt \<Rightarrow> verification_note" where
  "check_emitter h emitterPublicKey r =
     (if rc_EmitterSignature r = [] then NoteNone
      else if rc_EmitterAcceptance r = NoAcceptance then NoteNoDecision
      else case ComputeEmitterReceiptHash h r of
             None \<Rightarrow> NoteEmitterHash
           | Some x \<Rightarrow> if Verify (gh_ed h) emitterPublicKey x (rc_EmitterSignature r) = None then NoteNone
                      else NoteEmitterSignature)"

definition verify_receipt ::
  "go_host \<Rightarrow> string \<Rightarrow> string \<Rightarrow> int \<Rightarrow> SettlementReceipt option \<Rightarrow> SettlementReceipt \<Rightarrow> VerificationResult" where
  "verify_receipt h executorPublicKey emitterPublicKey i prev r =
     (let s = check_sequence i r; l = check_link h prev r;
          x = check_executor h executorPublicKey r; e = check_emitter h emitterPublicKey r
      in \<lparr>vr_ReceiptID = rc_ReceiptID r, vr_ContractID = rc_ContractID r, vr_Verdict = rc_Verdict r, vr_Index = i,
          vr_SequenceNumber = rc_SequenceNumber r, vr_PreviousHashValid = (l = NoteNone),
          vr_SequenceValid = (s = NoteNone), vr_ExecutorSignatureValid = (x = NoteNone),
          vr_EmitterSignatureValid = (e = NoteNone),
          vr_Valid = (s = NoteNone \<and> l = NoteNone \<and> x = NoteNone \<and> e = NoteNone),
          vr_Error = first_note [s, l, x, e]\<rparr>)"

fun verify_from ::
  "go_host \<Rightarrow> string \<Rightarrow> string \<Rightarrow> int \<Rightarrow> SettlementReceipt option \<Rightarrow> SettlementReceipt list \<Rightarrow> VerificationResult list"
where
  "verify_from h xk ek i prev [] = []"
| "verify_from h xk ek i prev (r # rs) = verify_receipt h xk ek i prev r # verify_from h xk ek (i + 1) (Some r) rs"

definition VerifyChainIntegrity ::
  "go_host \<Rightarrow> SettlementReceipt list \<Rightarrow> string \<Rightarrow> string \<Rightarrow> chain_error + VerificationResult list" where
  "VerifyChainIntegrity h chain executorPublicKey emitterPublicKey =
     (if chain = [] then Inl ErrReceiptNotFound
      else Inr (verify_from h executorPublicKey emitterPublicKey 0 None chain))"

definition VerifyChain ::
  "go_host \<Rightarrow> receipt_table \<Rightarrow> string \<Rightarrow> string \<Rightarrow> string \<Rightarrow> string \<Rightarrow> chain_error + VerificationResult list" where
  "VerifyChain h t emitterID executorID executorPublicKey emitterPublicKey =
     VerifyChainIntegrity h (GetChain t emitterID executorID) executorPublicKey emitterPublicKey"

section \<open>Appending with retry\<close>

definition DefaultAppendMaxAttempts :: int where
  "DefaultAppendMaxAttempts = 10"

record AppendConfig =
  ac_EmitterAgentID :: string
  ac_ExecutorAgentID :: string
  ac_Signer :: "BasicSigner option"
  ac_MaxAttempts :: int

datatype append_error =
  SignerRequired | AppendCancelled | BuildFailed | LastReceiptFailed | AppendSign sign_receipt_error
  | AppendChain chain_error | AppendExhausted int chain_error

definition isTransientChainContention :: "append_error \<Rightarrow> bool" where
  "isTransientChainContention e \<longleftrightarrow>
     e = AppendChain ErrSequenceConflict \<or> e = AppendChain ErrInvalidPreviousHash"

text \<open>The circumstances of one attempt: what the builder returns, the fresh identifier, the clock, whether
  reading the head fails, what other writers do after that read, what the database does to the transaction,
  whether the context is cancelled before the attempt or while waiting after it, and what others do then.\<close>

record attempt_env =
  at_cancelled :: bool
  at_build :: "SettlementReceipt option"
  at_id :: string
  at_now :: int
  at_read_fails :: bool
  at_between :: "receipt_table \<Rightarrow> receipt_table"
  at_io :: db_fault
  at_wait_cancelled :: bool
  at_after :: "receipt_table \<Rightarrow> receipt_table"

definition place_receipt ::
  "go_host \<Rightarrow> AppendConfig \<Rightarrow> string \<Rightarrow> receipt_table \<Rightarrow> SettlementReceipt \<Rightarrow> SettlementReceipt" where
  "place_receipt h cfg newID t rec =
     rec\<lparr>rc_PreviousReceiptHash :=
           (case GetLastReceipt t (ac_EmitterAgentID cfg) (ac_ExecutorAgentID cfg) of
              Inr l \<Rightarrow> gh_sha h (rc_ExecutorSignature l)
            | Inl _ \<Rightarrow> []),
         rc_ReceiptID := newID, rc_EmitterAgentID := ac_EmitterAgentID cfg,
         rc_ExecutorAgentID := ac_ExecutorAgentID cfg, rc_SequenceNumber := 0, rc_ExecutorSignature := []\<rparr>"

definition append_attempt ::
  "go_host \<Rightarrow> AppendConfig \<Rightarrow> BasicSigner \<Rightarrow> attempt_env \<Rightarrow> receipt_table \<Rightarrow>
   (append_error + SettlementReceipt) \<times> receipt_table" where
  "append_attempt h cfg signer env t =
     (case at_build env of
        None \<Rightarrow> (Inl BuildFailed, t)
      | Some rec \<Rightarrow>
          if at_read_fails env then (Inl LastReceiptFailed, t)
          else case SignReceipt h (at_now env) (place_receipt h cfg (at_id env) t rec) signer of
                 (Some e, _) \<Rightarrow> (Inl (AppendSign e), t)
               | (None, r1) \<Rightarrow>
                   (case SaveReceipt h (at_io env) (at_between env t) r1 of
                      (None, saved, t') \<Rightarrow> (Inr saved, t')
                    | (Some e, _, t') \<Rightarrow> (Inl (AppendChain e), t')))"

fun append_loop ::
  "go_host \<Rightarrow> AppendConfig \<Rightarrow> BasicSigner \<Rightarrow> int \<Rightarrow> attempt_env list \<Rightarrow> receipt_table \<Rightarrow>
   (append_error + SettlementReceipt) \<times> receipt_table" where
  "append_loop h cfg signer attempts [] t = (Inl AppendCancelled, t)"
| "append_loop h cfg signer attempts (env # envs) t =
     (if at_cancelled env then (Inl AppendCancelled, t)
      else case append_attempt h cfg signer env t of
             (Inr saved, t') \<Rightarrow> (Inr saved, t')
           | (Inl e, t') \<Rightarrow>
               if \<not> isTransientChainContention e then (Inl e, t')
               else if envs = []
                    then (Inl (case e of AppendChain c \<Rightarrow> AppendExhausted attempts c | _ \<Rightarrow> e), t')
               else if at_wait_cancelled env then (Inl AppendCancelled, t')
               else append_loop h cfg signer attempts envs (at_after env t'))"

definition append_attempts :: "AppendConfig \<Rightarrow> int" where
  "append_attempts cfg = (if ac_MaxAttempts cfg \<le> 0 then DefaultAppendMaxAttempts else ac_MaxAttempts cfg)"

definition SignAndSaveReceipt ::
  "go_host \<Rightarrow> AppendConfig \<Rightarrow> (nat \<Rightarrow> attempt_env) \<Rightarrow> receipt_table \<Rightarrow>
   (append_error + SettlementReceipt) \<times> receipt_table" where
  "SignAndSaveReceipt h cfg envs t =
     (case ac_Signer cfg of
        None \<Rightarrow> (Inl SignerRequired, t)
      | Some signer \<Rightarrow>
          append_loop h cfg signer (append_attempts cfg) (map envs [0..<nat (append_attempts cfg)]) t)"

section \<open>Migration of tables without sequence numbers\<close>

definition previous_of :: "receipt_row \<Rightarrow> string" where
  "previous_of row = (case rr_previous row of None \<Rightarrow> [] | Some p \<Rightarrow> p)"

definition with_previous :: "receipt_row list \<Rightarrow> string \<Rightarrow> receipt_row list" where
  "with_previous nodes p = filter (\<lambda>n. previous_of n = p) nodes"

definition set_sequence :: "receipt_row \<Rightarrow> int \<Rightarrow> receipt_table \<Rightarrow> receipt_table" where
  "set_sequence node seq t =
     map (\<lambda>row. if rr_receipt_id row = rr_receipt_id node
                then row\<lparr>rr_seq := seq, rr_data := (rr_data node)\<lparr>rc_SequenceNumber := seq\<rparr>\<rparr> else row) t"

fun backfill_walk ::
  "go_host \<Rightarrow> receipt_row list \<Rightarrow> nat \<Rightarrow> int \<Rightarrow> receipt_row \<Rightarrow> string list \<Rightarrow> receipt_table \<Rightarrow>
   chain_error + string list \<times> receipt_table" where
  "backfill_walk h nodes 0 seq cur visited t = Inr (visited, t)"
| "backfill_walk h nodes (Suc n) seq cur visited t =
     (if rr_receipt_id cur \<in> set visited then Inl ErrChainBroken
      else let visited' = rr_receipt_id cur # visited; t' = set_sequence cur seq t in
        if n = 0 then Inr (visited', t')
        else if rr_executor_signature cur = [] then Inl ErrChainBroken
        else case with_previous nodes (gh_sha h (rr_executor_signature cur)) of
               [] \<Rightarrow> Inl ErrChainBroken
             | nx # _ \<Rightarrow> backfill_walk h nodes n (seq + 1) nx visited' t')"

definition backfillPairSequence ::
  "go_host \<Rightarrow> string \<times> string \<Rightarrow> receipt_table \<Rightarrow> chain_error + receipt_table" where
  "backfillPairSequence h p t =
     (let nodes = pair_rows (fst p) (snd p) t in
      if nodes = [] then Inr t
      else case with_previous nodes [] of
             [root] \<Rightarrow>
               if list_ex (\<lambda>n. length (with_previous nodes (previous_of n)) > 1) nodes then Inl ErrChainBroken
               else (case backfill_walk h nodes (length nodes) 1 root [] t of
                       Inl e \<Rightarrow> Inl e
                     | Inr (visited, t') \<Rightarrow>
                         if length visited \<noteq> length nodes then Inl ErrChainBroken else Inr t')
           | _ \<Rightarrow> Inl ErrChainBroken)"

fun backfill_pairs :: "go_host \<Rightarrow> (string \<times> string) list \<Rightarrow> receipt_table \<Rightarrow> chain_error + receipt_table" where
  "backfill_pairs h [] t = Inr t"
| "backfill_pairs h (p # ps) t =
     (case backfillPairSequence h p t of Inl e \<Rightarrow> Inl e | Inr t' \<Rightarrow> backfill_pairs h ps t')"

definition table_pairs :: "receipt_table \<Rightarrow> (string \<times> string) list" where
  "table_pairs t = remdups (map (\<lambda>row. (rr_emitter row, rr_executor row)) t)"

definition backfillReceiptSequences :: "go_host \<Rightarrow> receipt_table \<Rightarrow> chain_error + receipt_table" where
  "backfillReceiptSequences h t = backfill_pairs h (table_pairs t) t"

definition row_pair_seq :: "receipt_row \<Rightarrow> string \<times> string \<times> int" where
  "row_pair_seq row = (rr_emitter row, rr_executor row, rr_seq row)"

definition migrateSeqSchema ::
  "go_host \<Rightarrow> db_fault \<Rightarrow> bool \<Rightarrow> receipt_table \<Rightarrow> chain_error option \<times> receipt_table" where
  "migrateSeqSchema h io seqColumn t =
     (if io \<noteq> NoFault then (Some (ErrDatabase io), t)
      else case (if seqColumn then Inr t else backfillReceiptSequences h (map (\<lambda>row. row\<lparr>rr_seq := 0\<rparr>) t)) of
             Inl e \<Rightarrow> (Some e, t)
           | Inr t' \<Rightarrow>
               if distinct (map row_pair_seq t') \<and> distinct (map rr_contract_id t') then (None, t')
               else (Some ErrUniqueIndex, t))"

end
