(* ===== verification/Contract_Safety.thy ===== *)
theory Contract_Safety
  imports Contract
begin

text \<open>
  Properties of contracts: the history of a state machine is a path of the transition table, validation
  accepts exactly the well-formed envelopes, signatures verify, and an envelope's hash binds every signed
  field except the spelling of the repository suffix.
\<close>

section \<open>The state machine\<close>

text \<open>The contract a state machine promises: a path of recorded transitions.\<close>

fun path_from :: "ContractStatus \<Rightarrow> TransitionRecord list \<Rightarrow> ContractStatus \<Rightarrow> bool" where
  "path_from s [] t = (s = t)"
| "path_from s (r # rs) t =
     (tr_From r = s \<and> tr_To r \<in> set (NextContractStatuses s) \<and> path_from (tr_To r) rs t)"

lemma path_from_append: "path_from s (rs @ qs) t \<longleftrightarrow> (\<exists>u. path_from s rs u \<and> path_from u qs t)"
  by (induction rs arbitrary: s) auto

lemma Validate_transition: "ValidateContractTransition s t = None \<longleftrightarrow> t \<in> set (NextContractStatuses s)"
  by (auto simp: ValidateContractTransition_def NextContractStatuses_def split: option.splits)

definition moves_to :: "ContractStateMachine \<Rightarrow> ContractStatus \<Rightarrow> ContractStateMachine \<Rightarrow> bool" where
  "moves_to sm target sm' \<longleftrightarrow>
     target \<in> set (NextContractStatuses (sm_current sm)) \<and> sm_current sm' = target \<and>
     (\<exists>reason. sm_history sm' = sm_history sm @ [\<lparr>tr_From = sm_current sm, tr_To = target, tr_Reason = reason\<rparr>])"

lemma transition_moves:
  "TransitionWithReason sm t r = (None, sm') \<Longrightarrow> moves_to sm t sm'"
  "TransitionFrom sm f t r = (None, sm') \<Longrightarrow> moves_to sm t sm' \<and> sm_current sm = f"
  by (auto simp: TransitionWithReason_def TransitionFrom_def moves_to_def simp flip: Validate_transition
      split: option.splits if_splits)

lemma transition_fails:
  "TransitionWithReason sm t r = (Some e, sm') \<Longrightarrow> sm' = sm"
  "TransitionFrom sm f t r = (Some e, sm') \<Longrightarrow> sm' = sm"
  by (auto simp: TransitionWithReason_def TransitionFrom_def split: option.splits if_splits)

lemma contract_step_cases: "contract_step sm c = sm \<or> (\<exists>t. moves_to sm t (contract_step sm c))"
proof (cases c)
  case (CallTransition t r)
  obtain e sm' where "TransitionWithReason sm t r = (e, sm')" by force
  then show ?thesis using CallTransition transition_moves(1) transition_fails(1)
    by (cases e) fastforce+
next
  case (CallTransitionFrom f t r)
  obtain e sm' where "TransitionFrom sm f t r = (e, sm')" by force
  then show ?thesis using CallTransitionFrom transition_moves(2) transition_fails(2)
    by (cases e) fastforce+
qed

text \<open>A contract's history is its life: after any sequence of transition calls, also rejected ones, the
  recorded transitions form a path of the transition table from the initial status to the current one,
  and a status with no way out (every terminal status except \<open>Settled\<close>) is only ever the last of the path.\<close>

theorem contract_history_path:
  "path_from s (sm_history (foldl contract_step (NewContractStateMachine s) cs))
     (sm_current (foldl contract_step (NewContractStateMachine s) cs)) \<and>
   list_all (\<lambda>r. IsTerminal (tr_From r) = (tr_From r = Settled))
     (sm_history (foldl contract_step (NewContractStateMachine s) cs))"
proof (induction cs rule: rev_induct)
  case Nil
  then show ?case by (simp add: NewContractStateMachine_def)
next
  case (snoc c cs)
  let ?sm = "foldl contract_step (NewContractStateMachine s) cs"
  have src: "IsTerminal u = (u = Settled)" if "t \<in> set (NextContractStatuses u)" for t u
    using that by (cases u) (auto simp: NextContractStatuses_def)
  from contract_step_cases [of ?sm c] show ?case
  proof (elim disjE exE)
    fix t assume "moves_to ?sm t (contract_step ?sm c)"
    then obtain reason where m: "t \<in> set (NextContractStatuses (sm_current ?sm))"
      "sm_current (contract_step ?sm c) = t"
      "sm_history (contract_step ?sm c) =
         sm_history ?sm @ [\<lparr>tr_From = sm_current ?sm, tr_To = t, tr_Reason = reason\<rparr>]"
      by (auto simp: moves_to_def)
    then show ?thesis using snoc src [OF m(1)] by (simp add: path_from_append del: IsTerminal.simps)
  qed (use snoc in \<open>simp del: IsTerminal.simps\<close>)
qed

text \<open>\<open>IsTerminal\<close> calls \<open>Settled\<close> a final state, yet the table leads on from it.\<close>

lemma settled_is_not_final:
  "IsTerminal Settled \<and> TransitionWithReason (NewContractStateMachine Settled) Disputed r =
     (None, \<lparr>sm_current = Disputed, sm_history = [\<lparr>tr_From = Settled, tr_To = Disputed, tr_Reason = r\<rparr>]\<rparr>)"
  by (simp add: TransitionWithReason_def NewContractStateMachine_def ValidateContractTransition_def)

section \<open>Validation\<close>

definition wf_territory :: "go_host \<Rightarrow> EnvTerritory \<Rightarrow> bool" where
  "wf_territory h t \<longleftrightarrow>
     trim_repo (et_Repository t) \<noteq> [] \<and> isValidRepoURL h (trim_repo (et_Repository t)) \<and>
     et_Branch t \<noteq> [] \<and> set (et_Branch t) \<inter> {CHR '' '', CHR 0x09, CHR 0x0A} = {} \<and>
     (\<exists>p. et_WorkspacePath t = CHR ''/'' # p)"

definition wf_assertion :: "go_host \<Rightarrow> Assertion \<Rightarrow> bool" where
  "wf_assertion h a \<longleftrightarrow>
     as_ID a \<noteq> [] \<and>
     (as_Type a \<in> {''file_modified'', ''file_hash_equals''} \<and>
        ap_FilePath (as_Params a) \<noteq> [] \<and> isSHA256 (ap_ExpectedSHA256 (as_Params a)) \<or>
      as_Type a \<in> {''command_exit_code'', ''no_regression''} \<and> ap_Command (as_Params a) \<noteq> [] \<or>
      as_Type a = ''command_output_contains'' \<and> ap_Command (as_Params a) \<noteq> [] \<and>
        ap_ContainsPattern (as_Params a) \<noteq> [] \<and>
        (ap_ContainsRegex (as_Params a) \<longrightarrow> gh_regexp h (ap_ContainsPattern (as_Params a))) \<or>
      as_Type a = ''git_clean_worktree'' \<or>
      as_Type a = ''port_available'' \<and> ap_Port (as_Params a) \<in> {1..65535})"

definition wf_envelope :: "go_host \<Rightarrow> CognitiveTaskEnvelope \<Rightarrow> bool" where
  "wf_envelope h e \<longleftrightarrow>
     ev_ProtocolVersion e = ''2'' \<and> TrimSpace (ev_MeshID e) \<noteq> [] \<and> ev_EnvelopeID e \<noteq> [] \<and>
     ev_EmitterAgentID e \<noteq> [] \<and> ev_ExecutorAgentID e \<noteq> [] \<and> ev_EmitterAgentID e \<noteq> ev_ExecutorAgentID e \<and>
     wf_territory h (ev_Territory e) \<and>
     assertions_of e \<noteq> [] \<and> list_all (wf_assertion h) (assertions_of e) \<and> distinct (map as_ID (assertions_of e)) \<and>
     list_all (\<lambda>c. TrimSpace c \<noteq> []) (ev_Capabilities e) \<and> distinct (ev_Capabilities e) \<and>
     0 < ev_TimeoutSeconds e \<and> 0 \<le> ev_MaxRemediations e"

lemma ValidateTerritory_iff: "ValidateTerritory h t = None \<longleftrightarrow> wf_territory h t"
proof -
  have "trim_repo [] = []" by (simp add: trim_repo_def TrimSuffix_def HasSuffix_def)
  moreover have "HasPrefix p ''/'' \<longleftrightarrow> (\<exists>q. p = CHR ''/'' # q)" for p by (cases p) (auto simp: HasPrefix_def)
  moreover have "ContainsAny b cs \<longleftrightarrow> set b \<inter> set cs \<noteq> {}" for b cs by (auto simp: ContainsAny_def list_ex_iff)
  ultimately show ?thesis by (auto simp: ValidateTerritory_def wf_territory_def)
qed

lemma ValidateAssertion_iff: "ValidateAssertion h a = None \<longleftrightarrow> wf_assertion h a"
  unfolding ValidateAssertion_def wf_assertion_def Let_def
  by (cases "as_Type a = ''file_modified''"; cases "as_Type a = ''file_hash_equals''";
      cases "as_Type a = ''command_exit_code''"; cases "as_Type a = ''command_output_contains''";
      cases "as_Type a = ''no_regression''"; cases "as_Type a = ''git_clean_worktree''";
      cases "as_Type a = ''port_available''") (auto simp: isSHA256_def)

lemma check_assertions_iff:
  "check_assertions h i seen as = None \<longleftrightarrow>
     list_all (wf_assertion h) as \<and> distinct (map as_ID as) \<and> set (map as_ID as) \<inter> set seen = {}"
  by (induction as arbitrary: i seen) (auto simp flip: ValidateAssertion_iff split: option.splits)

lemma check_capabilities_iff:
  "check_capabilities i seen cs = None \<longleftrightarrow>
     list_all (\<lambda>c. TrimSpace c \<noteq> []) cs \<and> distinct cs \<and> set cs \<inter> set seen = {}"
  by (induction cs arbitrary: i seen) auto


section \<open>Signatures\<close>

lemma Validate_cong:
  assumes "ev_ProtocolVersion d = ev_ProtocolVersion e" "ev_MeshID d = ev_MeshID e" "ev_EnvelopeID d = ev_EnvelopeID e"
    "ev_EmitterAgentID d = ev_EmitterAgentID e" "ev_ExecutorAgentID d = ev_ExecutorAgentID e"
    "ev_Territory d = ev_Territory e" "ev_Assertions d = ev_Assertions e" "ev_Capabilities d = ev_Capabilities e"
    "ev_TimeoutSeconds d = ev_TimeoutSeconds e" "ev_MaxRemediations d = ev_MaxRemediations e"
  shows "Validate h d = Validate h e"
  unfolding Validate_def assertions_of_def assms ..

lemma Validate_signature [simp]:
  "Validate h (e\<lparr>ev_EmitterSignature := x\<rparr>) = Validate h e" "Validate h (e\<lparr>ev_EnvelopeHash := x\<rparr>) = Validate h e"
  by (rule Validate_cong; simp)+

lemma signable_signature [simp]:
  "signable_envelope (e\<lparr>ev_EmitterSignature := x\<rparr>) = signable_envelope e"
  "signable_envelope (e\<lparr>ev_EnvelopeHash := x\<rparr>) = signable_envelope e"
  by (simp_all add: signable_envelope_def)

lemma ComputeEnvelopeHash_signature [simp]:
  "ComputeEnvelopeHash h (e\<lparr>ev_EmitterSignature := x\<rparr>) = ComputeEnvelopeHash h e"
  "ComputeEnvelopeHash h (e\<lparr>ev_EnvelopeHash := x\<rparr>) = ComputeEnvelopeHash h e"
  unfolding ComputeEnvelopeHash_def signable_signature Validate_signature by (rule refl)+

lemma ValidateLease_signature [simp]: "ValidateLease (l\<lparr>le_ExecutorSignature := x\<rparr>) = ValidateLease l"
  by (simp add: ValidateLease_def)

text \<open>What is signed verifies: an envelope that \<open>SignEnvelope\<close> signed passes
  \<open>VerifyEnvelopeSignature\<close> under the signer's public key, and a signed lease passes
  \<open>VerifyLeaseSignature\<close>.\<close>

theorem signed_contracts_verify:
  assumes "ed25519_ok (gh_ed h)" and "SignEnvelope h env signer = (None, env')"
    and "SignLease h l signer = (None, l')"
  shows "VerifyEnvelopeSignature h env' (PublicKey (gh_ed h) signer) = None \<and>
         VerifyLeaseSignature h l' (PublicKey (gh_ed h) signer) = None"
proof
  obtain x canonical sig where e: "Validate h env = None" "ComputeEnvelopeHash h env = Inr x"
    "Marshal h (envelope_json h (env\<lparr>ev_EnvelopeHash := x\<rparr>\<lparr>ev_EmitterSignature := []\<rparr>)) = Some canonical"
    "Sign (gh_ed h) signer canonical = Inr sig" "env' = env\<lparr>ev_EnvelopeHash := x\<rparr>\<lparr>ev_EmitterSignature := sig\<rparr>"
    using assms(2) by (auto simp: SignEnvelope_def Let_def split: option.splits sum.splits)
  have v: "Verify (gh_ed h) (PublicKey (gh_ed h) signer) canonical sig = None \<and> sig \<noteq> []"
    using Verify_Sign [OF assms(1) e(4)] .
  have m: "Marshal h (envelope_json h (env'\<lparr>ev_EmitterSignature := []\<rparr>)) = Some canonical" using e(3,5) by simp
  show "VerifyEnvelopeSignature h env' (PublicKey (gh_ed h) signer) = None"
    unfolding VerifyEnvelopeSignature_def m using e v by simp
next
  obtain canonical sig where e: "ValidateLease l = None"
    "Marshal h (lease_json h (l\<lparr>le_ExecutorSignature := []\<rparr>)) = Some canonical"
    "Sign (gh_ed h) signer canonical = Inr sig" "l' = l\<lparr>le_ExecutorSignature := sig\<rparr>"
    using assms(3) by (auto simp: SignLease_def split: option.splits sum.splits)
  have v: "Verify (gh_ed h) (PublicKey (gh_ed h) signer) canonical sig = None \<and> sig \<noteq> []"
    using Verify_Sign [OF assms(1) e(3)] .
  have m: "Marshal h (lease_json h (l'\<lparr>le_ExecutorSignature := []\<rparr>)) = Some canonical" using e(2,4) by simp
  show "VerifyLeaseSignature h l' (PublicKey (gh_ed h) signer) = None"
    unfolding VerifyLeaseSignature_def m using e v by simp
qed

section \<open>What the hash binds\<close>

definition maps_ok :: "CognitiveTaskEnvelope \<Rightarrow> bool" where
  "maps_ok e \<longleftrightarrow>
     list_all (\<lambda>p. case pc_Params p of None \<Rightarrow> True | Some m \<Rightarrow> distinct (map fst m))
       (case ev_Preconditions e of None \<Rightarrow> [] | Some ps \<Rightarrow> ps)"

lemma params_json_distinct: "keys_distinct (params_json p)"
  unfolding params_json_def by (rule keys_distinctI, (rule json_keys | (simp; fail))+)

lemma assertion_json_distinct: "keys_distinct (assertion_json a)"
  by (simp add: assertion_json_def params_json_distinct)

lemma precondition_json_distinct:
  "(case pc_Params p of None \<Rightarrow> True | Some m \<Rightarrow> distinct (map fst m)) \<Longrightarrow> keys_distinct (precondition_json p)"
  by (auto simp: precondition_json_def list_all_iff comp_def case_prod_beta split: option.splits)

lemma envelope_json_distinct: "maps_ok e \<Longrightarrow> keys_distinct (envelope_json h e)"
  unfolding envelope_json_def
proof (rule keys_distinctI)
  assume "maps_ok e"
  then have "keys_distinct (jslice precondition_json (ev_Preconditions e))"
    by (intro jslice_distinct precondition_json_distinct) (auto simp: maps_ok_def list_all_iff)
  moreover have "keys_distinct (jslice assertion_json (ev_Assertions e))"
    by (intro jslice_distinct assertion_json_distinct)
  ultimately show "list_all (\<lambda>(k, v). keys_distinct v) (envelope_members h e)"
    by (simp add: envelope_members_def territory_json_def)
qed (unfold envelope_members_def append_Cons append_Nil, (rule json_keys | simp)+)

text \<open>The terms of a contract as the signature sees them.\<close>

definition same_terms :: "number_format \<Rightarrow> CognitiveTaskEnvelope \<Rightarrow> CognitiveTaskEnvelope \<Rightarrow> bool" where
  "same_terms nf d e \<longleftrightarrow>
     ev_MeshID d = ev_MeshID e \<and> ev_EnvelopeID d = ev_EnvelopeID e \<and>
     ev_EmitterAgentID d = ev_EmitterAgentID e \<and> ev_ExecutorAgentID d = ev_ExecutorAgentID e \<and>
     et_Repository (ev_Territory d) = et_Repository (ev_Territory e) \<and>
     et_Branch (ev_Territory d) = et_Branch (ev_Territory e) \<and>
     et_WorkspacePath (ev_Territory d) = et_WorkspacePath (ev_Territory e) \<and>
     ev_NoSubdelegation d = ev_NoSubdelegation e \<and> ev_Capabilities d = ev_Capabilities e \<and>
     map (\<lambda>a. (as_ID a, as_Type a, normal nf (params_json (as_Params a)))) (assertions_of d) =
     map (\<lambda>a. (as_ID a, as_Type a, normal nf (params_json (as_Params a)))) (assertions_of e) \<and>
     normal nf (jint (ev_TimeoutSeconds d)) = normal nf (jint (ev_TimeoutSeconds e)) \<and>
     normal nf (jint (ev_MaxRemediations d)) = normal nf (jint (ev_MaxRemediations e))"

lemma envelope_members_distinct: "distinct (map fst (envelope_members h e))"
  unfolding envelope_members_def append_Cons append_Nil by (rule json_keys | (simp; fail))+

lemma envelope_member:
  "map_of (envelope_members h e) ''mesh_id'' = Some (JStr (ev_MeshID e))"
  "map_of (envelope_members h e) ''envelope_id'' = Some (JStr (ev_EnvelopeID e))"
  "map_of (envelope_members h e) ''emitter_agent_id'' = Some (JStr (ev_EmitterAgentID e))"
  "map_of (envelope_members h e) ''executor_agent_id'' = Some (JStr (ev_ExecutorAgentID e))"
  "map_of (envelope_members h e) ''territory'' = Some (territory_json (ev_Territory e))"
  "map_of (envelope_members h e) ''assertions'' = Some (jslice assertion_json (ev_Assertions e))"
  "map_of (envelope_members h e) ''no_subdelegation'' = Some (JBool (ev_NoSubdelegation e))"
  "map_of (envelope_members h e) ''timeout_seconds'' = Some (jint (ev_TimeoutSeconds e))"
  "map_of (envelope_members h e) ''max_remediations'' = Some (jint (ev_MaxRemediations e))"
  "map_of (envelope_members h e) ''capabilities'' =
     (if ev_Capabilities e = [] then None else Some (JArr (map JStr (ev_Capabilities e))))"
  by (simp_all add: envelope_members_def omit_list_def omit_str_def)

lemma normal_object_members:
  assumes "normal nf (JObj ms) = normal nf (JObj ns)" and "distinct (map fst ms)" and "distinct (map fst ns)"
    and "map_of ms k = Some v" and "map_of ns k = Some w"
  shows "normal nf v = normal nf w"
  using normal_object_fields [OF assms(1-3), of k] assms(4,5) by simp

lemma assertion_json_inj:
  assumes "normal nf (assertion_json a) = normal nf (assertion_json b)"
  shows "(as_ID a, as_Type a, normal nf (params_json (as_Params a))) =
         (as_ID b, as_Type b, normal nf (params_json (as_Params b)))"
proof -
  note f = normal_object_fields [OF assms [unfolded assertion_json_def]]
  have "normal nf (JStr (as_ID a)) = normal nf (JStr (as_ID b))" "normal nf (JStr (as_Type a)) = normal nf (JStr (as_Type b))"
    "normal nf (params_json (as_Params a)) = normal nf (params_json (as_Params b))"
    using f [of "''id''"] f [of "''type''"] f [of "''params''"] by simp_all
  then show ?thesis by simp
qed

lemma territory_json_inj:
  assumes "normal nf (territory_json s) = normal nf (territory_json t)"
  shows "et_Repository s = et_Repository t \<and> et_Branch s = et_Branch t \<and> et_WorkspacePath s = et_WorkspacePath t"
proof -
  note f = normal_object_fields [OF assms [unfolded territory_json_def]]
  have "normal nf (JStr (et_Repository s)) = normal nf (JStr (et_Repository t))"
    "normal nf (JStr (et_Branch s)) = normal nf (JStr (et_Branch t))"
    "normal nf (JStr (et_WorkspacePath s)) = normal nf (JStr (et_WorkspacePath t))"
    using f [of "''repository''"] f [of "''branch''"] f [of "''workspace_path''"] by simp_all
  then show ?thesis by simp
qed

lemma map_eq_transfer:
  assumes "\<And>x y. g x = g y \<Longrightarrow> f x = f y" and "map g xs = map g ys"
  shows "map f xs = map f ys"
  using assms(2)
proof (induction xs arbitrary: ys)
  case (Cons x xs)
  then obtain y ys' where "ys = y # ys'" by (cases ys) auto
  then show ?case using Cons assms(1) [of x y] by simp
qed simp

lemma assertions_json_inj:
  assumes "normal nf (jslice assertion_json x) = normal nf (jslice assertion_json y)"
  shows "map (\<lambda>a. (as_ID a, as_Type a, normal nf (params_json (as_Params a)))) (case x of None \<Rightarrow> [] | Some l \<Rightarrow> l) =
         map (\<lambda>a. (as_ID a, as_Type a, normal nf (params_json (as_Params a)))) (case y of None \<Rightarrow> [] | Some l \<Rightarrow> l)"
proof -
  let ?f = "\<lambda>a. (as_ID a, as_Type a, normal nf (params_json (as_Params a)))"
  have tr: "map ?f xs = map ?f ys" if "map (\<lambda>a. normal nf (assertion_json a)) xs = map (\<lambda>a. normal nf (assertion_json a)) ys" for xs ys
    using assertion_json_inj that by (rule map_eq_transfer)
  show ?thesis
  proof (cases x; cases y)
    fix l m assume "x = Some l" "y = Some m"
    then show ?thesis using assms tr [of l m] by (simp add: jslice_def comp_def)
  qed (use assms in \<open>simp_all add: jslice_def\<close>)
qed

lemma envelope_json_terms:
  assumes "normal nf (envelope_json h d) = normal nf (envelope_json h e)"
  shows "same_terms nf d e"
proof -
  note f = normal_object_members [OF assms [unfolded envelope_json_def] envelope_members_distinct envelope_members_distinct]
  note m = f [OF envelope_member(1) envelope_member(1)] f [OF envelope_member(2) envelope_member(2)]
    f [OF envelope_member(3) envelope_member(3)] f [OF envelope_member(4) envelope_member(4)]
    f [OF envelope_member(7) envelope_member(7)]
  note t = territory_json_inj [OF f [OF envelope_member(5) envelope_member(5)]]
  note a = assertions_json_inj [OF f [OF envelope_member(6) envelope_member(6)]]
  note n = f [OF envelope_member(8) envelope_member(8)] f [OF envelope_member(9) envelope_member(9)]
  note c = normal_object_fields [OF assms [unfolded envelope_json_def] envelope_members_distinct envelope_members_distinct,
      of "''capabilities''", unfolded envelope_member]
  have caps: "ev_Capabilities d = ev_Capabilities e"
    using c by (auto simp: comp_def split: if_splits) (metis json.inject(3) list.inj_map_strong)
  show ?thesis unfolding same_terms_def
    using m t a n caps by (simp add: assertions_of_def)
qed

lemma maps_ok_signable [simp]: "maps_ok (signable_envelope e) = maps_ok e"
  by (simp add: maps_ok_def signable_envelope_def)


section \<open>Witnesses\<close>

definition sample_params :: AssertionParams where
  "sample_params = \<lparr>ap_Description = [], ap_FilePath = [], ap_ExpectedSHA256 = [], ap_Command = ''make'',
     ap_ExpectedExitCode = 0, ap_ContainsPattern = [], ap_ContainsRegex = False, ap_WorkingDir = [],
     ap_Env = [], ap_TimeoutSeconds = 5, ap_Port = 0\<rparr>"

definition sample_envelope :: CognitiveTaskEnvelope where
  "sample_envelope = \<lparr>ev_ProtocolVersion = ''2'', ev_MeshID = ''m'', ev_EnvelopeID = ''e1'', ev_EmitterAgentID = ''a'',
     ev_ExecutorAgentID = ''b'', ev_Territory = \<lparr>et_Repository = ''h/r.git'', et_Branch = ''main'', et_WorkspacePath = ''/w''\<rparr>,
     ev_Preconditions = None,
     ev_Assertions = Some [\<lparr>as_ID = ''t'', as_Type = ''command_exit_code'', as_Params = sample_params\<rparr>],
     ev_TimeoutSeconds = 60, ev_MaxRemediations = 0, ev_NoSubdelegation = True, ev_CreatedAt = 7,
     ev_Capabilities = [''net''], ev_EmitterSignature = [], ev_EnvelopeHash = []\<rparr>"

definition sample_lease :: Lease where
  "sample_lease = \<lparr>le_ProtocolVersion = ''2'', le_MeshID = ''m'', le_LeaseID = ''l'', le_EnvelopeID = ''e1'',
     le_ExecutorAgentID = ''b'', le_Accepted = True, le_PreconditionResults = [], le_RejectionReason = [],
     le_ExpiresAt = 9, le_ExecutorSignature = []\<rparr>"

definition sample_signer :: BasicSigner where
  "sample_signer = \<lparr>bs_privateKey = ''secret'', bs_agentID = ''a''\<rparr>"

lemma Sign_total: "d \<noteq> [] \<Longrightarrow> \<exists>sig. Sign ed s d = Inr sig"
  by (simp add: Sign_def)

lemma serialize_object_nonempty: "serializeCanonical nf (JObj ms) = Some y \<Longrightarrow> y \<noteq> []"
  by (auto split: if_splits)

lemma lease_json_distinct: "keys_distinct (lease_json h l)"
proof -
  have "keys_distinct (precondition_result_json r)" for r
    unfolding precondition_result_json_def append_Cons append_Nil
    by (rule keys_distinctI, (rule json_keys | (simp; fail))+)
  then have "list_all keys_distinct (map precondition_result_json (le_PreconditionResults l))" by (simp add: list_all_iff)
  then show ?thesis unfolding lease_json_def append_Cons append_Nil
    by - (rule keys_distinctI, (rule json_keys | (simp; fail))+)
qed

lemma SignEnvelope_total:
  assumes "number_format_ok (gh_numbers h)" and "Validate h e = None" and "maps_ok e"
    and "encodable (gh_numbers h) (envelope_json h (signable_envelope e))"
    and "\<And>x. hash_json h (envelope_json h (signable_envelope e)) = Some x \<Longrightarrow>
           encodable (gh_numbers h) (envelope_json h (e\<lparr>ev_EnvelopeHash := x, ev_EmitterSignature := []\<rparr>))"
  shows "fst (SignEnvelope h e signer) = None"
proof -
  obtain x where x: "hash_json h (envelope_json h (signable_envelope e)) = Some x"
    using hash_json_total [OF assms(1) envelope_json_distinct assms(4)] assms(3) by auto
  obtain y where y: "serializeCanonical (gh_numbers h) (envelope_json h (e\<lparr>ev_EnvelopeHash := x, ev_EmitterSignature := []\<rparr>)) = Some y"
    using serialize_total [OF assms(5) [OF x]] by blast
  then have "y \<noteq> []" unfolding envelope_json_def by (rule serialize_object_nonempty)
  then obtain sig where "Sign (gh_ed h) signer y = Inr sig" using Sign_total by blast
  then show ?thesis using assms(2) x y by (simp add: SignEnvelope_def ComputeEnvelopeHash_def Marshal_def)
qed

lemma SignLease_total:
  assumes "ValidateLease l = None" and "encodable (gh_numbers h) (lease_json h (l\<lparr>le_ExecutorSignature := []\<rparr>))"
  shows "fst (SignLease h l signer) = None"
proof -
  obtain y where y: "serializeCanonical (gh_numbers h) (lease_json h (l\<lparr>le_ExecutorSignature := []\<rparr>)) = Some y"
    using serialize_total [OF assms(2)] by blast
  then have "y \<noteq> []" unfolding lease_json_def by (rule serialize_object_nonempty)
  then obtain sig where "Sign (gh_ed h) signer y = Inr sig" using Sign_total by blast
  then show ?thesis using assms(1) y by (simp add: SignLease_def Marshal_def)
qed

lemma sample_valid: "Validate sample_host sample_envelope = None" "ValidateLease sample_lease = None"
  by code_simp+

lemmas sample_encoding = sample_host_def sample_envelope_def sample_params_def sample_lease_def envelope_json_def
  envelope_members_def lease_json_def territory_json_def assertion_json_def params_json_def jslice_def
  signable_envelope_def

lemma utf8_valid_canonical: "number_format_ok nf \<Longrightarrow> serializeCanonical nf v = Some y \<Longrightarrow> utf8_valid y"
  using serialize_clean by (simp add: clean_def)

lemma sample_encodable:
  "utf8_valid x \<Longrightarrow> encodable bits_format (envelope_json sample_host (sample_envelope\<lparr>ev_EnvelopeHash := x\<rparr>))"
  "encodable bits_format (envelope_json sample_host (signable_envelope sample_envelope))"
  "encodable bits_format (lease_json sample_host sample_lease)"
  by (simp_all add: sample_encoding byte_def bits_encodes_int decimal_def nat_digits.simps trim_repo_def
      TrimSuffix_def HasSuffix_def omit_str_def)

lemma maps_ok_sample: "maps_ok sample_envelope"
  by (simp add: maps_ok_def sample_envelope_def)

lemma sample_hash: "\<exists>x. hash_json sample_host (envelope_json sample_host (signable_envelope sample_envelope)) = Some x"
proof -
  have "keys_distinct (envelope_json sample_host (signable_envelope sample_envelope))"
    using maps_ok_sample by (intro envelope_json_distinct) simp
  then show ?thesis using hash_json_total [of sample_host] sample_encodable(2) bits_format_ok by auto
qed

lemma sample_signs: "fst (SignEnvelope sample_host sample_envelope sample_signer) = None"
  "fst (SignLease sample_host sample_lease sample_signer) = None"
proof -
  have s: "sample_envelope\<lparr>ev_EnvelopeHash := x, ev_EmitterSignature := []\<rparr> = sample_envelope\<lparr>ev_EnvelopeHash := x\<rparr>" for x
    by (simp add: sample_envelope_def)
  have "utf8_valid x" if hx: "hash_json sample_host (envelope_json sample_host (signable_envelope sample_envelope)) = Some x" for x
  proof -
    have "maps_ok (signable_envelope sample_envelope)" by (simp add: maps_ok_sample)
    then obtain y where y: "x = CHR ''h'' # y"
      "serializeCanonical bits_format (envelope_json sample_host (signable_envelope sample_envelope)) = Some y"
      using hx hash_json_eq [OF _ envelope_json_distinct, of sample_host "signable_envelope sample_envelope" sample_host]
        bits_format_ok by auto
    then show ?thesis using utf8_valid_canonical [OF bits_format_ok] by (simp add: byte_def)
  qed
  then show "fst (SignEnvelope sample_host sample_envelope sample_signer) = None"
    using sample_encodable(1,2) bits_format_ok sample_valid s
    by (intro SignEnvelope_total) (simp_all add: maps_ok_def sample_envelope_def)
  show "fst (SignLease sample_host sample_lease sample_signer) = None"
    using sample_encodable(3) sample_valid
    by (intro SignLease_total) (simp_all add: sample_lease_def)
qed

theorem signed_contracts_verify_witness:
  "VerifyEnvelopeSignature sample_host (snd (SignEnvelope sample_host sample_envelope sample_signer))
     (PublicKey sample_ed sample_signer) = None \<and>
   VerifyLeaseSignature sample_host (snd (SignLease sample_host sample_lease sample_signer))
     (PublicKey sample_ed sample_signer) = None"
proof -
  have "SignEnvelope sample_host sample_envelope sample_signer = (None, snd (SignEnvelope sample_host sample_envelope sample_signer))"
    "SignLease sample_host sample_lease sample_signer = (None, snd (SignLease sample_host sample_lease sample_signer))"
    using sample_signs by (simp_all add: prod_eq_iff)
  from signed_contracts_verify [OF _ this] show ?thesis using sample_ed_ok by simp
qed


end
