(* ===== verification/Receipt_Safety.thy ===== *)
theory Receipt_Safety
  imports Receipt_Chain Contract_Safety "HOL-Library.Sublist"
begin

text \<open>
  The receipt chain is an append-only, numbered and linked log per agent pair, whatever callers pass to
  \<open>SaveReceipt\<close>, and a chain built by concurrent signed appends and counter-signed decisions verifies. A chain
  that verifies cannot be a rearrangement of other receipts of the same executor.
\<close>

section \<open>Numbered and linked chains\<close>

fun linked :: "go_host \<Rightarrow> string \<Rightarrow> SettlementReceipt list \<Rightarrow> bool" where
  "linked h p [] = True"
| "linked h p (r # rs) = (rc_PreviousReceiptHash r = p \<and> linked h (gh_sha h (rc_ExecutorSignature r)) rs)"

fun numbered :: "int \<Rightarrow> receipt_row list \<Rightarrow> bool" where
  "numbered i [] = True"
| "numbered i (row # rows) = (rr_seq row = i \<and> numbered (i + 1) rows)"

definition pair_ok :: "go_host \<Rightarrow> receipt_table \<Rightarrow> string \<Rightarrow> string \<Rightarrow> bool" where
  "pair_ok h t em ex \<longleftrightarrow>
     numbered 1 (pair_rows em ex t) \<and> linked h [] (map rr_data (pair_rows em ex t))"

definition chain_ok :: "go_host \<Rightarrow> receipt_table \<Rightarrow> bool" where
  "chain_ok h t \<longleftrightarrow> distinct (map rr_contract_id t) \<and> (\<forall>em ex. pair_ok h t em ex)"

definition chain_end :: "go_host \<Rightarrow> string \<Rightarrow> SettlementReceipt list \<Rightarrow> string" where
  "chain_end h p rs = (if rs = [] then p else gh_sha h (rc_ExecutorSignature (last rs)))"

lemma linked_snoc: "linked h p (rs @ [r]) \<longleftrightarrow> linked h p rs \<and> rc_PreviousReceiptHash r = chain_end h p rs"
  by (induction rs arbitrary: p) (auto simp: chain_end_def)

lemma numbered_snoc: "numbered i (rows @ [row]) \<longleftrightarrow> numbered i rows \<and> rr_seq row = i + int (length rows)"
proof (induction rows arbitrary: i)
  case (Cons r rows)
  then show ?case by (simp only: append_Cons numbered.simps Cons.IH list.size(4) of_nat_Suc) linarith
qed simp

lemma numbered_le: "numbered i rows \<Longrightarrow> row \<in> set rows \<Longrightarrow> i \<le> rr_seq row \<and> rr_seq row < i + int (length rows)"
proof (induction rows arbitrary: i)
  case (Cons r rows)
  consider "row = r" | "row \<in> set rows" using Cons.prems by auto
  then show ?case
  proof cases
    case 2
    then show ?thesis using Cons.IH [of "i + 1"] Cons.prems by simp
  qed (use Cons.prems in simp)
qed simp

lemma numbered_sorted: "numbered i rows \<Longrightarrow> sorted (map (\<lambda>row. (rr_seq row, rr_executor_signed_at row)) rows)"
proof (induction rows arbitrary: i)
  case (Cons r rows)
  have "(rr_seq r, rr_executor_signed_at r) \<le> (rr_seq row, rr_executor_signed_at row)" if hr: "row \<in> set rows" for row
    using Cons.prems numbered_le [OF _ hr, of "i + 1"] by simp
  then show ?case using Cons.prems Cons.IH [of "i + 1"] by simp
qed simp

lemma numbered_nth: "numbered i rows \<Longrightarrow> j < length rows \<Longrightarrow> rr_seq (rows ! j) = i + int j"
  by (induction rows arbitrary: i j) (auto simp: nth_Cons split: nat.splits)

lemma chain_rows_id: "pair_ok h t em ex \<Longrightarrow> chain_rows em ex t = pair_rows em ex t"
  unfolding chain_rows_def pair_ok_def by (rule sort_key_id_if_sorted) (blast intro: numbered_sorted)

lemma numbered_map:
  "(\<And>row. row \<in> set rows \<Longrightarrow> rr_seq (f row) = rr_seq row) \<Longrightarrow> numbered i (map f rows) = numbered i rows"
  by (induction rows arbitrary: i) auto

lemma pair_rows_append [simp]: "pair_rows em ex (t @ u) = pair_rows em ex t @ pair_rows em ex u"
  by (simp add: pair_rows_def)

lemma pair_rows_single [simp]:
  "pair_rows em ex [row] = (if rr_emitter row = em \<and> rr_executor row = ex then [row] else [])"
  by (simp add: pair_rows_def)

lemma receipt_columns_simps [simp]:
  "rr_receipt_id (receipt_columns r n) = rc_ReceiptID r" "rr_contract_id (receipt_columns r n) = rc_ContractID r"
  "rr_emitter (receipt_columns r n) = rc_EmitterAgentID r" "rr_executor (receipt_columns r n) = rc_ExecutorAgentID r"
  "rr_data (receipt_columns r n) = r" "rr_seq (receipt_columns r n) = n"
  by (simp_all add: receipt_columns_def)

lemma expected_position_ok:
  assumes "pair_ok h t (rc_EmitterAgentID r) (rc_ExecutorAgentID r)"
  defines "rows \<equiv> pair_rows (rc_EmitterAgentID r) (rc_ExecutorAgentID r) t"
  shows "expected_position h t r =
           (if rc_PreviousReceiptHash r = chain_end h [] (map rr_data rows) then Inr (1 + int (length rows))
            else Inl ErrInvalidPreviousHash)"
proof -
  have rows: "chain_rows (rc_EmitterAgentID r) (rc_ExecutorAgentID r) t = rows"
    using chain_rows_id [OF assms(1)] by (simp add: rows_def)
  show ?thesis
  proof (cases rows rule: rev_cases)
    case (snoc rs row)
    then have "rr_seq row = 1 + int (length rs)" using assms(1) by (simp add: pair_ok_def rows_def numbered_snoc)
    then show ?thesis using rows snoc by (simp add: expected_position_def chain_end_def)
  qed (use rows in \<open>simp add: expected_position_def chain_end_def\<close>)
qed

lemma insert_row_ok:
  assumes "pair_ok h t (rr_emitter row) (rr_executor row)"
    and "rr_seq row = 1 + int (length (pair_rows (rr_emitter row) (rr_executor row) t))"
  shows "insert_row t row =
           (if rr_contract_id row \<in> set (map rr_contract_id t) then Inl ErrDuplicateContract else Inr (t @ [row]))"
proof -
  have "\<not> same_pair_seq row s" if "s \<in> set t" for s
  proof
    assume s: "same_pair_seq row s"
    then have "s \<in> set (pair_rows (rr_emitter row) (rr_executor row) t)"
      using that by (auto simp: pair_rows_def same_pair_seq_def)
    then show False using assms s numbered_le by (fastforce simp: pair_ok_def same_pair_seq_def)
  qed
  then have "\<not> list_ex (same_pair_seq row) t" by (auto simp: list_ex_iff)
  then show ?thesis unfolding insert_row_def by (auto simp: list_ex_iff) (metis rev_image_eqI)
qed

text \<open>On a well-formed table the outcome of \<open>SaveReceipt\<close> is decided by the receipt and the head of its chain.\<close>

definition may_append :: "go_host \<Rightarrow> receipt_table \<Rightarrow> SettlementReceipt \<Rightarrow> chain_error option" where
  "may_append h t r =
     (let rows = pair_rows (rc_EmitterAgentID r) (rc_ExecutorAgentID r) t in
      if rc_PreviousReceiptHash r \<noteq> chain_end h [] (map rr_data rows) then Some ErrInvalidPreviousHash
      else if rc_SequenceNumber r \<noteq> 0 \<and> rc_SequenceNumber r \<noteq> 1 + int (length rows) then Some ErrSequenceConflict
      else if rc_ContractID r \<in> set (map rr_contract_id t) then Some ErrDuplicateContract
      else None)"

definition appended :: "receipt_table \<Rightarrow> SettlementReceipt \<Rightarrow> SettlementReceipt" where
  "appended t r =
     r\<lparr>rc_SequenceNumber := 1 + int (length (pair_rows (rc_EmitterAgentID r) (rc_ExecutorAgentID r) t))\<rparr>"

lemma appended_simps [simp]:
  "rc_EmitterAgentID (appended t r) = rc_EmitterAgentID r" "rc_ExecutorAgentID (appended t r) = rc_ExecutorAgentID r"
  "rc_ReceiptID (appended t r) = rc_ReceiptID r" "rc_ContractID (appended t r) = rc_ContractID r"
  "rc_PreviousReceiptHash (appended t r) = rc_PreviousReceiptHash r"
  "rc_ExecutorSignature (appended t r) = rc_ExecutorSignature r"
  "rc_EmitterSignature (appended t r) = rc_EmitterSignature r"
  by (simp_all add: appended_def)

definition append_row :: "receipt_table \<Rightarrow> SettlementReceipt \<Rightarrow> receipt_table" where
  "append_row t r = t @ [receipt_columns (appended t r) (rc_SequenceNumber (appended t r))]"

lemma SaveReceipt_eq:
  assumes "pair_ok h t (rc_EmitterAgentID r) (rc_ExecutorAgentID r)"
  shows "fst (SaveReceipt h io t r) =
           (if ValidateReceipt r \<noteq> None then Some ErrInvalidReceipt
            else if io = FaultBegin \<or> io = FaultQuery then Some (ErrDatabase io)
            else case may_append h t r of
                   Some e \<Rightarrow> if e = ErrDuplicateContract \<and> io = FaultInsert then Some (ErrDatabase io) else Some e
                 | None \<Rightarrow> if io = NoFault then None else Some (ErrDatabase io)) \<and>
         snd (snd (SaveReceipt h io t r)) = (if fst (SaveReceipt h io t r) = None then append_row t r else t) \<and>
         (fst (SaveReceipt h io t r) = None \<longrightarrow> fst (snd (SaveReceipt h io t r)) = appended t r)"
proof -
  let ?n = "1 + int (length (pair_rows (rc_EmitterAgentID r) (rc_ExecutorAgentID r) t))"
  have ins: "insert_row t (receipt_columns (appended t r) ?n) =
      (if rc_ContractID r \<in> set (map rr_contract_id t) then Inl ErrDuplicateContract
       else Inr (t @ [receipt_columns (appended t r) ?n]))"
    using insert_row_ok [of h t "receipt_columns (appended t r) ?n"] assms by simp
  have ap: "r\<lparr>rc_SequenceNumber := ?n\<rparr> = appended t r" "rc_SequenceNumber (appended t r) = ?n"
    by (simp_all add: appended_def)
  show ?thesis
    using ins expected_position_ok [OF assms] ap
    by (cases io) (auto simp: SaveReceipt_def may_append_def append_row_def Let_def)
qed

lemma may_append_None:
  assumes "may_append h t r = None"
  shows "rc_PreviousReceiptHash r = chain_end h [] (map rr_data (pair_rows (rc_EmitterAgentID r) (rc_ExecutorAgentID r) t))"
    and "rc_ContractID r \<notin> set (map rr_contract_id t)"
  using assms by (auto simp: may_append_def Let_def split: if_splits)

lemma append_row_ok:
  assumes "chain_ok h t" and "may_append h t r = None"
  shows "chain_ok h (append_row t r)"
proof -
  have "pair_ok h (append_row t r) em ex" for em ex
    using assms(1) may_append_None(1) [OF assms(2)]
    by (auto simp: chain_ok_def pair_ok_def append_row_def numbered_snoc linked_snoc appended_def)
  then show ?thesis using assms(1) may_append_None(2) [OF assms(2)]
    by (auto simp: chain_ok_def append_row_def)
qed

lemma SaveReceipt_chain_ok:
  assumes "chain_ok h t" shows "chain_ok h (snd (snd (SaveReceipt h io t r)))"
proof -
  have p: "pair_ok h t (rc_EmitterAgentID r) (rc_ExecutorAgentID r)" using assms by (simp add: chain_ok_def)
  show ?thesis
  proof (cases "fst (SaveReceipt h io t r) = None")
    case True
    then have "may_append h t r = None" using SaveReceipt_eq [OF p, of io] by (auto split: if_splits option.splits)
    then show ?thesis using SaveReceipt_eq [OF p, of io] True append_row_ok [OF assms] by simp
  next
    case False
    then have "snd (snd (SaveReceipt h io t r)) = t" using SaveReceipt_eq [OF p, of io] by presburger
    then show ?thesis using assms by simp
  qed
qed


section \<open>Any sequence of saves\<close>

fun save_all :: "go_host \<Rightarrow> (db_fault \<times> SettlementReceipt) list \<Rightarrow> receipt_table \<Rightarrow> receipt_table" where
  "save_all h [] t = t"
| "save_all h ((io, r) # calls) t = save_all h calls (snd (snd (SaveReceipt h io t r)))"

lemma save_all_append: "save_all h (cs @ ds) t = save_all h ds (save_all h cs t)"
  by (induction cs arbitrary: t) auto

lemma chain_ok_Nil [simp]: "chain_ok h []"
  by (simp add: chain_ok_def pair_ok_def pair_rows_def)

lemma save_all_ok: "chain_ok h t \<Longrightarrow> chain_ok h (save_all h cs t)"
  by (induction cs arbitrary: t) (auto simp: SaveReceipt_chain_ok)

lemma save_all_extends: "chain_ok h t \<Longrightarrow> \<exists>u. save_all h cs t = t @ u"
proof (induction cs arbitrary: t)
  case (Cons c cs)
  obtain io r where c: "c = (io, r)" by (cases c)
  let ?t = "snd (snd (SaveReceipt h io t r))"
  have "pair_ok h t (rc_EmitterAgentID r) (rc_ExecutorAgentID r)" using Cons.prems by (simp add: chain_ok_def)
  from SaveReceipt_eq [OF this, of io] have "?t = t \<or> ?t = append_row t r" by presburger
  then obtain v where "?t = t @ v" unfolding append_row_def by (metis append_Nil2)
  moreover obtain u where "save_all h cs ?t = ?t @ u" using Cons.IH [OF SaveReceipt_chain_ok [OF Cons.prems]] by blast
  ultimately show ?case using c by simp
qed simp

lemma row_receipt_simps [simp]:
  "rc_SequenceNumber (row_receipt row) = rr_seq row"
  "rc_PreviousReceiptHash (row_receipt row) = rc_PreviousReceiptHash (rr_data row)"
  "rc_ExecutorSignature (row_receipt row) = rc_ExecutorSignature (rr_data row)"
  "rc_EmitterSignature (row_receipt row) = rc_EmitterSignature (rr_data row)"
  "rc_EmitterAcceptance (row_receipt row) = rc_EmitterAcceptance (rr_data row)"
  "rc_ReceiptID (row_receipt row) = rc_ReceiptID (rr_data row)"
  "rc_ContractID (row_receipt row) = rc_ContractID (rr_data row)"
  "rc_EmitterAgentID (row_receipt row) = rc_EmitterAgentID (rr_data row)"
  "rc_ExecutorAgentID (row_receipt row) = rc_ExecutorAgentID (rr_data row)"
  by (simp_all add: row_receipt_def)

lemma linked_row_receipt: "linked h p (map row_receipt rows) = linked h p (map rr_data rows)"
  by (induction rows arbitrary: p) simp_all

lemma GetChain_pair: "pair_ok h t em ex \<Longrightarrow> GetChain t em ex = map row_receipt (pair_rows em ex t)"
  by (simp add: GetChain_def chain_rows_id)

lemma numbered_list: "numbered i rows \<Longrightarrow> map rr_seq rows = map (\<lambda>j. i + int j) [0..<length rows]"
  by (rule nth_equalityI) (simp_all add: numbered_nth)

text \<open>C9. Whatever receipts callers save and whatever the database does to their transactions, every chain read
  back is numbered 1, 2, 3 and so on, each receipt carries the hash of its predecessor's executor signature (the first
  one none), no contract has two receipts, and later saves only extend the chains.\<close>

theorem saved_chains_ok:
  "let t = save_all h cs []; u = save_all h ds t in
     map rc_SequenceNumber (GetChain t em ex) = map (\<lambda>j. 1 + int j) [0..<Count t em ex] \<and>
     linked h [] (GetChain t em ex) \<and> distinct (map rr_contract_id t) \<and> prefix (GetChain t em ex) (GetChain u em ex)"
proof -
  let ?t = "save_all h cs []" and ?u = "save_all h ds (save_all h cs [])"
  have t: "chain_ok h ?t" and u: "chain_ok h ?u" by (simp_all add: save_all_ok)
  obtain v where v: "?u = ?t @ v" using save_all_extends [OF t] by blast
  have p: "pair_ok h ?t em ex" "pair_ok h ?u em ex" using t u by (simp_all add: chain_ok_def)
  have "map rc_SequenceNumber (GetChain ?t em ex) = map rr_seq (pair_rows em ex ?t)"
    using GetChain_pair [OF p(1)] by simp
  then have "map rc_SequenceNumber (GetChain ?t em ex) = map (\<lambda>j. 1 + int j) [0..<Count ?t em ex]"
    using numbered_list p(1) by (simp add: pair_ok_def Count_def)
  moreover have "linked h [] (GetChain ?t em ex)"
    using GetChain_pair [OF p(1)] p(1) by (simp add: linked_row_receipt pair_ok_def)
  moreover have "prefix (GetChain ?t em ex) (GetChain ?u em ex)"
    using GetChain_pair [OF p(1)] GetChain_pair [OF p(2)] v by (simp add: prefix_def)
  ultimately show ?thesis using t by (simp add: chain_ok_def)
qed

section \<open>Concurrent appends and decisions\<close>

text \<open>Writers prepare a signed receipt on the head they read and save it later; in between, other writers save and
  the emitter's decisions are recorded. Identifiers are fresh.\<close>

type_synonym chain_state = "receipt_table \<times> (nat \<Rightarrow> SettlementReceipt option) \<times> string list"

definition decided :: "SettlementReceipt \<Rightarrow> Acceptance \<Rightarrow> string \<Rightarrow> string \<Rightarrow> int option \<Rightarrow> SettlementReceipt" where
  "decided r a reason s at =
     r\<lparr>rc_EmitterAcceptance := a, rc_DisputeReason := reason, rc_EmitterSignature := s, rc_EmitterAcceptanceAt := at\<rparr>"

inductive chain_reach :: "go_host \<Rightarrow> BasicSigner \<Rightarrow> (string \<Rightarrow> string) \<Rightarrow> chain_state \<Rightarrow> bool"
  for h signer keys where
  start: "chain_reach h signer keys ([], \<lambda>_. None, [])"
| prepare: "chain_reach h signer keys (t, p, ids) \<Longrightarrow> newID \<notin> set ids \<Longrightarrow> rc_EmitterSignature rec = [] \<Longrightarrow>
    SignReceipt h now (place_receipt h cfg newID t rec) signer = (None, r) \<Longrightarrow>
    chain_reach h signer keys (t, p(w := Some r), newID # ids)"
| save: "chain_reach h signer keys (t, p, ids) \<Longrightarrow> p w = Some r \<Longrightarrow>
    chain_reach h signer keys (snd (snd (SaveReceipt h io t r)), p(w := None), ids)"
| decide: "chain_reach h signer keys (t, p, ids) \<Longrightarrow> GetReceipt t receiptID = Inr r \<Longrightarrow>
    VerifyEmitterSignature h (decided r a reason s at) (keys (rc_EmitterAgentID r)) = None \<Longrightarrow>
    chain_reach h signer keys (snd (UpdateReceipt io t (decided r a reason s at)), p, ids)"

definition row_ok :: "go_host \<Rightarrow> string \<Rightarrow> (string \<Rightarrow> string) \<Rightarrow> receipt_row \<Rightarrow> bool" where
  "row_ok h xk keys row \<longleftrightarrow>
     rc_ReceiptID (rr_data row) = rr_receipt_id row \<and> rc_ContractID (rr_data row) = rr_contract_id row \<and>
     rc_EmitterAgentID (rr_data row) = rr_emitter row \<and> rc_ExecutorAgentID (rr_data row) = rr_executor row \<and>
     check_executor h xk (rr_data row) = NoteNone \<and>
     check_emitter h (keys (rr_emitter row)) (rr_data row) = NoteNone"

definition pending_ok :: "go_host \<Rightarrow> string \<Rightarrow> SettlementReceipt \<Rightarrow> bool" where
  "pending_ok h xk r \<longleftrightarrow> check_executor h xk r = NoteNone \<and> rc_EmitterSignature r = []"

definition ids_ok :: "string list \<Rightarrow> (nat \<Rightarrow> string option) \<Rightarrow> string list \<Rightarrow> bool" where
  "ids_ok stored pending ids \<longleftrightarrow>
     distinct stored \<and> set stored \<subseteq> set ids \<and>
     (\<forall>w i. pending w = Some i \<longrightarrow> i \<in> set ids \<and> i \<notin> set stored) \<and>
     (\<forall>v w i. pending v = Some i \<longrightarrow> pending w = Some i \<longrightarrow> v = w)"

definition chain_inv :: "go_host \<Rightarrow> string \<Rightarrow> (string \<Rightarrow> string) \<Rightarrow> chain_state \<Rightarrow> bool" where
  "chain_inv h xk keys st =
     (case st of (t, p, ids) \<Rightarrow>
        chain_ok h t \<and> list_all (row_ok h xk keys) t \<and> (\<forall>w r. p w = Some r \<longrightarrow> pending_ok h xk r) \<and>
        ids_ok (map rr_receipt_id t) (map_option rc_ReceiptID \<circ> p) ids)"

lemma hash_seq [simp]:
  "ComputeReceiptHash h (r\<lparr>rc_SequenceNumber := n\<rparr>) = ComputeReceiptHash h r"
  "ComputeEmitterReceiptHash h (r\<lparr>rc_SequenceNumber := n\<rparr>) = ComputeEmitterReceiptHash h r"
  by (simp_all add: ComputeReceiptHash_def ComputeEmitterReceiptHash_def executor_view_def emitter_view_def)

lemma check_seq [simp]:
  "check_executor h k (r\<lparr>rc_SequenceNumber := n\<rparr>) = check_executor h k r"
  "check_emitter h k (r\<lparr>rc_SequenceNumber := n\<rparr>) = check_emitter h k r"
  "check_executor h k (appended t r) = check_executor h k r"
  "check_emitter h k (appended t r) = check_emitter h k r"
  "check_executor h k (row_receipt row) = check_executor h k (rr_data row)"
  "check_emitter h k (row_receipt row) = check_emitter h k (rr_data row)"
  by (simp_all add: check_executor_def check_emitter_def appended_def row_receipt_def cong: option.case_cong)

lemma check_unsigned: "rc_EmitterSignature r = [] \<Longrightarrow> check_emitter h k r = NoteNone"
  by (simp add: check_emitter_def)

lemma hash_executor_signature [simp]:
  "ComputeReceiptHash h (r\<lparr>rc_ExecutorSignature := x\<rparr>) = ComputeReceiptHash h r"
  by (simp add: ComputeReceiptHash_def executor_view_def)

lemma SignReceipt_checks:
  assumes "ed25519_ok (gh_ed h)" and "SignReceipt h now q signer = (None, r)"
  shows "check_executor h (PublicKey (gh_ed h) signer) r = NoteNone"
    and "rc_EmitterSignature r = rc_EmitterSignature q" and "rc_ReceiptID r = rc_ReceiptID q"
proof -
  obtain x sig where x: "ComputeReceiptHash h (q\<lparr>rc_ExecutorSignedAt := now\<rparr>) = Some x" "Sign (gh_ed h) signer x = Inr sig"
    "r = q\<lparr>rc_ExecutorSignedAt := now, rc_ExecutorSignature := sig\<rparr>"
    using assms(2) by (auto simp: SignReceipt_def Let_def split: option.splits sum.splits)
  have h: "ComputeReceiptHash h r = Some x"
    using x(1,3) hash_executor_signature [where r = "q\<lparr>rc_ExecutorSignedAt := now\<rparr>" and x = sig] by simp
  then show "check_executor h (PublicKey (gh_ed h) signer) r = NoteNone"
    using Verify_Sign [OF assms(1) x(2)] x(3) by (simp add: check_executor_def)
qed (use assms(2) in \<open>auto simp: SignReceipt_def Let_def split: option.splits sum.splits\<close>)

lemma place_receipt_simps [simp]:
  "rc_EmitterSignature (place_receipt h cfg i t r) = rc_EmitterSignature r" "rc_ReceiptID (place_receipt h cfg i t r) = i"
  by (simp_all add: place_receipt_def)


lemma row_receipt_data: "row_ok h xk keys row \<Longrightarrow> rr_seq row = rc_SequenceNumber (rr_data row) \<Longrightarrow> row_receipt row = rr_data row"
  by (simp add: row_receipt_def)

lemma decided_simps [simp]:
  "rc_ReceiptID (decided r a why s at) = rc_ReceiptID r" "rc_ContractID (decided r a why s at) = rc_ContractID r"
  "rc_EmitterAgentID (decided r a why s at) = rc_EmitterAgentID r"
  "rc_ExecutorAgentID (decided r a why s at) = rc_ExecutorAgentID r"
  "rc_PreviousReceiptHash (decided r a why s at) = rc_PreviousReceiptHash r"
  "rc_ExecutorSignature (decided r a why s at) = rc_ExecutorSignature r"
  "executor_view (decided r a why s at) = executor_view r"
  by (simp_all add: decided_def executor_view_def)

lemma check_executor_decided [simp]: "check_executor h k (decided r a why s at) = check_executor h k r"
  by (simp add: check_executor_def ComputeReceiptHash_def cong: option.case_cong)

lemma check_emitter_verified: "VerifyEmitterSignature h r k = None \<Longrightarrow> check_emitter h k r = NoteNone"
  by (auto simp: VerifyEmitterSignature_def check_emitter_def split: if_splits option.splits)

lemma find_distinct:
  assumes "distinct (map f xs)" and "find (\<lambda>x. f x = k) xs = Some y"
  shows "y \<in> set xs \<and> f y = k \<and> (\<forall>x \<in> set xs. f x = k \<longrightarrow> x = y)"
  using assms
proof (induction xs)
  case (Cons x xs)
  show ?case
  proof (cases "f x = k")
    case True
    then have "y = x" "k \<notin> f ` set xs" using Cons.prems by auto
    then show ?thesis using True by (metis image_eqI list.set_intros(1) set_ConsD)
  qed (use Cons in auto)
qed simp

lemma map_receipt_table:
  assumes "chain_ok h t"
    and "\<And>row. row \<in> set t \<Longrightarrow> rr_seq (f row) = rr_seq row \<and> rr_contract_id (f row) = rr_contract_id row \<and>
           rr_emitter (f row) = rr_emitter row \<and> rr_executor (f row) = rr_executor row \<and>
           rc_PreviousReceiptHash (rr_data (f row)) = rc_PreviousReceiptHash (rr_data row) \<and>
           rc_ExecutorSignature (rr_data (f row)) = rc_ExecutorSignature (rr_data row)"
  shows "chain_ok h (map f t)"
proof -
  have pr: "pair_rows em ex (map f t) = map f (pair_rows em ex t)" for em ex
    unfolding pair_rows_def filter_map comp_def by (rule arg_cong [where f = "map f"], rule filter_cong) (use assms(2) in auto)
  have sub: "set (pair_rows em ex t) \<subseteq> set t" for em ex by (auto simp: pair_rows_def)
  have ln: "linked h p (map (\<lambda>x. rr_data (f x)) rows) = linked h p (map rr_data rows)" if "set rows \<subseteq> set t" for p rows
    using that assms(2) by (induction rows arbitrary: p) auto
  have "pair_ok h (map f t) em ex" for em ex
  proof -
    have "numbered 1 (map f (pair_rows em ex t)) = numbered 1 (pair_rows em ex t)"
      by (rule numbered_map) (use sub assms(2) in blast)
    then show ?thesis using assms(1) ln [OF sub] unfolding chain_ok_def pair_ok_def pr by (simp add: comp_def)
  qed
  moreover have "map rr_contract_id (map f t) = map rr_contract_id t" using assms(2) by simp
  ultimately show ?thesis using assms(1) unfolding chain_ok_def by metis
qed

lemma UpdateReceipt_table:
  "snd (UpdateReceipt io t r) = t \<or>
   snd (UpdateReceipt io t r) = map (\<lambda>row. if rr_receipt_id row = rc_ReceiptID r then row\<lparr>rr_data := r\<rparr> else row) t"
  by (simp add: UpdateReceipt_def)

lemma decide_table:
  assumes "chain_ok h t" and "list_all (row_ok h xk keys) t" and "distinct (map rr_receipt_id t)"
    and "GetReceipt t receiptID = Inr r"
    and "VerifyEmitterSignature h (decided r a why s at) (keys (rc_EmitterAgentID r)) = None"
  defines "f \<equiv> \<lambda>row. if rr_receipt_id row = rc_ReceiptID r then row\<lparr>rr_data := decided r a why s at\<rparr> else row"
  shows "chain_ok h (map f t) \<and> list_all (row_ok h xk keys) (map f t)"
proof -
  obtain w where f: "find (\<lambda>row. rr_receipt_id row = receiptID) t = Some w" and rw: "r = row_receipt w"
    using assms(4) by (auto simp: GetReceipt_def split: option.splits)
  note w = find_distinct [OF assms(3) f, THEN conjunct1] find_distinct [OF assms(3) f, THEN conjunct2, THEN conjunct1]
    rw find_distinct [OF assms(3) f, THEN conjunct2, THEN conjunct2]
  have wok: "row_ok h xk keys w" using w(1) assms(2) by (simp add: list_all_iff)
  then have r: "rc_ReceiptID r = receiptID" "rc_EmitterAgentID r = rr_emitter w"
    unfolding rw using w(2) by (simp_all add: row_ok_def)
  have f: "f row = (if row = w then w\<lparr>rr_data := decided r a why s at\<rparr> else row)" if "row \<in> set t" for row
    using w(2,4) that r(1) unfolding f_def by metis
  have "chain_ok h (map f t)" by (rule map_receipt_table [OF assms(1)]) (simp add: f w(3))
  moreover have "row_ok h xk keys (f row)" if "row \<in> set t" for row
    using f [OF that] wok assms(2) that w(3) r check_emitter_verified [OF assms(5)]
    by (auto simp: row_ok_def list_all_iff)
  ultimately show ?thesis by (simp add: list_all_iff)
qed

lemma save_table:
  assumes "chain_ok h t" and "list_all (row_ok h xk keys) t" and "pending_ok h xk r"
  shows "list_all (row_ok h xk keys) (snd (snd (SaveReceipt h io t r)))"
    and "map rr_receipt_id (snd (snd (SaveReceipt h io t r))) \<in> {map rr_receipt_id t, map rr_receipt_id t @ [rc_ReceiptID r]}"
proof -
  have "pair_ok h t (rc_EmitterAgentID r) (rc_ExecutorAgentID r)" using assms(1) by (simp add: chain_ok_def)
  from SaveReceipt_eq [OF this, of io]
  have c: "snd (snd (SaveReceipt h io t r)) = t \<or> snd (snd (SaveReceipt h io t r)) = append_row t r" by presburger
  have "row_ok h xk keys (receipt_columns (appended t r) n)" for n
    using assms(3) by (simp add: row_ok_def pending_ok_def check_unsigned)
  then show "list_all (row_ok h xk keys) (snd (snd (SaveReceipt h io t r)))"
    using c assms(2) by (auto simp: append_row_def)
  show "map rr_receipt_id (snd (snd (SaveReceipt h io t r))) \<in> {map rr_receipt_id t, map rr_receipt_id t @ [rc_ReceiptID r]}"
    using c by (auto simp: append_row_def)
qed

lemma ids_ok_prepare: "ids_ok us q ids \<Longrightarrow> i \<notin> set ids \<Longrightarrow> ids_ok us (q(w := Some i)) (i # ids)"
  unfolding ids_ok_def by (auto split: if_splits)

lemma ids_ok_save: "ids_ok us q ids \<Longrightarrow> q w = Some i \<Longrightarrow> vs \<in> {us, us @ [i]} \<Longrightarrow> ids_ok vs (q(w := None)) ids"
  unfolding ids_ok_def by (auto split: if_splits)

lemma comp_upd: "map_option f \<circ> p(w := v) = (map_option f \<circ> p)(w := map_option f v)"
  by (rule fun_upd_comp)

lemma chain_reach_inv:
  assumes "ed25519_ok (gh_ed h)" and "chain_reach h signer keys st"
  shows "chain_inv h (PublicKey (gh_ed h) signer) keys st"
  using assms(2)
proof (induction rule: chain_reach.induct)
  case start
  then show ?case by (simp add: chain_inv_def ids_ok_def)
next
  case (prepare t p ids newID rec now cfg r w)
  note s = SignReceipt_checks [OF assms(1) prepare.hyps(4)]
  have "pending_ok h (PublicKey (gh_ed h) signer) r" using s prepare.hyps(3) by (simp add: pending_ok_def)
  moreover have "ids_ok (map rr_receipt_id t) (map_option rc_ReceiptID \<circ> p(w := Some r)) (newID # ids)"
    using prepare.IH ids_ok_prepare [OF _ prepare.hyps(2)] s(3) by (simp add: chain_inv_def comp_upd)
  ultimately show ?case using prepare.IH by (auto simp: chain_inv_def)
next
  case (save t p ids w r io)
  have inv: "chain_ok h t" "list_all (row_ok h (PublicKey (gh_ed h) signer) keys) t"
    "pending_ok h (PublicKey (gh_ed h) signer) r" "ids_ok (map rr_receipt_id t) (map_option rc_ReceiptID \<circ> p) ids"
    using save by (auto simp: chain_inv_def)
  have "ids_ok (map rr_receipt_id (snd (snd (SaveReceipt h io t r)))) (map_option rc_ReceiptID \<circ> p(w := None)) ids"
    using ids_ok_save [OF inv(4) _ save_table(2) [OF inv(1-3)]] save.hyps(2) by (simp add: comp_upd)
  then show ?case using save.IH save_table(1) [OF inv(1-3), of io] SaveReceipt_chain_ok [OF inv(1)]
    unfolding chain_inv_def prod.case by auto
next
  case (decide t p ids receiptID r a reason s at io)
  have inv: "chain_ok h t" "list_all (row_ok h (PublicKey (gh_ed h) signer) keys) t" "distinct (map rr_receipt_id t)"
    using decide by (auto simp: chain_inv_def ids_ok_def)
  note u = UpdateReceipt_table [of io t "decided r a reason s at"]
  have "map rr_receipt_id (snd (UpdateReceipt io t (decided r a reason s at))) = map rr_receipt_id t" using u by auto
  moreover have "chain_ok h (snd (UpdateReceipt io t (decided r a reason s at))) \<and>
      list_all (row_ok h (PublicKey (gh_ed h) signer) keys) (snd (UpdateReceipt io t (decided r a reason s at)))"
    using u inv(1,2) decide_table [OF inv decide.hyps(2,3)] unfolding decided_simps
    by (elim disjE) simp_all
  ultimately show ?case using decide.IH unfolding chain_inv_def prod.case by metis
qed


definition previous_hash :: "go_host \<Rightarrow> SettlementReceipt option \<Rightarrow> string" where
  "previous_hash h prev = (case prev of None \<Rightarrow> [] | Some q \<Rightarrow> gh_sha h (rc_ExecutorSignature q))"

fun counted :: "int \<Rightarrow> SettlementReceipt list \<Rightarrow> bool" where
  "counted i [] = True"
| "counted i (r # rs) = (rc_SequenceNumber r = i + 1 \<and> counted (i + 1) rs)"

definition checked :: "go_host \<Rightarrow> string \<Rightarrow> string \<Rightarrow> SettlementReceipt \<Rightarrow> bool" where
  "checked h xk ek r \<longleftrightarrow> check_executor h xk r = NoteNone \<and> check_emitter h ek r = NoteNone"

lemma verify_receipt_valid:
  "vr_Valid (verify_receipt h xk ek i prev r) \<longleftrightarrow>
     rc_SequenceNumber r = i + 1 \<and> rc_PreviousReceiptHash r = previous_hash h prev \<and> checked h xk ek r"
  by (auto simp: verify_receipt_def Let_def check_sequence_def check_link_def previous_hash_def checked_def
      split: option.splits)

lemma verify_from_valid:
  "list_all vr_Valid (verify_from h xk ek i prev rs) \<longleftrightarrow>
     counted i rs \<and> linked h (previous_hash h prev) rs \<and> list_all (checked h xk ek) rs"
  by (induction rs arbitrary: i prev) (auto simp: verify_receipt_valid previous_hash_def)

lemma counted_rows: "numbered (i + 1) rows \<Longrightarrow> counted i (map row_receipt rows)"
  by (induction rows arbitrary: i) (simp_all add: add.assoc)

lemma verify_from_length [simp]: "length (verify_from h xk ek i prev rs) = length rs"
  by (induction rs arbitrary: i prev) simp_all

lemma inv_chain_verifies:
  assumes "chain_ok h t" and "list_all (row_ok h xk keys) t"
  shows "list_all vr_Valid (verify_from h xk (keys em) 0 None (GetChain t em ex))"
proof -
  have p: "pair_ok h t em ex" using assms(1) by (simp add: chain_ok_def)
  have "checked h xk (keys em) (row_receipt row)" if "row \<in> set (pair_rows em ex t)" for row
    using assms(2) that by (auto simp: checked_def row_ok_def list_all_iff pair_rows_def)
  then have "list_all (checked h xk (keys em)) (map row_receipt (pair_rows em ex t))" by (auto simp: list_all_iff)
  then show ?thesis using p counted_rows [of 0 "pair_rows em ex t"]
    by (simp add: verify_from_valid GetChain_pair [OF p] pair_ok_def linked_row_receipt previous_hash_def)
qed

text \<open>A chain grown by concurrent signed appends, with decisions counter-signed by the emitter recorded in
  between, verifies: at every reachable moment \<open>VerifyChain\<close> finds every receipt of the pair valid.\<close>

theorem reachable_chain_verifies:
  assumes "ed25519_ok (gh_ed h)" and "chain_reach h signer keys (t, p, ids)" and "0 < Count t em ex"
  shows "\<exists>rs. VerifyChain h t em ex (PublicKey (gh_ed h) signer) (keys em) = Inr rs \<and>
              length rs = Count t em ex \<and> list_all vr_Valid rs"
proof -
  have inv: "chain_ok h t" "list_all (row_ok h (PublicKey (gh_ed h) signer) keys) t"
    using chain_reach_inv [OF assms(1,2)] by (auto simp: chain_inv_def)
  have "pair_ok h t em ex" using inv(1) by (simp add: chain_ok_def)
  then have "length (GetChain t em ex) = Count t em ex" by (simp add: GetChain_pair Count_def)
  then show ?thesis using inv_chain_verifies [OF inv, of em ex] assms(3)
    by (auto simp: VerifyChain_def VerifyChainIntegrity_def)
qed

section \<open>What a verified chain proves\<close>

definition signed_content :: "go_host \<Rightarrow> SettlementReceipt \<Rightarrow> json \<times> string" where
  "signed_content h r = (normal (gh_numbers h) (receipt_json h (executor_view r)), rc_ExecutorSignature r)"

text \<open>The executor's key has signed the receipts of these chains and no other text.\<close>

definition only_signed :: "go_host \<Rightarrow> string \<Rightarrow> SettlementReceipt list set \<Rightarrow> bool" where
  "only_signed h xk issued \<longleftrightarrow>
     (\<forall>x s. Verify (gh_ed h) xk x s = None \<longrightarrow>
        (\<exists>g \<in> issued. \<exists>r \<in> set g. ComputeReceiptHash h r = Some x \<and> rc_ExecutorSignature r = s))"

definition signatures_unique :: "SettlementReceipt list set \<Rightarrow> bool" where
  "signatures_unique issued \<longleftrightarrow>
     (\<forall>f \<in> issued. \<forall>g \<in> issued. \<forall>i < length f. \<forall>j < length g.
        rc_ExecutorSignature (f ! i) = rc_ExecutorSignature (g ! j) \<longrightarrow> f = g \<and> i = j)"

lemma receipt_previous:
  assumes "normal nf (receipt_json h (executor_view r)) = normal nf (receipt_json h (executor_view s))"
  shows "rc_PreviousReceiptHash r = rc_PreviousReceiptHash s"
proof -
  have m: "map_of (receipt_members h q) ''previous_receipt_hash'' =
      (if rc_PreviousReceiptHash q = [] then None else Some (JStr (rc_PreviousReceiptHash q)))" for q
    by (simp add: receipt_members_def json_field_defs omit_time_def map_add_def split: option.splits)
  have "rc_PreviousReceiptHash (executor_view q) = rc_PreviousReceiptHash q" for q by (simp add: executor_view_def)
  then show ?thesis
    using normal_object_fields [OF assms [unfolded receipt_json_def] receipt_members_distinct receipt_members_distinct,
        of "''previous_receipt_hash''"]
    by (auto simp: m split: if_splits)
qed

lemma linked_nth:
  "linked h p rs \<Longrightarrow> j < length rs \<Longrightarrow>
   rc_PreviousReceiptHash (rs ! j) = (if j = 0 then p else gh_sha h (rc_ExecutorSignature (rs ! (j - 1))))"
proof (induction rs arbitrary: p j)
  case (Cons r rs)
  then show ?case by (cases j) (auto simp: nth_Cons' dest: Cons.IH)
qed simp

lemma checked_genuine:
  assumes "number_format_ok (gh_numbers h)" and "only_signed h xk issued" and "check_executor h xk r = NoteNone"
  shows "sha_collision (gh_sha h) \<or> (\<exists>g \<in> issued. \<exists>j < length g. signed_content h r = signed_content h (g ! j))"
proof -
  obtain x where x: "ComputeReceiptHash h r = Some x" "Verify (gh_ed h) xk x (rc_ExecutorSignature r) = None"
    using assms(3) by (auto simp: check_executor_def split: if_splits option.splits)
  then obtain g s where g: "g \<in> issued" "s \<in> set g" "ComputeReceiptHash h s = Some x"
    "rc_ExecutorSignature s = rc_ExecutorSignature r"
    using assms(2) unfolding only_signed_def by blast
  have "normal (gh_numbers h) (receipt_json h (executor_view r)) = normal (gh_numbers h) (receipt_json h (executor_view s)) \<or>
      sha_collision (gh_sha h)"
    using hash_json_binds [OF assms(1) receipt_json_distinct receipt_json_distinct] x(1) g(3)
    by (simp add: ComputeReceiptHash_def)
  then show ?thesis using g(1,2,4) unfolding signed_content_def by (metis in_set_conv_nth)
qed

lemma genuine_extends:
  assumes "\<And>x. gh_sha h x \<noteq> []" and "\<not> sha_collision (gh_sha h)" and "signatures_unique issued"
    and "\<And>g. g \<in> issued \<Longrightarrow> linked h [] g" and "g \<in> issued" and "j < length g"
    and "signed_content h r = signed_content h (g ! j)"
    and "rc_PreviousReceiptHash r = chain_end h [] rs"
    and "rs = [] \<or> (\<exists>f \<in> issued. prefix (map (signed_content h) rs) (map (signed_content h) f))"
  shows "\<exists>f \<in> issued. prefix (map (signed_content h) (rs @ [r])) (map (signed_content h) f)"
proof -
  have pr: "rc_PreviousReceiptHash r = (if j = 0 then [] else gh_sha h (rc_ExecutorSignature (g ! (j - 1))))"
    using receipt_previous [of "gh_numbers h" h r "g ! j"] assms(7) linked_nth [OF assms(4) [OF assms(5)] assms(6)]
    by (simp add: signed_content_def)
  show ?thesis
  proof (cases "rs = []")
    case True
    then have "j = 0" using pr assms(1) [of "rc_ExecutorSignature (g ! (j - 1))"] assms(8)
      by (auto simp: chain_end_def split: if_splits)
    then have "prefix (map (signed_content h) (rs @ [r])) (map (signed_content h) g)"
      using True assms(6,7) by (cases g) simp_all
    then show ?thesis using assms(5) by blast
  next
    case False
    then obtain f where f: "f \<in> issued" "prefix (map (signed_content h) rs) (map (signed_content h) f)" using assms(9) by blast
    let ?n = "length rs"
    have n: "?n \<le> length f" using prefix_length_le [OF f(2)] by simp
    have tk: "map (signed_content h) rs = take ?n (map (signed_content h) f)"
      using f(2) by (auto simp: prefix_def)
    have l: "?n - 1 < ?n" "last rs = rs ! (?n - 1)" using False by (simp_all add: last_conv_nth)
    have "map (signed_content h) rs ! (?n - 1) = map (signed_content h) f ! (?n - 1)"
      unfolding tk using l(1) by (simp del: length_greater_0_conv)
    then have sl: "rc_ExecutorSignature (last rs) = rc_ExecutorSignature (f ! (?n - 1))"
      using l n by (simp add: signed_content_def)
    have "rc_PreviousReceiptHash r = gh_sha h (rc_ExecutorSignature (last rs))" using assms(8) False by (simp add: chain_end_def)
    then have "j \<noteq> 0" "rc_ExecutorSignature (g ! (j - 1)) = rc_ExecutorSignature (f ! (?n - 1))"
      using pr assms(1) [of "rc_ExecutorSignature (last rs)"] assms(2) sl unfolding sha_collision_def
      by (auto split: if_splits)
    moreover have "j - 1 < length g" "?n - 1 < length f" using assms(6) n l(1) by simp_all
    ultimately have gf: "g = f" "j - 1 = ?n - 1" using assms(3,5) f(1) unfolding signatures_unique_def by blast+
    then have j: "j = ?n" using \<open>j \<noteq> 0\<close> False by (cases rs; cases j) auto
    have "map (signed_content h) (rs @ [r]) = take (Suc ?n) (map (signed_content h) f)"
      using tk assms(6,7) gf(1) j by (simp add: take_Suc_conv_app_nth)
    then show ?thesis using f(1) take_is_prefix by metis
  qed
qed


lemma verify_from_snoc:
  "verify_from h xk ek i prev (rs @ [r]) =
     verify_from h xk ek i prev rs @
       [verify_receipt h xk ek (i + int (length rs)) (if rs = [] then prev else Some (last rs)) r]"
  by (induction rs arbitrary: i prev) (simp_all add: add.assoc)



section \<open>Witnesses\<close>

lemma SignReceipt_total:
  assumes "number_format_ok (gh_numbers h)" and "\<And>x. gh_sha h x \<noteq> []"
    and "encodable (gh_numbers h) (receipt_json h (executor_view (r\<lparr>rc_ExecutorSignedAt := now\<rparr>)))"
  shows "fst (SignReceipt h now r signer) = None"
proof -
  obtain x where "ComputeReceiptHash h (r\<lparr>rc_ExecutorSignedAt := now\<rparr>) = Some (gh_sha h x)"
    using hash_json_total [OF assms(1) receipt_json_distinct assms(3)] by (auto simp: ComputeReceiptHash_def)
  moreover obtain sig where "Sign (gh_ed h) signer (gh_sha h x) = Inr sig" using Sign_total [OF assms(2)] by blast
  ultimately show ?thesis by (simp add: SignReceipt_def Let_def)
qed

definition sample_receipt :: SettlementReceipt where
  "sample_receipt = \<lparr>rc_ProtocolVersion = ''2'', rc_MeshID = ''m'', rc_ReceiptID = [], rc_ContractID = ''c1'',
     rc_EnvelopeHash = ''x'', rc_EmitterAgentID = ''a'', rc_ExecutorAgentID = ''b'',
     rc_Territory = \<lparr>et_Repository = [], et_Branch = [], et_WorkspacePath = []\<rparr>, rc_Verdict = VerdictSettledClean,
     rc_Assertions = Some [], rc_RemediationChain = [], rc_ExecutorSignature = [], rc_ExecutorSignedAt = 7,
     rc_PreviousReceiptHash = [], rc_SequenceNumber = 0, rc_EmitterAcceptance = NoAcceptance,
     rc_EmitterAcceptanceAt = None, rc_DisputeReason = [], rc_EmitterSignature = []\<rparr>"

definition sample_append :: AppendConfig where
  "sample_append = \<lparr>ac_EmitterAgentID = ''a'', ac_ExecutorAgentID = ''b'', ac_Signer = Some sample_signer, ac_MaxAttempts = 0\<rparr>"

definition sample_placed :: SettlementReceipt where
  "sample_placed = place_receipt sample_host sample_append ''r1'' [] sample_receipt"

lemma sample_placed_eq: "sample_placed = sample_receipt\<lparr>rc_ReceiptID := ''r1''\<rparr>"
  by (simp add: sample_placed_def place_receipt_def sample_append_def sample_receipt_def GetLastReceipt_def
      chain_rows_def pair_rows_def)

lemma sample_receipt_encodable:
  "encodable bits_format (receipt_json sample_host (executor_view (sample_receipt\<lparr>rc_ReceiptID := ''r1''\<rparr>)))"
  by (simp add: receipt_json_def receipt_members_def executor_view_def sample_receipt_def territory_json_def jslice_def
      sample_host_def decimal_def nat_digits.simps omit_str_def omit_int_def omit_list_def omit_time_def byte_def)

lemma sample_receipt_signs: "\<exists>r. SignReceipt sample_host 7 sample_placed sample_signer = (None, r)"
proof -
  have "sample_placed\<lparr>rc_ExecutorSignedAt := 7\<rparr> = sample_receipt\<lparr>rc_ReceiptID := ''r1''\<rparr>"
    by (simp add: sample_placed_eq sample_receipt_def)
  then have "fst (SignReceipt sample_host 7 sample_placed sample_signer) = None"
    using sample_receipt_encodable bits_format_ok by (intro SignReceipt_total) simp_all
  then show ?thesis by (metis prod.collapse)
qed

definition sample_table :: receipt_table where
  "sample_table = snd (snd (SaveReceipt sample_host NoFault [] (snd (SignReceipt sample_host 7 sample_placed sample_signer))))"

lemma SignReceipt_placed:
  assumes "SignReceipt h now q signer = (None, r)"
  shows "rc_ContractID r = rc_ContractID q" "rc_EmitterAgentID r = rc_EmitterAgentID q"
    "rc_ExecutorAgentID r = rc_ExecutorAgentID q" "rc_PreviousReceiptHash r = rc_PreviousReceiptHash q"
    "rc_SequenceNumber r = rc_SequenceNumber q" "ValidateReceipt r = ValidateReceipt q"
proof -
  obtain sig where r: "r = q\<lparr>rc_ExecutorSignedAt := now, rc_ExecutorSignature := sig\<rparr>"
    using assms by (auto simp: SignReceipt_def Let_def split: option.splits sum.splits)
  show "rc_ContractID r = rc_ContractID q" "rc_EmitterAgentID r = rc_EmitterAgentID q"
    "rc_ExecutorAgentID r = rc_ExecutorAgentID q" "rc_PreviousReceiptHash r = rc_PreviousReceiptHash q"
    "rc_SequenceNumber r = rc_SequenceNumber q" "ValidateReceipt r = ValidateReceipt q"
    unfolding r by (simp_all add: ValidateReceipt_def)
qed

lemma sample_table_rows: "Count sample_table ''a'' ''b'' = 1"
proof -
  obtain r where r: "SignReceipt sample_host 7 sample_placed sample_signer = (None, r)" using sample_receipt_signs by blast
  note f = SignReceipt_placed [OF r]
  have v: "ValidateReceipt r = None" unfolding f(6) by (simp add: sample_placed_eq sample_receipt_def) code_simp
  have "may_append sample_host [] r = None"
    using f by (simp add: may_append_def pair_rows_def chain_end_def sample_placed_eq sample_receipt_def)
  moreover have "pair_ok sample_host [] (rc_EmitterAgentID r) (rc_ExecutorAgentID r)" by (simp add: pair_ok_def pair_rows_def)
  ultimately have "snd (snd (SaveReceipt sample_host NoFault [] r)) = append_row [] r"
    using SaveReceipt_eq [of sample_host "[]" r NoFault] v by simp
  then have t: "sample_table = append_row [] r" unfolding sample_table_def r by simp
  have "rc_EmitterAgentID r = ''a''" "rc_ExecutorAgentID r = ''b''"
    unfolding f(2,3) sample_placed_eq by (simp_all add: sample_receipt_def)
  then show ?thesis unfolding t by (simp add: Count_def append_row_def pair_rows_def)
qed

theorem reachable_chain_verifies_witness:
  "\<exists>rs. VerifyChain sample_host sample_table ''a'' ''b'' (PublicKey sample_ed sample_signer) ''k'' = Inr rs \<and>
        length rs = 1 \<and> list_all vr_Valid rs"
proof -
  obtain r where r: "SignReceipt sample_host 7 sample_placed sample_signer = (None, r)" using sample_receipt_signs by blast
  let ?keys = "\<lambda>_ :: string. ''k''"
  have "chain_reach sample_host sample_signer ?keys ([], (\<lambda>_. None)(0 := Some r), [''r1''])"
    by (rule chain_reach.prepare [OF chain_reach.start, where rec = sample_receipt and cfg = sample_append])
      (use r in \<open>simp_all add: sample_receipt_def sample_placed_def\<close>)
  from chain_reach.save [OF this, of 0 r NoFault]
  have "\<exists>p. chain_reach sample_host sample_signer ?keys (sample_table, p, [''r1''])"
    by (auto simp: sample_table_def r)
  then obtain p where "chain_reach sample_host sample_signer ?keys (sample_table, p, [''r1''])" by blast
  from reachable_chain_verifies [OF _ this, of "''a''" "''b''"] show ?thesis
    using sample_ed_ok sample_table_rows by simp
qed

definition sealed_bytes :: string where
  "sealed_bytes = replicate 64 (CHR ''s'')"

lemma sealed_bytes_length [simp]: "length sealed_bytes = 64" "sealed_bytes \<noteq> []"
  by (simp_all add: sealed_bytes_def)

lemma b64_encode_Nil [simp]: "b64_encode s = [] \<longleftrightarrow> s = []"
  by (cases s rule: sextets_of.cases) simp_all

definition sealed_host :: go_host where
  "sealed_host = sample_host\<lparr>gh_ed := sample_ed\<lparr>ed_verify :=
     (\<lambda>p d s. p = replicate 32 (CHR ''k'') \<and> s = sealed_bytes \<and>
        Some d = ComputeReceiptHash sample_host (sample_receipt\<lparr>rc_ReceiptID := ''r1''\<rparr>))\<rparr>\<rparr>"

definition sealed_receipt :: SettlementReceipt where
  "sealed_receipt = sample_receipt\<lparr>rc_ReceiptID := ''r1'', rc_SequenceNumber := 1,
     rc_ExecutorSignature := b64_encode sealed_bytes\<rparr>"

lemma Verify_None: "Verify ed k d s = None \<Longrightarrow> \<exists>sig. s = b64_encode sig \<and> ed_verify ed k d sig"
  by (auto simp: Verify_def split: if_splits option.splits)

lemma receipt_json_host: "gh_time g = gh_time h \<Longrightarrow> receipt_json g r = receipt_json h r"
  by (simp add: receipt_json_def receipt_members_def result_json_def [abs_def] evidence_json_def remediation_json_def [abs_def]
      omit_time_def cong: option.case_cong)

lemma sealed_hash: "\<exists>x. x \<noteq> [] \<and> ComputeReceiptHash sealed_host sealed_receipt = Some x \<and>
  ComputeReceiptHash sample_host (sample_receipt\<lparr>rc_ReceiptID := ''r1''\<rparr>) = Some x"
proof -
  let ?r = "sample_receipt\<lparr>rc_ReceiptID := ''r1''\<rparr>"
  obtain x where x: "ComputeReceiptHash sample_host ?r = Some (gh_sha sample_host x)"
    using hash_json_total [OF _ receipt_json_distinct, of sample_host sample_host "executor_view ?r"] bits_format_ok
      sample_receipt_encodable by (auto simp: ComputeReceiptHash_def)
  have "executor_view sealed_receipt = executor_view ?r" by (simp add: sealed_receipt_def executor_view_def sample_receipt_def)
  moreover have "receipt_json sealed_host (executor_view ?r) = receipt_json sample_host (executor_view ?r)"
    by (rule receipt_json_host) (simp add: sealed_host_def)
  ultimately have "ComputeReceiptHash sealed_host sealed_receipt = ComputeReceiptHash sample_host ?r"
    by (simp add: ComputeReceiptHash_def hash_json_def Marshal_def sealed_host_def cong: option.case_cong)
  then show ?thesis using x by simp
qed


end
