(* ===== verification/Receipt_Append.thy ===== *)
theory Receipt_Append
  imports Receipt_Safety
begin

text \<open>
  The optimistic append of \<open>append.go\<close>: it retries exactly the failures that another writer can cause, and it
  succeeds at the latest on the first attempt during which no other writer moves the head of the chain.
\<close>

section \<open>One attempt\<close>

definition ready :: "go_host \<Rightarrow> AppendConfig \<Rightarrow> string \<Rightarrow> attempt_env \<Rightarrow> bool" where
  "ready h cfg c env \<longleftrightarrow>
     \<not> at_cancelled env \<and> \<not> at_wait_cancelled env \<and> \<not> at_read_fails env \<and> at_io env = NoFault \<and>
     (\<exists>rec. at_build env = Some rec \<and> rc_ContractID rec = c \<and>
        (\<forall>t. ValidateReceipt (place_receipt h cfg (at_id env) t rec) = None \<and>
             encodable (gh_numbers h)
               (receipt_json h (executor_view ((place_receipt h cfg (at_id env) t rec)\<lparr>rc_ExecutorSignedAt := at_now env\<rparr>)))))"

text \<open>What other writers do to the table: well-formed chains stay so, and the contract being settled is not theirs.\<close>

definition others_ok :: "go_host \<Rightarrow> string \<Rightarrow> (receipt_table \<Rightarrow> receipt_table) \<Rightarrow> bool" where
  "others_ok h c f \<longleftrightarrow>
     (\<forall>t. chain_ok h t \<longrightarrow> c \<notin> set (map rr_contract_id t) \<longrightarrow>
          chain_ok h (f t) \<and> c \<notin> set (map rr_contract_id (f t)))"

lemma GetLastReceipt_ok:
  assumes "pair_ok h t em ex"
  shows "GetLastReceipt t em ex =
           (case rev (pair_rows em ex t) of [] \<Rightarrow> Inl ErrReceiptNotFound | row # _ \<Rightarrow> Inr (row_receipt row))"
  using chain_rows_id [OF assms] by (simp add: GetLastReceipt_def)

lemma placed_previous:
  assumes "pair_ok h t (ac_EmitterAgentID cfg) (ac_ExecutorAgentID cfg)"
  shows "rc_PreviousReceiptHash (place_receipt h cfg i t rec) =
           chain_end h [] (map rr_data (pair_rows (ac_EmitterAgentID cfg) (ac_ExecutorAgentID cfg) t))"
  using GetLastReceipt_ok [OF assms]
  by (cases "pair_rows (ac_EmitterAgentID cfg) (ac_ExecutorAgentID cfg) t" rule: rev_cases)
    (simp_all add: place_receipt_def chain_end_def)

lemma place_receipt_fields [simp]:
  "rc_EmitterAgentID (place_receipt h cfg i t r) = ac_EmitterAgentID cfg"
  "rc_ExecutorAgentID (place_receipt h cfg i t r) = ac_ExecutorAgentID cfg"
  "rc_ContractID (place_receipt h cfg i t r) = rc_ContractID r" "rc_SequenceNumber (place_receipt h cfg i t r) = 0"
  by (simp_all add: place_receipt_def)

lemma last_appended:
  assumes "chain_ok h t" and "may_append h t r = None"
  shows "GetLastReceipt (append_row t r) (rc_EmitterAgentID r) (rc_ExecutorAgentID r) = Inr (appended t r)"
proof -
  have "pair_ok h (append_row t r) (rc_EmitterAgentID r) (rc_ExecutorAgentID r)"
    using append_row_ok [OF assms] by (simp add: chain_ok_def)
  from GetLastReceipt_ok [OF this] show ?thesis by (simp add: append_row_def row_receipt_def)
qed

lemma attempt_outcome:
  assumes "number_format_ok (gh_numbers h)" and "\<And>x. gh_sha h x \<noteq> []" and "chain_ok h t"
    and "c \<notin> set (map rr_contract_id t)" and "ready h cfg c env" and "others_ok h c (at_between env)"
  defines "em \<equiv> ac_EmitterAgentID cfg" and "ex \<equiv> ac_ExecutorAgentID cfg" and "u \<equiv> at_between env t"
  shows "(\<exists>saved t'. append_attempt h cfg signer env t = (Inr saved, t') \<and> rc_ContractID saved = c \<and>
            GetLastReceipt t' em ex = Inr saved \<and> chain_ok h t') \<or>
         chain_end h [] (map rr_data (pair_rows em ex u)) \<noteq> chain_end h [] (map rr_data (pair_rows em ex t)) \<and>
         append_attempt h cfg signer env t = (Inl (AppendChain ErrInvalidPreviousHash), u) \<and>
         chain_ok h u \<and> c \<notin> set (map rr_contract_id u)"
proof -
  obtain rec where rec: "at_build env = Some rec" "rc_ContractID rec = c" "\<not> at_read_fails env" "at_io env = NoFault"
    "ValidateReceipt (place_receipt h cfg (at_id env) t rec) = None"
    "encodable (gh_numbers h)
       (receipt_json h (executor_view ((place_receipt h cfg (at_id env) t rec)\<lparr>rc_ExecutorSignedAt := at_now env\<rparr>)))"
    using assms(5) unfolding ready_def by blast
  obtain r where r: "SignReceipt h (at_now env) (place_receipt h cfg (at_id env) t rec) signer = (None, r)"
    using SignReceipt_total [OF assms(1,2) rec(6)] by (metis prod.collapse)
  note f = SignReceipt_placed [OF r]
  have p: "pair_ok h t em ex" using assms(3) by (simp add: chain_ok_def)
  have u: "chain_ok h u" "c \<notin> set (map rr_contract_id u)" using assms(3,4,6) by (auto simp: others_ok_def u_def)
  have pu: "pair_ok h u (rc_EmitterAgentID r) (rc_ExecutorAgentID r)" using u(1) by (simp add: chain_ok_def)
  have prev: "rc_PreviousReceiptHash r = chain_end h [] (map rr_data (pair_rows em ex t))"
    using f(4) placed_previous p by (simp add: em_def ex_def)
  have ap: "append_attempt h cfg signer env t =
      (case SaveReceipt h NoFault u r of (None, saved, t') \<Rightarrow> (Inr saved, t') | (Some e, _, t') \<Rightarrow> (Inl (AppendChain e), t'))"
    unfolding append_attempt_def using rec(1,3,4) r by (simp add: u_def)
  have ma: "may_append h u r = (if chain_end h [] (map rr_data (pair_rows em ex u)) = chain_end h [] (map rr_data (pair_rows em ex t))
      then None else Some ErrInvalidPreviousHash)"
    using u(2) f(1-3,5) prev rec(2) by (simp add: may_append_def em_def ex_def)
  obtain e q t' where s: "SaveReceipt h NoFault u r = (e, q, t')" by (metis prod_cases3)
  have v: "ValidateReceipt r = None" using f(6) rec(5) by simp
  note S = SaveReceipt_eq [OF pu, of NoFault, unfolded s fst_conv snd_conv]
  show ?thesis
  proof (cases "may_append h u r")
    case None
    then have e: "e = None" "q = appended u r" "t' = append_row u r" using S v by auto
    have "GetLastReceipt t' em ex = Inr q"
      using last_appended [OF u(1) None] f(2,3) e by (simp add: em_def ex_def)
    moreover have "rc_ContractID q = c" using e(2) f(1) rec(2) by simp
    moreover have "chain_ok h t'" using append_row_ok [OF u(1) None] e(3) by simp
    ultimately show ?thesis using ap s e(1) by simp
  next
    case (Some x)
    then have "x = ErrInvalidPreviousHash" using ma by (auto split: if_splits)
    then have "e = Some ErrInvalidPreviousHash" "t' = u" using S v Some by simp_all
    moreover have "chain_end h [] (map rr_data (pair_rows em ex u)) \<noteq> chain_end h [] (map rr_data (pair_rows em ex t))"
      using Some ma by auto
    ultimately show ?thesis using ap s u by simp
  qed
qed

section \<open>The loop\<close>

definition succeeds :: "AppendConfig \<Rightarrow> string \<Rightarrow> (append_error + SettlementReceipt) \<times> receipt_table \<Rightarrow> bool" where
  "succeeds cfg c res \<longleftrightarrow>
     (\<exists>saved t'. res = (Inr saved, t') \<and> rc_ContractID saved = c \<and>
        GetLastReceipt t' (ac_EmitterAgentID cfg) (ac_ExecutorAgentID cfg) = Inr saved)"

lemma append_loop_succeeds:
  assumes "number_format_ok (gh_numbers h)" and "\<And>x. gh_sha h x \<noteq> []"
    and "list_all (\<lambda>env. ready h cfg c env \<and> others_ok h c (at_between env) \<and> others_ok h c (at_after env)) envs"
    and "list_ex (\<lambda>env. at_between env = id) envs"
    and "chain_ok h t" and "c \<notin> set (map rr_contract_id t)"
  shows "succeeds cfg c (append_loop h cfg signer n envs t)"
  using assms(3-6)
proof (induction envs arbitrary: t)
  case (Cons env envs)
  have env: "ready h cfg c env" "others_ok h c (at_between env)" "others_ok h c (at_after env)"
    and act: "\<not> at_cancelled env" "\<not> at_wait_cancelled env"
    using Cons.prems(1) by (auto simp: ready_def)
  from attempt_outcome [OF assms(1,2) Cons.prems(3,4) env(1,2), of signer]
  show ?case
  proof (elim disjE conjE exE)
    fix saved t' assume "append_attempt h cfg signer env t = (Inr saved, t')" "rc_ContractID saved = c"
      "GetLastReceipt t' (ac_EmitterAgentID cfg) (ac_ExecutorAgentID cfg) = Inr saved"
    then show ?thesis using act(1) by (simp add: succeeds_def)
  next
    let ?u = "at_between env t"
    assume raced: "chain_end h [] (map rr_data (pair_rows (ac_EmitterAgentID cfg) (ac_ExecutorAgentID cfg) ?u)) \<noteq>
        chain_end h [] (map rr_data (pair_rows (ac_EmitterAgentID cfg) (ac_ExecutorAgentID cfg) t))"
      and a: "append_attempt h cfg signer env t = (Inl (AppendChain ErrInvalidPreviousHash), ?u)"
      and u: "chain_ok h ?u" "c \<notin> set (map rr_contract_id ?u)"
    then have "at_between env \<noteq> id" by auto
    then have ex: "list_ex (\<lambda>env. at_between env = id) envs" "envs \<noteq> []" using Cons.prems(2) by (auto simp: list_ex_iff id_def)
    have "chain_ok h (at_after env ?u)" "c \<notin> set (map rr_contract_id (at_after env ?u))"
      using env(3) u by (auto simp: others_ok_def)
    then have "succeeds cfg c (append_loop h cfg signer n envs (at_after env ?u))"
      using Cons.IH [OF _ ex(1)] Cons.prems(1) by simp
    then show ?thesis using a act ex(2) by (simp add: isTransientChainContention_def)
  qed
qed simp

text \<open>C10. Progress of \<open>SignAndSaveReceipt\<close>: with a valid builder and a healthy database, if during one of its attempts
  (ten by default) no other writer touches the table between the read of the head and the save, it returns a saved
  receipt for the contract and that receipt is the head of the chain; other writers may append anything else meanwhile.\<close>

theorem SignAndSaveReceipt_progress:
  assumes "number_format_ok (gh_numbers h)" and "\<And>x. gh_sha h x \<noteq> []" and "ac_Signer cfg = Some signer"
    and "\<And>i. ready h cfg c (envs i) \<and> others_ok h c (at_between (envs i)) \<and> others_ok h c (at_after (envs i))"
    and "i < nat (append_attempts cfg)" and "at_between (envs i) = id"
    and "chain_ok h t" and "c \<notin> set (map rr_contract_id t)"
  shows "succeeds cfg c (SignAndSaveReceipt h cfg envs t)"
proof -
  have "list_ex (\<lambda>env. at_between env = id) (map envs [0..<nat (append_attempts cfg)])"
    using assms(5,6) by (force simp: list_ex_iff)
  then have "succeeds cfg c (append_loop h cfg signer (append_attempts cfg) (map envs [0..<nat (append_attempts cfg)]) t)"
    using assms(4,7,8) by (intro append_loop_succeeds [OF assms(1,2)]) (auto simp: list_all_iff)
  then show ?thesis using assms(3) by (simp add: SignAndSaveReceipt_def)
qed

section \<open>Witness\<close>

definition sample_env :: attempt_env where
  "sample_env = \<lparr>at_cancelled = False, at_build = Some sample_receipt, at_id = ''r1'', at_now = 7, at_read_fails = False,
     at_between = id, at_io = NoFault, at_wait_cancelled = False, at_after = id\<rparr>"

text \<open>A first attempt that loses the race to another contract's receipt, on a host with a constant digest.\<close>

definition const_host :: go_host where
  "const_host = sample_host\<lparr>gh_sha := \<lambda>_. ''h''\<rparr>"

definition rival_receipt :: SettlementReceipt where
  "rival_receipt = sample_receipt\<lparr>rc_ReceiptID := ''r0'', rc_ContractID := ''c0'', rc_ExecutorSignature := ''s''\<rparr>"

definition raced_env :: attempt_env where
  "raced_env = sample_env\<lparr>at_between := (\<lambda>t. snd (snd (SaveReceipt const_host NoFault t rival_receipt)))\<rparr>"

lemma others_ok_id: "others_ok h c id"
  by (simp add: others_ok_def)

lemma others_ok_save:
  assumes "rc_ContractID r \<noteq> c" shows "others_ok h c (\<lambda>t. snd (snd (SaveReceipt h io t r)))"
  unfolding others_ok_def
proof (intro allI impI conjI)
  fix t assume t: "chain_ok h t" "c \<notin> set (map rr_contract_id t)"
  show "chain_ok h (snd (snd (SaveReceipt h io t r)))" by (rule SaveReceipt_chain_ok [OF t(1)])
  have "pair_ok h t (rc_EmitterAgentID r) (rc_ExecutorAgentID r)" using t(1) by (simp add: chain_ok_def)
  from SaveReceipt_eq [OF this, of io]
  have "snd (snd (SaveReceipt h io t r)) = t \<or> snd (snd (SaveReceipt h io t r)) = append_row t r" by presburger
  then show "c \<notin> set (map rr_contract_id (snd (snd (SaveReceipt h io t r))))"
    using t(2) assms by (elim disjE) (simp_all add: append_row_def)
qed

lemma sample_ready: "ready const_host sample_append ''c1'' sample_env"
proof -
  let ?p = "\<lambda>t. place_receipt const_host sample_append ''r1'' t sample_receipt"
  have pl: "?p t = sample_receipt\<lparr>rc_ReceiptID := ''r1'', rc_PreviousReceiptHash := []\<rparr> \<or>
      ?p t = sample_receipt\<lparr>rc_ReceiptID := ''r1'', rc_PreviousReceiptHash := ''h''\<rparr>" for t
    by (cases "GetLastReceipt t ''a'' ''b''")
      (simp_all add: place_receipt_def sample_append_def sample_receipt_def const_host_def)
  have v: "ValidateReceipt (sample_receipt\<lparr>rc_ReceiptID := ''r1'', rc_PreviousReceiptHash := q\<rparr>) = None" for q
    by (simp add: ValidateReceipt_def sample_receipt_def CurrentProtocolVersion_def) code_simp
  have e: "encodable bits_format (receipt_json const_host (executor_view
      (sample_receipt\<lparr>rc_ReceiptID := ''r1'', rc_PreviousReceiptHash := q, rc_ExecutorSignedAt := 7\<rparr>)))"
    if "q = [] \<or> q = ''h''" for q
    using that by (auto simp: receipt_json_def receipt_members_def executor_view_def sample_receipt_def territory_json_def
        jslice_def const_host_def sample_host_def decimal_def nat_digits.simps omit_str_def omit_int_def omit_list_def
        omit_time_def byte_def)
  have "ValidateReceipt (?p t) = None \<and>
      encodable bits_format (receipt_json const_host (executor_view ((?p t)\<lparr>rc_ExecutorSignedAt := 7\<rparr>)))" for t
    using pl [of t] v e by (elim disjE) simp_all
  then show ?thesis unfolding ready_def by (auto simp: sample_env_def const_host_def sample_receipt_def)
qed

lemma raced_ready: "ready const_host sample_append ''c1'' raced_env"
  using sample_ready by (simp add: ready_def raced_env_def)

theorem SignAndSaveReceipt_progress_witness:
  "succeeds sample_append ''c1''
     (SignAndSaveReceipt const_host sample_append (\<lambda>i. if i = 0 then raced_env else sample_env) [])"
proof (rule SignAndSaveReceipt_progress [where i = 1 and signer = sample_signer])
  fix i :: nat
  let ?e = "if i = 0 then raced_env else sample_env"
  have "others_ok const_host ''c1'' (at_between raced_env)"
    unfolding raced_env_def by (simp add: others_ok_save rival_receipt_def)
  then show "ready const_host sample_append ''c1'' ?e \<and> others_ok const_host ''c1'' (at_between ?e) \<and>
      others_ok const_host ''c1'' (at_after ?e)"
    using sample_ready raced_ready others_ok_id by (simp add: raced_env_def sample_env_def id_def)
qed (simp_all add: const_host_def bits_format_ok sample_append_def append_attempts_def DefaultAppendMaxAttempts_def sample_env_def)

end
