(* ===== verification/Settlement.thy ===== *)
theory Settlement
  imports Evaluator_Safety Receipt_Append
begin

text \<open>
  The settlement engine: \<open>pkg/settlement/engine.go\<close>. A run evaluates the envelope's assertions, re-evaluates them when
  some fail, and appends a signed receipt for the contract. The systems the passes see, the circumstances of the append
  and what other processes do to the chain before it are arguments.
\<close>

section \<open>Conversions\<close>

definition convertParams :: "AssertionParams \<Rightarrow> pvalue gomap" where
  "convertParams p =
     (if ap_FilePath p \<noteq> [] then [(''path'', PStr (ap_FilePath p))] else []) @
     (if ap_ExpectedSHA256 p \<noteq> [] then [(''expected_hash'', PStr (ap_ExpectedSHA256 p))] else []) @
     (if ap_Command p \<noteq> [] then [(''command'', PStr (ap_Command p))] else []) @
     [(''expected_code'', PInt (ap_ExpectedExitCode p))] @
     (if ap_ContainsPattern p \<noteq> [] then [(''contains'', PStr (ap_ContainsPattern p))] else []) @
     (if ap_WorkingDir p \<noteq> [] then [(''cwd'', PStr (ap_WorkingDir p))] else []) @
     (if ap_Port p \<noteq> 0 then [(''port'', PInt (ap_Port p))] else [])"

definition convertAssertion :: "Assertion \<Rightarrow> SettAssertion" where
  "convertAssertion a =
     \<lparr>sa_ID = as_ID a, sa_Type = as_Type a, sa_Params = convertParams (as_Params a),
      sa_Timeout = nanos (ap_TimeoutSeconds (as_Params a))\<rparr>"

definition convertAssertions :: "Assertion list \<Rightarrow> SettAssertion list" where
  "convertAssertions as = map convertAssertion as"

definition convertResult :: "eval_result \<Rightarrow> Result" where
  "convertResult r = (case r of EvalPass \<Rightarrow> ResultPass | EvalFail \<Rightarrow> ResultFail | EvalError \<Rightarrow> ResultSkip)"

definition convertEvidence :: "Evidence \<Rightarrow> AssertionEvidence" where
  "convertEvidence v =
     \<lparr>ae_Command = vd_Command v, ae_ExitCode = vd_ExitCode v, ae_StdoutHash = vd_Stdout v, ae_StderrHash = vd_Stderr v,
      ae_StdoutContains = Contains (vd_Stdout v) [], ae_StderrContains = Contains (vd_Stderr v) [],
      ae_FilePath = (if vd_FileExists v then ''<path>'' else []),
      ae_ExpectedSHA256 = (if vd_ActualHash v \<noteq> [] then vd_ExpectedHash v else []),
      ae_ActualSHA256 = (if vd_ActualHash v \<noteq> [] then vd_ActualHash v else []),
      ae_FileWasModified = vd_FileExists v, ae_GitStatus = vd_GitStatus v, ae_Port = 0,
      ae_PortWasFree = vd_PortAvailable v, ae_CheckedAt = vd_CheckedAt v\<rparr>"

definition convertResults :: "(eval_note \<Rightarrow> string) \<Rightarrow> EvalResult list \<Rightarrow> AssertionResult list" where
  "convertResults msg rs =
     map (\<lambda>r. \<lparr>ar_AssertionIndex = er_AssertionIndex r, ar_AssertionID = er_AssertionID r, ar_AssertionType = er_AssertionType r,
                ar_Result = convertResult (er_Result r), ar_Evidence = convertEvidence (er_Evidence r),
                ar_Message = msg (er_Message r)\<rparr>) rs"

definition convertTerritory :: "EnvTerritory \<Rightarrow> EnvTerritory" where
  "convertTerritory t =
     \<lparr>et_Repository = et_Repository t, et_Branch = et_Branch t, et_WorkspacePath = et_WorkspacePath t\<rparr>"

section \<open>Verdicts\<close>

definition computeVerdict :: "EvalResult list \<Rightarrow> Verdict \<times> nat" where
  "computeVerdict rs =
     (let allPass = \<not> list_ex (\<lambda>r. er_Result r = EvalFail) rs; hasErrors = list_ex (\<lambda>r. er_Result r = EvalError) rs;
          failed = length (filter (\<lambda>r. er_Result r = EvalFail \<or> er_Result r = EvalError) rs) in
      if allPass \<and> \<not> hasErrors then (VerdictSettledClean, 0) else (VerdictFailed, failed))"

definition DefaultRemediationLimit :: nat where
  "DefaultRemediationLimit = 1"

record Engine =
  eg_evaluator :: Evaluator
  eg_signer :: "BasicSigner option"
  eg_remMax :: nat

datatype engine_error = SignerMissing

definition NewEngine :: "Evaluator \<Rightarrow> BasicSigner option \<Rightarrow> int \<Rightarrow> engine_error + Engine" where
  "NewEngine evaluator signer remediationMax =
     (if signer = None then Inl SignerMissing
      else Inr \<lparr>eg_evaluator = evaluator, eg_signer = signer,
                eg_remMax = (if remediationMax \<le> 0 then DefaultRemediationLimit else nat remediationMax)\<rparr>)"

text \<open>Pass \<open>k\<close> sees the systems \<open>worlds k\<close>.\<close>

fun remediate ::
  "(nat \<Rightarrow> EvalResult list) \<Rightarrow> nat \<Rightarrow> nat \<Rightarrow> nat \<Rightarrow> Verdict \<times> nat \<times> EvalResult list" where
  "remediate pass initialFailed attempt 0 = (VerdictFailed, attempt - 1, [])"
| "remediate pass initialFailed attempt (Suc left) =
     (let results = pass attempt in
      if fst (computeVerdict results) = VerdictSettledClean
      then (if 0 < initialFailed then VerdictRemediated else VerdictSettledClean, attempt, results)
      else if left = 0 then (VerdictFailed, attempt, results)
      else remediate pass initialFailed (Suc attempt) left)"

definition runRemediation ::
  "(nat \<Rightarrow> EvalResult list) \<Rightarrow> nat \<Rightarrow> nat \<Rightarrow> Verdict \<times> nat \<times> EvalResult list" where
  "runRemediation pass remMax initialFailed = remediate pass initialFailed 1 remMax"

definition assess :: "(nat \<Rightarrow> EvalResult list) \<Rightarrow> nat \<Rightarrow> Verdict \<times> nat \<times> EvalResult list" where
  "assess pass remMax =
     (case computeVerdict (pass 0) of
        (v, failed) \<Rightarrow> if v = VerdictFailed then runRemediation pass remMax failed else (v, 0, pass 0))"

section \<open>Settling\<close>

record settle_env =
  se_worlds :: "nat \<Rightarrow> nat \<Rightarrow> system"
  se_message :: "eval_note \<Rightarrow> string"
  se_lookup_fails :: bool
  se_meanwhile :: "receipt_table \<Rightarrow> receipt_table"
  se_attempts :: "nat \<Rightarrow> attempt_env"
  se_relookup_fails :: bool

datatype settle_error =
  EmitterRequired | EnvelopeInvalid | EmitterMismatch | ExecutorMismatch | EnvelopeHashFailed | EnvelopeHashMismatch
  | LookupFailed | SettleAppend append_error | WinnerLost

record SettlementInput =
  si_Envelope :: CognitiveTaskEnvelope
  si_EmitterAgentID :: string
  si_ExecutorAgentID :: string

definition new_receipt ::
  "settle_env \<Rightarrow> CognitiveTaskEnvelope \<Rightarrow> string \<Rightarrow> Verdict \<Rightarrow> EvalResult list \<Rightarrow> SettlementReceipt" where
  "new_receipt env e expectedHash verdict results =
     \<lparr>rc_ProtocolVersion = CurrentProtocolVersion, rc_MeshID = ev_MeshID e, rc_ReceiptID = [], rc_ContractID = ev_EnvelopeID e,
      rc_EnvelopeHash = expectedHash, rc_EmitterAgentID = [], rc_ExecutorAgentID = [],
      rc_Territory = convertTerritory (ev_Territory e), rc_Verdict = verdict,
      rc_Assertions = Some (convertResults (se_message env) results), rc_RemediationChain = [], rc_ExecutorSignature = [],
      rc_ExecutorSignedAt = 0, rc_PreviousReceiptHash = [], rc_SequenceNumber = 0, rc_EmitterAcceptance = NoAcceptance,
      rc_EmitterAcceptanceAt = None, rc_DisputeReason = [], rc_EmitterSignature = []\<rparr>"

definition settle_guard :: "go_host \<Rightarrow> SettlementInput \<Rightarrow> settle_error + string" where
  "settle_guard h inp =
     (let e = si_Envelope inp in
      if si_EmitterAgentID inp = [] then Inl EmitterRequired
      else if Validate h e \<noteq> None then Inl EnvelopeInvalid
      else if ev_EmitterAgentID e \<noteq> si_EmitterAgentID inp then Inl EmitterMismatch
      else if si_ExecutorAgentID inp \<noteq> [] \<and> ev_ExecutorAgentID e \<noteq> si_ExecutorAgentID inp then Inl ExecutorMismatch
      else case ComputeEnvelopeHash h e of
             Inl _ \<Rightarrow> Inl EnvelopeHashFailed
           | Inr expectedHash \<Rightarrow>
               if ev_EnvelopeHash e \<noteq> [] \<and> ev_EnvelopeHash e \<noteq> expectedHash then Inl EnvelopeHashMismatch
               else Inr expectedHash)"

definition settle_pass :: "go_host \<Rightarrow> Engine \<Rightarrow> settle_env \<Rightarrow> CognitiveTaskEnvelope \<Rightarrow> nat \<Rightarrow> EvalResult list" where
  "settle_pass h eng env e k =
     EvaluateAll (gh_sha h) (se_worlds env k) (eg_evaluator eng) (convertAssertions (assertions_of e))"

definition Settle ::
  "go_host \<Rightarrow> Engine \<Rightarrow> settle_env \<Rightarrow> SettlementInput \<Rightarrow> receipt_table \<times> nat \<Rightarrow>
   (settle_error + SettlementReceipt \<times> nat) \<times> receipt_table \<times> nat" where
  "Settle h eng env inp st =
     (case (st, settle_guard h inp) of
        ((t, n), Inl x) \<Rightarrow> (Inl x, t, n)
      | ((t, n), Inr expectedHash) \<Rightarrow>
          let e = si_Envelope inp in
          if se_lookup_fails env then (Inl LookupFailed, t, n)
          else (case GetReceiptByContractID t (ev_EnvelopeID e) of
            Inr existing \<Rightarrow> (Inr (existing, 0), t, n)
          | Inl _ \<Rightarrow>
              (case assess (settle_pass h eng env e) (eg_remMax eng) of
                 (verdict, remediationUsed, results) \<Rightarrow>
                   let cfg = \<lparr>ac_EmitterAgentID = ev_EmitterAgentID e, ac_ExecutorAgentID = ev_ExecutorAgentID e,
                              ac_Signer = eg_signer eng, ac_MaxAttempts = 0\<rparr>;
                       attempts = (\<lambda>i. (se_attempts env i)
                                       \<lparr>at_build := Some (new_receipt env e expectedHash verdict results)\<rparr>) in
                   (case SignAndSaveReceipt h cfg attempts (se_meanwhile env t) of
                      (Inr rec, t') \<Rightarrow> (Inr (rec, remediationUsed), t', n)
                    | (Inl err, t') \<Rightarrow>
                        if err = AppendChain ErrDuplicateContract
                        then (if se_relookup_fails env then (Inl WinnerLost, t', n)
                              else case GetReceiptByContractID t' (ev_EnvelopeID e) of
                                     Inr existing \<Rightarrow> (Inr (existing, 0), t', Suc n)
                                   | Inl _ \<Rightarrow> (Inl WinnerLost, t', n))
                        else (Inl (SettleAppend err), t', n)))))"

definition VerifyReceipt :: "go_host \<Rightarrow> SettlementReceipt \<Rightarrow> string \<Rightarrow> sign_receipt_error option" where
  "VerifyReceipt h r executorPublicKey = VerifyExecutorSignature h r executorPublicKey"

section \<open>Verdicts are honest\<close>

definition all_pass :: "EvalResult list \<Rightarrow> bool" where
  "all_pass rs \<longleftrightarrow> list_all (\<lambda>r. er_Result r = EvalPass) rs"

lemma computeVerdict_cases:
  "computeVerdict rs = (if all_pass rs then (VerdictSettledClean, 0)
     else (VerdictFailed, length (filter (\<lambda>r. er_Result r \<noteq> EvalPass) rs)))"
proof -
  have a: "(\<not> list_ex (\<lambda>r. er_Result r = EvalFail) rs \<and> \<not> list_ex (\<lambda>r. er_Result r = EvalError) rs) \<longleftrightarrow> all_pass rs"
  proof (induction rs)
    case (Cons r rs)
    then show ?case by (cases "er_Result r") (auto simp: all_pass_def)
  qed (simp add: all_pass_def)
  have "filter (\<lambda>r. er_Result r = EvalFail \<or> er_Result r = EvalError) rs = filter (\<lambda>r. er_Result r \<noteq> EvalPass) rs"
  proof (rule filter_cong [OF refl])
    fix r show "(er_Result r = EvalFail \<or> er_Result r = EvalError) = (er_Result r \<noteq> EvalPass)" by (cases "er_Result r") auto
  qed
  then show ?thesis unfolding computeVerdict_def Let_def a by simp
qed

lemma failed_pos: "\<not> all_pass rs \<Longrightarrow> 0 < length (filter (\<lambda>r. er_Result r \<noteq> EvalPass) rs)"
  by (auto simp: all_pass_def list_all_iff filter_empty_conv)

lemma remediate_spec:
  assumes "remediate pass f a (Suc n) = (v, used, rs)" and "0 < f"
  shows "a \<le> used \<and> used \<le> a + n \<and> rs = pass used \<and>
         v = (if all_pass rs then VerdictRemediated else VerdictFailed) \<and>
         (\<forall>k. a \<le> k \<and> k < used \<longrightarrow> \<not> all_pass (pass k)) \<and> (v = VerdictFailed \<longrightarrow> used = a + n)"
  using assms
proof (induction n arbitrary: a)
  case 0
  then show ?case by (auto simp: Let_def computeVerdict_cases split: if_splits)
next
  case (Suc n)
  show ?case
  proof (cases "all_pass (pass a)")
    case True
    then show ?thesis using Suc.prems by (auto simp: Let_def computeVerdict_cases)
  next
    case False
    then have "remediate pass f (Suc a) (Suc n) = (v, used, rs)"
      using Suc.prems(1) by (simp add: Let_def computeVerdict_cases)
    note i = Suc.IH [OF this Suc.prems(2)]
    have u: "Suc a \<le> used" "used \<le> Suc a + n" "v = VerdictFailed \<longrightarrow> used = Suc a + n" using i by blast+
    have "\<forall>k. a \<le> k \<and> k < used \<longrightarrow> \<not> all_pass (pass k)" using i False by (metis Suc_leI le_neq_implies_less)
    moreover have "a \<le> used" "used \<le> a + Suc n" "v = VerdictFailed \<longrightarrow> used = a + Suc n" using u by simp_all
    ultimately show ?thesis using i by blast
  qed
qed

text \<open>C12. Honest verdicts: an assessment reports the results of one pass over the assertions. It is clean exactly when the
  first pass passes entirely; it is repaired exactly when the first pass does not and the reported pass is the first one
  that does; it is failed only when no pass up to the limit passed. At most the configured number of extra passes is made.\<close>

theorem assess_honest:
  assumes "0 < remMax" and "assess pass remMax = (v, used, rs)"
  shows "rs = pass used \<and> used \<le> remMax \<and> (\<forall>k < used. \<not> all_pass (pass k)) \<and>
         (v = VerdictSettledClean \<longleftrightarrow> used = 0) \<and> (v = VerdictFailed \<longleftrightarrow> used = remMax \<and> \<not> all_pass rs) \<and>
         v \<in> {VerdictSettledClean, VerdictRemediated, VerdictFailed} \<and> (v \<noteq> VerdictFailed \<longleftrightarrow> all_pass rs)"
proof (cases "all_pass (pass 0)")
  case True
  then show ?thesis using assms by (auto simp: assess_def computeVerdict_cases)
next
  case False
  obtain n where n: "remMax = Suc n" using assms(1) by (cases remMax) auto
  have "remediate pass (length (filter (\<lambda>r. er_Result r \<noteq> EvalPass) (pass 0))) 1 (Suc n) = (v, used, rs)"
    using assms(2) False n by (simp add: assess_def computeVerdict_cases runRemediation_def)
  from remediate_spec [OF this failed_pos [OF False]]
  have s: "1 \<le> used" "used \<le> 1 + n" "rs = pass used" "v = (if all_pass rs then VerdictRemediated else VerdictFailed)"
    "\<forall>k. 1 \<le> k \<and> k < used \<longrightarrow> \<not> all_pass (pass k)" "v = VerdictFailed \<longrightarrow> used = 1 + n"
    by blast+
  have k: "\<forall>k < used. \<not> all_pass (pass k)" using s(5) False by (metis less_one not_le)
  have u: "used \<noteq> 0" "used \<le> remMax" using s(1,2) n by linarith+
  have f: "used = remMax" if "v = VerdictFailed" using s(6) that unfolding n plus_1_eq_Suc by blast
  show ?thesis
  proof (cases "all_pass rs")
    case True
    then have "v = VerdictRemediated" using s(4) by simp
    then show ?thesis using k u True s(3) by blast
  next
    case False
    then have "v = VerdictFailed" using s(4) by simp
    then show ?thesis using k u False s(3) f by blast
  qed
qed

end
