(* ===== verification/Settlement_Safety.thy ===== *)
theory Settlement_Safety
  imports Settlement
begin

text \<open>
  A contract is settled once: the receipt of a successful run is the contract's receipt for good, and every later run
  returns it without touching the chain. What the engine relies on of the store is the interface \<open>contract_ledger\<close>.
\<close>

section \<open>Ledgers of contracts\<close>

locale contract_ledger =
  fixes lookup :: "'db \<Rightarrow> string \<Rightarrow> 'r option"
    and add :: "'db \<Rightarrow> 'call \<Rightarrow> 'r option \<times> 'db"
    and contract :: "'r \<Rightarrow> string"
    and ok :: "'db \<Rightarrow> bool"
  assumes ok_add: "ok db \<Longrightarrow> ok (snd (add db c))"
    and lookup_added: "ok db \<Longrightarrow> add db c = (Some r, db') \<Longrightarrow> lookup db' (contract r) = Some r"
    and lookup_kept: "ok db \<Longrightarrow> lookup db k = Some r \<Longrightarrow> lookup (snd (add db c)) k = Some r"
    and lookup_fresh: "ok db \<Longrightarrow> add db c = (Some r, db') \<Longrightarrow> lookup db (contract r) = None"
begin

definition adds :: "'call list \<Rightarrow> 'db \<Rightarrow> 'db" where
  "adds cs db = foldl (\<lambda>d c. snd (add d c)) db cs"

lemma adds_ok: "ok db \<Longrightarrow> ok (adds cs db)"
  unfolding adds_def by (induction cs arbitrary: db) (auto simp: ok_add)

lemma adds_kept: "ok db \<Longrightarrow> lookup db k = Some r \<Longrightarrow> lookup (adds cs db) k = Some r"
  unfolding adds_def by (induction cs arbitrary: db) (auto simp: ok_add lookup_kept)

lemma first_wins: "ok db \<Longrightarrow> add db c = (Some r, db') \<Longrightarrow> lookup (adds cs db') (contract r) = Some r"
  using lookup_added ok_add [of db c] adds_kept by fastforce

lemma no_second: "ok db \<Longrightarrow> add db c = (Some r, db') \<Longrightarrow> add (adds cs db') d = (Some q, db'') \<Longrightarrow> contract q \<noteq> contract r"
  using first_wins [of db c r db' cs] lookup_fresh [of "adds cs db'" d q db''] adds_ok [of db' cs] ok_add [of db c] by fastforce

end

definition ledger_lookup :: "receipt_table \<Rightarrow> string \<Rightarrow> SettlementReceipt option" where
  "ledger_lookup t c = (case GetReceiptByContractID t c of Inl _ \<Rightarrow> None | Inr r \<Rightarrow> Some r)"

definition ledger_add :: "go_host \<Rightarrow> receipt_table \<Rightarrow> db_fault \<times> SettlementReceipt \<Rightarrow> SettlementReceipt option \<times> receipt_table" where
  "ledger_add h t call =
     (case SaveReceipt h (fst call) t (snd call) of
        (None, r, t') \<Rightarrow> (Some r, t')
      | (Some _, _, t') \<Rightarrow> (None, t'))"

lemma ledger_add_snd: "snd (ledger_add h t c) = snd (snd (SaveReceipt h (fst c) t (snd c)))"
  by (simp add: ledger_add_def split: prod.splits option.splits)

lemma ledger_lookup_find:
  "ledger_lookup t c = map_option row_receipt (find (\<lambda>row. rr_contract_id row = c) t)"
  by (simp add: ledger_lookup_def GetReceiptByContractID_def split: option.splits)

lemma ledger_lookup_append:
  "ledger_lookup (append_row t r) c =
     (case ledger_lookup t c of
        Some q \<Rightarrow> Some q
      | None \<Rightarrow> if rc_ContractID r = c then Some (appended t r) else None)"
  by (simp add: ledger_lookup_find append_row_def find_append row_receipt_def split: option.splits)

lemma ledger_lookup_None: "ledger_lookup t c = None \<longleftrightarrow> c \<notin> set (map rr_contract_id t)"
  by (auto simp: ledger_lookup_find find_None_iff)

lemma SaveReceipt_ok:
  assumes "chain_ok h t" and "SaveReceipt h io t r = (None, r', t')"
  shows "may_append h t r = None \<and> r' = appended t r \<and> t' = append_row t r"
proof -
  have "pair_ok h t (rc_EmitterAgentID r) (rc_ExecutorAgentID r)" using assms(1) by (simp add: chain_ok_def)
  from SaveReceipt_eq [OF this, of io] show ?thesis
    using assms(2) by (auto split: if_splits option.splits)
qed

lemma SaveReceipt_table:
  assumes "chain_ok h t" shows "snd (snd (SaveReceipt h io t r)) \<in> {t, append_row t r}"
proof -
  have "pair_ok h t (rc_EmitterAgentID r) (rc_ExecutorAgentID r)" using assms by (simp add: chain_ok_def)
  from SaveReceipt_eq [OF this, of io] show ?thesis by (simp split: if_splits)
qed

interpretation receipts: contract_ledger ledger_lookup "ledger_add h" rc_ContractID "chain_ok h" for h
proof unfold_locales
  fix db c r db' k
  assume ok: "chain_ok h db"
  show "chain_ok h (snd (ledger_add h db c))" unfolding ledger_add_snd by (rule SaveReceipt_chain_ok [OF ok])
  show "ledger_lookup (snd (ledger_add h db c)) k = Some r" if "ledger_lookup db k = Some r"
    using SaveReceipt_table [OF ok, of "fst c" "snd c"] that unfolding ledger_add_snd by (auto simp: ledger_lookup_append)
  assume add: "ledger_add h db c = (Some r, db')"
  then have s: "SaveReceipt h (fst c) db (snd c) = (None, r, db')"
    by (auto simp: ledger_add_def split: prod.splits option.splits)
  note a = SaveReceipt_ok [OF ok s]
  have fresh: "ledger_lookup db (rc_ContractID r) = None"
    using a may_append_None(2) [of h db "snd c"] by (simp add: ledger_lookup_None)
  then show "ledger_lookup db (rc_ContractID r) = None" .
  show "ledger_lookup db' (rc_ContractID r) = Some r"
    using a fresh by (simp add: ledger_lookup_append)
qed

lemma adds_save_all: "receipts.adds h cs t = save_all h cs t"
  unfolding receipts.adds_def
proof (induction cs arbitrary: t)
  case (Cons c cs)
  then show ?case by (cases c) (simp add: ledger_add_snd)
qed simp

section \<open>Settling once\<close>

definition keeps_chain :: "go_host \<Rightarrow> (receipt_table \<Rightarrow> receipt_table) \<Rightarrow> bool" where
  "keeps_chain h f \<longleftrightarrow> (\<forall>t. chain_ok h t \<longrightarrow> chain_ok h (f t))"

definition fair_env :: "go_host \<Rightarrow> attempt_env \<Rightarrow> bool" where
  "fair_env h env \<longleftrightarrow> keeps_chain h (at_between env) \<and> keeps_chain h (at_after env)"

lemma SignReceipt_contract: "rc_ContractID (snd (SignReceipt h now q s)) = rc_ContractID q"
  by (simp add: SignReceipt_def Let_def split: option.splits sum.splits)

lemma append_attempt_saved:
  assumes "chain_ok h t" and "keeps_chain h (at_between env)" and "append_attempt h cfg signer env t = (res, t')"
    and "\<And>rec. at_build env = Some rec \<Longrightarrow> rc_ContractID rec = c"
  shows "chain_ok h t' \<and> (\<forall>saved. res = Inr saved \<longrightarrow> rc_ContractID saved = c \<and> ledger_lookup t' c = Some saved)"
proof (cases "at_build env")
  case (Some rec)
  let ?q = "place_receipt h cfg (at_id env) t rec"
  obtain e r where s: "SignReceipt h (at_now env) ?q signer = (e, r)" by fastforce
  have r: "rc_ContractID r = c" using SignReceipt_contract [of h "at_now env" ?q signer] s assms(4) [OF Some] by simp
  show ?thesis
  proof (cases "at_read_fails env \<or> e \<noteq> None")
    case True
    then show ?thesis using assms(1,3) Some s by (auto simp: append_attempt_def split: if_splits)
  next
    case False
    obtain x q u where v: "SaveReceipt h (at_io env) (at_between env t) r = (x, q, u)" using prod_cases3 by blast
    have b: "chain_ok h (at_between env t)" using assms(1,2) by (simp add: keeps_chain_def)
    have k: "chain_ok h u" using SaveReceipt_chain_ok [OF b, of "at_io env" r] v by simp
    show ?thesis
    proof (cases x)
      case None
      note a = SaveReceipt_ok [OF b v [unfolded None]]
      have "ledger_lookup (at_between env t) c = None" using a may_append_None(2) [of h "at_between env t" r] r
        by (simp add: ledger_lookup_None)
      then have "ledger_lookup u c = Some q" using a r by (simp add: ledger_lookup_append)
      then show ?thesis using None assms(3) Some s False v k a r by (auto simp: append_attempt_def)
    next
      case (Some y)
      then show ?thesis using assms(3) \<open>at_build env = Some rec\<close> s False v k by (auto simp: append_attempt_def)
    qed
  qed
qed (use assms(1,3) in \<open>auto simp: append_attempt_def\<close>)

lemma append_loop_saved:
  assumes "chain_ok h t" and "list_all (\<lambda>env. fair_env h env \<and> (\<forall>rec. at_build env = Some rec \<longrightarrow> rc_ContractID rec = c)) envs"
    and "append_loop h cfg signer n envs t = (res, t')"
  shows "chain_ok h t' \<and> (\<forall>saved. res = Inr saved \<longrightarrow> rc_ContractID saved = c \<and> ledger_lookup t' c = Some saved)"
  using assms
proof (induction envs arbitrary: t)
  case (Cons env envs)
  obtain r u where a: "append_attempt h cfg signer env t = (r, u)" by fastforce
  have "keeps_chain h (at_between env)" "\<And>rec. at_build env = Some rec \<Longrightarrow> rc_ContractID rec = c"
    using Cons.prems(2) by (auto simp: fair_env_def)
  note s = append_attempt_saved [OF Cons.prems(1) this(1) a this(2)]
  have "chain_ok h (at_after env u)" using s Cons.prems(2) by (simp add: fair_env_def keeps_chain_def)
  note ih = Cons.IH [OF this]
  show ?case
  proof (cases r)
    case (Inr saved)
    then show ?thesis using s a Cons.prems(1,3) by (auto split: if_splits)
  next
    case (Inl e)
    then show ?thesis using s a Cons.prems ih by (auto split: if_splits append_error.splits)
  qed
qed auto

definition fair_settle :: "go_host \<Rightarrow> settle_env \<Rightarrow> bool" where
  "fair_settle h env \<longleftrightarrow> keeps_chain h (se_meanwhile env) \<and> (\<forall>i. fair_env h (se_attempts env i))"

lemma fair_env_build [simp]: "fair_env h (env\<lparr>at_build := b\<rparr>) = fair_env h env"
  by (simp add: fair_env_def)

lemma Settle_records:
  assumes "chain_ok h t" and "fair_settle h env" and "Settle h eng env inp (t, n) = (res, t', n')"
  shows "chain_ok h t' \<and> (\<forall>r u. res = Inr (r, u) \<longrightarrow> ledger_lookup t' (ev_EnvelopeID (si_Envelope inp)) = Some r)"
proof (cases "settle_guard h inp")
  case (Inr x)
  let ?e = "si_Envelope inp"
  show ?thesis
  proof (cases "se_lookup_fails env \<or> ledger_lookup t (ev_EnvelopeID ?e) \<noteq> None")
    case True
    then consider "se_lookup_fails env" | q where "\<not> se_lookup_fails env" "GetReceiptByContractID t (ev_EnvelopeID ?e) = Inr q"
      by (auto simp: ledger_lookup_def split: sum.splits)
    then show ?thesis
    proof cases
      case 1
      then show ?thesis using Inr assms(1,3) by (simp add: Settle_def) blast
    next
      case 2
      then have "Settle h eng env inp (t, n) = (Inr (q, 0), t, n)" using Inr by (simp add: Settle_def Let_def)
      then show ?thesis using 2 assms(1,3) by (simp add: ledger_lookup_def)
    qed
  next
    case False
    then obtain y where y: "GetReceiptByContractID t (ev_EnvelopeID ?e) = Inl y"
      by (auto simp: ledger_lookup_def split: sum.splits)
    obtain v used rs where v: "assess (settle_pass h eng env ?e) (eg_remMax eng) = (v, used, rs)" by (metis prod_cases3)
    let ?cfg = "\<lparr>ac_EmitterAgentID = ev_EmitterAgentID ?e, ac_ExecutorAgentID = ev_ExecutorAgentID ?e, ac_Signer = eg_signer eng, ac_MaxAttempts = 0\<rparr>"
    let ?at = "\<lambda>i. (se_attempts env i)\<lparr>at_build := Some (new_receipt env ?e x v rs)\<rparr>"
    obtain res' u where s: "SignAndSaveReceipt h ?cfg ?at (se_meanwhile env t) = (res', u)" by fastforce
    have m: "chain_ok h (se_meanwhile env t)" using assms(1,2) by (simp add: fair_settle_def keeps_chain_def)
    have "chain_ok h u \<and> (\<forall>saved. res' = Inr saved \<longrightarrow> rc_ContractID saved = ev_EnvelopeID ?e \<and> ledger_lookup u (ev_EnvelopeID ?e) = Some saved)"
    proof (cases "eg_signer eng")
      case None
      then show ?thesis using s m by (auto simp: SignAndSaveReceipt_def)
    next
      case (Some sg)
      show ?thesis
        by (rule append_loop_saved [OF m])
          (use s Some assms(2) in \<open>auto simp: SignAndSaveReceipt_def fair_settle_def list_all_iff new_receipt_def\<close>)
    qed
    then show ?thesis using assms(3) Inr False y v s
      by (cases res') (auto simp: Settle_def ledger_lookup_def Let_def split: if_splits sum.splits)
  qed
qed (use assms in \<open>auto simp: Settle_def\<close>)

text \<open>C11. A contract is settled once: after a run of \<open>Settle\<close> returned a receipt, and whatever receipts other writers save
  afterwards, any further run for the contract (another engine, other assertion outcomes) returns that same receipt, makes no
  evaluation visible and leaves the chain as it is; meanwhile a different receipt for the contract can never be saved.\<close>

theorem Settle_once:
  assumes "chain_ok h t" and "fair_settle h env" and "Settle h eng env inp (t, n) = (Inr (r, used), t', n')"
    and "settle_guard h inp' = Inr x" and "ev_EnvelopeID (si_Envelope inp') = ev_EnvelopeID (si_Envelope inp)"
    and "\<not> se_lookup_fails env'"
  shows "Settle h eng' env' inp' (save_all h calls t', m) = (Inr (r, 0), save_all h calls t', m) \<and>
         (SaveReceipt h io (save_all h calls t') q = (None, q', t'') \<longrightarrow> rc_ContractID q \<noteq> ev_EnvelopeID (si_Envelope inp))"
proof -
  let ?c = "ev_EnvelopeID (si_Envelope inp)"
  have ok: "chain_ok h t'" and l: "ledger_lookup t' ?c = Some r" using Settle_records [OF assms(1-3)] by auto
  have k: "ledger_lookup (save_all h calls t') ?c = Some r"
    using receipts.adds_kept [OF ok l] by (simp add: adds_save_all)
  then have "GetReceiptByContractID (save_all h calls t') ?c = Inr r" by (auto simp: ledger_lookup_def split: sum.splits)
  then have "Settle h eng' env' inp' (save_all h calls t', m) = (Inr (r, 0), save_all h calls t', m)"
    using assms(4-6) by (simp add: Settle_def Let_def)
  moreover have "rc_ContractID q \<noteq> ?c" if s: "SaveReceipt h io (save_all h calls t') q = (None, q', t'')"
  proof -
    have "rc_ContractID q \<notin> set (map rr_contract_id (save_all h calls t'))"
      using SaveReceipt_ok [OF save_all_ok [OF ok] s] may_append_None(2) by blast
    then show ?thesis using k ledger_lookup_None by (metis option.distinct(1))
  qed
  ultimately show ?thesis by blast
qed


section \<open>Witnesses\<close>

definition sample_pass :: "nat \<Rightarrow> EvalResult list" where
  "sample_pass k = [outcome (if k = 0 then EvalFail else EvalPass) NoNote (new_result sample_system leak_assertion 0)]"

theorem assess_honest_witness:
  "assess sample_pass 2 = (VerdictRemediated, 1, sample_pass 1) \<and> \<not> all_pass (sample_pass 0) \<and> all_pass (sample_pass 1)"
proof -
  have p: "all_pass (sample_pass k) \<longleftrightarrow> k \<noteq> 0" for k by (simp add: all_pass_def sample_pass_def outcome_def)
  obtain v used rs where a: "assess sample_pass 2 = (v, used, rs)" by (metis prod_cases3)
  have h: "rs = sample_pass used" "\<forall>k < used. \<not> all_pass (sample_pass k)" "(v = VerdictSettledClean) = (used = 0)"
    "v \<in> {VerdictSettledClean, VerdictRemediated, VerdictFailed}" "(v \<noteq> VerdictFailed) = all_pass rs"
    using assess_honest [OF zero_less_numeral a] by blast+
  have "used \<noteq> 0" using a p by (auto simp: assess_def computeVerdict_cases runRemediation_def numeral_2_eq_2 Let_def split: if_splits)
  moreover have "\<not> 1 < used" using h(2) p by (metis one_neq_zero)
  ultimately have "used = 1" by simp
  then show ?thesis using h a p by auto
qed

text \<open>An engine with the sample signer on an envelope that is already settled when it is asked again.\<close>

definition sample_engine :: Engine where
  "sample_engine = \<lparr>eg_evaluator = sample_evaluator, eg_signer = Some sample_signer, eg_remMax = 1\<rparr>"

definition sample_settle_env :: settle_env where
  "sample_settle_env = \<lparr>se_worlds = (\<lambda>_ _. sample_system), se_message = (\<lambda>_. []), se_lookup_fails = False, se_meanwhile = id,
     se_attempts = (\<lambda>_. sample_env), se_relookup_fails = False\<rparr>"

definition sample_input :: SettlementInput where
  "sample_input = \<lparr>si_Envelope = sample_envelope, si_EmitterAgentID = ''a'', si_ExecutorAgentID = ''b''\<rparr>"

definition sample_settled :: receipt_table where
  "sample_settled = append_row [] (sample_receipt\<lparr>rc_ContractID := ''e1''\<rparr>)"

lemma sample_settled_ok: "chain_ok sample_host sample_settled"
  unfolding sample_settled_def
  by (rule append_row_ok) (simp_all add: may_append_def pair_rows_def chain_end_def sample_receipt_def)

lemma sample_guard: "\<exists>x. settle_guard sample_host sample_input = Inr x"
proof -
  obtain x where "hash_json sample_host (envelope_json sample_host (signable_envelope sample_envelope)) = Some x"
    using sample_hash by blast
  then have "ComputeEnvelopeHash sample_host sample_envelope = Inr x"
    using sample_valid(1) by (simp add: ComputeEnvelopeHash_def)
  then show ?thesis using sample_valid(1) by (simp add: settle_guard_def sample_input_def sample_envelope_def)
qed

theorem Settle_once_witness:
  "\<exists>r. Settle sample_host sample_engine sample_settle_env sample_input (sample_settled, 0) = (Inr (r, 0), sample_settled, 0) \<and>
     Settle sample_host sample_engine sample_settle_env sample_input (save_all sample_host [(NoFault, rival_receipt)] sample_settled, 0) =
       (Inr (r, 0), save_all sample_host [(NoFault, rival_receipt)] sample_settled, 0)"
proof -
  obtain x where x: "settle_guard sample_host sample_input = Inr x" using sample_guard by blast
  let ?r = "appended [] (sample_receipt\<lparr>rc_ContractID := ''e1''\<rparr>)"
  have "GetReceiptByContractID sample_settled ''e1'' = Inr ?r"
    by (simp add: GetReceiptByContractID_def sample_settled_def append_row_def row_receipt_def)
  then have s: "Settle sample_host sample_engine sample_settle_env sample_input (sample_settled, 0) = (Inr (?r, 0), sample_settled, 0)"
    using x by (simp add: Settle_def Let_def sample_settle_env_def sample_input_def sample_envelope_def)
  have "fair_settle sample_host sample_settle_env"
    by (simp add: fair_settle_def sample_settle_env_def keeps_chain_def fair_env_def sample_env_def)
  from Settle_once [OF sample_settled_ok this s x, of sample_settle_env sample_engine "[(NoFault, rival_receipt)]" 0] s
  show ?thesis by (auto simp: sample_settle_env_def)
qed

end
