(* ===== verification/Join_Log.thy ===== *)
theory Join_Log
  imports Go_Host
begin

text \<open>
  The join log (\<open>pkg/joinlog/joinlog.go\<close>): the append-only, hash-chained event log of the mesh, a SQLite table with
  a primary key and a unique index on the link, and its in-process subscribers.

  A \<open>time.Time\<close> is a pair of its instant in nanoseconds and the offset of its zone in seconds: the hash covers the
  text of the time in its own zone, the table the text in UTC, which \<open>time.Parse\<close> reads back as the same instant. A
  payload is raw JSON text or nil. \<open>jcs.Marshal\<close> of an event embeds the value of the payload, which the strict parser
  must accept. A database statement that fails is an argument of the operation. \<open>BEGIN IMMEDIATE\<close> makes an append one
  step also for other processes, which append by the same code.
\<close>

section \<open>Events\<close>

type_synonym zoned_time = "int \<times> int"

record JoinEvent =
  je_ID :: string
  je_Seq :: int
  je_Type :: string
  je_Actor :: string
  je_Payload :: "string option"
  je_CreatedAt :: zoned_time
  je_PrevHash :: string
  je_Hash :: string

definition zero_instant :: int where
  "zero_instant = nanos (-62135596800)"

definition two_digits :: "nat \<Rightarrow> string" where
  "two_digits n = [char_of (48 + n div 10), char_of (48 + n mod 10)]"

definition offset_text :: "int \<Rightarrow> string" where
  "offset_text off =
     (let zone = nat (\<bar>off\<bar> div 60) in
      (if off \<le> -60 then ''-'' else ''+'') @ two_digits (zone div 60) @ '':'' @ two_digits (zone mod 60))"

definition rfc3339 :: "go_host \<Rightarrow> zoned_time \<Rightarrow> string" where
  "rfc3339 h z =
     (case z of (t, off) \<Rightarrow>
        if off = 0 then gh_time h t
        else TrimSuffix (gh_time h (t + nanos off)) ''Z'' @ offset_text off)"

definition payload_json :: "string option \<Rightarrow> json option" where
  "payload_json p =
     (case p of
        None \<Rightarrow> Some JNull
      | Some s \<Rightarrow> if checkUnicodeAndSurrogates s then parseStrict s else None)"

definition event_members :: "go_host \<Rightarrow> JoinEvent \<Rightarrow> json \<Rightarrow> (string \<times> json) list" where
  "event_members h e payload =
     ([(''id'', JStr (je_ID e))] @ omit_int ''seq'' (je_Seq e) @
      [(''type'', JStr (je_Type e)), (''actor'', JStr (je_Actor e)), (''payload'', payload),
       (''created_at'', JStr (rfc3339 h (je_CreatedAt e)))] @
      omit_str ''prev_hash'' (je_PrevHash e) @ [(''hash'', JStr (je_Hash e))])"

datatype join_fault = JoinNoFault | JoinConn | JoinBegin | JoinHead | JoinInsert | JoinCommit

datatype join_error = NoEventID | EventEmpty | EventMarshal | JoinDatabase join_fault | JoinConstraint

definition ComputeEventHash :: "go_host \<Rightarrow> JoinEvent \<Rightarrow> join_error + string" where
  "ComputeEventHash h e =
     (if je_ID e = [] \<and> je_Type e = [] \<and> je_Actor e = [] then Inl EventEmpty
      else let cleared = e\<lparr>je_Hash := [], je_Seq := 0\<rparr> in
        case payload_json (je_Payload e) of
          None \<Rightarrow> Inl EventMarshal
        | Some v \<Rightarrow>
            (case Marshal h (JObj (event_members h cleared v)) of
               None \<Rightarrow> Inl EventMarshal
             | Some d \<Rightarrow> Inr (gh_sha h d)))"

section \<open>The table and its subscribers\<close>

record join_row =
  jr_id :: string
  jr_seq :: int
  jr_type :: string
  jr_actor :: string
  jr_payload :: string
  jr_created_at :: int
  jr_prev_hash :: string
  jr_hash :: string

text \<open>A subscriber's channel, with what its reader has taken from it so far.\<close>

record join_chan =
  jc_taken :: "JoinEvent list"
  jc_buf :: "JoinEvent list"
  jc_cap :: nat

record JoinLog =
  jl_rows :: "join_row list"
  jl_subscribers :: "nat \<Rightarrow> join_chan option"

definition NewJoinLog :: JoinLog where
  "NewJoinLog = \<lparr>jl_rows = [], jl_subscribers = (\<lambda>_. None)\<rparr>"

text \<open>\<open>ORDER BY seq\<close> over the index on \<open>seq\<close>.\<close>

definition rows_by_seq :: "join_row list \<Rightarrow> join_row list" where
  "rows_by_seq rows = sort_key jr_seq rows"

definition head_row :: "join_row list \<Rightarrow> join_row option" where
  "head_row rows = (if rows = [] then None else Some (last (rows_by_seq rows)))"

definition Head :: "JoinLog \<Rightarrow> string" where
  "Head l = (case head_row (jl_rows l) of None \<Rightarrow> [] | Some r \<Rightarrow> jr_hash r)"

definition HeadPosition :: "JoinLog \<Rightarrow> int \<times> string" where
  "HeadPosition l = (case head_row (jl_rows l) of None \<Rightarrow> (0, []) | Some r \<Rightarrow> (jr_seq r, jr_hash r))"

definition insert_join_row :: "join_row list \<Rightarrow> join_row \<Rightarrow> join_row list option" where
  "insert_join_row rows r =
     (if list_ex (\<lambda>q. jr_id q = jr_id r \<or> jr_prev_hash q = jr_prev_hash r) rows then None else Some (rows @ [r]))"

definition send_event :: "JoinEvent \<Rightarrow> join_chan \<Rightarrow> join_chan" where
  "send_event e ch = (if length (jc_buf ch) < jc_cap ch then ch\<lparr>jc_buf := jc_buf ch @ [e]\<rparr> else ch)"

definition Append ::
  "go_host \<Rightarrow> join_fault \<Rightarrow> string option \<Rightarrow> int \<Rightarrow> JoinLog \<Rightarrow> JoinEvent \<Rightarrow> join_error option \<times> JoinLog" where
  "Append h io newID now l e0 =
     (if je_ID e0 = [] \<and> newID = None then (Some NoEventID, l)
      else
        let e1 = (if je_ID e0 = [] then e0\<lparr>je_ID := the newID\<rparr> else e0);
            e2 = (if fst (je_CreatedAt e1) = zero_instant then e1\<lparr>je_CreatedAt := (now, 0)\<rparr> else e1) in
        if io = JoinConn \<or> io = JoinBegin \<or> io = JoinHead then (Some (JoinDatabase io), l)
        else
          let (lastSeq, head) = HeadPosition l;
              nextSeq = lastSeq + 1;
              e3 = e2\<lparr>je_PrevHash := head\<rparr> in
          (case ComputeEventHash h e3 of
             Inl x \<Rightarrow> (Some x, l)
           | Inr hash \<Rightarrow>
               let e4 = e3\<lparr>je_Hash := hash\<rparr>;
                   payload = (case je_Payload e4 of None \<Rightarrow> ''{}'' | Some p \<Rightarrow> if p = [] then ''{}'' else p);
                   row = \<lparr>jr_id = je_ID e4, jr_seq = nextSeq, jr_type = je_Type e4, jr_actor = je_Actor e4,
                          jr_payload = payload, jr_created_at = fst (je_CreatedAt e4),
                          jr_prev_hash = je_PrevHash e4, jr_hash = je_Hash e4\<rparr> in
               if io = JoinInsert then (Some (JoinDatabase io), l)
               else (case insert_join_row (jl_rows l) row of
                       None \<Rightarrow> (Some JoinConstraint, l)
                     | Some rows \<Rightarrow>
                         if io = JoinCommit then (Some (JoinDatabase io), l)
                         else (None, \<lparr>jl_rows = rows,
                                      jl_subscribers = (\<lambda>i. map_option (send_event (e4\<lparr>je_Seq := nextSeq\<rparr>)) (jl_subscribers l i))\<rparr>))))"

definition row_event :: "join_row \<Rightarrow> JoinEvent" where
  "row_event r =
     \<lparr>je_ID = jr_id r, je_Seq = jr_seq r, je_Type = jr_type r, je_Actor = jr_actor r, je_Payload = Some (jr_payload r),
      je_CreatedAt = (jr_created_at r, 0), je_PrevHash = jr_prev_hash r, je_Hash = jr_hash r\<rparr>"

definition EventBySeq :: "JoinLog \<Rightarrow> int \<Rightarrow> JoinEvent option" where
  "EventBySeq l seq = map_option row_event (find (\<lambda>r. jr_seq r = seq) (jl_rows l))"

definition EventsSince :: "JoinLog \<Rightarrow> int \<Rightarrow> JoinEvent list" where
  "EventsSince l sinceSeq = map row_event (rows_by_seq (filter (\<lambda>r. sinceSeq < jr_seq r) (jl_rows l)))"

definition Events :: "JoinLog \<Rightarrow> JoinEvent list" where
  "Events l = EventsSince l 0"

text \<open>\<open>Subscribe\<close> with a channel \<open>i\<close> that is new, the function it returns to unsubscribe, and a receive of its reader.\<close>

definition JoinSubscribe :: "nat \<Rightarrow> JoinLog \<Rightarrow> int \<Rightarrow> JoinLog" where
  "JoinSubscribe i l sinceSeq =
     (let history = EventsSince l sinceSeq;
          bufSize = (if length history + 64 > 128 then length history + 64 else 128) in
      l\<lparr>jl_subscribers := (jl_subscribers l)(i \<mapsto> \<lparr>jc_taken = [], jc_buf = history, jc_cap = bufSize\<rparr>)\<rparr>)"

definition unsub :: "nat \<Rightarrow> JoinLog \<Rightarrow> JoinLog" where
  "unsub i l = l\<lparr>jl_subscribers := (jl_subscribers l)(i := None)\<rparr>"

definition take_event :: "nat \<Rightarrow> JoinLog \<Rightarrow> JoinLog" where
  "take_event i l =
     (case jl_subscribers l i of
        None \<Rightarrow> l
      | Some ch \<Rightarrow>
          (case jc_buf ch of
             [] \<Rightarrow> l
           | e # buf \<Rightarrow>
               l\<lparr>jl_subscribers := (jl_subscribers l)(i \<mapsto> ch\<lparr>jc_taken := jc_taken ch @ [e], jc_buf := buf\<rparr>)\<rparr>))"

section \<open>Verification\<close>

datatype chain_reason = LinkMismatch | ForkedChain int | EventHash join_error | ContentMismatch

record ChainError =
  ce_Index :: int
  ce_EventID :: string
  ce_Reason :: chain_reason

fun verify_links :: "go_host \<Rightarrow> int gomap \<Rightarrow> string \<Rightarrow> int \<Rightarrow> JoinEvent list \<Rightarrow> ChainError option" where
  "verify_links h seen prev i [] = None"
| "verify_links h seen prev i (e # es) =
     (let broken = (\<lambda>reason. Some \<lparr>ce_Index = i, ce_EventID = je_ID e, ce_Reason = reason\<rparr>) in
      if je_PrevHash e \<noteq> prev then broken LinkMismatch
      else case map_get seen (je_PrevHash e) of
        Some other \<Rightarrow>
          if je_PrevHash e \<noteq> [] then broken (ForkedChain other)
          else (case ComputeEventHash h e of
                  Inl x \<Rightarrow> broken (EventHash x)
                | Inr recomputed \<Rightarrow>
                    if recomputed \<noteq> je_Hash e then broken ContentMismatch
                    else verify_links h (map_put seen (je_PrevHash e) i) (je_Hash e) (i + 1) es)
      | None \<Rightarrow>
          (case ComputeEventHash h e of
             Inl x \<Rightarrow> broken (EventHash x)
           | Inr recomputed \<Rightarrow>
               if recomputed \<noteq> je_Hash e then broken ContentMismatch
               else verify_links h (map_put seen (je_PrevHash e) i) (je_Hash e) (i + 1) es))"

definition VerifyJoinChain :: "go_host \<Rightarrow> JoinEvent list \<Rightarrow> ChainError option" where
  "VerifyJoinChain h events = verify_links h [] [] 0 events"

end
