(* ===== verification/Join_Safety.thy ===== *)
theory Join_Safety
  imports Join_Log
begin

text \<open>
  Correctness of the join log: whatever is appended, the table stays a single numbered chain that \<open>VerifyChain\<close>
  accepts (for events in UTC with a payload), a head hash stands for one history, and a subscriber that keeps up
  receives exactly the events after its cursor.
\<close>

section \<open>Chains of sealed entries\<close>

text \<open>An entry carries the seal of the one before it; a seal determines the content of its entry, and the content
  the link, unless the digest is \<open>broken\<close>.\<close>

locale hash_chain =
  fixes link :: "'e \<Rightarrow> 'k" and seal :: "'e \<Rightarrow> 'k" and content :: "'e \<Rightarrow> 'c" and genesis :: 'k
    and genuine :: "'e \<Rightarrow> bool" and broken :: bool
  assumes seal_binds: "genuine e \<Longrightarrow> genuine f \<Longrightarrow> seal e = seal f \<Longrightarrow> content e = content f \<or> broken"
    and content_link: "content e = content f \<Longrightarrow> link e = link f"
    and seal_genesis: "genuine e \<Longrightarrow> seal e \<noteq> genesis"
begin

fun linked_from :: "'k \<Rightarrow> 'e list \<Rightarrow> bool" where
  "linked_from p [] = True"
| "linked_from p (e # es) = (link e = p \<and> linked_from (seal e) es)"

lemma linked_from_snoc:
  "linked_from p (es @ [e]) \<longleftrightarrow> linked_from p es \<and> link e = (if es = [] then p else seal (last es))"
  by (induction es arbitrary: p) auto

lemma same_head_same_history:
  assumes "linked_from genesis es" and "linked_from genesis fs" and "list_all genuine es" and "list_all genuine fs"
    and "es \<noteq> []" and "fs \<noteq> []" and "seal (last es) = seal (last fs)"
  shows "map content es = map content fs \<or> broken"
  using assms
proof (induction es arbitrary: fs rule: rev_induct)
  case (snoc e es)
  obtain gs f where fs: "fs = gs @ [f]" using snoc.prems(6) by (cases fs rule: rev_cases) auto
  show ?case
  proof (cases broken)
    case False
    have ef: "content e = content f" using seal_binds [of e f] snoc.prems(3,4,7) fs False by simp
    then have l: "link e = link f" by (rule content_link)
    have le: "link e = (if es = [] then genesis else seal (last es))"
      "link f = (if gs = [] then genesis else seal (last gs))"
      using snoc.prems(1,2) fs by (simp_all add: linked_from_snoc)
    have ge: "es \<noteq> [] \<Longrightarrow> seal (last es) \<noteq> genesis" "gs \<noteq> [] \<Longrightarrow> seal (last gs) \<noteq> genesis"
      using seal_genesis snoc.prems(3,4) fs by (simp_all add: list_all_iff)
    have n: "es = [] \<longleftrightarrow> gs = []" using l le ge by (auto split: if_splits)
    show ?thesis
    proof (cases "es = []")
      case True
      then show ?thesis using n ef fs by simp
    next
      case ne: False
      then have "seal (last es) = seal (last gs)" using l le n by simp
      then have "map content es = map content gs"
        using snoc.IH [of gs] snoc.prems ne n fs False by (simp add: linked_from_snoc)
      then show ?thesis using ef fs by simp
    qed
  qed simp
qed simp

end

section \<open>What an event hash binds\<close>

definition event_content :: "go_host \<Rightarrow> JoinEvent \<Rightarrow> string \<times> string \<times> string \<times> json option \<times> string \<times> string" where
  "event_content h e =
     (je_ID e, je_Type e, je_Actor e, map_option (normal (gh_numbers h)) (payload_json (je_Payload e)),
      rfc3339 h (je_CreatedAt e), je_PrevHash e)"

definition sealed_event :: "go_host \<Rightarrow> JoinEvent \<Rightarrow> bool" where
  "sealed_event h e \<longleftrightarrow> ComputeEventHash h e = Inr (je_Hash e)"

definition digests_ok :: "go_host \<Rightarrow> bool" where
  "digests_ok h \<longleftrightarrow> number_format_ok (gh_numbers h) \<and> (\<forall>x. gh_sha h x \<noteq> [])"

lemma event_members_distinct: "distinct (map fst (event_members h e v))"
  unfolding event_members_def append_Cons append_Nil append_assoc by (rule json_keys | (simp; fail))+

lemma payload_json_distinct: "payload_json p = Some v \<Longrightarrow> keys_distinct v"
  by (auto simp: payload_json_def parseStrict_def split: option.splits if_splits dest: parse_distinct(1))

lemma event_json_distinct: "payload_json p = Some v \<Longrightarrow> keys_distinct (JObj (event_members h e v))"
  by (rule keys_distinctI [OF event_members_distinct])
    (simp add: event_members_def payload_json_distinct)

lemma event_member_of:
  "map_of (event_members h e v) ''id'' = Some (JStr (je_ID e))"
  "map_of (event_members h e v) ''type'' = Some (JStr (je_Type e))"
  "map_of (event_members h e v) ''actor'' = Some (JStr (je_Actor e))"
  "map_of (event_members h e v) ''payload'' = Some v"
  "map_of (event_members h e v) ''created_at'' = Some (JStr (rfc3339 h (je_CreatedAt e)))"
  "map_of (event_members h e v) ''prev_hash'' = (if je_PrevHash e = [] then None else Some (JStr (je_PrevHash e)))"
  by (simp_all add: event_members_def json_field_defs)

lemma ComputeEventHash_sealed:
  "ComputeEventHash h e = Inr x \<longleftrightarrow>
     (je_ID e \<noteq> [] \<or> je_Type e \<noteq> [] \<or> je_Actor e \<noteq> []) \<and>
     (\<exists>v d. payload_json (je_Payload e) = Some v \<and>
        Marshal h (JObj (event_members h (e\<lparr>je_Hash := [], je_Seq := 0\<rparr>) v)) = Some d \<and> x = gh_sha h d)"
  by (auto simp: ComputeEventHash_def Let_def split: option.splits)

lemma event_hash_binds:
  assumes "number_format_ok (gh_numbers h)" and "ComputeEventHash h e = Inr x" and "ComputeEventHash h f = Inr x"
  shows "event_content h e = event_content h f \<or> sha_collision (gh_sha h)"
proof (cases "sha_collision (gh_sha h)")
  case False
  let ?c = "\<lambda>e. e\<lparr>je_Hash := [], je_Seq := 0\<rparr>"
  obtain v d w c where e: "payload_json (je_Payload e) = Some v" "Marshal h (JObj (event_members h (?c e) v)) = Some d"
    "x = gh_sha h d" and f: "payload_json (je_Payload f) = Some w"
    "Marshal h (JObj (event_members h (?c f) w)) = Some c" "x = gh_sha h c"
    using assms(2,3) unfolding ComputeEventHash_sealed by blast
  have "d = c" using False e(3) f(3) unfolding sha_collision_def by blast
  then have n: "normal (gh_numbers h) (JObj (event_members h (?c e) v)) = normal (gh_numbers h) (JObj (event_members h (?c f) w))"
    using normal_eq_serialize [OF assms(1) e(2) [unfolded Marshal_def] f(2) [unfolded Marshal_def]
        event_json_distinct [OF e(1)] event_json_distinct [OF f(1)]] by simp
  note field = normal_object_fields [OF n event_members_distinct event_members_distinct]
  have "event_content h e = event_content h f"
    using field [of "''id''"] field [of "''type''"] field [of "''actor''"] field [of "''payload''"]
      field [of "''created_at''"] field [of "''prev_hash''"] e(1) f(1)
    by (simp add: event_member_of event_content_def split: if_splits)
  then show ?thesis ..
qed simp

interpretation joins: hash_chain je_PrevHash je_Hash "event_content h" "[]" "\<lambda>e. digests_ok h \<and> sealed_event h e"
  "sha_collision (gh_sha h)" for h
proof
  show "event_content h e = event_content h f \<or> sha_collision (gh_sha h)"
    if "digests_ok h \<and> sealed_event h e" "digests_ok h \<and> sealed_event h f" "je_Hash e = je_Hash f" for e f
    using that event_hash_binds unfolding digests_ok_def sealed_event_def by metis
  show "je_PrevHash e = je_PrevHash f" if "event_content h e = event_content h f" for e f
    using that by (simp add: event_content_def)
  show "je_Hash e \<noteq> []" if "digests_ok h \<and> sealed_event h e" for e
    using that unfolding digests_ok_def sealed_event_def ComputeEventHash_sealed by metis
qed

section \<open>Verified chains\<close>

abbreviation joined :: "string \<Rightarrow> JoinEvent list \<Rightarrow> bool" where
  "joined \<equiv> hash_chain.linked_from je_PrevHash je_Hash"

definition real_links :: "JoinEvent list \<Rightarrow> string list" where
  "real_links es = filter (\<lambda>p. p \<noteq> []) (map je_PrevHash es)"

lemma links_unseen_put:
  "list_all (\<lambda>q. map_get (map_put seen p i) q = None) (real_links es) \<longleftrightarrow>
     list_all (\<lambda>q. map_get seen q = None) (real_links es) \<and> (p = [] \<or> p \<notin> set (real_links es))"
proof (cases "p \<in> set (real_links es)")
  case True
  then have "p \<noteq> []" by (auto simp: real_links_def)
  then show ?thesis using True by (auto simp: list_all_iff)
next
  case False
  then have "map_get (map_put seen p i) q = map_get seen q" if "q \<in> set (real_links es)" for q
    using that by auto
  then show ?thesis using False by (simp add: list_all_iff del: map_get_put)
qed

lemma verify_links_iff:
  "verify_links h seen prev i es = None \<longleftrightarrow>
     joined prev es \<and> list_all (sealed_event h) es \<and> distinct (real_links es) \<and>
     list_all (\<lambda>p. map_get seen p = None) (real_links es)"
proof (induction es arbitrary: seen prev i)
  case (Cons e es)
  let ?p = "je_PrevHash e"
  have r: "real_links (e # es) = (if ?p = [] then real_links es else ?p # real_links es)"
    by (simp add: real_links_def)
  have s: "sealed_event h e \<longleftrightarrow> ComputeEventHash h e = Inr (je_Hash e)" by (simp add: sealed_event_def)
  show ?case
  proof (cases "ComputeEventHash h e")
    case (Inl x)
    then show ?thesis by (simp add: Let_def s split: option.splits)
  next
    case (Inr x)
    then show ?thesis
      by (cases "map_get seen ?p"; cases "?p = []"; cases "x = je_Hash e")
        (auto simp: Let_def s r links_unseen_put Cons.IH simp del: map_get_put)
  qed
qed (simp add: real_links_def)


section \<open>Appending\<close>

definition rows_ok :: "join_row list \<Rightarrow> bool" where
  "rows_ok rows \<longleftrightarrow>
     map jr_seq rows = map (\<lambda>i. 1 + int i) [0..<length rows] \<and> joined [] (map row_event rows) \<and>
     distinct (map jr_prev_hash rows) \<and> distinct (map jr_id rows)"

text \<open>An event whose stored form hashes like the event itself.\<close>

definition portable :: "JoinEvent \<Rightarrow> bool" where
  "portable e \<longleftrightarrow> je_Payload e \<noteq> None \<and> (snd (je_CreatedAt e) = 0 \<or> fst (je_CreatedAt e) = zero_instant)"

lemma seq_sorted: "map jr_seq rows = map (\<lambda>i. 1 + int i) [0..<length rows] \<Longrightarrow> sorted (map jr_seq rows)"
  by (simp add: sorted_iff_nth_mono)

lemma rows_by_seq_ok: "rows_ok rows \<Longrightarrow> rows_by_seq rows = rows"
  unfolding rows_by_seq_def rows_ok_def by (blast intro: sort_key_id_if_sorted seq_sorted)


lemma head_row_ok: "rows_ok rows \<Longrightarrow> head_row rows = (if rows = [] then None else Some (last rows))"
  by (simp add: head_row_def rows_by_seq_ok)

lemma HeadPosition_ok:
  assumes "rows_ok (jl_rows l)"
  shows "HeadPosition l = (int (length (jl_rows l)), if jl_rows l = [] then [] else jr_hash (last (jl_rows l)))"
proof (cases "jl_rows l" rule: rev_cases)
  case (snoc rows r)
  have "map jr_seq (rows @ [r]) = map (\<lambda>i. 1 + int i) [0..<Suc (length rows)]"
    using assms snoc by (simp add: rows_ok_def)
  then have "jr_seq r = 1 + int (length rows)" by simp
  then show ?thesis using assms snoc by (simp add: HeadPosition_def head_row_ok)
qed (simp add: HeadPosition_def head_row_def)

text \<open>An append either fails and changes nothing, or adds one sealed row and sends it to every subscriber.\<close>

definition stamped :: "string option \<Rightarrow> int \<Rightarrow> JoinEvent \<Rightarrow> JoinEvent" where
  "stamped newID now e =
     (let e1 = (if je_ID e = [] then e\<lparr>je_ID := the newID\<rparr> else e) in
      if fst (je_CreatedAt e1) = zero_instant then e1\<lparr>je_CreatedAt := (now, 0)\<rparr> else e1)"

definition published_event :: "JoinLog \<Rightarrow> JoinEvent \<Rightarrow> string \<Rightarrow> JoinEvent" where
  "published_event l e x =
     e\<lparr>je_PrevHash := snd (HeadPosition l), je_Hash := x, je_Seq := fst (HeadPosition l) + 1\<rparr>"

definition stored_row :: "JoinEvent \<Rightarrow> join_row" where
  "stored_row e =
     \<lparr>jr_id = je_ID e, jr_seq = je_Seq e, jr_type = je_Type e, jr_actor = je_Actor e,
      jr_payload = (case je_Payload e of None \<Rightarrow> ''{}'' | Some p \<Rightarrow> if p = [] then ''{}'' else p),
      jr_created_at = fst (je_CreatedAt e), jr_prev_hash = je_PrevHash e, jr_hash = je_Hash e\<rparr>"

lemma ComputeEventHash_ignores [simp]:
  "ComputeEventHash h (e\<lparr>je_Hash := x\<rparr>) = ComputeEventHash h e"
  "ComputeEventHash h (e\<lparr>je_Seq := i\<rparr>) = ComputeEventHash h e"
  by (simp_all add: ComputeEventHash_def)

lemma Append_unfold:
  "Append h io newID now l e =
     (if je_ID e = [] \<and> newID = None then (Some NoEventID, l)
      else if io \<in> {JoinConn, JoinBegin, JoinHead} then (Some (JoinDatabase io), l)
      else case ComputeEventHash h ((stamped newID now e)\<lparr>je_PrevHash := snd (HeadPosition l)\<rparr>) of
             Inl x \<Rightarrow> (Some x, l)
           | Inr x \<Rightarrow>
               let f = published_event l (stamped newID now e) x in
               if io = JoinInsert then (Some (JoinDatabase io), l)
               else (case insert_join_row (jl_rows l) (stored_row f) of
                       None \<Rightarrow> (Some JoinConstraint, l)
                     | Some rows \<Rightarrow>
                         if io = JoinCommit then (Some (JoinDatabase io), l)
                         else (None, \<lparr>jl_rows = rows,
                                      jl_subscribers = (\<lambda>i. map_option (send_event f) (jl_subscribers l i))\<rparr>)))"
  by (cases "HeadPosition l"; cases "je_ID e = []"; cases "fst (je_CreatedAt e) = zero_instant")
    (simp_all add: Append_def Let_def stamped_def published_event_def stored_row_def split: sum.split)

lemma Append_cases:
  assumes "Append h io newID now l e = (r, l')"
  obtains (refused) "r \<noteq> None" "l' = l"
  | (stored) x f where "r = None" "f = published_event l (stamped newID now e) x" "sealed_event h f"
      "insert_join_row (jl_rows l) (stored_row f) = Some (jl_rows l @ [stored_row f])"
      "l' = \<lparr>jl_rows = jl_rows l @ [stored_row f], jl_subscribers = (\<lambda>i. map_option (send_event f) (jl_subscribers l i))\<rparr>"
proof (cases "ComputeEventHash h ((stamped newID now e)\<lparr>je_PrevHash := snd (HeadPosition l)\<rparr>)")
  case (Inr x)
  let ?f = "published_event l (stamped newID now e) x"
  have s: "sealed_event h ?f" using Inr by (simp add: published_event_def sealed_event_def)
  have i: "insert_join_row (jl_rows l) (stored_row ?f) = Some rows \<Longrightarrow> rows = jl_rows l @ [stored_row ?f]" for rows
    by (simp add: insert_join_row_def split: if_splits)
  show ?thesis
  proof (cases "je_ID e = [] \<and> newID = None \<or> io \<noteq> JoinNoFault \<or> insert_join_row (jl_rows l) (stored_row ?f) = None")
    case True
    then have "r \<noteq> None \<and> l' = l"
      using assms Inr unfolding Append_unfold Let_def by (cases io) (auto split: if_splits option.splits)
    then show ?thesis using that(1) by blast
  next
    case False
    then have ins: "insert_join_row (jl_rows l) (stored_row ?f) = Some (jl_rows l @ [stored_row ?f])" using i by auto
    have c: "(je_ID e = [] \<and> newID = None) = False" "io = JoinNoFault" using False by blast+
    have "Append h io newID now l e = (None, \<lparr>jl_rows = jl_rows l @ [stored_row ?f],
        jl_subscribers = (\<lambda>i. map_option (send_event ?f) (jl_subscribers l i))\<rparr>)"
      unfolding Append_unfold Let_def c Inr sum.case ins option.case by simp
    then have "r = None" "l' = \<lparr>jl_rows = jl_rows l @ [stored_row ?f],
        jl_subscribers = (\<lambda>i. map_option (send_event ?f) (jl_subscribers l i))\<rparr>" using assms by simp_all
    then show ?thesis using that(2) [OF _ refl s ins] by blast
  qed
next
  case (Inl x)
  have "r \<noteq> None \<and> l' = l" using assms unfolding Append_unfold Inl by (auto split: if_splits)
  then show ?thesis using that(1) by blast
qed


lemma sealed_payload: "sealed_event h e \<Longrightarrow> je_Payload e \<noteq> Some []"
proof -
  have "payload_json (Some []) = None" by (simp add: payload_json_def parseStrict_def parse_value.simps skip_ws_def)
  then show "sealed_event h e \<Longrightarrow> je_Payload e \<noteq> Some []" by (auto simp: sealed_event_def ComputeEventHash_sealed)
qed

lemma row_event_stored:
  assumes "portable e" and "f = published_event l (stamped newID now e) x" and "sealed_event h f"
  shows "row_event (stored_row f) = f"
proof -
  have "snd (je_CreatedAt f) = 0" "je_Payload f \<noteq> None"
    using assms(1,2) by (auto simp: published_event_def stamped_def portable_def Let_def)
  moreover have "je_Payload f \<noteq> Some []" using assms(3) by (rule sealed_payload)
  ultimately show ?thesis by (auto simp: row_event_def stored_row_def prod_eq_iff)
qed

lemma Append_rows_ok:
  assumes "rows_ok (jl_rows l)" and "Append h io newID now l e = (r, l')"
  shows "rows_ok (jl_rows l') \<and> prefix (jl_rows l) (jl_rows l')"
  using assms(2)
proof (cases rule: Append_cases)
  case (stored x f)
  have "joined [] (map row_event (jl_rows l) @ [row_event (stored_row f)])"
    using assms(1) stored(2)
    by (auto simp: joins.linked_from_snoc rows_ok_def row_event_def stored_row_def published_event_def HeadPosition_ok
        last_map)
  then show ?thesis
    using assms(1) stored(2,4,5)
    by (auto simp: rows_ok_def stored_row_def published_event_def HeadPosition_ok insert_join_row_def list_ex_iff
        split: if_splits)
qed (use assms(1) in simp)


section \<open>Runs of the log\<close>

datatype join_op =
  CallAppend join_fault "string option" int JoinEvent
| CallSubscribe nat int
| CallUnsub nat
| CallTake nat

fun join_step :: "go_host \<Rightarrow> JoinLog \<Rightarrow> join_op \<Rightarrow> JoinLog" where
  "join_step h l (CallAppend io newID now e) = snd (Append h io newID now l e)"
| "join_step h l (CallSubscribe i since) = JoinSubscribe i l since"
| "join_step h l (CallUnsub i) = unsub i l"
| "join_step h l (CallTake i) = take_event i l"

definition join_run :: "go_host \<Rightarrow> JoinLog \<Rightarrow> join_op list \<Rightarrow> JoinLog" where
  "join_run h l ops = foldl (join_step h) l ops"

fun portable_op :: "join_op \<Rightarrow> bool" where
  "portable_op (CallAppend io newID now e) = portable e"
| "portable_op op = True"

lemma rows_unchanged [simp]:
  "jl_rows (JoinSubscribe i l since) = jl_rows l" "jl_rows (unsub i l) = jl_rows l" "jl_rows (take_event i l) = jl_rows l"
  by (simp_all add: JoinSubscribe_def unsub_def take_event_def Let_def split: option.splits list.splits)

lemma join_step_rows:
  "rows_ok (jl_rows l) \<Longrightarrow> rows_ok (jl_rows (join_step h l op)) \<and> prefix (jl_rows l) (jl_rows (join_step h l op))"
  by (cases op) (auto simp: Append_rows_ok prod_eq_iff)

lemma join_run_rows:
  "rows_ok (jl_rows l) \<Longrightarrow> rows_ok (jl_rows (join_run h l ops)) \<and> prefix (jl_rows l) (jl_rows (join_run h l ops))"
  unfolding join_run_def
proof (induction ops arbitrary: l)
  case (Cons op ops)
  have "rows_ok (jl_rows (join_step h l op))" "prefix (jl_rows l) (jl_rows (join_step h l op))"
    using join_step_rows Cons.prems by blast+
  moreover from this(1) have "rows_ok (jl_rows (foldl (join_step h) (join_step h l op) ops))"
    "prefix (jl_rows (join_step h l op)) (jl_rows (foldl (join_step h) (join_step h l op) ops))"
    using Cons.IH by blast+
  ultimately show ?case by (metis foldl_Cons prefix_order.trans)
qed simp

lemma join_step_sealed:
  assumes "list_all (sealed_event h) (map row_event (jl_rows l))" and "portable_op op"
  shows "list_all (sealed_event h) (map row_event (jl_rows (join_step h l op)))"
proof (cases op)
  case (CallAppend io newID now e)
  obtain r l' where "Append h io newID now l e = (r, l')" by fastforce
  then show ?thesis
  proof (cases rule: Append_cases)
    case refused
    then show ?thesis using assms(1) CallAppend \<open>Append h io newID now l e = (r, l')\<close> by simp
  next
    case (stored x f)
    then have "row_event (stored_row f) = f" using row_event_stored [OF _ stored(2,3)] assms(2) CallAppend by simp
    then show ?thesis using assms(1) stored CallAppend \<open>Append h io newID now l e = (r, l')\<close> by simp
  qed
qed (use assms(1) in simp_all)

lemma Events_ok: "rows_ok (jl_rows l) \<Longrightarrow> Events l = map row_event (jl_rows l)"
proof -
  assume ok: "rows_ok (jl_rows l)"
  have "0 < jr_seq r" if r: "r \<in> set (jl_rows l)" for r
  proof -
    have "jr_seq r \<in> set (map jr_seq (jl_rows l))" using r by simp
    also have "set (map jr_seq (jl_rows l)) = (\<lambda>i. 1 + int i) ` {0..<length (jl_rows l)}"
      using ok unfolding rows_ok_def by (metis set_map set_upt)
    finally show ?thesis by auto
  qed
  then have "filter (\<lambda>r. 0 < jr_seq r) (jl_rows l) = jl_rows l" by simp
  then show ?thesis using ok by (simp add: Events_def EventsSince_def rows_by_seq_ok)
qed

lemma rows_ok_Nil: "rows_ok (jl_rows NewJoinLog)"
  by (simp add: rows_ok_def NewJoinLog_def)

lemma row_event_simps [simp]:
  "je_PrevHash (row_event r) = jr_prev_hash r" "je_Hash (row_event r) = jr_hash r" "je_Seq (row_event r) = jr_seq r"
  by (simp_all add: row_event_def)

lemma rows_verify:
  assumes "rows_ok rows" and "list_all (sealed_event h) (map row_event rows)"
  shows "VerifyJoinChain h (map row_event rows) = None"
proof -
  have "map je_PrevHash (map row_event rows) = map jr_prev_hash rows" by simp
  then have "distinct (real_links (map row_event rows))"
    using assms(1) unfolding real_links_def rows_ok_def by (metis distinct_filter)
  then show ?thesis
    using assms unfolding VerifyJoinChain_def verify_links_iff rows_ok_def by (simp add: list_all_iff)
qed


text \<open>C24. A head hash stands for one history: two event lists that verify and end in the same hash agree on every event
  (id, type, actor, payload up to JSON spelling, time, link), unless SHA-256 collides.\<close>

theorem join_head_binds:
  assumes "digests_ok h" and "VerifyJoinChain h es = None" and "VerifyJoinChain h fs = None"
    and "es \<noteq> []" and "fs \<noteq> []" and "je_Hash (last es) = je_Hash (last fs)"
  shows "map (event_content h) es = map (event_content h) fs \<or> sha_collision (gh_sha h)"
proof -
  have "joined [] gs" "list_all (\<lambda>e. digests_ok h \<and> sealed_event h e) gs" if "VerifyJoinChain h gs = None" for gs
    using that assms(1) by (simp_all add: VerifyJoinChain_def verify_links_iff list_all_iff)
  then show ?thesis using joins.same_head_same_history assms by blast
qed


section \<open>Subscribers\<close>

text \<open>Subscriber \<open>i\<close> stays subscribed and its buffer has room whenever something happens.\<close>

fun keeps_up :: "go_host \<Rightarrow> nat \<Rightarrow> JoinLog \<Rightarrow> join_op list \<Rightarrow> bool" where
  "keeps_up h i l [] = True"
| "keeps_up h i l (op # ops) =
     ((case jl_subscribers l i of None \<Rightarrow> False | Some ch \<Rightarrow> length (jc_buf ch) < jc_cap ch) \<and>
      (case op of CallSubscribe j _ \<Rightarrow> j \<noteq> i | CallUnsub j \<Rightarrow> j \<noteq> i | _ \<Rightarrow> True) \<and>
      keeps_up h i (join_step h l op) ops)"

definition delivered :: "join_chan \<Rightarrow> JoinEvent list" where
  "delivered ch = jc_taken ch @ jc_buf ch"

lemma join_step_delivers:
  assumes "jl_subscribers l i = Some ch" and "keeps_up h i l [op]" and "portable_op op"
    and "delivered ch = xs @ drop n (map row_event (jl_rows l))" and "n \<le> length (jl_rows l)"
  shows "\<exists>ch'. jl_subscribers (join_step h l op) i = Some ch' \<and>
           delivered ch' = xs @ drop n (map row_event (jl_rows (join_step h l op)))"
proof (cases op)
  case (CallAppend io newID now e)
  obtain r l' where a: "Append h io newID now l e = (r, l')" by fastforce
  then show ?thesis
  proof (cases rule: Append_cases)
    case refused
    then show ?thesis using assms(1,4) CallAppend a by simp
  next
    case (stored x f)
    have "row_event (stored_row f) = f" using row_event_stored [OF _ stored(2,3)] assms(3) CallAppend by simp
    moreover have "delivered (send_event f ch) = delivered ch @ [f]"
      using assms(1,2) by (simp add: send_event_def delivered_def)
    ultimately show ?thesis using assms(1,4,5) CallAppend a stored(5) by (simp add: drop_map)
  qed
next
  case (CallTake j)
  then show ?thesis using assms(1,4)
    by (auto simp: take_event_def delivered_def split: option.splits list.splits)
qed (use assms in \<open>simp_all add: JoinSubscribe_def unsub_def Let_def\<close>)

lemma join_run_delivers:
  assumes "jl_subscribers l i = Some ch" and "keeps_up h i l ops" and "list_all portable_op ops"
    and "delivered ch = xs @ drop n (map row_event (jl_rows l))" and "n \<le> length (jl_rows l)" and "rows_ok (jl_rows l)"
  shows "\<exists>ch'. jl_subscribers (join_run h l ops) i = Some ch' \<and>
           delivered ch' = xs @ drop n (map row_event (jl_rows (join_run h l ops)))"
  using assms
proof (induction ops arbitrary: l ch)
  case (Cons op ops)
  let ?l = "join_step h l op"
  have "keeps_up h i l [op]" "portable_op op" using Cons.prems(2,3) by simp_all
  then obtain ch' where "jl_subscribers ?l i = Some ch'" "delivered ch' = xs @ drop n (map row_event (jl_rows ?l))"
    using join_step_delivers Cons.prems(1,4,5) by blast
  moreover have "rows_ok (jl_rows ?l)" "n \<le> length (jl_rows ?l)"
    using join_step_rows [OF Cons.prems(6), of h op] Cons.prems(5) by (auto dest: prefix_length_le)
  ultimately show ?case using Cons.IH Cons.prems(2,3) by (simp add: join_run_def)
qed (auto simp: join_run_def)

lemma EventsSince_ok:
  assumes "rows_ok (jl_rows l)"
  shows "EventsSince l since = map row_event (drop (nat since) (jl_rows l))"
proof -
  let ?rows = "jl_rows l"
  have n: "map jr_seq ?rows = map (\<lambda>i. 1 + int i) [0..<length ?rows]" using assms by (simp add: rows_ok_def)
  have seq: "jr_seq (?rows ! k) = 1 + int k" if "k < length ?rows" for k
    using n that by (metis (no_types, lifting) add.left_neutral length_map nth_map nth_upt length_upt diff_zero)
  have "filter (\<lambda>r. since < jr_seq r) ?rows = drop (nat since) ?rows"
  proof -
    have "filter (\<lambda>r. since < jr_seq r) (take (nat since) ?rows) = []"
      using seq by (fastforce simp: filter_empty_conv in_set_conv_nth)
    moreover have "filter (\<lambda>r. since < jr_seq r) (drop (nat since) ?rows) = drop (nat since) ?rows"
      using seq by (fastforce simp: filter_id_conv in_set_conv_nth)
    ultimately show ?thesis by (metis append_Nil append_take_drop_id filter_append)
  qed
  moreover have "sorted (map jr_seq (drop (nat since) ?rows))"
    using seq_sorted [OF n] by (simp add: drop_map [symmetric] sorted_wrt_drop)
  ultimately show ?thesis by (simp add: EventsSince_def rows_by_seq_def sort_key_id_if_sorted)
qed

text \<open>A subscriber that resumes after event number \<open>since\<close> and keeps up gets every later event exactly once and in
  order: what it has taken and what waits in its channel is what \<open>EventsSince\<close> returns at any later moment.\<close>

theorem join_stream_gapless:
  assumes "list_all portable_op (past @ later)" and "since \<le> int (length (Events (join_run h NewJoinLog past)))"
    and "keeps_up h i (JoinSubscribe i (join_run h NewJoinLog past) since) later"
  shows "\<exists>ch. jl_subscribers (join_run h NewJoinLog (past @ CallSubscribe i since # later)) i = Some ch \<and>
           jc_taken ch @ jc_buf ch = EventsSince (join_run h NewJoinLog (past @ CallSubscribe i since # later)) since"
proof -
  let ?l = "join_run h NewJoinLog past" and ?s = "JoinSubscribe i (join_run h NewJoinLog past) since"
  let ?l' = "join_run h ?s later"
  have run: "join_run h NewJoinLog (past @ CallSubscribe i since # later) = ?l'" by (simp add: join_run_def)
  have ok: "rows_ok (jl_rows ?l)" "rows_ok (jl_rows ?s)" using join_run_rows [OF rows_ok_Nil] by simp_all
  then have ok': "rows_ok (jl_rows ?l')" "prefix (jl_rows ?l) (jl_rows ?l')" using join_run_rows [of ?s] by simp_all
  let ?ch = "\<lparr>jc_taken = [], jc_buf = EventsSince ?l since, jc_cap = max 128 (length (EventsSince ?l since) + 64)\<rparr>"
  have ch: "jl_subscribers ?s i = Some ?ch" by (simp add: JoinSubscribe_def Let_def max_def)
  have n: "nat since \<le> length (jl_rows ?l)" using assms(2) ok(1) by (simp add: Events_ok nat_le_iff)
  have "delivered ?ch = [] @ drop (nat since) (map row_event (jl_rows ?s))"
    by (simp add: delivered_def EventsSince_ok [OF ok(1)] drop_map)
  from join_run_delivers [OF ch assms(3) _ this _ ok(2)] n assms(1) show ?thesis
    unfolding run delivered_def by (simp add: EventsSince_ok [OF ok'(1)] drop_map)
qed

text \<open>A live event that finds the channel full is lost, and the stream goes on after the gap without notice.\<close>

lemma full_channel_drops: "jc_cap ch \<le> length (jc_buf ch) \<Longrightarrow> send_event e ch = ch"
  by (simp add: send_event_def)


text \<open>What \<open>portable\<close> leaves out: an event with no payload is hashed with \<open>null\<close> and stored with \<open>{}\<close>, and a time in
  another zone is hashed with its offset and stored in UTC. The append reports success, and the log no longer
  verifies.\<close>

lemma unfaithful_row_breaks_chain:
  assumes "number_format_ok (gh_numbers h)" and "rows_ok (jl_rows l)" and "Append h io newID now l e = (None, l')"
    and "\<And>x. event_content h (row_event (stored_row (published_event l (stamped newID now e) x))) \<noteq>
              event_content h (published_event l (stamped newID now e) x)"
  shows "VerifyJoinChain h (Events l') \<noteq> None \<or> sha_collision (gh_sha h)"
  using assms(3)
proof (cases rule: Append_cases)
  case (stored x f)
  have "rows_ok (jl_rows l')" using Append_rows_ok [OF assms(2,3)] by simp
  then have ev: "Events l' = map row_event (jl_rows l) @ [row_event (stored_row f)]" using stored(5) by (simp add: Events_ok)
  have "sha_collision (gh_sha h)" if "VerifyJoinChain h (Events l') = None"
  proof -
    have "sealed_event h (row_event (stored_row f))" using that by (simp add: ev VerifyJoinChain_def verify_links_iff)
    then have "ComputeEventHash h (row_event (stored_row f)) = Inr (je_Hash f)" "ComputeEventHash h f = Inr (je_Hash f)"
      using stored(3) by (simp_all add: sealed_event_def stored_row_def)
    then show ?thesis using event_hash_binds [OF assms(1)] assms(4) stored(2) by blast
  qed
  then show ?thesis by blast
qed simp

lemma empty_object_payload: "payload_json (Some ''{}'') = Some (JObj [])"
  by code_simp

lemma nil_payload_breaks_chain:
  assumes "number_format_ok (gh_numbers h)" and "rows_ok (jl_rows l)" and "Append h io newID now l e = (None, l')"
    and "je_Payload e = None"
  shows "VerifyJoinChain h (Events l') \<noteq> None \<or> sha_collision (gh_sha h)"
proof (rule unfaithful_row_breaks_chain [OF assms(1-3)])
  fix x
  have p: "je_Payload (stamped newID now e) = None" using assms(4) by (simp add: stamped_def Let_def)
  show "event_content h (row_event (stored_row (published_event l (stamped newID now e) x))) \<noteq>
      event_content h (published_event l (stamped newID now e) x)"
    using p empty_object_payload
    by (simp add: event_content_def row_event_def stored_row_def published_event_def payload_json_def sort_members_def)
qed

lemma local_time_breaks_chain:
  assumes "number_format_ok (gh_numbers h)" and "rows_ok (jl_rows l)" and "Append h io newID now l e = (None, l')"
    and "fst (je_CreatedAt e) \<noteq> zero_instant"
    and "rfc3339 h (je_CreatedAt e) \<noteq> gh_time h (fst (je_CreatedAt e))"
  shows "VerifyJoinChain h (Events l') \<noteq> None \<or> sha_collision (gh_sha h)"
proof (rule unfaithful_row_breaks_chain [OF assms(1-3)])
  fix x
  have "je_CreatedAt (stamped newID now e) = je_CreatedAt e" using assms(4) by (simp add: stamped_def Let_def)
  then show "event_content h (row_event (stored_row (published_event l (stamped newID now e) x))) \<noteq>
      event_content h (published_event l (stamped newID now e) x)"
    using assms(5) by (simp add: event_content_def row_event_def stored_row_def published_event_def rfc3339_def)
qed

section \<open>Samples\<close>

definition sample_join :: JoinEvent where
  "sample_join = \<lparr>je_ID = [], je_Seq = 0, je_Type = ''node.joined'', je_Actor = ''a'', je_Payload = Some ''{}'',
     je_CreatedAt = (zero_instant, 0), je_PrevHash = [], je_Hash = []\<rparr>"

definition sample_call :: join_op where
  "sample_call = CallAppend JoinNoFault (Some ''e1'') 5 sample_join"

lemma sample_event_hashes:
  "\<exists>x. ComputeEventHash sample_host ((stamped (Some ''e1'') 5 sample_join)\<lparr>je_PrevHash := snd (HeadPosition NewJoinLog)\<rparr>) = Inr x"
proof -
  let ?e = "(stamped (Some ''e1'') 5 sample_join)\<lparr>je_PrevHash := snd (HeadPosition NewJoinLog)\<rparr>"
  let ?v = "JObj (event_members sample_host (?e\<lparr>je_Hash := [], je_Seq := 0\<rparr>) (JObj []))"
  have e: "?e = \<lparr>je_ID = ''e1'', je_Seq = 0, je_Type = ''node.joined'', je_Actor = ''a'', je_Payload = Some ''{}'',
     je_CreatedAt = (5, 0), je_PrevHash = [], je_Hash = []\<rparr>"
    by (simp add: stamped_def sample_join_def HeadPosition_def head_row_def NewJoinLog_def)
  have t: "gh_time sample_host 5 = ''5''" by (simp add: sample_host_def) code_simp
  have "encodable (gh_numbers sample_host) ?v"
    unfolding e by (simp add: event_members_def rfc3339_def t json_field_defs byte_def)
  then obtain d where "Marshal sample_host ?v = Some d" using serialize_total Marshal_def by metis
  moreover have "payload_json (je_Payload ?e) = Some (JObj [])" unfolding e by (simp add: empty_object_payload)
  moreover have "je_ID ?e \<noteq> []" unfolding e by simp
  ultimately show ?thesis unfolding ComputeEventHash_sealed by blast
qed

lemma sample_appended: "length (jl_rows (join_run sample_host NewJoinLog [sample_call])) = 1"
proof -
  have c: "(je_ID sample_join = [] \<and> Some ''e1'' = (None :: string option)) = False" by simp
  obtain x where x: "ComputeEventHash sample_host
      ((stamped (Some ''e1'') 5 sample_join)\<lparr>je_PrevHash := snd (HeadPosition NewJoinLog)\<rparr>) = Inr x" using sample_event_hashes by blast
  show ?thesis
    unfolding join_run_def sample_call_def foldl.simps join_step.simps Append_unfold Let_def c x sum.case
    by (simp add: NewJoinLog_def insert_join_row_def)
qed

lemma sample_portable: "list_all portable_op [sample_call]"
  by (simp add: sample_call_def sample_join_def portable_def)


lemma sample_log:
  "Events (join_run sample_host NewJoinLog [sample_call]) \<noteq> []"
  "VerifyJoinChain sample_host (Events (join_run sample_host NewJoinLog [sample_call])) = None"
proof -
  let ?l = "join_run sample_host NewJoinLog [sample_call]"
  have ok: "rows_ok (jl_rows ?l)" using join_run_rows [OF rows_ok_Nil] by blast
  then show "Events ?l \<noteq> []" using sample_appended by (auto simp: Events_ok)
  have "list_all (sealed_event sample_host) (map row_event (jl_rows (join_step sample_host NewJoinLog sample_call)))"
    by (rule join_step_sealed) (use sample_portable in \<open>simp_all add: NewJoinLog_def\<close>)
  then show "VerifyJoinChain sample_host (Events ?l) = None"
    unfolding Events_ok [OF ok] by (intro rows_verify [OF ok]) (simp add: join_run_def)
qed

lemma sample_digests: "digests_ok sample_host"
  by (simp add: digests_ok_def bits_format_ok)

theorem join_head_binds_witness:
  "let es = Events (join_run sample_host NewJoinLog [sample_call]) in
   es \<noteq> [] \<and> VerifyJoinChain sample_host es = None \<and>
   (map (event_content sample_host) es = map (event_content sample_host) es \<or> sha_collision (gh_sha sample_host))"
  using join_head_binds [OF sample_digests sample_log(2,2,1,1) refl] sample_log unfolding Let_def by blast

theorem join_stream_gapless_witness:
  "list_all portable_op ([] @ [sample_call, CallTake 7]) \<and> keeps_up sample_host 7 (JoinSubscribe 7 (join_run sample_host NewJoinLog []) 0) [sample_call, CallTake 7] \<and>
   (\<exists>ch. jl_subscribers (join_run sample_host NewJoinLog ([] @ CallSubscribe 7 0 # [sample_call, CallTake 7])) 7 = Some ch \<and>
      jc_taken ch @ jc_buf ch = EventsSince (join_run sample_host NewJoinLog ([] @ CallSubscribe 7 0 # [sample_call, CallTake 7])) 0)"
proof -
  let ?s = "JoinSubscribe 7 (join_run sample_host NewJoinLog []) 0"
  have p: "list_all portable_op ([] @ [sample_call, CallTake 7])" using sample_portable by simp
  have s: "jl_subscribers ?s 7 = Some \<lparr>jc_taken = [], jc_buf = [], jc_cap = 128\<rparr>"
    by (simp add: JoinSubscribe_def join_run_def NewJoinLog_def EventsSince_def rows_by_seq_def Let_def)
  obtain r l' where a: "Append sample_host JoinNoFault (Some ''e1'') 5 ?s sample_join = (r, l')" by fastforce
  then have "\<exists>ch. jl_subscribers l' 7 = Some ch \<and> length (jc_buf ch) < jc_cap ch"
    by (cases rule: Append_cases) (use s in \<open>auto simp: send_event_def\<close>)
  then have k: "keeps_up sample_host 7 ?s [sample_call, CallTake 7]" using s a by (auto simp: sample_call_def)
  show ?thesis using p k join_stream_gapless [OF p _ k] by simp
qed

end
