(* ===== verification/Join_Project.thy ===== *)
theory Join_Project
  imports Join_Safety "HOL-Library.Monad_Syntax"
begin

text \<open>
  The projector (\<open>pkg/joinlog/events.go\<close>, \<open>projector.go\<close>, \<open>snapshot.go\<close>): the catalogue of events with their
  payloads, the projection of events into tables, the state read back from the tables, and its digest.

  \<open>json.Unmarshal\<close> into a payload struct is modelled on the members of the object: a member belongs to the field
  whose name it equals up to case folding, later members override earlier ones, null leaves a field alone and a value
  of another type is an error. The text is read by the strict parser, which every payload of the log has passed.
  Columns that hold the JSON text of a list hold the list. A table with a primary key is an association list.
\<close>

section \<open>Payloads\<close>

record NodeJoinedPayload =
  nj_NodeID :: string
  nj_Role :: string
  nj_Endpoint :: string
  nj_AgentPublicKey :: string
  nj_Tags :: "string list option"

record TaskCreatedPayload =
  tc_TaskID :: string
  tc_GitRepo :: string
  tc_GitBranch :: string
  tc_Prompt :: string

record TerritoryClaimedPayload =
  tl_TaskID :: string
  tl_GitRepo :: string
  tl_GitBranch :: string

record TerritoryReleasedPayload = TerritoryClaimedPayload +
  tl_Reason :: string

record TaskSettledPayload =
  ts_TaskID :: string
  ts_Verdict :: string
  ts_ReceiptHash :: string

record TerritoryVerifiedPayload =
  tv_TaskID :: string
  tv_GitRepo :: string
  tv_GitBranch :: string
  tv_DeclaredSurfaces :: "string list option"
  tv_ObservedFiles :: "string list option"
  tv_Discrepancies :: "string list option"
  tv_Status :: string

section \<open>Decoding\<close>

fun fold_key :: "string \<Rightarrow> string" where
  "fold_key [] = []"
| "fold_key (c # s) =
     (if c = CHR 0xC5 \<and> s \<noteq> [] \<and> hd s = CHR 0xBF then CHR ''s'' # fold_key (tl s)
      else if c = CHR 0xE2 \<and> length s \<ge> 2 \<and> s ! 0 = CHR 0x84 \<and> s ! 1 = CHR 0xAA then CHR ''k'' # fold_key (drop 2 s)
      else lower_char c # fold_key s)"

definition member_values :: "(string \<times> json) list \<Rightarrow> string \<Rightarrow> json list" where
  "member_values ms name = map snd (filter (\<lambda>(k, v). fold_key k = fold_key name) ms)"

definition decode_string :: "(string \<times> json) list \<Rightarrow> string \<Rightarrow> string option" where
  "decode_string ms name =
     foldl (\<lambda>acc v. case acc of
              None \<Rightarrow> None
            | Some s \<Rightarrow> (case v of JStr t \<Rightarrow> Some t | JNull \<Rightarrow> Some s | _ \<Rightarrow> None))
       (Some []) (member_values ms name)"

definition decode_element :: "json \<Rightarrow> string option" where
  "decode_element v = (case v of JStr t \<Rightarrow> Some t | JNull \<Rightarrow> Some [] | _ \<Rightarrow> None)"

definition decode_strings :: "(string \<times> json) list \<Rightarrow> string \<Rightarrow> string list option option" where
  "decode_strings ms name =
     foldl (\<lambda>acc v. case acc of
              None \<Rightarrow> None
            | Some _ \<Rightarrow>
                (case v of
                   JNull \<Rightarrow> Some None
                 | JArr vs \<Rightarrow> map_option Some (those (map decode_element vs))
                 | _ \<Rightarrow> None))
       (Some None) (member_values ms name)"

definition decode_members :: "string option \<Rightarrow> (string \<times> json) list option" where
  "decode_members p =
     (case p of
        None \<Rightarrow> None
      | Some s \<Rightarrow>
          (case parseStrict s of
             Some (JObj ms) \<Rightarrow> Some ms
           | Some JNull \<Rightarrow> Some []
           | _ \<Rightarrow> None))"

datatype mesh_event =
  MNodeJoined NodeJoinedPayload
| MTaskCreated TaskCreatedPayload
| MTerritoryClaimed TerritoryClaimedPayload
| MTerritoryReleased TerritoryReleasedPayload
| MTaskSettled TaskSettledPayload
| MTerritoryVerified TerritoryVerifiedPayload
| MUnknown

text \<open>The type of an event and its decoded payload; \<open>None\<close> is a payload that does not decode.\<close>

definition decode_event :: "JoinEvent \<Rightarrow> mesh_event option" where
  "decode_event e =
     (if je_Type e = ''node.joined'' then do {
        ms \<leftarrow> decode_members (je_Payload e);
        i \<leftarrow> decode_string ms ''node_id''; r \<leftarrow> decode_string ms ''role''; ep \<leftarrow> decode_string ms ''endpoint'';
        key \<leftarrow> decode_string ms ''agent_public_key''; tags \<leftarrow> decode_strings ms ''tags'';
        Some (MNodeJoined \<lparr>nj_NodeID = i, nj_Role = r, nj_Endpoint = ep, nj_AgentPublicKey = key, nj_Tags = tags\<rparr>) }
      else if je_Type e = ''task.created'' then do {
        ms \<leftarrow> decode_members (je_Payload e);
        t \<leftarrow> decode_string ms ''task_id''; r \<leftarrow> decode_string ms ''git_repo''; b \<leftarrow> decode_string ms ''git_branch''; p \<leftarrow> decode_string ms ''prompt'';
        Some (MTaskCreated \<lparr>tc_TaskID = t, tc_GitRepo = r, tc_GitBranch = b, tc_Prompt = p\<rparr>) }
      else if je_Type e = ''territory.claimed'' then do {
        ms \<leftarrow> decode_members (je_Payload e);
        t \<leftarrow> decode_string ms ''task_id''; r \<leftarrow> decode_string ms ''git_repo''; b \<leftarrow> decode_string ms ''git_branch'';
        Some (MTerritoryClaimed \<lparr>tl_TaskID = t, tl_GitRepo = r, tl_GitBranch = b\<rparr>) }
      else if je_Type e = ''territory.released'' then do {
        ms \<leftarrow> decode_members (je_Payload e);
        t \<leftarrow> decode_string ms ''task_id''; r \<leftarrow> decode_string ms ''git_repo''; b \<leftarrow> decode_string ms ''git_branch''; why \<leftarrow> decode_string ms ''reason'';
        Some (MTerritoryReleased \<lparr>tl_TaskID = t, tl_GitRepo = r, tl_GitBranch = b, tl_Reason = why\<rparr>) }
      else if je_Type e = ''task.settled'' then do {
        ms \<leftarrow> decode_members (je_Payload e);
        t \<leftarrow> decode_string ms ''task_id''; v \<leftarrow> decode_string ms ''verdict''; x \<leftarrow> decode_string ms ''receipt_hash'';
        Some (MTaskSettled \<lparr>ts_TaskID = t, ts_Verdict = v, ts_ReceiptHash = x\<rparr>) }
      else if je_Type e = ''territory.verified'' then do {
        ms \<leftarrow> decode_members (je_Payload e);
        t \<leftarrow> decode_string ms ''task_id''; r \<leftarrow> decode_string ms ''git_repo''; b \<leftarrow> decode_string ms ''git_branch'';
        d \<leftarrow> decode_strings ms ''declared_surfaces''; f \<leftarrow> decode_strings ms ''observed_files''; x \<leftarrow> decode_strings ms ''discrepancies'';
        s \<leftarrow> decode_string ms ''status'';
        Some (MTerritoryVerified \<lparr>tv_TaskID = t, tv_GitRepo = r, tv_GitBranch = b, tv_DeclaredSurfaces = d,
          tv_ObservedFiles = f, tv_Discrepancies = x, tv_Status = s\<rparr>) }
      else Some MUnknown)"

section \<open>The projection tables\<close>

record TerritoryHistoryEntry =
  th_TaskID :: string
  th_TerritoryKey :: string
  th_Reason :: string
  th_EventTime :: int

record ActiveTerritoryLock =
  al_TerritoryKey :: string
  al_TaskID :: string
  al_ClaimedAt :: int

record TerritoryVerification =
  vf_TaskID :: string
  vf_GitRepo :: string
  vf_GitBranch :: string
  vf_DeclaredSurfaces :: "string list option"
  vf_ObservedFiles :: "string list option"
  vf_Discrepancies :: "string list option"
  vf_Status :: string
  vf_VerifiedAt :: int

record task_columns =
  tk_git_repo :: string
  tk_git_branch :: string
  tk_prompt :: string
  tk_verdict :: "string option"
  tk_receipt_hash :: "string option"

record Projector =
  pj_nodes :: "NodeJoinedPayload gomap"
  pj_tasks :: "task_columns gomap"
  pj_locks :: "(string \<times> int) gomap"
  pj_history :: "TerritoryHistoryEntry list"
  pj_verifications :: "(TerritoryVerifiedPayload \<times> int) list"

definition NewProjector :: Projector where
  "NewProjector = \<lparr>pj_nodes = [], pj_tasks = [], pj_locks = [], pj_history = [], pj_verifications = []\<rparr>"

definition territory_key :: "string \<Rightarrow> string \<Rightarrow> string" where
  "territory_key repo branch = repo @ '':'' @ branch"

text \<open>Which statement of \<open>ProjectEvent\<close> fails.\<close>

datatype proj_fault = ProjOk | ProjFirst | ProjSecond

datatype proj_error = PayloadError | ProjStatement

definition project_task :: "TaskCreatedPayload \<Rightarrow> task_columns gomap \<Rightarrow> task_columns gomap" where
  "project_task t rows =
     map_put rows (tc_TaskID t)
       (case map_get rows (tc_TaskID t) of
          None \<Rightarrow> \<lparr>tk_git_repo = tc_GitRepo t, tk_git_branch = tc_GitBranch t, tk_prompt = tc_Prompt t,
                   tk_verdict = None, tk_receipt_hash = None\<rparr>
        | Some r \<Rightarrow> r\<lparr>tk_git_repo := tc_GitRepo t, tk_git_branch := tc_GitBranch t, tk_prompt := tc_Prompt t\<rparr>)"

definition project_settled :: "TaskSettledPayload \<Rightarrow> task_columns gomap \<Rightarrow> task_columns gomap" where
  "project_settled s rows =
     (case map_get rows (ts_TaskID s) of
        None \<Rightarrow> rows
      | Some r \<Rightarrow> map_put rows (ts_TaskID s) (r\<lparr>tk_verdict := Some (ts_Verdict s), tk_receipt_hash := Some (ts_ReceiptHash s)\<rparr>))"

definition ProjectEvent :: "proj_fault \<Rightarrow> Projector \<Rightarrow> JoinEvent \<Rightarrow> proj_error option \<times> Projector" where
  "ProjectEvent io p e =
     (let eventTimestamp = fst (je_CreatedAt e);
          exec = (\<lambda>p'. if io = ProjFirst then (Some ProjStatement, p) else (None, p')) in
      case decode_event e of
        None \<Rightarrow> (Some PayloadError, p)
      | Some (MNodeJoined n) \<Rightarrow> exec (p\<lparr>pj_nodes := map_put (pj_nodes p) (nj_NodeID n) n\<rparr>)
      | Some (MTaskCreated t) \<Rightarrow> exec (p\<lparr>pj_tasks := project_task t (pj_tasks p)\<rparr>)
      | Some (MTerritoryClaimed c) \<Rightarrow>
          exec (p\<lparr>pj_locks := map_put (pj_locks p) (territory_key (tl_GitRepo c) (tl_GitBranch c)) (tl_TaskID c, eventTimestamp)\<rparr>)
      | Some (MTerritoryReleased c) \<Rightarrow>
          let key = territory_key (tl_GitRepo c) (tl_GitBranch c);
              p1 = p\<lparr>pj_locks := map_del (pj_locks p) key\<rparr> in
          if io = ProjFirst then (Some ProjStatement, p)
          else if io = ProjSecond then (Some ProjStatement, p1)
          else (None, p1\<lparr>pj_history := pj_history p1 @ [\<lparr>th_TaskID = tl_TaskID c, th_TerritoryKey = key,
                       th_Reason = tl_Reason c, th_EventTime = eventTimestamp\<rparr>]\<rparr>)
      | Some (MTaskSettled s) \<Rightarrow> exec (p\<lparr>pj_tasks := project_settled s (pj_tasks p)\<rparr>)
      | Some (MTerritoryVerified v) \<Rightarrow> exec (p\<lparr>pj_verifications := pj_verifications p @ [(v, eventTimestamp)]\<rparr>)
      | Some MUnknown \<Rightarrow> (None, p))"

fun project_events :: "(nat \<Rightarrow> proj_fault) \<Rightarrow> Projector \<Rightarrow> JoinEvent list \<Rightarrow> proj_error option \<times> Projector" where
  "project_events io p [] = (None, p)"
| "project_events io p (e # es) =
     (case ProjectEvent (io 0) p e of
        (Some x, p') \<Rightarrow> (Some x, p')
      | (None, p') \<Rightarrow> project_events (\<lambda>i. io (Suc i)) p' es)"

definition Replay :: "(nat \<Rightarrow> proj_fault) \<Rightarrow> Projector \<Rightarrow> JoinLog \<Rightarrow> proj_error option \<times> Projector" where
  "Replay io p l = project_events io p (Events l)"

section \<open>The state\<close>

text \<open>A nil map or slice is \<open>None\<close>.\<close>

record MeshState =
  ms_Nodes :: "NodeJoinedPayload gomap option"
  ms_Tasks :: "TaskCreatedPayload gomap option"
  ms_ActiveLocks :: "ActiveTerritoryLock gomap option"
  ms_SettledTasks :: "TaskSettledPayload gomap option"
  ms_TerritoryHistory :: "TerritoryHistoryEntry list option"
  ms_TerritoryVerifications :: "TerritoryVerification list option"

definition task_of_row :: "string \<Rightarrow> task_columns \<Rightarrow> TaskCreatedPayload" where
  "task_of_row i r = \<lparr>tc_TaskID = i, tc_GitRepo = tk_git_repo r, tc_GitBranch = tk_git_branch r, tc_Prompt = tk_prompt r\<rparr>"

definition coalesce :: "string option \<Rightarrow> string" where
  "coalesce v = (case v of None \<Rightarrow> [] | Some s \<Rightarrow> s)"

definition settled_of_row :: "string \<Rightarrow> task_columns \<Rightarrow> TaskSettledPayload" where
  "settled_of_row i r =
     \<lparr>ts_TaskID = i, ts_Verdict = coalesce (tk_verdict r), ts_ReceiptHash = coalesce (tk_receipt_hash r)\<rparr>"

definition non_nil :: "'a list option \<Rightarrow> 'a list" where
  "non_nil v = (case v of None \<Rightarrow> [] | Some xs \<Rightarrow> xs)"

definition verification_of_row :: "TerritoryVerifiedPayload \<times> int \<Rightarrow> TerritoryVerification" where
  "verification_of_row r =
     (case r of (v, t) \<Rightarrow>
        \<lparr>vf_TaskID = tv_TaskID v, vf_GitRepo = tv_GitRepo v, vf_GitBranch = tv_GitBranch v,
         vf_DeclaredSurfaces = Some (non_nil (tv_DeclaredSurfaces v)), vf_ObservedFiles = Some (non_nil (tv_ObservedFiles v)),
         vf_Discrepancies = Some (non_nil (tv_Discrepancies v)), vf_Status = tv_Status v, vf_VerifiedAt = t\<rparr>)"

definition ProjectorSnapshot :: "Projector \<Rightarrow> MeshState" where
  "ProjectorSnapshot p =
     \<lparr>ms_Nodes = Some (pj_nodes p),
      ms_Tasks = Some (map (\<lambda>(i, r). (i, task_of_row i r)) (pj_tasks p)),
      ms_ActiveLocks = Some (map (\<lambda>(k, (t, at)). (k, \<lparr>al_TerritoryKey = k, al_TaskID = t, al_ClaimedAt = at\<rparr>)) (pj_locks p)),
      ms_SettledTasks =
        Some (map (\<lambda>(i, r). (i, settled_of_row i r)) (filter (\<lambda>(i, r). coalesce (tk_verdict r) \<noteq> []) (pj_tasks p))),
      ms_TerritoryHistory = Some (pj_history p),
      ms_TerritoryVerifications = Some (map verification_of_row (pj_verifications p))\<rparr>"

end
