(* ===== verification/Join_Refinement.thy ===== *)
theory Join_Refinement
  imports Join_Project
begin

text \<open>
  The projector implements an abstract reading of the log: the mesh is a fold of its events over plain maps, and the
  state that \<open>Snapshot\<close> reads from the tables after a replay is that fold.
\<close>

section \<open>The abstract mesh\<close>

record mesh =
  mh_nodes :: "string \<rightharpoonup> NodeJoinedPayload"
  mh_tasks :: "string \<rightharpoonup> TaskCreatedPayload"
  mh_locks :: "string \<rightharpoonup> string \<times> int"
  mh_settled :: "string \<rightharpoonup> TaskSettledPayload"
  mh_history :: "TerritoryHistoryEntry list"
  mh_verifications :: "TerritoryVerification list"

definition empty_mesh :: mesh where
  "empty_mesh = \<lparr>mh_nodes = Map.empty, mh_tasks = Map.empty, mh_locks = Map.empty, mh_settled = Map.empty,
     mh_history = [], mh_verifications = []\<rparr>"

fun mesh_apply :: "int \<Rightarrow> mesh_event \<Rightarrow> mesh \<Rightarrow> mesh" where
  "mesh_apply t (MNodeJoined n) m = m\<lparr>mh_nodes := (mh_nodes m)(nj_NodeID n \<mapsto> n)\<rparr>"
| "mesh_apply t (MTaskCreated c) m = m\<lparr>mh_tasks := (mh_tasks m)(tc_TaskID c \<mapsto> c)\<rparr>"
| "mesh_apply t (MTerritoryClaimed c) m =
     m\<lparr>mh_locks := (mh_locks m)(territory_key (tl_GitRepo c) (tl_GitBranch c) \<mapsto> (tl_TaskID c, t))\<rparr>"
| "mesh_apply t (MTerritoryReleased c) m =
     (let key = territory_key (tl_GitRepo c) (tl_GitBranch c) in
      m\<lparr>mh_locks := (mh_locks m)(key := None),
        mh_history := mh_history m @ [\<lparr>th_TaskID = tl_TaskID c, th_TerritoryKey = key, th_Reason = tl_Reason c,
                                        th_EventTime = t\<rparr>]\<rparr>)"
| "mesh_apply t (MTaskSettled s) m =
     (if mh_tasks m (ts_TaskID s) = None then m
      else m\<lparr>mh_settled := (mh_settled m)(ts_TaskID s := if ts_Verdict s = [] then None else Some s)\<rparr>)"
| "mesh_apply t (MTerritoryVerified v) m = m\<lparr>mh_verifications := mh_verifications m @ [verification_of_row (v, t)]\<rparr>"
| "mesh_apply t MUnknown m = m"

text \<open>The mesh of a log, if all of its payloads decode.\<close>

fun mesh_of :: "mesh \<Rightarrow> JoinEvent list \<Rightarrow> mesh option" where
  "mesh_of m [] = Some m"
| "mesh_of m (e # es) =
     (case decode_event e of None \<Rightarrow> None | Some d \<Rightarrow> mesh_of (mesh_apply (fst (je_CreatedAt e)) d m) es)"

section \<open>The abstraction function\<close>

definition abs_mesh :: "MeshState \<Rightarrow> mesh" where
  "abs_mesh s =
     \<lparr>mh_nodes = map_of (non_nil (ms_Nodes s)), mh_tasks = map_of (non_nil (ms_Tasks s)),
      mh_locks = (\<lambda>k. map_option (\<lambda>a. (al_TaskID a, al_ClaimedAt a)) (map_of (non_nil (ms_ActiveLocks s)) k)),
      mh_settled = map_of (non_nil (ms_SettledTasks s)),
      mh_history = non_nil (ms_TerritoryHistory s), mh_verifications = non_nil (ms_TerritoryVerifications s)\<rparr>"

definition settled_row :: "string \<Rightarrow> task_columns \<Rightarrow> TaskSettledPayload option" where
  "settled_row i r = (if coalesce (tk_verdict r) = [] then None else Some (settled_of_row i r))"

lemma map_of_keyed: "map_of (map (\<lambda>(k, v). (k, f k v)) xs) k = map_option (f k) (map_of xs k)"
  by (induction xs) auto

lemma map_of_settled:
  assumes "wf_map rows"
  shows "map_of (map (\<lambda>(i, r). (i, settled_of_row i r)) (filter (\<lambda>(i, r). coalesce (tk_verdict r) \<noteq> []) rows)) k =
         Option.bind (map_of rows k) (settled_row k)"
  using assms
proof (induction rows)
  case (Cons x rows)
  obtain i r where x: "x = (i, r)" by fastforce
  have n: "map_of rows i = None" using Cons.prems x by (simp add: wf_map_def map_of_eq_None_iff)
  have IH: "map_of (map (\<lambda>(i, r). (i, settled_of_row i r)) (filter (\<lambda>(i, r). coalesce (tk_verdict r) \<noteq> []) rows)) k =
      Option.bind (map_of rows k) (settled_row k)" using Cons by (simp add: wf_map_def)
  show ?case using IH n by (cases "k = i"; cases "coalesce (tk_verdict r) = []") (simp_all add: x settled_row_def [of i r])
qed simp

lemma abs_snapshot:
  assumes "wf_map (pj_tasks p)"
  shows "abs_mesh (ProjectorSnapshot p) =
     \<lparr>mh_nodes = map_get (pj_nodes p), mh_tasks = (\<lambda>k. map_option (task_of_row k) (map_get (pj_tasks p) k)),
      mh_locks = map_get (pj_locks p), mh_settled = (\<lambda>k. Option.bind (map_get (pj_tasks p) k) (settled_row k)),
      mh_history = pj_history p, mh_verifications = map verification_of_row (pj_verifications p)\<rparr>"
proof -
  have l: "map_option (\<lambda>a. (al_TaskID a, al_ClaimedAt a))
      (map_of (map (\<lambda>(k, t, at). (k, \<lparr>al_TerritoryKey = k, al_TaskID = t, al_ClaimedAt = at\<rparr>)) ls) k) = map_get ls k" for ls k
    by (induction ls) auto
  show ?thesis
    unfolding abs_mesh_def ProjectorSnapshot_def non_nil_def
    by (simp add: fun_eq_iff l map_of_keyed map_of_settled [OF assms, unfolded map_of_keyed])
qed

section \<open>Refinement\<close>

lemma ProjectEvent_wf: "wf_map (pj_tasks p) \<Longrightarrow> wf_map (pj_tasks (snd (ProjectEvent io p e)))"
  by (auto simp: ProjectEvent_def Let_def project_task_def project_settled_def split: option.splits mesh_event.splits)

lemma ProjectEvent_refines:
  assumes "wf_map (pj_tasks p)" and "ProjectEvent io p e = (None, p')"
  shows "\<exists>d. decode_event e = Some d \<and>
           abs_mesh (ProjectorSnapshot p') = mesh_apply (fst (je_CreatedAt e)) d (abs_mesh (ProjectorSnapshot p))"
proof -
  obtain d where d: "decode_event e = Some d"
    using assms(2) by (auto simp: ProjectEvent_def Let_def split: option.splits)
  have w: "wf_map (pj_tasks p')" using ProjectEvent_wf [OF assms(1), of io e] assms(2) by simp
  have "abs_mesh (ProjectorSnapshot p') = mesh_apply (fst (je_CreatedAt e)) d (abs_mesh (ProjectorSnapshot p))"
  proof (cases d)
    case (MTaskCreated t)
    have p': "p' = p\<lparr>pj_tasks := project_task t (pj_tasks p)\<rparr>"
      using assms(2) d MTaskCreated by (simp add: ProjectEvent_def Let_def split: if_splits)
    show ?thesis
      unfolding abs_snapshot [OF w] abs_snapshot [OF assms(1)] MTaskCreated
      by (auto simp: p' project_task_def task_of_row_def settled_row_def settled_of_row_def coalesce_def fun_eq_iff
          split: option.splits)
  next
    case (MTaskSettled s)
    have p': "p' = p\<lparr>pj_tasks := project_settled s (pj_tasks p)\<rparr>"
      using assms(2) d MTaskSettled by (simp add: ProjectEvent_def Let_def split: if_splits)
    show ?thesis
      unfolding abs_snapshot [OF w] abs_snapshot [OF assms(1)] MTaskSettled
      by (auto simp: p' project_settled_def task_of_row_def settled_row_def settled_of_row_def coalesce_def fun_eq_iff
          split: option.splits)
  qed (use assms(2) d in \<open>auto simp: abs_snapshot [OF w] abs_snapshot [OF assms(1)] ProjectEvent_def Let_def fun_eq_iff
        split: if_splits\<close>)
  then show ?thesis using d by blast
qed

lemma project_events_refines:
  "wf_map (pj_tasks p) \<Longrightarrow> project_events io p es = (None, p') \<Longrightarrow>
   mesh_of (abs_mesh (ProjectorSnapshot p)) es = Some (abs_mesh (ProjectorSnapshot p'))"
proof (induction es arbitrary: io p)
  case (Cons e es)
  obtain q where q: "ProjectEvent (io 0) p e = (None, q)" "project_events (\<lambda>i. io (Suc i)) q es = (None, p')"
    using Cons.prems(2) by (auto split: prod.splits option.splits)
  have "wf_map (pj_tasks q)" using ProjectEvent_wf [OF Cons.prems(1), of "io 0" e] q(1) by simp
  from Cons.IH [OF this q(2)] ProjectEvent_refines [OF Cons.prems(1) q(1)] show ?case by auto
qed simp

lemma abs_NewProjector: "abs_mesh (ProjectorSnapshot NewProjector) = empty_mesh"
  by (auto simp: abs_snapshot NewProjector_def empty_mesh_def fun_eq_iff)

lemma project_events_total:
  "(\<And>i. io i = ProjOk) \<Longrightarrow> fst (project_events io p es) = None \<longleftrightarrow> list_all (\<lambda>e. decode_event e \<noteq> None) es"
proof (induction es arbitrary: io p)
  case (Cons e es)
  have "fst (ProjectEvent ProjOk p e) = None \<longleftrightarrow> decode_event e \<noteq> None"
    by (auto simp: ProjectEvent_def Let_def split: option.splits mesh_event.splits)
  then show ?case using Cons.IH [of "\<lambda>i. io (Suc i)"] Cons.prems by (auto split: prod.splits option.splits)
qed simp

text \<open>C26. The projector refines the abstract reading of the log: a replay that reports no error into a new projection
  leaves tables whose snapshot is the fold of the events of the log over plain maps, whatever the log holds, and without
  database failures a replay succeeds exactly when every payload of a known type decodes.\<close>

theorem replay_refines_log:
  "(case Replay io NewProjector l of
      (Some _, _) \<Rightarrow> True
    | (None, p) \<Rightarrow> mesh_of empty_mesh (Events l) = Some (abs_mesh (ProjectorSnapshot p))) \<and>
   (fst (Replay (\<lambda>_. ProjOk) NewProjector l) = None \<longleftrightarrow> list_all (\<lambda>e. decode_event e \<noteq> None) (Events l))"
proof
  have "wf_map (pj_tasks NewProjector)" by (simp add: NewProjector_def)
  from project_events_refines [OF this, of io "Events l"]
  show "case Replay io NewProjector l of (Some _, _) \<Rightarrow> True
    | (None, p) \<Rightarrow> mesh_of empty_mesh (Events l) = Some (abs_mesh (ProjectorSnapshot p))"
    by (auto simp: Replay_def abs_NewProjector split: prod.splits option.splits)
  show "fst (Replay (\<lambda>_. ProjOk) NewProjector l) = None \<longleftrightarrow> list_all (\<lambda>e. decode_event e \<noteq> None) (Events l)"
    unfolding Replay_def by (rule project_events_total) simp
qed

end
