(* ===== verification/Join_Snapshot.thy ===== *)
theory Join_Snapshot
  imports Join_Refinement
begin

text \<open>
  Snapshots and the situated subscriber (\<open>pkg/joinlog/snapshot.go\<close>, \<open>http.go\<close>, \<open>client.go\<close>): the state with the
  position of the log and a digest, its verification by a worker that joins, and the event stream that continues from it.

  A request or a read of the database that fails is an argument; the log and the tables of a snapshot are read one
  after the other, so they are two arguments. \<open>json.Unmarshal\<close> of an event in the stream is the argument \<open>decode\<close>.
\<close>

section \<open>JSON form of the state\<close>

definition node_json :: "NodeJoinedPayload \<Rightarrow> json" where
  "node_json n = JObj
     ([(''node_id'', JStr (nj_NodeID n)), (''role'', JStr (nj_Role n)), (''endpoint'', JStr (nj_Endpoint n))] @
      omit_str ''agent_public_key'' (nj_AgentPublicKey n) @ omit_list ''tags'' (map JStr (non_nil (nj_Tags n))))"

definition task_json :: "TaskCreatedPayload \<Rightarrow> json" where
  "task_json t = JObj
     [(''task_id'', JStr (tc_TaskID t)), (''git_repo'', JStr (tc_GitRepo t)), (''git_branch'', JStr (tc_GitBranch t)),
      (''prompt'', JStr (tc_Prompt t))]"

definition lock_json :: "go_host \<Rightarrow> ActiveTerritoryLock \<Rightarrow> json" where
  "lock_json h a = JObj
     [(''territory_key'', JStr (al_TerritoryKey a)), (''task_id'', JStr (al_TaskID a)),
      (''claimed_at'', JStr (gh_time h (al_ClaimedAt a)))]"

definition settled_json :: "TaskSettledPayload \<Rightarrow> json" where
  "settled_json s = JObj
     ([(''task_id'', JStr (ts_TaskID s)), (''verdict'', JStr (ts_Verdict s))] @ omit_str ''receipt_hash'' (ts_ReceiptHash s))"

definition history_json :: "go_host \<Rightarrow> TerritoryHistoryEntry \<Rightarrow> json" where
  "history_json h t = JObj
     [(''task_id'', JStr (th_TaskID t)), (''territory_key'', JStr (th_TerritoryKey t)), (''reason'', JStr (th_Reason t)),
      (''event_time'', JStr (gh_time h (th_EventTime t)))]"

definition verification_json :: "go_host \<Rightarrow> TerritoryVerification \<Rightarrow> json" where
  "verification_json h v = JObj
     [(''task_id'', JStr (vf_TaskID v)), (''git_repo'', JStr (vf_GitRepo v)), (''git_branch'', JStr (vf_GitBranch v)),
      (''declared_surfaces'', jslice JStr (vf_DeclaredSurfaces v)), (''observed_files'', jslice JStr (vf_ObservedFiles v)),
      (''discrepancies'', jslice JStr (vf_Discrepancies v)), (''status'', JStr (vf_Status v)),
      (''verified_at'', JStr (gh_time h (vf_VerifiedAt v)))]"

definition jmap :: "('a \<Rightarrow> json) \<Rightarrow> 'a gomap option \<Rightarrow> json" where
  "jmap f v = (case v of None \<Rightarrow> JNull | Some m \<Rightarrow> JObj (map (\<lambda>(k, x). (k, f x)) m))"

definition state_json :: "go_host \<Rightarrow> MeshState \<Rightarrow> json" where
  "state_json h s = JObj
     [(''nodes'', jmap node_json (ms_Nodes s)), (''tasks'', jmap task_json (ms_Tasks s)),
      (''active_locks'', jmap (lock_json h) (ms_ActiveLocks s)), (''settled_tasks'', jmap settled_json (ms_SettledTasks s)),
      (''territory_history'', jslice (history_json h) (ms_TerritoryHistory s)),
      (''territory_verifications'', jslice (verification_json h) (ms_TerritoryVerifications s))]"

section \<open>Snapshots\<close>

definition normalizeState :: "MeshState option \<Rightarrow> MeshState" where
  "normalizeState s =
     (let norm = (case s of
                    None \<Rightarrow> \<lparr>ms_Nodes = None, ms_Tasks = None, ms_ActiveLocks = None, ms_SettledTasks = None,
                            ms_TerritoryHistory = None, ms_TerritoryVerifications = None\<rparr>
                  | Some x \<Rightarrow> x) in
      \<lparr>ms_Nodes = Some (non_nil (ms_Nodes norm)), ms_Tasks = Some (non_nil (ms_Tasks norm)),
       ms_ActiveLocks = Some (non_nil (ms_ActiveLocks norm)), ms_SettledTasks = Some (non_nil (ms_SettledTasks norm)),
       ms_TerritoryHistory = Some (non_nil (ms_TerritoryHistory norm)),
       ms_TerritoryVerifications = Some (non_nil (ms_TerritoryVerifications norm))\<rparr>)"

definition ComputeStateDigest :: "go_host \<Rightarrow> MeshState option \<Rightarrow> string option" where
  "ComputeStateDigest h s = hash_json h (state_json h (normalizeState s))"

record Snapshot =
  ss_HeadEventSeq :: int
  ss_HeadEventHash :: string
  ss_State :: MeshState
  ss_StateDigest :: string

datatype snapshot_fault = SnapOk | SnapHead | SnapTables

datatype snapshot_error = SnapshotFault snapshot_fault | DigestFailed | SnapshotNil | DigestEmpty

definition CreateSnapshot ::
  "go_host \<Rightarrow> snapshot_fault \<Rightarrow> Projector \<Rightarrow> JoinLog \<Rightarrow> snapshot_error + Snapshot" where
  "CreateSnapshot h io p l =
     (if io \<noteq> SnapOk then Inl (SnapshotFault io)
      else let (seq, hash) = HeadPosition l; state = ProjectorSnapshot p in
        case ComputeStateDigest h (Some state) of
          None \<Rightarrow> Inl DigestFailed
        | Some digest \<Rightarrow>
            Inr \<lparr>ss_HeadEventSeq = seq, ss_HeadEventHash = hash, ss_State = state, ss_StateDigest = digest\<rparr>)"

definition VerifySnapshot :: "go_host \<Rightarrow> Snapshot option \<Rightarrow> snapshot_error + bool" where
  "VerifySnapshot h snap =
     (case snap of
        None \<Rightarrow> Inl SnapshotNil
      | Some s \<Rightarrow>
          if ss_StateDigest s = [] then Inl DigestEmpty
          else (case ComputeStateDigest h (Some (ss_State s)) of
                  None \<Rightarrow> Inl DigestFailed
                | Some computed \<Rightarrow> Inr (computed = ss_StateDigest s)))"

text \<open>\<open>CatchUp\<close>, by the outcome of the request.\<close>

datatype snapshot_response = FetchFailed | FetchStatus nat | BodyMalformed | FetchBody Snapshot

datatype catch_up_error = CatchUpResponse snapshot_response | CatchUpVerify snapshot_error | ErrInvalidSnapshotDigest

definition CatchUp :: "go_host \<Rightarrow> snapshot_response \<Rightarrow> catch_up_error + Snapshot" where
  "CatchUp h resp =
     (case resp of
        FetchBody snap \<Rightarrow>
          (case VerifySnapshot h (Some snap) of
             Inl x \<Rightarrow> Inl (CatchUpVerify x)
           | Inr valid \<Rightarrow> if valid then Inr snap else Inl ErrInvalidSnapshotDigest)
      | _ \<Rightarrow> Inl (CatchUpResponse resp))"

section \<open>Cursors and the event stream\<close>

definition parse_cursor :: "string \<Rightarrow> string \<Rightarrow> string \<Rightarrow> int \<times> string" where
  "parse_cursor lastEventID qSeq qHash =
     (if lastEventID \<noteq> [] then
        (if CHR '':'' \<in> set lastEventID then
           (case Atoi (takeWhile (\<lambda>c. c \<noteq> CHR '':'') lastEventID) of
              None \<Rightarrow> (0, [])
            | Some n \<Rightarrow> (n, tl (dropWhile (\<lambda>c. c \<noteq> CHR '':'') lastEventID)))
         else (case Atoi lastEventID of None \<Rightarrow> (0, []) | Some n \<Rightarrow> (n, [])))
      else
        (if qSeq \<noteq> [] then (case Atoi qSeq of None \<Rightarrow> 0 | Some n \<Rightarrow> n) else 0, qHash))"

datatype events_response = EventsMethod | EventsAnchorFailed | EventsDivergence | EventsUnsupported | EventsStream int

definition HandleEvents ::
  "bool \<Rightarrow> bool \<Rightarrow> bool \<Rightarrow> nat \<Rightarrow> string \<times> string \<times> string \<Rightarrow> JoinLog \<Rightarrow> events_response \<times> JoinLog" where
  "HandleEvents isGet lookupFails flusher i req l =
     (case req of (lastEventID, qSeq, qHash) \<Rightarrow>
        if \<not> isGet then (EventsMethod, l)
        else let (sinceSeq, sinceHash) = parse_cursor lastEventID qSeq qHash in
          if 0 < sinceSeq \<and> sinceHash \<noteq> [] \<and> lookupFails then (EventsAnchorFailed, l)
          else if 0 < sinceSeq \<and> sinceHash \<noteq> [] \<and>
                  (case EventBySeq l sinceSeq of None \<Rightarrow> False | Some e \<Rightarrow> je_Hash e \<noteq> sinceHash)
          then (EventsDivergence, l)
          else if \<not> flusher then (EventsUnsupported, l)
          else (EventsStream sinceSeq, JoinSubscribe i l sinceSeq))"

definition cursor_header :: "int \<Rightarrow> string \<Rightarrow> string" where
  "cursor_header sinceSeq sinceHash =
     (if 0 < sinceSeq \<or> sinceHash \<noteq> [] then
        (if sinceHash \<noteq> [] then decimal sinceSeq @ '':'' @ sinceHash else decimal sinceSeq)
      else [])"

text \<open>What the stream loop of the handler writes for a heartbeat and for an event, whose JSON text is \<open>data\<close>.\<close>

datatype sse_frame = SsePing | SseEvent JoinEvent string

definition newline :: char where
  "newline = CHR 0x0A"

fun frame_text :: "sse_frame \<Rightarrow> string" where
  "frame_text SsePing = '': ping'' @ [newline, newline]"
| "frame_text (SseEvent e data) =
     ''id: '' @ decimal (je_Seq e) @ '':'' @ je_Hash e @ [newline] @ ''event: '' @ je_Type e @ [newline] @
     ''data: '' @ data @ [newline, newline]"

text \<open>The reading loop of \<open>SubscribeEvents\<close>: one line, with the data collected so far and the events passed on.\<close>

definition trim_line_end :: "string \<Rightarrow> string" where
  "trim_line_end line = rev (dropWhile (\<lambda>c. c = newline \<or> c = CHR 0x0D) (rev line))"

definition read_line ::
  "(string \<Rightarrow> JoinEvent option) \<Rightarrow> string \<times> JoinEvent list \<Rightarrow> string \<Rightarrow> string \<times> JoinEvent list" where
  "read_line decode st raw =
     (case st of (currentData, seen) \<Rightarrow>
        let line = trim_line_end raw in
        if line = [] then
          (if currentData = [] then st
           else ([], case decode currentData of None \<Rightarrow> seen | Some e \<Rightarrow> seen @ [e]))
        else if HasPrefix line '':'' then st
        else if HasPrefix line ''data:'' then (currentData @ TrimSpace (TrimPrefix line ''data:''), seen)
        else st)"

definition SubscribeEvents :: "(string \<Rightarrow> JoinEvent option) \<Rightarrow> string \<Rightarrow> JoinEvent list" where
  "SubscribeEvents decode body = snd (foldl (read_line decode) ([], []) (butlast (split_on newline body)))"

end
