(* ===== verification/Join_Catchup.thy ===== *)
theory Join_Catchup
  imports Join_Snapshot
begin

text \<open>
  A worker that joins: its verified snapshot together with the stream that follows it gives the whole log, the cursor
  and the stream arrive as they were sent, and a digest stands for one state.
\<close>

section \<open>Cursors\<close>

lemma decimal_no_colon: "CHR '':'' \<notin> set (decimal i)"
  using nat_digits_chars [of "CHR '':''"] by (auto simp: decimal_def)

lemma decimal_neq_Nil: "decimal i \<noteq> []"
  using nat_digits_neq_Nil by (simp add: decimal_def)

lemma cursor_roundtrip:
  assumes "0 \<le> n" and "n < 2 ^ 63"
  shows "parse_cursor (cursor_header n x) [] [] = (n, x)"
proof -
  have a: "Atoi (decimal n) = Some n" using Atoi_decimal assms by simp
  have "takeWhile (\<lambda>c. c \<noteq> CHR '':'') (decimal n @ CHR '':'' # x) = decimal n"
    "dropWhile (\<lambda>c. c \<noteq> CHR '':'') (decimal n @ CHR '':'' # x) = CHR '':'' # x"
    using decimal_no_colon [of n] by (auto simp: takeWhile_append dropWhile_append)
  then show ?thesis
    using a assms(1) decimal_no_colon [of n] decimal_neq_Nil [of n] by (auto simp: parse_cursor_def cursor_header_def)
qed

section \<open>Snapshot and stream\<close>

lemma mesh_of_append: "mesh_of m (es @ fs) = Option.bind (mesh_of m es) (\<lambda>m'. mesh_of m' fs)"
  by (induction es arbitrary: m) (auto split: option.splits)

lemma VerifySnapshot_created:
  assumes "digests_ok h" and "CreateSnapshot h io p l = Inr snap"
  shows "VerifySnapshot h (Some snap) = Inr True"
proof -
  obtain d where d: "ComputeStateDigest h (Some (ss_State snap)) = Some d" "ss_StateDigest snap = d"
    using assms(2) by (auto simp: CreateSnapshot_def Let_def split: if_splits option.splits prod.splits)
  then have "d \<noteq> []"
    using assms(1) unfolding digests_ok_def ComputeStateDigest_def hash_json_def HashHex_def
    by (auto split: option.splits)
  then show ?thesis using d by (simp add: VerifySnapshot_def)
qed

lemma EventBySeq_ok:
  assumes "rows_ok (jl_rows l)" and "k < length (jl_rows l)"
  shows "EventBySeq l (1 + int k) = Some (row_event (jl_rows l ! k))"
proof -
  have seq: "jr_seq (jl_rows l ! j) = 1 + int j" if "j < length (jl_rows l)" for j
  proof -
    have "map jr_seq (jl_rows l) ! j = map (\<lambda>i. 1 + int i) [0..<length (jl_rows l)] ! j"
      using assms(1) by (simp add: rows_ok_def)
    then show ?thesis using that by simp
  qed
  then have "find (\<lambda>r. jr_seq r = 1 + int k) (jl_rows l) = Some (jl_rows l ! k)"
    using assms(2) by (auto simp: find_Some_iff)
  then show ?thesis by (simp add: EventBySeq_def)
qed

lemma anchor_accepted:
  assumes "rows_ok (jl_rows l)" and "rows_ok (jl_rows l')" and "prefix (jl_rows l) (jl_rows l')"
    and "length (jl_rows l) < 2 ^ 63" and "HeadPosition l = (n, x)"
  shows "fst (HandleEvents True False True i (cursor_header n x, [], []) l') = EventsStream n"
proof -
  have n: "n = int (length (jl_rows l))" "x = (if jl_rows l = [] then [] else jr_hash (last (jl_rows l)))"
    using assms(5) HeadPosition_ok [OF assms(1)] by auto
  have c: "parse_cursor (cursor_header n x) [] [] = (n, x)"
    using cursor_roundtrip n(1) assms(4) by (metis (full_types) of_nat_0_le_iff of_nat_less_iff of_nat_numeral of_nat_power)
  have "je_Hash e = x" if e: "EventBySeq l' n = Some e" "0 < n" for e
  proof -
    let ?k = "length (jl_rows l) - 1"
    have k: "?k < length (jl_rows l)" "n = 1 + int ?k" using e(2) n(1) by (cases "jl_rows l"; simp)+
    then have "?k < length (jl_rows l')" "jl_rows l' ! ?k = jl_rows l ! ?k"
      using assms(3) by (auto simp: prefix_def nth_append)
    then have "EventBySeq l' n = Some (row_event (jl_rows l ! ?k))" using EventBySeq_ok [OF assms(2)] k(2) by simp
    moreover have "jl_rows l ! ?k = last (jl_rows l)" "jl_rows l \<noteq> []"
      using k(1) by (cases "jl_rows l"; simp add: last_conv_nth)+
    ultimately show ?thesis using e(1) n(2) by simp
  qed
  then show ?thesis by (auto simp: HandleEvents_def c split: option.splits)
qed



text \<open>The digest covers the state and not the position: a snapshot of an empty projection verifies with any log head.\<close>

lemma stale_snapshot_verifies:
  assumes "digests_ok h" and "CreateSnapshot h SnapOk NewProjector l = Inr snap"
  shows "CatchUp h (FetchBody snap) = Inr snap \<and> ss_HeadEventSeq snap = fst (HeadPosition l) \<and>
         abs_mesh (ss_State snap) = empty_mesh"
proof -
  have "HeadPosition l = (ss_HeadEventSeq snap, ss_HeadEventHash snap)" "ss_State snap = ProjectorSnapshot NewProjector"
    using assms(2) by (auto simp: CreateSnapshot_def Let_def split: if_splits option.splits prod.splits)
  then show ?thesis using VerifySnapshot_created [OF assms] abs_NewProjector by (simp add: CatchUp_def)
qed

section \<open>Digests\<close>

definition state_maps_ok :: "MeshState \<Rightarrow> bool" where
  "state_maps_ok s \<longleftrightarrow>
     wf_map (non_nil (ms_Nodes s)) \<and> wf_map (non_nil (ms_Tasks s)) \<and> wf_map (non_nil (ms_ActiveLocks s)) \<and>
     wf_map (non_nil (ms_SettledTasks s))"

lemma jmap_distinct:
  assumes "wf_map m" and "\<And>x. keys_distinct (f x)"
  shows "keys_distinct (jmap f (Some m))"
proof -
  have "map fst (map (\<lambda>(k, x). (k, f x)) m) = map fst m" by auto
  then show ?thesis using assms by (simp add: jmap_def wf_map_def list_all_iff case_prod_unfold comp_def)
qed

lemma state_parts_distinct:
  "keys_distinct (node_json n)" "keys_distinct (task_json t)" "keys_distinct (lock_json h a)" "keys_distinct (settled_json s)"
  "keys_distinct (history_json h e)" "keys_distinct (verification_json h v)"
proof -
  show "keys_distinct (node_json n)" unfolding node_json_def append_Cons append_Nil
    by (rule keys_distinctI, (rule json_keys | (simp add: json_field_defs; fail))+)
  show "keys_distinct (task_json t)" "keys_distinct (lock_json h a)" "keys_distinct (history_json h e)"
    by (simp_all add: task_json_def lock_json_def history_json_def)
  show "keys_distinct (settled_json s)" by (simp add: settled_json_def json_field_defs)
  have "keys_distinct (jslice JStr xs)" for xs by (intro jslice_distinct) simp
  then show "keys_distinct (verification_json h v)" by (simp add: verification_json_def)
qed

lemma state_json_distinct:
  assumes "state_maps_ok s"
  shows "keys_distinct (state_json h (normalizeState (Some s)))"
proof -
  have "keys_distinct (jslice (history_json h) xs)" "keys_distinct (jslice (verification_json h) ys)" for xs ys
    by (intro jslice_distinct state_parts_distinct)+
  then show ?thesis
    using assms state_parts_distinct unfolding state_maps_ok_def
    by (simp add: state_json_def normalizeState_def jmap_distinct)
qed

definition node_view :: "NodeJoinedPayload \<Rightarrow> NodeJoinedPayload" where
  "node_view n = n\<lparr>nj_Tags := Some (non_nil (nj_Tags n))\<rparr>"

definition lock_view :: "go_host \<Rightarrow> ActiveTerritoryLock \<Rightarrow> string \<times> string \<times> string" where
  "lock_view h a = (al_TerritoryKey a, al_TaskID a, gh_time h (al_ClaimedAt a))"

definition history_view :: "go_host \<Rightarrow> TerritoryHistoryEntry \<Rightarrow> string \<times> string \<times> string \<times> string" where
  "history_view h t = (th_TaskID t, th_TerritoryKey t, th_Reason t, gh_time h (th_EventTime t))"

text \<open>Equal states, up to the order of maps, nil or empty lists and the spelling of times.\<close>

definition same_state :: "go_host \<Rightarrow> MeshState \<Rightarrow> MeshState \<Rightarrow> bool" where
  "same_state h s t \<longleftrightarrow>
     (\<forall>k. map_option node_view (map_of (non_nil (ms_Nodes s)) k) = map_option node_view (map_of (non_nil (ms_Nodes t)) k) \<and>
          map_of (non_nil (ms_Tasks s)) k = map_of (non_nil (ms_Tasks t)) k \<and>
          map_option (lock_view h) (map_of (non_nil (ms_ActiveLocks s)) k) =
            map_option (lock_view h) (map_of (non_nil (ms_ActiveLocks t)) k) \<and>
          map_of (non_nil (ms_SettledTasks s)) k = map_of (non_nil (ms_SettledTasks t)) k) \<and>
     map (history_view h) (non_nil (ms_TerritoryHistory s)) = map (history_view h) (non_nil (ms_TerritoryHistory t))"

lemma jmap_binds:
  assumes "normal nf (jmap f (Some m)) = normal nf (jmap f (Some m'))" and "wf_map m" and "wf_map m'"
    and "\<And>x y. normal nf (f x) = normal nf (f y) \<Longrightarrow> g x = g y"
  shows "map_option g (map_of m k) = map_option g (map_of m' k)"
proof -
  have "map fst (map (\<lambda>(k, x). (k, f x)) m) = map fst m" for m :: "'a gomap" by auto
  then have d: "distinct (map fst (map (\<lambda>(k, x). (k, f x)) m))" "distinct (map fst (map (\<lambda>(k, x). (k, f x)) m'))"
    using assms(2,3) unfolding wf_map_def by metis+
  have "map_of (map (\<lambda>(k, x). (k, f x)) m) k = map_option f (map_of m k)" for m by (induction m) auto
  then have "map_option (normal nf) (map_option f (map_of m k)) = map_option (normal nf) (map_option f (map_of m' k))"
    using normal_object_fields [OF assms(1) [unfolded jmap_def option.case] d, of k] by simp
  then show ?thesis by (cases "map_of m k"; cases "map_of m' k") (auto intro: assms(4))
qed

lemma map_eq_refine:
  assumes "map f xs = map f ys" and "\<And>x y. f x = f y \<Longrightarrow> g x = g y"
  shows "map g xs = map g ys"
proof -
  have "length xs = length ys" using assms(1) by (rule map_eq_imp_length_eq)
  then show ?thesis using assms(1) by (induction rule: list_induct2) (auto intro: assms(2))
qed

lemma node_json_binds: "normal nf (node_json n) = normal nf (node_json n') \<Longrightarrow> node_view n = node_view n'"
proof -
  assume a: "normal nf (node_json n) = normal nf (node_json n')"
  have d: "distinct (map fst ([(''node_id'', JStr (nj_NodeID n)), (''role'', JStr (nj_Role n)), (''endpoint'', JStr (nj_Endpoint n))] @
      omit_str ''agent_public_key'' (nj_AgentPublicKey n) @ omit_list ''tags'' (map JStr (non_nil (nj_Tags n)))))" for n
    by (simp add: json_field_defs)
  note field = normal_object_fields [OF a [unfolded node_json_def] d d]
  have strs: "map (normal nf) (map JStr xs) = map JStr xs" for xs by simp
  have "nj_NodeID n = nj_NodeID n'" using field [of "''node_id''"] by (simp add: json_field_defs)
  moreover have "nj_Role n = nj_Role n'" using field [of "''role''"] by (simp add: json_field_defs)
  moreover have "nj_Endpoint n = nj_Endpoint n'" using field [of "''endpoint''"] by (simp add: json_field_defs)
  moreover have "nj_AgentPublicKey n = nj_AgentPublicKey n'"
    using field [of "''agent_public_key''"] by (simp add: json_field_defs split: if_splits)
  moreover have "non_nil (nj_Tags n) = non_nil (nj_Tags n')"
    using field [of "''tags''"] by (auto simp: json_field_defs strs comp_def inj_map_eq_map inj_def split: if_splits)
  ultimately show "node_view n = node_view n'" by (simp add: node_view_def)
qed


lemma state_part_binds:
  "normal nf (task_json t) = normal nf (task_json t') \<Longrightarrow> t = t'"
  "normal nf (lock_json h a) = normal nf (lock_json h a') \<Longrightarrow> lock_view h a = lock_view h a'"
  "normal nf (history_json h e) = normal nf (history_json h e') \<Longrightarrow> history_view h e = history_view h e'"
  "normal nf (settled_json s) = normal nf (settled_json s') \<Longrightarrow> s = s'"
proof -
  note four = normal_object_fields [of nf "[(a, x), (b, y), (c, z), (d, w)]" "[(a, x'), (b, y'), (c, z'), (d, w')]" for a b c d x y z w x' y' z' w']
  note three = normal_object_fields [of nf "[(a, x), (b, y), (c, z)]" "[(a, x'), (b, y'), (c, z')]" for a b c x y z x' y' z']
  show "t = t'" if "normal nf (task_json t) = normal nf (task_json t')"
    using four [OF that [unfolded task_json_def], of "''task_id''"] four [OF that [unfolded task_json_def], of "''git_repo''"]
      four [OF that [unfolded task_json_def], of "''git_branch''"] four [OF that [unfolded task_json_def], of "''prompt''"]
    by (cases t; cases t') simp
  show "lock_view h a = lock_view h a'" if "normal nf (lock_json h a) = normal nf (lock_json h a')"
    using three [OF that [unfolded lock_json_def], of "''task_id''"] three [OF that [unfolded lock_json_def], of "''territory_key''"]
      three [OF that [unfolded lock_json_def], of "''claimed_at''"]
    by (simp add: lock_view_def)
  show "history_view h e = history_view h e'" if "normal nf (history_json h e) = normal nf (history_json h e')"
    using four [OF that [unfolded history_json_def], of "''task_id''"] four [OF that [unfolded history_json_def], of "''territory_key''"]
      four [OF that [unfolded history_json_def], of "''reason''"] four [OF that [unfolded history_json_def], of "''event_time''"]
    by (simp add: history_view_def)
  show "s = s'" if a: "normal nf (settled_json s) = normal nf (settled_json s')"
  proof -
    have d: "distinct (map fst ([(''task_id'', JStr (ts_TaskID s)), (''verdict'', JStr (ts_Verdict s))] @
        omit_str ''receipt_hash'' (ts_ReceiptHash s)))" for s by (simp add: json_field_defs)
    note field = normal_object_fields [OF a [unfolded settled_json_def] d d]
    show ?thesis using field [of "''task_id''"] field [of "''verdict''"] field [of "''receipt_hash''"]
      by (cases s; cases s') (simp add: json_field_defs split: if_splits)
  qed
qed


text \<open>A state digest stands for one state: two snapshots that verify with the same digest hold the same nodes, keys,
  tasks, locks, verdicts and history, unless SHA-256 collides.\<close>

theorem snapshot_digest_binds:
  assumes "digests_ok h" and "state_maps_ok (ss_State s)" and "state_maps_ok (ss_State t)"
    and "CatchUp h (FetchBody s) = Inr s" and "CatchUp h (FetchBody t) = Inr t" and "ss_StateDigest s = ss_StateDigest t"
  shows "same_state h (ss_State s) (ss_State t) \<or> sha_collision (gh_sha h)"
proof (cases "sha_collision (gh_sha h)")
  case False
  let ?nf = "gh_numbers h" and ?n = "\<lambda>s. normalizeState (Some (ss_State s))"
  have d: "hash_json h (state_json h (?n s)) = Some (ss_StateDigest s)" "hash_json h (state_json h (?n t)) = Some (ss_StateDigest s)"
    using assms(4-6) by (auto simp: CatchUp_def VerifySnapshot_def ComputeStateDigest_def split: if_splits option.splits sum.splits)
  then have n: "normal ?nf (state_json h (?n s)) = normal ?nf (state_json h (?n t))"
    using hash_json_binds [OF _ state_json_distinct [OF assms(2)] state_json_distinct [OF assms(3)] d] assms(1) False
    unfolding digests_ok_def by blast
  have ks: "distinct (map fst [(''nodes'', a), (''tasks'', b), (''active_locks'', c), (''settled_tasks'', e),
      (''territory_history'', f), (''territory_verifications'', g)])" for a b c e f g :: json by simp
  note field = normal_object_fields [OF n [unfolded state_json_def] ks ks]
  note norm = normalizeState_def Let_def
  have wf: "wf_map (non_nil (ms_Nodes (ss_State s)))" "wf_map (non_nil (ms_Nodes (ss_State t)))"
    "wf_map (non_nil (ms_Tasks (ss_State s)))" "wf_map (non_nil (ms_Tasks (ss_State t)))"
    "wf_map (non_nil (ms_ActiveLocks (ss_State s)))" "wf_map (non_nil (ms_ActiveLocks (ss_State t)))"
    "wf_map (non_nil (ms_SettledTasks (ss_State s)))" "wf_map (non_nil (ms_SettledTasks (ss_State t)))"
    using assms(2,3) by (simp_all add: state_maps_ok_def)
  have "normal ?nf (jmap node_json (ms_Nodes (?n s))) = normal ?nf (jmap node_json (ms_Nodes (?n t)))"
    using field [of "''nodes''"] by simp
  note nodes = jmap_binds [where g = node_view, OF this [unfolded norm, simplified] wf(1,2)]
  have "normal ?nf (jmap task_json (ms_Tasks (?n s))) = normal ?nf (jmap task_json (ms_Tasks (?n t)))"
    using field [of "''tasks''"] by simp
  note tasks = jmap_binds [where g = id, OF this [unfolded norm, simplified] wf(3,4)]
  have "normal ?nf (jmap (lock_json h) (ms_ActiveLocks (?n s))) = normal ?nf (jmap (lock_json h) (ms_ActiveLocks (?n t)))"
    using field [of "''active_locks''"] by simp
  note locks = jmap_binds [where g = "lock_view h", OF this [unfolded norm, simplified] wf(5,6)]
  have "normal ?nf (jmap settled_json (ms_SettledTasks (?n s))) = normal ?nf (jmap settled_json (ms_SettledTasks (?n t)))"
    using field [of "''settled_tasks''"] by simp
  note settled = jmap_binds [where g = id, OF this [unfolded norm, simplified] wf(7,8)]
  have "map (history_view h) (non_nil (ms_TerritoryHistory (ss_State s))) = map (history_view h) (non_nil (ms_TerritoryHistory (ss_State t)))"
  proof -
    have "map (\<lambda>e. normal ?nf (history_json h e)) (non_nil (ms_TerritoryHistory (ss_State s))) =
        map (\<lambda>e. normal ?nf (history_json h e)) (non_nil (ms_TerritoryHistory (ss_State t)))"
      using field [of "''territory_history''"] by (simp add: norm jslice_def comp_def)
    then show ?thesis by (rule map_eq_refine) (rule state_part_binds(3))
  qed
  moreover have "map_of (non_nil (ms_Tasks (ss_State s))) k = map_of (non_nil (ms_Tasks (ss_State t))) k"
    "map_of (non_nil (ms_SettledTasks (ss_State s))) k = map_of (non_nil (ms_SettledTasks (ss_State t))) k" for k
    using tasks [of k] settled [of k] state_part_binds(1,4) by (simp_all add: option.map_id)
  moreover have "map_option node_view (map_of (non_nil (ms_Nodes (ss_State s))) k) =
      map_option node_view (map_of (non_nil (ms_Nodes (ss_State t))) k)" for k by (rule nodes) (rule node_json_binds)
  moreover have "map_option (lock_view h) (map_of (non_nil (ms_ActiveLocks (ss_State s))) k) =
      map_option (lock_view h) (map_of (non_nil (ms_ActiveLocks (ss_State t))) k)" for k by (rule locks) (rule state_part_binds(2))
  ultimately show ?thesis unfolding same_state_def by blast
qed simp


section \<open>The stream on the wire\<close>

text \<open>The texts of a frame contain no line breaks, and the JSON text of an event is trimmed, not empty and decodes.\<close>

definition line_safe :: "string \<Rightarrow> bool" where
  "line_safe s \<longleftrightarrow> newline \<notin> set s \<and> CHR 0x0D \<notin> set s"

fun frame_ok :: "(string \<Rightarrow> JoinEvent option) \<Rightarrow> sse_frame \<Rightarrow> bool" where
  "frame_ok decode SsePing = True"
| "frame_ok decode (SseEvent e data) =
     (line_safe (je_Hash e) \<and> line_safe (je_Type e) \<and> line_safe data \<and> data \<noteq> [] \<and> TrimSpace data = data \<and>
      decode data = Some e)"

fun frame_events :: "sse_frame \<Rightarrow> JoinEvent list" where
  "frame_events SsePing = []"
| "frame_events (SseEvent e data) = [e]"

fun frame_lines :: "sse_frame \<Rightarrow> string list" where
  "frame_lines SsePing = ['': ping'', []]"
| "frame_lines (SseEvent e data) =
     [''id: '' @ decimal (je_Seq e) @ '':'' @ je_Hash e, ''event: '' @ je_Type e, ''data: '' @ data, []]"

lemma frame_text_lines: "frame_text f = concat (map (\<lambda>x. x @ [newline]) (frame_lines f))"
  by (cases f) simp_all

lemma decimal_line_safe: "newline \<notin> set (decimal i) \<and> CHR 0x0D \<notin> set (decimal i)"
  using nat_digits_chars [of newline] nat_digits_chars [of "CHR 0x0D"] by (auto simp: decimal_def newline_def)

lemma frame_lines_safe: "frame_ok decode f \<Longrightarrow> x \<in> set (frame_lines f) \<Longrightarrow> line_safe x"
  using decimal_line_safe by (cases f) (auto simp: line_safe_def newline_def)

lemma split_lines:
  "list_all (\<lambda>x. newline \<notin> set x) xs \<Longrightarrow> split_on newline (concat (map (\<lambda>x. x @ [newline]) xs)) = xs @ [[]]"
proof (induction xs)
  case (Cons x xs)
  then show ?case by (simp add: split_on_append_delim split_on_single)
qed simp

lemma trim_line_safe: "line_safe x \<Longrightarrow> trim_line_end x = x"
  by (cases x rule: rev_cases) (auto simp: trim_line_end_def line_safe_def)

lemma read_frame:
  assumes "frame_ok decode f"
  shows "foldl (read_line decode) ([], seen) (frame_lines f) = ([], seen @ frame_events f)"
proof (cases f)
  case SsePing
  have "trim_line_end '': ping'' = '': ping''" "trim_line_end [] = []" by (rule trim_line_safe; simp add: line_safe_def newline_def)+
  then show ?thesis by (simp add: SsePing read_line_def HasPrefix_def)
next
  case (SseEvent e data)
  have t: "trim_line_end x = x" if "x \<in> set (frame_lines f)" for x using trim_line_safe frame_lines_safe [OF assms that] by blast
  have "TrimSpace (CHR '' '' # data) = data" using assms SseEvent by (simp add: TrimSpace_def TrimLeftSpace_def is_space_def)
  then show ?thesis using assms t by (simp add: SseEvent read_line_def HasPrefix_def TrimPrefix_def)
qed


text \<open>The stream arrives as it was sent: from the text the coordinator writes for events and heartbeats, the reading
  loop of the subscriber passes on exactly these events in order, if no text of a frame holds a line break.\<close>

theorem sse_stream_roundtrip:
  assumes "list_all (frame_ok decode) frames"
  shows "SubscribeEvents decode (concat (map frame_text frames)) = concat (map frame_events frames)"
proof -
  have "concat (map frame_text frames) = concat (map (\<lambda>x. x @ [newline]) (concat (map frame_lines frames)))"
    by (induction frames) (simp_all add: frame_text_lines)
  moreover have "list_all (\<lambda>x. newline \<notin> set x) (concat (map frame_lines frames))"
    using assms frame_lines_safe unfolding line_safe_def by (fastforce simp: list_all_iff)
  ultimately have "butlast (split_on newline (concat (map frame_text frames))) = concat (map frame_lines frames)"
    by (simp add: split_lines)
  moreover have "foldl (read_line decode) ([], seen) (concat (map frame_lines frames)) = ([], seen @ concat (map frame_events frames))" for seen
    using assms by (induction frames arbitrary: seen) (simp_all add: read_frame)
  ultimately show ?thesis by (simp add: SubscribeEvents_def)
qed

theorem sse_stream_roundtrip_witness:
  "list_all (frame_ok (\<lambda>_. Some sample_join)) [SsePing, SseEvent sample_join ''{}''] \<and>
   SubscribeEvents (\<lambda>_. Some sample_join) (concat (map frame_text [SsePing, SseEvent sample_join ''{}''])) =
     concat (map frame_events [SsePing, SseEvent sample_join ''{}''])"
proof -
  have "list_all (frame_ok (\<lambda>_. Some sample_join)) [SsePing, SseEvent sample_join ''{}'']"
    by (simp add: line_safe_def newline_def sample_join_def TrimSpace_def is_space_def)
  then show ?thesis using sse_stream_roundtrip by blast
qed

section \<open>Samples\<close>

lemma sample_decodes:
  "je_Type e = ''node.joined'' \<Longrightarrow> je_Payload e = Some ''{}'' \<Longrightarrow>
   decode_event e = Some (MNodeJoined \<lparr>nj_NodeID = [], nj_Role = [], nj_Endpoint = [], nj_AgentPublicKey = [], nj_Tags = None\<rparr>)"
proof -
  have "parseStrict ''{}'' = Some (JObj [])" by code_simp
  then show "je_Type e = ''node.joined'' \<Longrightarrow> je_Payload e = Some ''{}'' \<Longrightarrow> ?thesis"
    by (simp add: decode_event_def decode_members_def decode_string_def decode_strings_def member_values_def)
qed

definition sample_projector :: Projector where
  "sample_projector = NewProjector\<lparr>pj_nodes :=
     [([], \<lparr>nj_NodeID = [], nj_Role = [], nj_Endpoint = [], nj_AgentPublicKey = [], nj_Tags = None\<rparr>)]\<rparr>"

lemma sample_replayed:
  "Replay (\<lambda>_. ProjOk) NewProjector (join_run sample_host NewJoinLog [sample_call]) = (None, sample_projector)"
  "length (Events (join_run sample_host NewJoinLog [sample_call])) = 1"
proof -
  let ?l = "join_run sample_host NewJoinLog [sample_call]"
  obtain r l' where a: "Append sample_host JoinNoFault (Some ''e1'') 5 NewJoinLog sample_join = (r, l')" by fastforce
  then have l': "?l = l'" by (simp add: join_run_def sample_call_def)
  have ok: "rows_ok (jl_rows ?l)" using join_run_rows [OF rows_ok_Nil] by blast
  show n: "length (Events ?l) = 1" using sample_appended by (simp add: Events_ok [OF ok])
  from a show "Replay (\<lambda>_. ProjOk) NewProjector ?l = (None, sample_projector)"
  proof (cases rule: Append_cases)
    case refused
    then show ?thesis using sample_appended l' by (simp add: NewJoinLog_def)
  next
    case (stored x f)
    have "jl_rows l' = [stored_row f]" using stored(5) by (simp add: NewJoinLog_def)
    then have ev: "Events ?l = [row_event (stored_row f)]" using Events_ok [OF ok] by (simp add: l')
    have t: "je_Type (row_event (stored_row f)) = ''node.joined''" "je_Payload (row_event (stored_row f)) = Some ''{}''"
      using stored(2)
      by (simp_all add: row_event_def stored_row_def published_event_def stamped_def Let_def sample_join_def)
    show ?thesis
      using sample_decodes [OF t]
      by (simp add: Replay_def ev ProjectEvent_def Let_def sample_projector_def NewProjector_def map_put_def)
  qed
qed

lemma sample_snapshot:
  "\<exists>snap. CreateSnapshot sample_host SnapOk sample_projector (join_run sample_host NewJoinLog ops) = Inr snap \<and>
     ss_State snap = ProjectorSnapshot sample_projector"
proof -
  let ?s = "ProjectorSnapshot sample_projector"
  have w: "state_maps_ok ?s"
    by (simp add: state_maps_ok_def ProjectorSnapshot_def sample_projector_def NewProjector_def non_nil_def wf_map_def)
  have "encodable bits_format (state_json sample_host (normalizeState (Some ?s)))"
    by (simp add: state_json_def normalizeState_def ProjectorSnapshot_def sample_projector_def NewProjector_def non_nil_def
        jmap_def jslice_def node_json_def json_field_defs byte_def)
  then obtain x where "ComputeStateDigest sample_host (Some ?s) = Some x"
    using hash_json_total [OF _ state_json_distinct [OF w]] bits_format_ok unfolding ComputeStateDigest_def
    by (metis sample_host_simps(1))
  then show ?thesis by (auto simp: CreateSnapshot_def Let_def split: prod.splits)
qed


theorem snapshot_digest_binds_witness:
  "\<exists>snap. CatchUp sample_host (FetchBody snap) = Inr snap \<and> state_maps_ok (ss_State snap) \<and>
     (same_state sample_host (ss_State snap) (ss_State snap) \<or> sha_collision (gh_sha sample_host))"
proof -
  obtain snap where s: "CreateSnapshot sample_host SnapOk sample_projector (join_run sample_host NewJoinLog []) = Inr snap"
    "ss_State snap = ProjectorSnapshot sample_projector" using sample_snapshot by blast
  have w: "state_maps_ok (ss_State snap)"
    by (simp add: s(2) state_maps_ok_def ProjectorSnapshot_def sample_projector_def NewProjector_def non_nil_def wf_map_def)
  have c: "CatchUp sample_host (FetchBody snap) = Inr snap"
    using VerifySnapshot_created [OF sample_digests s(1)] by (simp add: CatchUp_def)
  from snapshot_digest_binds [OF sample_digests w w c c refl] w c show ?thesis by blast
qed

end
