(* ===== verification/Join_Territory.thy ===== *)
theory Join_Territory
  imports Territory Git_Safe Join_Project
begin

text \<open>
  Opportunistic verification of a territory (\<open>pkg/joinlog/territory.go\<close>): matching of declared surfaces against
  observed files, the guard for revision names, and the inspection of a worktree through git. The git process is the
  argument \<open>git\<close>, from its arguments and environment to its output; \<open>cfg\<close> is what \<open>git config\<close> prints in the worktree.
\<close>

section \<open>Surfaces\<close>

definition normalizeSurfacePath :: "string \<Rightarrow> string" where
  "normalizeSurfacePath p0 =
     (let p1 = TrimSpace p0 in
      if p1 = [] then []
      else let p2 = path_clean (TrimPrefix p1 ''./'') in
        if p2 = ''.'' then [] else TrimPrefix p2 ''/'')"

fun matchSurfaceSegments :: "string list \<Rightarrow> string list \<Rightarrow> bool" where
  "matchSurfaceSegments [] segs = (segs = [])"
| "matchSurfaceSegments (p # ps) segs =
     (if p = ''**'' then list_ex (\<lambda>i. matchSurfaceSegments ps (drop i segs)) [0..<Suc (length segs)]
      else case segs of
             [] \<Rightarrow> False
           | s # rest \<Rightarrow> path_match p s \<and> matchSurfaceSegments ps rest)"

definition MatchSurface :: "string \<Rightarrow> string \<Rightarrow> bool" where
  "MatchSurface surface observed =
     (let s = normalizeSurfacePath surface; p = normalizeSurfacePath observed in
      if s = [] \<or> p = [] then False
      else if s = p then True
      else if \<not> ContainsAny s ''*?['' then HasPrefix p (s @ ''/'')
      else matchSurfaceSegments (split_on slash s) (split_on slash p))"

definition matchesAnySurface :: "string list \<Rightarrow> string \<Rightarrow> bool" where
  "matchesAnySurface surfaces file = list_ex (\<lambda>surface. MatchSurface surface file) surfaces"

text \<open>A copy \<open>append([]string(nil), xs...)\<close> of an empty slice is nil.\<close>

definition slice_copy :: "string list \<Rightarrow> string list option" where
  "slice_copy xs = (if xs = [] then None else Some xs)"

definition VerifyTerritory ::
  "string \<Rightarrow> string \<Rightarrow> string \<Rightarrow> string list \<Rightarrow> string list \<Rightarrow> TerritoryVerifiedPayload" where
  "VerifyTerritory taskID repo branch declaredSurfaces observedFiles =
     (let discrepancies = sort (filter (\<lambda>file. \<not> matchesAnySurface declaredSurfaces file) observedFiles) in
      \<lparr>tv_TaskID = taskID, tv_GitRepo = repo, tv_GitBranch = branch,
       tv_DeclaredSurfaces = slice_copy declaredSurfaces, tv_ObservedFiles = slice_copy observedFiles,
       tv_Discrepancies = Some discrepancies,
       tv_Status = (if discrepancies \<noteq> [] then ''DISCREPANCY'' else ''CLEAN'')\<rparr>)"

section \<open>Revisions and the worktree\<close>

datatype revision_error = RevisionEmpty | RevisionOption | RevisionDot | RevisionRange | RevisionChar char

definition revision_char :: "char \<Rightarrow> bool" where
  "revision_char r \<longleftrightarrow>
     CHR ''a'' \<le> r \<and> r \<le> CHR ''z'' \<or> CHR ''A'' \<le> r \<and> r \<le> CHR ''Z'' \<or> CHR ''0'' \<le> r \<and> r \<le> CHR ''9'' \<or>
     r = CHR ''.'' \<or> r = CHR ''_'' \<or> r = CHR ''/'' \<or> r = CHR ''-''"

definition ValidateRevisionName :: "string \<Rightarrow> revision_error option" where
  "ValidateRevisionName revn =
     (if revn = [] then Some RevisionEmpty
      else if HasPrefix revn ''-'' then Some RevisionOption
      else if HasPrefix revn ''.'' then Some RevisionDot
      else if Contains revn ''..'' then Some RevisionRange
      else map_option RevisionChar (find (\<lambda>r. \<not> revision_char r) revn))"

datatype git_run = GitPrinted string | GitRunFailed

datatype inspect_error = BadRevision revision_error | GitBuildFailed git_plan_error | ResolveFailed | CommitMalformed | DiffFailed

definition resolveCommitSHA ::
  "git_output \<Rightarrow> string list \<Rightarrow> (string list \<times> string list \<Rightarrow> git_run) \<Rightarrow> string \<Rightarrow> string \<Rightarrow> inspect_error + string" where
  "resolveCommitSHA cfg environ git dir revn =
     (case ValidateRevisionName revn of
        Some x \<Rightarrow> Inl (BadRevision x)
      | None \<Rightarrow>
          (case Command cfg environ dir [''rev-parse'', ''--verify'', revn @ ''^{commit}''] of
             Inl x \<Rightarrow> Inl (GitBuildFailed x)
           | Inr cmd \<Rightarrow>
               (case git cmd of
                  GitRunFailed \<Rightarrow> Inl ResolveFailed
                | GitPrinted out \<Rightarrow>
                    if length (TrimSpace out) \<noteq> 40 then Inl CommitMalformed else Inr (TrimSpace out))))"

definition diff_lines :: "string \<Rightarrow> string list" where
  "diff_lines out = filter (\<lambda>line. line \<noteq> []) (map TrimSpace (split_on (CHR 0x0A) out))"

definition InspectWorktreeAndVerify ::
  "git_output \<Rightarrow> string list \<Rightarrow> (string list \<times> string list \<Rightarrow> git_run) \<Rightarrow>
   string \<Rightarrow> string \<Rightarrow> string \<Rightarrow> string \<Rightarrow> string \<Rightarrow> string list \<Rightarrow> inspect_error + TerritoryVerifiedPayload" where
  "InspectWorktreeAndVerify cfg environ git worktreeDir baseRef taskID repo branch declaredSurfaces =
     (case resolveCommitSHA cfg environ git worktreeDir baseRef of
        Inl x \<Rightarrow> Inl x
      | Inr baseSHA \<Rightarrow>
          (case Command cfg environ worktreeDir
                  [''diff'', ''--no-ext-diff'', ''--no-textconv'', ''--name-only'', baseSHA @ ''..HEAD''] of
             Inl x \<Rightarrow> Inl (GitBuildFailed x)
           | Inr cmd \<Rightarrow>
               (case git cmd of
                  GitRunFailed \<Rightarrow> Inl DiffFailed
                | GitPrinted out \<Rightarrow> Inr (VerifyTerritory taskID repo branch declaredSurfaces (sort (diff_lines out))))))"

section \<open>What a surface covers\<close>

inductive glob_match :: "string list \<Rightarrow> string list \<Rightarrow> bool" where
  glob_Nil: "glob_match [] []"
| glob_segment: "p \<noteq> ''**'' \<Longrightarrow> path_match p s \<Longrightarrow> glob_match ps ss \<Longrightarrow> glob_match (p # ps) (s # ss)"
| glob_deep: "glob_match ps ss \<Longrightarrow> glob_match (''**'' # ps) (skipped @ ss)"

inductive_cases glob_NilE: "glob_match [] ss"
inductive_cases glob_ConsE: "glob_match (p # ps) ss"

lemma matchSurfaceSegments_iff: "matchSurfaceSegments ps ss \<longleftrightarrow> glob_match ps ss"
proof
  show "matchSurfaceSegments ps ss \<Longrightarrow> glob_match ps ss"
  proof (induction ps arbitrary: ss)
    case (Cons p ps)
    show ?case
    proof (cases "p = ''**''")
      case True
      then obtain i where "matchSurfaceSegments ps (drop i ss)" using Cons.prems by (auto simp: list_ex_iff simp del: upt_Suc)
      then have "glob_match ps (drop i ss)" by (rule Cons.IH)
      then have "glob_match (''**'' # ps) (take i ss @ drop i ss)" by (rule glob_deep)
      then show ?thesis using True by simp
    next
      case False
      then show ?thesis using Cons by (auto intro: glob_segment split: list.splits)
    qed
  qed (simp add: glob_Nil)
  show "glob_match ps ss \<Longrightarrow> matchSurfaceSegments ps ss"
  proof (induction rule: glob_match.induct)
    case (glob_deep ps ss skipped)
    then have "matchSurfaceSegments ps (drop (length skipped) (skipped @ ss))" by simp
    moreover have "length skipped \<in> set [0..<Suc (length (skipped @ ss))]" by simp
    ultimately have "list_ex (\<lambda>i. matchSurfaceSegments ps (drop i (skipped @ ss))) [0..<Suc (length (skipped @ ss))]"
      unfolding list_ex_iff by blast
    then show ?case by (simp del: upt_Suc)
  qed simp_all
qed

definition covers :: "string \<Rightarrow> string \<Rightarrow> bool" where
  "covers surface file \<longleftrightarrow>
     (let s = normalizeSurfacePath surface; p = normalizeSurfacePath file in
      s \<noteq> [] \<and> p \<noteq> [] \<and>
      (s = p \<or> \<not> ContainsAny s ''*?['' \<and> strict_prefix (split_on slash s) (split_on slash p) \<or>
       ContainsAny s ''*?['' \<and> glob_match (split_on slash s) (split_on slash p)))"

lemma MatchSurface_iff: "MatchSurface surface file \<longleftrightarrow> covers surface file"
  by (auto simp: MatchSurface_def covers_def Let_def HasPrefix_slash_iff matchSurfaceSegments_iff)

lemma ValidateRevisionName_ok:
  "ValidateRevisionName revn = None \<longleftrightarrow>
     revn \<noteq> [] \<and> hd revn \<notin> {CHR ''-'', CHR ''.''} \<and> \<not> Contains revn ''..'' \<and> list_all revision_char revn"
  by (cases revn) (auto simp: ValidateRevisionName_def HasPrefix_def find_None_iff list_all_iff)

text \<open>The verdict on a territory is exact: whatever revision is named and whatever git prints, an inspection that
  returns a payload lists, sorted, exactly the changed files that no declared surface covers, and its status is CLEAN
  exactly when there are none; the revision that reached the command line of git is a plain name, not an option.\<close>

theorem inspection_exact:
  assumes "InspectWorktreeAndVerify cfg environ git dir revn task repo branch surfaces = Inr v"
  shows "\<exists>sha cmd out. resolveCommitSHA cfg environ git dir revn = Inr sha \<and> git cmd = GitPrinted out \<and>
           suffix [sha @ ''..HEAD''] (fst cmd) \<and>
           tv_Discrepancies v = Some (sort (filter (\<lambda>f. \<not> list_ex (\<lambda>s. covers s f) surfaces) (diff_lines out))) \<and>
           tv_Status v = (if list_all (\<lambda>f. list_ex (\<lambda>s. covers s f) surfaces) (diff_lines out) then ''CLEAN'' else ''DISCREPANCY'') \<and>
           hd revn \<noteq> CHR ''-'' \<and> list_all revision_char revn"
proof -
  obtain sha where sha: "resolveCommitSHA cfg environ git dir revn = Inr sha"
    using assms by (auto simp: InspectWorktreeAndVerify_def split: sum.splits)
  obtain argv env where cmd: "Command cfg environ dir
      [''diff'', ''--no-ext-diff'', ''--no-textconv'', ''--name-only'', sha @ ''..HEAD''] = Inr (argv, env)"
    using assms sha by (auto simp: InspectWorktreeAndVerify_def split: sum.splits)
  obtain out where out: "git (argv, env) = GitPrinted out"
    "v = VerifyTerritory task repo branch surfaces (sort (diff_lines out))"
    using assms sha cmd by (auto simp: InspectWorktreeAndVerify_def split: git_run.splits)
  have "suffix [sha @ ''..HEAD''] argv"
    using cmd by (auto simp: Command_def Plan_def suffix_def split: option.splits sum.splits)
  moreover have "ValidateRevisionName revn = None"
    using sha by (auto simp: resolveCommitSHA_def split: option.splits)
  moreover have "sort (filter P (sort xs)) = sort (filter P xs)" for P and xs :: "string list"
    by (rule properties_for_sort) (simp_all add: mset_filter)
  moreover have "sort ys = [] \<longleftrightarrow> ys = []" for ys :: "string list" by (metis set_empty set_sort)
  ultimately show ?thesis
    using sha out
    by - (rule exI [of _ sha], rule exI [of _ "(argv, env)"], rule exI [of _ out],
        simp add: ValidateRevisionName_ok VerifyTerritory_def Let_def matchesAnySurface_def MatchSurface_iff
          list_all_iff filter_empty_conv)
qed

theorem inspection_exact_witness:
  "\<exists>v. InspectWorktreeAndVerify (GitOk []) [] (\<lambda>_. GitPrinted (replicate 40 (CHR ''a''))) ''w'' ''main'' ''t'' ''r'' ''b'' [] = Inr v \<and>
     tv_Status v = ''DISCREPANCY''"
proof -
  obtain v where v: "InspectWorktreeAndVerify (GitOk []) [] (\<lambda>_. GitPrinted (replicate 40 (CHR ''a''))) ''w'' ''main'' ''t'' ''r'' ''b'' [] = Inr v"
    "tv_Status v = ''DISCREPANCY''"
  proof -
    have "case InspectWorktreeAndVerify (GitOk []) [] (\<lambda>_. GitPrinted (replicate 40 (CHR ''a''))) ''w'' ''main'' ''t'' ''r'' ''b'' [] of
        Inl _ \<Rightarrow> False | Inr v \<Rightarrow> tv_Status v = ''DISCREPANCY''" by code_simp
    then show ?thesis using that by (auto split: sum.splits)
  qed
  from inspection_exact [OF v(1)] v show ?thesis by blast
qed

end
