(* ===== verification/Agent.thy ===== *)
theory Agent
  imports Settlement_Safety
begin

text \<open>
  The agent (\<open>integration/agent/server.go\<close>): a server that leases contracts to emitters, settles them, records
  their decisions on receipts, and times out expired leases.

  A request is given by its method, its client certificates and its decoded body; decoding failures are values of
  \<open>body\<close>. What a precondition check finds on the machine is the record \<open>check_host\<close>. The key resolver is the
  in-memory one. The mutex of the leases makes each access one step; the reaper reads and confirms in two steps.
\<close>

section \<open>Server and requests\<close>

record AgentConfig =
  ag_AgentID :: string
  ag_MeshID :: string
  ag_WorkspaceDir :: string
  ag_MaxRemed :: int
  ag_EnvAllow :: "string list"
  ag_ClientCAFile :: string
  ag_GrantedCapabilities :: "string list"

record AgentServer =
  sv_config :: AgentConfig
  sv_engine :: Engine
  sv_signer :: BasicSigner
  sv_keys :: "string gomap"
  sv_leases :: "Lease gomap"
  sv_leaseEnvelopes :: "CognitiveTaskEnvelope gomap"
  sv_chain :: receipt_table

datatype agent_config_error = AgentIDRequired | MeshIDRequired | ChainDBFailed | EngineFailed engine_error

definition RegisterAgentKey :: "AgentServer \<Rightarrow> string \<Rightarrow> string \<Rightarrow> AgentServer" where
  "RegisterAgentKey s agentID pubKey = s\<lparr>sv_keys := map_put (sv_keys s) agentID pubKey\<rparr>"

text \<open>\<open>NewServer\<close> over the receipts table \<open>t\<close> of its database (\<open>None\<close> when it cannot be opened) with a generated signer.\<close>

definition NewServer ::
  "go_host \<Rightarrow> string list \<Rightarrow> AgentConfig \<Rightarrow> BasicSigner \<Rightarrow> receipt_table option \<Rightarrow> agent_config_error + AgentServer" where
  "NewServer h environ cfg signer t =
     (if ag_AgentID cfg = [] then Inl AgentIDRequired
      else if ag_MeshID cfg = [] then Inl MeshIDRequired
      else
        let cfg1 = (if ag_MaxRemed cfg = 0 then cfg\<lparr>ag_MaxRemed := 1\<rparr> else cfg);
            cfg2 = (if ag_WorkspaceDir cfg1 = [] then cfg1\<lparr>ag_WorkspaceDir := ''/srv/workspace''\<rparr> else cfg1) in
        case t of
          None \<Rightarrow> Inl ChainDBFailed
        | Some table \<Rightarrow>
            (case NewEngine (WithEnvAllow environ (NewEvaluator environ (ag_WorkspaceDir cfg2)) (ag_EnvAllow cfg2))
                    (Some signer) (ag_MaxRemed cfg2) of
               Inl e \<Rightarrow> Inl (EngineFailed e)
             | Inr engine \<Rightarrow>
                 Inr (RegisterAgentKey
                        \<lparr>sv_config = cfg2, sv_engine = engine, sv_signer = signer, sv_keys = [], sv_leases = [],
                         sv_leaseEnvelopes = [], sv_chain = table\<rparr>
                        (bs_agentID signer) (PublicKey (gh_ed h) signer))))"

record tls_peer =
  tp_CommonName :: string
  tp_DNSNames :: "string list"

record http_req =
  hr_post :: bool
  hr_tls :: "tls_peer list option"

datatype 'a body = BadBody | NoPayload | BadPayload | Payload 'a

datatype auth_error = EnvelopeUnsigned | EmitterKeyUnknown | EnvelopeSignature envelope_error

datatype timeout_error = TimeoutLookup | TimeoutHash envelope_error | TimeoutAppend append_error | TimeoutWinner

datatype agent_error =
  PostOnly | DecodeFailed | PayloadRequired | ParseFailed | InvalidContract validation_error | MeshMismatch
  | IdentityMismatch | Unauthorized auth_error | CapabilityDenied string | LeaseSigning envelope_error
  | LeaseNotAccepted string | TimeoutFailed timeout_error | SettlementFailed settle_error
  | SignedAtRequired | EmitterSignatureRequired | ReasonRequired | ReceiptMissing | StoreFailed
  | ExecutorSignatureInvalid sign_receipt_error | EmitterSignatureInvalid "sign_receipt_error option"
  | AlreadyAccepted | AlreadyDisputed | UpdateFailed chain_error | PairRequired | KeyInvalid | ChainMissing | ReceiptIDRequired

fun error_status :: "agent_error \<Rightarrow> nat" where
  "error_status PostOnly = 405"
| "error_status IdentityMismatch = 403"
| "error_status (CapabilityDenied _) = 403"
| "error_status (Unauthorized _) = 401"
| "error_status (ExecutorSignatureInvalid _) = 401"
| "error_status (EmitterSignatureInvalid _) = 401"
| "error_status (LeaseNotAccepted _) = 412"
| "error_status AlreadyAccepted = 409"
| "error_status AlreadyDisputed = 409"
| "error_status ReceiptMissing = 404"
| "error_status ChainMissing = 404"
| "error_status (LeaseSigning _) = 500"
| "error_status (TimeoutFailed _) = 500"
| "error_status (SettlementFailed _) = 500"
| "error_status StoreFailed = 500"
| "error_status (UpdateFailed _) = 500"
| "error_status _ = 400"

section \<open>Admission\<close>

definition getEmitterPublicKey :: "AgentServer \<Rightarrow> string \<Rightarrow> string option" where
  "getEmitterPublicKey s agentID = map_get (sv_keys s) agentID"

definition verifyEnvelope :: "go_host \<Rightarrow> AgentServer \<Rightarrow> CognitiveTaskEnvelope \<Rightarrow> auth_error option" where
  "verifyEnvelope h s env =
     (if ev_EmitterSignature env = [] then Some EnvelopeUnsigned
      else case getEmitterPublicKey s (ev_EmitterAgentID env) of
             None \<Rightarrow> Some EmitterKeyUnknown
           | Some pubKey \<Rightarrow> map_option EnvelopeSignature (VerifyEnvelopeSignature h env pubKey))"

definition verifyMTLSIdentity :: "AgentServer \<Rightarrow> http_req \<Rightarrow> string \<Rightarrow> bool" where
  "verifyMTLSIdentity s r claimedAgentID =
     (case hr_tls r of
        None \<Rightarrow> True
      | Some [] \<Rightarrow> ag_ClientCAFile (sv_config s) = []
      | Some (cert # _) \<Rightarrow> tp_CommonName cert = claimedAgentID \<or> claimedAgentID \<in> set (tp_DNSNames cert))"

definition checkCapabilities :: "AgentServer \<Rightarrow> string list \<Rightarrow> string option" where
  "checkCapabilities s requested =
     map_option (\<lambda>req. ''REJECTED_CAPABILITY: capability '' @ quoted req @ '' not granted'')
       (find (\<lambda>req. req \<notin> set (ag_GrantedCapabilities (sv_config s))) requested)"

record check_host =
  ck_tool :: "string \<Rightarrow> bool"
  ck_run :: "string list \<Rightarrow> int"
  ck_gitConfig :: git_output
  ck_environ :: "string list"
  ck_git :: "string list \<times> string list \<Rightarrow> string option"
  ck_port :: "int \<Rightarrow> bool"
  ck_faultText :: "precondition_fault \<Rightarrow> string"
  ck_planText :: "git_plan_error \<Rightarrow> string"

definition bool_text :: "bool \<Rightarrow> string" where
  "bool_text b = (if b then ''true'' else ''false'')"

definition precondition_param_of :: "Precondition \<Rightarrow> string \<Rightarrow> string" where
  "precondition_param_of p k =
     (case pc_Params p of None \<Rightarrow> [] | Some m \<Rightarrow> (case map_get m k of None \<Rightarrow> [] | Some v \<Rightarrow> v))"

definition runCheckCommand :: "check_host \<Rightarrow> string list \<Rightarrow> int" where
  "runCheckCommand ck parts = (if parts = [] then -1 else ck_run ck parts)"

text \<open>\<open>PortParams\<close> returns the port 0 for every precondition of that type.\<close>

definition PortParams :: "Precondition \<Rightarrow> int \<times> bool" where
  "PortParams p = (0, pc_Type p = ''port_available'')"

definition check_precondition :: "AgentServer \<Rightarrow> check_host \<Rightarrow> Precondition \<Rightarrow> bool \<times> string" where
  "check_precondition s ck p =
     (if pc_Type p = ''tool_available'' then
        (let tool = precondition_param_of p ''tool''; ok = ck_tool ck tool in
         if tool \<noteq> [] then (ok, ''tool '' @ quoted tool @ '' available='' @ bool_text ok)
         else (False, ''tool param missing''))
      else if pc_Type p = ''command_exit_code'' then
        (let cmd = precondition_param_of p ''command'' in
         if cmd = [] then (False, ''command param missing'')
         else case ValidatePreconditionCommand cmd of
                Inl x \<Rightarrow> (False, ''command '' @ quoted cmd @ '' rejected: '' @ ck_faultText ck x)
              | Inr parts \<Rightarrow>
                  let exitCode = runCheckCommand ck parts in
                  (exitCode = 0, ''command '' @ quoted cmd @ '' exit='' @ decimal exitCode))
      else if pc_Type p = ''git_clean_worktree'' then
        (case Command (ck_gitConfig ck) (ck_environ ck) (ag_WorkspaceDir (sv_config s)) [''status'', ''--porcelain''] of
           Inl x \<Rightarrow> (False, ''git status error: '' @ ck_planText ck x)
         | Inr cmd \<Rightarrow>
             let ok = (case ck_git ck cmd of None \<Rightarrow> False | Some out \<Rightarrow> TrimSpace out = []) in
             (ok, ''git worktree clean='' @ bool_text ok))
      else if pc_Type p = ''port_available'' then
        (let (pPort, ok) = PortParams p in
         if ok \<and> 0 < pPort
         then (ck_port ck pPort, ''port '' @ decimal pPort @ '' available='' @ bool_text (ck_port ck pPort))
         else (False, []))
      else (False, ''unknown precondition: '' @ pc_Type p))"

definition runPreconditions :: "AgentServer \<Rightarrow> check_host \<Rightarrow> Precondition list \<Rightarrow> PreconditionResult list" where
  "runPreconditions s ck preconds =
     map (\<lambda>(i, p). case check_precondition s ck p of (passed, msg) \<Rightarrow>
            \<lparr>pr_Index = int i, pr_Type = pc_Type p, pr_Passed = passed, pr_Message = msg\<rparr>)
       (zip [0..<length preconds] preconds)"

definition preconditions_of :: "CognitiveTaskEnvelope \<Rightarrow> Precondition list" where
  "preconditions_of env = (case ev_Preconditions env of None \<Rightarrow> [] | Some ps \<Rightarrow> ps)"

text \<open>The checks that \<open>/envelopes\<close>, \<open>/leases\<close> and \<open>/settle\<close> start with.\<close>

definition admit :: "go_host \<Rightarrow> AgentServer \<Rightarrow> http_req \<Rightarrow> CognitiveTaskEnvelope body \<Rightarrow> agent_error + CognitiveTaskEnvelope" where
  "admit h s r b =
     (if \<not> hr_post r then Inl PostOnly
      else case b of
             BadBody \<Rightarrow> Inl DecodeFailed
           | NoPayload \<Rightarrow> Inl PayloadRequired
           | BadPayload \<Rightarrow> Inl ParseFailed
           | Payload env \<Rightarrow>
               if Validate h env \<noteq> None then Inl (InvalidContract (the (Validate h env)))
               else if ev_MeshID env \<noteq> ag_MeshID (sv_config s) then Inl MeshMismatch
               else if \<not> verifyMTLSIdentity s r (ev_EmitterAgentID env) then Inl IdentityMismatch
               else (case verifyEnvelope h s env of Some x \<Rightarrow> Inl (Unauthorized x) | None \<Rightarrow> Inr env))"

section \<open>Leases\<close>

text \<open>\<open>time.Duration(secs) * time.Second\<close> in 64 bits.\<close>

definition wrap64 :: "int \<Rightarrow> int" where
  "wrap64 i = (i + 2 ^ 63) mod 2 ^ 64 - 2 ^ 63"

definition lease_for :: "AgentServer \<Rightarrow> check_host \<Rightarrow> int \<Rightarrow> int \<Rightarrow> CognitiveTaskEnvelope \<Rightarrow> Lease" where
  "lease_for s ck now1 now2 env =
     (let cap = checkCapabilities s (ev_Capabilities env);
          results = runPreconditions s ck (preconditions_of env);
          allPassed = (cap = None \<and> list_all pr_Passed results) in
      \<lparr>le_ProtocolVersion = CurrentProtocolVersion, le_MeshID = ag_MeshID (sv_config s),
       le_LeaseID = ''lease-'' @ decimal now1, le_EnvelopeID = ev_EnvelopeID env,
       le_ExecutorAgentID = ag_AgentID (sv_config s), le_Accepted = allPassed, le_PreconditionResults = results,
       le_RejectionReason = (case cap of Some reason \<Rightarrow> reason | None \<Rightarrow> if allPassed then [] else ''preconditions not met''),
       le_ExpiresAt = now2 + wrap64 (nanos (ev_TimeoutSeconds env)), le_ExecutorSignature = []\<rparr>)"

definition handleCreateLease ::
  "go_host \<Rightarrow> check_host \<Rightarrow> int \<Rightarrow> int \<Rightarrow> AgentServer \<Rightarrow> http_req \<Rightarrow> CognitiveTaskEnvelope body \<Rightarrow>
   (agent_error + Lease) \<times> AgentServer" where
  "handleCreateLease h ck now1 now2 s r b =
     (case admit h s r (case b of NoPayload \<Rightarrow> BadPayload | _ \<Rightarrow> b) of
        Inl x \<Rightarrow> (Inl x, s)
      | Inr env \<Rightarrow>
          (case SignLease h (lease_for s ck now1 now2 env) (sv_signer s) of
             (Some x, _) \<Rightarrow> (Inl (LeaseSigning x), s)
           | (None, lease) \<Rightarrow>
               (Inr lease, s\<lparr>sv_leases := map_put (sv_leases s) (le_LeaseID lease) lease,
                             sv_leaseEnvelopes := map_put (sv_leaseEnvelopes s) (ev_EnvelopeID env) env\<rparr>)))"

record EnvelopeResponse =
  er_Accepted :: bool
  er_LeaseID :: string
  er_Error :: string

definition handleSubmitEnvelope ::
  "go_host \<Rightarrow> check_host \<Rightarrow> int \<Rightarrow> int \<Rightarrow> AgentServer \<Rightarrow> http_req \<Rightarrow> CognitiveTaskEnvelope body \<Rightarrow>
   (agent_error + EnvelopeResponse) \<times> AgentServer" where
  "handleSubmitEnvelope h ck now1 now2 s r b =
     (case admit h s r b of
        Inl x \<Rightarrow> (Inl x, s)
      | Inr env \<Rightarrow>
          (case SignLease h (lease_for s ck now1 now2 env) (sv_signer s) of
             (Some x, _) \<Rightarrow> (Inl (LeaseSigning x), s)
           | (None, lease) \<Rightarrow>
               (Inr \<lparr>er_Accepted = le_Accepted lease, er_LeaseID = le_LeaseID lease,
                     er_Error = (if le_Accepted lease then [] else le_RejectionReason lease)\<rparr>,
                s\<lparr>sv_leases := map_put (sv_leases s) (le_LeaseID lease) lease,
                  sv_leaseEnvelopes := map_put (sv_leaseEnvelopes s) (ev_EnvelopeID env) env\<rparr>)))"

definition handlePreflight ::
  "check_host \<Rightarrow> AgentServer \<Rightarrow> http_req \<Rightarrow> (Precondition list \<times> string list) body \<Rightarrow>
   agent_error + bool \<times> string \<times> PreconditionResult list" where
  "handlePreflight ck s r b =
     (if \<not> hr_post r then Inl PostOnly
      else case b of
             Payload (preconds, caps) \<Rightarrow>
               let cap = checkCapabilities s caps; results = runPreconditions s ck preconds;
                   failed = filter (\<lambda>res. \<not> pr_Passed res) results in
               Inr (cap = None \<and> failed = [],
                    case cap of
                      Some reason \<Rightarrow> reason
                    | None \<Rightarrow> (case filter (\<lambda>res. pr_Message res \<noteq> []) failed of [] \<Rightarrow> [] | res # _ \<Rightarrow> pr_Message res),
                    results)
           | _ \<Rightarrow> Inl DecodeFailed)"

definition GetLease :: "AgentServer \<Rightarrow> string \<Rightarrow> Lease option" where
  "GetLease s leaseID = map_get (sv_leases s) leaseID"

section \<open>Timeouts and settlement\<close>

record timeout_env =
  te_lookup_fails :: bool
  te_attempts :: "nat \<Rightarrow> attempt_env"
  te_relookup_fails :: bool

definition timeout_receipt :: "CognitiveTaskEnvelope \<Rightarrow> string \<Rightarrow> SettlementReceipt" where
  "timeout_receipt env envHash =
     \<lparr>rc_ProtocolVersion = CurrentProtocolVersion, rc_MeshID = ev_MeshID env, rc_ReceiptID = [],
      rc_ContractID = ev_EnvelopeID env, rc_EnvelopeHash = envHash, rc_EmitterAgentID = [], rc_ExecutorAgentID = [],
      rc_Territory = \<lparr>et_Repository = [], et_Branch = [], et_WorkspacePath = []\<rparr>, rc_Verdict = VerdictTimeout,
      rc_Assertions = None, rc_RemediationChain = [], rc_ExecutorSignature = [], rc_ExecutorSignedAt = 0,
      rc_PreviousReceiptHash = [], rc_SequenceNumber = 0, rc_EmitterAcceptance = NoAcceptance,
      rc_EmitterAcceptanceAt = None, rc_DisputeReason = [], rc_EmitterSignature = []\<rparr>"

definition emitSettlementTimeout ::
  "go_host \<Rightarrow> AgentServer \<Rightarrow> timeout_env \<Rightarrow> CognitiveTaskEnvelope option \<Rightarrow>
   (timeout_error + SettlementReceipt option) \<times> AgentServer" where
  "emitSettlementTimeout h s te env0 =
     (case env0 of
        None \<Rightarrow> (Inr None, s)
      | Some env \<Rightarrow>
          if te_lookup_fails te then (Inl TimeoutLookup, s)
          else (case GetReceiptByContractID (sv_chain s) (ev_EnvelopeID env) of
                  Inr existing \<Rightarrow> (Inr (Some existing), s)
                | Inl _ \<Rightarrow>
                    (case (if ev_EnvelopeHash env = [] then ComputeEnvelopeHash h env else Inr (ev_EnvelopeHash env)) of
                       Inl x \<Rightarrow> (Inl (TimeoutHash x), s)
                     | Inr envHash \<Rightarrow>
                         let cfg = \<lparr>ac_EmitterAgentID = ev_EmitterAgentID env, ac_ExecutorAgentID = ag_AgentID (sv_config s),
                                    ac_Signer = Some (sv_signer s), ac_MaxAttempts = 0\<rparr>;
                             attempts = (\<lambda>i. (te_attempts te i)\<lparr>at_build := Some (timeout_receipt env envHash)\<rparr>) in
                         (case SignAndSaveReceipt h cfg attempts (sv_chain s) of
                            (Inr rec, t) \<Rightarrow> (Inr (Some rec), s\<lparr>sv_chain := t\<rparr>)
                          | (Inl err, t) \<Rightarrow>
                              if err = AppendChain ErrDuplicateContract
                              then (if te_relookup_fails te then (Inl TimeoutWinner, s\<lparr>sv_chain := t\<rparr>)
                                    else case GetReceiptByContractID t (ev_EnvelopeID env) of
                                           Inr winner \<Rightarrow> (Inr (Some winner), s\<lparr>sv_chain := t\<rparr>)
                                         | Inl _ \<Rightarrow> (Inl TimeoutWinner, s\<lparr>sv_chain := t\<rparr>))
                              else (Inl (TimeoutAppend err), s\<lparr>sv_chain := t\<rparr>)))))"

definition lease_expired :: "AgentServer \<Rightarrow> string \<Rightarrow> CognitiveTaskEnvelope \<Rightarrow> int \<Rightarrow> bool" where
  "lease_expired s leaseID env now =
     (case GetLease s leaseID of
        None \<Rightarrow> False
      | Some l \<Rightarrow> le_EnvelopeID l = ev_EnvelopeID env \<and> le_ExpiresAt l \<le> now)"

definition handleSettle ::
  "go_host \<Rightarrow> settle_env \<Rightarrow> timeout_env \<Rightarrow> int \<Rightarrow> AgentServer \<Rightarrow> http_req \<Rightarrow> CognitiveTaskEnvelope body \<Rightarrow> string \<Rightarrow>
   (agent_error + SettlementReceipt) \<times> AgentServer" where
  "handleSettle h se te now s r b leaseID =
     (case admit h s r b of
        Inl x \<Rightarrow> (Inl x, s)
      | Inr env \<Rightarrow>
          (case checkCapabilities s (ev_Capabilities env) of
             Some reason \<Rightarrow> (Inl (CapabilityDenied reason), s)
           | None \<Rightarrow>
               let lease = (if leaseID = [] then None else GetLease s leaseID) in
               if lease \<noteq> None \<and> \<not> le_Accepted (the lease)
               then (Inl (LeaseNotAccepted (le_RejectionReason (the lease))), s)
               else if lease \<noteq> None \<and> lease_expired s leaseID env now
               then (case emitSettlementTimeout h s te (Some env) of
                       (Inr (Some rec), s') \<Rightarrow> (Inr rec, s')
                     | (Inr None, s') \<Rightarrow> (Inl StoreFailed, s')
                     | (Inl x, s') \<Rightarrow> (Inl (TimeoutFailed x), s'))
               else
                 (case Settle h (sv_engine s) se
                         \<lparr>si_Envelope = env, si_EmitterAgentID = ev_EmitterAgentID env,
                          si_ExecutorAgentID = ag_AgentID (sv_config s)\<rparr> (sv_chain s, 0) of
                    (Inl x, t, _) \<Rightarrow> (Inl (SettlementFailed x), s\<lparr>sv_chain := t\<rparr>)
                  | (Inr (rec, _), t, _) \<Rightarrow> (Inr rec, s\<lparr>sv_chain := t\<rparr>))))"

section \<open>The lease reaper\<close>

record expiredLease =
  xl_leaseID :: string
  xl_envelopeID :: string
  xl_expiresAt :: int
  xl_envelope :: "CognitiveTaskEnvelope option"

definition snapshotExpiredLeases :: "AgentServer \<Rightarrow> int \<Rightarrow> expiredLease list" where
  "snapshotExpiredLeases s now =
     map (\<lambda>(_, l). \<lparr>xl_leaseID = le_LeaseID l, xl_envelopeID = le_EnvelopeID l, xl_expiresAt = le_ExpiresAt l,
                    xl_envelope = map_get (sv_leaseEnvelopes s) (le_EnvelopeID l)\<rparr>)
       (filter (\<lambda>(_, l). le_ExpiresAt l \<le> now) (sv_leases s))"

fun confirm_leases ::
  "expiredLease list \<Rightarrow> AgentServer \<Rightarrow> AgentServer \<times> CognitiveTaskEnvelope option list" where
  "confirm_leases [] s = (s, [])"
| "confirm_leases (sn # snaps) s =
     (case map_get (sv_leases s) (xl_leaseID sn) of
        None \<Rightarrow> confirm_leases snaps s
      | Some l \<Rightarrow>
          if le_ExpiresAt l \<noteq> xl_expiresAt sn then confirm_leases snaps s
          else
            let s1 = s\<lparr>sv_leases := map_del (sv_leases s) (xl_leaseID sn)\<rparr>;
                s2 = (if xl_envelopeID sn \<noteq> [] then s1\<lparr>sv_leaseEnvelopes := map_del (sv_leaseEnvelopes s1) (xl_envelopeID sn)\<rparr>
                      else s1) in
            (case confirm_leases snaps s2 of (s', toEmit) \<Rightarrow> (s', xl_envelope sn # toEmit)))"

fun emit_timeouts ::
  "go_host \<Rightarrow> timeout_env list \<Rightarrow> CognitiveTaskEnvelope option list \<Rightarrow> AgentServer \<Rightarrow> nat \<times> AgentServer" where
  "emit_timeouts h (te # tes) (env # envs) s =
     (case emitSettlementTimeout h s te env of
        (Inr (Some rec), s') \<Rightarrow>
          (case emit_timeouts h tes envs s' of
             (n, s'') \<Rightarrow> (if rc_Verdict rec = VerdictTimeout then Suc n else n, s''))
      | (_, s') \<Rightarrow> emit_timeouts h tes envs s')"
| "emit_timeouts h _ _ s = (0, s)"

definition confirmAndEmit ::
  "go_host \<Rightarrow> (nat \<Rightarrow> timeout_env) \<Rightarrow> expiredLease list \<Rightarrow> AgentServer \<Rightarrow> (nat \<times> nat) \<times> AgentServer" where
  "confirmAndEmit h tes snaps s =
     (case confirm_leases snaps s of
        (s1, toEmit) \<Rightarrow>
          (case emit_timeouts h (map tes [0..<length toEmit]) toEmit s1 of
             (emitted, s2) \<Rightarrow> ((length toEmit, emitted), s2)))"

definition purgeExpiredLeases :: "go_host \<Rightarrow> (nat \<Rightarrow> timeout_env) \<Rightarrow> int \<Rightarrow> AgentServer \<Rightarrow> nat \<times> AgentServer" where
  "purgeExpiredLeases h tes now s =
     (case confirmAndEmit h tes (snapshotExpiredLeases s now) s of ((confirmed, _), s') \<Rightarrow> (confirmed, s'))"

end
