(* ===== verification/Agent_Decisions.thy ===== *)
theory Agent_Decisions
  imports Agent
begin

text \<open>
  The receipt endpoints of the agent (\<open>integration/agent/server.go\<close>): the emitter accepts or disputes a settled receipt,
  and anyone reads receipts and chains or asks for them to be verified. The table is read and written in two steps;
  \<open>dr_between\<close> is what other requests do to it in the meantime.
\<close>

section \<open>Decisions of the emitter\<close>

record decision_req =
  dq_receipt :: "SettlementReceipt body"
  dq_SignedAt :: string
  dq_Signature :: string
  dq_Reason :: string

record decision_env =
  dr_read_fails :: bool
  dr_between :: "receipt_table \<Rightarrow> receipt_table"
  dr_now :: int
  dr_io :: db_fault

definition verifyEmitterReceiptSignature ::
  "go_host \<Rightarrow> AgentServer \<Rightarrow> SettlementReceipt \<Rightarrow> string \<Rightarrow> Acceptance \<Rightarrow> string \<Rightarrow> agent_error option" where
  "verifyEmitterReceiptSignature h s stored emitterSig acceptance disputeReason =
     (case getEmitterPublicKey s (rc_EmitterAgentID stored) of
        None \<Rightarrow> Some (EmitterSignatureInvalid None)
      | Some emitterPubKey \<Rightarrow>
          map_option (\<lambda>x. EmitterSignatureInvalid (Some x))
            (VerifyEmitterSignature h
               (stored\<lparr>rc_EmitterAcceptance := acceptance, rc_DisputeReason := disputeReason, rc_EmitterSignature := emitterSig\<rparr>)
               emitterPubKey))"

definition decision_payload :: "bool \<Rightarrow> decision_req \<Rightarrow> agent_error + SettlementReceipt" where
  "decision_payload reasonRequired q =
     (case dq_receipt q of
        BadBody \<Rightarrow> Inl DecodeFailed
      | NoPayload \<Rightarrow> Inl PayloadRequired
      | b \<Rightarrow>
          if dq_SignedAt q = [] then Inl SignedAtRequired
          else if dq_Signature q = [] then Inl EmitterSignatureRequired
          else if reasonRequired \<and> dq_Reason q = [] then Inl ReasonRequired
          else case b of Payload rec \<Rightarrow> Inr rec | _ \<Rightarrow> Inl ParseFailed)"

definition stored_receipt ::
  "AgentServer \<Rightarrow> decision_env \<Rightarrow> http_req \<Rightarrow> SettlementReceipt \<Rightarrow> agent_error + SettlementReceipt" where
  "stored_receipt s d r rec =
     (if rc_MeshID rec \<noteq> ag_MeshID (sv_config s) then Inl MeshMismatch
      else if dr_read_fails d then Inl StoreFailed
      else case GetReceipt (sv_chain s) (rc_ReceiptID rec) of
             Inl _ \<Rightarrow> Inl ReceiptMissing
           | Inr stored \<Rightarrow>
               if rc_MeshID stored \<noteq> ag_MeshID (sv_config s) then Inl MeshMismatch
               else if \<not> verifyMTLSIdentity s r (rc_EmitterAgentID stored) then Inl IdentityMismatch
               else Inr stored)"

text \<open>The signature checks and the update that both endpoints end with.\<close>

definition record_decision ::
  "go_host \<Rightarrow> AgentServer \<Rightarrow> decision_env \<Rightarrow> SettlementReceipt \<Rightarrow> string \<Rightarrow> Acceptance \<Rightarrow> string \<Rightarrow>
   (agent_error + SettlementReceipt) \<times> AgentServer" where
  "record_decision h s d stored emitterSig acceptance reason =
     (case VerifyExecutorSignature h stored (PublicKey (gh_ed h) (sv_signer s)) of
        Some x \<Rightarrow> (Inl (ExecutorSignatureInvalid x), s)
      | None \<Rightarrow>
          (case verifyEmitterReceiptSignature h s stored emitterSig acceptance reason of
             Some x \<Rightarrow> (Inl x, s)
           | None \<Rightarrow>
               let updated = stored\<lparr>rc_EmitterAcceptance := acceptance, rc_DisputeReason := reason,
                                    rc_EmitterAcceptanceAt := Some (dr_now d), rc_EmitterSignature := emitterSig\<rparr> in
               (case UpdateReceipt (dr_io d) (dr_between d (sv_chain s)) updated of
                  (Some x, t) \<Rightarrow> (Inl (UpdateFailed x), s\<lparr>sv_chain := t\<rparr>)
                | (None, t) \<Rightarrow> (Inr updated, s\<lparr>sv_chain := t\<rparr>))))"

definition handleAccept ::
  "go_host \<Rightarrow> decision_env \<Rightarrow> AgentServer \<Rightarrow> http_req \<Rightarrow> decision_req \<Rightarrow> (agent_error + SettlementReceipt) \<times> AgentServer" where
  "handleAccept h d s r q =
     (if \<not> hr_post r then (Inl PostOnly, s)
      else case decision_payload False q of
             Inl x \<Rightarrow> (Inl x, s)
           | Inr rec \<Rightarrow>
               (case stored_receipt s d r rec of
                  Inl x \<Rightarrow> (Inl x, s)
                | Inr stored \<Rightarrow> record_decision h s d stored (dq_Signature q) AcceptanceAccepted []))"

definition handleDispute ::
  "go_host \<Rightarrow> decision_env \<Rightarrow> AgentServer \<Rightarrow> http_req \<Rightarrow> decision_req \<Rightarrow> (agent_error + SettlementReceipt) \<times> AgentServer" where
  "handleDispute h d s r q =
     (if \<not> hr_post r then (Inl PostOnly, s)
      else case decision_payload True q of
             Inl x \<Rightarrow> (Inl x, s)
           | Inr rec \<Rightarrow>
               (case stored_receipt s d r rec of
                  Inl x \<Rightarrow> (Inl x, s)
                | Inr stored \<Rightarrow>
                    if rc_EmitterAcceptance stored = AcceptanceAccepted then (Inl AlreadyAccepted, s)
                    else if rc_EmitterAcceptance stored = AcceptanceDisputed then (Inl AlreadyDisputed, s)
                    else record_decision h s d stored (dq_Signature q) AcceptanceDisputed (dq_Reason q)))"

section \<open>Reading and verifying\<close>

fun hex_decode :: "string \<Rightarrow> string option" where
  "hex_decode [] = Some []"
| "hex_decode (a # b # s) =
     (case (hex_val a, hex_val b, hex_decode s) of
        (Some m, Some n, Some rest) \<Rightarrow> Some (char_of (16 * m + n) # rest)
      | _ \<Rightarrow> None)"
| "hex_decode [_] = None"

fun hexEncode :: "string \<Rightarrow> string" where
  "hexEncode [] = []"
| "hexEncode (c # s) = hex_digit (byte c div 16) # hex_digit (byte c mod 16) # hexEncode s"

definition ServerPublicKey :: "go_host \<Rightarrow> AgentServer \<Rightarrow> string" where
  "ServerPublicKey h s = hexEncode (PublicKey (gh_ed h) (sv_signer s))"

definition key_of_hex :: "string \<Rightarrow> string option" where
  "key_of_hex s = (case hex_decode s of None \<Rightarrow> None | Some k \<Rightarrow> if length k = 32 then Some k else None)"

record verify_chain_req =
  vq_EmitterID :: string
  vq_ExecutorID :: string
  vq_ExecutorKey :: string
  vq_EmitterKey :: string

definition chain_entry_valid :: "VerificationResult \<Rightarrow> bool" where
  "chain_entry_valid cr \<longleftrightarrow> vr_ExecutorSignatureValid cr \<and> vr_PreviousHashValid cr"

definition handleVerifyChain ::
  "go_host \<Rightarrow> AgentServer \<Rightarrow> http_req \<Rightarrow> verify_chain_req option \<Rightarrow> agent_error + VerificationResult list \<times> bool" where
  "handleVerifyChain h s r b =
     (if \<not> hr_post r then Inl PostOnly
      else case b of
             None \<Rightarrow> Inl DecodeFailed
           | Some q \<Rightarrow>
               if vq_EmitterID q = [] \<or> vq_ExecutorID q = [] then Inl PairRequired
               else (case (key_of_hex (vq_ExecutorKey q), key_of_hex (vq_EmitterKey q)) of
                       (Some executorKey, Some emitterKey) \<Rightarrow>
                         (case VerifyChain h (sv_chain s) (vq_EmitterID q) (vq_ExecutorID q) executorKey emitterKey of
                            Inl _ \<Rightarrow> Inl ChainMissing
                          | Inr crs \<Rightarrow> Inr (crs, list_all chain_entry_valid crs))
                     | _ \<Rightarrow> Inl KeyInvalid))"

definition handleGetReceipt :: "AgentServer \<Rightarrow> string \<Rightarrow> agent_error + SettlementReceipt" where
  "handleGetReceipt s receiptID =
     (if receiptID = [] then Inl ReceiptIDRequired
      else case GetReceipt (sv_chain s) receiptID of
             Inl _ \<Rightarrow> Inl ReceiptMissing
           | Inr rec \<Rightarrow> if rc_MeshID rec \<noteq> ag_MeshID (sv_config s) then Inl MeshMismatch else Inr rec)"

definition handleGetChain :: "AgentServer \<Rightarrow> string \<Rightarrow> string \<Rightarrow> agent_error + SettlementReceipt list" where
  "handleGetChain s emitter executor =
     (if emitter = [] \<or> executor = [] then Inl PairRequired else Inr (GetChain (sv_chain s) emitter executor))"

datatype link_error = FirstPrevious string | WrongPrevious nat string string | NotInChain

record VerifyResponse =
  vp_Valid :: bool
  vp_ExecutorSigOK :: bool
  vp_ChainValid :: bool
  vp_ChainErrors :: "link_error list"

fun position_of :: "string \<Rightarrow> SettlementReceipt list \<Rightarrow> nat option" where
  "position_of receiptID [] = None"
| "position_of receiptID (c # cs) =
     (if rc_ReceiptID c = receiptID then Some 0 else map_option Suc (position_of receiptID cs))"

definition check_in_chain :: "SettlementReceipt list \<Rightarrow> SettlementReceipt \<Rightarrow> bool \<times> link_error list" where
  "check_in_chain chain rec =
     (case position_of (rc_ReceiptID rec) chain of
        None \<Rightarrow> (False, [NotInChain])
      | Some 0 \<Rightarrow>
          if rc_PreviousReceiptHash rec = [] then (True, []) else (False, [FirstPrevious (rc_PreviousReceiptHash rec)])
      | Some (Suc i) \<Rightarrow>
          if rc_PreviousReceiptHash rec = rc_PreviousReceiptHash (chain ! i) then (True, [])
          else (False, [WrongPrevious (Suc i) (rc_PreviousReceiptHash (chain ! i)) (rc_PreviousReceiptHash rec)]))"

definition handleVerifyReceipt ::
  "go_host \<Rightarrow> AgentServer \<Rightarrow> http_req \<Rightarrow> SettlementReceipt option \<Rightarrow> agent_error + VerifyResponse" where
  "handleVerifyReceipt h s r b =
     (if \<not> hr_post r then Inl PostOnly
      else case b of
             None \<Rightarrow> Inl ParseFailed
           | Some rec \<Rightarrow>
               if rc_MeshID rec \<noteq> ag_MeshID (sv_config s) then Inl MeshMismatch
               else
                 let sigOK = (case ComputeReceiptHash h rec of
                                None \<Rightarrow> False
                              | Some x \<Rightarrow> Verify (gh_ed h) (PublicKey (gh_ed h) (sv_signer s)) x (rc_ExecutorSignature rec) = None) in
                 (case check_in_chain (GetChain (sv_chain s) (rc_EmitterAgentID rec) (rc_ExecutorAgentID rec)) rec of
                    (chainValid, errs) \<Rightarrow>
                      Inr \<lparr>vp_Valid = (sigOK \<and> chainValid), vp_ExecutorSigOK = sigOK, vp_ChainValid = chainValid,
                           vp_ChainErrors = errs\<rparr>))"

end
