(* ===== verification/Agent_Safety.thy ===== *)
theory Agent_Safety
  imports Agent_Decisions
begin

text \<open>
  What the agent keeps and promises: its receipt chains verify whatever requests it serves, a lease is granted only to an
  authenticated envelope of its mesh, and the reaper removes only the leases whose expiry it has seen.
\<close>

section \<open>Tables of the agent\<close>

text \<open>\<open>R\<close> is a set of receipt identifiers that the table does not use yet.\<close>

definition table_inv :: "go_host \<Rightarrow> string \<Rightarrow> (string \<Rightarrow> string) \<Rightarrow> string set \<Rightarrow> receipt_table \<Rightarrow> bool" where
  "table_inv h xk keys R t \<longleftrightarrow>
     chain_ok h t \<and> list_all (row_ok h xk keys) t \<and> distinct (map rr_receipt_id t) \<and> set (map rr_receipt_id t) \<inter> R = {}"

definition same_link :: "receipt_row \<Rightarrow> receipt_row \<Rightarrow> bool" where
  "same_link v w \<longleftrightarrow>
     rr_receipt_id v = rr_receipt_id w \<and> rr_contract_id v = rr_contract_id w \<and> rr_emitter v = rr_emitter w \<and>
     rr_executor v = rr_executor w \<and> rc_PreviousReceiptHash (rr_data v) = rc_PreviousReceiptHash (rr_data w) \<and>
     rc_ExecutorSignature (rr_data v) = rc_ExecutorSignature (rr_data w)"

definition extends :: "receipt_table \<Rightarrow> receipt_table \<Rightarrow> bool" where
  "extends t u \<longleftrightarrow> (\<forall>w \<in> set t. \<exists>v \<in> set u. same_link v w)"

text \<open>What other requests may do to the table between two accesses of a request that reserves \<open>R\<close>.\<close>

definition keeps_table :: "go_host \<Rightarrow> string \<Rightarrow> (string \<Rightarrow> string) \<Rightarrow> string set \<Rightarrow> (receipt_table \<Rightarrow> receipt_table) \<Rightarrow> bool" where
  "keeps_table h xk keys R f \<longleftrightarrow>
     (\<forall>t. table_inv h xk keys R t \<longrightarrow> table_inv h xk keys R (f t) \<and> extends t (f t))"

definition calm :: "go_host \<Rightarrow> string \<Rightarrow> (string \<Rightarrow> string) \<Rightarrow> string set \<Rightarrow> attempt_env \<Rightarrow> bool" where
  "calm h xk keys R env \<longleftrightarrow>
     at_id env \<in> R \<and> keeps_table h xk keys R (at_between env) \<and> keeps_table h xk keys R (at_after env)"

lemma calm_build [simp]: "calm h xk keys R (env\<lparr>at_build := b\<rparr>) = calm h xk keys R env"
  by (simp add: calm_def)

lemma same_link_refl [simp]: "same_link w w"
  by (simp add: same_link_def)

lemma extends_refl [simp]: "extends t t"
  unfolding extends_def using same_link_refl by blast

lemma same_link_trans: "same_link u v \<Longrightarrow> same_link v w \<Longrightarrow> same_link u w"
  by (simp add: same_link_def)

lemma extends_trans [trans]: "extends t u \<Longrightarrow> extends u v \<Longrightarrow> extends t v"
  unfolding extends_def by (meson same_link_trans)

lemma extends_append [simp]: "extends t (t @ u)"
  unfolding extends_def set_append using same_link_refl by blast

lemma table_inv_mono: "table_inv h xk keys R t \<Longrightarrow> table_inv h xk keys {} t"
  by (simp add: table_inv_def)

lemma keeps_table_id [simp]: "keeps_table h xk keys R id"
  by (simp add: keeps_table_def)

lemma save_keeps:
  assumes "table_inv h xk keys R t" and "pending_ok h xk r" and "rc_ReceiptID r \<in> R"
    and "SaveReceipt h io t r = (e, q, t')"
  shows "table_inv h xk keys {} t' \<and> extends t t' \<and> (e \<noteq> None \<longrightarrow> t' = t)"
proof -
  have inv: "chain_ok h t" "list_all (row_ok h xk keys) t" "rc_ReceiptID r \<notin> set (map rr_receipt_id t)"
    using assms(1,3) by (auto simp: table_inv_def)
  note rows = save_table [OF inv(1,2) assms(2), of io, unfolded assms(4) snd_conv]
  have "distinct (map rr_receipt_id t')" using rows(2) assms(1) inv(3) by (auto simp: table_inv_def)
  then have "table_inv h xk keys {} t'"
    using rows(1) SaveReceipt_chain_ok [OF inv(1), of io r] assms(4) by (simp add: table_inv_def)
  moreover have "extends t t'"
    using SaveReceipt_table [OF inv(1), of io r] assms(4) by (auto simp: append_row_def)
  moreover have "t' = t" if "e \<noteq> None"
    using SaveReceipt_eq [of h t r io] inv(1) assms(4) that by (auto simp: chain_ok_def)
  ultimately show ?thesis by blast
qed

lemma attempt_keeps:
  assumes "ed25519_ok (gh_ed h)" and "table_inv h (PublicKey (gh_ed h) signer) keys R t"
    and "calm h (PublicKey (gh_ed h) signer) keys R env" and "\<And>rec. at_build env = Some rec \<Longrightarrow> rc_EmitterSignature rec = []"
    and "append_attempt h cfg signer env t = (res, t')"
  shows "table_inv h (PublicKey (gh_ed h) signer) keys {} t' \<and> extends t t' \<and>
         (\<forall>e. res = Inl e \<longrightarrow> table_inv h (PublicKey (gh_ed h) signer) keys R t')"
proof (cases "at_build env")
  case (Some rec)
  let ?q = "place_receipt h cfg (at_id env) t rec" and ?u = "at_between env t"
  obtain x r where s: "SignReceipt h (at_now env) ?q signer = (x, r)" by fastforce
  show ?thesis
  proof (cases "at_read_fails env \<or> x \<noteq> None")
    case True
    then show ?thesis using assms(2,5) Some s table_inv_mono by (auto simp: append_attempt_def split: if_splits)
  next
    case False
    then have sr: "SignReceipt h (at_now env) ?q signer = (None, r)" using s by simp
    note c = SignReceipt_checks [OF assms(1) sr]
    have p: "pending_ok h (PublicKey (gh_ed h) signer) r" using c assms(4) [OF Some] by (simp add: pending_ok_def)
    have u: "table_inv h (PublicKey (gh_ed h) signer) keys R ?u" "extends t ?u" "rc_ReceiptID r \<in> R"
      using assms(2,3) c(3) by (auto simp: calm_def keeps_table_def)
    obtain e q v where v: "SaveReceipt h (at_io env) ?u r = (e, q, v)" using prod_cases3 by blast
    have a: "append_attempt h cfg signer env t = (case e of None \<Rightarrow> Inr q | Some y \<Rightarrow> Inl (AppendChain y), v)"
      using Some False sr v by (cases e) (simp_all add: append_attempt_def)
    from save_keeps [OF u(1) p u(3) v] show ?thesis
      using a assms(5) u extends_trans by (cases e) auto
  qed
qed (use assms(2,5) table_inv_mono in \<open>auto simp: append_attempt_def\<close>)

lemma loop_keeps:
  assumes "ed25519_ok (gh_ed h)" and "table_inv h (PublicKey (gh_ed h) signer) keys R t"
    and "list_all (\<lambda>env. calm h (PublicKey (gh_ed h) signer) keys R env \<and> (\<forall>rec. at_build env = Some rec \<longrightarrow> rc_EmitterSignature rec = [])) envs"
    and "append_loop h cfg signer n envs t = (res, t')"
  shows "table_inv h (PublicKey (gh_ed h) signer) keys {} t' \<and> extends t t'"
  using assms(2-4)
proof (induction envs arbitrary: t)
  case (Cons env envs)
  let ?k = "PublicKey (gh_ed h) signer"
  obtain r u where a: "append_attempt h cfg signer env t = (r, u)" by fastforce
  have c: "calm h ?k keys R env" "\<And>rec. at_build env = Some rec \<Longrightarrow> rc_EmitterSignature rec = []" using Cons.prems(2) by auto
  note k = attempt_keeps [OF assms(1) Cons.prems(1) c(1) c(2) a]
  show ?case
  proof (cases r)
    case (Inr saved)
    then show ?thesis using k a Cons.prems(1,3) table_inv_mono by (auto split: if_splits)
  next
    case (Inl e)
    then have ku: "table_inv h ?k keys R (at_after env u)" "extends u (at_after env u)"
      using k c(1) by (auto simp: calm_def keeps_table_def)
    note ih = Cons.IH [OF ku(1)]
    show ?thesis
    proof (cases "at_cancelled env \<or> \<not> isTransientChainContention e \<or> envs = [] \<or> at_wait_cancelled env")
      case True
      then have "snd (append_loop h cfg signer n (env # envs) t) \<in> {t, u}" using Inl a by simp blast
      then have "t' = t \<or> t' = u" unfolding Cons.prems(3) by simp
      then show ?thesis using k Cons.prems(1) table_inv_mono by auto
    next
      case False
      then have l: "append_loop h cfg signer n envs (at_after env u) = (res, t')" using Inl a Cons.prems(3) by simp
      have "table_inv h ?k keys {} t' \<and> extends (at_after env u) t'" by (rule ih [OF _ l]) (use Cons.prems(2) in simp)
      then show ?thesis using k ku(2) by (blast intro: extends_trans)
    qed
  qed
qed (auto intro: table_inv_mono)

lemma SignAndSave_keeps:
  assumes "ed25519_ok (gh_ed h)" and "ac_Signer cfg = Some signer"
    and "table_inv h (PublicKey (gh_ed h) signer) keys R t"
    and "\<And>i. calm h (PublicKey (gh_ed h) signer) keys R (envs i)" and "\<And>i rec. at_build (envs i) = Some rec \<Longrightarrow> rc_EmitterSignature rec = []"
    and "SignAndSaveReceipt h cfg envs t = (res, t')"
  shows "table_inv h (PublicKey (gh_ed h) signer) keys {} t' \<and> extends t t'"
  by (rule loop_keeps [OF assms(1,3), where envs = "map envs [0..<nat (append_attempts cfg)]"])
    (use assms in \<open>auto simp: SignAndSaveReceipt_def list_all_iff\<close>)

section \<open>Requests keep the table\<close>

definition calm_settle :: "go_host \<Rightarrow> string \<Rightarrow> (string \<Rightarrow> string) \<Rightarrow> string set \<Rightarrow> settle_env \<Rightarrow> bool" where
  "calm_settle h xk keys R env \<longleftrightarrow>
     keeps_table h xk keys R (se_meanwhile env) \<and> (\<forall>i. calm h xk keys R (se_attempts env i))"

definition calm_timeout :: "go_host \<Rightarrow> string \<Rightarrow> (string \<Rightarrow> string) \<Rightarrow> string set \<Rightarrow> timeout_env \<Rightarrow> bool" where
  "calm_timeout h xk keys R te \<longleftrightarrow> (\<forall>i. calm h xk keys R (te_attempts te i))"

lemma Settle_keeps:
  assumes "ed25519_ok (gh_ed h)" and "eg_signer eng = Some signer"
    and "table_inv h (PublicKey (gh_ed h) signer) keys R t" and "calm_settle h (PublicKey (gh_ed h) signer) keys R env"
    and "Settle h eng env inp (t, n) = (res, t', n')"
  shows "table_inv h (PublicKey (gh_ed h) signer) keys {} t' \<and> extends t t'"
proof (cases "t' = t")
  case True
  then show ?thesis using assms(3) table_inv_mono by simp
next
  case False
  let ?e = "si_Envelope inp"
  obtain x where g: "settle_guard h inp = Inr x" using assms(5) False by (cases "settle_guard h inp") (auto simp: Settle_def)
  obtain y where y: "\<not> se_lookup_fails env" "GetReceiptByContractID t (ev_EnvelopeID ?e) = Inl y"
    using assms(5) False g by (cases "GetReceiptByContractID t (ev_EnvelopeID ?e)") (auto simp: Settle_def Let_def split: if_splits)
  obtain v used rs where v: "assess (settle_pass h eng env ?e) (eg_remMax eng) = (v, used, rs)" by (metis prod_cases3)
  let ?cfg = "\<lparr>ac_EmitterAgentID = ev_EmitterAgentID ?e, ac_ExecutorAgentID = ev_ExecutorAgentID ?e, ac_Signer = eg_signer eng, ac_MaxAttempts = 0\<rparr>"
  let ?at = "\<lambda>i. (se_attempts env i)\<lparr>at_build := Some (new_receipt env ?e x v rs)\<rparr>"
  obtain res' u where s: "SignAndSaveReceipt h ?cfg ?at (se_meanwhile env t) = (res', u)" by fastforce
  have m: "table_inv h (PublicKey (gh_ed h) signer) keys R (se_meanwhile env t)" "extends t (se_meanwhile env t)"
    using assms(3,4) by (auto simp: calm_settle_def keeps_table_def)
  have "table_inv h (PublicKey (gh_ed h) signer) keys {} u \<and> extends (se_meanwhile env t) u"
    by (rule SignAndSave_keeps [OF assms(1) _ m(1) _ _ s]) (use assms(2,4) in \<open>auto simp: calm_settle_def new_receipt_def\<close>)
  moreover have "t' = u" using assms(5) g y v s
    by (cases res') (auto simp: Settle_def Let_def split: if_splits sum.splits)
  ultimately show ?thesis using m(2) extends_trans by blast
qed

lemma timeout_keeps:
  assumes "ed25519_ok (gh_ed h)"
    and "table_inv h (PublicKey (gh_ed h) (sv_signer s)) keys R (sv_chain s)"
    and "calm_timeout h (PublicKey (gh_ed h) (sv_signer s)) keys R te"
    and "emitSettlementTimeout h s te env0 = (res, s')"
  shows "\<exists>t. s' = s\<lparr>sv_chain := t\<rparr> \<and> table_inv h (PublicKey (gh_ed h) (sv_signer s)) keys {} t"
proof (cases "s' = s")
  case True
  then show ?thesis using assms(2) table_inv_mono by (intro exI [of _ "sv_chain s"]) simp
next
  case False
  obtain env where e: "env0 = Some env" using assms(4) False by (cases env0) (auto simp: emitSettlementTimeout_def)
  obtain x where x: "\<not> te_lookup_fails te" "GetReceiptByContractID (sv_chain s) (ev_EnvelopeID env) = Inl x"
    using assms(4) False e
    by (cases "GetReceiptByContractID (sv_chain s) (ev_EnvelopeID env)") (auto simp: emitSettlementTimeout_def split: if_splits)
  obtain hash where hash: "(if ev_EnvelopeHash env = [] then ComputeEnvelopeHash h env else Inr (ev_EnvelopeHash env)) = Inr hash"
    using assms(4) False e x
    by (cases "if ev_EnvelopeHash env = [] then ComputeEnvelopeHash h env else Inr (ev_EnvelopeHash env)")
      (auto simp: emitSettlementTimeout_def split: if_splits)
  let ?cfg = "\<lparr>ac_EmitterAgentID = ev_EmitterAgentID env, ac_ExecutorAgentID = ag_AgentID (sv_config s),
    ac_Signer = Some (sv_signer s), ac_MaxAttempts = 0\<rparr>"
  let ?at = "\<lambda>i. (te_attempts te i)\<lparr>at_build := Some (timeout_receipt env hash)\<rparr>"
  obtain r t where s: "SignAndSaveReceipt h ?cfg ?at (sv_chain s) = (r, t)" by fastforce
  have "table_inv h (PublicKey (gh_ed h) (sv_signer s)) keys {} t \<and> extends (sv_chain s) t"
    by (rule SignAndSave_keeps [OF assms(1) _ assms(2) _ _ s]) (use assms(3) in \<open>auto simp: calm_timeout_def timeout_receipt_def\<close>)
  moreover have "s' = s\<lparr>sv_chain := t\<rparr>" using assms(4) e x hash s
    by (cases r) (auto simp: emitSettlementTimeout_def Let_def split: if_splits sum.splits)
  ultimately show ?thesis by blast
qed

lemma check_executor_verified: "VerifyExecutorSignature h r k = None \<Longrightarrow> check_executor h k r = NoteNone"
  by (auto simp: VerifyExecutorSignature_def check_executor_def split: if_splits option.splits)

lemma VerifyEmitterSignature_at: "VerifyEmitterSignature h (r\<lparr>rc_EmitterAcceptanceAt := x\<rparr>) k = VerifyEmitterSignature h r k"
  by (simp add: VerifyEmitterSignature_def ComputeEmitterReceiptHash_def emitter_view_def cong: option.case_cong)

lemma verifyEmitterReceiptSignature_ok:
  assumes "verifyEmitterReceiptSignature h s r sig a why = None"
  obtains k where "getEmitterPublicKey s (rc_EmitterAgentID r) = Some k"
    and "VerifyEmitterSignature h (decided r a why sig at) k = None"
proof -
  obtain k where k: "getEmitterPublicKey s (rc_EmitterAgentID r) = Some k"
    "VerifyEmitterSignature h (r\<lparr>rc_EmitterAcceptance := a, rc_DisputeReason := why, rc_EmitterSignature := sig\<rparr>) k = None"
    using assms by (auto simp: verifyEmitterReceiptSignature_def split: option.splits)
  have "decided r a why sig at =
      (r\<lparr>rc_EmitterAcceptance := a, rc_DisputeReason := why, rc_EmitterSignature := sig\<rparr>)\<lparr>rc_EmitterAcceptanceAt := at\<rparr>"
    by (simp add: decided_def)
  then show thesis using that k VerifyEmitterSignature_at by metis
qed

text \<open>Recording a decision on a table to which others have added since the receipt was read.\<close>

lemma decision_keeps:
  assumes "table_inv h xk keys {} t" and "table_inv h xk keys {} u" and "extends t u"
    and "GetReceipt t receiptID = Inr r"
    and "VerifyEmitterSignature h (decided r a why sig at) (keys (rc_EmitterAgentID r)) = None"
  shows "table_inv h xk keys {} (snd (UpdateReceipt io u (decided r a why sig at)))"
proof -
  define f where "f row = (if rr_receipt_id row = rc_ReceiptID r then row\<lparr>rr_data := decided r a why sig at\<rparr> else row)" for row :: receipt_row
  obtain w where w: "w \<in> set t" "r = row_receipt w"
    using assms(4) unfolding GetReceipt_def by (auto simp: find_Some_iff split: option.splits) (metis nth_mem)
  have wok: "row_ok h xk keys w" using w(1) assms(1) by (simp add: table_inv_def list_all_iff)
  obtain v where v: "v \<in> set u" "same_link v w" using w(1) assms(3) by (auto simp: extends_def)
  have id: "rc_ReceiptID r = rr_receipt_id v" using w(2) wok v(2) by (simp add: row_ok_def same_link_def)
  have f: "f row = (if row = v then v\<lparr>rr_data := decided r a why sig at\<rparr> else row)" if "row \<in> set u" for row
    using id v(1) that assms(2) by (auto simp: f_def table_inv_def distinct_map dest: inj_onD)
  have "chain_ok h (map f u)"
    by (rule map_receipt_table) (use assms(2) v(2) w(2) f in \<open>auto simp: table_inv_def same_link_def\<close>)
  moreover have "row_ok h xk keys (f row)" if "row \<in> set u" for row
    using f [OF that] that assms(2) wok v(2) w(2) check_emitter_verified [OF assms(5)]
    by (auto simp: row_ok_def same_link_def table_inv_def list_all_iff)
  then have "list_all (row_ok h xk keys) (map f u)" by (simp add: list_all_iff)
  moreover have "map rr_receipt_id (map f u) = map rr_receipt_id u" by (simp add: f_def)
  ultimately have "table_inv h xk keys {} (map f u)" using assms(2) unfolding table_inv_def by (metis Int_empty_right)
  then show ?thesis using UpdateReceipt_table [of io u "decided r a why sig at"] assms(2)
    unfolding decided_simps f_def by auto
qed

section \<open>Reachable states\<close>

text \<open>Requests, the reaper and key registration, in any order and with other requests in between. Every agent's key is
  registered once (\<open>keys\<close>), and receipt identifiers drawn by a request are not in use.\<close>

definition agent_key :: "go_host \<Rightarrow> AgentServer \<Rightarrow> string" where
  "agent_key h s = PublicKey (gh_ed h) (sv_signer s)"

definition unused :: "string set \<Rightarrow> AgentServer \<Rightarrow> bool" where
  "unused R s \<longleftrightarrow> set (map rr_receipt_id (sv_chain s)) \<inter> R = {}"

inductive agent_reach :: "go_host \<Rightarrow> (string \<Rightarrow> string) \<Rightarrow> AgentServer \<Rightarrow> bool" for h keys where
  start: "NewServer h environ cfg signer (Some t) = Inr s \<Longrightarrow> table_inv h (PublicKey (gh_ed h) signer) keys {} t \<Longrightarrow>
    keys (bs_agentID signer) = PublicKey (gh_ed h) signer \<Longrightarrow> agent_reach h keys s"
| register: "agent_reach h keys s \<Longrightarrow> agent_reach h keys (RegisterAgentKey s a (keys a))"
| submit: "agent_reach h keys s \<Longrightarrow> agent_reach h keys (snd (handleSubmitEnvelope h ck now1 now2 s r b))"
| lease: "agent_reach h keys s \<Longrightarrow> agent_reach h keys (snd (handleCreateLease h ck now1 now2 s r b))"
| settle: "agent_reach h keys s \<Longrightarrow> unused R s \<Longrightarrow> calm_settle h (agent_key h s) keys R se \<Longrightarrow>
    calm_timeout h (agent_key h s) keys R te \<Longrightarrow> agent_reach h keys (snd (handleSettle h se te now s r b leaseID))"
| confirm: "agent_reach h keys s \<Longrightarrow> agent_reach h keys (fst (confirm_leases snaps s))"
| emit: "agent_reach h keys s \<Longrightarrow> unused R s \<Longrightarrow> calm_timeout h (agent_key h s) keys R te \<Longrightarrow>
    agent_reach h keys (snd (emitSettlementTimeout h s te env))"
| accept: "agent_reach h keys s \<Longrightarrow> keeps_table h (agent_key h s) keys {} (dr_between d) \<Longrightarrow>
    agent_reach h keys (snd (handleAccept h d s r q))"
| dispute: "agent_reach h keys s \<Longrightarrow> keeps_table h (agent_key h s) keys {} (dr_between d) \<Longrightarrow>
    agent_reach h keys (snd (handleDispute h d s r q))"

definition agent_inv :: "go_host \<Rightarrow> (string \<Rightarrow> string) \<Rightarrow> AgentServer \<Rightarrow> bool" where
  "agent_inv h keys s \<longleftrightarrow>
     table_inv h (agent_key h s) keys {} (sv_chain s) \<and> eg_signer (sv_engine s) = Some (sv_signer s) \<and>
     (\<forall>a k. map_get (sv_keys s) a = Some k \<longrightarrow> k = keys a)"

lemma agent_inv_unused: "agent_inv h keys s \<Longrightarrow> unused R s \<Longrightarrow> table_inv h (agent_key h s) keys R (sv_chain s)"
  by (simp add: agent_inv_def table_inv_def unused_def)

text \<open>Only the table matters for the invariant when the signer, the engine and the keys stay.\<close>

lemma agent_inv_frame:
  assumes "agent_inv h keys s" and "sv_signer s' = sv_signer s" and "sv_engine s' = sv_engine s" and "sv_keys s' = sv_keys s"
    and "table_inv h (agent_key h s) keys {} (sv_chain s')"
  shows "agent_inv h keys s'"
  using assms by (simp add: agent_inv_def agent_key_def)

lemma lease_frame:
  "snd (handleCreateLease h ck now1 now2 s r b) = s \<or>
   (\<exists>ls es. snd (handleCreateLease h ck now1 now2 s r b) = s\<lparr>sv_leases := ls, sv_leaseEnvelopes := es\<rparr>)"
  "snd (handleSubmitEnvelope h ck now1 now2 s r b) = s \<or>
   (\<exists>ls es. snd (handleSubmitEnvelope h ck now1 now2 s r b) = s\<lparr>sv_leases := ls, sv_leaseEnvelopes := es\<rparr>)"
  unfolding handleCreateLease_def handleSubmitEnvelope_def by (auto split: sum.splits prod.splits option.splits)

lemma confirm_frame: "\<exists>ls es. fst (confirm_leases snaps s) = s\<lparr>sv_leases := ls, sv_leaseEnvelopes := es\<rparr>"
proof (induction snaps arbitrary: s)
  case Nil
  show ?case by (intro exI [of _ "sv_leases s"] exI [of _ "sv_leaseEnvelopes s"]) simp
next
  case (Cons sn snaps)
  let ?s = "s\<lparr>sv_leases := map_del (sv_leases s) (xl_leaseID sn), sv_leaseEnvelopes :=
    (if xl_envelopeID sn \<noteq> [] then map_del (sv_leaseEnvelopes s) (xl_envelopeID sn) else sv_leaseEnvelopes s)\<rparr>"
  have "fst (confirm_leases (sn # snaps) s) \<in> {fst (confirm_leases snaps s), fst (confirm_leases snaps ?s)}"
    by (auto simp: Let_def split: option.splits prod.splits)
  moreover obtain ls es where "fst (confirm_leases snaps s) = s\<lparr>sv_leases := ls, sv_leaseEnvelopes := es\<rparr>" using Cons.IH by blast
  moreover obtain ls' es' where "fst (confirm_leases snaps ?s) = s\<lparr>sv_leases := ls', sv_leaseEnvelopes := es'\<rparr>"
    using Cons.IH [of ?s] by auto
  ultimately show ?case by (metis insertE singletonD)
qed

lemma decided_eq:
  "r\<lparr>rc_EmitterAcceptance := a, rc_DisputeReason := why, rc_EmitterAcceptanceAt := at, rc_EmitterSignature := sig\<rparr> =
     decided r a why sig at"
  by (cases r) (simp add: decided_def)

lemma record_decision_inv:
  assumes "agent_inv h keys s" and "keeps_table h (agent_key h s) keys {} (dr_between d)"
    and "GetReceipt (sv_chain s) receiptID = Inr stored"
  shows "agent_inv h keys (snd (record_decision h s d stored sig a why))"
proof (cases "VerifyExecutorSignature h stored (PublicKey (gh_ed h) (sv_signer s)) = None \<and>
    verifyEmitterReceiptSignature h s stored sig a why = None")
  case True
  let ?r = "decided stored a why sig (Some (dr_now d))" and ?u = "dr_between d (sv_chain s)"
  obtain k where k: "getEmitterPublicKey s (rc_EmitterAgentID stored) = Some k" "VerifyEmitterSignature h ?r k = None"
    using True verifyEmitterReceiptSignature_ok by metis
  have "k = keys (rc_EmitterAgentID stored)" using k(1) assms(1) by (simp add: getEmitterPublicKey_def agent_inv_def)
  moreover have u: "table_inv h (agent_key h s) keys {} ?u" "extends (sv_chain s) ?u" "table_inv h (agent_key h s) keys {} (sv_chain s)"
    using assms(1,2) by (auto simp: keeps_table_def agent_inv_def)
  ultimately have t: "table_inv h (agent_key h s) keys {} (snd (UpdateReceipt (dr_io d) ?u ?r))"
    using decision_keeps [OF u(3,1,2) assms(3)] k(2) by blast
  have "snd (record_decision h s d stored sig a why) = s\<lparr>sv_chain := snd (UpdateReceipt (dr_io d) ?u ?r)\<rparr>"
    using True by (auto simp: record_decision_def Let_def decided_eq split: prod.splits option.splits)
  then show ?thesis using t assms(1) by (simp add: agent_inv_def agent_key_def)
next
  case False
  then have "snd (record_decision h s d stored sig a why) = s"
    by (auto simp: record_decision_def split: option.splits)
  then show ?thesis using assms(1) by simp
qed


lemma stored_receipt_ok:
  assumes "stored_receipt s d r rec = Inr stored"
  shows "GetReceipt (sv_chain s) (rc_ReceiptID rec) = Inr stored \<and> rc_MeshID stored = ag_MeshID (sv_config s) \<and>
         verifyMTLSIdentity s r (rc_EmitterAgentID stored)"
  using assms by (auto simp: stored_receipt_def split: if_splits sum.splits)

lemma NewServer_fields:
  assumes "NewServer h environ cfg signer (Some t) = Inr s"
  shows "sv_signer s = signer" "sv_chain s = t" "eg_signer (sv_engine s) = Some signer" "sv_leases s = []"
    "sv_keys s = map_put [] (bs_agentID signer) (PublicKey (gh_ed h) signer)"
  using assms by (auto simp: NewServer_def NewEngine_def RegisterAgentKey_def Let_def split: if_splits)

lemma timeout_answer:
  "snd (case x of (Inr (Some rec), s') \<Rightarrow> (Inr rec, s') | (Inr None, s') \<Rightarrow> (Inl e, s') | (Inl y, s') \<Rightarrow> (Inl (f y), s')) = snd x"
  by (auto split: prod.split sum.split option.split)

lemma settle_answer:
  "snd (case x of (Inl y, t, _) \<Rightarrow> (Inl (f y), s\<lparr>sv_chain := t\<rparr>) | (Inr (rec, _), t, _) \<Rightarrow> (Inr rec, s\<lparr>sv_chain := t\<rparr>)) =
     s\<lparr>sv_chain := fst (snd x)\<rparr>"
  by (auto split: prod.split sum.split)

lemma handleSettle_effect:
  obtains "snd (handleSettle h se te now s r b leaseID) = s"
  | env where "snd (handleSettle h se te now s r b leaseID) = snd (emitSettlementTimeout h s te env)"
  | inp where "snd (handleSettle h se te now s r b leaseID) =
      s\<lparr>sv_chain := fst (snd (Settle h (sv_engine s) se inp (sv_chain s, 0)))\<rparr>"
proof (cases "admit h s r b")
  case (Inr env)
  let ?inp = "\<lparr>si_Envelope = env, si_EmitterAgentID = ev_EmitterAgentID env, si_ExecutorAgentID = ag_AgentID (sv_config s)\<rparr>"
  have "snd (handleSettle h se te now s r b leaseID) \<in>
      {s, snd (emitSettlementTimeout h s te (Some env)),
       s\<lparr>sv_chain := fst (snd (Settle h (sv_engine s) se ?inp (sv_chain s, 0)))\<rparr>}"
    unfolding handleSettle_def Inr sum.case Let_def
    by (cases "checkCapabilities s (ev_Capabilities env)") (simp_all add: timeout_answer settle_answer)
  then show ?thesis using that by blast
next
  case (Inl x)
  then have "snd (handleSettle h se te now s r b leaseID) = s" by (simp add: handleSettle_def)
  then show ?thesis by (rule that(1))
qed

lemma handleSettle_table:
  assumes "ed25519_ok (gh_ed h)" and "agent_inv h keys s" and "unused R s"
    and "calm_settle h (agent_key h s) keys R se" and "calm_timeout h (agent_key h s) keys R te"
  shows "agent_inv h keys (snd (handleSettle h se te now s r b leaseID))"
proof -
  let ?s = "snd (handleSettle h se te now s r b leaseID)"
  note u = agent_inv_unused [OF assms(2,3), unfolded agent_key_def]
  from handleSettle_effect [of h se te now s r b leaseID] show ?thesis
  proof cases
    case (2 env)
    obtain res s' where e: "emitSettlementTimeout h s te env = (res, s')" by fastforce
    obtain t where t: "s' = s\<lparr>sv_chain := t\<rparr>" "table_inv h (PublicKey (gh_ed h) (sv_signer s)) keys {} t"
      using timeout_keeps [OF assms(1) u assms(5) [unfolded agent_key_def] e] by blast
    show ?thesis unfolding 2 e snd_conv t(1) using t(2) by (intro agent_inv_frame [OF assms(2)]) (simp_all add: agent_key_def)
  next
    case (3 inp)
    obtain res t n where e: "Settle h (sv_engine s) se inp (sv_chain s, 0) = (res, t, n)" by (metis prod_cases3)
    have "eg_signer (sv_engine s) = Some (sv_signer s)" using assms(2) by (simp add: agent_inv_def)
    from Settle_keeps [OF assms(1) this u assms(4) [unfolded agent_key_def] e]
    show ?thesis unfolding 3 e by (intro agent_inv_frame [OF assms(2)]) (simp_all add: agent_key_def)
  qed (use assms(2) in simp)
qed


lemma verify_from_entry: "v \<in> set (verify_from h xk ek i prev rs) \<Longrightarrow> vr_Valid v \<Longrightarrow> chain_entry_valid v"
proof (induction rs arbitrary: i prev)
  case (Cons r rs)
  have "vr_Valid (verify_receipt h xk ek i prev r) \<Longrightarrow> chain_entry_valid (verify_receipt h xk ek i prev r)"
    by (simp add: verify_receipt_def Let_def chain_entry_valid_def)
  then show ?case using Cons by auto
qed simp

lemma emit_inv:
  assumes "ed25519_ok (gh_ed h)" and "agent_inv h keys s" and "unused R s" and "calm_timeout h (agent_key h s) keys R te"
  shows "agent_inv h keys (snd (emitSettlementTimeout h s te env))"
proof -
  obtain res s' where e: "emitSettlementTimeout h s te env = (res, s')" by fastforce
  obtain t where t: "s' = s\<lparr>sv_chain := t\<rparr>" "table_inv h (PublicKey (gh_ed h) (sv_signer s)) keys {} t"
    using timeout_keeps [OF assms(1) agent_inv_unused [OF assms(2,3), unfolded agent_key_def] assms(4) [unfolded agent_key_def] e]
    by blast
  show ?thesis unfolding e snd_conv t(1) using t(2) by (intro agent_inv_frame [OF assms(2)]) (simp_all add: agent_key_def)
qed

lemma decision_inv:
  assumes "agent_inv h keys s" and "keeps_table h (agent_key h s) keys {} (dr_between d)"
  shows "agent_inv h keys (snd (handleAccept h d s r q))" and "agent_inv h keys (snd (handleDispute h d s r q))"
proof -
  note rd = record_decision_inv [OF assms]
  show "agent_inv h keys (snd (handleAccept h d s r q))"
    using assms(1) rd by (auto simp: handleAccept_def split: sum.split dest: stored_receipt_ok)
  show "agent_inv h keys (snd (handleDispute h d s r q))"
    using assms(1) rd by (auto simp: handleDispute_def split: sum.split dest: stored_receipt_ok)
qed

lemma agent_reach_inv:
  assumes "ed25519_ok (gh_ed h)" and "agent_reach h keys s"
  shows "agent_inv h keys s"
  using assms(2)
proof (induction rule: agent_reach.induct)
  case (start environ cfg signer t s)
  then show ?case using NewServer_fields [OF start.hyps(1)] by (auto simp: agent_inv_def agent_key_def split: if_splits)
next
  case (register s a)
  then show ?case by (auto simp: agent_inv_def RegisterAgentKey_def agent_key_def split: if_splits)
next
  case (submit s ck now1 now2 r b)
  then show ?case using lease_frame(2) [of h ck now1 now2 s r b] by (auto simp: agent_inv_def agent_key_def)
next
  case (lease s ck now1 now2 r b)
  then show ?case using lease_frame(1) [of h ck now1 now2 s r b] by (auto simp: agent_inv_def agent_key_def)
next
  case (settle s R se te now r b leaseID)
  then show ?case using handleSettle_table [OF assms(1)] by blast
next
  case (confirm s snaps)
  then show ?case using confirm_frame [of snaps s] by (auto simp: agent_inv_def agent_key_def)
next
  case (emit s R te env)
  then show ?case using emit_inv [OF assms(1)] by blast
next
  case (accept s d r q)
  then show ?case using decision_inv(1) by blast
next
  case (dispute s d r q)
  then show ?case using decision_inv(2) by blast
qed

lemma hex_roundtrip: "hex_decode (hexEncode s) = Some s"
proof (induction s)
  case (Cons c s)
  have "byte c < 256" by (simp add: byte_def)
  then have "byte c div 16 < 16" "byte c mod 16 < 16" "16 * (byte c div 16) + byte c mod 16 = byte c" by (simp_all add: less_mult_imp_div_less)
  then show ?case using Cons by (simp add: hex_digit_val byte_def)
qed simp

lemma key_of_hex_encode: "length k = 32 \<Longrightarrow> key_of_hex (hexEncode k) = Some k"
  by (simp add: key_of_hex_def hex_roundtrip)

text \<open>C13. End to end, the agent's chains verify: at every reachable moment, after any requests, timeouts, decisions and
  concurrent writers, \<open>/verify-chain\<close> for a pair with receipts, given the key the agent publishes and the emitter's
  registered key, answers that the whole chain is valid, with a result for every receipt and every check of it passed.\<close>

theorem agent_chain_verifies:
  assumes "ed25519_ok (gh_ed h)" and "agent_reach h keys s" and "0 < Count (sv_chain s) em ex" and "hr_post r"
    and "em \<noteq> []" and "ex \<noteq> []" and "length (keys em) = 32"
  shows "\<exists>rs. handleVerifyChain h s r
             (Some \<lparr>vq_EmitterID = em, vq_ExecutorID = ex, vq_ExecutorKey = ServerPublicKey h s, vq_EmitterKey = hexEncode (keys em)\<rparr>) =
             Inr (rs, True) \<and>
           length rs = Count (sv_chain s) em ex \<and> list_all vr_Valid rs"
proof -
  have inv: "chain_ok h (sv_chain s)" "list_all (row_ok h (agent_key h s) keys) (sv_chain s)"
    using agent_reach_inv [OF assms(1,2)] by (auto simp: agent_inv_def table_inv_def)
  let ?rs = "verify_from h (agent_key h s) (keys em) 0 None (GetChain (sv_chain s) em ex)"
  have "pair_ok h (sv_chain s) em ex" using inv(1) by (simp add: chain_ok_def)
  then have len: "length (GetChain (sv_chain s) em ex) = Count (sv_chain s) em ex" by (simp add: GetChain_pair Count_def)
  have valid: "list_all vr_Valid ?rs" by (rule inv_chain_verifies [OF inv])
  then have "list_all chain_entry_valid ?rs" by (rule list.pred_mono_strong) (simp add: verify_from_entry)
  moreover have "VerifyChain h (sv_chain s) em ex (agent_key h s) (keys em) = Inr ?rs"
    using len assms(3) by (auto simp: VerifyChain_def VerifyChainIntegrity_def)
  moreover have "key_of_hex (ServerPublicKey h s) = Some (agent_key h s)"
    using assms(1) by (simp add: ServerPublicKey_def agent_key_def key_of_hex_encode PublicKey_def ed25519_ok_def)
  ultimately show ?thesis using valid len assms(4-7) by (simp add: handleVerifyChain_def key_of_hex_encode)
qed

section \<open>Witness\<close>

definition sample_config :: AgentConfig where
  "sample_config = \<lparr>ag_AgentID = ''b'', ag_MeshID = ''m'', ag_WorkspaceDir = ''/w'', ag_MaxRemed = 1, ag_EnvAllow = [],
     ag_ClientCAFile = [], ag_GrantedCapabilities = [''net'']\<rparr>"

definition sample_request :: http_req where
  "sample_request = \<lparr>hr_post = True, hr_tls = None\<rparr>"

definition sample_keys :: "string \<Rightarrow> string" where
  "sample_keys a = PublicKey sample_ed sample_signer"

definition sample_agent :: AgentServer where
  "sample_agent = (case NewServer sample_host [] sample_config sample_signer (Some sample_table) of Inr s \<Rightarrow> s)"

lemma sample_table_inv: "table_inv sample_host (PublicKey sample_ed sample_signer) sample_keys {} sample_table"
proof -
  obtain r where r: "SignReceipt sample_host 7 sample_placed sample_signer = (None, r)" using sample_receipt_signs by blast
  have "chain_reach sample_host sample_signer sample_keys ([], (\<lambda>_. None)(0 := Some r), [''r1''])"
    by (rule chain_reach.prepare [OF chain_reach.start, where rec = sample_receipt and cfg = sample_append])
      (use r in \<open>simp_all add: sample_receipt_def sample_placed_def\<close>)
  from chain_reach.save [OF this, of 0 r NoFault]
  have "\<exists>p. chain_reach sample_host sample_signer sample_keys (sample_table, p, [''r1''])" by (auto simp: sample_table_def r)
  then obtain p where "chain_reach sample_host sample_signer sample_keys (sample_table, p, [''r1''])" by blast
  from chain_reach_inv [OF _ this] show ?thesis using sample_ed_ok by (simp add: chain_inv_def table_inv_def ids_ok_def)
qed

lemma sample_agent_start: "NewServer sample_host [] sample_config sample_signer (Some sample_table) = Inr sample_agent"
  by (simp add: sample_agent_def NewServer_def NewEngine_def sample_config_def)

lemma sample_agent_reach: "agent_reach sample_host sample_keys sample_agent"
  by (rule agent_reach.start [OF sample_agent_start]) (use sample_table_inv in \<open>simp_all add: sample_keys_def\<close>)

theorem agent_chain_verifies_witness:
  "\<exists>rs. handleVerifyChain sample_host (RegisterAgentKey sample_agent ''a'' (sample_keys ''a'')) sample_request
      (Some \<lparr>vq_EmitterID = ''a'', vq_ExecutorID = ''b'',
             vq_ExecutorKey = ServerPublicKey sample_host (RegisterAgentKey sample_agent ''a'' (sample_keys ''a'')),
             vq_EmitterKey = hexEncode (sample_keys ''a'')\<rparr>) = Inr (rs, True) \<and> length rs = 1"
proof -
  let ?s = "RegisterAgentKey sample_agent ''a'' (sample_keys ''a'')"
  have "Count (sv_chain ?s) ''a'' ''b'' = 1"
    using NewServer_fields(2) [OF sample_agent_start] sample_table_rows by (simp add: RegisterAgentKey_def)
  moreover have "length (sample_keys ''a'') = 32" using sample_ed_ok by (simp add: sample_keys_def PublicKey_def ed25519_ok_def)
  ultimately show ?thesis
    using agent_chain_verifies [OF _ agent_reach.register [OF sample_agent_reach, of "''a''"], of "''a''" "''b''" sample_request]
      sample_ed_ok by (auto simp: sample_request_def)
qed

end
