(* ===== verification/Agent_Leases.thy ===== *)
theory Agent_Leases
  imports Agent_Safety
begin

text \<open>
  Leases: who gets one, what the reaper removes, and that a timeout is final. The last section records what some endpoints
  do that their documentation does not say.
\<close>

section \<open>Granting\<close>

definition authentic :: "go_host \<Rightarrow> AgentServer \<Rightarrow> http_req \<Rightarrow> CognitiveTaskEnvelope \<Rightarrow> bool" where
  "authentic h s r env \<longleftrightarrow>
     Validate h env = None \<and> ev_MeshID env = ag_MeshID (sv_config s) \<and> verifyMTLSIdentity s r (ev_EmitterAgentID env) \<and>
     (\<exists>k. map_get (sv_keys s) (ev_EmitterAgentID env) = Some k \<and> VerifyEnvelopeSignature h env k = None)"

definition grantable :: "AgentServer \<Rightarrow> check_host \<Rightarrow> CognitiveTaskEnvelope \<Rightarrow> bool" where
  "grantable s ck env \<longleftrightarrow>
     set (ev_Capabilities env) \<subseteq> set (ag_GrantedCapabilities (sv_config s)) \<and>
     list_all (\<lambda>p. fst (check_precondition s ck p)) (preconditions_of env)"

lemma admit_iff: "admit h s r b = Inr env \<longleftrightarrow> hr_post r \<and> b = Payload env \<and> authentic h s r env"
proof (cases b)
  case (Payload e)
  have "verifyEnvelope h s e = None \<longleftrightarrow>
      (\<exists>k. map_get (sv_keys s) (ev_EmitterAgentID e) = Some k \<and> VerifyEnvelopeSignature h e k = None)"
    by (auto simp: verifyEnvelope_def getEmitterPublicKey_def VerifyEnvelopeSignature_def split: option.splits)
  then show ?thesis using Payload by (auto simp: admit_def authentic_def split: option.splits)
qed (auto simp: admit_def)

lemma checkCapabilities_None:
  "checkCapabilities s caps = None \<longleftrightarrow> set caps \<subseteq> set (ag_GrantedCapabilities (sv_config s))"
  by (auto simp: checkCapabilities_def find_None_iff)

lemma runPreconditions_passed:
  "list_all pr_Passed (runPreconditions s ck ps) \<longleftrightarrow> list_all (\<lambda>p. fst (check_precondition s ck p)) ps"
proof -
  have "map pr_Passed (runPreconditions s ck ps) = map (\<lambda>p. fst (check_precondition s ck p)) ps"
    by (rule nth_equalityI) (auto simp: runPreconditions_def split: prod.split)
  then have "list_all id (map pr_Passed (runPreconditions s ck ps)) = list_all id (map (\<lambda>p. fst (check_precondition s ck p)) ps)"
    by simp
  then show ?thesis by (simp add: list.pred_map comp_def)
qed

lemma lease_for_accepted: "le_Accepted (lease_for s ck now1 now2 env) \<longleftrightarrow> grantable s ck env"
  by (simp add: lease_for_def Let_def grantable_def checkCapabilities_None runPreconditions_passed)

lemma SignLease_same:
  assumes "SignLease h l signer = (None, l')"
  shows "le_Accepted l' = le_Accepted l" "le_EnvelopeID l' = le_EnvelopeID l" "le_LeaseID l' = le_LeaseID l"
    "le_ExpiresAt l' = le_ExpiresAt l"
  using assms by (auto simp: SignLease_def split: option.splits sum.splits)

lemma SignLease_verifies:
  assumes "ed25519_ok (gh_ed h)" and "SignLease h l signer = (None, l')"
  shows "VerifyLeaseSignature h l' (PublicKey (gh_ed h) signer) = None"
proof -
  obtain c sig where c: "ValidateLease l = None" "Marshal h (lease_json h (l\<lparr>le_ExecutorSignature := []\<rparr>)) = Some c"
    "Sign (gh_ed h) signer c = Inr sig" "l' = l\<lparr>le_ExecutorSignature := sig\<rparr>"
    using assms(2) by (auto simp: SignLease_def split: option.splits sum.splits)
  have "ValidateLease l' = None" using c(1) unfolding c(4) by (simp add: ValidateLease_def split: if_splits)
  then show ?thesis using Verify_Sign [OF assms(1) c(3)] c(2,4) by (simp add: VerifyLeaseSignature_def)
qed

text \<open>C14. A lease is issued only for an authentic envelope: posted, valid, of this mesh, presented by its emitter and signed with
  the emitter's registered key. The lease is for that envelope, verifies under the agent's key and is registered; it is
  accepted exactly when every requested capability is granted and every precondition holds on the agent's machine.\<close>

theorem lease_granted:
  assumes "ed25519_ok (gh_ed h)" and "handleCreateLease h ck now1 now2 s r b = (Inr lease, s')"
  shows "\<exists>env. b = Payload env \<and> hr_post r \<and> authentic h s r env \<and> le_EnvelopeID lease = ev_EnvelopeID env \<and>
           (le_Accepted lease \<longleftrightarrow> grantable s ck env) \<and> VerifyLeaseSignature h lease (agent_key h s) = None \<and>
           GetLease s' (le_LeaseID lease) = Some lease \<and> map_get (sv_leaseEnvelopes s') (ev_EnvelopeID env) = Some env \<and>
           sv_chain s' = sv_chain s"
proof -
  obtain env where a: "admit h s r (case b of NoPayload \<Rightarrow> BadPayload | _ \<Rightarrow> b) = Inr env"
    and l: "SignLease h (lease_for s ck now1 now2 env) (sv_signer s) = (None, lease)"
    and s': "s' = s\<lparr>sv_leases := map_put (sv_leases s) (le_LeaseID lease) lease,
                    sv_leaseEnvelopes := map_put (sv_leaseEnvelopes s) (ev_EnvelopeID env) env\<rparr>"
    using assms(2) unfolding handleCreateLease_def by (auto split: sum.splits prod.splits option.splits)
  have b: "b = Payload env" "hr_post r" "authentic h s r env" using a by (auto simp: admit_iff split: body.splits)
  note e = SignLease_same [OF l] SignLease_verifies [OF assms(1) l]
  show ?thesis using b e s' by (simp add: lease_for_accepted agent_key_def GetLease_def) (simp add: lease_for_def Let_def)
qed

section \<open>Reaping\<close>

definition leases_ok :: "AgentServer \<Rightarrow> bool" where
  "leases_ok s \<longleftrightarrow> wf_map (sv_leases s) \<and> list_all (\<lambda>(k, l). le_LeaseID l = k) (sv_leases s)"

lemma leases_ok_get: "leases_ok s \<Longrightarrow> GetLease s i = Some l \<Longrightarrow> le_LeaseID l = i"
  unfolding leases_ok_def GetLease_def using wf_map_all [of "sv_leases s" "\<lambda>k l. le_LeaseID l = k"] by blast

lemma leases_ok_put:
  "leases_ok s \<Longrightarrow> leases_ok (s\<lparr>sv_leases := map_put (sv_leases s) (le_LeaseID l) l, sv_leaseEnvelopes := es\<rparr>)"
  unfolding leases_ok_def using wf_map_all [of "sv_leases s" "\<lambda>k l. le_LeaseID l = k"] by (auto simp: wf_map_all)

lemma leases_ok_chain [simp]: "leases_ok (s\<lparr>sv_chain := t\<rparr>) = leases_ok s" "leases_ok (s\<lparr>sv_keys := ks\<rparr>) = leases_ok s"
  by (simp_all add: leases_ok_def)

definition seen_expired :: "expiredLease list \<Rightarrow> string \<Rightarrow> Lease \<Rightarrow> bool" where
  "seen_expired snaps i l \<longleftrightarrow> list_ex (\<lambda>sn. xl_leaseID sn = i \<and> xl_expiresAt sn = le_ExpiresAt l) snaps"

lemma confirm_leases_exact:
  "GetLease (fst (confirm_leases snaps s)) i = Some l \<longleftrightarrow> GetLease s i = Some l \<and> \<not> seen_expired snaps i l"
proof (induction snaps arbitrary: s)
  case (Cons sn snaps)
  let ?del = "\<lambda>es. s\<lparr>sv_leases := map_del (sv_leases s) (xl_leaseID sn), sv_leaseEnvelopes := es\<rparr>"
  show ?case
  proof (cases "\<exists>k. map_get (sv_leases s) (xl_leaseID sn) = Some k \<and> le_ExpiresAt k = xl_expiresAt sn")
    case True
    then obtain k where k: "map_get (sv_leases s) (xl_leaseID sn) = Some k" "le_ExpiresAt k = xl_expiresAt sn" by blast
    define es where "es = (if xl_envelopeID sn \<noteq> [] then map_del (sv_leaseEnvelopes s) (xl_envelopeID sn) else sv_leaseEnvelopes s)"
    have c: "fst (confirm_leases (sn # snaps) s) = fst (confirm_leases snaps (?del es))"
      using k by (simp add: Let_def es_def split: prod.split)
    have "GetLease (?del es) i = Some l \<longleftrightarrow> GetLease s i = Some l \<and> i \<noteq> xl_leaseID sn" by (auto simp: GetLease_def)
    then show ?thesis using k unfolding c Cons.IH by (auto simp: seen_expired_def GetLease_def)
  next
    case False
    then have c: "fst (confirm_leases (sn # snaps) s) = fst (confirm_leases snaps s)" by (auto split: option.split)
    have "\<not> (xl_leaseID sn = i \<and> xl_expiresAt sn = le_ExpiresAt l)" if "GetLease s i = Some l"
      using False that by (auto simp: GetLease_def)
    then show ?thesis unfolding c Cons.IH by (auto simp: seen_expired_def)
  qed
qed (simp add: seen_expired_def)

lemma timeout_leases [simp]: "sv_leases (snd (emitSettlementTimeout h s te env)) = sv_leases s"
  unfolding emitSettlementTimeout_def by (simp add: Let_def split: option.split sum.split prod.split)

lemma emit_timeouts_leases: "sv_leases (snd (emit_timeouts h tes envs s)) = sv_leases s"
proof (induction h tes envs s rule: emit_timeouts.induct)
  case (1 h te tes env envs s)
  obtain res s' where e: "emitSettlementTimeout h s te env = (res, s')" by fastforce
  have s': "sv_leases s' = sv_leases s" using timeout_leases [of h s te env] e by simp
  show ?case
  proof (cases res)
    case (Inr r)
    then show ?thesis using 1 e s' by (cases r) (auto split: prod.split)
  qed (use 1 e s' in simp)
qed simp_all

lemma seen_snapshot:
  assumes "leases_ok s"
  shows "seen_expired (snapshotExpiredLeases s now) i l \<longleftrightarrow>
           (\<exists>l0. GetLease s i = Some l0 \<and> le_ExpiresAt l0 \<le> now \<and> le_ExpiresAt l0 = le_ExpiresAt l)"
proof -
  have get: "GetLease s k = Some m \<longleftrightarrow> (k, m) \<in> set (sv_leases s)" for k m
    unfolding GetLease_def by (rule wf_map_get_iff) (use assms in \<open>simp add: leases_ok_def\<close>)
  have "le_LeaseID m = k" if "(k, m) \<in> set (sv_leases s)" for k m
    using leases_ok_get [OF assms] get that by blast
  then show ?thesis by (force simp: seen_expired_def snapshotExpiredLeases_def list_ex_iff get)
qed

text \<open>C16. The reaper removes exactly the leases it saw expired and that still carry the expiry it saw: between its scan (state
  \<open>s0\<close>) and its confirmation (state \<open>s\<close>) leases may be added, renewed or removed; a lease survives unless the scan found a
  lease of that identifier expired with the same expiry. In particular a lease renewed in between survives.\<close>

theorem reaper_exact:
  assumes "leases_ok s0"
  shows "GetLease (snd (confirmAndEmit h tes (snapshotExpiredLeases s0 now) s)) i = Some l \<longleftrightarrow>
           GetLease s i = Some l \<and>
           \<not> (\<exists>l0. GetLease s0 i = Some l0 \<and> le_ExpiresAt l0 \<le> now \<and> le_ExpiresAt l0 = le_ExpiresAt l)"
proof -
  obtain s1 toEmit where c: "confirm_leases (snapshotExpiredLeases s0 now) s = (s1, toEmit)" by fastforce
  have "sv_leases (snd (confirmAndEmit h tes (snapshotExpiredLeases s0 now) s)) = sv_leases s1"
    using emit_timeouts_leases [of h "map tes [0..<length toEmit]" toEmit s1] c by (auto simp: confirmAndEmit_def split: prod.split)
  then have "GetLease (snd (confirmAndEmit h tes (snapshotExpiredLeases s0 now) s)) i =
      GetLease (fst (confirm_leases (snapshotExpiredLeases s0 now) s)) i" using c by (simp add: GetLease_def)
  then show ?thesis using confirm_leases_exact seen_snapshot [OF assms] by metis
qed

section \<open>Timeouts are final\<close>

lemma timeout_recorded:
  assumes "chain_ok h (sv_chain s)" and "\<And>i. fair_env h (te_attempts te i)"
    and "emitSettlementTimeout h s te (Some env) = (Inr (Some rec), s')"
  shows "chain_ok h (sv_chain s') \<and> ledger_lookup (sv_chain s') (ev_EnvelopeID env) = Some rec"
proof (cases "GetReceiptByContractID (sv_chain s) (ev_EnvelopeID env)")
  case (Inr q)
  then show ?thesis using assms(1,3) by (auto simp: emitSettlementTimeout_def ledger_lookup_def split: if_splits)
next
  case (Inl x)
  obtain hash where hash: "(if ev_EnvelopeHash env = [] then ComputeEnvelopeHash h env else Inr (ev_EnvelopeHash env)) = Inr hash"
    using assms(3) Inl
    by (cases "if ev_EnvelopeHash env = [] then ComputeEnvelopeHash h env else Inr (ev_EnvelopeHash env)")
      (auto simp: emitSettlementTimeout_def split: if_splits)
  let ?cfg = "\<lparr>ac_EmitterAgentID = ev_EmitterAgentID env, ac_ExecutorAgentID = ag_AgentID (sv_config s),
    ac_Signer = Some (sv_signer s), ac_MaxAttempts = 0\<rparr>"
  let ?at = "\<lambda>i. (te_attempts te i)\<lparr>at_build := Some (timeout_receipt env hash)\<rparr>"
  obtain r t where s: "SignAndSaveReceipt h ?cfg ?at (sv_chain s) = (r, t)" by fastforce
  have k: "chain_ok h t \<and> (\<forall>saved. r = Inr saved \<longrightarrow> rc_ContractID saved = ev_EnvelopeID env \<and> ledger_lookup t (ev_EnvelopeID env) = Some saved)"
    by (rule append_loop_saved [OF assms(1)])
      (use s assms(2) in \<open>auto simp: SignAndSaveReceipt_def list_all_iff timeout_receipt_def\<close>)
  show ?thesis
  proof (cases r)
    case (Inr saved)
    then show ?thesis using assms(3) Inl hash s k by (auto simp: emitSettlementTimeout_def Let_def split: if_splits)
  next
    case (Inl e)
    then show ?thesis using assms(3) \<open>GetReceiptByContractID (sv_chain s) (ev_EnvelopeID env) = Inl x\<close> hash s k
      by (auto simp: emitSettlementTimeout_def ledger_lookup_def Let_def split: if_splits sum.splits)
  qed
qed

lemma ledger_lookup_get: "ledger_lookup t c = Some r \<Longrightarrow> GetReceiptByContractID t c = Inr r"
  by (auto simp: ledger_lookup_def split: sum.splits)

lemma handleSettle_receipt:
  assumes "handleSettle h se te now s r (Payload env) leaseID = (Inr rec, s')"
  obtains "emitSettlementTimeout h s te (Some env) = (Inr (Some rec), s')"
  | used t n where "Settle h (sv_engine s) se \<lparr>si_Envelope = env, si_EmitterAgentID = ev_EmitterAgentID env,
        si_ExecutorAgentID = ag_AgentID (sv_config s)\<rparr> (sv_chain s, 0) = (Inr (rec, used), t, n)"
      "s' = s\<lparr>sv_chain := t\<rparr>"
proof -
  let ?set = "Settle h (sv_engine s) se \<lparr>si_Envelope = env, si_EmitterAgentID = ev_EmitterAgentID env,
        si_ExecutorAgentID = ag_AgentID (sv_config s)\<rparr> (sv_chain s, 0)"
  have a: "admit h s r (Payload env) = Inr env"
  proof (cases "admit h s r (Payload env)")
    case (Inr e)
    then show ?thesis by (simp add: admit_iff)
  qed (use assms in \<open>simp add: handleSettle_def\<close>)
  have c: "checkCapabilities s (ev_Capabilities env) = None"
    using assms unfolding handleSettle_def a sum.case by (cases "checkCapabilities s (ev_Capabilities env)") simp_all
  obtain res n t m where e: "emitSettlementTimeout h s te (Some env) = (res, n)" by fastforce
  obtain res' t m where st: "?set = (res', t, m)" by (metis prod_cases3)
  have "(Inr rec, s') \<in> {(Inl x, s) | x. True} \<union>
      {case (res, n) of (Inr (Some rec), s') \<Rightarrow> (Inr rec, s') | (Inr None, s') \<Rightarrow> (Inl StoreFailed, s') | (Inl x, s') \<Rightarrow> (Inl (TimeoutFailed x), s')} \<union>
      {case (res', t, m) of (Inl x, t, _) \<Rightarrow> (Inl (SettlementFailed x), s\<lparr>sv_chain := t\<rparr>) | (Inr (rec, _), t, _) \<Rightarrow> (Inr rec, s\<lparr>sv_chain := t\<rparr>)}"
    using assms unfolding handleSettle_def a sum.case c option.case Let_def e st by (simp split: if_splits)
  then consider "res = Inr (Some rec)" "n = s'" | used where "res' = Inr (rec, used)" "s' = s\<lparr>sv_chain := t\<rparr>"
    by (cases res; cases res') (auto split: option.splits)
  then show thesis using that e st by cases auto
qed

lemma settled_answer:
  assumes "ledger_lookup (sv_chain s) (ev_EnvelopeID env) = Some rec"
    and "handleSettle h se te now s r (Payload env) leaseID = (Inr rec', s')"
  shows "rec' = rec \<and> sv_chain s' = sv_chain s"
  using assms(2)
proof (cases rule: handleSettle_receipt)
  case 1
  then show ?thesis using ledger_lookup_get [OF assms(1)] by (simp add: emitSettlementTimeout_def split: if_splits)
next
  case (2 used t n)
  then show ?thesis using ledger_lookup_get [OF assms(1)]
    by (auto simp: Settle_def Let_def split: sum.splits if_splits)
qed

text \<open>C15. A timeout is final: once a timeout was emitted for a contract (by the reaper or by a late \<open>/settle\<close>), and whatever
  receipts others save afterwards, every later \<open>/settle\<close> of the contract that answers with a receipt answers with that one
  and adds nothing to the chain, on any later state of the server, under any lease and whatever the assertions would say.\<close>

theorem timeout_final:
  assumes "chain_ok h (sv_chain s)" and "\<And>i. fair_env h (te_attempts te i)"
    and "emitSettlementTimeout h s te (Some env) = (Inr (Some rec), s')"
    and "sv_chain s2 = save_all h calls (sv_chain s')" and "ev_EnvelopeID env' = ev_EnvelopeID env"
    and "handleSettle h se te' now s2 r (Payload env') leaseID = (Inr rec', s3)"
  shows "rec' = rec \<and> sv_chain s3 = sv_chain s2"
proof -
  have "chain_ok h (sv_chain s')" "ledger_lookup (sv_chain s') (ev_EnvelopeID env) = Some rec"
    using timeout_recorded [OF assms(1-3)] by auto
  then have "ledger_lookup (sv_chain s2) (ev_EnvelopeID env') = Some rec"
    using receipts.adds_kept assms(4,5) by (simp add: adds_save_all)
  then show ?thesis by (rule settled_answer [OF _ assms(6)])
qed

section \<open>Endpoints that promise more than they do\<close>

text \<open>A precondition on a free port never passes: its port is read as 0.\<close>

lemma port_precondition_fails: "pc_Type p = ''port_available'' \<Longrightarrow> \<not> fst (check_precondition s ck p)"
  by (simp add: check_precondition_def PortParams_def)

text \<open>A settlement that names an unknown lease, or an accepted lease of another contract, runs as if it named none.\<close>

lemma lease_not_required:
  assumes "GetLease s i = None \<or> (\<exists>l. GetLease s i = Some l \<and> le_Accepted l \<and> le_EnvelopeID l \<noteq> ev_EnvelopeID env)"
  shows "handleSettle h se te now s r (Payload env) i = handleSettle h se te now s r (Payload env) []"
proof (cases "admit h s r (Payload env)")
  case (Inr e)
  then have "e = env" by (simp add: admit_iff)
  then show ?thesis using Inr assms unfolding handleSettle_def
    by (cases "checkCapabilities s (ev_Capabilities env)") (auto simp: lease_expired_def Let_def)
qed (simp add: handleSettle_def)

text \<open>\<open>/verify\<close> compares the link of a receipt with the link of its predecessor: the second receipt of a good chain fails.\<close>

lemma second_receipt_rejected:
  assumes "linked h [] (c0 # c1 # cs)" and "\<And>x. gh_sha h x \<noteq> []" and "rc_ReceiptID c0 \<noteq> rc_ReceiptID c1"
  shows "check_in_chain (c0 # c1 # cs) c1 = (False, [WrongPrevious 1 [] (gh_sha h (rc_ExecutorSignature c0))])"
  using assms by (simp add: check_in_chain_def)

text \<open>The summary of \<open>/verify-chain\<close> does not depend on the emitter's key, decisions or sequence numbers.\<close>

lemma summary_ignores_decisions:
  "chain_entry_valid (verify_receipt h xk ek i prev r) \<longleftrightarrow>
     rc_PreviousReceiptHash r = previous_hash h prev \<and> check_executor h xk r = NoteNone"
  by (auto simp: chain_entry_valid_def verify_receipt_def Let_def check_link_def previous_hash_def split: option.splits)

text \<open>An acceptance signed by the emitter replaces a dispute (\<open>handleDispute\<close> refuses the converse).\<close>

lemma accept_replaces_dispute:
  assumes "hr_post r" and "decision_payload False q = Inr rec" and "stored_receipt s d r rec = Inr stored"
    and "rc_EmitterAcceptance stored = AcceptanceDisputed" and "ValidateReceipt stored = None"
    and "VerifyExecutorSignature h stored (agent_key h s) = None"
    and "verifyEmitterReceiptSignature h s stored (dq_Signature q) AcceptanceAccepted [] = None"
    and "dr_io d = NoFault" and "dr_between d = id" and "rc_ReceiptID stored = rc_ReceiptID rec"
  shows "\<exists>s'. handleAccept h d s r q = (Inr (decided stored AcceptanceAccepted [] (dq_Signature q) (Some (dr_now d))), s')"
proof -
  obtain row where row: "row \<in> set (sv_chain s)" "rr_receipt_id row = rc_ReceiptID rec"
    using stored_receipt_ok [OF assms(3)] unfolding GetReceipt_def by (auto simp: find_Some_iff split: option.splits) (metis nth_mem)
  let ?r = "decided stored AcceptanceAccepted [] (dq_Signature q) (Some (dr_now d))"
  have v: "ValidateReceipt ?r = None" using assms(5) by (simp add: ValidateReceipt_def decided_def split: if_splits)
  then have ne: "rc_ReceiptID ?r \<noteq> []" "rc_ContractID ?r \<noteq> []" by (auto simp: ValidateReceipt_def split: if_splits)
  have "fst (UpdateReceipt NoFault (sv_chain s) ?r) = None"
    using v ne row assms(10) by (auto simp: UpdateReceipt_def list_ex_iff)
  then obtain t where "UpdateReceipt NoFault (sv_chain s) ?r = (None, t)" by (metis prod.collapse)
  then show ?thesis using assms by (simp add: handleAccept_def record_decision_def decided_eq Let_def agent_key_def)
qed

section \<open>Witnesses\<close>

definition sample_order :: CognitiveTaskEnvelope where
  "sample_order = snd (SignEnvelope sample_host sample_envelope sample_signer)"

definition sample_server :: AgentServer where
  "sample_server = RegisterAgentKey sample_agent ''a'' (sample_keys ''a'')"

lemma sample_server_fields:
  "sv_config sample_server = sample_config" "map_get (sv_keys sample_server) ''a'' = Some (PublicKey sample_ed sample_signer)"
  "sv_signer sample_server = sample_signer" "sv_chain sample_server = sample_table" "sv_leases sample_server = []"
  by (simp_all add: sample_server_def sample_agent_def NewServer_def NewEngine_def RegisterAgentKey_def sample_config_def
      sample_keys_def)

lemma sample_order_fields: "\<exists>x y. sample_order = sample_envelope\<lparr>ev_EnvelopeHash := x, ev_EmitterSignature := y\<rparr>"
proof -
  have "SignEnvelope sample_host sample_envelope sample_signer = (None, sample_order)"
    using sample_signs(1) by (simp add: sample_order_def prod_eq_iff)
  then show ?thesis by (auto simp: SignEnvelope_def Let_def split: option.splits sum.splits) metis
qed

lemma sample_order_simps:
  "ev_EmitterAgentID sample_order = ''a''" "ev_MeshID sample_order = ''m''" "ev_EnvelopeID sample_order = ''e1''"
  "ev_Capabilities sample_order = [''net'']" "ev_Preconditions sample_order = None" "ev_TimeoutSeconds sample_order = 60"
  "ev_ExecutorAgentID sample_order = ''b''"
proof -
  obtain x y where o: "sample_order = sample_envelope\<lparr>ev_EnvelopeHash := x, ev_EmitterSignature := y\<rparr>" using sample_order_fields by blast
  show "ev_EmitterAgentID sample_order = ''a''" "ev_MeshID sample_order = ''m''" "ev_EnvelopeID sample_order = ''e1''"
    "ev_Capabilities sample_order = [''net'']" "ev_Preconditions sample_order = None" "ev_TimeoutSeconds sample_order = 60"
    "ev_ExecutorAgentID sample_order = ''b''"
    unfolding o by (simp_all add: sample_envelope_def)
qed

lemma sample_order_verifies: "VerifyEnvelopeSignature sample_host sample_order (PublicKey sample_ed sample_signer) = None"
  using signed_contracts_verify_witness by (simp add: sample_order_def)

lemma sample_authentic:
  assumes "sv_config s = sample_config" and "map_get (sv_keys s) ''a'' = Some (PublicKey sample_ed sample_signer)"
  shows "authentic sample_host s sample_request sample_order"
proof -
  have "Validate sample_host sample_order = None"
    using sample_order_verifies by (auto simp: VerifyEnvelopeSignature_def split: if_splits option.splits)
  then show ?thesis using assms sample_order_verifies
    by (simp add: authentic_def sample_order_simps sample_config_def verifyMTLSIdentity_def sample_request_def)
qed

definition sample_check :: check_host where
  "sample_check = \<lparr>ck_tool = (\<lambda>_. True), ck_run = (\<lambda>_. 0), ck_gitConfig = GitExit 1, ck_environ = [],
     ck_git = (\<lambda>_. None), ck_port = (\<lambda>_. True), ck_faultText = (\<lambda>_. []), ck_planText = (\<lambda>_. [])\<rparr>"

definition sample_grant :: Lease where
  "sample_grant = lease_for sample_server sample_check 7 8 sample_order"

lemma sample_grant_eq:
  "sample_grant = \<lparr>le_ProtocolVersion = ''2'', le_MeshID = ''m'', le_LeaseID = ''lease-7'', le_EnvelopeID = ''e1'',
     le_ExecutorAgentID = ''b'', le_Accepted = True, le_PreconditionResults = [], le_RejectionReason = [],
     le_ExpiresAt = 60000000008, le_ExecutorSignature = []\<rparr>"
proof -
  have c: "checkCapabilities sample_server [''net''] = None"
    by (simp add: checkCapabilities_None sample_server_fields sample_config_def)
  have "wrap64 (nanos 60) = 60000000000" by (simp add: wrap64_def nanos_def)
  moreover have "decimal 7 = ''7''" by code_simp
  ultimately show ?thesis using c
    by (simp add: sample_grant_def lease_for_def Let_def sample_order_simps sample_server_fields sample_config_def
        preconditions_of_def runPreconditions_def CurrentProtocolVersion_def)
qed

lemma sample_grant_signs: "fst (SignLease sample_host sample_grant sample_signer) = None"
proof (rule SignLease_total)
  show "ValidateLease sample_grant = None" unfolding sample_grant_eq by code_simp
  show "encodable (gh_numbers sample_host) (lease_json sample_host (sample_grant\<lparr>le_ExecutorSignature := []\<rparr>))"
    by (simp add: sample_grant_eq sample_host_def lease_json_def decimal_def nat_digits.simps byte_def omit_str_def omit_list_def)
qed

theorem lease_granted_witness:
  "\<exists>lease s'. handleCreateLease sample_host sample_check 7 8 sample_server sample_request (Payload sample_order) = (Inr lease, s') \<and>
     le_Accepted lease \<and> GetLease s' (le_LeaseID lease) = Some lease"
proof -
  have a: "admit sample_host sample_server sample_request (Payload sample_order) = Inr sample_order"
    using sample_authentic sample_server_fields by (simp add: admit_iff sample_request_def)
  obtain l where l: "SignLease sample_host sample_grant sample_signer = (None, l)" using sample_grant_signs by (metis prod.collapse)
  obtain s' where h: "handleCreateLease sample_host sample_check 7 8 sample_server sample_request (Payload sample_order) = (Inr l, s')"
    using a l by (simp add: handleCreateLease_def sample_grant_def sample_server_fields)
  have "grantable sample_server sample_check sample_order"
    using sample_grant_eq lease_for_accepted by (metis (no_types, lifting) Lease.select_convs(6) sample_grant_def)
  then show ?thesis using lease_granted [OF _ h] sample_ed_ok h by auto
qed

definition sample_timeout :: timeout_env where
  "sample_timeout = \<lparr>te_lookup_fails = False, te_attempts = (\<lambda>_. sample_env), te_relookup_fails = False\<rparr>"

definition short_lease :: Lease where
  "short_lease = sample_lease\<lparr>le_LeaseID := ''l1''\<rparr>"

definition leased_server :: "int \<Rightarrow> AgentServer" where
  "leased_server e = sample_server\<lparr>sv_leases := [(''l1'', short_lease\<lparr>le_ExpiresAt := e\<rparr>)]\<rparr>"

text \<open>The lease expires at 9 and the reaper scans at 10: it goes, unless it was renewed to 90 before the confirmation.\<close>

theorem reaper_exact_witness:
  "GetLease (snd (confirmAndEmit sample_host (\<lambda>_. sample_timeout) (snapshotExpiredLeases (leased_server 9) 10) (leased_server 9))) ''l1'' = None \<and>
   GetLease (snd (confirmAndEmit sample_host (\<lambda>_. sample_timeout) (snapshotExpiredLeases (leased_server 9) 10) (leased_server 90))) ''l1'' =
     Some (short_lease\<lparr>le_ExpiresAt := 90\<rparr>)"
proof -
  have ok: "leases_ok (leased_server 9)" by (simp add: leases_ok_def leased_server_def wf_map_def short_lease_def)
  have g: "GetLease (leased_server e) ''l1'' = Some (short_lease\<lparr>le_ExpiresAt := e\<rparr>)" for e
    by (simp add: GetLease_def leased_server_def)
  have "GetLease (snd (confirmAndEmit sample_host (\<lambda>_. sample_timeout) (snapshotExpiredLeases (leased_server 9) 10) (leased_server 9))) ''l1'' \<noteq> Some l" for l
    using reaper_exact [OF ok, of sample_host "\<lambda>_. sample_timeout" 10 "leased_server 9" "''l1''" l] g by auto
  moreover have "GetLease (snd (confirmAndEmit sample_host (\<lambda>_. sample_timeout) (snapshotExpiredLeases (leased_server 9) 10) (leased_server 90))) ''l1'' =
      Some (short_lease\<lparr>le_ExpiresAt := 90\<rparr>)"
    using reaper_exact [OF ok, of sample_host "\<lambda>_. sample_timeout" 10 "leased_server 90" "''l1''"] g by simp
  ultimately show ?thesis by (auto simp: not_Some_eq [symmetric] simp del: not_Some_eq)
qed

text \<open>A timeout emitted on an empty chain, then a \<open>/settle\<close> for the same contract.\<close>

definition empty_server :: AgentServer where
  "empty_server = sample_server\<lparr>sv_chain := []\<rparr>"

definition late_order :: CognitiveTaskEnvelope where
  "late_order = sample_envelope\<lparr>ev_EnvelopeHash := ''x''\<rparr>"

definition late_receipt :: SettlementReceipt where
  "late_receipt = (timeout_receipt late_order ''x'')\<lparr>rc_ReceiptID := ''r1'', rc_EmitterAgentID := ''a'', rc_ExecutorAgentID := ''b''\<rparr>"

lemma late_receipt_signs: "\<exists>r. SignReceipt sample_host 7 late_receipt sample_signer = (None, r)"
proof -
  have "encodable bits_format (receipt_json sample_host (executor_view (late_receipt\<lparr>rc_ExecutorSignedAt := 7\<rparr>)))"
    by (simp add: late_receipt_def timeout_receipt_def late_order_def sample_envelope_def receipt_json_def receipt_members_def
        executor_view_def territory_json_def jslice_def sample_host_def decimal_def nat_digits.simps omit_str_def omit_int_def
        omit_list_def omit_time_def byte_def CurrentProtocolVersion_def)
  then have "fst (SignReceipt sample_host 7 late_receipt sample_signer) = None"
    using bits_format_ok by (intro SignReceipt_total) simp_all
  then show ?thesis by (metis prod.collapse)
qed

lemma late_timeout:
  "\<exists>rec s'. emitSettlementTimeout sample_host empty_server sample_timeout (Some late_order) = (Inr (Some rec), s') \<and>
     s' = empty_server\<lparr>sv_chain := sv_chain s'\<rparr> \<and> rc_Verdict rec = VerdictTimeout"
proof -
  let ?cfg = "\<lparr>ac_EmitterAgentID = ''a'', ac_ExecutorAgentID = ''b'', ac_Signer = Some sample_signer, ac_MaxAttempts = 0\<rparr>"
  obtain r where r: "SignReceipt sample_host 7 late_receipt sample_signer = (None, r)" using late_receipt_signs by blast
  note f = SignReceipt_placed [OF r]
  have v: "ValidateReceipt r = None" unfolding f(6) by (simp add: late_receipt_def timeout_receipt_def late_order_def sample_envelope_def) code_simp
  have "may_append sample_host [] r = None"
    using f by (simp add: may_append_def pair_rows_def chain_end_def late_receipt_def timeout_receipt_def)
  moreover have "pair_ok sample_host [] (rc_EmitterAgentID r) (rc_ExecutorAgentID r)" by (simp add: pair_ok_def pair_rows_def)
  ultimately have s: "SaveReceipt sample_host NoFault [] r = (None, appended [] r, append_row [] r)"
    using SaveReceipt_eq [of sample_host "[]" r NoFault] v by (simp add: prod_eq_iff)
  have p: "place_receipt sample_host ?cfg ''r1'' [] (timeout_receipt late_order ''x'') = late_receipt"
    by (simp add: place_receipt_def GetLastReceipt_def chain_rows_def pair_rows_def late_receipt_def timeout_receipt_def)
  have upt: "[0..<nat (append_attempts ?cfg)] = 0 # [Suc 0..<10]"
    by (simp add: append_attempts_def DefaultAppendMaxAttempts_def upt_conv_Cons)
  have "SignAndSaveReceipt sample_host ?cfg (\<lambda>i. (te_attempts sample_timeout i)\<lparr>at_build := Some (timeout_receipt late_order ''x'')\<rparr>) [] =
      (Inr (appended [] r), append_row [] r)"
    using r s p unfolding SignAndSaveReceipt_def by (simp add: upt append_attempt_def sample_timeout_def sample_env_def)
  then have "emitSettlementTimeout sample_host empty_server sample_timeout (Some late_order) =
      (Inr (Some (appended [] r)), empty_server\<lparr>sv_chain := append_row [] r\<rparr>)"
    by (simp add: emitSettlementTimeout_def sample_timeout_def empty_server_def GetReceiptByContractID_def sample_server_fields
        sample_config_def late_order_def sample_envelope_def)
  moreover have "rc_Verdict (appended [] r) = VerdictTimeout"
    using r by (auto simp: SignReceipt_def Let_def appended_def late_receipt_def timeout_receipt_def split: option.splits sum.splits)
  ultimately show ?thesis by simp
qed

theorem timeout_final_witness:
  "\<exists>rec s' s3. emitSettlementTimeout sample_host empty_server sample_timeout (Some late_order) = (Inr (Some rec), s') \<and>
     rc_Verdict rec = VerdictTimeout \<and>
     handleSettle sample_host sample_settle_env sample_timeout 5 s' sample_request (Payload sample_order) [] = (Inr rec, s3)"
proof -
  let ?h = sample_host
  obtain rec s' where e: "emitSettlementTimeout ?h empty_server sample_timeout (Some late_order) = (Inr (Some rec), s')"
    "s' = empty_server\<lparr>sv_chain := sv_chain s'\<rparr>" "rc_Verdict rec = VerdictTimeout" using late_timeout by blast
  have c: "chain_ok ?h (sv_chain empty_server)" and fair: "\<And>i. fair_env ?h (te_attempts sample_timeout i)"
    by (simp_all add: empty_server_def sample_timeout_def fair_env_def sample_env_def keeps_chain_def)
  have id: "ev_EnvelopeID sample_order = ev_EnvelopeID late_order" by (simp add: sample_order_simps late_order_def sample_envelope_def)
  have l: "ledger_lookup (sv_chain s') ''e1'' = Some rec"
    using timeout_recorded [OF c fair e(1)] id by (simp add: sample_order_simps)
  have s': "sv_config s' = sample_config" "sv_keys s' = sv_keys sample_server" using e(2) sample_server_fields
    by (metis AgentServer.ext_inject AgentServer.surjective AgentServer.update_convs(7) empty_server_def)+
  have a: "admit ?h s' sample_request (Payload sample_order) = Inr sample_order"
    using sample_authentic s' sample_server_fields by (simp add: admit_iff sample_request_def)
  have cap: "checkCapabilities s' (ev_Capabilities sample_order) = None"
    by (simp add: checkCapabilities_None s' sample_order_simps sample_config_def)
  obtain x where "ComputeEnvelopeHash ?h sample_order = Inr x" "ev_EnvelopeHash sample_order = x" "Validate ?h sample_order = None"
    using sample_order_verifies by (auto simp: VerifyEnvelopeSignature_def split: if_splits option.splits sum.splits)
  then have g: "settle_guard ?h \<lparr>si_Envelope = sample_order, si_EmitterAgentID = ''a'', si_ExecutorAgentID = ''b''\<rparr> = Inr x"
    by (simp add: settle_guard_def sample_order_simps)
  have "\<exists>s3. handleSettle ?h sample_settle_env sample_timeout 5 s' sample_request (Payload sample_order) [] = (Inr rec, s3)"
    using a cap g ledger_lookup_get [OF l] s'(1)
    by (simp add: handleSettle_def Settle_def Let_def sample_order_simps sample_config_def sample_settle_env_def)
  then obtain s3 where h: "handleSettle ?h sample_settle_env sample_timeout 5 s' sample_request (Payload sample_order) [] = (Inr rec, s3)"
    by blast
  have "sv_chain s' = save_all ?h [] (sv_chain s')" by simp
  from timeout_final [OF c fair e(1) this id h] show ?thesis using e h by blast
qed

end
