(* ===== verification/Token_Store.thy ===== *)
theory Token_Store
  imports Go_Base
begin

text \<open>
  Enrollment tokens (\<open>pkg/server/store/tokenstore.go\<close>): the table \<open>enrollment_tokens\<close> as the list of its rows in insertion
  order, and the statements of the store. Columns hold seconds. Each call is one step (the store holds its write mutex);
  what goes wrong in it is a \<open>store_io\<close>: the context is done, a write fails, or the read after the write fails.
\<close>

section \<open>Rows and records\<close>

record TokenRecord =
  tk_Token :: string
  tk_CreatedAt :: int
  tk_ExpiresAt :: "int option"
  tk_UsedAt :: "int option"
  tk_UsedBy :: "string option"
  tk_RevokedAt :: "int option"
  tk_MaxUses :: int
  tk_Uses :: int

record token_row =
  tr_token :: string
  tr_created_at :: int
  tr_expires_at :: "int option"
  tr_used_at :: "int option"
  tr_used_by :: "string option"
  tr_revoked_at :: "int option"
  tr_max_uses :: int
  tr_uses :: int

record TokenStore =
  ts_rows :: "token_row list"
  ts_closed :: bool

datatype store_io = IoOk | IoCancelled | IoWrite | IoRead

datatype token_error =
  TokenContext | TokenNil | TokenEmpty | TokenClosed | TokenDatabase store_io | TokenNotFound | TokenRevoked | TokenExpired
  | TokenMaxUses

definition row_token :: "token_row \<Rightarrow> TokenRecord" where
  "row_token r =
     \<lparr>tk_Token = tr_token r, tk_CreatedAt = nanos (tr_created_at r), tk_ExpiresAt = map_option nanos (tr_expires_at r),
      tk_UsedAt = map_option nanos (tr_used_at r), tk_UsedBy = tr_used_by r,
      tk_RevokedAt = map_option nanos (tr_revoked_at r), tk_MaxUses = tr_max_uses r, tk_Uses = tr_uses r\<rparr>"

definition find_token :: "TokenStore \<Rightarrow> string \<Rightarrow> token_row option" where
  "find_token s token = find (\<lambda>r. tr_token r = token) (ts_rows s)"

definition update_token :: "string \<Rightarrow> (token_row \<Rightarrow> token_row) \<Rightarrow> TokenStore \<Rightarrow> TokenStore" where
  "update_token token f s = s\<lparr>ts_rows := map (\<lambda>r. if tr_token r = token then f r else r) (ts_rows s)\<rparr>"

section \<open>Operations\<close>

definition CreateToken :: "store_io \<Rightarrow> TokenStore \<Rightarrow> TokenRecord option \<Rightarrow> token_error option \<times> TokenStore" where
  "CreateToken io s token =
     (if io = IoCancelled then (Some TokenContext, s)
      else case token of
             None \<Rightarrow> (Some TokenNil, s)
           | Some t \<Rightarrow>
               if tk_Token t = [] then (Some TokenEmpty, s)
               else if ts_closed s then (Some TokenClosed, s)
               else if io = IoWrite \<or> find_token s (tk_Token t) \<noteq> None then (Some (TokenDatabase IoWrite), s)
               else (None, s\<lparr>ts_rows := ts_rows s @
                      [\<lparr>tr_token = tk_Token t, tr_created_at = unix (tk_CreatedAt t),
                        tr_expires_at = map_option unix (tk_ExpiresAt t), tr_used_at = None, tr_used_by = None,
                        tr_revoked_at = None, tr_max_uses = tk_MaxUses t, tr_uses = 0\<rparr>]\<rparr>))"

definition GetToken :: "store_io \<Rightarrow> TokenStore \<Rightarrow> string \<Rightarrow> token_error + TokenRecord option" where
  "GetToken io s token =
     (if io = IoCancelled then Inl TokenContext
      else if ts_closed s then Inl TokenClosed
      else if io = IoRead then Inl (TokenDatabase io)
      else Inr (map_option row_token (find_token s token)))"

text \<open>The condition of the \<open>UPDATE\<close> of \<open>UseToken\<close> and what it sets; \<open>now\<close> is in seconds.\<close>

definition consumable :: "int \<Rightarrow> token_row \<Rightarrow> bool" where
  "consumable now r \<longleftrightarrow>
     tr_uses r < tr_max_uses r \<and> tr_revoked_at r = None \<and> (case tr_expires_at r of None \<Rightarrow> True | Some e \<Rightarrow> now \<le> e)"

definition add_user :: "string \<Rightarrow> string option \<Rightarrow> string option" where
  "add_user nodeID usedBy =
     (if nodeID = [] then usedBy
      else case usedBy of
             None \<Rightarrow> Some nodeID
           | Some u \<Rightarrow> if u = [] then Some nodeID else Some (u @ '','' @ nodeID))"

definition consume :: "int \<Rightarrow> string \<Rightarrow> token_row \<Rightarrow> token_row" where
  "consume now nodeID r =
     (if consumable now r
      then r\<lparr>tr_uses := tr_uses r + 1, tr_used_at := Some now, tr_used_by := add_user nodeID (tr_used_by r)\<rparr> else r)"

text \<open>The clock is read twice: for the statement and, if nothing was consumed, for the choice of the error.\<close>

definition UseToken ::
  "store_io \<Rightarrow> int \<Rightarrow> int \<Rightarrow> TokenStore \<Rightarrow> string \<Rightarrow> string \<Rightarrow> (token_error + TokenRecord) \<times> TokenStore" where
  "UseToken io now later s token nodeID =
     (if io = IoCancelled then (Inl TokenContext, s)
      else if ts_closed s then (Inl TokenClosed, s)
      else if io = IoWrite then (Inl (TokenDatabase io), s)
      else
        let s' = update_token token (consume (unix now) nodeID) s in
        if io = IoRead then (Inl (TokenDatabase io), s')
        else case find_token s token of
               None \<Rightarrow> (Inl TokenNotFound, s')
             | Some r \<Rightarrow>
                 if consumable (unix now) r then (Inr (row_token (consume (unix now) nodeID r)), s')
                 else if tr_revoked_at r \<noteq> None then (Inl TokenRevoked, s')
                 else if (case tr_expires_at r of None \<Rightarrow> False | Some e \<Rightarrow> nanos e < later) then (Inl TokenExpired, s')
                 else (Inl TokenMaxUses, s'))"

definition revoke_row :: "int \<Rightarrow> token_row \<Rightarrow> token_row" where
  "revoke_row now r = r\<lparr>tr_revoked_at := (case tr_revoked_at r of None \<Rightarrow> Some now | Some t \<Rightarrow> Some t)\<rparr>"

definition RevokeToken :: "store_io \<Rightarrow> int \<Rightarrow> TokenStore \<Rightarrow> string \<Rightarrow> (token_error + TokenRecord) \<times> TokenStore" where
  "RevokeToken io now s token =
     (if io = IoCancelled then (Inl TokenContext, s)
      else if ts_closed s then (Inl TokenClosed, s)
      else if io = IoWrite then (Inl (TokenDatabase io), s)
      else
        let s' = update_token token (revoke_row (unix now)) s in
        if io = IoRead then (Inl (TokenDatabase io), s')
        else case find_token s' token of
               None \<Rightarrow> (Inl TokenNotFound, s')
             | Some r \<Rightarrow> (Inr (row_token r), s'))"

definition DeleteToken :: "store_io \<Rightarrow> TokenStore \<Rightarrow> string \<Rightarrow> token_error option \<times> TokenStore" where
  "DeleteToken io s token =
     (if io = IoCancelled then (Some TokenContext, s)
      else if ts_closed s then (Some TokenClosed, s)
      else if io = IoWrite then (Some (TokenDatabase io), s)
      else (None, s\<lparr>ts_rows := filter (\<lambda>r. tr_token r \<noteq> token) (ts_rows s)\<rparr>))"

text \<open>Newest first; rows of the same second in the order of their insertion.\<close>

definition ListTokens :: "store_io \<Rightarrow> TokenStore \<Rightarrow> token_error + TokenRecord list" where
  "ListTokens io s =
     (if io = IoCancelled then Inl TokenContext
      else if ts_closed s then Inl TokenClosed
      else if io = IoRead then Inl (TokenDatabase io)
      else Inr (map row_token (sort_key (\<lambda>r. - tr_created_at r) (ts_rows s))))"

definition CloseTokens :: "TokenStore \<Rightarrow> TokenStore" where
  "CloseTokens s = s\<lparr>ts_closed := True\<rparr>"

section \<open>Runs\<close>

datatype token_call =
  CallCreate store_io "TokenRecord option" | CallUse store_io int int string string | CallRevoke store_io int string
  | CallDelete store_io string | CallClose

fun token_step :: "TokenStore \<Rightarrow> token_call \<Rightarrow> TokenStore" where
  "token_step s (CallCreate io t) = snd (CreateToken io s t)"
| "token_step s (CallUse io now later token nodeID) = snd (UseToken io now later s token nodeID)"
| "token_step s (CallRevoke io now token) = snd (RevokeToken io now s token)"
| "token_step s (CallDelete io token) = snd (DeleteToken io s token)"
| "token_step s CallClose = CloseTokens s"

definition run_tokens :: "token_call list \<Rightarrow> TokenStore \<Rightarrow> TokenStore" where
  "run_tokens calls s = foldl token_step s calls"

text \<open>The nodes whose calls were answered with the token, in order.\<close>

fun admitted :: "string \<Rightarrow> token_call list \<Rightarrow> TokenStore \<Rightarrow> string list" where
  "admitted token [] s = []"
| "admitted token (c # cs) s =
     (case c of
        CallUse io now later k nodeID \<Rightarrow>
          (if k = token \<and> isl (fst (UseToken io now later s k nodeID)) = False then [nodeID] else [])
      | _ \<Rightarrow> []) @ admitted token cs (token_step s c)"

definition never_deleted :: "string \<Rightarrow> token_call list \<Rightarrow> bool" where
  "never_deleted token calls \<longleftrightarrow> list_all (\<lambda>c. case c of CallDelete io k \<Rightarrow> k \<noteq> token | _ \<Rightarrow> True) calls"

definition token_row_ok :: "token_row \<Rightarrow> bool" where
  "token_row_ok r \<longleftrightarrow> 0 \<le> tr_uses r \<and> tr_uses r \<le> max 0 (tr_max_uses r)"

definition tokens_ok :: "TokenStore \<Rightarrow> bool" where
  "tokens_ok s \<longleftrightarrow> distinct (map tr_token (ts_rows s)) \<and> list_all token_row_ok (ts_rows s)"

lemma token_row_ok_consume: "token_row_ok r \<Longrightarrow> token_row_ok (consume now nodeID r)"
  by (auto simp: token_row_ok_def consume_def consumable_def)

lemma consume_token [simp]: "tr_token (consume now nodeID r) = tr_token r" "tr_max_uses (consume now nodeID r) = tr_max_uses r"
  by (simp_all add: consume_def)

lemma revoke_row_simps [simp]: "tr_token (revoke_row now r) = tr_token r" "tr_uses (revoke_row now r) = tr_uses r"
  "tr_max_uses (revoke_row now r) = tr_max_uses r" "tr_revoked_at (revoke_row now r) \<noteq> None"
  by (simp_all add: revoke_row_def split: option.split)

lemma update_token_ok:
  assumes "tokens_ok s" and "\<And>r. token_row_ok r \<Longrightarrow> token_row_ok (f r)" and "\<And>r. tr_token (f r) = tr_token r"
  shows "tokens_ok (update_token token f s)"
proof -
  have "map tr_token (ts_rows (update_token token f s)) = map tr_token (ts_rows s)"
    using assms(3) by (simp add: update_token_def)
  moreover have "list_all token_row_ok (ts_rows (update_token token f s))"
    using assms(1,2) by (auto simp: tokens_ok_def update_token_def list_all_iff)
  ultimately show ?thesis using assms(1) unfolding tokens_ok_def by metis
qed

lemma CreateToken_ok: "tokens_ok s \<Longrightarrow> tokens_ok (snd (CreateToken io s t))"
  by (auto simp: CreateToken_def tokens_ok_def token_row_ok_def find_token_def find_None_iff split: option.split)

lemma use_token_state:
  "snd (UseToken io now later s token nodeID) \<in> {s, update_token token (consume (unix now) nodeID) s}"
  by (simp add: UseToken_def Let_def split: option.split)

lemma revoke_token_state: "snd (RevokeToken io now s token) \<in> {s, update_token token (revoke_row (unix now)) s}"
  by (simp add: RevokeToken_def Let_def split: option.split)

lemma token_step_ok: "tokens_ok s \<Longrightarrow> tokens_ok (token_step s c)"
proof (induction s c rule: token_step.induct)
  case (1 s io t)
  then show ?case by (simp add: CreateToken_ok)
next
  case (2 s io now later token nodeID)
  show ?case
    using use_token_state [of io now later s token nodeID] update_token_ok [OF 2, of "consume (unix now) nodeID"]
      token_row_ok_consume 2 by auto
next
  case (3 s io now token)
  have "token_row_ok (revoke_row now r)" if "token_row_ok r" for now r using that by (simp add: token_row_ok_def)
  then have "tokens_ok (update_token token (revoke_row (unix now)) s)" by (intro update_token_ok [OF 3]) simp_all
  then show ?case using revoke_token_state [of io now s token] 3 by auto
next
  case (4 s io token)
  then show ?case by (auto simp: DeleteToken_def tokens_ok_def list_all_iff distinct_map_filter)
qed (simp add: CloseTokens_def tokens_ok_def)

lemma find_token_update:
  assumes "\<And>r. tr_token (f r) = tr_token r"
  shows "find_token (update_token k f s) token = map_option (\<lambda>r. if k = token then f r else r) (find_token s token)"
proof -
  have "find (\<lambda>r. tr_token r = token) (map (\<lambda>r. if tr_token r = k then f r else r) rows) =
      map_option (\<lambda>r. if k = token then f r else r) (find (\<lambda>r. tr_token r = token) rows)" for rows
    using assms by (induction rows) auto
  then show ?thesis by (simp add: find_token_def update_token_def)
qed

text \<open>What one call does to the row of a token that is there and is not deleted.\<close>

lemma token_step_row:
  assumes "find_token s token = Some r" and "never_deleted token [c]"
  obtains r' where "find_token (token_step s c) token = Some r'" and "tr_max_uses r' = tr_max_uses r"
    and "int (length (admitted token [c] s)) + tr_uses r \<le> tr_uses r'"
    and "tr_revoked_at r \<noteq> None \<Longrightarrow> tr_revoked_at r' \<noteq> None \<and> admitted token [c] s = []"
proof (cases c)
  case (CallCreate io t)
  have "find_token (snd (CreateToken io s t)) token = Some r"
    using assms(1) by (auto simp: CreateToken_def find_token_def find_append split: option.split)
  then show ?thesis using that CallCreate by simp
next
  case (CallUse io now later k nodeID)
  let ?f = "consume (unix now) nodeID"
  have upd: "find_token (update_token k ?f s) token = Some (if k = token then ?f r else r)"
    using find_token_update [of ?f k s token] assms(1) by simp
  have grow: "tr_uses r \<le> tr_uses (?f r)" "tr_revoked_at (?f r) = tr_revoked_at r"
    "consumable (unix now) r \<Longrightarrow> tr_uses (?f r) = tr_uses r + 1 \<and> tr_revoked_at r = None"
    by (simp_all add: consume_def consumable_def)
  show ?thesis
  proof (cases "k = token \<and> isl (fst (UseToken io now later s k nodeID)) = False")
    case True
    then have c: "consumable (unix now) r" "snd (UseToken io now later s k nodeID) = update_token k ?f s"
      using assms(1) by (auto simp: UseToken_def Let_def split: if_splits)
    show ?thesis by (rule that [of "?f r"]) (use CallUse True c upd grow in auto)
  next
    case False
    then have a: "admitted token [c] s = []" using CallUse by auto
    obtain r' where "find_token (snd (UseToken io now later s k nodeID)) token = Some r'" "r' = r \<or> r' = ?f r"
      using use_token_state [of io now later s k nodeID] upd assms(1) by (auto split: if_splits)
    then show ?thesis using that [of r'] CallUse a grow by auto
  qed
next
  case (CallRevoke io now k)
  let ?f = "revoke_row (unix now)"
  have "find_token (snd (RevokeToken io now s k)) token \<in> {Some r, Some (?f r)}"
    using find_token_update [of ?f k s token] revoke_token_state [of io now s k] assms(1) by auto
  then show ?thesis using that CallRevoke by (auto simp: revoke_row_def split: option.splits)
next
  case (CallDelete io k)
  then have "find_token (token_step s c) token = Some r"
    using assms by (auto simp: never_deleted_def DeleteToken_def find_token_def find_filter_other)
  then show ?thesis using that CallDelete by simp
next
  case CallClose
  then show ?thesis using that assms(1) by (simp add: CloseTokens_def find_token_def)
qed

lemma run_tokens_row:
  assumes "find_token s token = Some r" and "never_deleted token calls"
  shows "\<exists>r'. find_token (run_tokens calls s) token = Some r' \<and> tr_max_uses r' = tr_max_uses r \<and>
           int (length (admitted token calls s)) + tr_uses r \<le> tr_uses r' \<and>
           (tr_revoked_at r \<noteq> None \<longrightarrow> admitted token calls s = [])"
  using assms
proof (induction calls arbitrary: s r)
  case (Cons c cs)
  have "never_deleted token [c]" "never_deleted token cs" using Cons.prems(2) by (simp_all add: never_deleted_def)
  from token_step_row [OF Cons.prems(1) this(1)] obtain r' where
    r': "find_token (token_step s c) token = Some r'" "tr_max_uses r' = tr_max_uses r"
      "int (length (admitted token [c] s)) + tr_uses r \<le> tr_uses r'"
      "tr_revoked_at r \<noteq> None \<Longrightarrow> tr_revoked_at r' \<noteq> None \<and> admitted token [c] s = []" by blast
  have a: "length (admitted token (c # cs) s) = length (admitted token [c] s) + length (admitted token cs (token_step s c))"
    "admitted token (c # cs) s = [] \<longleftrightarrow> admitted token [c] s = [] \<and> admitted token cs (token_step s c) = []"
    by simp_all
  from Cons.IH [OF r'(1) \<open>never_deleted token cs\<close>] show ?case
    using r' unfolding a by (auto simp: run_tokens_def simp del: admitted.simps)
qed (simp add: run_tokens_def)

lemma run_tokens_ok: "tokens_ok s \<Longrightarrow> tokens_ok (run_tokens calls s)"
  unfolding run_tokens_def by (induction calls arbitrary: s) (simp_all add: token_step_ok)

text \<open>An enrollment token admits at most as many nodes as it was created for, and none once it is revoked: from any
  well-formed table, over any calls that do not delete the token, with cancelled contexts and failing statements.\<close>

theorem token_uses_bounded:
  assumes "tokens_ok s" and "find_token s token = Some r" and "never_deleted token calls"
  shows "int (length (admitted token calls s)) + tr_uses r \<le> max 0 (tr_max_uses r) \<and>
         (tr_revoked_at r \<noteq> None \<longrightarrow> admitted token calls s = [])"
proof -
  obtain r' where r': "find_token (run_tokens calls s) token = Some r'" "tr_max_uses r' = tr_max_uses r"
    "int (length (admitted token calls s)) + tr_uses r \<le> tr_uses r'" "tr_revoked_at r \<noteq> None \<longrightarrow> admitted token calls s = []"
    using run_tokens_row [OF assms(2,3)] by blast
  have "token_row_ok r'" using run_tokens_ok [OF assms(1), of calls] r'(1)
    by (auto simp: tokens_ok_def list_all_iff find_token_def find_Some_iff)
  then show ?thesis using r' by (simp add: token_row_ok_def)
qed

section \<open>Witness\<close>

definition sample_token :: TokenRecord where
  "sample_token = \<lparr>tk_Token = ''t'', tk_CreatedAt = 0, tk_ExpiresAt = None, tk_UsedAt = None, tk_UsedBy = None,
     tk_RevokedAt = None, tk_MaxUses = 1, tk_Uses = 0\<rparr>"

definition sample_tokens :: TokenStore where
  "sample_tokens = snd (CreateToken IoOk \<lparr>ts_rows = [], ts_closed = False\<rparr> (Some sample_token))"

text \<open>A token for one node: the first of two calls is admitted, the second is not.\<close>

theorem token_uses_bounded_witness:
  "admitted ''t'' [CallUse IoOk 5 5 ''t'' ''n1'', CallUse IoOk 6 6 ''t'' ''n2''] sample_tokens = [''n1''] \<and>
   int (length (admitted ''t'' [CallUse IoOk 5 5 ''t'' ''n1'', CallUse IoOk 6 6 ''t'' ''n2''] sample_tokens)) \<le> 1"
proof -
  let ?cs = "[CallUse IoOk 5 5 ''t'' ''n1'', CallUse IoOk 6 6 ''t'' ''n2'']"
  have ok: "tokens_ok sample_tokens" unfolding sample_tokens_def by (rule CreateToken_ok) (simp add: tokens_ok_def)
  have a: "admitted ''t'' ?cs sample_tokens = [''n1'']" by code_simp
  obtain r where r: "find_token sample_tokens ''t'' = Some r" "tr_uses r = 0" "tr_max_uses r = 1"
    by (simp add: sample_tokens_def CreateToken_def sample_token_def find_token_def)
  have "never_deleted ''t'' ?cs" by (simp add: never_deleted_def)
  from token_uses_bounded [OF ok r(1) this] show ?thesis using a r by simp
qed

end
