(* ===== verification/Cert_Store.thy ===== *)
theory Cert_Store
  imports Token_Store "HOL-Library.List_Lexorder" "HOL-Library.Char_ord" "HOL-Library.Product_Lexorder"
begin

text \<open>
  Issued certificates and the revocation ledger (\<open>pkg/server/store/certstore.go\<close>): the tables \<open>node_certs\<close>, one row per node
  with unique serials, and \<open>revoked_serials\<close>, to which rows are only ever added. Calls are steps with a \<open>store_io\<close> as for the
  token store.
\<close>

section \<open>Rows and records\<close>

record CertRecord =
  ct_NodeID :: string
  ct_CommonName :: string
  ct_Serial :: string
  ct_CertPEM :: string
  ct_IssuedAt :: int
  ct_ExpiresAt :: int
  ct_Revoked :: bool
  ct_RevokedAt :: "int option"

record RevokedCertRecord =
  rv_Serial :: string
  rv_NodeID :: string
  rv_RevokedAt :: int

record cert_row =
  cw_node_id :: string
  cw_common_name :: string
  cw_serial :: string
  cw_cert_pem :: string
  cw_issued_at :: int
  cw_expires_at :: int
  cw_revoked :: bool
  cw_revoked_at :: "int option"

record revoked_row =
  rw_serial :: string
  rw_node_id :: string
  rw_revoked_at :: int

record CertStore =
  cs_certs :: "cert_row list"
  cs_ledger :: "revoked_row list"
  cs_closed :: bool

datatype cert_error =
  CertContext | CertNil | CertNodeEmpty | CertClosed | CertDatabase | ErrCertIdentityExists | SerialRequired | CertNotFound
  | CertUnconfigured

definition cert_columns :: "CertRecord \<Rightarrow> cert_row" where
  "cert_columns c =
     \<lparr>cw_node_id = ct_NodeID c, cw_common_name = ct_CommonName c, cw_serial = ct_Serial c, cw_cert_pem = ct_CertPEM c,
      cw_issued_at = unix (ct_IssuedAt c), cw_expires_at = unix (ct_ExpiresAt c), cw_revoked = False, cw_revoked_at = None\<rparr>"

definition row_cert :: "cert_row \<Rightarrow> CertRecord" where
  "row_cert w =
     \<lparr>ct_NodeID = cw_node_id w, ct_CommonName = cw_common_name w, ct_Serial = cw_serial w, ct_CertPEM = cw_cert_pem w,
      ct_IssuedAt = nanos (cw_issued_at w), ct_ExpiresAt = nanos (cw_expires_at w), ct_Revoked = cw_revoked w,
      ct_RevokedAt = map_option nanos (cw_revoked_at w)\<rparr>"

definition find_cert :: "CertStore \<Rightarrow> string \<Rightarrow> cert_row option" where
  "find_cert s nodeID = find (\<lambda>w. cw_node_id w = nodeID) (cs_certs s)"

definition serial_taken :: "CertStore \<Rightarrow> string \<Rightarrow> string \<Rightarrow> bool" where
  "serial_taken s nodeID serial \<longleftrightarrow> list_ex (\<lambda>w. cw_serial w = serial \<and> cw_node_id w \<noteq> nodeID) (cs_certs s)"

definition in_ledger :: "CertStore \<Rightarrow> string \<Rightarrow> bool" where
  "in_ledger s serial \<longleftrightarrow> list_ex (\<lambda>w. rw_serial w = serial) (cs_ledger s)"

text \<open>\<open>INSERT OR IGNORE\<close> into the ledger, whose key is the serial.\<close>

definition ledger_insert :: "string \<Rightarrow> string \<Rightarrow> int \<Rightarrow> CertStore \<Rightarrow> CertStore" where
  "ledger_insert serial nodeID now s =
     (if in_ledger s serial then s
      else s\<lparr>cs_ledger := cs_ledger s @ [\<lparr>rw_serial = serial, rw_node_id = nodeID, rw_revoked_at = now\<rparr>]\<rparr>)"

section \<open>Operations\<close>

text \<open>The part of \<open>InitCertSchema\<close> that brings revocations recorded before the ledger existed into it.\<close>

definition backfill_ledger :: "CertStore \<Rightarrow> CertStore" where
  "backfill_ledger s =
     foldl (\<lambda>s w. ledger_insert (cw_serial w) (cw_node_id w) (case cw_revoked_at w of None \<Rightarrow> 0 | Some t \<Rightarrow> t) s) s
       (filter cw_revoked (cs_certs s))"

definition IssueCert :: "store_io \<Rightarrow> CertStore \<Rightarrow> CertRecord option \<Rightarrow> cert_error option \<times> CertStore" where
  "IssueCert io s cert =
     (if io = IoCancelled then (Some CertContext, s)
      else case cert of
             None \<Rightarrow> (Some CertNil, s)
           | Some c \<Rightarrow>
               if ct_NodeID c = [] then (Some CertNodeEmpty, s)
               else if cs_closed s then (Some CertClosed, s)
               else if io = IoWrite \<or> serial_taken s (ct_NodeID c) (ct_Serial c) then (Some CertDatabase, s)
               else if find_cert s (ct_NodeID c) = None then (None, s\<lparr>cs_certs := cs_certs s @ [cert_columns c]\<rparr>)
               else (None, s\<lparr>cs_certs := map (\<lambda>w. if cw_node_id w = ct_NodeID c then cert_columns c else w) (cs_certs s)\<rparr>))"

text \<open>A failed insert asks for the row of the node, and a row means that somebody else was first.\<close>

definition IssueCertIfAbsent :: "store_io \<Rightarrow> CertStore \<Rightarrow> CertRecord \<Rightarrow> cert_error option \<times> CertStore" where
  "IssueCertIfAbsent io s c =
     (if io = IoCancelled then (Some CertContext, s)
      else if cs_closed s then (Some CertClosed, s)
      else if io = IoWrite \<or> find_cert s (ct_NodeID c) \<noteq> None \<or> serial_taken s (ct_NodeID c) (ct_Serial c)
      then (if io \<noteq> IoRead \<and> find_cert s (ct_NodeID c) \<noteq> None then (Some ErrCertIdentityExists, s) else (Some CertDatabase, s))
      else (None, s\<lparr>cs_certs := cs_certs s @ [cert_columns c]\<rparr>))"

definition RevokeSerial :: "store_io \<Rightarrow> int \<Rightarrow> CertStore \<Rightarrow> string \<Rightarrow> string \<Rightarrow> cert_error option \<times> CertStore" where
  "RevokeSerial io now s serial nodeID =
     (if io = IoCancelled then (Some CertContext, s)
      else if serial = [] then (Some SerialRequired, s)
      else if cs_closed s then (Some CertClosed, s)
      else if io = IoWrite then (Some CertDatabase, s)
      else (None, ledger_insert serial nodeID (unix now) s))"

definition GetCert :: "store_io \<Rightarrow> CertStore \<Rightarrow> string \<Rightarrow> cert_error + CertRecord option" where
  "GetCert io s nodeID =
     (if io = IoCancelled then Inl CertContext
      else if cs_closed s then Inl CertClosed
      else if io = IoRead then Inl CertDatabase
      else Inr (map_option row_cert (find_cert s nodeID)))"

text \<open>Newest first; rows of the same second in the order of their insertion.\<close>

definition ListCerts :: "store_io \<Rightarrow> CertStore \<Rightarrow> cert_error + CertRecord list" where
  "ListCerts io s =
     (if io = IoCancelled then Inl CertContext
      else if cs_closed s then Inl CertClosed
      else if io = IoRead then Inl CertDatabase
      else Inr (map row_cert (sort_key (\<lambda>w. - cw_issued_at w) (cs_certs s))))"

text \<open>One transaction: a failure in it, also of the reread of the serial or the commit (\<open>IoWrite\<close>, \<open>IoRead\<close>), leaves both
  tables as they were.\<close>

definition RevokeCert :: "store_io \<Rightarrow> int \<Rightarrow> CertStore \<Rightarrow> string \<Rightarrow> cert_error option \<times> CertStore" where
  "RevokeCert io now s nodeID =
     (if io = IoCancelled then (Some CertContext, s)
      else if cs_closed s then (Some CertClosed, s)
      else if io = IoWrite then (Some CertDatabase, s)
      else case find_cert s nodeID of
             None \<Rightarrow> (Some CertNotFound, s)
           | Some w \<Rightarrow>
               if io = IoRead then (Some CertDatabase, s)
               else (None, ledger_insert (cw_serial w) nodeID (unix now)
                       (s\<lparr>cs_certs := map (\<lambda>v. if cw_node_id v = nodeID
                                                then v\<lparr>cw_revoked := True, cw_revoked_at := Some (unix now)\<rparr> else v) (cs_certs s)\<rparr>)))"

definition IsCertRevoked :: "store_io \<Rightarrow> CertStore \<Rightarrow> string \<Rightarrow> cert_error + bool" where
  "IsCertRevoked io s serial =
     (if io = IoCancelled then Inl CertContext
      else if cs_closed s then Inl CertClosed
      else if io = IoRead then Inl CertDatabase
      else Inr (in_ledger s serial))"

definition RevokedSerials :: "store_io \<Rightarrow> CertStore \<Rightarrow> cert_error + RevokedCertRecord list" where
  "RevokedSerials io s =
     (if io = IoCancelled then Inl CertContext
      else if cs_closed s then Inl CertClosed
      else if io = IoRead then Inl CertDatabase
      else Inr (map (\<lambda>w. \<lparr>rv_Serial = rw_serial w, rv_NodeID = rw_node_id w, rv_RevokedAt = nanos (rw_revoked_at w)\<rparr>)
                 (sort_key (\<lambda>w. (rw_revoked_at w, rw_serial w)) (cs_ledger s))))"

definition DeleteCert :: "store_io \<Rightarrow> CertStore \<Rightarrow> string \<Rightarrow> cert_error option \<times> CertStore" where
  "DeleteCert io s nodeID =
     (if io = IoCancelled then (Some CertContext, s)
      else if cs_closed s then (Some CertClosed, s)
      else if io = IoWrite then (Some CertDatabase, s)
      else (None, s\<lparr>cs_certs := filter (\<lambda>w. cw_node_id w \<noteq> nodeID) (cs_certs s)\<rparr>))"

definition CloseCerts :: "CertStore \<Rightarrow> CertStore" where
  "CloseCerts s = s\<lparr>cs_closed := True\<rparr>"

section \<open>Tables\<close>

definition has_cert :: "CertStore \<Rightarrow> string \<Rightarrow> bool" where
  "has_cert s nodeID \<longleftrightarrow> find_cert s nodeID \<noteq> None"

lemma has_cert_iff: "has_cert s n \<longleftrightarrow> n \<in> set (map cw_node_id (cs_certs s))"
  by (auto simp: has_cert_def find_cert_def find_None_iff)

lemma ledger_insert_simps [simp]:
  "cs_certs (ledger_insert x n t s) = cs_certs s" "cs_closed (ledger_insert x n t s) = cs_closed s"
  "in_ledger (ledger_insert x n t s) y \<longleftrightarrow> in_ledger s y \<or> y = x"
  by (auto simp: ledger_insert_def in_ledger_def)

lemma backfill_in_ledger:
  "in_ledger (backfill_ledger s) x \<longleftrightarrow> in_ledger s x \<or> (\<exists>w \<in> set (cs_certs s). cw_revoked w \<and> cw_serial w = x)"
proof -
  let ?f = "\<lambda>s w. ledger_insert (cw_serial w) (cw_node_id w) (case cw_revoked_at w of None \<Rightarrow> 0 | Some t \<Rightarrow> t) s"
  have "in_ledger (foldl ?f s ws) x \<longleftrightarrow> in_ledger s x \<or> (\<exists>w \<in> set ws. cw_serial w = x)" for ws
    by (induction ws arbitrary: s) auto
  then show ?thesis by (auto simp: backfill_ledger_def)
qed

lemma backfill_simps [simp]:
  "cs_certs (backfill_ledger s) = cs_certs s" "cs_closed (backfill_ledger s) = cs_closed s"
proof -
  let ?f = "\<lambda>s w. ledger_insert (cw_serial w) (cw_node_id w) (case cw_revoked_at w of None \<Rightarrow> 0 | Some t \<Rightarrow> t) s"
  have keep: "cs_certs (foldl ?f s ws) = cs_certs s \<and> cs_closed (foldl ?f s ws) = cs_closed s" for ws
    by (induction ws arbitrary: s) simp_all
  show "cs_certs (backfill_ledger s) = cs_certs s" "cs_closed (backfill_ledger s) = cs_closed s"
    unfolding backfill_ledger_def using keep by blast+
qed

text \<open>Every operation keeps the ledger and, but for \<open>DeleteCert\<close>, the nodes that have a certificate.\<close>

lemma cert_ops_grow:
  "in_ledger s x \<Longrightarrow> in_ledger (snd (IssueCert io s c)) x"
  "in_ledger s x \<Longrightarrow> in_ledger (snd (IssueCertIfAbsent io s d)) x"
  "in_ledger s x \<Longrightarrow> in_ledger (snd (RevokeSerial io now s y n)) x"
  "in_ledger s x \<Longrightarrow> in_ledger (snd (RevokeCert io now s n)) x"
  "in_ledger s x \<Longrightarrow> in_ledger (snd (DeleteCert io s n)) x"
  by (auto simp: IssueCert_def IssueCertIfAbsent_def RevokeSerial_def RevokeCert_def DeleteCert_def in_ledger_def
      ledger_insert_def split: option.split)

lemma replace_nodes:
  "(\<And>w. cw_node_id w = n \<Longrightarrow> cw_node_id (f w) = n) \<Longrightarrow>
     map cw_node_id (map (\<lambda>w. if cw_node_id w = n then f w else w) ws) = map cw_node_id ws"
  by (induction ws) auto

lemma cert_nodes:
  "map cw_node_id (cs_certs (snd (IssueCert io s c))) \<in> {map cw_node_id (cs_certs s), map cw_node_id (cs_certs s) @ [ct_NodeID (the c)]}"
  "map cw_node_id (cs_certs (snd (RevokeCert io now s n))) = map cw_node_id (cs_certs s)"
  unfolding IssueCert_def RevokeCert_def
  by (simp_all add: replace_nodes cert_columns_def del: map_map split: option.split)

lemma cert_ops_keep:
  assumes "has_cert s m"
  shows "has_cert (snd (IssueCert io s c)) m" "has_cert (snd (IssueCertIfAbsent io s d)) m"
    "has_cert (snd (RevokeSerial io now s y n)) m" "has_cert (snd (RevokeCert io now s n)) m"
proof -
  show "has_cert (snd (IssueCert io s c)) m" using assms cert_nodes(1) [of io s c] unfolding has_cert_iff by (auto simp del: set_map)
  show "has_cert (snd (RevokeCert io now s n)) m" using assms cert_nodes(2) [of io now s n] unfolding has_cert_iff by (simp del: set_map)
qed (use assms in \<open>auto simp: IssueCertIfAbsent_def RevokeSerial_def has_cert_iff\<close>)

lemma IssueCertIfAbsent_first:
  "fst (IssueCertIfAbsent io s c) = None \<Longrightarrow>
     \<not> has_cert s (ct_NodeID c) \<and> has_cert (snd (IssueCertIfAbsent io s c)) (ct_NodeID c)"
  by (auto simp: IssueCertIfAbsent_def has_cert_def find_cert_def cert_columns_def find_append split: if_splits)

lemma RevokeCert_ledger:
  "fst (RevokeCert io now s n) = None \<Longrightarrow> find_cert s n = Some w \<Longrightarrow> in_ledger (snd (RevokeCert io now s n)) (cw_serial w)"
  by (auto simp: RevokeCert_def split: if_splits option.splits)

end
