(* ===== verification/Enrollment.thy ===== *)
theory Enrollment
  imports Cert_Store Task_Manager Node_Registry
begin

text \<open>
  Enrollment and revocation of nodes by the coordinator: \<open>handleCertsEnroll\<close> and \<open>handleCertsRevoke\<close>
  (\<open>pkg/server/http/handlers.go\<close>), \<open>RevokeCertWithCount\<close>, \<open>IsCertRevoked\<close> and the revocation cache
  (\<open>pkg/server/http/server.go\<close>), \<open>SignCSR\<close> (\<open>pkg/pki/pki.go\<close>). A handler reads and writes the two stores in several steps;
  its parts are definitions of their own, so that other requests can come in between. Parsing of a request and creation of
  a certificate by the library are arguments.
\<close>

section \<open>Certificates\<close>

record certificate_request =
  cr_DNSNames :: "string list"
  cr_IPAddresses :: "string list"

record Certificate =
  xc_CommonName :: string
  xc_Serial :: string
  xc_DNSNames :: "string list"
  xc_IPAddresses :: "string list"
  xc_NotBefore :: int
  xc_NotAfter :: int
  xc_PEM :: string

text \<open>\<open>pk_parse\<close> decodes a request and checks its self-signature.\<close>

record pki_host =
  pk_parse :: "string \<Rightarrow> certificate_request option"

definition DefaultValidDuration :: int where
  "DefaultValidDuration = nanos (365 * 24 * 3600)"

definition ValidateCSR :: "pki_host \<Rightarrow> string \<Rightarrow> certificate_request option" where
  "ValidateCSR p csrPEM = pk_parse p csrPEM"

text \<open>\<open>created\<close> is the random serial and the PEM text of the certificate, or nothing when the library fails.\<close>

definition SignCSR ::
  "pki_host \<Rightarrow> int \<Rightarrow> int \<Rightarrow> (string \<times> string) option \<Rightarrow> string \<Rightarrow> string \<Rightarrow> int \<Rightarrow> Certificate option" where
  "SignCSR p now1 now2 created csrPEM nodeID validFor =
     (let valid = (if validFor = 0 then DefaultValidDuration else validFor) in
      case ValidateCSR p csrPEM of
        None \<Rightarrow> None
      | Some csr \<Rightarrow>
          (case created of
             None \<Rightarrow> None
           | Some (serial, pem) \<Rightarrow>
               Some \<lparr>xc_CommonName = nodeID, xc_Serial = serial,
                     xc_DNSNames = (if nodeID \<in> set (cr_DNSNames csr) then cr_DNSNames csr else cr_DNSNames csr @ [nodeID]),
                     xc_IPAddresses = cr_IPAddresses csr, xc_NotBefore = now1, xc_NotAfter = now2 + valid, xc_PEM = pem\<rparr>))"

section \<open>The coordinator's part\<close>

record Coordinator =
  co_TLSEnabled :: bool
  co_meshCA :: bool
  co_BearerToken :: string
  co_tokenStore :: "TokenStore option"
  co_certStore :: "CertStore option"
  co_revocationCache :: "string list"
  co_registry :: Registry
  co_taskManager :: TaskManager

record EnrollmentRequest =
  eq_Token :: string
  eq_CSR :: string
  eq_NodeID :: string

datatype enroll_error =
  TLSDisabled | EnrollmentUnconfigured | EnrollBody | TokenRequired | CSRRequired | NodeIDRequired | CSRInvalid
  | IdentityCheckFailed cert_error | AlreadyEnrolled | TokenRefused token_error | CSRUnsigned | EnrolledConcurrently
  | LoserNotRevoked cert_error | CertNotRecorded cert_error

section \<open>Enrollment\<close>

definition enroll_check ::
  "pki_host \<Rightarrow> store_io \<Rightarrow> Coordinator \<Rightarrow> EnrollmentRequest option \<Rightarrow> enroll_error + string" where
  "enroll_check p flt c body =
     (if \<not> co_TLSEnabled c then Inl TLSDisabled
      else if co_tokenStore c = None \<or> \<not> co_meshCA c then Inl EnrollmentUnconfigured
      else case body of
             None \<Rightarrow> Inl EnrollBody
           | Some req \<Rightarrow>
               if eq_Token req = [] then Inl TokenRequired
               else if eq_CSR req = [] then Inl CSRRequired
               else let nodeID = TrimSpace (eq_NodeID req) in
                 if nodeID = [] then Inl NodeIDRequired
                 else if ValidateCSR p (eq_CSR req) = None then Inl CSRInvalid
                 else (case co_certStore c of
                         None \<Rightarrow> Inr nodeID
                       | Some certs \<Rightarrow>
                           (case GetCert flt certs nodeID of
                              Inl x \<Rightarrow> Inl (IdentityCheckFailed x)
                            | Inr (Some _) \<Rightarrow> Inl AlreadyEnrolled
                            | Inr None \<Rightarrow> Inr nodeID)))"

definition enroll_token ::
  "store_io \<Rightarrow> int \<Rightarrow> int \<Rightarrow> Coordinator \<Rightarrow> string \<Rightarrow> string \<Rightarrow> enroll_error option \<times> Coordinator" where
  "enroll_token flt now later c token nodeID =
     (case co_tokenStore c of
        None \<Rightarrow> (Some EnrollmentUnconfigured, c)
      | Some tokens \<Rightarrow>
          (case UseToken flt now later tokens token nodeID of
             (Inl x, tokens') \<Rightarrow> (Some (TokenRefused x), c\<lparr>co_tokenStore := Some tokens'\<rparr>)
           | (Inr _, tokens') \<Rightarrow> (None, c\<lparr>co_tokenStore := Some tokens'\<rparr>)))"

definition cert_record :: "string \<Rightarrow> Certificate \<Rightarrow> CertRecord" where
  "cert_record nodeID x =
     \<lparr>ct_NodeID = nodeID, ct_CommonName = xc_CommonName x, ct_Serial = xc_Serial x, ct_CertPEM = xc_PEM x,
      ct_IssuedAt = xc_NotBefore x, ct_ExpiresAt = xc_NotAfter x, ct_Revoked = False, ct_RevokedAt = None\<rparr>"

definition enroll_record ::
  "store_io \<Rightarrow> Coordinator \<Rightarrow> string \<Rightarrow> Certificate \<Rightarrow> cert_error option \<times> Coordinator" where
  "enroll_record flt c nodeID x =
     (case co_certStore c of
        None \<Rightarrow> (None, c)
      | Some certs \<Rightarrow>
          (case IssueCertIfAbsent flt certs (cert_record nodeID x) of
             (Some e, certs') \<Rightarrow> (Some e, c\<lparr>co_certStore := Some certs'\<rparr>)
           | (None, certs') \<Rightarrow>
               (None, c\<lparr>co_certStore := Some certs',
                        co_revocationCache := removeAll (xc_Serial x) (co_revocationCache c)\<rparr>)))"

definition enroll_lost ::
  "store_io \<Rightarrow> int \<Rightarrow> Coordinator \<Rightarrow> string \<Rightarrow> Certificate \<Rightarrow> enroll_error \<times> Coordinator" where
  "enroll_lost flt now c nodeID x =
     (case co_certStore c of
        None \<Rightarrow> (EnrolledConcurrently, c)
      | Some certs \<Rightarrow>
          (case RevokeSerial flt now certs (xc_Serial x) nodeID of
             (Some e, certs') \<Rightarrow> (LoserNotRevoked e, c\<lparr>co_certStore := Some certs'\<rparr>)
           | (None, certs') \<Rightarrow> (EnrolledConcurrently, c\<lparr>co_certStore := Some certs'\<rparr>)))"

record enroll_env =
  en_get :: store_io
  en_use :: store_io
  en_now :: "int \<times> int"
  en_signed :: "int \<times> int"
  en_created :: "(string \<times> string) option"
  en_issue :: store_io
  en_revoke :: store_io
  en_revoked :: int
  en_others :: "nat \<Rightarrow> Coordinator \<Rightarrow> Coordinator"

text \<open>The whole handler; \<open>en_others k\<close> is what other requests do between its steps.\<close>

definition handleCertsEnroll ::
  "pki_host \<Rightarrow> enroll_env \<Rightarrow> Coordinator \<Rightarrow> EnrollmentRequest option \<Rightarrow>
   (enroll_error + string \<times> Certificate) \<times> Coordinator" where
  "handleCertsEnroll p en c body =
     (case (body, enroll_check p (en_get en) c body) of
        (Some req, Inr nodeID) \<Rightarrow>
          (case enroll_token (en_use en) (fst (en_now en)) (snd (en_now en)) (en_others en 0 c) (eq_Token req) nodeID of
             (Some e, c1) \<Rightarrow> (Inl e, c1)
           | (None, c1) \<Rightarrow>
               (case SignCSR p (fst (en_signed en)) (snd (en_signed en)) (en_created en) (eq_CSR req) nodeID DefaultValidDuration of
                  None \<Rightarrow> (Inl CSRUnsigned, c1)
                | Some x \<Rightarrow>
                    (case enroll_record (en_issue en) (en_others en 1 c1) nodeID x of
                       (None, c2) \<Rightarrow> (Inr (nodeID, x), c2)
                     | (Some ErrCertIdentityExists, c2) \<Rightarrow>
                         (case enroll_lost (en_revoke en) (en_revoked en) (en_others en 2 c2) nodeID x of
                            (e, c3) \<Rightarrow> (Inl e, c3))
                     | (Some e, c2) \<Rightarrow> (Inl (CertNotRecorded e), c2))))
      | (_, Inl e) \<Rightarrow> (Inl e, c)
      | (None, Inr _) \<Rightarrow> (Inl EnrollBody, c))"

section \<open>Revocation\<close>

record revoke_env =
  re_get :: store_io
  re_write :: store_io
  re_now :: int
  re_between :: "Coordinator \<Rightarrow> Coordinator"
  re_logs :: "string \<Rightarrow> write_outcome \<times> write_outcome"

definition NODE_REVOKED :: string where
  "NODE_REVOKED = ''NODE_REVOKED''"

text \<open>The certificate is looked up first; what happens then (\<open>revoke_node\<close>) uses the serial that was read.\<close>

definition revoke_node :: "revoke_env \<Rightarrow> Coordinator \<Rightarrow> string \<Rightarrow> string \<Rightarrow> (cert_error + nat) \<times> Coordinator" where
  "revoke_node re c serial nodeID =
     (case co_certStore c of
        None \<Rightarrow> (Inl CertUnconfigured, c)
      | Some certs \<Rightarrow>
          (case RevokeCert (re_write re) (re_now re) certs nodeID of
             (Some e, certs') \<Rightarrow> (Inl e, c\<lparr>co_certStore := Some certs'\<rparr>)
           | (None, certs') \<Rightarrow>
               let cache = (if serial \<noteq> [] then List.insert serial (co_revocationCache c) else co_revocationCache c);
                   reg = snd (DeregisterNode (co_registry c) nodeID) in
               (case FailTasksOfNode (re_logs re) (re_now re) (co_taskManager c) nodeID NODE_REVOKED
                       (''node '' @ nodeID @ '' certificate has been revoked'') of
                  (n, tm) \<Rightarrow> (Inr n, c\<lparr>co_certStore := Some certs', co_revocationCache := cache,
                                      co_registry := reg, co_taskManager := tm\<rparr>))))"

definition RevokeCertWithCount :: "revoke_env \<Rightarrow> Coordinator \<Rightarrow> string \<Rightarrow> (cert_error + nat) \<times> Coordinator" where
  "RevokeCertWithCount re c nodeID =
     (case co_certStore c of
        None \<Rightarrow> (Inl CertUnconfigured, c)
      | Some certs \<Rightarrow>
          (case GetCert (re_get re) certs nodeID of
             Inl e \<Rightarrow> (Inl e, c)
           | Inr None \<Rightarrow> (Inl CertNotFound, c)
           | Inr (Some rec) \<Rightarrow> revoke_node re (re_between re c) (ct_Serial rec) nodeID))"

datatype revoke_error =
  BearerUnconfigured | RevokeUnconfigured | RevokeBody | RevokeNodeRequired | RevokeLookup cert_error | RevokeUnknown
  | RevokeFailed cert_error

definition handleCertsRevoke ::
  "store_io \<Rightarrow> revoke_env \<Rightarrow> Coordinator \<Rightarrow> string option \<Rightarrow> (revoke_error + string \<times> nat) \<times> Coordinator" where
  "handleCertsRevoke flt re c body =
     (if co_BearerToken c = [] then (Inl BearerUnconfigured, c)
      else case co_certStore c of
             None \<Rightarrow> (Inl RevokeUnconfigured, c)
           | Some certs \<Rightarrow>
               (case body of
                  None \<Rightarrow> (Inl RevokeBody, c)
                | Some raw \<Rightarrow>
                    let nodeID = TrimSpace raw in
                    if nodeID = [] then (Inl RevokeNodeRequired, c)
                    else (case GetCert flt certs nodeID of
                            Inl e \<Rightarrow> (Inl (RevokeLookup e), c)
                          | Inr None \<Rightarrow> (Inl RevokeUnknown, c)
                          | Inr (Some _) \<Rightarrow>
                              (case RevokeCertWithCount re c nodeID of
                                 (Inl e, c') \<Rightarrow> (Inl (RevokeFailed e), c')
                               | (Inr n, c') \<Rightarrow> (Inr (nodeID, n), c')))))"

text \<open>The cache answers first, the ledger decides a miss, and an error stays an error.\<close>

definition coordinator_revoked :: "store_io \<Rightarrow> Coordinator \<Rightarrow> string \<Rightarrow> cert_error + bool" where
  "coordinator_revoked flt c serial =
     (case co_certStore c of
        None \<Rightarrow> Inl CertUnconfigured
      | Some certs \<Rightarrow> if serial \<in> set (co_revocationCache c) then Inr True else IsCertRevoked flt certs serial)"

text \<open>What a starting coordinator does: it opens the stores, brings the schema up to date and fills the cache from the ledger.\<close>

definition warm_cache :: "store_io \<Rightarrow> CertStore option \<Rightarrow> cert_error + string list" where
  "warm_cache flt store =
     (case store of
        None \<Rightarrow> Inr []
      | Some certs \<Rightarrow>
          (case RevokedSerials flt certs of
             Inl e \<Rightarrow> Inl e
           | Inr recs \<Rightarrow> Inr (remdups (filter (\<lambda>x. x \<noteq> []) (map rv_Serial recs)))))"

definition restart_certs :: "store_io \<Rightarrow> Coordinator \<Rightarrow> cert_error + Coordinator" where
  "restart_certs flt c =
     (let store = map_option (\<lambda>certs. backfill_ledger (certs\<lparr>cs_closed := False\<rparr>)) (co_certStore c) in
      case warm_cache flt store of
        Inl e \<Rightarrow> Inl e
      | Inr cache \<Rightarrow> Inr (c\<lparr>co_tokenStore := map_option (\<lambda>tokens. tokens\<lparr>ts_closed := False\<rparr>) (co_tokenStore c),
                            co_certStore := store, co_revocationCache := cache\<rparr>))"

end
