(* ===== verification/Go_Net.thy ===== *)
theory Go_Net
  imports Go_Base
begin

text \<open>
  What the coordinator uses of Go's packages \<open>net\<close> and \<open>net/url\<close>: \<open>SplitHostPort\<close>, \<open>ParseIP\<close>, the test for an address of
  100.64.0.0/10 or of the loopback interface, and \<open>URL.Hostname\<close>. An address is its 16 bytes; an IPv4 address is
  the mapped one.
\<close>

section \<open>Hosts and ports\<close>

definition colon :: char where
  "colon = CHR 0x3A"

text \<open>The text before and after the last occurrence of a byte.\<close>

definition cut_last :: "char \<Rightarrow> string \<Rightarrow> (string \<times> string) option" where
  "cut_last c s =
     (if c \<in> set s
      then Some (rev (tl (dropWhile (\<lambda>x. x \<noteq> c) (rev s))), rev (takeWhile (\<lambda>x. x \<noteq> c) (rev s)))
      else None)"

text \<open>\<open>net.SplitHostPort\<close>; \<open>None\<close> is any of its errors.\<close>

definition SplitHostPort :: "string \<Rightarrow> (string \<times> string) option" where
  "SplitHostPort hp =
     (case cut_last colon hp of
        None \<Rightarrow> None
      | Some (before, port) \<Rightarrow>
          if hd hp = CHR ''[''
          then (if CHR '']'' \<notin> set hp then None
                else let host = takeWhile (\<lambda>x. x \<noteq> CHR '']'') (tl hp); after = drop (length host + 2) hp in
                  if after \<noteq> colon # port then None
                  else if CHR ''['' \<in> set (tl hp) \<or> CHR '']'' \<in> set after then None
                  else Some (host, port))
          else if colon \<in> set before then None
          else if CHR ''['' \<in> set hp \<or> CHR '']'' \<in> set hp then None
          else Some (before, port))"

definition unbracket :: "string \<Rightarrow> string" where
  "unbracket h = (if HasPrefix h ''['' \<and> HasSuffix h '']'' \<and> 2 \<le> length h then butlast (tl h) else h)"

definition decimal_digit :: "char \<Rightarrow> bool" where
  "decimal_digit c \<longleftrightarrow> CHR ''0'' \<le> c \<and> c \<le> CHR ''9''"

text \<open>\<open>URL.Hostname\<close> of the host part of a URL: a numeric or empty port is cut off, then the brackets.\<close>

definition Hostname :: "string \<Rightarrow> string" where
  "Hostname host =
     unbracket (case cut_last colon host of
                  None \<Rightarrow> host
                | Some (before, port) \<Rightarrow> if list_all decimal_digit port then before else host)"

section \<open>Addresses\<close>

type_synonym ip = "nat list"

definition octet_ok :: "string \<Rightarrow> bool" where
  "octet_ok f \<longleftrightarrow>
     f \<noteq> [] \<and> list_all decimal_digit f \<and> (length f = 1 \<or> hd f \<noteq> CHR ''0'') \<and> dec_value 0 f \<le> 255"

definition parse_ipv4 :: "string \<Rightarrow> nat list option" where
  "parse_ipv4 s =
     (let fs = split_on (CHR ''.'') s in
      if length fs = 4 \<and> list_all octet_ok fs then Some (map (dec_value 0) fs) else None)"

definition hex_value :: "char \<Rightarrow> nat option" where
  "hex_value c =
     (let n = (of_char c :: nat) in
      if 48 \<le> n \<and> n \<le> 57 then Some (n - 48)
      else if 97 \<le> n \<and> n \<le> 102 then Some (n - 87)
      else if 65 \<le> n \<and> n \<le> 70 then Some (n - 55)
      else None)"

fun hex_number :: "nat \<Rightarrow> string \<Rightarrow> nat" where
  "hex_number acc [] = acc"
| "hex_number acc (c # s) = hex_number (16 * acc + (case hex_value c of None \<Rightarrow> 0 | Some d \<Rightarrow> d)) s"

text \<open>The loop of \<open>netip.parseIPv6\<close>: the number of groups that still fit, the bytes so far, the place of the ellipsis and
  the rest of the text.\<close>

fun ipv6_loop :: "nat \<Rightarrow> nat list \<Rightarrow> nat option \<Rightarrow> string \<Rightarrow> (nat list \<times> nat option \<times> string) option" where
  "ipv6_loop 0 bs e s = Some (bs, e, s)"
| "ipv6_loop (Suc n) bs e s =
     (let ds = takeWhile (\<lambda>c. hex_value c \<noteq> None) s; r = dropWhile (\<lambda>c. hex_value c \<noteq> None) s; v = hex_number 0 ds;
          bs' = bs @ [v div 256, v mod 256] in
      if ds = [] \<or> 4 < length ds then None
      else case r of
             [] \<Rightarrow> Some (bs', e, [])
           | c # r' \<Rightarrow>
               if c = CHR ''.'' then
                 (if e = None \<and> length bs \<noteq> 12 \<or> 12 < length bs then None
                  else case parse_ipv4 s of None \<Rightarrow> None | Some v4 \<Rightarrow> Some (bs @ v4, e, []))
               else if c \<noteq> colon then None
               else (case r' of
                       [] \<Rightarrow> None
                     | c' # r'' \<Rightarrow>
                         if c' \<noteq> colon then ipv6_loop n bs' e r'
                         else if e \<noteq> None then None
                         else if r'' = [] then Some (bs', Some (length bs'), [])
                         else ipv6_loop n bs' (Some (length bs')) r''))"

definition parse_ipv6 :: "string \<Rightarrow> ip option" where
  "parse_ipv6 s =
     (let e = (if HasPrefix s [colon, colon] then Some 0 else None); r = (if e = None then s else drop 2 s) in
      if e \<noteq> None \<and> r = [] then Some (replicate 16 0)
      else case ipv6_loop 8 [] e r of
             None \<Rightarrow> None
           | Some (bs, e', rest) \<Rightarrow>
               if rest \<noteq> [] then None
               else if length bs < 16
               then (case e' of None \<Rightarrow> None | Some k \<Rightarrow> Some (take k bs @ replicate (16 - length bs) 0 @ drop k bs))
               else if e' \<noteq> None then None else Some bs)"

definition v4_mapped :: "nat list \<Rightarrow> ip" where
  "v4_mapped bs = replicate 10 0 @ [255, 255] @ bs"

text \<open>\<open>net.ParseIP\<close>: the first separator decides between the two forms, and an address with a zone is none.\<close>

definition ParseIP :: "string \<Rightarrow> ip option" where
  "ParseIP s =
     (if CHR ''%'' \<in> set s then None
      else case find (\<lambda>c. c = CHR ''.'' \<or> c = colon) s of
             None \<Rightarrow> None
           | Some c \<Rightarrow> if c = colon then parse_ipv6 s else map_option v4_mapped (parse_ipv4 s))"

definition To4 :: "ip \<Rightarrow> nat list option" where
  "To4 a = (if take 12 a = replicate 10 0 @ [255, 255] then Some (drop 12 a) else None)"

text \<open>The network 100.64.0.0/10 of Tailscale.\<close>

definition tailscale :: "ip \<Rightarrow> bool" where
  "tailscale a \<longleftrightarrow>
     (case To4 a of Some (x # y # _) \<Rightarrow> x = 100 \<and> 64 \<le> y \<and> y < 128 | _ \<Rightarrow> False)"

definition IsLoopback :: "ip \<Rightarrow> bool" where
  "IsLoopback a \<longleftrightarrow>
     (case To4 a of Some (x # _) \<Rightarrow> x = 127 | _ \<Rightarrow> a = replicate 15 0 @ [1])"

section \<open>Facts\<close>

lemma tailscale_not_loopback: "tailscale a \<Longrightarrow> \<not> IsLoopback a"
  by (auto simp: tailscale_def IsLoopback_def split: option.splits list.splits)

lemma net_samples:
  "SplitHostPort ''localhost:8080'' = Some (''localhost'', ''8080'')" "SplitHostPort ''[::1]:80'' = Some (''::1'', ''80'')"
  "SplitHostPort ''::1'' = None" "SplitHostPort '':8080'' = Some ([], ''8080'')" "SplitHostPort ''localhost'' = None"
  "ParseIP ''::1'' = Some (replicate 15 0 @ [1])" "ParseIP ''127.0.0.01'' = None" "ParseIP ''1:2'' = None"
  "ParseIP ''1::2::3'' = None"
  by code_simp+

end
