(* ===== verification/Middleware.thy ===== *)
theory Middleware
  imports Enrollment Go_Net
begin

text \<open>
  The path of a request through the coordinator (\<open>pkg/server/http/middleware.go\<close>, \<open>server.go\<close>, the table of routes in
  \<open>handlers.go\<close>): host check, CORS, client certificates with revocation, bearer tokens, rate limit, route; and what decides
  whether the server may listen at all. A middleware answers with a status or passes the request on (\<open>None\<close>). \<open>url\<close> is
  \<open>url.Parse\<close>, reduced to the scheme and the host part.
\<close>

section \<open>Requests\<close>

record http_request =
  hr_method :: string
  hr_segs :: "string list"
  hr_host :: string
  hr_origin :: string
  hr_auth :: string
  hr_forwarded :: string
  hr_remote :: string
  hr_tls :: "Certificate list list option"

text \<open>The segments are those of the escaped path; \<open>URL.Path\<close> is the decoded path, in which an escaped slash looks like a
  separator.\<close>

fun path_unescape :: "string \<Rightarrow> string" where
  "path_unescape (c # a # b # s) =
     (if c = CHR ''%'' \<and> hex_value a \<noteq> None \<and> hex_value b \<noteq> None
      then char_of (16 * the (hex_value a) + the (hex_value b)) # path_unescape s
      else c # path_unescape (a # b # s))"
| "path_unescape s = s"

definition hr_path :: "http_request \<Rightarrow> string" where
  "hr_path r = ''/'' @ Join (map path_unescape (hr_segs r)) ''/''"

section \<open>Rate limit\<close>

record clientLimiter =
  cl_tokens :: int
  cl_lastReset :: int

record RateLimiter =
  rl_clients :: "clientLimiter gomap"
  rl_limit :: int
  rl_window :: int
  rl_burst :: int

definition NewRateLimiter :: "int \<Rightarrow> int \<Rightarrow> int \<Rightarrow> RateLimiter" where
  "NewRateLimiter limit window burst = \<lparr>rl_clients = [], rl_limit = limit, rl_window = window, rl_burst = burst\<rparr>"

definition Allow :: "int \<Rightarrow> RateLimiter \<Rightarrow> string \<Rightarrow> bool \<times> RateLimiter" where
  "Allow now rl client =
     (case map_get (rl_clients rl) client of
        None \<Rightarrow>
          (True, rl\<lparr>rl_clients := map_put (rl_clients rl) client \<lparr>cl_tokens = rl_burst rl - 1, cl_lastReset = now\<rparr>\<rparr>)
      | Some cl \<Rightarrow>
          if now - cl_lastReset cl > rl_window rl
          then (True, rl\<lparr>rl_clients := map_put (rl_clients rl) client \<lparr>cl_tokens = rl_burst rl - 1, cl_lastReset = now\<rparr>\<rparr>)
          else if cl_tokens cl > 0
          then (True, rl\<lparr>rl_clients := map_put (rl_clients rl) client (cl\<lparr>cl_tokens := cl_tokens cl - 1\<rparr>)\<rparr>)
          else (False, rl))"

definition client_ip :: "http_request \<Rightarrow> string" where
  "client_ip r =
     (if hr_forwarded r \<noteq> [] then hr_forwarded r
      else case cut_last colon (hr_remote r) of None \<Rightarrow> hr_remote r | Some (before, _) \<Rightarrow> before)"

definition RateLimitMiddleware :: "int \<Rightarrow> RateLimiter \<Rightarrow> http_request \<Rightarrow> nat option \<times> RateLimiter" where
  "RateLimitMiddleware now rl r =
     (case Allow now rl (client_ip r) of (True, rl') \<Rightarrow> (None, rl') | (False, rl') \<Rightarrow> (Some 429, rl'))"

section \<open>Origins and hosts\<close>

definition tailscale_host :: "string \<Rightarrow> bool" where
  "tailscale_host h \<longleftrightarrow> (case ParseIP h of None \<Rightarrow> False | Some a \<Rightarrow> tailscale a) \<or> HasSuffix h ''.ts.net''"

definition norm_origin :: "string \<times> string \<Rightarrow> string" where
  "norm_origin u = ToLower (fst u) @ ''://'' @ ToLower (snd u)"

definition originAllowed :: "(string \<Rightarrow> (string \<times> string) option) \<Rightarrow> string \<Rightarrow> string list \<Rightarrow> bool" where
  "originAllowed url origin extra \<longleftrightarrow>
     origin = ''tauri://localhost'' \<or>
     (case url origin of
        None \<Rightarrow> False
      | Some u \<Rightarrow>
          fst u \<noteq> [] \<and> snd u \<noteq> [] \<and>
          (let scheme = ToLower (fst u); hostname = ToLower (Hostname (snd u)) in
           list_ex (\<lambda>e. origin = e \<or>
             (case url e of
                None \<Rightarrow> False
              | Some v \<Rightarrow> fst v \<noteq> [] \<and> snd v \<noteq> [] \<and> norm_origin u = norm_origin v)) extra \<or>
           scheme = ''http'' \<and> (hostname = ''localhost'' \<or> hostname = ''127.0.0.1'') \<or>
           (scheme = ''http'' \<or> scheme = ''https'') \<and> tailscale_host hostname))"

text \<open>The value of the header \<open>Access-Control-Allow-Origin\<close>, whether \<open>Vary\<close> is set, and the answer.\<close>

definition CORSMiddlewareWithOrigins ::
  "(string \<Rightarrow> (string \<times> string) option) \<Rightarrow> string list \<Rightarrow> http_request \<Rightarrow> string option \<times> bool \<times> nat option" where
  "CORSMiddlewareWithOrigins url extra r =
     (let preflight = hr_method r = ''OPTIONS'' in
      if hr_origin r = [] then (Some ''*'', False, if preflight then Some 204 else None)
      else if originAllowed url (hr_origin r) extra
      then (Some (hr_origin r), True, if preflight then Some 204 else None)
      else (None, False, if preflight then Some 403 else None))"

definition strip_port :: "string \<Rightarrow> string" where
  "strip_port h = (case SplitHostPort h of None \<Rightarrow> h | Some (x, _) \<Rightarrow> x)"

definition allowed_key :: "string \<Rightarrow> string" where
  "allowed_key a = ToLower (TrimSpace (unbracket (strip_port (TrimSpace a))))"

definition host_key :: "string \<Rightarrow> string" where
  "host_key raw = ToLower (unbracket (TrimSpace (strip_port raw)))"

definition HostMiddleware :: "string list \<Rightarrow> http_request \<Rightarrow> nat option" where
  "HostMiddleware allowed r =
     (let keys = filter (\<lambda>h. h \<noteq> []) (map allowed_key allowed); host = host_key (hr_host r) in
      if host \<in> set keys \<or> tailscale_host host then None else Some 421)"

definition add_host :: "string list \<Rightarrow> string \<Rightarrow> string list" where
  "add_host result h =
     (let k = ToLower (TrimSpace (unbracket (strip_port (ToLower (TrimSpace h))))) in
      if k \<noteq> [] \<and> k \<notin> set result then result @ [k] else result)"

definition bare_host :: "string \<Rightarrow> string" where
  "bare_host addr = unbracket (TrimSpace (strip_port addr))"

text \<open>\<open>ifaces\<close> are the addresses of the interfaces, if they could be read.\<close>

definition defaultAllowedHosts :: "string list option \<Rightarrow> string \<Rightarrow> string list \<Rightarrow> string list" where
  "defaultAllowedHosts ifaces addr extra =
     (let result = foldl add_host [] [''localhost'', ''127.0.0.1'', ''::1''];
          host = bare_host addr;
          result = (if host = [] \<or> host = ''0.0.0.0'' \<or> host = ''::''
                    then (case ifaces of None \<Rightarrow> result | Some ips \<Rightarrow> foldl add_host result ips)
                    else add_host result host)
      in foldl add_host result extra)"

definition isLoopbackAddr :: "string \<Rightarrow> bool" where
  "isLoopbackAddr addr =
     (let host = ToLower (bare_host addr) in
      if host = [] then False
      else if host = ''localhost'' then True
      else case ParseIP host of None \<Rightarrow> False | Some a \<Rightarrow> IsLoopback a)"

section \<open>Credentials\<close>

definition auth_exempt :: "http_request \<Rightarrow> bool" where
  "auth_exempt r \<longleftrightarrow>
     hr_path r \<in> {''/healthz'', ''/healthz/'', ''/.well-known/agent-card.json''} \<or>
     hr_method r = ''POST'' \<and> hr_path r = ''/v1/certs/enroll''"

definition node_route :: "http_request \<Rightarrow> bool" where
  "node_route r \<longleftrightarrow>
     hr_method r = ''POST'' \<and>
       hr_path r \<in> {''/v1/mesh/join'', ''/v1/mesh/join/'', ''/v1/mesh/heartbeat'', ''/v1/mesh/heartbeat/''} \<or>
     hr_method r = ''GET'' \<and>
       hr_path r \<in> {''/v1/mesh/snapshot'', ''/v1/mesh/snapshot/'', ''/v1/mesh/events'', ''/v1/mesh/events/''}"

definition AuthMiddlewareWithConfig :: "string \<Rightarrow> string \<Rightarrow> http_request \<Rightarrow> nat option" where
  "AuthMiddlewareWithConfig adminToken nodeToken r =
     (if adminToken = [] \<and> nodeToken = [] then None
      else if hr_method r = ''OPTIONS'' then None
      else if auth_exempt r then None
      else if adminToken \<noteq> [] \<and> hr_auth r = ''Bearer '' @ adminToken then None
      else if nodeToken \<noteq> [] \<and> hr_auth r = ''Bearer '' @ nodeToken
      then (if node_route r then None else Some 403)
      else Some 401)"

definition mtls_exempt :: "http_request \<Rightarrow> bool" where
  "mtls_exempt r \<longleftrightarrow>
     hr_path r \<in> {''/healthz'', ''/healthz/'', ''/v1/mesh/ca'', ''/v1/certs/enroll'', ''/v1/certs/revoke'',
                  ''/.well-known/agent-card.json''}"

definition client_cert :: "http_request \<Rightarrow> Certificate option" where
  "client_cert r =
     (case hr_tls r of Some ((x # _) # _) \<Rightarrow> Some x | _ \<Rightarrow> None)"

definition MTLSMiddlewareWithRevocation ::
  "(string \<Rightarrow> cert_error + bool) option \<Rightarrow> http_request \<Rightarrow> nat option" where
  "MTLSMiddlewareWithRevocation checker r =
     (if mtls_exempt r then None
      else case client_cert r of
             None \<Rightarrow> Some 401
           | Some x \<Rightarrow>
               (case checker of
                  None \<Rightarrow> None
                | Some check \<Rightarrow>
                    (case check (xc_Serial x) of Inl _ \<Rightarrow> Some 500 | Inr True \<Rightarrow> Some 403 | Inr False \<Rightarrow> None)))"

text \<open>The same decision during the TLS handshake, for full and for resumed sessions.\<close>

datatype tls_error = TlsRevoked | TlsUnknown cert_error | TlsParse

definition verifyChain ::
  "(string \<Rightarrow> cert_error + bool) \<Rightarrow> Certificate list list \<Rightarrow> Certificate list \<Rightarrow> tls_error option" where
  "verifyChain check verified peers =
     (let cert = (case verified of (x # _) # _ \<Rightarrow> Some x | _ \<Rightarrow> (case peers of x # _ \<Rightarrow> Some x | [] \<Rightarrow> None)) in
      case cert of
        None \<Rightarrow> None
      | Some x \<Rightarrow>
          (case check (xc_Serial x) of Inl e \<Rightarrow> Some (TlsUnknown e) | Inr True \<Rightarrow> Some TlsRevoked | Inr False \<Rightarrow> None))"

definition VerifyPeerCertificate ::
  "(string \<Rightarrow> cert_error + bool) \<Rightarrow> (string \<Rightarrow> Certificate option) \<Rightarrow> string list \<Rightarrow> Certificate list list \<Rightarrow>
   tls_error option" where
  "VerifyPeerCertificate check parse raw verified =
     (case raw of
        [] \<Rightarrow> None
      | der # _ \<Rightarrow>
          if verified \<noteq> [] then verifyChain check verified []
          else case parse der of None \<Rightarrow> Some TlsParse | Some x \<Rightarrow> verifyChain check [[x]] [])"

section \<open>Routes\<close>

datatype route =
  RtHealthz | RtAgentCard | RtMeshCA | RtMeshJoin | RtMeshHeartbeat | RtMeshNodes | RtMeshRadar | RtPeerRegister
  | RtPeersList | RtPeerDelete | RtPeerSync | RtTerritory | RtCreateTask | RtGetTask | RtTaskEvents | RtTaskReply
  | RtTaskCancel | RtTaskCheckpoint | RtGetCheckpoint | RtWorkspaceTree | RtWorkspaceFile | RtCertsEnroll | RtCertsRevoke
  | RtSnapshot | RtEvents | RtCreateWebhook | RtListWebhooks | RtDeleteWebhook

definition wildcard :: string where
  "wildcard = ''{id}''"

definition registerRoutes :: "bool \<Rightarrow> (string \<times> string list \<times> route) list" where
  "registerRoutes joinHandler =
     [(''GET'', [''healthz''], RtHealthz),
      (''GET'', [''.well-known'', ''agent-card.json''], RtAgentCard),
      (''GET'', [''v1'', ''mesh'', ''ca''], RtMeshCA),
      (''POST'', [''v1'', ''mesh'', ''join''], RtMeshJoin),
      (''POST'', [''v1'', ''mesh'', ''heartbeat''], RtMeshHeartbeat),
      (''GET'', [''v1'', ''mesh'', ''nodes''], RtMeshNodes),
      (''GET'', [''v1'', ''mesh'', ''radar''], RtMeshRadar),
      (''POST'', [''v1'', ''mesh'', ''peers'', ''register''], RtPeerRegister),
      (''POST'', [''v1'', ''mesh'', ''peers''], RtPeerRegister),
      (''GET'', [''v1'', ''mesh'', ''peers''], RtPeersList),
      (''DELETE'', [''v1'', ''mesh'', ''peers'', wildcard], RtPeerDelete),
      (''POST'', [''v1'', ''mesh'', ''peers'', wildcard, ''sync''], RtPeerSync),
      (''GET'', [''v1'', ''mesh'', ''territory''], RtTerritory),
      (''POST'', [''v1'', ''tasks''], RtCreateTask),
      (''GET'', [''v1'', ''tasks'', wildcard], RtGetTask),
      (''GET'', [''v1'', ''tasks'', wildcard, ''events''], RtTaskEvents),
      (''POST'', [''v1'', ''tasks'', wildcard, ''reply''], RtTaskReply),
      (''POST'', [''v1'', ''tasks'', wildcard, ''cancel''], RtTaskCancel),
      (''POST'', [''v1'', ''tasks'', wildcard, ''checkpoint''], RtTaskCheckpoint),
      (''GET'', [''v1'', ''tasks'', wildcard, ''checkpoint''], RtGetCheckpoint),
      (''GET'', [''v1'', ''workspace'', ''tree''], RtWorkspaceTree),
      (''GET'', [''v1'', ''workspace'', ''file''], RtWorkspaceFile),
      (''POST'', [''v1'', ''certs'', ''enroll''], RtCertsEnroll),
      (''POST'', [''v1'', ''certs'', ''revoke''], RtCertsRevoke)] @
     (if joinHandler
      then [(''GET'', [''v1'', ''mesh'', ''snapshot''], RtSnapshot), (''GET'', [''v1'', ''mesh'', ''events''], RtEvents)]
      else []) @
     [(''POST'', [''v1'', ''webhooks''], RtCreateWebhook),
      (''GET'', [''v1'', ''webhooks''], RtListWebhooks),
      (''DELETE'', [''v1'', ''webhooks'', wildcard], RtDeleteWebhook)]"

fun match_segs :: "string list \<Rightarrow> string list \<Rightarrow> bool" where
  "match_segs [] [] = True"
| "match_segs (p # ps) (s # ss) =
     ((if p = wildcard then s \<noteq> [] else p = path_unescape s) \<and> match_segs ps ss)"
| "match_segs _ _ = False"

definition unclean_segs :: "string list \<Rightarrow> bool" where
  "unclean_segs segs \<longleftrightarrow>
     list_ex (\<lambda>s. s \<in> {[], ''.'', ''..''}) (butlast segs) \<or> segs \<noteq> [] \<and> last segs \<in> {''.'', ''..''}"

datatype http_answer = Answer nat | Handled route

text \<open>\<open>http.ServeMux\<close> on these patterns, of which no two with the same method match the same path: an unclean path is
  redirected, a pattern for GET also serves HEAD, a path with other methods only is answered with 405.\<close>

definition serve_mux :: "bool \<Rightarrow> http_request \<Rightarrow> http_answer" where
  "serve_mux joinHandler r =
     (let hits = filter (\<lambda>(m, ps, rt). match_segs ps (hr_segs r)) (registerRoutes joinHandler) in
      if unclean_segs (hr_segs r) then Answer 301
      else case find (\<lambda>(m, ps, rt). m = hr_method r \<or> m = ''GET'' \<and> hr_method r = ''HEAD'') hits of
             Some (m, ps, rt) \<Rightarrow> Handled rt
           | None \<Rightarrow> Answer (if hits = [] then 404 else 405))"

section \<open>The server\<close>

record ServerConfig =
  cfg_Addr :: string
  cfg_BearerToken :: string
  cfg_NodeToken :: string
  cfg_CORSOrigins :: "string list"
  cfg_AllowedHosts :: "string list"
  cfg_InsecureNoAuth :: bool
  cfg_TLSEnabled :: bool
  cfg_TLSCertFile :: string
  cfg_TLSKeyFile :: string
  cfg_RequireMTLS :: bool
  cfg_MeshCA :: bool
  cfg_JoinHandler :: bool
  cfg_RateLimitRequests :: int
  cfg_RateLimitWindow :: int
  cfg_RateLimitBurst :: int

definition new_limiter :: "ServerConfig \<Rightarrow> RateLimiter" where
  "new_limiter cfg = NewRateLimiter (cfg_RateLimitRequests cfg) (cfg_RateLimitWindow cfg) (cfg_RateLimitBurst cfg)"

text \<open>\<open>checker\<close> is \<open>IsCertRevoked\<close> of the server when it has a certificate store.\<close>

definition Handler ::
  "(string \<Rightarrow> (string \<times> string) option) \<Rightarrow> string list option \<Rightarrow> ServerConfig \<Rightarrow> (string \<Rightarrow> cert_error + bool) option \<Rightarrow>
   int \<Rightarrow> RateLimiter \<Rightarrow> http_request \<Rightarrow> http_answer \<times> RateLimiter" where
  "Handler url ifaces cfg checker now rl r =
     (case HostMiddleware (defaultAllowedHosts ifaces (cfg_Addr cfg) (cfg_AllowedHosts cfg)) r of
        Some st \<Rightarrow> (Answer st, rl)
      | None \<Rightarrow>
     (case snd (snd (CORSMiddlewareWithOrigins url (cfg_CORSOrigins cfg) r)) of
        Some st \<Rightarrow> (Answer st, rl)
      | None \<Rightarrow>
     (case (if cfg_RequireMTLS cfg then MTLSMiddlewareWithRevocation checker r else None) of
        Some st \<Rightarrow> (Answer st, rl)
      | None \<Rightarrow>
     (case (if cfg_BearerToken cfg \<noteq> [] \<or> cfg_NodeToken cfg \<noteq> []
            then AuthMiddlewareWithConfig (cfg_BearerToken cfg) (cfg_NodeToken cfg) r else None) of
        Some st \<Rightarrow> (Answer st, rl)
      | None \<Rightarrow>
     (case (if cfg_RateLimitRequests cfg > 0 then RateLimitMiddleware now rl r else (None, rl)) of
        (Some st, rl') \<Rightarrow> (Answer st, rl')
      | (None, rl') \<Rightarrow> (serve_mux (cfg_JoinHandler cfg) r, rl'))))))"

definition validateExposure :: "ServerConfig \<Rightarrow> bool" where
  "validateExposure cfg =
     (if cfg_InsecureNoAuth cfg then True
      else if isLoopbackAddr (cfg_Addr cfg) then True
      else if cfg_BearerToken cfg \<noteq> [] then True
      else cfg_RequireMTLS cfg)"

datatype ClientAuth = NoClientCert | VerifyClientCertIfGiven

datatype start_error = ExposureRefused | MTLSWithoutCA

definition buildTLSConfig :: "ServerConfig \<Rightarrow> start_error + ClientAuth" where
  "buildTLSConfig cfg =
     (if cfg_RequireMTLS cfg \<and> \<not> cfg_MeshCA cfg then Inl MTLSWithoutCA
      else if \<not> cfg_RequireMTLS cfg then Inr NoClientCert
      else Inr VerifyClientCertIfGiven)"

text \<open>\<open>Start\<close>: an error, or how the server listens: over plain HTTP (\<open>None\<close>) or TLS.\<close>

definition Start :: "ServerConfig \<Rightarrow> start_error + ClientAuth option" where
  "Start cfg =
     (if \<not> validateExposure cfg then Inl ExposureRefused
      else if cfg_TLSEnabled cfg \<and> cfg_TLSCertFile cfg \<noteq> [] \<and> cfg_TLSKeyFile cfg \<noteq> []
      then (case buildTLSConfig cfg of Inl e \<Rightarrow> Inl e | Inr auth \<Rightarrow> Inr (Some auth))
      else Inr None)"

end
