(* ===== verification/Enrollment_Safety.thy ===== *)
theory Enrollment_Safety
  imports Enrollment "HOL-Library.Multiset"
begin

text \<open>
  Enrollment with any number of requests at once, interleaved with revocations, replaced rows, other uses of
  tokens and restarts: every node gets at most one certificate by enrollment, in its own name, every certificate that is
  handed out was paid for with a use of its token, and a serial in the revocation ledger stays there.
\<close>

section \<open>Interleaved requests\<close>

datatype enrollment =
  Checked string string string | Paid string string string | Signed string string Certificate | Beaten string string Certificate

type_synonym enroll_state = "Coordinator \<times> enrollment multiset \<times> (string \<times> string \<times> Certificate) list"

text \<open>The state holds the requests between two of their steps and, newest first, what was handed out: token, node and
  certificate.\<close>

inductive enroll_step :: "pki_host \<Rightarrow> enroll_state \<Rightarrow> enroll_state \<Rightarrow> bool" for p where
  check: "enroll_check p flt c (Some req) = Inr n \<Longrightarrow>
    enroll_step p (c, q, d) (c, add_mset (Checked (eq_Token req) n (eq_CSR req)) q, d)"
| pay: "enroll_token flt now later c k n = (None, c') \<Longrightarrow>
    enroll_step p (c, add_mset (Checked k n r) q, d) (c', add_mset (Paid k n r) q, d)"
| refuse: "enroll_token flt now later c k n = (Some e, c') \<Longrightarrow>
    enroll_step p (c, add_mset (Checked k n r) q, d) (c', q, d)"
| sign: "SignCSR p now1 now2 created r n DefaultValidDuration = Some x \<Longrightarrow>
    enroll_step p (c, add_mset (Paid k n r) q, d) (c, add_mset (Signed k n x) q, d)"
| unsigned: "enroll_step p (c, add_mset (Paid k n r) q, d) (c, q, d)"
| recorded: "enroll_record flt c n x = (None, c') \<Longrightarrow>
    enroll_step p (c, add_mset (Signed k n x) q, d) (c', q, (k, n, x) # d)"
| beaten: "enroll_record flt c n x = (Some ErrCertIdentityExists, c') \<Longrightarrow>
    enroll_step p (c, add_mset (Signed k n x) q, d) (c', add_mset (Beaten k n x) q, d)"
| failed: "enroll_record flt c n x = (Some e, c') \<Longrightarrow>
    enroll_step p (c, add_mset (Signed k n x) q, d) (c', q, d)"
| lost: "enroll_lost flt now c n x = (e, c') \<Longrightarrow>
    enroll_step p (c, add_mset (Beaten k n x) q, d) (c', q, d)"
| revoke: "revoke_node re c serial n = (res, c') \<Longrightarrow> enroll_step p (c, q, d) (c', q, d)"
| rotate: "co_certStore c = Some s \<Longrightarrow>
    enroll_step p (c, q, d) (c\<lparr>co_certStore := Some (snd (IssueCert flt s rec))\<rparr>, q, d)"
| tokens: "co_tokenStore c = Some s \<Longrightarrow> (\<And>k. never_deleted k [call]) \<Longrightarrow>
    enroll_step p (c, q, d) (c\<lparr>co_tokenStore := Some (token_step s call)\<rparr>, q, d)"
| mesh: "enroll_step p (c, q, d) (c\<lparr>co_registry := rg, co_taskManager := tm\<rparr>, q, d)"
| restart: "restart_certs flt c = Inr c' \<Longrightarrow> enroll_step p (c, q, d) (c', {#}, d)"

definition spent :: "string \<Rightarrow> enrollment \<Rightarrow> bool" where
  "spent k x \<longleftrightarrow> (case x of Checked _ _ _ \<Rightarrow> False | Paid k' _ _ \<Rightarrow> k' = k | Signed k' _ _ \<Rightarrow> k' = k | Beaten k' _ _ \<Rightarrow> k' = k)"

definition handed_out :: "string \<Rightarrow> (string \<times> string \<times> Certificate) list \<Rightarrow> nat" where
  "handed_out k d = length (filter (\<lambda>(k', n, x). k' = k) d)"

definition token_uses :: "Coordinator \<Rightarrow> string \<Rightarrow> int" where
  "token_uses c k =
     (case co_tokenStore c of None \<Rightarrow> 0 | Some s \<Rightarrow> (case find_token s k of None \<Rightarrow> 0 | Some r \<Rightarrow> tr_uses r))"

definition token_limit :: "Coordinator \<Rightarrow> string \<Rightarrow> int" where
  "token_limit c k =
     (case co_tokenStore c of None \<Rightarrow> 0 | Some s \<Rightarrow> (case find_token s k of None \<Rightarrow> 0 | Some r \<Rightarrow> max 0 (tr_max_uses r)))"

definition own_name :: "enrollment \<Rightarrow> bool" where
  "own_name x \<longleftrightarrow> (case x of Signed _ n y \<Rightarrow> xc_CommonName y = n | _ \<Rightarrow> True)"

definition certified :: "Coordinator \<Rightarrow> string \<Rightarrow> bool" where
  "certified c n \<longleftrightarrow> (case co_certStore c of None \<Rightarrow> False | Some s \<Rightarrow> has_cert s n)"

definition revoked_in :: "Coordinator \<Rightarrow> string \<Rightarrow> bool" where
  "revoked_in c x \<longleftrightarrow> (case co_certStore c of None \<Rightarrow> False | Some s \<Rightarrow> in_ledger s x)"

definition stores_ok :: "Coordinator \<Rightarrow> bool" where
  "stores_ok c \<longleftrightarrow> co_certStore c \<noteq> None \<and> (case co_tokenStore c of None \<Rightarrow> True | Some s \<Rightarrow> tokens_ok s)"

definition enroll_inv :: "enroll_state \<Rightarrow> bool" where
  "enroll_inv st \<longleftrightarrow>
     (case st of (c, q, d) \<Rightarrow>
        stores_ok c \<and> (\<forall>k. int (size (filter_mset (spent k) q)) + int (handed_out k d) \<le> token_uses c k) \<and>
        (\<forall>x \<in># q. own_name x) \<and> distinct (map (\<lambda>(k, n, x). n) d) \<and>
        list_all (\<lambda>(k, n, x). certified c n \<and> xc_CommonName x = n) d)"

section \<open>What the steps do to the stores\<close>

lemma token_step_uses:
  assumes "tokens_ok s" and "never_deleted k [call]"
  shows "(case find_token s k of None \<Rightarrow> 0 | Some r \<Rightarrow> tr_uses r) \<le>
         (case find_token (token_step s call) k of None \<Rightarrow> 0 | Some r \<Rightarrow> tr_uses r)"
proof (cases "find_token s k")
  case None
  have "0 \<le> tr_uses r" if "find_token (token_step s call) k = Some r" for r
    using token_step_ok [OF assms(1), of call] that
    by (auto simp: tokens_ok_def list_all_iff token_row_ok_def find_token_def find_Some_iff)
  then show ?thesis using None by (auto split: option.split)
next
  case (Some r)
  from token_step_row [OF Some assms(2)] obtain r' where
    "find_token (token_step s call) k = Some r'" "int (length (admitted k [call] s)) + tr_uses r \<le> tr_uses r'" by blast
  then show ?thesis using Some by simp
qed

lemma enroll_token_uses:
  assumes "stores_ok c" and "enroll_token flt now later c k n = (e, c')"
  shows "stores_ok c' \<and> co_certStore c' = co_certStore c \<and> (\<forall>j. token_uses c j \<le> token_uses c' j) \<and>
         (e = None \<longrightarrow> token_uses c k + 1 \<le> token_uses c' k)"
proof (cases "co_tokenStore c")
  case None
  then show ?thesis using assms by (auto simp: enroll_token_def)
next
  case (Some s)
  obtain res s' where u: "UseToken flt now later s k n = (res, s')" by fastforce
  have ok: "tokens_ok s" using assms(1) Some by (simp add: stores_ok_def)
  have c': "c' = c\<lparr>co_tokenStore := Some s'\<rparr>" "e = None \<longleftrightarrow> \<not> isl res"
    using assms(2) Some u by (auto simp: enroll_token_def split: sum.splits)
  have st: "token_step s (CallUse flt now later k n) = s'" using u by simp
  have nd: "never_deleted j [CallUse flt now later k n]" for j by (simp add: never_deleted_def)
  have mono: "token_uses c j \<le> token_uses c' j" for j
    using token_step_uses [OF ok nd [of j]] Some c' st by (simp add: token_uses_def)
  have "token_uses c k + 1 \<le> token_uses c' k" if "e = None"
  proof -
    have a: "admitted k [CallUse flt now later k n] s = [n]" using that c' u by simp
    have "find_token s k \<noteq> None"
      using that c' u by (cases "find_token s k") (auto simp: UseToken_def Let_def split: if_splits)
    then obtain r where r: "find_token s k = Some r" by blast
    obtain r' where "find_token s' k = Some r'" "1 + tr_uses r \<le> tr_uses r'"
      by (rule token_step_row [OF r nd]) (use a st in simp)
    then show ?thesis using r Some c' by (simp add: token_uses_def)
  qed
  moreover have "tokens_ok s'" using token_step_ok [OF ok, of "CallUse flt now later k n"] st by simp
  ultimately show ?thesis using mono c' assms(1) by (simp add: stores_ok_def)
qed

text \<open>Steps on certificates leave the token store alone and only add nodes and revoked serials.\<close>

definition certs_grow :: "Coordinator \<Rightarrow> Coordinator \<Rightarrow> bool" where
  "certs_grow c c' \<longleftrightarrow>
     co_tokenStore c' = co_tokenStore c \<and> (co_certStore c \<noteq> None \<longrightarrow> co_certStore c' \<noteq> None) \<and>
     (\<forall>n. certified c n \<longrightarrow> certified c' n) \<and> (\<forall>x. revoked_in c x \<longrightarrow> revoked_in c' x)"

lemma certs_grow_refl [simp]: "certs_grow c c"
  by (simp add: certs_grow_def)

lemma enroll_record_grow:
  assumes "enroll_record flt c n x = (e, c')" shows "certs_grow c c'"
proof (cases "co_certStore c")
  case None
  then show ?thesis using assms by (simp add: enroll_record_def)
next
  case (Some s)
  then show ?thesis
    using assms cert_ops_grow(2) [of s _ flt "cert_record n x"] cert_ops_keep(2) [of s _ flt "cert_record n x"]
    by (cases "IssueCertIfAbsent flt s (cert_record n x)")
      (auto simp: enroll_record_def certs_grow_def certified_def revoked_in_def split: option.splits)
qed

lemma enroll_lost_grow:
  assumes "enroll_lost flt now c n x = (e, c')" shows "certs_grow c c'"
proof (cases "co_certStore c")
  case None
  then show ?thesis using assms by (simp add: enroll_lost_def)
next
  case (Some s)
  then show ?thesis
    using assms cert_ops_grow(3) [of s _ flt now "xc_Serial x" n] cert_ops_keep(3) [of s _ flt now "xc_Serial x" n]
    by (cases "RevokeSerial flt now s (xc_Serial x) n")
      (auto simp: enroll_lost_def certs_grow_def certified_def revoked_in_def split: option.splits)
qed

lemma revoke_node_grow:
  assumes "revoke_node re c serial n = (res, c')" shows "certs_grow c c'"
proof (cases "co_certStore c")
  case None
  then show ?thesis using assms by (simp add: revoke_node_def)
next
  case (Some s)
  then show ?thesis
    using assms cert_ops_grow(4) [of s _ "re_write re" "re_now re" n] cert_ops_keep(4) [of s _ "re_write re" "re_now re" n]
    by (cases "RevokeCert (re_write re) (re_now re) s n")
      (auto simp: revoke_node_def Let_def certs_grow_def certified_def revoked_in_def split: option.splits prod.splits)
qed

lemma rotate_grow:
  "co_certStore c = Some s \<Longrightarrow> certs_grow c (c\<lparr>co_certStore := Some (snd (IssueCert flt s rec))\<rparr>)"
  using cert_ops_grow(1) [of s _ flt rec] cert_ops_keep(1) [of s _ flt rec]
  by (simp add: certs_grow_def certified_def revoked_in_def)

section \<open>The invariant\<close>

lemma token_uses_store: "co_tokenStore c' = co_tokenStore c \<Longrightarrow> token_uses c' k = token_uses c k"
  by (simp add: token_uses_def)

lemma restart_effect:
  assumes "restart_certs flt c = Inr c'"
  shows "certs_grow (c\<lparr>co_tokenStore := co_tokenStore c'\<rparr>) c' \<and> (\<forall>k. token_uses c' k = token_uses c k) \<and>
         (stores_ok c \<longrightarrow> stores_ok c')"
proof -
  let ?open = "\<lambda>s. backfill_ledger (s\<lparr>cs_closed := False\<rparr>)"
  have l: "in_ledger (?open s) x" if "in_ledger s x" for s x
    using that by (simp add: backfill_in_ledger) (simp add: in_ledger_def)
  have h: "has_cert (?open s) n = has_cert s n" for s n by (simp add: has_cert_iff)
  obtain cache where c': "c' = c\<lparr>co_tokenStore := map_option (\<lambda>t. t\<lparr>ts_closed := False\<rparr>) (co_tokenStore c),
      co_certStore := map_option ?open (co_certStore c), co_revocationCache := cache\<rparr>"
    using assms by (auto simp: restart_certs_def Let_def split: sum.splits)
  have "certs_grow (c\<lparr>co_tokenStore := co_tokenStore c'\<rparr>) c'"
    using l h by (auto simp: c' certs_grow_def certified_def revoked_in_def split: option.split)
  moreover have "token_uses c' k = token_uses c k" for k
    by (simp add: c' token_uses_def find_token_def split: option.split)
  moreover have "stores_ok c \<longrightarrow> stores_ok c'" by (simp add: c' stores_ok_def tokens_ok_def split: option.split)
  ultimately show ?thesis by blast
qed

lemma enroll_invD:
  assumes "enroll_inv (c, q, d)"
  shows "stores_ok c" "int (size (filter_mset (spent k) q)) + int (handed_out k d) \<le> token_uses c k"
    "x \<in># q \<Longrightarrow> own_name x" "distinct (map (\<lambda>(k, n, x). n) d)"
    "list_all (\<lambda>(k, n, x). certified c n \<and> xc_CommonName x = n) d"
  using assms by (simp_all add: enroll_inv_def)

lemma enroll_invI:
  assumes "enroll_inv (c, q, d)" and "stores_ok c'"
    and "\<And>k. int (size (filter_mset (spent k) q')) + token_uses c k \<le> int (size (filter_mset (spent k) q)) + token_uses c' k"
    and "\<And>x. x \<in># q' \<Longrightarrow> own_name x" and "\<And>n. certified c n \<Longrightarrow> certified c' n"
  shows "enroll_inv (c', q', d)"
proof -
  have "int (size (filter_mset (spent k) q')) + int (handed_out k d) \<le> token_uses c' k" for k
    using enroll_invD(2) [OF assms(1), of k] assms(3) [of k] by linarith
  moreover have "list_all (\<lambda>(k, n, x). certified c' n \<and> xc_CommonName x = n) d"
    using enroll_invD(5) [OF assms(1)] assms(5) by (auto simp: list_all_iff)
  ultimately show ?thesis using assms(2,4) enroll_invD(4) [OF assms(1)] unfolding enroll_inv_def by blast
qed

lemma enroll_inv_grow:
  assumes inv: "enroll_inv (c, q, d)" and g: "certs_grow c c'" and q: "q' \<subseteq># q"
  shows "enroll_inv (c', q', d)"
proof (rule enroll_invI [OF inv])
  have t: "co_tokenStore c' = co_tokenStore c" using g unfolding certs_grow_def by blast
  show "stores_ok c'" using enroll_invD(1) [OF inv] g t by (auto simp: stores_ok_def certs_grow_def)
  have "size (filter_mset (spent k) q') \<le> size (filter_mset (spent k) q)" for k
    using q by (simp add: multiset_filter_mono size_mset_mono)
  then show "int (size (filter_mset (spent k) q')) + token_uses c k
      \<le> int (size (filter_mset (spent k) q)) + token_uses c' k" for k
    using token_uses_store [OF t, of k] by simp
  show "own_name x" if "x \<in># q'" for x using enroll_invD(3) [OF inv mset_subset_eqD [OF q that]] .
  show "certified c' n" if "certified c n" for n using g that unfolding certs_grow_def by blast
qed

lemma enroll_record_certified:
  assumes "enroll_record flt c n x = (None, c')" and "co_certStore c \<noteq> None"
  shows "\<not> certified c n \<and> certified c' n"
proof -
  obtain s where s: "co_certStore c = Some s" using assms(2) by blast
  have "ct_NodeID (cert_record n x) = n" by (simp add: cert_record_def)
  then show ?thesis using assms(1) s IssueCertIfAbsent_first [of flt s "cert_record n x"]
    by (cases "IssueCertIfAbsent flt s (cert_record n x)") (auto simp: enroll_record_def certified_def split: option.splits)
qed

lemma SignCSR_name: "SignCSR p now1 now2 created r n v = Some x \<Longrightarrow> xc_CommonName x = n"
  by (auto simp: SignCSR_def Let_def split: option.splits)

lemma enroll_step_inv:
  assumes "enroll_step p st st'" and "enroll_inv st" shows "enroll_inv st'"
  using assms
proof (induction rule: enroll_step.induct)
  case (check flt c req n q d)
  then show ?case by (simp add: enroll_inv_def spent_def own_name_def)
next
  case (pay flt now later c k n c' r q d)
  note u = enroll_token_uses [OF enroll_invD(1) [OF pay.prems] pay.hyps]
  show ?case
  proof (rule enroll_invI [OF pay.prems])
    have "token_uses c j \<le> token_uses c' j" "token_uses c k + 1 \<le> token_uses c' k" for j using u by blast+
    then show "int (size (filter_mset (spent j) (add_mset (Paid k n r) q))) + token_uses c j
        \<le> int (size (filter_mset (spent j) (add_mset (Checked k n r) q))) + token_uses c' j" for j
      by (cases "j = k") (simp_all add: spent_def)
    show "own_name x" if "x \<in># add_mset (Paid k n r) q" for x
      using that enroll_invD(3) [OF pay.prems, of x] by (auto simp: own_name_def)
  qed (use u in \<open>simp_all add: certified_def\<close>)
next
  case (refuse flt now later c k n e c' r q d)
  note u = enroll_token_uses [OF enroll_invD(1) [OF refuse.prems] refuse.hyps]
  show ?case
  proof (rule enroll_invI [OF refuse.prems])
    have "token_uses c j \<le> token_uses c' j" for j using u by blast
    then show "int (size (filter_mset (spent j) q)) + token_uses c j
        \<le> int (size (filter_mset (spent j) (add_mset (Checked k n r) q))) + token_uses c' j" for j
      by (simp add: spent_def)
    show "own_name x" if "x \<in># q" for x using that enroll_invD(3) [OF refuse.prems, of x] by simp
  qed (use u in \<open>simp_all add: certified_def\<close>)
next
  case (sign now1 now2 created r n x c k q d)
  show ?case
  proof (rule enroll_invI [OF sign.prems])
    show "int (size (filter_mset (spent j) (add_mset (Signed k n x) q))) + token_uses c j
        \<le> int (size (filter_mset (spent j) (add_mset (Paid k n r) q))) + token_uses c j" for j
      by (cases "k = j") (simp_all add: spent_def)
    show "own_name y" if "y \<in># add_mset (Signed k n x) q" for y
      using that enroll_invD(3) [OF sign.prems, of y] SignCSR_name [OF sign.hyps] by (auto simp: own_name_def)
  qed (use enroll_invD(1) [OF sign.prems] in simp_all)
next
  case (unsigned c k n r q d)
  then show ?case by (rule enroll_inv_grow) simp_all
next
  case (recorded flt c n x c' k q d)
  have inv: "enroll_inv (c', q, d)" by (rule enroll_inv_grow [OF recorded.prems enroll_record_grow [OF recorded.hyps]]) simp
  have "co_certStore c \<noteq> None" using recorded.prems by (simp add: enroll_inv_def stores_ok_def)
  note n = enroll_record_certified [OF recorded.hyps this]
  have "n \<notin> set (map (\<lambda>(k, n, x). n) d)"
    using recorded.prems n by (auto simp: enroll_inv_def list_all_iff)
  moreover have "xc_CommonName x = n" using recorded.prems by (simp add: enroll_inv_def own_name_def)
  moreover have "int (size (filter_mset (spent j) q)) + int (handed_out j ((k, n, x) # d)) \<le> token_uses c' j" for j
    using recorded.prems token_uses_store [of c' c j] enroll_record_grow [OF recorded.hyps]
    by (auto simp: enroll_inv_def spent_def handed_out_def certs_grow_def split: if_splits)
  ultimately show ?case using inv n by (simp add: enroll_inv_def)
next
  case (beaten flt c n x c' k q d)
  have inv: "enroll_inv (c', add_mset (Signed k n x) q, d)"
    by (rule enroll_inv_grow [OF beaten.prems enroll_record_grow [OF beaten.hyps]]) simp
  show ?case
  proof (rule enroll_invI [OF inv])
    show "int (size (filter_mset (spent j) (add_mset (Beaten k n x) q))) + token_uses c' j
        \<le> int (size (filter_mset (spent j) (add_mset (Signed k n x) q))) + token_uses c' j" for j
      by (cases "k = j") (simp_all add: spent_def)
    show "own_name y" if "y \<in># add_mset (Beaten k n x) q" for y
      using that enroll_invD(3) [OF inv, of y] by (auto simp: own_name_def)
  qed (use enroll_invD(1) [OF inv] in simp_all)
next
  case (failed flt c n x e c' k q d)
  show ?case by (rule enroll_inv_grow [OF failed.prems enroll_record_grow [OF failed.hyps]]) simp
next
  case (lost flt now c n x e c' k q d)
  show ?case by (rule enroll_inv_grow [OF lost.prems enroll_lost_grow [OF lost.hyps]]) simp
next
  case (revoke re c serial n res c' q d)
  show ?case by (rule enroll_inv_grow [OF revoke.prems revoke_node_grow [OF revoke.hyps]]) simp
next
  case (rotate c s q d flt rec)
  show ?case by (rule enroll_inv_grow [OF rotate.prems rotate_grow [OF rotate.hyps]]) simp
next
  case (tokens c s call q d)
  have ok: "tokens_ok s" using enroll_invD(1) [OF tokens.prems] tokens.hyps(1) by (simp add: stores_ok_def)
  show ?case
  proof (rule enroll_invI [OF tokens.prems])
    show "stores_ok (c\<lparr>co_tokenStore := Some (token_step s call)\<rparr>)"
      using enroll_invD(1) [OF tokens.prems] token_step_ok [OF ok, of call] by (simp add: stores_ok_def)
    show "int (size (filter_mset (spent k) q)) + token_uses c k
        \<le> int (size (filter_mset (spent k) q)) + token_uses (c\<lparr>co_tokenStore := Some (token_step s call)\<rparr>) k" for k
      using token_step_uses [OF ok tokens.hyps(2)] tokens.hyps(1) by (simp add: token_uses_def)
  qed (use enroll_invD(3) [OF tokens.prems] in \<open>simp_all add: certified_def\<close>)
next
  case (mesh c q d rg tm)
  then show ?case by (simp add: enroll_inv_def stores_ok_def token_uses_def certified_def)
next
  case (restart flt c c' q d)
  note r = restart_effect [OF restart.hyps]
  show ?case
  proof (rule enroll_invI [OF restart.prems])
    show "stores_ok c'" using r enroll_invD(1) [OF restart.prems] by blast
    have "token_uses c' k = token_uses c k" for k using r by blast
    then show "int (size (filter_mset (spent k) {#})) + token_uses c k
        \<le> int (size (filter_mset (spent k) q)) + token_uses c' k" for k by simp
    show "certified c' n" if "certified c n" for n using r that by (simp add: certs_grow_def certified_def)
  qed simp
qed

lemma enroll_inv_start:
  assumes "stores_ok c" shows "enroll_inv (c, {#}, [])"
proof -
  have "0 \<le> token_uses c k" for k
    using assms by (auto simp: stores_ok_def token_uses_def tokens_ok_def list_all_iff token_row_ok_def find_token_def
        find_Some_iff split: option.split)
  then show ?thesis using assms by (simp add: enroll_inv_def handed_out_def)
qed

lemma enroll_inv_run:
  assumes "(enroll_step p)\<^sup>*\<^sup>* st st'" and "enroll_inv st" shows "enroll_inv st'"
  using assms by (induction rule: rtranclp_induct) (auto intro: enroll_step_inv)

lemma token_uses_limit:
  assumes "stores_ok c" shows "token_uses c k \<le> token_limit c k"
proof (cases "co_tokenStore c")
  case (Some s)
  show ?thesis
  proof (cases "find_token s k")
    case r: (Some r)
    then have "r \<in> set (ts_rows s)" by (auto simp: find_token_def find_Some_iff)
    then have "token_row_ok r" using assms Some by (simp add: stores_ok_def tokens_ok_def list_all_iff)
    then show ?thesis using Some r by (simp add: token_uses_def token_limit_def token_row_ok_def)
  qed (simp add: token_uses_def token_limit_def Some)
qed (simp add: token_uses_def token_limit_def)

section \<open>The handlers are made of these steps\<close>

definition quiet_others :: "pki_host \<Rightarrow> enroll_env \<Rightarrow> bool" where
  "quiet_others p en \<longleftrightarrow> (\<forall>k c q d. (enroll_step p)\<^sup>*\<^sup>* (c, q, d) (en_others en k c, q, d))"

definition enrolled :: "EnrollmentRequest option \<Rightarrow> enroll_error + string \<times> Certificate \<Rightarrow>
    (string \<times> string \<times> Certificate) list" where
  "enrolled body res =
     (case (body, res) of (Some req, Inr (n, x)) \<Rightarrow> [(eq_Token req, n, x)] | _ \<Rightarrow> [])"

lemma enrolled_simps [simp]:
  "enrolled body (Inl e) = []" "enrolled (Some req) (Inr (n, x)) = [(eq_Token req, n, x)]"
  by (simp_all add: enrolled_def split: option.split)

lemma enroll_handler_steps:
  assumes o: "quiet_others p en" and h: "handleCertsEnroll p en c body = (res, c')"
  shows "(enroll_step p)\<^sup>*\<^sup>* (c, q, d) (c', q, enrolled body res @ d)"
proof (cases "\<exists>req n. body = Some req \<and> enroll_check p (en_get en) c body = Inr n")
  case False
  then have "c' = c" "isl res" using h
    by (auto simp: handleCertsEnroll_def split: option.splits sum.splits)
  then show ?thesis by (cases res) auto
next
  case True
  then obtain req n where b: "body = Some req" "enroll_check p (en_get en) c (Some req) = Inr n" by blast
  let ?k = "eq_Token req" and ?r = "eq_CSR req"
  have go: "(enroll_step p)\<^sup>*\<^sup>* (c1, q, d) (en_others en k c1, q, d)" for k c1 q d
    using o unfolding quiet_others_def by blast
  have 1: "(enroll_step p)\<^sup>*\<^sup>* (c, q, d) (en_others en 0 c, add_mset (Checked ?k n ?r) q, d)"
    using enroll_step.check [OF b(2)] go by (rule converse_rtranclp_into_rtranclp)
  obtain e c1 where t: "enroll_token (en_use en) (fst (en_now en)) (snd (en_now en)) (en_others en 0 c) ?k n = (e, c1)"
    by fastforce
  show ?thesis
  proof (cases e)
    case (Some x)
    then have "res = Inl x" "c' = c1" using h b t by (simp_all add: handleCertsEnroll_def)
    then show ?thesis using rtranclp.rtrancl_into_rtrancl [OF 1 enroll_step.refuse] t Some by simp
  next
    case None
    have 2: "(enroll_step p)\<^sup>*\<^sup>* (c, q, d) (c1, add_mset (Paid ?k n ?r) q, d)"
      using rtranclp.rtrancl_into_rtrancl [OF 1 enroll_step.pay] t None by simp
    obtain sg where sg: "SignCSR p (fst (en_signed en)) (snd (en_signed en)) (en_created en) ?r n DefaultValidDuration = sg"
      by blast
    show ?thesis
    proof (cases sg)
      case None
      then have "res = Inl CSRUnsigned" "c' = c1" using h b t sg \<open>e = None\<close> by (simp_all add: handleCertsEnroll_def)
      then show ?thesis using rtranclp.rtrancl_into_rtrancl [OF 2 enroll_step.unsigned] by simp
    next
      case (Some x)
      have "(enroll_step p)\<^sup>*\<^sup>* (c, q, d) (c1, add_mset (Signed ?k n x) q, d)"
        using rtranclp.rtrancl_into_rtrancl [OF 2 enroll_step.sign] sg Some by simp
      then have 3: "(enroll_step p)\<^sup>*\<^sup>* (c, q, d) (en_others en 1 c1, add_mset (Signed ?k n x) q, d)"
        using go by (rule rtranclp_trans)
      obtain f c2 where f: "enroll_record (en_issue en) (en_others en 1 c1) n x = (f, c2)" by fastforce
      note parts = h b t sg \<open>e = None\<close> Some f
      consider "f = None" | "f = Some ErrCertIdentityExists" | y where "f = Some y" "y \<noteq> ErrCertIdentityExists" by blast
      then show ?thesis
      proof cases
        case 1
        then have "res = Inr (n, x)" "c' = c2" using parts by (simp_all add: handleCertsEnroll_def)
        then show ?thesis using rtranclp.rtrancl_into_rtrancl [OF 3 enroll_step.recorded] f 1 b by simp
      next
        case 2
        obtain g c3 where g: "enroll_lost (en_revoke en) (en_revoked en) (en_others en 2 c2) n x = (g, c3)" by fastforce
        then have r: "res = Inl g" "c' = c3" using parts 2 by (simp_all add: handleCertsEnroll_def)
        have "(enroll_step p)\<^sup>*\<^sup>* (c, q, d) (c2, add_mset (Beaten ?k n x) q, d)"
          using rtranclp.rtrancl_into_rtrancl [OF 3 enroll_step.beaten] f 2 by simp
        then have "(enroll_step p)\<^sup>*\<^sup>* (c, q, d) (en_others en 2 c2, add_mset (Beaten ?k n x) q, d)"
          using go by (rule rtranclp_trans)
        from rtranclp.rtrancl_into_rtrancl [OF this enroll_step.lost [OF g]] show ?thesis using r by simp
      next
        case 3
        then have "res = Inl (CertNotRecorded y)" "c' = c2" using parts
          by (simp_all add: handleCertsEnroll_def split: cert_error.splits)
        then show ?thesis
          using rtranclp.rtrancl_into_rtrancl [OF \<open>(enroll_step p)\<^sup>*\<^sup>* (c, q, d) (en_others en 1 c1, add_mset (Signed ?k n x) q, d)\<close>
              enroll_step.failed] f 3 by simp
      qed
    qed
  qed
qed

section \<open>What enrollment guarantees\<close>

text \<open>C32. From any coordinator with a certificate store and a well-formed token table, over any interleaving of enrollments,
  revocations, replaced rows, other uses of tokens (but their deletion) and restarts: no node is given two certificates by
  enrollment, a token never pays for more certificates than it was created for, every certificate that is handed out names
  the node it was recorded for.\<close>

theorem enrollment_exact:
  assumes "stores_ok c0" and "(enroll_step p)\<^sup>*\<^sup>* (c0, {#}, []) (c, q, d)"
  shows "distinct (map (\<lambda>(k, n, x). n) d) \<and> int (handed_out k d) \<le> token_limit c k \<and>
         list_all (\<lambda>(k, n, x). certified c n \<and> xc_CommonName x = n) d"
proof -
  note inv = enroll_inv_run [OF assms(2) enroll_inv_start [OF assms(1)]]
  have "int (handed_out k d) \<le> token_limit c k"
    using enroll_invD(2) [OF inv, of k] token_uses_limit [OF enroll_invD(1) [OF inv], of k] by linarith
  then show ?thesis using enroll_invD(4,5) [OF inv] by blast
qed

lemma enroll_step_ledger: "enroll_step p st st' \<Longrightarrow> revoked_in (fst st) x \<Longrightarrow> revoked_in (fst st') x"
proof (induction rule: enroll_step.induct)
  case (pay flt now later c k n c' r q d)
  then show ?case by (auto simp: enroll_token_def revoked_in_def split: option.splits prod.splits sum.splits)
next
  case (refuse flt now later c k n e c' r q d)
  then show ?case by (auto simp: enroll_token_def revoked_in_def split: option.splits prod.splits sum.splits)
next
  case (recorded flt c n x c' k q d)
  then show ?case using enroll_record_grow [OF recorded.hyps] by (simp add: certs_grow_def)
next
  case (beaten flt c n x c' k q d)
  then show ?case using enroll_record_grow [OF beaten.hyps] by (simp add: certs_grow_def)
next
  case (failed flt c n x e c' k q d)
  then show ?case using enroll_record_grow [OF failed.hyps] by (simp add: certs_grow_def)
next
  case (lost flt now c n x e c' k q d)
  then show ?case using enroll_lost_grow [OF lost.hyps] by (simp add: certs_grow_def)
next
  case (revoke re c serial n res c' q d)
  then show ?case using revoke_node_grow [OF revoke.hyps] by (simp add: certs_grow_def)
next
  case (rotate c s q d flt rec)
  then show ?case using rotate_grow [OF rotate.hyps] by (simp add: certs_grow_def)
next
  case (restart flt c c' q d)
  have "certs_grow (c\<lparr>co_tokenStore := co_tokenStore c'\<rparr>) c'" using restart_effect [OF restart.hyps] by blast
  then show ?case using restart.prems by (simp add: certs_grow_def revoked_in_def)
qed (simp_all add: revoked_in_def)

lemma enroll_run_ledger:
  "(enroll_step p)\<^sup>*\<^sup>* st st' \<Longrightarrow> revoked_in (fst st) x \<Longrightarrow> revoked_in (fst st') x"
  by (induction rule: rtranclp_induct) (auto intro: enroll_step_ledger)

text \<open>A successful revocation puts the serial of the node's current row into the ledger; so does the loser of a race.\<close>

definition current_serial :: "Coordinator \<Rightarrow> string \<Rightarrow> string option" where
  "current_serial c n =
     (case co_certStore c of None \<Rightarrow> None | Some s \<Rightarrow> map_option cw_serial (find_cert s n))"

lemma revoke_node_ledger:
  assumes "revoke_node re c serial n = (Inr m, c')" and "current_serial c n = Some x"
  shows "revoked_in c' x"
proof -
  obtain s w where s: "co_certStore c = Some s" "find_cert s n = Some w" "cw_serial w = x"
    using assms(2) by (auto simp: current_serial_def split: option.splits)
  obtain e s' where r: "RevokeCert (re_write re) (re_now re) s n = (e, s')" by fastforce
  have "e = None" "co_certStore c' = Some s'"
    using assms(1) s r by (auto simp: revoke_node_def Let_def split: option.splits prod.splits)
  then show ?thesis using RevokeCert_ledger [of "re_write re" "re_now re" s n w] s r by (simp add: revoked_in_def)
qed

lemma enroll_lost_revoked:
  assumes "enroll_lost flt now c n x = (EnrolledConcurrently, c')" and "co_certStore c \<noteq> None"
  shows "revoked_in c' (xc_Serial x)"
  using assms by (auto simp: enroll_lost_def RevokeSerial_def revoked_in_def split: option.splits if_splits prod.splits)

section \<open>Witness\<close>

definition sample_pki :: pki_host where
  "sample_pki = \<lparr>pk_parse = (\<lambda>pem. if pem = [] then None else Some \<lparr>cr_DNSNames = [], cr_IPAddresses = []\<rparr>)\<rparr>"

definition sample_coordinator :: Coordinator where
  "sample_coordinator = \<lparr>co_TLSEnabled = True, co_meshCA = True, co_BearerToken = ''b'', co_tokenStore = Some sample_tokens,
     co_certStore = Some \<lparr>cs_certs = [], cs_ledger = [], cs_closed = False\<rparr>, co_revocationCache = [],
     co_registry = NewRegistry 30, co_taskManager = \<lparr>tm_taskTTL = 0, tm_store = None, tm_tasks = [], tm_closed = False,
     tm_files = (\<lambda>_. None)\<rparr>\<rparr>"

definition sample_enroll_env :: enroll_env where
  "sample_enroll_env = \<lparr>en_get = IoOk, en_use = IoOk, en_now = (5, 5), en_signed = (6, 6), en_created = Some (''17'', ''PEM''),
     en_issue = IoOk, en_revoke = IoOk, en_revoked = 7, en_others = (\<lambda>k c. c)\<rparr>"

definition sample_enroll :: EnrollmentRequest where
  "sample_enroll = \<lparr>eq_Token = ''t'', eq_CSR = ''csr'', eq_NodeID = '' n1 ''\<rparr>"

text \<open>One enrollment with a token for one node.\<close>

theorem enrollment_exact_witness:
  "\<exists>c d. (enroll_step sample_pki)\<^sup>*\<^sup>* (sample_coordinator, {#}, []) (c, {#}, d) \<and>
     map (\<lambda>(k, n, x). (k, n)) d = [(''t'', ''n1'')] \<and> int (handed_out ''t'' d) \<le> token_limit c ''t''"
proof -
  obtain res c where h: "handleCertsEnroll sample_pki sample_enroll_env sample_coordinator (Some sample_enroll) = (res, c)"
    by fastforce
  have "(case fst (handleCertsEnroll sample_pki sample_enroll_env sample_coordinator (Some sample_enroll)) of
      Inl e \<Rightarrow> None | Inr (n, x) \<Rightarrow> Some n) = Some ''n1''" by code_simp
  then obtain x where r: "res = Inr (''n1'', x)" using h by (auto split: sum.splits)
  have "quiet_others sample_pki sample_enroll_env" by (simp add: quiet_others_def sample_enroll_env_def)
  from enroll_handler_steps [OF this h, of "{#}" "[]"]
  have run: "(enroll_step sample_pki)\<^sup>*\<^sup>* (sample_coordinator, {#}, []) (c, {#}, [(''t'', ''n1'', x)])"
    by (simp add: r sample_enroll_def)
  have "tokens_ok sample_tokens" unfolding sample_tokens_def by (rule CreateToken_ok) (simp add: tokens_ok_def)
  then have "stores_ok sample_coordinator" by (simp add: stores_ok_def sample_coordinator_def)
  from enrollment_exact [OF this run, of "''t''"] run
  show ?thesis by (intro exI [of _ c] exI [of _ "[(''t'', ''n1'', x)]"]) simp
qed

text \<open>\<open>gentle-mesh cert-issue\<close> signs a certificate and writes files only: nothing enters the store. Revoking its node leaves
  it accepted, because a revocation records the serial of the stored row.\<close>

lemma unrecorded_serial_unrevoked:
  assumes "co_certStore c = Some s" and "\<not> in_ledger s x" and "x \<notin> cw_serial ` set (cs_certs s)"
    and "revoke_node re c serial n = (res, c')"
  shows "\<not> revoked_in c' x"
proof -
  obtain e s' where r: "RevokeCert (re_write re) (re_now re) s n = (e, s')" by fastforce
  have "cw_serial w \<noteq> x" if "find_cert s n = Some w" for w
    using assms(3) that by (auto simp: find_cert_def find_Some_iff)
  then have "\<not> in_ledger s' x" using r assms(2)
    by (auto simp: RevokeCert_def in_ledger_def ledger_insert_def split: if_splits option.splits)
  moreover have "co_certStore c' = Some s'" using assms(1,4) r
    by (auto simp: revoke_node_def Let_def split: option.splits prod.splits)
  ultimately show ?thesis by (simp add: revoked_in_def)
qed

end
