(* ===== verification/Middleware_Safety.thy ===== *)
theory Middleware_Safety
  imports Middleware Enrollment_Safety
begin

text \<open>
  What reaches a handler of the coordinator: only requests with the credentials of their route, none with a revoked
  certificate, and not more than the limiter allows.
\<close>

section \<open>Routes and paths\<close>

text \<open>A pattern is matched by its own path or, with a wildcard, by paths that continue its literal beginning.\<close>

definition leading :: "string list \<Rightarrow> string list" where
  "leading ps = takeWhile (\<lambda>p. p \<noteq> wildcard) ps"

definition pattern_covers :: "string list \<Rightarrow> string \<Rightarrow> bool" where
  "pattern_covers ps path \<longleftrightarrow>
     (if leading ps = ps then path = ''/'' @ Join ps ''/''
      else leading ps = [] \<or> HasPrefix path (''/'' @ Join (leading ps) ''/'' @ ''/''))"

lemma match_segs_map: "match_segs ps ss \<Longrightarrow> leading ps = ps \<Longrightarrow> map path_unescape ss = ps"
  by (induction ps ss rule: match_segs.induct) (auto simp: leading_def split: if_splits)

lemma Join_snoc: "xs \<noteq> [] \<Longrightarrow> ys \<noteq> [] \<Longrightarrow> Join (xs @ ys) sep = Join xs sep @ sep @ Join ys sep"
  by (induction xs sep rule: Join.induct) (auto simp: neq_Nil_conv)

lemma match_segs_leading:
  "match_segs ps ss \<Longrightarrow> leading ps \<noteq> ps \<Longrightarrow> \<exists>rest. rest \<noteq> [] \<and> map path_unescape ss = leading ps @ rest"
proof (induction ps ss rule: match_segs.induct)
  case (2 p ps s ss)
  show ?case
  proof (cases "p = wildcard")
    case False
    then have "match_segs ps ss" "leading ps \<noteq> ps" "path_unescape s = p" using "2.prems" by (auto simp: leading_def)
    then show ?thesis using "2.IH" False by (auto simp: leading_def)
  qed (simp add: leading_def)
qed (simp_all add: leading_def)

lemma match_covers:
  assumes m: "match_segs ps (hr_segs r)" shows "pattern_covers ps (hr_path r)"
proof (cases "leading ps = ps")
  case True
  then show ?thesis using match_segs_map [OF m] by (simp add: pattern_covers_def hr_path_def)
next
  case False
  obtain rest where r: "rest \<noteq> []" "map path_unescape (hr_segs r) = leading ps @ rest"
    using match_segs_leading [OF m False] by blast
  show ?thesis
  proof (cases "leading ps = []")
    case ne: False
    have "hr_path r = (''/'' @ Join (leading ps) ''/'' @ ''/'') @ Join rest ''/''"
      unfolding hr_path_def r(2) Join_snoc [OF ne r(1)] by simp
    then show ?thesis using False unfolding pattern_covers_def by (simp add: HasPrefix_def)
  qed (use False in \<open>simp add: pattern_covers_def\<close>)
qed

lemma serve_mux_route:
  assumes "serve_mux j r = Handled rt"
  obtains m ps where "(m, ps, rt) \<in> set (registerRoutes j)" and "match_segs ps (hr_segs r)"
    and "m = hr_method r \<or> m = ''GET'' \<and> hr_method r = ''HEAD''"
  using assms by (auto simp: serve_mux_def Let_def find_Some_iff split: if_splits option.splits dest!: nth_mem)

definition public_routes :: "route set" where
  "public_routes = {RtHealthz, RtAgentCard, RtCertsEnroll}"

definition node_routes :: "route set" where
  "node_routes = {RtMeshJoin, RtMeshHeartbeat, RtSnapshot, RtEvents}"

definition uncertified_routes :: "route set" where
  "uncertified_routes = {RtHealthz, RtAgentCard, RtCertsEnroll, RtMeshCA, RtCertsRevoke}"

text \<open>The table of routes, checked against the literal paths of the middleware.\<close>

definition guarded :: "string list \<Rightarrow> route set \<Rightarrow> bool" where
  "guarded paths routes \<longleftrightarrow>
     list_all (\<lambda>(m, ps, rt). list_ex (pattern_covers ps) paths \<longrightarrow> rt \<in> routes) (registerRoutes True)"

lemma table_guarded:
  "guarded [''/healthz'', ''/healthz/'', ''/.well-known/agent-card.json'', ''/v1/certs/enroll''] public_routes"
  "guarded [''/v1/mesh/join'', ''/v1/mesh/join/'', ''/v1/mesh/heartbeat'', ''/v1/mesh/heartbeat/'', ''/v1/mesh/snapshot'',
     ''/v1/mesh/snapshot/'', ''/v1/mesh/events'', ''/v1/mesh/events/''] node_routes"
  "guarded [''/healthz'', ''/healthz/'', ''/v1/mesh/ca'', ''/v1/certs/enroll'', ''/v1/certs/revoke'',
     ''/.well-known/agent-card.json''] uncertified_routes"
  by code_simp+

lemma guarded_route:
  assumes "guarded paths routes" and "serve_mux j r = Handled rt" and "hr_path r \<in> set paths"
  shows "rt \<in> routes"
proof -
  obtain m ps where r: "(m, ps, rt) \<in> set (registerRoutes j)" "match_segs ps (hr_segs r)"
    by (rule serve_mux_route [OF assms(2)]) blast
  have "(m, ps, rt) \<in> set (registerRoutes True)" using r(1) by (auto simp: registerRoutes_def split: if_splits)
  then have "list_ex (pattern_covers ps) paths \<longrightarrow> rt \<in> routes" using assms(1) by (auto simp: guarded_def list_all_iff)
  then show ?thesis using match_covers [OF r(2)] assms(3) by (auto simp: list_ex_iff)
qed

lemma exempt_route:
  assumes "serve_mux j r = Handled rt"
  shows "auth_exempt r \<Longrightarrow> rt \<in> public_routes" "node_route r \<Longrightarrow> rt \<in> node_routes"
    "mtls_exempt r \<Longrightarrow> rt \<in> uncertified_routes"
  using table_guarded [THEN guarded_route, OF assms] by (auto simp: auth_exempt_def node_route_def mtls_exempt_def)

section \<open>Credentials\<close>

definition admin_request :: "ServerConfig \<Rightarrow> http_request \<Rightarrow> bool" where
  "admin_request cfg r \<longleftrightarrow> cfg_BearerToken cfg \<noteq> [] \<and> hr_auth r = ''Bearer '' @ cfg_BearerToken cfg"

definition node_request :: "ServerConfig \<Rightarrow> http_request \<Rightarrow> bool" where
  "node_request cfg r \<longleftrightarrow> cfg_NodeToken cfg \<noteq> [] \<and> hr_auth r = ''Bearer '' @ cfg_NodeToken cfg"

definition certified_request :: "(string \<Rightarrow> cert_error + bool) option \<Rightarrow> http_request \<Rightarrow> bool" where
  "certified_request checker r \<longleftrightarrow>
     (case client_cert r of
        None \<Rightarrow> False
      | Some x \<Rightarrow> (case checker of None \<Rightarrow> True | Some check \<Rightarrow> check (xc_Serial x) = Inr False))"

definition allowed_host :: "string list option \<Rightarrow> ServerConfig \<Rightarrow> http_request \<Rightarrow> bool" where
  "allowed_host ifaces cfg r \<longleftrightarrow>
     HostMiddleware (defaultAllowedHosts ifaces (cfg_Addr cfg) (cfg_AllowedHosts cfg)) r = None"

lemma Handler_stages:
  assumes "Handler url ifaces cfg checker now rl r = (Handled rt, rl')"
  shows "serve_mux (cfg_JoinHandler cfg) r = Handled rt" "allowed_host ifaces cfg r" "hr_method r \<noteq> ''OPTIONS''"
    "cfg_RequireMTLS cfg \<Longrightarrow> MTLSMiddlewareWithRevocation checker r = None"
    "cfg_BearerToken cfg \<noteq> [] \<or> cfg_NodeToken cfg \<noteq> [] \<Longrightarrow>
       AuthMiddlewareWithConfig (cfg_BearerToken cfg) (cfg_NodeToken cfg) r = None"
    "cfg_RateLimitRequests cfg > 0 \<Longrightarrow> Allow now rl (client_ip r) = (True, rl')"
  using assms unfolding Handler_def allowed_host_def
  by (auto simp: CORSMiddlewareWithOrigins_def Let_def RateLimitMiddleware_def split: option.splits if_splits prod.splits bool.splits)

lemma mtls_passed:
  assumes "MTLSMiddlewareWithRevocation checker r = None" shows "mtls_exempt r \<or> certified_request checker r"
  using assms by (auto simp: MTLSMiddlewareWithRevocation_def certified_request_def split: if_splits option.splits sum.splits bool.splits)

lemma auth_passed:
  assumes "AuthMiddlewareWithConfig (cfg_BearerToken cfg) (cfg_NodeToken cfg) r = None"
    and "cfg_BearerToken cfg \<noteq> [] \<or> cfg_NodeToken cfg \<noteq> []" and "hr_method r \<noteq> ''OPTIONS''"
  shows "auth_exempt r \<or> admin_request cfg r \<or> node_request cfg r \<and> node_route r"
  using assms by (auto simp: AuthMiddlewareWithConfig_def admin_request_def node_request_def split: if_splits)

section \<open>The limiter over a sequence of requests\<close>

text \<open>The requests that pass, with their times.\<close>

fun passed :: "RateLimiter \<Rightarrow> (int \<times> string) list \<Rightarrow> (int \<times> string) list" where
  "passed rl [] = []"
| "passed rl ((t, c) # calls) =
     (case Allow t rl c of (ok, rl') \<Rightarrow> (if ok then [(t, c)] else []) @ passed rl' calls)"

definition in_window :: "string \<Rightarrow> int \<Rightarrow> int \<Rightarrow> int \<times> string \<Rightarrow> bool" where
  "in_window client a b x \<longleftrightarrow> snd x = client \<and> a \<le> fst x \<and> fst x \<le> b"

lemma Allow_frame [simp]:
  "rl_window (snd (Allow t rl c)) = rl_window rl" "rl_burst (snd (Allow t rl c)) = rl_burst rl"
  "c \<noteq> client \<Longrightarrow> map_get (rl_clients (snd (Allow t rl c))) client = map_get (rl_clients rl) client"
  by (simp_all add: Allow_def gomap_simps split: option.split)

definition tokens_of :: "RateLimiter \<Rightarrow> int" where
  "tokens_of rl = max 1 (rl_burst rl)"

text \<open>How many requests of the client may still pass between \<open>a\<close> and one window later, seen at time \<open>t\<close>.\<close>

definition rate_budget :: "RateLimiter \<Rightarrow> string \<Rightarrow> int \<Rightarrow> int \<Rightarrow> int" where
  "rate_budget rl client a t =
     (if t > a + rl_window rl then 0
      else case map_get (rl_clients rl) client of
             None \<Rightarrow> 2 * tokens_of rl - 1
           | Some cl \<Rightarrow>
               if cl_lastReset cl \<ge> a then max 0 (cl_tokens cl)
               else if t \<ge> a then max 0 (cl_tokens cl) + tokens_of rl
               else 2 * tokens_of rl - 1)"

lemma tokens_of_Allow [simp]: "tokens_of (snd (Allow t rl c)) = tokens_of rl"
  by (simp add: tokens_of_def)

definition limiter_ok :: "RateLimiter \<Rightarrow> string \<Rightarrow> bool" where
  "limiter_ok rl client \<longleftrightarrow>
     (case map_get (rl_clients rl) client of None \<Rightarrow> True | Some cl \<Rightarrow> cl_tokens cl < tokens_of rl)"

lemma limiter_ok_Allow: "limiter_ok rl client \<Longrightarrow> limiter_ok (snd (Allow t rl c)) client"
  by (cases "c = client")
    (auto simp: limiter_ok_def tokens_of_def Allow_def gomap_simps split: option.splits)

lemma rate_budget_later: "limiter_ok rl client \<Longrightarrow> t \<le> t' \<Longrightarrow> rate_budget rl client a t' \<le> rate_budget rl client a t"
  by (auto simp: rate_budget_def limiter_ok_def tokens_of_def split: option.splits)

lemma rate_budget_step:
  assumes "limiter_ok rl client" and "t \<le> a + rl_window rl"
  shows "(if fst (Allow t rl client) \<and> a \<le> t then 1 else 0) + rate_budget (snd (Allow t rl client)) client a t
      \<le> rate_budget rl client a t"
proof (cases "map_get (rl_clients rl) client")
  case None
  then show ?thesis using assms by (auto simp: rate_budget_def Allow_def tokens_of_def gomap_simps)
next
  case (Some cl)
  show ?thesis
  proof (cases "t - cl_lastReset cl > rl_window rl")
    case True
    then show ?thesis using assms Some by (auto simp: rate_budget_def Allow_def tokens_of_def gomap_simps limiter_ok_def)
  next
    case False
    then show ?thesis using assms Some by (auto simp: rate_budget_def Allow_def tokens_of_def gomap_simps limiter_ok_def)
  qed
qed

lemma rate_budget_other:
  assumes "c \<noteq> client" shows "rate_budget (snd (Allow t rl c)) client a t' = rate_budget rl client a t'"
  unfolding rate_budget_def Allow_frame(1) tokens_of_Allow Allow_frame(3) [OF assms] ..

lemma passed_bound:
  assumes "limiter_ok rl client" and "sorted (map fst calls)" and "\<And>x. x \<in> set calls \<Longrightarrow> t0 \<le> fst x"
  shows "int (length (filter (in_window client a (a + rl_window rl)) (passed rl calls))) \<le> rate_budget rl client a t0"
  using assms
proof (induction calls arbitrary: rl t0)
  case Nil
  then show ?case by (auto simp: rate_budget_def tokens_of_def split: option.split)
next
  case (Cons x calls)
  obtain t c where x: "x = (t, c)" by fastforce
  obtain ok rl' where al: "Allow t rl c = (ok, rl')" by fastforce
  have fr: "rl_window rl' = rl_window rl" "limiter_ok rl' client"
    using Allow_frame(1) [of t rl c] limiter_ok_Allow [OF Cons.prems(1), of t c] al by simp_all
  have le: "t0 \<le> t" using Cons.prems(3) [of x] x by simp
  have IH: "int (length (filter (in_window client a (a + rl_window rl)) (passed rl' calls))) \<le> rate_budget rl' client a t"
    using Cons.IH [OF fr(2), of t] Cons.prems(2) x fr(1) by auto
  let ?n = "int (length (filter (in_window client a (a + rl_window rl)) (if ok then [(t, c)] else [])))"
  have n: "int (length (filter (in_window client a (a + rl_window rl)) (passed rl (x # calls)))) =
      ?n + int (length (filter (in_window client a (a + rl_window rl)) (passed rl' calls)))"
    using x al by simp
  have "?n + rate_budget rl' client a t \<le> rate_budget rl client a t"
  proof (cases "t \<le> a + rl_window rl")
    case True
    show ?thesis
    proof (cases "c = client")
      case True
      then show ?thesis using rate_budget_step [OF Cons.prems(1) \<open>t \<le> a + rl_window rl\<close>] al \<open>t \<le> a + rl_window rl\<close>
        by (auto simp: in_window_def split: if_splits)
    next
      case False
      then show ?thesis using rate_budget_other [OF False, of t rl a t] al by (simp add: in_window_def)
    qed
  next
    case False
    then show ?thesis using fr(1) by (auto simp: rate_budget_def in_window_def)
  qed
  then show ?case using n IH rate_budget_later [OF Cons.prems(1) le, of a] by linarith
qed

text \<open>C35. Of the requests of one client that arrive within one window, wherever it begins, at most \<open>2 * burst - 1\<close> pass.\<close>

theorem rate_window_bound:
  assumes "sorted (map fst calls)"
  shows "int (length (filter (in_window client a (a + window)) (passed (NewRateLimiter limit window burst) calls)))
      \<le> 2 * max 1 burst - 1"
proof -
  let ?rl = "NewRateLimiter limit window burst"
  have ok: "limiter_ok ?rl client" and w: "rl_window ?rl = window"
    by (simp_all add: limiter_ok_def NewRateLimiter_def)
  have "rate_budget ?rl client a t \<le> 2 * max 1 burst - 1" for t
    by (simp add: rate_budget_def NewRateLimiter_def tokens_of_def)
  moreover have "\<exists>t0. \<forall>x \<in> set calls. t0 \<le> fst x"
    using assms by (intro exI [of _ "fst (hd calls)"]) (cases calls; auto)
  ultimately show ?thesis using passed_bound [OF ok assms] w by (metis order_trans)
qed

text \<open>The limit per window is never read, and a client that names itself in \<open>X-Forwarded-For\<close> is not limited at all.\<close>

lemma limit_not_enforced:
  "map fst (passed (NewRateLimiter 1 60 3) [(0, ''a''), (1, ''a''), (2, ''a''), (3, ''a'')]) = [0, 1, 2]"
  by code_simp

lemma forwarded_unlimited:
  assumes "distinct (map snd calls)" and "\<And>x. x \<in> set calls \<Longrightarrow> map_get (rl_clients rl) (snd x) = None"
  shows "passed rl calls = calls"
  using assms
proof (induction calls arbitrary: rl)
  case (Cons x calls)
  obtain t c where x: "x = (t, c)" by fastforce
  obtain ok rl' where al: "Allow t rl c = (ok, rl')" by fastforce
  have ok: "ok" using Cons.prems(2) [of x] al x by (auto simp: Allow_def)
  have "map_get (rl_clients rl') (snd y) = None" if "y \<in> set calls" for y
  proof -
    have "c \<noteq> snd y" using Cons.prems(1) x that by force
    from Allow_frame(3) [OF this, of t rl] show ?thesis using Cons.prems(2) [of y] that al by simp
  qed
  then show ?case using Cons.IH [of rl'] Cons.prems(1) x al ok by simp
qed simp

section \<open>Authorisation\<close>

lemma authorized_parts:
  assumes "Handler url ifaces cfg checker now rl r = (Handled rt, rl')"
  shows "allowed_host ifaces cfg r" "hr_method r \<noteq> ''OPTIONS''"
    "cfg_BearerToken cfg = [] \<and> cfg_NodeToken cfg = [] \<or>
       rt \<in> public_routes \<or> admin_request cfg r \<or> node_request cfg r \<and> rt \<in> node_routes"
    "cfg_RequireMTLS cfg = False \<or> rt \<in> uncertified_routes \<or> certified_request checker r"
    "validateExposure cfg = False \<or> cfg_InsecureNoAuth cfg \<or> isLoopbackAddr (cfg_Addr cfg) \<or> rt \<in> uncertified_routes \<or>
       admin_request cfg r \<or> node_request cfg r \<and> rt \<in> node_routes \<or> certified_request checker r"
proof -
  note st = Handler_stages [OF assms]
  show "allowed_host ifaces cfg r" "hr_method r \<noteq> ''OPTIONS''" by (fact st(2), fact st(3))
  show a: "cfg_BearerToken cfg = [] \<and> cfg_NodeToken cfg = [] \<or>
      rt \<in> public_routes \<or> admin_request cfg r \<or> node_request cfg r \<and> rt \<in> node_routes"
    using auth_passed [OF st(5) _ st(3)] exempt_route(1,2) [OF st(1)] by blast
  show m: "cfg_RequireMTLS cfg = False \<or> rt \<in> uncertified_routes \<or> certified_request checker r"
    using mtls_passed [OF st(4)] exempt_route(3) [OF st(1)] by blast
  have "public_routes \<subseteq> uncertified_routes" by (simp add: public_routes_def uncertified_routes_def)
  then show "validateExposure cfg = False \<or> cfg_InsecureNoAuth cfg \<or> isLoopbackAddr (cfg_Addr cfg) \<or>
      rt \<in> uncertified_routes \<or> admin_request cfg r \<or> node_request cfg r \<and> rt \<in> node_routes \<or> certified_request checker r"
    using a m by (auto simp: validateExposure_def)
qed


text \<open>With a bearer token the certificate of the mesh CA needs the token, although its handler is documented as public.\<close>

lemma mesh_ca_needs_token:
  assumes "cfg_BearerToken cfg \<noteq> []" and "hr_auth r = []"
  shows "fst (Handler url ifaces cfg checker now rl r) \<noteq> Handled RtMeshCA"
proof
  assume "fst (Handler url ifaces cfg checker now rl r) = Handled RtMeshCA"
  then obtain rl' where h: "Handler url ifaces cfg checker now rl r = (Handled RtMeshCA, rl')"
    by (cases "Handler url ifaces cfg checker now rl r") simp
  show False using authorized_parts(3) [OF h] assms
    by (auto simp: public_routes_def node_routes_def admin_request_def node_request_def)
qed

section \<open>Revoked certificates\<close>

lemma revoked_is_refused:
  assumes "revoked_in c x" shows "coordinator_revoked flt c x \<noteq> Inr False"
  using assms by (auto simp: revoked_in_def coordinator_revoked_def IsCertRevoked_def split: option.splits)

text \<open>C33. Once the certificate of a node is revoked, no request that presents it is served again, but on the routes that need
  no certificate: over all later enrollments, revocations, uses of tokens and restarts, and also if the ledger cannot be
  read.\<close>

theorem revoked_never_served:
  assumes "current_serial c n = Some (xc_Serial x)" and "revoke_node re c serial n = (Inr m, c1)"
    and "(enroll_step p)\<^sup>*\<^sup>* (c1, q1, d1) (c2, q2, d2)"
    and "cfg_RequireMTLS cfg" and "client_cert r = Some x" and "rt \<notin> uncertified_routes"
  shows "fst (Handler url ifaces cfg (Some (coordinator_revoked flt c2)) now rl r) \<noteq> Handled rt"
proof
  assume "fst (Handler url ifaces cfg (Some (coordinator_revoked flt c2)) now rl r) = Handled rt"
  then obtain rl' where h: "Handler url ifaces cfg (Some (coordinator_revoked flt c2)) now rl r = (Handled rt, rl')"
    by (cases "Handler url ifaces cfg (Some (coordinator_revoked flt c2)) now rl r") simp
  have "revoked_in c1 (xc_Serial x)" by (rule revoke_node_ledger [OF assms(2,1)])
  then have "revoked_in c2 (xc_Serial x)" using enroll_run_ledger [OF assms(3)] by simp
  then have "coordinator_revoked flt c2 (xc_Serial x) \<noteq> Inr False" by (rule revoked_is_refused)
  moreover have "certified_request (Some (coordinator_revoked flt c2)) r"
    using authorized_parts(4) [OF h] assms(4,6) by blast
  ultimately show False using assms(5) by (simp add: certified_request_def)
qed

section \<open>Witnesses\<close>

definition sample_server_config :: ServerConfig where
  "sample_server_config = \<lparr>cfg_Addr = '':8443'', cfg_BearerToken = ''admin'', cfg_NodeToken = ''node'', cfg_CORSOrigins = [],
     cfg_AllowedHosts = [''mesh.example:8443''], cfg_InsecureNoAuth = False, cfg_TLSEnabled = True, cfg_TLSCertFile = ''c'',
     cfg_TLSKeyFile = ''k'', cfg_RequireMTLS = True, cfg_MeshCA = True, cfg_JoinHandler = True, cfg_RateLimitRequests = 1,
     cfg_RateLimitWindow = 60, cfg_RateLimitBurst = 2\<rparr>"

definition sample_certificate :: Certificate where
  "sample_certificate = \<lparr>xc_CommonName = ''n1'', xc_Serial = ''17'', xc_DNSNames = [''n1''], xc_IPAddresses = [],
     xc_NotBefore = 0, xc_NotAfter = 9, xc_PEM = ''PEM''\<rparr>"

definition sample_http_request :: "string \<Rightarrow> string list \<Rightarrow> string \<Rightarrow> http_request" where
  "sample_http_request mth segs auth = \<lparr>hr_method = mth, hr_segs = segs, hr_host = ''mesh.example:8443'', hr_origin = [],
     hr_auth = auth, hr_forwarded = [], hr_remote = ''10.0.0.1:99'', hr_tls = Some [[sample_certificate]]\<rparr>"


theorem rate_window_bound_witness:
  "map fst (passed (NewRateLimiter 1 60 2) [(0, ''a''), (59, ''a''), (61, ''a''), (62, ''a''), (63, ''a'')]) = [0, 59, 61, 62] \<and>
   int (length (filter (in_window ''a'' 59 (59 + 60))
     (passed (NewRateLimiter 1 60 2) [(0, ''a''), (59, ''a''), (61, ''a''), (62, ''a''), (63, ''a'')]))) \<le> 3"
proof -
  let ?calls = "[(0, ''a''), (59, ''a''), (61, ''a''), (62, ''a''), (63, ''a'')] :: (int \<times> string) list"
  have "map fst (passed (NewRateLimiter 1 60 2) ?calls) = [0, 59, 61, 62]" by code_simp
  moreover have "sorted (map fst ?calls)" by simp
  ultimately show ?thesis using rate_window_bound [of ?calls "''a''" 59 60 1 2] by simp
qed

definition certified_coordinator :: Coordinator where
  "certified_coordinator = sample_coordinator\<lparr>co_certStore :=
     Some (snd (IssueCertIfAbsent IoOk \<lparr>cs_certs = [], cs_ledger = [], cs_closed = False\<rparr> (cert_record ''n1'' sample_certificate)))\<rparr>"

definition sample_revoke :: revoke_env where
  "sample_revoke = \<lparr>re_get = IoOk, re_write = IoOk, re_now = 5, re_between = (\<lambda>c. c), re_logs = (\<lambda>_. (WriteOk, WriteOk))\<rparr>"

text \<open>A node is served before its certificate is revoked and not after a restart that follows the revocation.\<close>

theorem revoked_never_served_witness:
  "let r = sample_http_request ''GET'' [''v1'', ''mesh'', ''nodes''] ''Bearer admin'';
       serve = (\<lambda>c. fst (Handler (\<lambda>_. None) None sample_server_config (Some (coordinator_revoked IoOk c)) 0 (new_limiter sample_server_config) r))
   in serve certified_coordinator = Handled RtMeshNodes \<and>
      (\<exists>c1 c2. fst (revoke_node sample_revoke certified_coordinator ''17'' ''n1'') = Inr 0 \<and>
         c1 = snd (revoke_node sample_revoke certified_coordinator ''17'' ''n1'') \<and> restart_certs IoOk c1 = Inr c2 \<and>
         serve c2 \<noteq> Handled RtMeshNodes)"
proof -
  let ?r = "sample_http_request ''GET'' [''v1'', ''mesh'', ''nodes''] ''Bearer admin''"
  obtain res c1 where rv: "revoke_node sample_revoke certified_coordinator ''17'' ''n1'' = (res, c1)" by fastforce
  have "fst (revoke_node sample_revoke certified_coordinator ''17'' ''n1'') = Inr 0" by code_simp
  then have res: "res = Inr 0" using rv by simp
  have "isl (restart_certs IoOk (snd (revoke_node sample_revoke certified_coordinator ''17'' ''n1''))) = False" by code_simp
  then obtain c2 where c2: "restart_certs IoOk c1 = Inr c2" using rv by (cases "restart_certs IoOk c1") auto
  have cs: "current_serial certified_coordinator ''n1'' = Some (xc_Serial sample_certificate)" by code_simp
  have run: "(enroll_step sample_pki)\<^sup>*\<^sup>* (c1, {#}, []) (c2, {#}, [])" using enroll_step.restart [OF c2] by blast
  have "cfg_RequireMTLS sample_server_config" "client_cert ?r = Some sample_certificate" "RtMeshNodes \<notin> uncertified_routes"
    by (simp_all add: sample_server_config_def client_cert_def sample_http_request_def uncertified_routes_def)
  from revoked_never_served [OF cs rv [unfolded res] run this] have
    "fst (Handler (\<lambda>_. None) None sample_server_config (Some (coordinator_revoked IoOk c2)) 0 (new_limiter sample_server_config) ?r)
      \<noteq> Handled RtMeshNodes" .
  moreover have "fst (Handler (\<lambda>_. None) None sample_server_config (Some (coordinator_revoked IoOk certified_coordinator)) 0
      (new_limiter sample_server_config) ?r) = Handled RtMeshNodes" by code_simp
  ultimately show ?thesis using rv res c2 by (auto simp: Let_def)
qed

end
