(* ===== verification/Idempotency.thy ===== *)
theory Idempotency
  imports Go_Base
begin

text \<open>
  The idempotency keys of the coordinator: \<open>pkg/server/registry/idempotency.go\<close>.

  A store remembers, for each key, the task that was created for it and when. Times and the
  time-to-live are nanoseconds; \<open>now\<close> is the reading of the clock in the call.
\<close>

record idempotencyEntry =
  ie_taskID :: string
  ie_createdAt :: int

record IdempotencyStore =
  is_ttl :: int
  is_records :: "idempotencyEntry gomap"

definition NewIdempotencyStore :: "int \<Rightarrow> IdempotencyStore" where
  "NewIdempotencyStore ttl = \<lparr>is_ttl = ttl, is_records = []\<rparr>"

definition entry_live :: "int \<Rightarrow> int \<Rightarrow> idempotencyEntry \<Rightarrow> bool" where
  "entry_live ttl now e \<longleftrightarrow> ttl \<le> 0 \<or> now - ie_createdAt e \<le> ttl"

definition RecordOrGet ::
  "int \<Rightarrow> IdempotencyStore \<Rightarrow> string \<Rightarrow> string \<Rightarrow> (string \<times> bool) \<times> IdempotencyStore" where
  "RecordOrGet now s key taskID =
     (if key = [] then ((taskID, False), s)
      else let fresh = ((taskID, False),
                 s\<lparr>is_records := map_put (is_records s) key
                     \<lparr>ie_taskID = taskID, ie_createdAt = now\<rparr>\<rparr>)
           in case map_get (is_records s) key of
                Some entry \<Rightarrow>
                  if is_ttl s \<le> 0 \<or> now - ie_createdAt entry \<le> is_ttl s
                  then ((ie_taskID entry, True), s) else fresh
              | None \<Rightarrow> fresh)"

definition CleanupExpired :: "int \<Rightarrow> IdempotencyStore \<Rightarrow> IdempotencyStore" where
  "CleanupExpired now s =
     (if is_ttl s \<le> 0 then s
      else s\<lparr>is_records := filter (\<lambda>(k, e). \<not> now - ie_createdAt e > is_ttl s) (is_records s)\<rparr>)"

definition Get :: "int \<Rightarrow> IdempotencyStore \<Rightarrow> string \<Rightarrow> string option" where
  "Get now s key =
     (if key = [] then None
      else case map_get (is_records s) key of
             None \<Rightarrow> None
           | Some entry \<Rightarrow>
               if is_ttl s > 0 \<and> now - ie_createdAt entry > is_ttl s then None
               else Some (ie_taskID entry))"

definition Len :: "IdempotencyStore \<Rightarrow> nat" where
  "Len s = length (is_records s)"

section \<open>One task per key\<close>

datatype idem_call = Record int string string | Cleanup int

fun call_time :: "idem_call \<Rightarrow> int" where
  "call_time (Record now k t) = now"
| "call_time (Cleanup now) = now"

fun idem_step :: "IdempotencyStore \<Rightarrow> idem_call \<Rightarrow> IdempotencyStore" where
  "idem_step s (Record now k t) = snd (RecordOrGet now s k t)"
| "idem_step s (Cleanup now) = CleanupExpired now s"

lemma map_of_filter_snd:
  "distinct (map fst m) \<Longrightarrow>
   map_of (filter (\<lambda>(k, v). P v) m) k = (case map_of m k of Some v \<Rightarrow> if P v then Some v else None | None \<Rightarrow> None)"
proof (induction m)
  case Nil
  then show ?case by simp
next
  case (Cons x m)
  obtain k' v' where x: "x = (k', v')" by force
  have "map_of m k' = None" using Cons.prems x by (simp add: map_of_eq_None_iff)
  with Cons x show ?case by (auto split: option.splits)
qed

definition wf_store :: "IdempotencyStore \<Rightarrow> bool" where
  "wf_store s \<longleftrightarrow> wf_map (is_records s)"

lemma wf_store_step: "wf_store s \<Longrightarrow> wf_store (idem_step s c)"
  by (cases c)
    (auto simp: wf_store_def RecordOrGet_def CleanupExpired_def wf_map_def distinct_map_filter Let_def
      split: option.splits intro: wf_map_put [unfolded wf_map_def])

lemma idem_step_ttl [simp]: "is_ttl (idem_step s c) = is_ttl s"
  by (cases c) (auto simp: RecordOrGet_def CleanupExpired_def Let_def split: option.splits)

text \<open>An entry that is still alive at the time of a call stays as it is.\<close>

lemma idem_step_keeps:
  assumes "wf_store s" "map_get (is_records s) k = Some e" "entry_live (is_ttl s) (call_time c) e"
  shows "map_get (is_records (idem_step s c)) k = Some e"
proof (cases c)
  case (Record now k' t)
  with assms show ?thesis
    by (auto simp: RecordOrGet_def entry_live_def Let_def split: option.splits)
next
  case (Cleanup now)
  with assms show ?thesis
    by (auto simp: CleanupExpired_def entry_live_def wf_store_def wf_map_def map_of_filter_snd)
qed

lemma idem_run_keeps:
  assumes "wf_store s" "map_get (is_records s) k = Some e"
    and "\<forall>c \<in> set cs. entry_live (is_ttl s) (call_time c) e"
  shows "map_get (is_records (foldl idem_step s cs)) k = Some e"
  using assms
proof (induction cs arbitrary: s)
  case Nil
  then show ?case by simp
next
  case (Cons c cs)
  then have "map_get (is_records (idem_step s c)) k = Some e"
    by (intro idem_step_keeps) auto
  with Cons show ?case by (simp add: wf_store_step)
qed

lemma foldl_ttl [simp]: "is_ttl (foldl idem_step s cs) = is_ttl s"
  by (induction cs arbitrary: s) auto

text \<open>At most one task per idempotency key: once a key has been recorded for a task, then after
  any sequence of further requests and clean-ups, a request with that key within the time-to-live
  of the record is answered with the first task, as a duplicate, and changes nothing.\<close>

theorem RecordOrGet_at_most_once:
  assumes "wf_store s" and "key \<noteq> []"
    and "RecordOrGet t0 s key task = ((task, False), s')"
    and "\<forall>c \<in> set calls. call_time c \<le> t0 + is_ttl s" and "now \<le> t0 + is_ttl s"
  shows "RecordOrGet now (foldl idem_step s' calls) key other
         = ((task, True), foldl idem_step s' calls)"
proof -
  let ?e = "\<lparr>ie_taskID = task, ie_createdAt = t0\<rparr>"
  have s': "s' = idem_step s (Record t0 key task)" using assms(3) by simp
  then have "wf_store s'" and ttl: "is_ttl s' = is_ttl s"
    using assms(1) by (simp_all add: wf_store_step del: idem_step.simps)
  have e: "map_get (is_records s') key = Some ?e"
    using assms(2,3)
    by (auto simp: RecordOrGet_def Let_def split: option.splits if_splits)
  have "\<forall>c \<in> set calls. entry_live (is_ttl s') (call_time c) ?e"
    using assms(4) by (auto simp: entry_live_def ttl)
  from idem_run_keeps [OF \<open>wf_store s'\<close> e this] show ?thesis
    using assms(2,5) by (simp add: RecordOrGet_def ttl Let_def)
qed

theorem RecordOrGet_at_most_once_witness:
  "let s' = snd (RecordOrGet 0 (NewIdempotencyStore 100) ''k'' ''t1'');
       s'' = foldl idem_step s' [Record 5 ''x'' ''t2'', Cleanup 60]
   in RecordOrGet 100 s'' ''k'' ''t3'' = ((''t1'', True), s'')"
proof -
  let ?s = "NewIdempotencyStore 100"
  let ?cs = "[Record 5 ''x'' ''t2'', Cleanup 60]"
  have "wf_store ?s" by (simp add: wf_store_def NewIdempotencyStore_def)
  moreover have "RecordOrGet 0 ?s ''k'' ''t1'' = ((''t1'', False), snd (RecordOrGet 0 ?s ''k'' ''t1''))"
    by code_simp
  moreover have "\<forall>c \<in> set ?cs. call_time c \<le> 0 + is_ttl ?s" and "100 \<le> 0 + is_ttl ?s"
    by (simp_all add: NewIdempotencyStore_def)
  ultimately show ?thesis
    using RecordOrGet_at_most_once [of ?s "''k''" 0 "''t1''" _ ?cs 100 "''t3''"] by simp
qed

text \<open>A clean-up is invisible: at any time from the clean-up on, every lookup gives what it
  would have given without the clean-up.\<close>

theorem CleanupExpired_invisible:
  assumes "wf_store s" and "t \<le> now"
  shows "Get now (CleanupExpired t s) key = Get now s key"
  using assms
  by (auto simp: Get_def CleanupExpired_def wf_store_def wf_map_def map_of_filter_snd
      split: option.splits)

theorem CleanupExpired_invisible_witness:
  "Get 20 (CleanupExpired 10 (snd (RecordOrGet 0 (NewIdempotencyStore 50) ''k'' ''t1''))) ''k''
   = Some ''t1''"
proof -
  let ?s = "snd (RecordOrGet 0 (NewIdempotencyStore 50) ''k'' ''t1'')"
  have "wf_store ?s"
    using wf_store_step [of "NewIdempotencyStore 50" "Record 0 ''k'' ''t1''"]
    by (simp add: wf_store_def NewIdempotencyStore_def)
  then have "Get 20 (CleanupExpired 10 ?s) ''k'' = Get 20 ?s ''k''"
    by (rule CleanupExpired_invisible) simp
  also have "\<dots> = Some ''t1''" by code_simp
  finally show ?thesis .
qed

end
