(* ===== verification/Task_Handlers.thy ===== *)
theory Task_Handlers
  imports Scheduler Idempotency
begin

text \<open>
  The task handlers of the coordinator (\<open>pkg/server/http/handlers.go\<close>): creation with idempotency keys, queries, event
  streams, replies, cancellation and checkpoints, on top of the task manager, the scheduler and the idempotency store. A
  decoded body is an argument (\<open>None\<close> when it does not decode). \<open>handleCreateTask\<close> is cut where it releases the mutexes;
  \<open>ce_others k\<close> is what other goroutines do at cut \<open>k\<close>.
\<close>

section \<open>State and answers\<close>

record TaskServer =
  hv_sched :: TerritoryScheduler
  hv_idem :: IdempotencyStore
  hv_mode :: TerritoryMode

abbreviation hv_task :: "TaskServer \<Rightarrow> string \<Rightarrow> ManagedTask option" where
  "hv_task s i \<equiv> GetTask (sc_tm (hv_sched s)) i"

definition with_manager :: "TaskServer \<Rightarrow> TaskManager \<Rightarrow> TaskServer" where
  "with_manager s m = s\<lparr>hv_sched := (hv_sched s)\<lparr>sc_tm := m\<rparr>\<rparr>"

record TaskResponse =
  tp_TaskID :: string
  tp_SessionID :: string
  tp_Status :: TaskStatus
  tp_EventsURL :: string
  tp_CreatedAt :: int
  tp_Warnings :: "string list"

definition GitBranchLockOnlyWarning :: string where
  "GitBranchLockOnlyWarning = ''git_branch is only a mutual exclusion key: no runner checks the branch out, and a branch that does not exist is not an error''"

definition taskWarnings :: "TaskRequest \<Rightarrow> string list" where
  "taskWarnings req = (if rq_GitBranch req = [] then [] else [GitBranchLockOnlyWarning])"

definition task_response :: "TaskRequest \<Rightarrow> ManagedTask \<Rightarrow> TaskResponse" where
  "task_response req t =
     \<lparr>tp_TaskID = t_TaskID t, tp_SessionID = rq_SessionID (t_Request t), tp_Status = t_Status t,
      tp_EventsURL = ''/v1/tasks/'' @ t_TaskID t @ ''/events'', tp_CreatedAt = t_CreatedAt t, tp_Warnings = taskWarnings req\<rparr>"

datatype create_reply =
  CreateBodyInvalid | AgentOrTaskEmpty | ExistingTask TaskResponse | TerritoryClash string TerritoryConflict | BranchBusy
  | TaskNotCreated create_error | NotScheduled sched_error string | TaskAccepted TaskResponse

fun create_status :: "create_reply \<Rightarrow> nat" where
  "create_status CreateBodyInvalid = 400"
| "create_status AgentOrTaskEmpty = 400"
| "create_status (ExistingTask _) = 200"
| "create_status (TerritoryClash _ _) = 409"
| "create_status BranchBusy = 409"
| "create_status (TaskNotCreated _) = 500"
| "create_status (NotScheduled _ _) = 409"
| "create_status (TaskAccepted _) = 201"

section \<open>Creation\<close>

definition alias_request :: "TaskRequest \<Rightarrow> TaskRequest" where
  "alias_request req0 =
     (let req = (if rq_Task req0 = [] \<and> rq_Prompt req0 \<noteq> [] then req0\<lparr>rq_Task := rq_Prompt req0\<rparr> else req0) in
      if rq_Agent req = [] \<and> rq_Task req \<noteq> [] then req\<lparr>rq_Agent := ''worker''\<rparr> else req)"

definition find_existing :: "int \<Rightarrow> TaskServer \<Rightarrow> TaskRequest \<Rightarrow> ManagedTask option" where
  "find_existing now s req =
     (if rq_IdempotencyKey req = [] then None
      else case Get now (hv_idem s) (rq_IdempotencyKey req) of
             None \<Rightarrow> None
           | Some i \<Rightarrow> if i = [] then None else hv_task s i)"

definition strict_target :: "TaskRequest \<Rightarrow> ActiveTerritory" where
  "strict_target req =
     \<lparr>at_TaskID = [], at_Repo = rq_GitRepo req, at_Branch = rq_GitBranch req, at_EditSurfaces = rq_EditSurfaces req,
      at_Agent = [], at_TaskSummary = rq_Task req, at_NodeID = [], at_StartedAt = 0, at_Domain = rq_Domain req,
      at_BlastRadius = rq_BlastRadius req, at_Phase = [], at_CurrentAction = [], at_LastActivityAt = 0\<rparr>"

definition clash_text :: "TerritoryConflict \<Rightarrow> string" where
  "clash_text c =
     (if tc_ConflictType c = ConflictBranchLocked \<and> Index (tc_Message c) ''branch is locked'' = None
      then ''branch is locked by another task: '' @ tc_Message c else tc_Message c)"

definition strict_refusal :: "(string \<Rightarrow> string) \<Rightarrow> int \<Rightarrow> TaskServer \<Rightarrow> TaskRequest \<Rightarrow> create_reply option" where
  "strict_refusal sha now s req =
     (if hv_mode s = TerritoryModeStrict \<and> rq_GitRepo req \<noteq> []
      then (case FindFederatedConflict sha now (sc_fed (hv_sched s)) (ActiveTerritories (sc_tm (hv_sched s))) (strict_target req) of
              Some c \<Rightarrow> Some (TerritoryClash (clash_text c) c)
            | None \<Rightarrow>
                if rq_GitBranch req \<noteq> [] \<and> GetLock (sc_locks (hv_sched s)) (rq_GitRepo req) (rq_GitBranch req) \<noteq> None
                then Some BranchBusy else None)
      else None)"

definition create_step :: "string option \<Rightarrow> bool \<Rightarrow> write_outcome \<Rightarrow> int \<Rightarrow> TaskServer \<Rightarrow> TaskRequest \<Rightarrow>
    (create_error + ManagedTask) \<times> TaskServer" where
  "create_step hx log_ok w now s req =
     (case CreateTask hx log_ok w now (sc_tm (hv_sched s)) req of (r, m) \<Rightarrow> (r, with_manager s m))"

definition cancel_created :: "write_outcome \<Rightarrow> int \<Rightarrow> TaskServer \<Rightarrow> string \<Rightarrow> string \<Rightarrow> TaskServer" where
  "cancel_created w now s i reason = with_manager s (snd (CancelTask w now (sc_tm (hv_sched s)) i reason))"

text \<open>The key is recorded for the new task; if an earlier task holds it and is still there, the new one is canceled.\<close>

definition record_key :: "int \<Rightarrow> TaskServer \<Rightarrow> TaskRequest \<Rightarrow> string \<Rightarrow> ManagedTask option \<times> TaskServer" where
  "record_key now s req i =
     (if rq_IdempotencyKey req = [] then (None, s)
      else case RecordOrGet now (hv_idem s) (rq_IdempotencyKey req) i of
             ((existing, dup), idem) \<Rightarrow>
               (if dup \<and> existing \<noteq> [] \<and> existing \<noteq> i then hv_task s existing else None, s\<lparr>hv_idem := idem\<rparr>))"

definition schedule_step ::
  "(string \<Rightarrow> string) \<Rightarrow> write_outcome \<Rightarrow> write_outcome \<Rightarrow> int \<Rightarrow> TaskServer \<Rightarrow> string \<Rightarrow> sched_error option \<times> TaskServer" where
  "schedule_step sha w w' now s i =
     (case Schedule sha w w' now (hv_sched s) i of ((_, e), sc) \<Rightarrow> (e, s\<lparr>hv_sched := sc\<rparr>))"

record create_env =
  ce_hex :: "string option"
  ce_log :: bool
  ce_writes :: "nat \<Rightarrow> write_outcome"
  ce_now :: "nat \<Rightarrow> int"
  ce_error :: "sched_error \<Rightarrow> string"
  ce_others :: "nat \<Rightarrow> TaskServer \<Rightarrow> TaskServer"

definition duplicate_reason :: string where
  "duplicate_reason = ''duplicate task by idempotency key''"

definition handleCreateTask ::
  "(string \<Rightarrow> string) \<Rightarrow> create_env \<Rightarrow> TaskServer \<Rightarrow> TaskRequest option \<Rightarrow> create_reply \<times> TaskServer" where
  "handleCreateTask sha en s body =
     (case body of
        None \<Rightarrow> (CreateBodyInvalid, s)
      | Some req0 \<Rightarrow>
          let req = alias_request req0; now = ce_now en; w = ce_writes en; oth = ce_others en in
          if rq_Agent req = [] \<or> rq_Task req = [] then (AgentOrTaskEmpty, s)
          else (case find_existing (now 0) s req of
            Some t \<Rightarrow> (ExistingTask (task_response req t), s)
          | None \<Rightarrow>
         (case strict_refusal sha (now 1) (oth 0 s) req of
            Some reply \<Rightarrow> (reply, oth 0 s)
          | None \<Rightarrow>
         (case create_step (ce_hex en) (ce_log en) (w 0) (now 2) (oth 1 (oth 0 s)) req of
            (Inl e, s1) \<Rightarrow> (TaskNotCreated e, s1)
          | (Inr t, s1) \<Rightarrow>
         (case record_key (now 3) (oth 2 s1) req (t_TaskID t) of
            (Some existing, s2) \<Rightarrow>
              (ExistingTask (task_response req existing), cancel_created (w 1) (now 4) s2 (t_TaskID t) duplicate_reason)
          | (None, s2) \<Rightarrow>
         (case schedule_step sha (w 2) (w 3) (now 5) (oth 3 s2) (t_TaskID t) of
            (Some e, s3) \<Rightarrow> (NotScheduled e (t_TaskID t), cancel_created (w 4) (now 6) (oth 4 s3) (t_TaskID t) (ce_error en e))
          | (None, s3) \<Rightarrow>
              (TaskAccepted (task_response req (case hv_task s3 (t_TaskID t) of None \<Rightarrow> t | Some t' \<Rightarrow> t')), s3)))))))"

section \<open>Queries, replies, cancellation\<close>

datatype ('a, 'e) task_reply = IdMissing | TaskUnknown | TaskBad 'e | TaskOk 'a

definition handleGetTask :: "TaskServer \<Rightarrow> string \<Rightarrow> (TaskState, unit) task_reply" where
  "handleGetTask s i =
     (if i = [] then IdMissing
      else case hv_task s i of None \<Rightarrow> TaskUnknown | Some t \<Rightarrow> TaskOk (TaskSnapshot t))"

text \<open>The resume position of a stream: the header decides, even if it is no number.\<close>

definition since_id :: "string \<Rightarrow> string \<Rightarrow> int" where
  "since_id lastEventID sinceParam =
     (if lastEventID \<noteq> [] then (case Atoi lastEventID of None \<Rightarrow> 0 | Some i \<Rightarrow> i)
      else if sinceParam \<noteq> [] then (case Atoi sinceParam of None \<Rightarrow> 0 | Some i \<Rightarrow> i)
      else 0)"

definition handleTaskEvents ::
  "TaskServer \<Rightarrow> string \<Rightarrow> string \<Rightarrow> string \<Rightarrow> (nat, task_error) task_reply \<times> TaskServer" where
  "handleTaskEvents s i lastEventID sinceParam =
     (if i = [] then (IdMissing, s)
      else case Subscribe (sc_tm (hv_sched s)) i (since_id lastEventID sinceParam) of
             (Inl e, m) \<Rightarrow> (if e = ErrTaskNotFound then TaskUnknown else TaskBad e, with_manager s m)
           | (Inr ch, m) \<Rightarrow> (TaskOk ch, with_manager s m))"

datatype reply_error = ReplyBody | ReplyRefused task_error

definition handleTaskReply ::
  "write_outcome \<Rightarrow> int \<Rightarrow> TaskServer \<Rightarrow> string \<Rightarrow> (string \<times> string) option \<Rightarrow> (unit, reply_error) task_reply \<times> TaskServer" where
  "handleTaskReply w now s i body =
     (if i = [] then (IdMissing, s)
      else case body of
             None \<Rightarrow> (TaskBad ReplyBody, s)
           | Some (queryID, answer) \<Rightarrow>
               (case SubmitReply w now (sc_tm (hv_sched s)) i queryID answer of
                  (Some e, m) \<Rightarrow> (if e = ErrTaskNotFound then TaskUnknown else TaskBad (ReplyRefused e), with_manager s m)
                | (None, m) \<Rightarrow> (TaskOk (), with_manager s m)))"

definition cancel_reason :: "string option \<Rightarrow> string" where
  "cancel_reason body = (case body of None \<Rightarrow> ''canceled by user'' | Some r \<Rightarrow> if r = [] then ''canceled by user'' else r)"

definition handleTaskCancel ::
  "(string \<Rightarrow> string) \<Rightarrow> write_outcome \<Rightarrow> (string \<Rightarrow> write_outcome) \<Rightarrow> int \<Rightarrow> TaskServer \<Rightarrow> string \<Rightarrow> string option \<Rightarrow>
   (string, task_error) task_reply \<times> TaskServer" where
  "handleTaskCancel sha w ws now s i body =
     (if i = [] then (IdMissing, s)
      else let reason = cancel_reason body; sc = hv_sched s in
        case hv_task s i of
          None \<Rightarrow> (TaskUnknown, s)
        | Some t \<Rightarrow>
            (case CancelQueued w now sc i reason of
               (True, sc1) \<Rightarrow> (TaskOk i, s\<lparr>hv_sched := sc1\<rparr>)
             | (False, _) \<Rightarrow>
                 (case CancelTask w now (sc_tm sc) i reason of
                    (Some e, m) \<Rightarrow> (TaskBad e, with_manager s m)
                  | (None, m) \<Rightarrow>
                      (TaskOk i, s\<lparr>hv_sched := snd (drainUnderLock sha ws now
                         (sc\<lparr>sc_tm := m, sc_locks := releaseBranchLock (sc_locks sc) t\<rparr>))\<rparr>))))"

section \<open>Checkpoints\<close>

definition handleTaskCheckpoint ::
  "write_outcome \<Rightarrow> int \<Rightarrow> TaskServer \<Rightarrow> string \<Rightarrow> CheckpointPayload option \<Rightarrow>
   (CheckpointPayload, unit) task_reply \<times> TaskServer" where
  "handleTaskCheckpoint w now s i body =
     (if i = [] then (IdMissing, s)
      else case hv_task s i of
             None \<Rightarrow> (TaskUnknown, s)
           | Some t \<Rightarrow>
               (case body of
                  None \<Rightarrow> (TaskBad (), s)
                | Some cp0 \<Rightarrow>
                    let cp = cp0\<lparr>ck_LastUpdated := unix now\<rparr>;
                        m1 = run_op (sc_tm (hv_sched s)) i (OpCheckpoint now (Some cp));
                        m2 = run_op m1 i (OpEmit w now EventCheckpoint)
                    in (TaskOk cp, with_manager s m2)))"

definition handleGetCheckpoint :: "TaskServer \<Rightarrow> string \<Rightarrow> (CheckpointPayload, unit) task_reply" where
  "handleGetCheckpoint s i =
     (if i = [] then IdMissing
      else case hv_task s i of
             None \<Rightarrow> TaskUnknown
           | Some t \<Rightarrow> (case ts_Checkpoint (TaskSnapshot t) of None \<Rightarrow> TaskBad () | Some cp \<Rightarrow> TaskOk cp))"

definition handleMeshRadar :: "int \<Rightarrow> TaskServer \<Rightarrow> string \<times> int \<times> ActiveTerritory list" where
  "handleMeshRadar now s = (''gentle-mesh'', unix now, ActiveTerritories (sc_tm (hv_sched s)))"

end
