(* ===== verification/Task_Handlers_Safety.thy ===== *)
theory Task_Handlers_Safety
  imports Task_Handlers Scheduler_Safety "HOL-Library.Multiset"
begin

text \<open>
  Creation of tasks by any number of requests at once: within the time to live of its record, every answer to requests
  with one idempotency key names one task, and at most one task of the key is handed to the scheduler.
\<close>

section \<open>What the steps do to the task table\<close>

definition kept :: "TaskManager \<Rightarrow> TaskManager \<Rightarrow> bool" where
  "kept m m' \<longleftrightarrow>
     (keyed m \<longrightarrow> keyed m') \<and> (\<forall>i. map_get (tm_tasks m) i \<noteq> None \<longrightarrow> map_get (tm_tasks m') i \<noteq> None)"

lemma kept_refl [simp]: "kept m m"
  by (simp add: kept_def)

lemma kept_trans: "kept m m1 \<Longrightarrow> kept m1 m2 \<Longrightarrow> kept m m2"
  by (simp add: kept_def)

lemma kept_put: "tm_tasks m' = map_put (tm_tasks m) (t_TaskID t) t \<Longrightarrow> kept m m'"
  by (auto simp: kept_def keyed_def gomap_simps split: if_splits)

lemma kept_commit: "kept m (commit n t m)"
  by (rule kept_put) simp

lemma kept_run_op: "kept m (run_op m i op)"
  by (simp add: run_op_def kept_commit split: option.split)

lemma kept_cancel: "kept m (snd (CancelTask w now m i reason))"
  by (simp add: CancelTask_def kept_commit split_beta split: option.split)

lemma kept_dispatch: "kept (sc_tm s) (sc_tm (snd (dispatchUnderLock w now s i)))"
  by (auto simp: dispatchUnderLock_def kept_commit split: option.split prod.split)

lemma kept_Dispatch: "kept (sc_tm s) (sc_tm (snd (Dispatch w now s i)))"
  by (simp add: Dispatch_def kept_dispatch)

lemma kept_Schedule: "kept (sc_tm s) (sc_tm (snd (Schedule sha w w' now s i)))"
proof (cases "sched_task s i")
  case (Some t)
  have warn: "kept (sc_tm s) (sc_tm (snd (Dispatch w now (case findConflict sha now s t of
      Some c \<Rightarrow> emitConflictWarning w' now s i c | None \<Rightarrow> s) i)))"
    by (rule kept_trans [OF _ kept_Dispatch]) (simp add: emitConflictWarning_def kept_run_op split: option.split)
  have q: "kept (sc_tm s) (sc_tm (snd (if findConflict sha now s t \<noteq> None then ((True, None), enqueue s t)
      else case dispatchUnderLock w now s i of
             (None, s1) \<Rightarrow> ((False, None), s1)
           | (Some (SchedLocked ErrBranchLocked), s1) \<Rightarrow> ((True, None), enqueue s1 t)
           | (Some e, s1) \<Rightarrow> ((False, Some e), s1))))"
    using kept_dispatch [of s w now i]
    by (cases "dispatchUnderLock w now s i")
      (auto simp: enqueue_def split: option.split sched_error.split lock_error.split)
  show ?thesis
    using q warn kept_dispatch [of s w now i] kept_Dispatch [of s w now i]
    by (cases "sc_mode s") (auto simp: Schedule_def Some Let_def split_beta split: option.splits)
qed (simp add: Schedule_def)

section \<open>Interleaved creations\<close>

datatype creation = Looked TaskRequest | Made TaskRequest string | Keyed TaskRequest string | Refused TaskRequest string

type_synonym create_state =
  "TaskServer \<times> creation multiset \<times> (string \<times> string) list \<times> (string \<times> string) list"

abbreviation hv_tm :: "TaskServer \<Rightarrow> TaskManager" where
  "hv_tm s \<equiv> sc_tm (hv_sched s)"

definition in_time :: "int \<Rightarrow> TaskServer \<Rightarrow> int \<Rightarrow> bool" where
  "in_time T s now \<longleftrightarrow> is_ttl (hv_idem s) \<le> 0 \<or> (T \<le> now \<and> now \<le> T + is_ttl (hv_idem s))"

text \<open>The requests between their steps, then the answers and the scheduled tasks as pairs of key and task. Other goroutines
  may do anything but purge tasks and touch the idempotency store.\<close>

inductive creates :: "(string \<Rightarrow> string) \<Rightarrow> int \<Rightarrow> create_state \<Rightarrow> create_state \<Rightarrow> bool" for sha T where
  found: "in_time T s now \<Longrightarrow> find_existing now s req = Some t \<Longrightarrow>
    creates sha T (s, q, a, d) (s, q, (rq_IdempotencyKey req, t_TaskID t) # a, d)"
| looked: "find_existing now s req = None \<Longrightarrow> creates sha T (s, q, a, d) (s, add_mset (Looked req) q, a, d)"
| given_up: "creates sha T (s, add_mset (Looked req) q, a, d) (s, q, a, d)"
| failed: "create_step hx log_ok w now s req = (Inl e, s') \<Longrightarrow>
    creates sha T (s, add_mset (Looked req) q, a, d) (s', q, a, d)"
| made: "create_step hx log_ok w now s req = (Inr t, s') \<Longrightarrow> hv_task s (t_TaskID t) = None \<Longrightarrow>
    creates sha T (s, add_mset (Looked req) q, a, d) (s', add_mset (Made req (t_TaskID t)) q, a, d)"
| keyed: "in_time T s now \<Longrightarrow> record_key now s req i = (None, s') \<Longrightarrow>
    creates sha T (s, add_mset (Made req i) q, a, d) (s', add_mset (Keyed req i) q, a, d)"
| duplicate: "in_time T s now \<Longrightarrow> record_key now s req i = (Some t, s') \<Longrightarrow>
    creates sha T (s, add_mset (Made req i) q, a, d)
      (cancel_created w now' s' i reason, q, (rq_IdempotencyKey req, t_TaskID t) # a, d)"
| scheduled: "schedule_step sha w w' now s i = (None, s') \<Longrightarrow>
    creates sha T (s, add_mset (Keyed req i) q, a, d)
      (s', q, (rq_IdempotencyKey req, i) # a, (rq_IdempotencyKey req, i) # d)"
| refused: "schedule_step sha w w' now s i = (Some e, s') \<Longrightarrow>
    creates sha T (s, add_mset (Keyed req i) q, a, d) (s', add_mset (Refused req i) q, (rq_IdempotencyKey req, i) # a, d)"
| canceled: "creates sha T (s, add_mset (Refused req i) q, a, d) (cancel_created w now s i reason, q, a, d)"
| others: "kept (hv_tm s) (hv_tm s') \<Longrightarrow> hv_idem s' = hv_idem s \<Longrightarrow> creates sha T (s, q, a, d) (s', q, a, d)"

definition recorded :: "TaskServer \<Rightarrow> string \<Rightarrow> string option" where
  "recorded s k = map_option ie_taskID (map_get (is_records (hv_idem s)) k)"

fun pending_id :: "creation \<Rightarrow> string option" where
  "pending_id (Made req i) = Some i"
| "pending_id (Keyed req i) = Some i"
| "pending_id _ = None"

fun creation_ok :: "TaskServer \<Rightarrow> creation \<Rightarrow> bool" where
  "creation_ok s (Looked req) = True"
| "creation_ok s (Made req i) = (hv_task s i \<noteq> None \<and> i \<noteq> [])"
| "creation_ok s (Keyed req i) = (hv_task s i \<noteq> None \<and> i \<noteq> [] \<and> (rq_IdempotencyKey req = [] \<or> recorded s (rq_IdempotencyKey req) = Some i))"
| "creation_ok s (Refused req i) = True"

definition records_ok :: "int \<Rightarrow> TaskServer \<Rightarrow> bool" where
  "records_ok T s \<longleftrightarrow>
     (\<forall>k e. map_get (is_records (hv_idem s)) k = Some e \<longrightarrow>
        hv_task s (ie_taskID e) \<noteq> None \<and> ie_taskID e \<noteq> [] \<and> (is_ttl (hv_idem s) \<le> 0 \<or> T \<le> ie_createdAt e))"

definition uses_of :: "string \<Rightarrow> creation multiset \<Rightarrow> (string \<times> string) list \<Rightarrow> nat" where
  "uses_of i q d = size (filter_mset (\<lambda>x. pending_id x = Some i) q) + length (filter (\<lambda>(k, j). j = i) d)"

definition create_inv :: "int \<Rightarrow> create_state \<Rightarrow> bool" where
  "create_inv T st \<longleftrightarrow>
     (case st of (s, q, a, d) \<Rightarrow>
        keyed (hv_tm s) \<and> records_ok T s \<and> (\<forall>x \<in># q. creation_ok s x) \<and>
        (\<forall>(k, i) \<in> set a \<union> set d. k = [] \<or> recorded s k = Some i) \<and>
        (\<forall>i. uses_of i q d \<le> 1) \<and> (\<forall>(k, i) \<in> set d. hv_task s i \<noteq> None))"

lemma create_invD:
  assumes "create_inv T (s, q, a, d)"
  shows "keyed (hv_tm s)" "records_ok T s" "x \<in># q \<Longrightarrow> creation_ok s x" "(k, i) \<in> set a \<union> set d \<Longrightarrow> k = [] \<or> recorded s k = Some i"
    "uses_of i q d \<le> 1" "(k, i) \<in> set d \<Longrightarrow> hv_task s i \<noteq> None"
  using assms by (auto simp: create_inv_def)

text \<open>Steps that keep the tasks and the records.\<close>

definition same_or_more :: "TaskServer \<Rightarrow> TaskServer \<Rightarrow> bool" where
  "same_or_more s s' \<longleftrightarrow> kept (hv_tm s) (hv_tm s') \<and> hv_idem s' = hv_idem s"

lemma same_or_moreD:
  assumes "same_or_more s s'"
  shows "keyed (hv_tm s) \<Longrightarrow> keyed (hv_tm s')" "hv_task s i \<noteq> None \<Longrightarrow> hv_task s' i \<noteq> None"
    "recorded s' k = recorded s k" "records_ok T s \<Longrightarrow> records_ok T s'" "creation_ok s x \<Longrightarrow> creation_ok s' x"
proof -
  show keep: "hv_task s' i \<noteq> None" if "hv_task s i \<noteq> None" for i
    using assms that unfolding same_or_more_def kept_def GetTask_def by blast
  show "keyed (hv_tm s')" if "keyed (hv_tm s)" using assms that unfolding same_or_more_def kept_def by blast
  show r: "recorded s' k = recorded s k" for k using assms by (simp add: same_or_more_def recorded_def)
  have "hv_idem s' = hv_idem s" using assms by (simp add: same_or_more_def)
  then show "records_ok T s'" if "records_ok T s" using that keep unfolding records_ok_def by metis
  show "creation_ok s' x" if "creation_ok s x" using that keep r by (cases x) auto
qed

lemma create_inv_more:
  assumes inv: "create_inv T (s, q, a, d)" and m: "same_or_more s s'"
    and ok: "\<And>x. x \<in># q' \<Longrightarrow> x \<in># q \<or> creation_ok s' x" and n: "\<And>i. uses_of i q' d \<le> 1"
  shows "create_inv T (s', q', a, d)"
proof -
  note D = create_invD [OF inv] and M = same_or_moreD [OF m]
  have "\<forall>x \<in># q'. creation_ok s' x" using ok D(3) M(5) by blast
  moreover have "\<forall>(k, i) \<in> set a \<union> set d. k = [] \<or> recorded s' k = Some i" using D(4) M(3) by fastforce
  moreover have "\<forall>(k, i) \<in> set d. hv_task s' i \<noteq> None" using D(6) M(2) by blast
  ultimately show ?thesis using M(1) [OF D(1)] M(4) [OF D(2)] n unfolding create_inv_def by blast
qed

lemma uses_of_simps [simp]:
  "uses_of i (add_mset x q) d = (if pending_id x = Some i then 1 else 0) + uses_of i q d"
  "uses_of i q ((k, j) # d) = (if j = i then 1 else 0) + uses_of i q d"
  by (simp_all add: uses_of_def)

section \<open>Records of keys\<close>

lemma record_live:
  assumes "in_time T s now" and "records_ok T s" and "map_get (is_records (hv_idem s)) k = Some e"
  shows "is_ttl (hv_idem s) \<le> 0 \<or> now - ie_createdAt e \<le> is_ttl (hv_idem s)"
  using assms unfolding in_time_def records_ok_def by fastforce

lemma record_key_known:
  assumes "in_time T s now" and "records_ok T s" and "rq_IdempotencyKey req \<noteq> []"
    and "recorded s (rq_IdempotencyKey req) = Some j"
  shows "record_key now s req i = (if j \<noteq> i then hv_task s j else None, s)" "hv_task s j \<noteq> None"
proof -
  obtain e where e: "map_get (is_records (hv_idem s)) (rq_IdempotencyKey req) = Some e" "ie_taskID e = j"
    using assms(4) by (auto simp: recorded_def)
  have "RecordOrGet now (hv_idem s) (rq_IdempotencyKey req) i = ((j, True), hv_idem s)"
    using record_live [OF assms(1,2) e(1)] e assms(3) by (auto simp: RecordOrGet_def)
  moreover have "j \<noteq> []" "hv_task s j \<noteq> None" using assms(2) e unfolding records_ok_def by blast+
  ultimately show "record_key now s req i = (if j \<noteq> i then hv_task s j else None, s)" "hv_task s j \<noteq> None"
    using assms(3) by (simp_all add: record_key_def)
qed

lemma record_key_new:
  assumes "rq_IdempotencyKey req \<noteq> []" and "recorded s (rq_IdempotencyKey req) = None"
  shows "record_key now s req i = (None, s\<lparr>hv_idem := (hv_idem s)\<lparr>is_records :=
     map_put (is_records (hv_idem s)) (rq_IdempotencyKey req) \<lparr>ie_taskID = i, ie_createdAt = now\<rparr>\<rparr>\<rparr>)"
  using assms by (simp add: record_key_def RecordOrGet_def recorded_def)

lemma record_key_keeps:
  assumes "in_time T s now" and ok: "records_ok T s" and i: "hv_task s i \<noteq> None" "i \<noteq> []"
    and r: "record_key now s req i = (None, s')"
  shows "hv_sched s' = hv_sched s" "records_ok T s'" "rq_IdempotencyKey req = [] \<or> recorded s' (rq_IdempotencyKey req) = Some i"
    "recorded s k = Some j \<Longrightarrow> recorded s' k = Some j"
proof -
  let ?k = "rq_IdempotencyKey req"
  consider "?k = []" | "?k \<noteq> []" "recorded s ?k = None" | l where "?k \<noteq> []" "recorded s ?k = Some l" by blast
  then have "hv_sched s' = hv_sched s \<and> records_ok T s' \<and> (?k = [] \<or> recorded s' ?k = Some i) \<and>
      (\<forall>k j. recorded s k = Some j \<longrightarrow> recorded s' k = Some j)"
  proof cases
    case 1
    then show ?thesis using r ok by (simp add: record_key_def)
  next
    case 2
    let ?e = "\<lparr>ie_taskID = i, ie_createdAt = now\<rparr>"
    have s': "s' = s\<lparr>hv_idem := (hv_idem s)\<lparr>is_records := map_put (is_records (hv_idem s)) ?k ?e\<rparr>\<rparr>"
      using r record_key_new [OF 2] by simp
    have "records_ok T s'"
      using ok i assms(1) unfolding records_ok_def s' by (auto simp: gomap_simps in_time_def split: if_splits)
    moreover have "recorded s' ?k = Some i" by (simp add: s' recorded_def gomap_simps)
    moreover have "recorded s' k = Some j" if "recorded s k = Some j" for k j
      using that 2(2) by (auto simp: s' recorded_def gomap_simps)
    ultimately show ?thesis by (simp add: s')
  next
    case 3
    then show ?thesis using record_key_known(1) [OF assms(1,2) 3, of i] record_key_known(2) [OF assms(1,2) 3] r ok by (auto split: if_splits)
  qed
  then show "hv_sched s' = hv_sched s" "records_ok T s'" "?k = [] \<or> recorded s' ?k = Some i"
    "recorded s k = Some j \<Longrightarrow> recorded s' k = Some j" by blast+
qed

lemma record_key_duplicate:
  assumes "in_time T s now" and "records_ok T s" and "record_key now s req i = (Some t, s')"
  obtains j where "s' = s" "rq_IdempotencyKey req \<noteq> []" "recorded s (rq_IdempotencyKey req) = Some j" "hv_task s j = Some t"
proof -
  have k: "rq_IdempotencyKey req \<noteq> []" using assms(3) by (auto simp: record_key_def)
  have "recorded s (rq_IdempotencyKey req) \<noteq> None" using record_key_new [OF k, of s now i] assms(3) by (cases "recorded s (rq_IdempotencyKey req)") auto
  then obtain j where j: "recorded s (rq_IdempotencyKey req) = Some j" by blast
  show ?thesis by (rule that [OF _ k j]) (use record_key_known(1) [OF assms(1,2) k j, of i] assms(3) in \<open>auto split: if_splits\<close>)
qed

lemma find_existing_recorded:
  assumes "find_existing now s req = Some t"
  obtains j where "recorded s (rq_IdempotencyKey req) = Some j" "hv_task s j = Some t"
  using assms that by (auto simp: find_existing_def Get_def recorded_def split: if_splits option.splits)

section \<open>The steps keep the invariant\<close>

lemma create_step_ok:
  assumes "create_step hx log_ok w now s req = (Inr t, s')"
  shows "same_or_more s s'" "hv_task s' (t_TaskID t) \<noteq> None" "t_TaskID t \<noteq> []"
proof -
  obtain m where c: "CreateTask hx log_ok w now (hv_tm s) req = (Inr t, m)" "s' = with_manager s m"
    using assms by (auto simp: create_step_def split: prod.splits)
  obtain h where t: "t_TaskID t = new_task_id now h" "tm_tasks m = map_put (tm_tasks (hv_tm s)) (t_TaskID t) t"
    using CreateTask_result [OF c(1)] by auto
  show "same_or_more s s'" using kept_put [OF t(2)] c(2) by (simp add: same_or_more_def with_manager_def)
  show "hv_task s' (t_TaskID t) \<noteq> None" using c(2) t(2) by (simp add: with_manager_def GetTask_def gomap_simps)
  show "t_TaskID t \<noteq> []" by (simp add: t(1) new_task_id_def)
qed

lemma create_step_failed:
  assumes "create_step hx log_ok w now s req = (Inl e, s')" shows "same_or_more s s'"
proof -
  obtain m where c: "CreateTask hx log_ok w now (hv_tm s) req = (Inl e, m)" "s' = with_manager s m"
    using assms by (auto simp: create_step_def split: prod.splits)
  have "tm_tasks m = tm_tasks (hv_tm s)" using CreateTask_result [OF c(1)] by simp
  then show ?thesis using c(2) by (simp add: same_or_more_def with_manager_def kept_def keyed_def)
qed

lemma cancel_created_more: "same_or_more s (cancel_created w now s i reason)"
  by (simp add: same_or_more_def cancel_created_def with_manager_def kept_cancel)

lemma schedule_step_more:
  assumes "schedule_step sha w w' now s i = (e, s')" shows "same_or_more s s'"
  using assms kept_Schedule [of "hv_sched s" sha w w' now i]
  by (auto simp: schedule_step_def same_or_more_def split: prod.splits)

lemma create_inv_answer:
  assumes "create_inv T (s, q, a, d)" and "k = [] \<or> recorded s k = Some i"
  shows "create_inv T (s, q, (k, i) # a, d)"
  using assms by (auto simp: create_inv_def)

lemma create_inv_less:
  assumes "create_inv T (s, add_mset x q, a, d)" shows "create_inv T (s, q, a, d)"
proof (rule create_inv_more [OF assms])
  show "uses_of i q d \<le> 1" for i
    using create_invD(5) [OF assms, of i] by (simp split: if_splits)
qed (simp_all add: same_or_more_def)

lemma creates_inv:
  assumes "creates sha T st st'" and "create_inv T st" shows "create_inv T st'"
  using assms
proof (induction rule: creates.induct)
  case (found s now req t q a d)
  obtain j where "recorded s (rq_IdempotencyKey req) = Some j" "hv_task s j = Some t" by (rule find_existing_recorded [OF found.hyps(2)])
  moreover have "t_TaskID t = j" using create_invD(1) [OF found.prems] \<open>hv_task s j = Some t\<close> by (simp add: keyed_def GetTask_def)
  ultimately show ?case using create_inv_answer [OF found.prems] by simp
next
  case (looked now s req q a d)
  show ?case by (rule create_inv_more [OF looked.prems]) (use create_invD(5) [OF looked.prems] in \<open>auto simp: same_or_more_def\<close>)
next
  case (given_up s req q a d)
  show ?case by (rule create_inv_more [OF given_up.prems]) (use create_invD(5) [OF given_up.prems] in \<open>auto simp: same_or_more_def\<close>)
next
  case (failed hx log_ok w now s req e s' q a d)
  show ?case
    by (rule create_inv_more [OF failed.prems create_step_failed [OF failed.hyps]]) (use create_invD(5) [OF failed.prems] in auto)
next
  case (made hx log_ok w now s req t s' q a d)
  note ok = create_step_ok [OF made.hyps(1)]
  have fresh: "uses_of (t_TaskID t) q d = 0"
  proof -
    have "pending_id x \<noteq> Some (t_TaskID t)" if "x \<in># q" for x
      using create_invD(3) [OF made.prems, of x] that made.hyps(2) by (cases x) auto
    then have "filter_mset (\<lambda>x. pending_id x = Some (t_TaskID t)) q = {#}" by (induction q) auto
    moreover have "\<not> (\<exists>k. (k, t_TaskID t) \<in> set d)" using create_invD(6) [OF made.prems] made.hyps(2) by blast
    then have "filter (\<lambda>(k, j). j = t_TaskID t) d = []" by (auto simp: filter_empty_conv)
    ultimately show ?thesis by (simp add: uses_of_def)
  qed
  show ?case
  proof (rule create_inv_more [OF made.prems ok(1)])
    show "uses_of i (add_mset (Made req (t_TaskID t)) q) d \<le> 1" for i
      using fresh create_invD(5) [OF made.prems, of i] by auto
  qed (use ok in auto)
next
  case (keyed s now req i s' q a d)
  have i: "hv_task s i \<noteq> None" "i \<noteq> []" using create_invD(3) [OF keyed.prems, of "Made req i"] by auto
  note D = create_invD [OF keyed.prems] and K = record_key_keeps [OF keyed.hyps(1) create_invD(2) [OF keyed.prems] i keyed.hyps(2)]
  have ok: "creation_ok s' x" if "creation_ok s x" for x using that K(1,4) by (cases x) auto
  have "\<forall>x \<in># add_mset (Keyed req i) q. creation_ok s' x" using D(3) ok i K(1,3) by auto
  moreover have "\<forall>(k, j) \<in> set a \<union> set d. k = [] \<or> recorded s' k = Some j" using D(4) K(4) by fastforce
  moreover have "\<forall>j. uses_of j (add_mset (Keyed req i) q) d \<le> 1" using D(5) by fastforce
  ultimately show ?case using D(1,6) K(1,2) unfolding create_inv_def by auto
next
  case (duplicate s now req i t s' q a d w now' reason)
  obtain j where j: "s' = s" "rq_IdempotencyKey req \<noteq> []" "recorded s (rq_IdempotencyKey req) = Some j" "hv_task s j = Some t"
    by (rule record_key_duplicate [OF duplicate.hyps(1) create_invD(2) [OF duplicate.prems] duplicate.hyps(2)])
  have t: "t_TaskID t = j" using create_invD(1) [OF duplicate.prems] j(4) by (simp add: keyed_def GetTask_def)
  have "create_inv T (s, q, a, d)" by (rule create_inv_less [OF duplicate.prems])
  then have inv: "create_inv T (s, q, (rq_IdempotencyKey req, t_TaskID t) # a, d)" using j(3) t by (intro create_inv_answer) simp_all
  have "create_inv T (cancel_created w now' s i reason, q, (rq_IdempotencyKey req, t_TaskID t) # a, d)"
    by (rule create_inv_more [OF inv cancel_created_more]) (use create_invD(5) [OF inv] in auto)
  then show ?case using j(1) by simp
next
  case (scheduled w w' now s i s' req q a d)
  note more = schedule_step_more [OF scheduled.hyps]
  have i: "hv_task s i \<noteq> None" "rq_IdempotencyKey req = [] \<or> recorded s (rq_IdempotencyKey req) = Some i"
    using create_invD(3) [OF scheduled.prems, of "Keyed req i"] by auto
  note D = create_invD [OF scheduled.prems] and M = same_or_moreD [OF more]
  have "\<forall>x \<in># q. creation_ok s' x" using D(3) M(5) by auto
  moreover have "\<forall>(k, j) \<in> set ((rq_IdempotencyKey req, i) # a) \<union> set ((rq_IdempotencyKey req, i) # d). k = [] \<or> recorded s' k = Some j"
    using D(4) M(3) i(2) by fastforce
  moreover have "\<forall>j. uses_of j q ((rq_IdempotencyKey req, i) # d) \<le> 1" using D(5) by fastforce
  moreover have "\<forall>(k, j) \<in> set ((rq_IdempotencyKey req, i) # d). hv_task s' j \<noteq> None" using D(6) M(2) i(1) by auto
  ultimately show ?case using M(1) [OF D(1)] M(4) [OF D(2)] unfolding create_inv_def by blast
next
  case (refused w w' now s i e s' req q a d)
  have "rq_IdempotencyKey req = [] \<or> recorded s (rq_IdempotencyKey req) = Some i"
    using create_invD(3) [OF refused.prems, of "Keyed req i"] by auto
  moreover have inv: "create_inv T (s', add_mset (Refused req i) q, a, d)"
    by (rule create_inv_more [OF create_inv_less [OF refused.prems] schedule_step_more [OF refused.hyps]])
      (use create_invD(5) [OF create_inv_less [OF refused.prems]] in auto)
  ultimately show ?case
    using same_or_moreD(3) [OF schedule_step_more [OF refused.hyps], of "rq_IdempotencyKey req"] by (intro create_inv_answer) simp_all
next
  case (canceled s req i q a d w now reason)
  show ?case
    by (rule create_inv_more [OF canceled.prems cancel_created_more]) (use create_invD(5) [OF canceled.prems] in auto)
next
  case (others s s' q a d)
  show ?case
    by (rule create_inv_more [OF others.prems]) (use others.hyps create_invD(5) [OF others.prems] in \<open>auto simp: same_or_more_def\<close>)
qed

lemma creates_run_inv: "(creates sha T)\<^sup>*\<^sup>* st st' \<Longrightarrow> create_inv T st \<Longrightarrow> create_inv T st'"
  by (induction rule: rtranclp_induct) (auto intro: creates_inv)

lemma create_inv_start:
  assumes "keyed (hv_tm s)" and "records_ok T s" shows "create_inv T (s, {#}, [], [])"
  using assms by (simp add: create_inv_def uses_of_def)


section \<open>The handler is made of these steps\<close>

fun answered :: "create_reply \<Rightarrow> string option" where
  "answered (ExistingTask r) = Some (tp_TaskID r)"
| "answered (NotScheduled e i) = Some i"
| "answered (TaskAccepted r) = Some (tp_TaskID r)"
| "answered _ = None"

lemma creates_ttl: "creates sha T st st' \<Longrightarrow> is_ttl (hv_idem (fst st')) = is_ttl (hv_idem (fst st))"
  by (induction rule: creates.induct)
    (auto simp: create_step_def with_manager_def cancel_created_def schedule_step_def record_key_def RecordOrGet_def Let_def
      split: prod.splits if_splits option.splits)

lemma creates_run_ttl: "(creates sha T)\<^sup>*\<^sup>* st st' \<Longrightarrow> is_ttl (hv_idem (fst st')) = is_ttl (hv_idem (fst st))"
  by (induction rule: rtranclp_induct) (simp_all add: creates_ttl)

text \<open>From one state to another: the pending requests \<open>p\<close> become \<open>p'\<close>, at least the answers \<open>b\<close> and the scheduled tasks \<open>e\<close>
  are added, and nothing else that was pending or answered before goes away.\<close>

definition goes :: "(string \<Rightarrow> string) \<Rightarrow> int \<Rightarrow> TaskServer \<Rightarrow> creation multiset \<Rightarrow> TaskServer \<Rightarrow> creation multiset \<Rightarrow>
    (string \<times> string) list \<Rightarrow> (string \<times> string) list \<Rightarrow> bool" where
  "goes sha T s p s' p' b e \<longleftrightarrow>
     (\<forall>q a d. \<exists>q' a' d'. (creates sha T)\<^sup>*\<^sup>* (s, p + q, a, d) (s', p' + (q + q'), a', d') \<and>
        set (b @ a) \<subseteq> set a' \<and> set (e @ d) \<subseteq> set d')"

lemma goes_step:
  assumes "\<And>q a d. creates sha T (s, p + q, a, d) (s', p' + q, b @ a, e @ d)" shows "goes sha T s p s' p' b e"
  unfolding goes_def
proof (intro allI exI conjI)
  show "(creates sha T)\<^sup>*\<^sup>* (s, p + q, a, d) (s', p' + (q + {#}), b @ a, e @ d)" for q a d
    using assms [of q a d] by auto
qed simp_all

lemma goes_refl [simp]: "goes sha T s p s p [] []"
  unfolding goes_def
proof (intro allI exI conjI)
  show "(creates sha T)\<^sup>*\<^sup>* (s, p + q, a, d) (s, p + (q + {#}), a, d)" for q a d by simp
qed simp_all

lemma goes_trans:
  assumes "goes sha T s p s1 p1 b e" and "goes sha T s1 p1 s2 p2 b' e'"
  shows "goes sha T s p s2 p2 (b @ b') (e @ e')"
  unfolding goes_def
proof (intro allI)
  fix q a d
  obtain q1 a1 d1 where 1: "(creates sha T)\<^sup>*\<^sup>* (s, p + q, a, d) (s1, p1 + (q + q1), a1, d1)" "set (b @ a) \<subseteq> set a1" "set (e @ d) \<subseteq> set d1"
    using assms(1) unfolding goes_def by blast
  obtain q2 a2 d2 where 2: "(creates sha T)\<^sup>*\<^sup>* (s1, p1 + (q + q1), a1, d1) (s2, p2 + (q + q1 + q2), a2, d2)"
      "set (b' @ a1) \<subseteq> set a2" "set (e' @ d1) \<subseteq> set d2"
    using assms(2) unfolding goes_def by blast
  have "(creates sha T)\<^sup>*\<^sup>* (s, p + q, a, d) (s2, p2 + (q + (q1 + q2)), a2, d2)"
    using rtranclp_trans [OF 1(1) 2(1)] by (simp add: add.assoc)
  moreover have "set ((b @ b') @ a) \<subseteq> set a2" "set ((e @ e') @ d) \<subseteq> set d2" using 1(2,3) 2(2,3) by auto
  ultimately show "\<exists>q' a' d'. (creates sha T)\<^sup>*\<^sup>* (s, p + q, a, d) (s2, p2 + (q + q'), a', d') \<and>
      set ((b @ b') @ a) \<subseteq> set a' \<and> set ((e @ e') @ d) \<subseteq> set d'" by blast
qed

lemma goes_frame: assumes "goes sha T s {#} s' {#} b e" shows "goes sha T s p s' p b e"
  unfolding goes_def
proof (intro allI)
  fix q a d
  obtain q' a' d' where r: "(creates sha T)\<^sup>*\<^sup>* (s, p + q, a, d) (s', p + q + q', a', d')" "set (b @ a) \<subseteq> set a'" "set (e @ d) \<subseteq> set d'"
    using assms [unfolded goes_def, rule_format, of "p + q" a d] by auto
  have "(creates sha T)\<^sup>*\<^sup>* (s, p + q, a, d) (s', p + (q + q'), a', d')" using r(1) by (simp only: add.assoc)
  then show "\<exists>q' a' d'. (creates sha T)\<^sup>*\<^sup>* (s, p + q, a, d) (s', p + (q + q'), a', d') \<and>
      set (b @ a) \<subseteq> set a' \<and> set (e @ d) \<subseteq> set d'" using r(2,3) by blast
qed

lemma creates_keyed: "creates sha T st st' \<Longrightarrow> keyed (hv_tm (fst st)) \<Longrightarrow> keyed (hv_tm (fst st'))"
proof (induction rule: creates.induct)
  case (keyed s now req i s' q a d)
  then show ?case by (auto simp: record_key_def split: if_splits prod.splits)
next
  case (duplicate s now req i t s' q a d w now' reason)
  have "hv_sched s' = hv_sched s" using duplicate.hyps by (auto simp: record_key_def split: if_splits prod.splits)
  then show ?case using duplicate.prems same_or_moreD(1) [OF cancel_created_more, of s'] by simp
qed (auto simp: kept_def dest: same_or_moreD(1) [OF create_step_failed] same_or_moreD(1) [OF create_step_ok(1)]
    same_or_moreD(1) [OF schedule_step_more] intro: same_or_moreD(1) [OF cancel_created_more])

lemma goes_keyed: assumes "goes sha T s p s' p' b e" and "keyed (hv_tm s)" shows "keyed (hv_tm s')"
proof -
  have run: "keyed (hv_tm (fst st'))" if "(creates sha T)\<^sup>*\<^sup>* st st'" "keyed (hv_tm (fst st))" for st st'
    using that by (induction rule: rtranclp_induct) (auto intro: creates_keyed)
  obtain q' a' d' where "(creates sha T)\<^sup>*\<^sup>* (s, p + {#}, [], []) (s', p' + ({#} + q'), a', d')"
    using assms(1) unfolding goes_def by blast
  from run [OF this] assms(2) show ?thesis by simp
qed

lemma goes_ttl: assumes "goes sha T s p s' p' b e" shows "is_ttl (hv_idem s') = is_ttl (hv_idem s)"
proof -
  obtain q' a' d' where "(creates sha T)\<^sup>*\<^sup>* (s, p + {#}, [], []) (s', p' + ({#} + q'), a', d')"
    using assms unfolding goes_def by blast
  from creates_run_ttl [OF this] show ?thesis by simp
qed


text \<open>What other goroutines do at a cut is a run of steps too.\<close>

definition may_follow :: "(string \<Rightarrow> string) \<Rightarrow> int \<Rightarrow> create_env \<Rightarrow> bool" where
  "may_follow sha T en \<longleftrightarrow> (\<forall>n s. goes sha T s {#} (ce_others en n s) {#} [] [])"

lemma in_time_ttl: "is_ttl (hv_idem s') = is_ttl (hv_idem s) \<Longrightarrow> in_time T s' now = in_time T s now"
  by (simp add: in_time_def)

definition fresh_ids :: "create_env \<Rightarrow> TaskServer \<Rightarrow> TaskRequest \<Rightarrow> bool" where
  "fresh_ids en s req \<longleftrightarrow>
     (case create_step (ce_hex en) (ce_log en) (ce_writes en 0) (ce_now en 2) s req of
        (Inr t, s1) \<Rightarrow> hv_task s (t_TaskID t) = None | _ \<Rightarrow> True)"

text \<open>The end of the handler, from the task on.\<close>

lemma goes_scheduled:
  assumes o: "may_follow sha T en"
    and h: "(case schedule_step sha (ce_writes en 2) (ce_writes en 3) (ce_now en 5) (ce_others en 3 s2) i of
            (Some e, s3) \<Rightarrow> (NotScheduled e i, cancel_created (ce_writes en 4) (ce_now en 6) (ce_others en 4 s3) i (ce_error en e))
          | (None, s3) \<Rightarrow> (TaskAccepted (task_response req (case hv_task s3 i of None \<Rightarrow> u | Some t' \<Rightarrow> t')), s3)) = (reply, s')"
    and keyed: "keyed (hv_tm s2)" and u: "t_TaskID u = i"
  shows "answered reply = Some i \<and> goes sha T s2 {#Keyed req i#} s' {#} [(rq_IdempotencyKey req, i)]
     (case reply of TaskAccepted _ \<Rightarrow> [(rq_IdempotencyKey req, i)] | _ \<Rightarrow> [])"
proof -
  have go: "goes sha T u p (ce_others en n u) p [] []" for u p n using o goes_frame unfolding may_follow_def by blast
  obtain e s3 where sch: "schedule_step sha (ce_writes en 2) (ce_writes en 3) (ce_now en 5) (ce_others en 3 s2) i = (e, s3)" by fastforce
  let ?k = "(rq_IdempotencyKey req, i)"
  show ?thesis
  proof (cases e)
    case None
    have "goes sha T (ce_others en 3 s2) {#Keyed req i#} s3 {#} [?k] [?k]"
      using sch None by (intro goes_step) (auto intro: creates.scheduled)
    note run = goes_trans [OF go this]
    have "keyed (hv_tm s3)" using goes_keyed [OF run keyed] .
    then have "t_TaskID (case hv_task s3 i of None \<Rightarrow> u | Some t' \<Rightarrow> t') = i"
      using u by (auto simp: keyed_def GetTask_def split: option.split)
    moreover have "reply = TaskAccepted (task_response req (case hv_task s3 i of None \<Rightarrow> u | Some t' \<Rightarrow> t'))" "s' = s3"
      using h sch None by auto
    ultimately show ?thesis using run by (simp add: task_response_def)
  next
    case (Some x)
    have "goes sha T (ce_others en 3 s2) {#Keyed req i#} s3 {#Refused req i#} [?k] []"
      using sch Some by (intro goes_step) (auto intro: creates.refused)
    moreover have "goes sha T (ce_others en 4 s3) {#Refused req i#} s' {#} [] []"
      using h sch Some by (intro goes_step) (auto intro: creates.canceled)
    ultimately have "goes sha T s2 {#Keyed req i#} s' {#} ([] @ [?k] @ [] @ []) ([] @ [] @ [] @ [])"
      by (intro goes_trans [OF go] goes_trans [OF _ goes_trans [OF go]])
    then show ?thesis using h sch Some by auto
  qed
qed


abbreviation answers_of :: "string \<Rightarrow> create_reply \<Rightarrow> (string \<times> string) list" where
  "answers_of k reply \<equiv> (case answered reply of None \<Rightarrow> [] | Some i \<Rightarrow> [(k, i)])"

abbreviation accepted_of :: "string \<Rightarrow> create_reply \<Rightarrow> (string \<times> string) list" where
  "accepted_of k reply \<equiv> (case reply of TaskAccepted r \<Rightarrow> [(k, tp_TaskID r)] | _ \<Rightarrow> [])"

lemma create_handler_steps:
  assumes o: "may_follow sha T en" and keyed: "keyed (hv_tm s)" and t: "in_time T s (ce_now en 0)" "in_time T s (ce_now en 3)"
    and f: "fresh_ids en (ce_others en 1 (ce_others en 0 s)) (alias_request req0)"
    and h: "handleCreateTask sha en s (Some req0) = (reply, s')"
  shows "goes sha T s {#} s' {#} (answers_of (rq_IdempotencyKey req0) reply) (accepted_of (rq_IdempotencyKey req0) reply)"
proof -
  define req where "req = alias_request req0"
  have k: "rq_IdempotencyKey req = rq_IdempotencyKey req0" by (simp add: req_def alias_request_def Let_def)
  have go: "goes sha T u p (ce_others en n u) p [] []" for u p n using o goes_frame unfolding may_follow_def by blast
  note h = h [unfolded handleCreateTask_def, simplified, folded req_def, unfolded Let_def]
  show ?thesis
  proof (cases "rq_Agent req = [] \<or> rq_Task req = []")
    case True then show ?thesis using h by auto
  next
    case ok: False
    show ?thesis
    proof (cases "find_existing (ce_now en 0) s req")
      case (Some u)
      have "goes sha T s {#} s {#} [(rq_IdempotencyKey req, t_TaskID u)] []"
        using Some t(1) by (intro goes_step) (auto intro: creates.found)
      then show ?thesis using h ok Some k by (auto simp: task_response_def)
    next
      case None
      have l: "goes sha T s {#} s {#Looked req#} [] []" using None by (intro goes_step) (auto intro: creates.looked)
      let ?s0 = "ce_others en 0 s" and ?s1 = "ce_others en 1 (ce_others en 0 s)"
      have l0: "goes sha T s {#} ?s0 {#Looked req#} [] []" using goes_trans [OF l go] by simp
      show ?thesis
      proof (cases "strict_refusal sha (ce_now en 1) ?s0 req")
        case (Some x)
        have "goes sha T ?s0 {#Looked req#} ?s0 {#} [] []" by (intro goes_step) (auto intro: creates.given_up)
        from goes_trans [OF l0 this] have "goes sha T s {#} ?s0 {#} [] []" by simp
        moreover have r: "reply = x" "s' = ?s0" using h ok None Some by simp_all
        moreover have "answered x = None \<and> accepted_of k x = []" for k
          using Some by (auto simp: strict_refusal_def split: if_splits option.splits)
        ultimately show ?thesis by simp
      next
        case safe: None
        have l1: "goes sha T s {#} ?s1 {#Looked req#} [] []" using goes_trans [OF l0 go] by simp
        obtain r c where c: "create_step (ce_hex en) (ce_log en) (ce_writes en 0) (ce_now en 2) ?s1 req = (r, c)" by fastforce
        show ?thesis
        proof (cases r)
          case (Inl e)
          have "goes sha T ?s1 {#Looked req#} c {#} [] []" using c Inl by (intro goes_step) (auto intro: creates.failed)
          from goes_trans [OF l1 this] have "goes sha T s {#} c {#} [] []" by simp
          moreover have "reply = TaskNotCreated e" "s' = c" using h ok None safe c Inl by simp_all
          ultimately show ?thesis by simp
        next
          case (Inr u)
          have "hv_task ?s1 (t_TaskID u) = None" using f c Inr by (simp add: fresh_ids_def req_def)
          then have "goes sha T ?s1 {#Looked req#} c {#Made req (t_TaskID u)#} [] []"
            using c Inr by (intro goes_step) (auto intro: creates.made)
          from goes_trans [OF goes_trans [OF l1 this] go, of 2]
          have l2: "goes sha T s {#} (ce_others en 2 c) {#Made req (t_TaskID u)#} [] []" by simp
          then have t3: "in_time T (ce_others en 2 c) (ce_now en 3)" using t(2) goes_ttl in_time_ttl by blast
          obtain x s2 where rec: "record_key (ce_now en 3) (ce_others en 2 c) req (t_TaskID u) = (x, s2)" by fastforce
          show ?thesis
          proof (cases x)
            case (Some v)
            have r: "reply = ExistingTask (task_response req v)"
              "s' = cancel_created (ce_writes en 1) (ce_now en 4) s2 (t_TaskID u) duplicate_reason"
              using h ok None safe c Inr rec Some by simp_all
            have "goes sha T (ce_others en 2 c) {#Made req (t_TaskID u)#} s' {#} [(rq_IdempotencyKey req, t_TaskID v)] []"
              unfolding r(2) using rec Some t3 by (intro goes_step) (auto intro: creates.duplicate)
            from goes_trans [OF l2 this] show ?thesis using r k by (simp add: task_response_def)
          next
            case None2: None
            have "goes sha T (ce_others en 2 c) {#Made req (t_TaskID u)#} s2 {#Keyed req (t_TaskID u)#} [] []"
              using rec None2 t3 by (intro goes_step) (auto intro: creates.keyed)
            from goes_trans [OF l2 this] have l3: "goes sha T s {#} s2 {#Keyed req (t_TaskID u)#} [] []" by simp
            have "(case schedule_step sha (ce_writes en 2) (ce_writes en 3) (ce_now en 5) (ce_others en 3 s2) (t_TaskID u) of
                (Some e, s3) \<Rightarrow> (NotScheduled e (t_TaskID u), cancel_created (ce_writes en 4) (ce_now en 6) (ce_others en 4 s3) (t_TaskID u) (ce_error en e))
              | (None, s3) \<Rightarrow> (TaskAccepted (task_response req (case hv_task s3 (t_TaskID u) of None \<Rightarrow> u | Some t' \<Rightarrow> t')), s3)) = (reply, s')"
              using h ok None safe c Inr rec None2 by simp
            note end' = goes_scheduled [OF o this goes_keyed [OF l3 keyed] refl]
            have "accepted_of (rq_IdempotencyKey req) reply = (case reply of TaskAccepted _ \<Rightarrow> [(rq_IdempotencyKey req, t_TaskID u)] | _ \<Rightarrow> [])"
              using end' by (cases reply) simp_all
            then show ?thesis using goes_trans [OF l3 conjunct2 [OF end']] conjunct1 [OF end'] unfolding k by simp
          qed
        qed
      qed
    qed
  qed
qed


section \<open>Witness\<close>

definition sample_tasks :: TaskServer where
  "sample_tasks = \<lparr>hv_sched = NewTerritoryScheduler TerritoryModeQueue sample_manager (NewTerritoryManager [] [] 0) NewBranchLockManager,
     hv_idem = NewIdempotencyStore 100, hv_mode = TerritoryModeQueue\<rparr>"

definition create_sample_env :: "string \<Rightarrow> int \<Rightarrow> create_env" where
  "create_sample_env hx now = \<lparr>ce_hex = Some hx, ce_log = True, ce_writes = (\<lambda>_. WriteOk), ce_now = (\<lambda>n. now + int n),
     ce_error = (\<lambda>_. ''refused''), ce_others = (\<lambda>_ s. s)\<rparr>"

definition keyed_request :: TaskRequest where
  "keyed_request = sample_request\<lparr>rq_IdempotencyKey := ''k''\<rparr>"

text \<open>One request sent twice.\<close>

lemma sample_quiet: "may_follow sha T (create_sample_env hx now)"
  by (simp add: may_follow_def create_sample_env_def)

definition first_run :: "create_reply \<times> TaskServer" where
  "first_run = handleCreateTask id (create_sample_env ''aa'' 1) sample_tasks (Some keyed_request)"

definition second_run :: "create_reply \<times> TaskServer" where
  "second_run = handleCreateTask id (create_sample_env ''bb'' 50) (snd first_run) (Some keyed_request)"


text \<open>A creation that the scheduler refuses (409) cancels its task and leaves the key recorded: a retry with the same key is
  answered 200 with the canceled task, although nothing stands in its way any more.\<close>

definition plain_tasks :: TaskServer where
  "plain_tasks = sample_tasks\<lparr>hv_sched := (hv_sched sample_tasks)\<lparr>sc_mode := TerritoryModeDisabled\<rparr>\<rparr>"

definition refused_run :: "(create_reply \<times> TaskServer) list" where
  "refused_run =
     (let holder = handleCreateTask id (create_sample_env ''aa'' 1) plain_tasks (Some sample_request);
          refused = handleCreateTask id (create_sample_env ''bb'' 20) (snd holder) (Some keyed_request);
          freed = handleTaskCancel id WriteOk (\<lambda>_. WriteOk) 40 (snd refused) ''task-3-aa'' None;
          retry = handleCreateTask id (create_sample_env ''cc'' 50) (snd freed) (Some keyed_request)
      in [holder, refused, retry])"

lemma refused_key_stays_recorded:
  "map (\<lambda>r. (create_status (fst r), answered (fst r))) refused_run =
     [(201, Some ''task-3-aa''), (409, Some ''task-22-bb''), (200, Some ''task-22-bb'')]"
  "map_option t_Status (hv_task (snd (last refused_run)) ''task-22-bb'') = Some TaskStatusCanceled"
  "GetLock (sc_locks (hv_sched (snd (last refused_run)))) ''github.com/org/repo'' ''main'' = None"
  by code_simp+

end
