(* ===== verification/Workspace.thy ===== *)
theory Workspace
  imports Evaluator_Safety "HOL-Library.Product_Lexorder"
begin

text \<open>
  The workspace endpoints of the coordinator (\<open>pkg/server/http/handlers.go\<close>): a path of a client is resolved below the
  workspace root, and the directory or file there is returned. The file system is the \<open>system\<close> of the evaluator with the
  answers of \<open>stat\<close> and of reading a directory added. An answer of \<open>resolveWorkspacePath\<close> with two empty paths means
  that the path lies outside.
\<close>

section \<open>The file system\<close>

record file_info =
  fi_IsDir :: bool
  fi_Size :: int
  fi_ModTime :: int

datatype info_result = InfoOk file_info | InfoMissing | InfoError string

text \<open>The entries of a directory; an entry whose \<open>Info\<close> fails has none.\<close>

datatype dir_result = DirOk "(string \<times> bool \<times> file_info option) list" | DirMissing | DirError string

record file_system = system +
  os_info :: "string \<Rightarrow> info_result"
  os_dir :: "string \<Rightarrow> dir_result"

section \<open>Resolution\<close>

text \<open>\<open>withinRoot\<close> and \<open>resolveExistingPrefix\<close> are the functions of the same names of the evaluator.\<close>

definition served_within :: "string \<Rightarrow> string \<Rightarrow> bool" where
  "served_within root p \<longleftrightarrow>
     (case fp_rel root p of
        None \<Rightarrow> False
      | Some rel \<Rightarrow> \<not> (rel = ''..'' \<or> HasPrefix rel ''../''))"

definition served_prefix :: "system \<Rightarrow> string \<Rightarrow> string + string" where
  "served_prefix os path = resolve_prefix os [] path"

definition resolveWorkspacePath :: "system \<Rightarrow> string \<Rightarrow> string \<Rightarrow> string + (string \<times> string)" where
  "resolveWorkspacePath os workspaceRoot subPath =
     (let cleaned = path_clean subPath in
      if cleaned = ''.'' then Inr (workspaceRoot, ''.'')
      else if rooted cleaned \<or> cleaned = ''..'' \<or> HasPrefix cleaned ''../'' then Inr ([], [])
      else (case (case os_symlinks os workspaceRoot of
                    LinkTo root \<Rightarrow> Inr root | LinkMissing \<Rightarrow> Inr (path_clean workspaceRoot)
                  | LinkError e \<Rightarrow> Inl (''resolve workspace root: '' @ e)) of
              Inl e \<Rightarrow> Inl e
            | Inr root \<Rightarrow>
                let joined = fp_join [root, cleaned] in
                if \<not> served_within root joined then Inr ([], [])
                else (case served_prefix os joined of
                        Inl e \<Rightarrow> Inl e
                      | Inr resolved \<Rightarrow>
                          if \<not> served_within root resolved then Inr ([], [])
                          else (case fp_rel root resolved of
                                  None \<Rightarrow> Inl ''compute relative path''
                                | Some out \<Rightarrow>
                                    if HasPrefix out ''..'' then Inl ''compute relative path'' else Inr (resolved, out)))))"

section \<open>Handlers\<close>

record WorkspaceFileEntry =
  we_Name :: string
  we_Path :: string
  we_IsDir :: bool
  we_Size :: int
  we_ModTime :: int

record WorkspaceTreeResponse =
  wt_Root :: string
  wt_Path :: string
  wt_Entries :: "WorkspaceFileEntry list"

record WorkspaceFileResponse =
  wf_Path :: string
  wf_Size :: int
  wf_ModTime :: int
  wf_Content :: string

datatype 'a workspace_reply =
  NoPathGiven | ResolveFailed string | AccessDenied | PathNotFound | StatFailed string | WrongKind | TooLarge | ReadFailed string
  | Served 'a

fun workspace_status :: "'a workspace_reply \<Rightarrow> nat" where
  "workspace_status NoPathGiven = 400"
| "workspace_status (ResolveFailed _) = 500"
| "workspace_status AccessDenied = 403"
| "workspace_status PathNotFound = 404"
| "workspace_status (StatFailed _) = 400"
| "workspace_status WrongKind = 400"
| "workspace_status TooLarge = 413"
| "workspace_status (ReadFailed _) = 500"
| "workspace_status (Served _) = 200"

definition tree_entries :: "string \<Rightarrow> (string \<times> bool \<times> file_info option) list \<Rightarrow> WorkspaceFileEntry list" where
  "tree_entries relDir es =
     List.map_filter (\<lambda>(name, isDir, info). map_option (\<lambda>i.
       \<lparr>we_Name = name, we_Path = fp_join [relDir, name], we_IsDir = isDir, we_Size = fi_Size i, we_ModTime = fi_ModTime i\<rparr>) info) es"

definition handleWorkspaceTree :: "file_system \<Rightarrow> string \<Rightarrow> string \<Rightarrow> WorkspaceTreeResponse workspace_reply" where
  "handleWorkspaceTree os workspaceRoot path =
     (case resolveWorkspacePath (system.truncate os) workspaceRoot path of
        Inl e \<Rightarrow> ResolveFailed e
      | Inr (fullPath, relDir) \<Rightarrow>
          if fullPath = [] then AccessDenied
          else (case os_info os fullPath of
                  InfoMissing \<Rightarrow> PathNotFound
                | InfoError e \<Rightarrow> StatFailed e
                | InfoOk fi \<Rightarrow>
                    if \<not> fi_IsDir fi then WrongKind
                    else (case os_dir os fullPath of
                            DirMissing \<Rightarrow> PathNotFound
                          | DirError e \<Rightarrow> StatFailed e
                          | DirOk es \<Rightarrow>
                              Served \<lparr>wt_Root = workspaceRoot, wt_Path = relDir,
                                wt_Entries = sort_key (\<lambda>e. (\<not> we_IsDir e, we_Name e)) (tree_entries relDir es)\<rparr>)))"

definition workspaceMaxFileSize :: int where
  "workspaceMaxFileSize = 5 * 1024 * 1024"

definition handleWorkspaceFile :: "file_system \<Rightarrow> string \<Rightarrow> string \<Rightarrow> WorkspaceFileResponse workspace_reply" where
  "handleWorkspaceFile os workspaceRoot subPath =
     (if subPath = [] then NoPathGiven
      else case resolveWorkspacePath (system.truncate os) workspaceRoot subPath of
        Inl e \<Rightarrow> ResolveFailed e
      | Inr (fullPath, relPath) \<Rightarrow>
          if fullPath = [] then AccessDenied
          else (case os_info os fullPath of
                  InfoMissing \<Rightarrow> PathNotFound
                | InfoError e \<Rightarrow> StatFailed e
                | InfoOk fi \<Rightarrow>
                    if fi_IsDir fi then WrongKind
                    else if fi_Size fi > workspaceMaxFileSize then TooLarge
                    else (case os_read os fullPath of
                            ReadOk content \<Rightarrow>
                              Served \<lparr>wf_Path = relPath, wf_Size = fi_Size fi, wf_ModTime = fi_ModTime fi, wf_Content = content\<rparr>
                          | ReadMissing \<Rightarrow> ReadFailed ''file does not exist''
                          | ReadError e \<Rightarrow> ReadFailed e)))"

section \<open>Confinement\<close>

lemma served_within_below: "served_within root p \<longleftrightarrow> below root p"
  unfolding served_within_def withinRoot_def [symmetric] by (rule withinRoot_iff)

lemma truncate_symlinks [simp]: "os_symlinks (system.truncate os) = os_symlinks os"
  by (simp add: system.defs)

lemma resolveWorkspacePath_cong:
  assumes "os_symlinks o1 = os_symlinks o2"
  shows "resolveWorkspacePath o1 w p = resolveWorkspacePath o2 w p"
proof -
  have "resolve_prefix o1 [] = resolve_prefix o2 []" by (intro ext resolve_prefix_cong assms)
  then show ?thesis unfolding resolveWorkspacePath_def served_prefix_def by (simp only: assms)
qed

text \<open>What is served lies below the resolved root, or is the root as configured.\<close>

lemma resolve_below:
  assumes "resolveWorkspacePath os w p = Inr (full, rel)" and "full \<noteq> []"
  shows "(full = w \<and> rel = ''.'') \<or>
    (\<exists>root. workspace_root os w = Inr root \<and> below root full \<and> fp_rel root full = Some rel)"
  using assms
  by (auto simp: resolveWorkspacePath_def Let_def workspace_root_def served_within_below
      split: if_splits sum.splits link_result.splits option.splits)

definition in_workspace :: "system \<Rightarrow> string \<Rightarrow> string \<Rightarrow> bool" where
  "in_workspace os w q \<longleftrightarrow> q = w \<or> (\<exists>root. workspace_root os w = Inr root \<and> below root q)"

lemma resolve_in_workspace:
  "resolveWorkspacePath os w p = Inr (full, rel) \<Longrightarrow> full \<noteq> [] \<Longrightarrow> in_workspace os w full"
  using resolve_below unfolding in_workspace_def by blast


section \<open>Witness\<close>

text \<open>A workspace with a file, a link that leads out of it, and a directory whose name begins with two dots.\<close>

definition sample_files :: file_system where
  "sample_files = system.extend sample_system
     \<lparr>os_info = (\<lambda>q. if q = ''/w'' then InfoOk \<lparr>fi_IsDir = True, fi_Size = 0, fi_ModTime = 1\<rparr>
                     else InfoOk \<lparr>fi_IsDir = False, fi_Size = 1, fi_ModTime = 2\<rparr>),
      os_dir = (\<lambda>q. DirOk [(''b'', False, Some \<lparr>fi_IsDir = False, fi_Size = 1, fi_ModTime = 2\<rparr>), (''gone'', False, None),
                          (''a'', False, Some \<lparr>fi_IsDir = False, fi_Size = 1, fi_ModTime = 2\<rparr>)])\<rparr>"

lemma sample_served:
  "handleWorkspaceFile sample_files ''/w'' ''x/../a'' = Served \<lparr>wf_Path = ''a'', wf_Size = 1, wf_ModTime = 2, wf_Content = ''x''\<rparr>"
  "handleWorkspaceFile sample_files ''/w'' ''leak'' = AccessDenied"
  "handleWorkspaceFile sample_files ''/w'' ''../etc'' = AccessDenied"
  by code_simp+


text \<open>A file below the root whose name begins with two dots is answered with 500.\<close>

lemma dotdot_name_fails:
  "workspace_status (handleWorkspaceFile sample_files ''/w'' ''..data'') = 500"
  "below ''/w'' ''/w/..data''"
  unfolding withinRoot_iff [symmetric] by code_simp+

end
