(* ===== verification/Public_Key.thy ===== *)
theory Public_Key
  imports Jcs
begin

text \<open>
  The check of public keys, \<open>pkg/signing/validate.go\<close>: the hexadecimal text of 32 bytes, not all zero, whose y-coordinate is
  canonical. The check looks at single bytes; \<open>ValidateEd25519PublicKey_iff\<close> states it on the number that the bytes
  denote in little-endian order.
\<close>

unbundle bit_operations_syntax

datatype key_error = ErrInvalidKeyLength | InvalidHexEncoding | ErrZeroKey | ErrNonCanonicalPoint

fun hex_bytes :: "string \<Rightarrow> 8 word list option" where
  "hex_bytes [] = Some []"
| "hex_bytes [a] = None"
| "hex_bytes (a # b # s) =
     (case (hex_val a, hex_val b, hex_bytes s) of
        (Some x, Some y, Some bs) \<Rightarrow> Some (word_of_nat (16 * x + y) # bs)
      | _ \<Rightarrow> None)"

definition ValidateEd25519PublicKey :: "string \<Rightarrow> key_error + 8 word list" where
  "ValidateEd25519PublicKey pubHex =
     (if length pubHex \<noteq> 64 then Inl ErrInvalidKeyLength
      else case hex_bytes pubHex of
             None \<Rightarrow> Inl InvalidHexEncoding
           | Some pubBytes \<Rightarrow>
               if pubBytes = replicate 32 0 then Inl ErrZeroKey
               else let yLast = pubBytes ! 31 AND 0x7F in
                 if yLast = 0x7F \<and> list_all (\<lambda>i. pubBytes ! i = 0xFF) (rev [1..<31]) \<and> pubBytes ! 0 \<ge> 0xED
                 then Inl ErrNonCanonicalPoint
                 else Inr pubBytes)"

section \<open>The field element\<close>

fun le_value :: "8 word list \<Rightarrow> nat" where
  "le_value [] = 0"
| "le_value (b # bs) = unat b + 256 * le_value bs"

definition y_coordinate :: "8 word list \<Rightarrow> nat" where
  "y_coordinate bs = le_value bs mod 2 ^ 255"

lemma hex_bytes_length: "hex_bytes s = Some bs \<Longrightarrow> 2 * length bs = length s"
  by (induction s arbitrary: bs rule: hex_bytes.induct) (auto split: option.splits)

lemma le_value_append: "le_value (xs @ ys) = le_value xs + 256 ^ length xs * le_value ys"
  by (induction xs) (simp_all add: algebra_simps)

lemma byte_bound: "unat (b :: 8 word) < 256"
  using unsigned_less [of b, where 'a = nat] by simp

lemma le_value_bound: "le_value bs < 256 ^ length bs"
proof (induction bs)
  case (Cons b bs)
  have "256 * le_value bs + 256 \<le> 256 * 256 ^ length bs" using Cons.IH by simp
  then show ?case using byte_bound [of b] by simp
qed simp

lemma le_value_zero_iff: "le_value bs = 0 \<longleftrightarrow> bs = replicate (length bs) 0"
  by (induction bs) (simp_all add: unat_eq_0)

lemma le_value_full: "le_value bs = 256 ^ length bs - 1 \<longleftrightarrow> (\<forall>b \<in> set bs. b = 0xFF)"
proof (induction bs)
  case (Cons b bs)
  have v: "le_value bs < 256 ^ length bs" by (rule le_value_bound)
  have "unat b = 255 \<longleftrightarrow> b = 0xFF" by (simp add: word_unat_eq_iff)
  moreover have "unat b + 256 * le_value bs = 256 * 256 ^ length bs - 1 \<longleftrightarrow> unat b = 255 \<and> le_value bs = 256 ^ length bs - 1"
    using v byte_bound [of b] by linarith
  ultimately show ?case using Cons.IH by simp
qed simp

text \<open>The bytes split into the lowest, the middle thirty and the highest.\<close>

lemma le_value_split:
  assumes "length bs = 32"
  shows "le_value bs = unat (bs ! 0) + 256 * le_value (take 30 (drop 1 bs)) + 256 ^ 31 * unat (bs ! 31)"
proof -
  have "bs = bs ! 0 # take 30 (drop 1 bs) @ [bs ! 31]"
  proof (rule nth_equalityI)
    fix i assume i: "i < length bs"
    then consider "i = 0" | "0 < i" "i < 31" | "i = 31" using assms by linarith
    then show "bs ! i = (bs ! 0 # take 30 (drop 1 bs) @ [bs ! 31]) ! i"
      by cases (use assms in \<open>auto simp: nth_Cons' nth_append\<close>)
  qed (use assms in simp)
  then have "le_value bs = le_value (bs ! 0 # take 30 (drop 1 bs) @ [bs ! 31])" by simp
  also have "\<dots> = unat (bs ! 0) + 256 * le_value (take 30 (drop 1 bs)) + 256 ^ 31 * unat (bs ! 31)"
    using assms by (simp add: le_value_append algebra_simps min_def)
  finally show ?thesis .
qed

lemma low_bits: "unat (b AND 0x7F :: 8 word) = unat b mod 128"
proof -
  have "(0x7F :: 8 word) = mask 7" by (simp add: mask_eq_exp_minus_1)
  then have "b AND 0x7F = take_bit 7 b" by (simp only: take_bit_eq_mask)
  then have "unat (b AND 0x7F) = take_bit 7 (unat b)" by (simp only: unsigned_take_bit_eq)
  then show ?thesis by (simp only: take_bit_eq_mod) simp
qed

lemma top_split: "256 ^ 31 * (n :: nat) = 256 ^ 31 * (n mod 128) + 2 ^ 255 * (n div 128)"
proof -
  have "256 ^ 31 * n = 256 ^ 31 * (128 * (n div 128) + n mod 128)" by simp
  also have "\<dots> = 256 ^ 31 * 128 * (n div 128) + 256 ^ 31 * (n mod 128)" by (simp only: distrib_left mult.assoc)
  also have "256 ^ 31 * 128 = (2 ^ 255 :: nat)" by simp
  finally show ?thesis by simp
qed

lemma y_coordinate_parts:
  assumes "length bs = 32"
  shows "y_coordinate bs = unat (bs ! 0) + 256 * le_value (take 30 (drop 1 bs)) + 256 ^ 31 * (unat (bs ! 31) mod 128)"
proof -
  let ?m = "take 30 (drop 1 bs)" and ?t = "unat (bs ! 31) mod 128"
  have m: "le_value ?m < 256 ^ 30" using le_value_bound [of ?m] assms by simp
  have "256 ^ 31 * ?t + (256 ^ 31 - 1) < 2 ^ 255" by simp
  then have "unat (bs ! 0) + 256 * le_value ?m + 256 ^ 31 * ?t < 2 ^ 255"
    using byte_bound [of "bs ! 0"] m by simp
  moreover have "le_value bs = unat (bs ! 0) + 256 * le_value ?m + 256 ^ 31 * ?t + 2 ^ 255 * (unat (bs ! 31) div 128)"
    using le_value_split [OF assms] top_split [of "unat (bs ! 31)"] by linarith
  ultimately show ?thesis by (simp only: y_coordinate_def mod_mult_self2 mod_less)
qed

lemma middle_all:
  assumes "length bs = 32"
  shows "(\<forall>b \<in> set (take 30 (drop 1 bs)). b = x) \<longleftrightarrow> (\<forall>i \<in> {1..<31}. bs ! i = x)"
proof -
  have "{1..<31} = Suc ` {0..<30}" by (simp add: image_Suc_atLeastLessThan)
  then have "(\<forall>i \<in> {1..<31}. bs ! i = x) \<longleftrightarrow> (\<forall>i < 30. bs ! Suc i = x)"
    by (simp only: ball_simps(9) One_nat_def Ball_def [of "{0..<30}"]) auto
  then show ?thesis using assms by (simp add: all_set_conv_all_nth)
qed

lemma non_canonical_iff:
  assumes "length bs = 32"
  shows "(bs ! 31 AND 0x7F = 0x7F \<and> list_all (\<lambda>i. bs ! i = 0xFF) (rev [1..<31]) \<and> bs ! 0 \<ge> 0xED) \<longleftrightarrow>
    2 ^ 255 - 19 \<le> y_coordinate bs"
proof -
  let ?m = "take 30 (drop 1 bs)" and ?t = "unat (bs ! 31) mod 128"
  have m: "length ?m = 30" using assms by simp
  have y: "y_coordinate bs = unat (bs ! 0) + 256 * le_value ?m + 256 ^ 31 * ?t" by (rule y_coordinate_parts [OF assms])
  have t: "?t < 128" by simp
  have "2 ^ 255 - 19 \<le> y_coordinate bs \<longleftrightarrow> ?t = 127 \<and> le_value ?m = 256 ^ 30 - 1 \<and> 237 \<le> unat (bs ! 0)"
    using y t le_value_bound [of ?m] m byte_bound [of "bs ! 0"] by simp linarith
  moreover have "bs ! 31 AND 0x7F = 0x7F \<longleftrightarrow> ?t = 127" by (simp add: word_unat_eq_iff low_bits)
  moreover have "le_value ?m = 256 ^ 30 - 1 \<longleftrightarrow> list_all (\<lambda>i. bs ! i = 0xFF) (rev [1..<31])"
    using le_value_full [of ?m] m middle_all [OF assms] by (simp only: list_all_iff set_rev set_upt)
  moreover have "bs ! 0 \<ge> 0xED \<longleftrightarrow> 237 \<le> unat (bs ! 0)" by (simp add: word_le_nat_alt)
  ultimately show ?thesis by blast
qed

text \<open>The check on bytes accepts exactly the keys whose number is canonical: the hexadecimal text of 32 bytes that are not
  all zero and denote, without the sign bit, a number below the prime of the field.\<close>

theorem ValidateEd25519PublicKey_iff:
  "ValidateEd25519PublicKey s = Inr bs \<longleftrightarrow>
     length s = 64 \<and> hex_bytes s = Some bs \<and> le_value bs \<noteq> 0 \<and> y_coordinate bs < 2 ^ 255 - 19"
proof (cases "length s = 64 \<and> hex_bytes s = Some bs")
  case True
  then have l: "length bs = 32" using hex_bytes_length [of s bs] by simp
  have z: "bs = replicate 32 0 \<longleftrightarrow> le_value bs = 0" using le_value_zero_iff [of bs] l by simp
  have c: "y_coordinate bs < 2 ^ 255 - 19 \<longleftrightarrow>
      \<not> (bs ! 31 AND 0x7F = 0x7F \<and> list_all (\<lambda>i. bs ! i = 0xFF) (rev [1..<31]) \<and> bs ! 0 \<ge> 0xED)"
    unfolding non_canonical_iff [OF l] by (simp only: not_le)
  show ?thesis unfolding c using True z by (simp add: ValidateEd25519PublicKey_def Let_def)
next
  case False
  then show ?thesis by (auto simp: ValidateEd25519PublicKey_def Let_def split: option.splits if_splits)
qed

end
