(* ===== verification/Mesh_Handlers.thy ===== *)
theory Mesh_Handlers
  imports Join_Project Node_Registry Federation Public_Key
begin

text \<open>
  The mesh handlers of the coordinator (\<open>pkg/server/http/handlers.go\<close>): joining, heartbeats, nodes, peers and the
  territory manifest. A decoded body is an argument (\<open>None\<close> when it does not decode), \<open>cn\<close> is the common name of the
  verified client certificate, and \<open>json.Marshal\<close> of the payload of a join is the parameter \<open>jn_marshal\<close>.
  \<open>handleMeshJoin\<close> takes several locks one after the other; \<open>jn_others k\<close> is what other goroutines do in between.
\<close>

section \<open>State\<close>

record MeshServer =
  mv_RequireMTLS :: bool
  mv_registry :: Registry
  mv_joinLog :: "JoinLog option"
  mv_joinProjector :: "Projector option"
  mv_territoryManager :: TerritoryManager

section \<open>Joining\<close>

datatype mesh_join_reply =
  JoinBodyInvalid | CertMismatch | KeyInvalid key_error | LogFailed join_error | ProjectionFailed proj_error
  | JoinRejected registry_error | NodeAccepted NodeInfo

fun mesh_join_status :: "mesh_join_reply \<Rightarrow> nat" where
  "mesh_join_status JoinBodyInvalid = 400"
| "mesh_join_status CertMismatch = 403"
| "mesh_join_status (KeyInvalid _) = 400"
| "mesh_join_status (LogFailed _) = 500"
| "mesh_join_status (ProjectionFailed _) = 500"
| "mesh_join_status (JoinRejected _) = 400"
| "mesh_join_status (NodeAccepted _) = 200"

definition join_payload :: "NodeJoinRequest \<Rightarrow> NodeJoinedPayload" where
  "join_payload req =
     (let tags = concat (map ap_Tags (jr_Agents req)) in
      \<lparr>nj_NodeID = jr_NodeID req, nj_Role = (if jr_Role req = [] then ''worker'' else jr_Role req),
       nj_Endpoint = jr_Endpoint req, nj_AgentPublicKey = jr_AgentPublicKey req,
       nj_Tags = (if tags = [] then None else Some tags)\<rparr>)"

definition join_event :: "(NodeJoinedPayload \<Rightarrow> string) \<Rightarrow> NodeJoinRequest \<Rightarrow> JoinEvent" where
  "join_event marshal req =
     \<lparr>je_ID = [], je_Seq = 0, je_Type = ''node.joined'', je_Actor = [], je_Payload = Some (marshal (join_payload req)),
      je_CreatedAt = (zero_instant, 0), je_PrevHash = [], je_Hash = []\<rparr>"

definition join_check :: "MeshServer \<Rightarrow> string option \<Rightarrow> NodeJoinRequest \<Rightarrow> mesh_join_reply option" where
  "join_check s cn req =
     (if mv_RequireMTLS s \<and> cn \<noteq> Some (jr_NodeID req) then Some CertMismatch
      else if jr_AgentPublicKey req \<noteq> []
      then (case ValidateEd25519PublicKey (jr_AgentPublicKey req) of Inl e \<Rightarrow> Some (KeyInvalid e) | Inr _ \<Rightarrow> None)
      else None)"

record mesh_join_env =
  jn_marshal :: "NodeJoinedPayload \<Rightarrow> string"
  jn_fault :: join_fault
  jn_newID :: "string option"
  jn_appended :: int
  jn_position :: bool
  jn_projected :: proj_fault
  jn_now :: int
  jn_others :: "nat \<Rightarrow> MeshServer \<Rightarrow> MeshServer"

definition join_append ::
  "go_host \<Rightarrow> (NodeJoinedPayload \<Rightarrow> string) \<Rightarrow> join_fault \<Rightarrow> string option \<Rightarrow> int \<Rightarrow> MeshServer \<Rightarrow> NodeJoinRequest \<Rightarrow>
   join_error option \<times> MeshServer" where
  "join_append h marshal flt newID now s req =
     (case mv_joinLog s of
        None \<Rightarrow> (None, s)
      | Some l \<Rightarrow>
          (case Append h flt newID now l (join_event marshal req) of (e, l') \<Rightarrow> (e, s\<lparr>mv_joinLog := Some l'\<rparr>)))"

text \<open>The sequence number and the hash of the event are read back from the head of the log, if that works.\<close>

definition read_back :: "(NodeJoinedPayload \<Rightarrow> string) \<Rightarrow> bool \<Rightarrow> JoinLog \<Rightarrow> NodeJoinRequest \<Rightarrow> JoinEvent" where
  "read_back marshal position l req =
     (let evt = join_event marshal req in
      if position then evt\<lparr>je_Seq := fst (HeadPosition l), je_Hash := snd (HeadPosition l)\<rparr> else evt)"

definition join_project ::
  "(NodeJoinedPayload \<Rightarrow> string) \<Rightarrow> bool \<Rightarrow> proj_fault \<Rightarrow> MeshServer \<Rightarrow> NodeJoinRequest \<Rightarrow> proj_error option \<times> MeshServer" where
  "join_project marshal position flt s req =
     (case (mv_joinLog s, mv_joinProjector s) of
        (Some l, Some p) \<Rightarrow>
          (case ProjectEvent flt p (read_back marshal position l req) of (e, p') \<Rightarrow> (e, s\<lparr>mv_joinProjector := Some p'\<rparr>))
      | _ \<Rightarrow> (None, s))"

definition join_register :: "int \<Rightarrow> MeshServer \<Rightarrow> NodeJoinRequest \<Rightarrow> (registry_error + NodeInfo) \<times> MeshServer" where
  "join_register now s req =
     (case RegisterNode now (mv_registry s) req of (r, rg) \<Rightarrow> (r, s\<lparr>mv_registry := rg\<rparr>))"

definition handleMeshJoin ::
  "go_host \<Rightarrow> mesh_join_env \<Rightarrow> MeshServer \<Rightarrow> string option \<Rightarrow> NodeJoinRequest option \<Rightarrow> mesh_join_reply \<times> MeshServer" where
  "handleMeshJoin h en s cn body =
     (case body of
        None \<Rightarrow> (JoinBodyInvalid, s)
      | Some req \<Rightarrow>
          (case join_check s cn req of
             Some reply \<Rightarrow> (reply, s)
           | None \<Rightarrow>
          (case join_append h (jn_marshal en) (jn_fault en) (jn_newID en) (jn_appended en) (jn_others en 0 s) req of
             (Some e, s1) \<Rightarrow> (LogFailed e, s1)
           | (None, s1) \<Rightarrow>
          (case join_project (jn_marshal en) (jn_position en) (jn_projected en) (jn_others en 1 s1) req of
             (Some e, s2) \<Rightarrow> (ProjectionFailed e, s2)
           | (None, s2) \<Rightarrow>
          (case join_register (jn_now en) (jn_others en 2 s2) req of
             (Inl e, s3) \<Rightarrow> (JoinRejected e, s3)
           | (Inr n, s3) \<Rightarrow> (NodeAccepted n, s3))))))"

section \<open>Heartbeats, nodes, peers\<close>

datatype ('a, 'e) mesh_reply = MeshBody | MeshUnknown | MeshRefused 'e | MeshOk 'a

definition handleMeshHeartbeat ::
  "int \<Rightarrow> MeshServer \<Rightarrow> NodeHeartbeatRequest option \<Rightarrow> (unit, registry_error) mesh_reply \<times> MeshServer" where
  "handleMeshHeartbeat now s body =
     (case body of
        None \<Rightarrow> (MeshBody, s)
      | Some req \<Rightarrow>
          (case Heartbeat now (mv_registry s) req of
             (Some e, rg) \<Rightarrow> (if e = ErrNodeNotFound then MeshUnknown else MeshRefused e, s\<lparr>mv_registry := rg\<rparr>)
           | (None, rg) \<Rightarrow> (MeshOk (), s\<lparr>mv_registry := rg\<rparr>)))"

definition handleMeshNodes :: "MeshServer \<Rightarrow> NodeInfo list" where
  "handleMeshNodes s = ListNodes (mv_registry s)"

definition handleMeshPeerRegister ::
  "MeshServer \<Rightarrow> PeerRegisterRequest option \<Rightarrow> (PeerInfo, peer_error) mesh_reply \<times> MeshServer" where
  "handleMeshPeerRegister s body =
     (case body of
        None \<Rightarrow> (MeshBody, s)
      | Some req \<Rightarrow>
          (case RegisterPeer (mv_territoryManager s) req of
             (Inl e, tm) \<Rightarrow> (MeshRefused e, s\<lparr>mv_territoryManager := tm\<rparr>)
           | (Inr info, tm) \<Rightarrow> (MeshOk info, s\<lparr>mv_territoryManager := tm\<rparr>)))"

definition handleMeshPeersList :: "MeshServer \<Rightarrow> PeerInfo list" where
  "handleMeshPeersList s = ListPeers (mv_territoryManager s)"

definition handleMeshPeerDelete :: "MeshServer \<Rightarrow> string \<Rightarrow> (unit, peer_error) mesh_reply \<times> MeshServer" where
  "handleMeshPeerDelete s i =
     (case DeregisterPeer (mv_territoryManager s) i of
        (Some e, tm) \<Rightarrow> (if e = ErrPeerNotFound then MeshUnknown else MeshRefused e, s\<lparr>mv_territoryManager := tm\<rparr>)
      | (None, tm) \<Rightarrow> (MeshOk (), s\<lparr>mv_territoryManager := tm\<rparr>))"

definition handleMeshPeerSync ::
  "int \<Rightarrow> MeshServer \<Rightarrow> string \<Rightarrow> sync_outcome \<Rightarrow> (TerritoryManifest, peer_error) mesh_reply \<times> MeshServer" where
  "handleMeshPeerSync now s i out =
     (case SyncPeer now (mv_territoryManager s) i out of
        (Inl e, tm) \<Rightarrow> (if e = ErrPeerNotFound then MeshUnknown else MeshRefused e, s\<lparr>mv_territoryManager := tm\<rparr>)
      | (Inr m, tm) \<Rightarrow> (MeshOk m, s\<lparr>mv_territoryManager := tm\<rparr>))"

definition handleMeshTerritory :: "int \<Rightarrow> MeshServer \<Rightarrow> ActiveTerritory list \<Rightarrow> TerritoryManifest" where
  "handleMeshTerritory now s local = LocalManifest now (mv_territoryManager s) local"

section \<open>Nodes, log and projection\<close>

text \<open>Registry operations other than a registration add no node and keep endpoint and key of every node.\<close>

definition nodes_kept :: "Registry \<Rightarrow> Registry \<Rightarrow> bool" where
  "nodes_kept r r' \<longleftrightarrow>
     (\<forall>i n'. map_get (rg_nodes r') i = Some n' \<longrightarrow>
        (\<exists>n. map_get (rg_nodes r) i = Some n \<and> ni_Endpoint n' = ni_Endpoint n \<and> ni_AgentPublicKey n' = ni_AgentPublicKey n))"

lemma nodes_kept_refl [simp]: "nodes_kept r r"
  by (simp add: nodes_kept_def)

lemma nodes_kept_put:
  assumes "map_get (rg_nodes r) k = Some n" and "ni_Endpoint n' = ni_Endpoint n" and "ni_AgentPublicKey n' = ni_AgentPublicKey n"
  shows "nodes_kept r (r\<lparr>rg_nodes := map_put (rg_nodes r) k n'\<rparr>)"
  unfolding nodes_kept_def by (intro allI impI) (use assms in \<open>simp add: gomap_simps split: if_splits\<close>)

lemma nodes_kept_Heartbeat: "nodes_kept r (snd (Heartbeat now r req))"
proof (cases "map_get (rg_nodes r) (hr_NodeID req)")
  case (Some n)
  show ?thesis unfolding Heartbeat_def Some Let_def option.case snd_conv by (rule nodes_kept_put [OF Some]) simp_all
qed (simp add: Heartbeat_def)

lemma nodes_kept_Deregister: "nodes_kept r (snd (DeregisterNode r i))"
  by (auto simp: nodes_kept_def DeregisterNode_def gomap_simps split: option.splits if_splits)

lemma nodes_kept_Unreachable: "nodes_kept r (snd (MarkNodeUnreachable r i))"
proof (cases "map_get (rg_nodes r) i")
  case (Some n)
  show ?thesis unfolding MarkNodeUnreachable_def Some option.case snd_conv by (rule nodes_kept_put [OF Some]) simp_all
qed (simp add: MarkNodeUnreachable_def)

lemma prune_node_keeps: "ni_Endpoint (prune_node now r n) = ni_Endpoint n" "ni_AgentPublicKey (prune_node now r n) = ni_AgentPublicKey n"
  by (simp_all add: prune_node_def Let_def)

lemma nodes_kept_Prune: "nodes_kept r (PruneStaleNodes now r)"
  unfolding nodes_kept_def
proof (intro allI impI)
  fix i n' assume a: "map_get (rg_nodes (PruneStaleNodes now r)) i = Some n'"
  show "\<exists>n. map_get (rg_nodes r) i = Some n \<and> ni_Endpoint n' = ni_Endpoint n \<and> ni_AgentPublicKey n' = ni_AgentPublicKey n"
  proof (cases "rg_heartbeatTimeout r \<le> 0")
    case False
    then obtain n where "map_get (rg_nodes r) i = Some n" "n' = prune_node now r n"
      using a by (auto simp: PruneStaleNodes_def map_of_map)
    then show ?thesis by (simp add: prune_node_keeps)
  qed (use a in \<open>simp add: PruneStaleNodes_def\<close>)
qed

lemma nodes_kept_Release: "nodes_kept r (ReleaseNode r i)"
  by (simp add: nodes_kept_def ReleaseNode_def)

lemma nodes_kept_Select: "nodes_kept r (snd (SelectAndReserve rnd now r agent tags))"
proof -
  have s: "rg_nodes (snd (selectLocked rnd now r agent tags)) = rg_nodes r"
    unfolding selectLocked_def Let_def by (simp split: option.split prod.split)
  then have "rg_nodes (snd (SelectAndReserve rnd now r agent tags)) = rg_nodes r"
    unfolding SelectAndReserve_def Let_def by (auto split: prod.split sum.split)
  then show ?thesis by (simp add: nodes_kept_def)
qed

end
