(* ===== verification/Mesh_Safety.thy ===== *)
theory Mesh_Safety
  imports Mesh_Handlers "HOL-Library.Multiset"
begin

text \<open>
  Joins of the mesh by any number of requests at once, with failures of the log and of the projection and with other work in
  between: a node is registered only after its join was logged and projected, and with mTLS only by its own certificate.
\<close>

section \<open>Interleaved joins\<close>

datatype joining = Checked "string option" NodeJoinRequest | Logged "string option" NodeJoinRequest
  | Projected "string option" NodeJoinRequest

text \<open>A row of the log that says that a node with this id, endpoint and key joined.\<close>

definition joined_row :: "string \<Rightarrow> string \<Rightarrow> string \<Rightarrow> join_row \<Rightarrow> bool" where
  "joined_row i ep key r \<longleftrightarrow>
     (\<exists>p. decode_event (row_event r) = Some (MNodeJoined p) \<and> nj_NodeID p = i \<and> nj_Endpoint p = ep \<and> nj_AgentPublicKey p = key)"

definition logged_join :: "MeshServer \<Rightarrow> string \<Rightarrow> string \<Rightarrow> string \<Rightarrow> bool" where
  "logged_join s i ep key \<longleftrightarrow>
     (case mv_joinLog s of None \<Rightarrow> True | Some l \<Rightarrow> \<exists>r \<in> set (jl_rows l). joined_row i ep key r)"

definition projected_join :: "MeshServer \<Rightarrow> string \<Rightarrow> bool" where
  "projected_join s i \<longleftrightarrow>
     (case (mv_joinLog s, mv_joinProjector s) of (Some l, Some p) \<Rightarrow> map_get (pj_nodes p) i \<noteq> None | _ \<Rightarrow> True)"

text \<open>What other goroutines do beside joins: append to the log, project events, and any registry call that adds no node.\<close>

definition mesh_kept :: "MeshServer \<Rightarrow> MeshServer \<Rightarrow> bool" where
  "mesh_kept s s' \<longleftrightarrow>
     mv_RequireMTLS s' = mv_RequireMTLS s \<and> nodes_kept (mv_registry s) (mv_registry s') \<and>
     (\<forall>i ep key. logged_join s i ep key \<longrightarrow> logged_join s' i ep key) \<and> (\<forall>i. projected_join s i \<longrightarrow> projected_join s' i) \<and>
     (mv_joinLog s' = None \<longleftrightarrow> mv_joinLog s = None) \<and> (mv_joinProjector s' = None \<longleftrightarrow> mv_joinProjector s = None)"

text \<open>\<open>json.Marshal\<close> of the payload reads back as the payload.\<close>

definition marshal_ok :: "(NodeJoinedPayload \<Rightarrow> string) \<Rightarrow> NodeJoinRequest \<Rightarrow> bool" where
  "marshal_ok marshal req \<longleftrightarrow> marshal (join_payload req) \<noteq> [] \<and> decode_event (join_event marshal req) = Some (MNodeJoined (join_payload req))"

inductive mesh_joins :: "go_host \<Rightarrow> (NodeJoinedPayload \<Rightarrow> string) \<Rightarrow>
    MeshServer \<times> joining multiset \<times> (string option \<times> string) list \<Rightarrow>
    MeshServer \<times> joining multiset \<times> (string option \<times> string) list \<Rightarrow> bool" for h marshal where
  check: "join_check s cn req = None \<Longrightarrow> marshal_ok marshal req \<Longrightarrow>
    mesh_joins h marshal (s, q, d) (s, add_mset (Checked cn req) q, d)"
| unlogged: "join_append h marshal flt i now s req = (Some e, s') \<Longrightarrow>
    mesh_joins h marshal (s, add_mset (Checked cn req) q, d) (s', q, d)"
| logged: "join_append h marshal flt i now s req = (None, s') \<Longrightarrow>
    mesh_joins h marshal (s, add_mset (Checked cn req) q, d) (s', add_mset (Logged cn req) q, d)"
| unprojected: "join_project marshal position pf s req = (Some e, s') \<Longrightarrow>
    mesh_joins h marshal (s, add_mset (Logged cn req) q, d) (s', q, d)"
| projected: "join_project marshal position pf s req = (None, s') \<Longrightarrow>
    mesh_joins h marshal (s, add_mset (Logged cn req) q, d) (s', add_mset (Projected cn req) q, d)"
| rejected: "join_register now s req = (Inl e, s') \<Longrightarrow>
    mesh_joins h marshal (s, add_mset (Projected cn req) q, d) (s', q, d)"
| accepted: "join_register now s req = (Inr n, s') \<Longrightarrow>
    mesh_joins h marshal (s, add_mset (Projected cn req) q, d) (s', q, (cn, jr_NodeID req) # d)"
| others: "mesh_kept s s' \<Longrightarrow> mesh_joins h marshal (s, q, d) (s', q, d)"

definition checked_ok :: "(NodeJoinedPayload \<Rightarrow> string) \<Rightarrow> MeshServer \<Rightarrow> string option \<Rightarrow> NodeJoinRequest \<Rightarrow> bool" where
  "checked_ok marshal s cn req \<longleftrightarrow> marshal_ok marshal req \<and> (mv_RequireMTLS s \<longrightarrow> cn = Some (jr_NodeID req))"

fun joining_ok :: "(NodeJoinedPayload \<Rightarrow> string) \<Rightarrow> MeshServer \<Rightarrow> joining \<Rightarrow> bool" where
  "joining_ok marshal s (Checked cn req) = checked_ok marshal s cn req"
| "joining_ok marshal s (Logged cn req) =
     (checked_ok marshal s cn req \<and> logged_join s (jr_NodeID req) (jr_Endpoint req) (jr_AgentPublicKey req))"
| "joining_ok marshal s (Projected cn req) =
     (checked_ok marshal s cn req \<and> logged_join s (jr_NodeID req) (jr_Endpoint req) (jr_AgentPublicKey req) \<and>
      projected_join s (jr_NodeID req))"

section \<open>The steps\<close>

lemma decode_event_cong:
  assumes "je_Type e = je_Type f" and "je_Payload e = je_Payload f" shows "decode_event e = decode_event f"
  unfolding decode_event_def assms by (rule refl)

lemma Append_rows:
  assumes "Append h io newID now l e = (r, l')"
  shows "\<exists>rows. jl_rows l' = jl_rows l @ rows"
  using assms by (cases rule: Append_cases) auto

lemma Append_logs:
  assumes "Append h io newID now l (join_event marshal req) = (None, l')" and "marshal_ok marshal req"
  shows "\<exists>r \<in> set (jl_rows l'). joined_row (jr_NodeID req) (jr_Endpoint req) (jr_AgentPublicKey req) r"
  using assms(1)
proof (cases rule: Append_cases)
  case (stored x f)
  have m: "marshal (join_payload req) \<noteq> []" "decode_event (join_event marshal req) = Some (MNodeJoined (join_payload req))"
    using assms(2) by (simp_all add: marshal_ok_def)
  have "je_Type (row_event (stored_row f)) = ''node.joined''" "je_Payload (row_event (stored_row f)) = Some (marshal (join_payload req))"
    using m(1) by (simp_all add: stored(2) row_event_def stored_row_def published_event_def stamped_def join_event_def Let_def)
  then have "decode_event (row_event (stored_row f)) = Some (MNodeJoined (join_payload req))"
    using m(2) decode_event_cong [of "row_event (stored_row f)" "join_event marshal req"] by (simp add: join_event_def)
  then have "joined_row (jr_NodeID req) (jr_Endpoint req) (jr_AgentPublicKey req) (stored_row f)"
    by (simp add: joined_row_def join_payload_def Let_def)
  then show ?thesis using stored(5) by simp
qed simp

lemma ProjectEvent_keeps_nodes:
  "map_get (pj_nodes p) i \<noteq> None \<Longrightarrow> map_get (pj_nodes (snd (ProjectEvent io p e))) i \<noteq> None"
  by (cases "decode_event e")
    (auto simp: ProjectEvent_def Let_def gomap_simps split: mesh_event.splits)

lemma join_append_kept:
  assumes "join_append h marshal flt i now s req = (e, s')" shows "mesh_kept s s'"
  using assms Append_rows [of h flt i now _ "join_event marshal req"]
  by (fastforce simp: join_append_def mesh_kept_def logged_join_def projected_join_def split: option.splits prod.splits)

lemma join_append_logs:
  assumes "join_append h marshal flt i now s req = (None, s')" and "marshal_ok marshal req"
  shows "logged_join s' (jr_NodeID req) (jr_Endpoint req) (jr_AgentPublicKey req)"
  using assms Append_logs [OF _ assms(2)]
  by (auto simp: join_append_def logged_join_def split: option.splits prod.splits)

lemma join_project_kept:
  assumes "join_project marshal position pf s req = (e, s')" shows "mesh_kept s s'"
proof (cases "mv_joinLog s = None \<or> mv_joinProjector s = None")
  case True
  then have "s' = s" using assms by (auto simp: join_project_def split: option.splits)
  then show ?thesis by (simp add: mesh_kept_def)
next
  case False
  then obtain l p where lp: "mv_joinLog s = Some l" "mv_joinProjector s = Some p" by auto
  have "s' = s\<lparr>mv_joinProjector := Some (snd (ProjectEvent pf p (read_back marshal position l req)))\<rparr>"
    using assms lp by (auto simp: join_project_def split: prod.splits)
  then show ?thesis using lp ProjectEvent_keeps_nodes by (simp add: mesh_kept_def logged_join_def projected_join_def)
qed

lemma join_project_projects:
  assumes "join_project marshal position pf s req = (None, s')" and "marshal_ok marshal req"
  shows "projected_join s' (jr_NodeID req)"
proof (cases "mv_joinLog s = None \<or> mv_joinProjector s = None")
  case True
  then have "s' = s" using assms by (auto simp: join_project_def split: option.splits)
  then show ?thesis using True by (auto simp: projected_join_def split: option.splits)
next
  case False
  then obtain l p where lp: "mv_joinLog s = Some l" "mv_joinProjector s = Some p" by auto
  obtain p' where e: "ProjectEvent pf p (read_back marshal position l req) = (None, p')" "s' = s\<lparr>mv_joinProjector := Some p'\<rparr>"
    using assms(1) lp by (auto simp: join_project_def split: prod.splits)
  have "decode_event (read_back marshal position l req) = Some (MNodeJoined (join_payload req))"
    using decode_event_cong [of "read_back marshal position l req" "join_event marshal req"] assms(2)
    by (simp add: marshal_ok_def read_back_def Let_def)
  then have "pj_nodes p' = map_put (pj_nodes p) (jr_NodeID req) (join_payload req)"
    using e(1) by (auto simp: ProjectEvent_def Let_def join_payload_def split: if_splits)
  then show ?thesis using lp e(2) by (simp add: projected_join_def gomap_simps)
qed

section \<open>The invariant\<close>

definition nodes_logged :: "MeshServer \<Rightarrow> (string option \<times> string) list \<Rightarrow> bool" where
  "nodes_logged s d \<longleftrightarrow>
     (\<forall>i n. map_get (rg_nodes (mv_registry s)) i = Some n \<longrightarrow>
        logged_join s i (ni_Endpoint n) (ni_AgentPublicKey n) \<and> projected_join s i \<and>
        (mv_RequireMTLS s \<longrightarrow> (Some i, i) \<in> set d))"

lemma nodes_logged_kept: "nodes_logged s d \<Longrightarrow> mesh_kept s s' \<Longrightarrow> nodes_logged s' d"
  unfolding nodes_logged_def mesh_kept_def nodes_kept_def by metis

lemma joining_ok_kept: "joining_ok marshal s x \<Longrightarrow> mesh_kept s s' \<Longrightarrow> joining_ok marshal s' x"
  by (cases x) (simp_all add: mesh_kept_def checked_ok_def)

lemma join_check_cn: "join_check s cn req = None \<Longrightarrow> mv_RequireMTLS s \<longrightarrow> cn = Some (jr_NodeID req)"
  by (auto simp: join_check_def split: if_splits)

lemma join_register_kept:
  assumes "join_register now s req = (Inl e, s')" shows "mesh_kept s s'"
proof -
  have "s' = s" using assms by (auto simp: join_register_def RegisterNode_def Let_def split: prod.splits if_splits)
  then show ?thesis by (simp add: mesh_kept_def)
qed

lemma join_register_logged:
  assumes "join_register now s req = (Inr n, s')" and "joining_ok marshal s (Projected cn req)" and "nodes_logged s d"
  shows "nodes_logged s' ((cn, jr_NodeID req) # d)" "joining_ok marshal s x \<Longrightarrow> joining_ok marshal s' x"
proof -
  have r: "s' = s\<lparr>mv_registry := (mv_registry s)\<lparr>rg_nodes := map_put (rg_nodes (mv_registry s)) (jr_NodeID req) n\<rparr>\<rparr>"
    "ni_Endpoint n = jr_Endpoint req" "ni_AgentPublicKey n = jr_AgentPublicKey req"
    using assms(1) by (auto simp: join_register_def RegisterNode_def Let_def split: prod.splits if_splits option.splits)
  have same: "logged_join s' = logged_join s" "projected_join s' = projected_join s" "mv_RequireMTLS s' = mv_RequireMTLS s"
    by (simp_all add: r(1) logged_join_def projected_join_def fun_eq_iff)
  show "nodes_logged s' ((cn, jr_NodeID req) # d)"
    using assms(2,3) r(2,3) unfolding nodes_logged_def same by (auto simp: checked_ok_def r(1) gomap_simps split: if_splits)
  show "joining_ok marshal s x \<Longrightarrow> joining_ok marshal s' x" by (cases x) (simp_all add: same checked_ok_def)
qed

definition mesh_inv :: "(NodeJoinedPayload \<Rightarrow> string) \<Rightarrow> MeshServer \<times> joining multiset \<times> (string option \<times> string) list \<Rightarrow> bool" where
  "mesh_inv marshal st \<longleftrightarrow>
     (case st of (s, q, d) \<Rightarrow> nodes_logged s d \<and> (\<forall>x \<in># q. joining_ok marshal s x))"

lemma mesh_inv_kept:
  assumes "mesh_inv marshal (s, q, d)" and "mesh_kept s s'" and "\<And>x. x \<in># q' \<Longrightarrow> x \<in># q \<or> joining_ok marshal s' x"
  shows "mesh_inv marshal (s', q', d)"
  using assms nodes_logged_kept joining_ok_kept unfolding mesh_inv_def by blast

lemma mesh_joins_inv: "mesh_joins h marshal st st' \<Longrightarrow> mesh_inv marshal st \<Longrightarrow> mesh_inv marshal st'"
proof (induction rule: mesh_joins.induct)
  case (check s cn req q d)
  show ?case
    by (rule mesh_inv_kept [OF check.prems]) (use check.hyps join_check_cn in \<open>auto simp: mesh_kept_def checked_ok_def\<close>)
next
  case (unlogged flt i now s req e s' cn q d)
  show ?case by (rule mesh_inv_kept [OF unlogged.prems join_append_kept [OF unlogged.hyps]]) simp
next
  case (logged flt i now s req s' cn q d)
  note k = join_append_kept [OF logged.hyps]
  have "joining_ok marshal s (Checked cn req)" using logged.prems by (simp add: mesh_inv_def)
  then have "joining_ok marshal s' (Checked cn req)" by (rule joining_ok_kept [OF _ k])
  then have "joining_ok marshal s' (Logged cn req)" using join_append_logs [OF logged.hyps] by (simp add: checked_ok_def)
  then show ?case by (intro mesh_inv_kept [OF logged.prems k]) auto
next
  case (unprojected position pf s req e s' cn q d)
  show ?case by (rule mesh_inv_kept [OF unprojected.prems join_project_kept [OF unprojected.hyps]]) simp
next
  case (projected position pf s req s' cn q d)
  note k = join_project_kept [OF projected.hyps]
  have "joining_ok marshal s (Logged cn req)" using projected.prems by (simp add: mesh_inv_def)
  then have "joining_ok marshal s' (Logged cn req)" by (rule joining_ok_kept [OF _ k])
  then have "joining_ok marshal s' (Projected cn req)" using join_project_projects [OF projected.hyps] by (simp add: checked_ok_def)
  then show ?case by (intro mesh_inv_kept [OF projected.prems k]) auto
next
  case (rejected now s req e s' cn q d)
  show ?case by (rule mesh_inv_kept [OF rejected.prems join_register_kept [OF rejected.hyps]]) simp
next
  case (accepted now s req n s' cn q d)
  have "joining_ok marshal s (Projected cn req)" "nodes_logged s d" using accepted.prems by (simp_all add: mesh_inv_def)
  note R = join_register_logged [OF accepted.hyps this]
  show ?case using accepted.prems R unfolding mesh_inv_def by simp
next
  case (others s s' q d)
  show ?case by (rule mesh_inv_kept [OF others.prems others.hyps]) simp
qed

text \<open>C37. A node is registered only after its join was persisted: over any interleaving of joins, failures and other work, a
  registered node has a row in the log with its endpoint and its key and an entry in the projection, and with mTLS it was
  registered by a client whose certificate bears its name.\<close>

theorem joined_nodes_logged:
  assumes "(mesh_joins h marshal)\<^sup>*\<^sup>* (s, {#}, []) (s', q, d)" and "rg_nodes (mv_registry s) = []"
    and "map_get (rg_nodes (mv_registry s')) i = Some n" and "mv_joinLog s' = Some l" and "mv_joinProjector s' = Some p"
  shows "(\<exists>r \<in> set (jl_rows l). joined_row i (ni_Endpoint n) (ni_AgentPublicKey n) r) \<and>
    map_get (pj_nodes p) i \<noteq> None \<and> (mv_RequireMTLS s' \<longrightarrow> (Some i, i) \<in> set d)"
proof -
  have "mesh_inv marshal (s', q, d)" using assms(1)
  proof (induction rule: rtranclp_induct [where P = "mesh_inv marshal"])
    case base
    then show ?case using assms(2) by (simp add: mesh_inv_def nodes_logged_def)
  qed (rule mesh_joins_inv)
  then have "nodes_logged s' d" by (simp add: mesh_inv_def)
  then show ?thesis using assms(3-5) unfolding nodes_logged_def logged_join_def projected_join_def by fastforce
qed


section \<open>The handler is made of these steps\<close>

definition mesh_quiet :: "go_host \<Rightarrow> mesh_join_env \<Rightarrow> bool" where
  "mesh_quiet h en \<longleftrightarrow>
     (\<forall>k s q d. (mesh_joins h (jn_marshal en))\<^sup>*\<^sup>* (s, q, d) (jn_others en k s, q, d))"

definition mesh_joined :: "string option \<Rightarrow> NodeJoinRequest \<Rightarrow> mesh_join_reply \<Rightarrow> (string option \<times> string) list" where
  "mesh_joined cn req reply = (case reply of NodeAccepted n \<Rightarrow> [(cn, jr_NodeID req)] | _ \<Rightarrow> [])"

lemma join_handler_steps:
  assumes o: "mesh_quiet h en" and m: "marshal_ok (jn_marshal en) req"
    and r: "handleMeshJoin h en s cn (Some req) = (reply, s')"
  shows "(mesh_joins h (jn_marshal en))\<^sup>*\<^sup>* (s, q, d) (s', q, mesh_joined cn req reply @ d)"
proof -
  let ?J = "mesh_joins h (jn_marshal en)"
  have go: "?J\<^sup>*\<^sup>* (u, q, d) (jn_others en k u, q, d)" for k u q d using o unfolding mesh_quiet_def by blast
  note r = r [unfolded handleMeshJoin_def, simplified]
  show ?thesis
  proof (cases "join_check s cn req")
    case (Some x)
    then have "s' = s" "reply = x" using r by simp_all
    moreover have "mesh_joined cn req x = []" using Some
      by (auto simp: join_check_def mesh_joined_def split: if_splits sum.splits)
    ultimately show ?thesis by simp
  next
    case None
    have 0: "?J\<^sup>*\<^sup>* (s, q, d) (jn_others en 0 s, add_mset (Checked cn req) q, d)"
      using mesh_joins.check [OF None m] go by (rule converse_rtranclp_into_rtranclp)
    obtain e s1 where a: "join_append h (jn_marshal en) (jn_fault en) (jn_newID en) (jn_appended en) (jn_others en 0 s) req = (e, s1)"
      by fastforce
    show ?thesis
    proof (cases e)
      case (Some x)
      have "?J\<^sup>*\<^sup>* (s, q, d) (s1, q, d)" using 0 mesh_joins.unlogged [OF a [unfolded Some]] by (rule rtranclp.rtrancl_into_rtrancl)
      then show ?thesis using r None a Some by (auto simp: mesh_joined_def)
    next
      case e: None
      have "?J\<^sup>*\<^sup>* (s, q, d) (s1, add_mset (Logged cn req) q, d)"
        using 0 mesh_joins.logged [OF a [unfolded e]] by (rule rtranclp.rtrancl_into_rtrancl)
      then have 1: "?J\<^sup>*\<^sup>* (s, q, d) (jn_others en 1 s1, add_mset (Logged cn req) q, d)" using go by (rule rtranclp_trans)
      obtain f s2 where p: "join_project (jn_marshal en) (jn_position en) (jn_projected en) (jn_others en 1 s1) req = (f, s2)"
        by fastforce
      show ?thesis
      proof (cases f)
        case (Some x)
        have "?J\<^sup>*\<^sup>* (s, q, d) (s2, q, d)" using 1 mesh_joins.unprojected [OF p [unfolded Some]] by (rule rtranclp.rtrancl_into_rtrancl)
        then show ?thesis using r None a e p Some by (auto simp: mesh_joined_def)
      next
        case f: None
        have "?J\<^sup>*\<^sup>* (s, q, d) (s2, add_mset (Projected cn req) q, d)"
          using 1 mesh_joins.projected [OF p [unfolded f]] by (rule rtranclp.rtrancl_into_rtrancl)
        then have 2: "?J\<^sup>*\<^sup>* (s, q, d) (jn_others en 2 s2, add_mset (Projected cn req) q, d)" using go by (rule rtranclp_trans)
        obtain g s3 where g: "join_register (jn_now en) (jn_others en 2 s2) req = (g, s3)" by fastforce
        show ?thesis
        proof (cases g)
          case (Inl x)
          have "?J\<^sup>*\<^sup>* (s, q, d) (s3, q, d)" using 2 mesh_joins.rejected [OF g [unfolded Inl]] by (rule rtranclp.rtrancl_into_rtrancl)
          then show ?thesis using r None a e p f g Inl by (auto simp: mesh_joined_def)
        next
          case (Inr n)
          have "?J\<^sup>*\<^sup>* (s, q, d) (s3, q, (cn, jr_NodeID req) # d)"
            using 2 mesh_joins.accepted [OF g [unfolded Inr]] by (rule rtranclp.rtrancl_into_rtrancl)
          then show ?thesis using r None a e p f g Inr by (auto simp: mesh_joined_def)
        qed
      qed
    qed
  qed
qed

section \<open>A join that is refused after it was logged\<close>

text \<open>The log comes first and the registry checks the request last: a join without an endpoint is answered 400, but its event is
  in the log and the projection lists the node.\<close>

lemma rejected_join_logged:
  assumes "handleMeshJoin h en s cn (Some req) = (JoinRejected e, s')" and "marshal_ok (jn_marshal en) req"
    and "\<And>k u. jn_others en k u = u" and "mv_joinLog s = Some l" and "mv_joinProjector s = Some p"
  shows "e = ErrInvalidNodeInfo \<and> logged_join s' (jr_NodeID req) (jr_Endpoint req) (jr_AgentPublicKey req) \<and>
    projected_join s' (jr_NodeID req) \<and> mv_registry s' = mv_registry s"
proof -
  have "join_check s cn req = None"
    using assms(1) by (auto simp: handleMeshJoin_def join_check_def split: if_splits sum.splits)
  then obtain s1 s2 where a: "join_append h (jn_marshal en) (jn_fault en) (jn_newID en) (jn_appended en) s req = (None, s1)"
    "join_project (jn_marshal en) (jn_position en) (jn_projected en) s1 req = (None, s2)"
    "join_register (jn_now en) s2 req = (Inl e, s')"
    using assms(1,3) by (auto simp: handleMeshJoin_def split: prod.splits option.splits sum.splits)
  have s': "s' = s2" "e = ErrInvalidNodeInfo"
    using a(3) by (auto simp: join_register_def RegisterNode_def Let_def split: prod.splits if_splits)
  have r: "mv_registry s1 = mv_registry s" "mv_registry s2 = mv_registry s1"
    using a(1,2) by (auto simp: join_append_def join_project_def split: option.splits prod.splits)
  show ?thesis using join_append_logs [OF a(1) assms(2)] join_project_kept [OF a(2)] join_project_projects [OF a(2) assms(2)] s' r
    by (simp add: mesh_kept_def)
qed


section \<open>Witness\<close>

definition sample_node_request :: NodeJoinRequest where
  "sample_node_request = \<lparr>jr_NodeID = ''n1'', jr_Endpoint = ''e'', jr_Role = [], jr_AgentPublicKey = [],
     jr_Hardware = \<lparr>hw_CPUs = 1, hw_RAMGB = 1, hw_HasGPU = False, hw_OS = []\<rparr>, jr_Agents = [], jr_MaxConcurrency = 1\<rparr>"

definition sample_payload_text :: string where
  "sample_payload_text = ''{\"node_id\":\"n1\",\"role\":\"worker\",\"endpoint\":\"e\"}''"

definition sample_mesh_env :: mesh_join_env where
  "sample_mesh_env = \<lparr>jn_marshal = (\<lambda>_. sample_payload_text), jn_fault = JoinNoFault, jn_newID = Some ''e1'', jn_appended = 5,
     jn_position = True, jn_projected = ProjOk, jn_now = 7, jn_others = (\<lambda>_ s. s)\<rparr>"

definition sample_mesh :: MeshServer where
  "sample_mesh = \<lparr>mv_RequireMTLS = True, mv_registry = NewRegistry 30, mv_joinLog = Some NewJoinLog,
     mv_joinProjector = Some NewProjector, mv_territoryManager = NewTerritoryManager [] [] 0\<rparr>"

lemma sample_marshal: "marshal_ok (\<lambda>_. sample_payload_text) sample_node_request"
  by code_simp

definition sample_mesh_run :: "mesh_join_reply \<times> MeshServer" where
  "sample_mesh_run = handleMeshJoin sample_host sample_mesh_env sample_mesh (Some ''n1'') (Some sample_node_request)"

lemma sample_event_hash:
  "\<exists>x. ComputeEventHash sample_host ((stamped (Some ''e1'') 5 (join_event (\<lambda>_. sample_payload_text) sample_node_request))
     \<lparr>je_PrevHash := snd (HeadPosition NewJoinLog)\<rparr>) = Inr x"
proof -
  have "\<not> isl (ComputeEventHash sample_host ((stamped (Some ''e1'') 5 (join_event (\<lambda>_. sample_payload_text) sample_node_request))
     \<lparr>je_PrevHash := snd (HeadPosition NewJoinLog)\<rparr>))" by code_simp
  then show ?thesis by (auto simp: sum.case_eq_if isl_def split: sum.splits) (metis sum.exhaust)
qed

lemma sample_mesh_run_facts:
  "\<exists>l p n. sample_mesh_run = (NodeAccepted n, snd sample_mesh_run) \<and> mv_joinLog (snd sample_mesh_run) = Some l \<and>
     mv_joinProjector (snd sample_mesh_run) = Some p \<and> map_get (rg_nodes (mv_registry (snd sample_mesh_run))) ''n1'' = Some n \<and>
     mv_RequireMTLS (snd sample_mesh_run)"
proof -
  let ?m = "\<lambda>_ :: NodeJoinedPayload. sample_payload_text" and ?req = sample_node_request
  let ?e = "join_event ?m ?req"
  have c: "join_check sample_mesh (Some ''n1'') ?req = None" by (simp add: join_check_def sample_node_request_def)
  obtain x where x: "ComputeEventHash sample_host ((stamped (Some ''e1'') 5 ?e)\<lparr>je_PrevHash := snd (HeadPosition NewJoinLog)\<rparr>) = Inr x"
    using sample_event_hash by blast
  have n: "(je_ID ?e = [] \<and> Some ''e1'' = (None :: string option)) = False" by simp
  obtain l where "Append sample_host JoinNoFault (Some ''e1'') 5 NewJoinLog ?e = (None, l)"
    unfolding Append_unfold Let_def n x sum.case by (simp add: NewJoinLog_def insert_join_row_def)
  then have a: "join_append sample_host ?m JoinNoFault (Some ''e1'') 5 sample_mesh ?req = (None, sample_mesh\<lparr>mv_joinLog := Some l\<rparr>)"
    by (simp add: join_append_def sample_mesh_def)
  have "decode_event (read_back ?m True l ?req) = Some (MNodeJoined (join_payload ?req))"
    using decode_event_cong [of "read_back ?m True l ?req" ?e] sample_marshal
    by (simp add: marshal_ok_def read_back_def Let_def)
  then obtain p where p: "join_project ?m True ProjOk (sample_mesh\<lparr>mv_joinLog := Some l\<rparr>) ?req =
      (None, sample_mesh\<lparr>mv_joinLog := Some l, mv_joinProjector := Some p\<rparr>)"
    by (simp add: join_project_def sample_mesh_def ProjectEvent_def)
  show ?thesis
    unfolding sample_mesh_run_def handleMeshJoin_def sample_mesh_env_def
    using c a p by (simp add: join_register_def RegisterNode_def sample_node_request_def sample_mesh_def NewRegistry_def Let_def gomap_simps)
qed

theorem joined_nodes_logged_witness:
  "\<exists>s n d. (mesh_joins sample_host (\<lambda>_. sample_payload_text))\<^sup>*\<^sup>* (sample_mesh, {#}, []) (s, {#}, d) \<and>
     map_get (rg_nodes (mv_registry s)) ''n1'' = Some n \<and> logged_join s ''n1'' (ni_Endpoint n) (ni_AgentPublicKey n) \<and>
     (Some ''n1'', ''n1'') \<in> set d"
proof -
  let ?s = "snd sample_mesh_run"
  have o: "mesh_quiet sample_host sample_mesh_env" "marshal_ok (jn_marshal sample_mesh_env) sample_node_request"
    using sample_marshal by (simp_all add: mesh_quiet_def sample_mesh_env_def)
  have j: "jn_marshal sample_mesh_env = (\<lambda>_. sample_payload_text)" by (simp add: sample_mesh_env_def)
  have h: "handleMeshJoin sample_host sample_mesh_env sample_mesh (Some ''n1'') (Some sample_node_request) = (fst sample_mesh_run, ?s)"
    by (simp add: sample_mesh_run_def)
  obtain d where run: "(mesh_joins sample_host (\<lambda>_. sample_payload_text))\<^sup>*\<^sup>* (sample_mesh, {#}, []) (?s, {#}, d)"
    using join_handler_steps [OF o h, of "{#}" "[]"] unfolding j by blast
  obtain n l p where f: "map_get (rg_nodes (mv_registry ?s)) ''n1'' = Some n" "mv_joinLog ?s = Some l" "mv_joinProjector ?s = Some p"
    "mv_RequireMTLS ?s" using sample_mesh_run_facts by blast
  have "rg_nodes (mv_registry sample_mesh) = []" by (simp add: sample_mesh_def NewRegistry_def)
  from joined_nodes_logged [OF run this f(1-3)] f run show ?thesis
    unfolding logged_join_def by fastforce
qed

end
