(* ===== verification/Sqlite_Store.thy ===== *)
theory Sqlite_Store
  imports Task_Store
begin

text \<open>
  The SQLite store of task records (\<open>pkg/server/store/sqlite.go\<close>), the second provider of the interface \<open>task_store\<close>.
  The table \<open>tasks\<close> is an association list on its primary key. \<open>json.Marshal\<close> and \<open>json.Unmarshal\<close> of a list of
  strings are parameters, and a statement that the database fails is the argument \<open>io\<close>. The table survives \<open>Close\<close> in the
  file; the in-memory store and this one answer alike (\<open>sqlite_refines_memory\<close>).
\<close>

section \<open>The table\<close>

record json_lists =
  js_marshal :: "string list \<Rightarrow> string"
  js_unmarshal :: "string \<Rightarrow> string list option"

record task_row =
  tw_branch :: string
  tw_repository :: string
  tw_domain :: string
  tw_blast_radius :: string
  tw_phase :: string
  tw_current_action :: string
  tw_status :: TaskStatus
  tw_worker_id :: string
  tw_tags :: string
  tw_edit_surfaces :: string
  tw_created_at :: int
  tw_started_at :: int
  tw_finished_at :: int
  tw_error_message :: string
  tw_result_summary :: string
  tw_executed_locally :: int

record SQLiteStore =
  sq_rows :: "task_row gomap"
  sq_closed :: bool

datatype sql_error = SqlStore store_error | SqlStatement | SqlUnmarshal

definition boolToInt :: "bool \<Rightarrow> int" where
  "boolToInt b = (if b then 1 else 0)"

definition NewSQLiteStore :: "task_row gomap \<Rightarrow> SQLiteStore" where
  "NewSQLiteStore file = \<lparr>sq_rows = file, sq_closed = False\<rparr>"

section \<open>Rows\<close>

definition task_columns_of :: "json_lists \<Rightarrow> TaskRecord \<Rightarrow> task_row" where
  "task_columns_of js task =
     \<lparr>tw_branch = tr_Branch task, tw_repository = tr_Repository task, tw_domain = tr_Domain task,
      tw_blast_radius = tr_BlastRadius task, tw_phase = tr_Phase task, tw_current_action = tr_CurrentAction task,
      tw_status = tr_Status task, tw_worker_id = tr_WorkerID task, tw_tags = js_marshal js (tr_Tags task),
      tw_edit_surfaces = js_marshal js (tr_EditSurfaces task), tw_created_at = tr_CreatedAt task,
      tw_started_at = tr_StartedAt task, tw_finished_at = tr_FinishedAt task, tw_error_message = tr_ErrorMessage task,
      tw_result_summary = tr_ResultSummary task, tw_executed_locally = boolToInt (tr_ExecutedLocally task)\<rparr>"

definition read_list :: "json_lists \<Rightarrow> string \<Rightarrow> string list option" where
  "read_list js t = (if t \<noteq> [] \<and> t \<noteq> ''null'' then js_unmarshal js t else Some [])"

definition scan_task :: "json_lists \<Rightarrow> string \<times> task_row \<Rightarrow> sql_error + TaskRecord" where
  "scan_task js kr =
     (case kr of (i, r) \<Rightarrow>
        (case read_list js (tw_tags r) of
           None \<Rightarrow> Inl SqlUnmarshal
         | Some tags \<Rightarrow>
             (case read_list js (tw_edit_surfaces r) of
                None \<Rightarrow> Inl SqlUnmarshal
              | Some surfaces \<Rightarrow>
                  Inr \<lparr>tr_TaskID = i, tr_Branch = tw_branch r, tr_Repository = tw_repository r, tr_Domain = tw_domain r,
                    tr_BlastRadius = tw_blast_radius r, tr_Phase = tw_phase r, tr_CurrentAction = tw_current_action r,
                    tr_Status = tw_status r, tr_WorkerID = tw_worker_id r, tr_Tags = tags, tr_EditSurfaces = surfaces,
                    tr_CreatedAt = tw_created_at r, tr_StartedAt = tw_started_at r, tr_FinishedAt = tw_finished_at r,
                    tr_ErrorMessage = tw_error_message r, tr_ResultSummary = tw_result_summary r,
                    tr_ExecutedLocally = (tw_executed_locally r \<noteq> 0)\<rparr>)))"

fun scan_all :: "json_lists \<Rightarrow> (string \<times> task_row) list \<Rightarrow> sql_error + TaskRecord list" where
  "scan_all js [] = Inr []"
| "scan_all js (r # rs) =
     (case scan_task js r of
        Inl e \<Rightarrow> Inl e
      | Inr t \<Rightarrow> (case scan_all js rs of Inl e \<Rightarrow> Inl e | Inr ts \<Rightarrow> Inr (t # ts)))"

section \<open>Operations\<close>

definition SaveTaskSQL :: "json_lists \<Rightarrow> bool \<Rightarrow> bool \<Rightarrow> SQLiteStore \<Rightarrow> TaskRecord \<Rightarrow> sql_error option \<times> SQLiteStore" where
  "SaveTaskSQL js io done s task =
     (if done then (Some (SqlStore ErrContextDone), s)
      else if tr_TaskID task = [] then (Some (SqlStore ErrTaskIDEmpty), s)
      else if sq_closed s then (Some (SqlStore ErrStoreClosed), s)
      else if \<not> io then (Some SqlStatement, s)
      else (None, s\<lparr>sq_rows := map_put (sq_rows s) (tr_TaskID task) (task_columns_of js task)\<rparr>))"

definition GetTaskSQL :: "json_lists \<Rightarrow> bool \<Rightarrow> bool \<Rightarrow> SQLiteStore \<Rightarrow> string \<Rightarrow> sql_error + TaskRecord" where
  "GetTaskSQL js io done s taskID =
     (if done then Inl (SqlStore ErrContextDone)
      else if taskID = [] then Inl (SqlStore ErrRecordNotFound)
      else if sq_closed s then Inl (SqlStore ErrStoreClosed)
      else if \<not> io then Inl SqlStatement
      else case map_get (sq_rows s) taskID of
             None \<Rightarrow> Inl (SqlStore ErrRecordNotFound)
           | Some r \<Rightarrow> scan_task js (taskID, r))"

definition update_columns :: "TaskStatus \<Rightarrow> int \<Rightarrow> string \<Rightarrow> string \<Rightarrow> task_row \<Rightarrow> task_row" where
  "update_columns status completedAt errMsg resultSummary r =
     r\<lparr>tw_status := status, tw_finished_at := (if completedAt \<noteq> 0 then completedAt else tw_finished_at r),
       tw_error_message := errMsg, tw_result_summary := resultSummary\<rparr>"

definition UpdateStatusSQL ::
  "bool \<Rightarrow> bool \<Rightarrow> SQLiteStore \<Rightarrow> string \<Rightarrow> TaskStatus \<Rightarrow> int \<Rightarrow> string \<Rightarrow> string \<Rightarrow> sql_error option \<times> SQLiteStore" where
  "UpdateStatusSQL io done s taskID status completedAt errMsg resultSummary =
     (if done then (Some (SqlStore ErrContextDone), s)
      else if taskID = [] then (Some (SqlStore ErrRecordNotFound), s)
      else if sq_closed s then (Some (SqlStore ErrStoreClosed), s)
      else if \<not> io then (Some SqlStatement, s)
      else case map_get (sq_rows s) taskID of
             None \<Rightarrow> (Some (SqlStore ErrRecordNotFound), s)
           | Some r \<Rightarrow>
               (None, s\<lparr>sq_rows := map_put (sq_rows s) taskID (update_columns status completedAt errMsg resultSummary r)\<rparr>))"

text \<open>The \<open>WHERE\<close> clause, one condition per non-empty field of the filter.\<close>

definition conditions :: "TaskFilter \<Rightarrow> (task_row \<Rightarrow> bool) list" where
  "conditions f =
     (if tf_Status f \<noteq> any_status then [\<lambda>r. tw_status r = tf_Status f] else []) @
     (if tf_Domain f \<noteq> [] then [\<lambda>r. tw_domain r = tf_Domain f] else []) @
     (if tf_Branch f \<noteq> [] then [\<lambda>r. tw_branch r = tf_Branch f] else []) @
     (if tf_Repository f \<noteq> [] then [\<lambda>r. tw_repository r = tf_Repository f] else []) @
     (if tf_WorkerID f \<noteq> [] then [\<lambda>r. tw_worker_id r = tf_WorkerID f] else [])"

definition limit_offset :: "int \<Rightarrow> int \<Rightarrow> 'a list \<Rightarrow> 'a list" where
  "limit_offset limit offset xs =
     (if limit > 0 then take (nat limit) (if offset > 0 then drop (nat offset) xs else xs)
      else if offset > 0 then drop (nat offset) xs else xs)"

definition ListTasksSQL :: "json_lists \<Rightarrow> bool \<Rightarrow> bool \<Rightarrow> SQLiteStore \<Rightarrow> TaskFilter \<Rightarrow> sql_error + TaskRecord list" where
  "ListTasksSQL js io done s f =
     (if done then Inl (SqlStore ErrContextDone)
      else if sq_closed s then Inl (SqlStore ErrStoreClosed)
      else if \<not> io then Inl SqlStatement
      else scan_all js (limit_offset (tf_Limit f) (tf_Offset f)
             (rev (sort_key (\<lambda>(i, r). (tw_created_at r, i))
               (filter (\<lambda>(i, r). list_all (\<lambda>c. c r) (conditions f)) (sq_rows s))))))"

definition CloseSQL :: "SQLiteStore \<Rightarrow> SQLiteStore" where
  "CloseSQL s = s\<lparr>sq_closed := True\<rparr>"

section \<open>Rows and records\<close>

definition storable_record :: "json_lists \<Rightarrow> TaskRecord \<Rightarrow> bool" where
  "storable_record js r \<longleftrightarrow>
     read_list js (js_marshal js (tr_Tags r)) = Some (tr_Tags r) \<and>
     read_list js (js_marshal js (tr_EditSurfaces r)) = Some (tr_EditSurfaces r)"

lemma scan_columns [simp]: "storable_record js r \<Longrightarrow> scan_task js (tr_TaskID r, task_columns_of js r) = Inr r"
  by (simp add: scan_task_def task_columns_of_def storable_record_def boolToInt_def)

lemma scan_update:
  "scan_task js (i, r) = Inr t \<Longrightarrow> scan_task js (i, update_columns st fin err res r) = Inr (set_status st fin err res t)"
  by (auto simp: scan_task_def update_columns_def set_status_def Let_def split: option.splits)

lemma scan_fields:
  assumes "scan_task js (i, r) = Inr t"
  shows "tr_TaskID t = i" "tr_CreatedAt t = tw_created_at r" "list_all (\<lambda>c. c r) (conditions f) = Matches t f"
proof -
  have t: "tr_TaskID t = i \<and> tr_CreatedAt t = tw_created_at r \<and> tr_Status t = tw_status r \<and> tr_Domain t = tw_domain r \<and>
      tr_Branch t = tw_branch r \<and> tr_Repository t = tw_repository r \<and> tr_WorkerID t = tw_worker_id r"
    using assms by (auto simp: scan_task_def split: option.splits)
  then show "tr_TaskID t = i" "tr_CreatedAt t = tw_created_at r" by simp_all
  show "list_all (\<lambda>c. c r) (conditions f) = Matches t f" using t by (simp add: conditions_def Matches_def)
qed

lemma limit_offset_paginate: "limit_offset limit offset xs = paginate limit offset xs"
  by (auto simp: limit_offset_def paginate_def Let_def)

section \<open>The same answers\<close>

text \<open>The memory store holds the scanned rows of the table.\<close>

definition scans_to :: "json_lists \<Rightarrow> string \<times> task_row \<Rightarrow> string \<times> TaskRecord \<Rightarrow> bool" where
  "scans_to js x y \<longleftrightarrow> fst x = fst y \<and> scan_task js x = Inr (snd y)"

lemma scans_pair [simp]: "scans_to js (i, r) (j, t) \<longleftrightarrow> i = j \<and> scan_task js (i, r) = Inr t"
  by (auto simp: scans_to_def)

definition same_tasks :: "json_lists \<Rightarrow> SQLiteStore \<Rightarrow> MemoryStore \<Rightarrow> bool" where
  "same_tasks js s m \<longleftrightarrow>
     ms_closed m = sq_closed s \<and> (\<not> sq_closed s \<longrightarrow> list_all2 (scans_to js) (sq_rows s) (ms_tasks m))"

lemma scans_get:
  assumes "list_all2 (scans_to js) rows tasks"
  shows "rel_option (\<lambda>r t. scan_task js (i, r) = Inr t) (map_get rows i) (map_get tasks i)"
  using assms by (induction rule: list_all2_induct) (auto simp: scans_to_def)

lemma scans_put:
  assumes "list_all2 (scans_to js) rows tasks" and "scan_task js (i, r) = Inr t"
  shows "list_all2 (scans_to js) (map_put rows i r) (map_put tasks i t)"
  using assms(1)
proof (induction rule: list_all2_induct)
  case (Cons x xs y ys)
  then show ?case by (cases x; cases y) (auto simp: map_put_def assms(2))
qed (simp add: map_put_def assms(2))

lemma scan_all_scanned: "list_all2 (scans_to js) xs ys \<Longrightarrow> scan_all js xs = Inr (map snd ys)"
  by (induction rule: list_all2_induct) (simp_all add: scans_to_def)

lemma sort_key_list_all2:
  assumes "list_all2 R xs ys" and "\<And>x y. R x y \<Longrightarrow> f x = g y"
  shows "list_all2 R (sort_key f xs) (sort_key g ys)"
proof -
  have ins: "list_all2 R us vs \<Longrightarrow> R x y \<Longrightarrow> list_all2 R (insort_key f x us) (insort_key g y vs)" for us vs x y
    by (induction rule: list_all2_induct) (auto simp: assms(2))
  show ?thesis using assms(1) by (induction rule: list_all2_induct) (simp_all add: ins)
qed

lemma filter_list_all2:
  assumes "list_all2 R xs ys" and "\<And>x y. R x y \<Longrightarrow> P x = Q y"
  shows "list_all2 R (filter P xs) (filter Q ys)"
  using assms(1) by (induction rule: list_all2_induct) (simp_all add: assms(2))

lemma limit_offset_list_all2: "list_all2 R xs ys \<Longrightarrow> list_all2 R (limit_offset l k xs) (limit_offset l k ys)"
  by (simp add: limit_offset_def list_all2_takeI list_all2_dropI)

lemma sort_key_map: "sort_key f (map g xs) = map g (sort_key (\<lambda>x. f (g x)) xs)"
proof -
  have ins: "insort_key f (g x) (map g us) = map g (insort_key (\<lambda>x. f (g x)) x us)" for x us
    by (induction us) simp_all
  show ?thesis by (induction xs) (simp_all add: ins)
qed

lemma list_same:
  assumes "list_all2 (scans_to js) rows tasks"
  shows "scan_all js (limit_offset l k (rev (sort_key (\<lambda>(i, r). (tw_created_at r, i))
      (filter (\<lambda>(i, r). list_all (\<lambda>c. c r) (conditions f)) rows)))) =
    Inr (paginate l k (newest_first (filter (\<lambda>t. Matches t f) (map snd tasks))))"
proof -
  let ?g = "\<lambda>x :: string \<times> TaskRecord. (tr_CreatedAt (snd x), tr_TaskID (snd x))"
  have "list_all2 (scans_to js) (filter (\<lambda>(i, r). list_all (\<lambda>c. c r) (conditions f)) rows) (filter (\<lambda>x. Matches (snd x) f) tasks)"
    by (rule filter_list_all2 [OF assms]) (auto simp: scans_to_def scan_fields(3))
  then have "list_all2 (scans_to js) (sort_key (\<lambda>(i, r). (tw_created_at r, i))
      (filter (\<lambda>(i, r). list_all (\<lambda>c. c r) (conditions f)) rows)) (sort_key ?g (filter (\<lambda>x. Matches (snd x) f) tasks))"
    by (rule sort_key_list_all2) (auto simp: scans_to_def dest: scan_fields(1,2))
  then have "list_all2 (scans_to js) (limit_offset l k (rev (sort_key (\<lambda>(i, r). (tw_created_at r, i))
      (filter (\<lambda>(i, r). list_all (\<lambda>c. c r) (conditions f)) rows))))
      (limit_offset l k (rev (sort_key ?g (filter (\<lambda>x. Matches (snd x) f) tasks))))"
    by (intro limit_offset_list_all2) (simp add: list_all2_rev)
  from scan_all_scanned [OF this] show ?thesis
    by (simp add: limit_offset_paginate newest_first_def filter_map comp_def sort_key_map rev_map paginate_def take_map drop_map Let_def)
qed


section \<open>Calls\<close>

datatype store_call =
  CallSave bool TaskRecord | CallGet bool string | CallUpdate bool string TaskStatus int string string
  | CallList bool TaskFilter | CallClose

datatype store_answer = DoneAnswer "store_error option" | RecordAnswer "store_error + TaskRecord" | ListAnswer "store_error + TaskRecord list" | OtherAnswer sql_error

fun mem_call :: "MemoryStore \<Rightarrow> store_call \<Rightarrow> store_answer \<times> MemoryStore" where
  "mem_call m (CallSave c r) = apfst DoneAnswer (SaveTask c m r)"
| "mem_call m (CallGet c i) = (RecordAnswer (GetRecord c m i), m)"
| "mem_call m (CallUpdate c i st fin err res) = apfst DoneAnswer (UpdateStatus c m i st fin err res)"
| "mem_call m (CallList c f) = (ListAnswer (ListRecords c m f), m)"
| "mem_call m CallClose = (DoneAnswer None, CloseStore m)"

definition done_answer :: "sql_error option \<Rightarrow> store_answer" where
  "done_answer e = (case e of None \<Rightarrow> DoneAnswer None | Some (SqlStore x) \<Rightarrow> DoneAnswer (Some x) | Some x \<Rightarrow> OtherAnswer x)"

text \<open>The database serves every statement.\<close>

fun sql_call :: "json_lists \<Rightarrow> SQLiteStore \<Rightarrow> store_call \<Rightarrow> store_answer \<times> SQLiteStore" where
  "sql_call js s (CallSave c r) = apfst done_answer (SaveTaskSQL js True c s r)"
| "sql_call js s (CallGet c i) =
     (case GetTaskSQL js True c s i of
        Inl (SqlStore x) \<Rightarrow> RecordAnswer (Inl x) | Inl x \<Rightarrow> OtherAnswer x | Inr t \<Rightarrow> RecordAnswer (Inr t), s)"
| "sql_call js s (CallUpdate c i st fin err res) = apfst done_answer (UpdateStatusSQL True c s i st fin err res)"
| "sql_call js s (CallList c f) =
     (case ListTasksSQL js True c s f of
        Inl (SqlStore x) \<Rightarrow> ListAnswer (Inl x) | Inl x \<Rightarrow> OtherAnswer x | Inr ts \<Rightarrow> ListAnswer (Inr ts), s)"
| "sql_call js s CallClose = (DoneAnswer None, CloseSQL s)"

fun answers :: "('s \<Rightarrow> store_call \<Rightarrow> store_answer \<times> 's) \<Rightarrow> 's \<Rightarrow> store_call list \<Rightarrow> store_answer list" where
  "answers f s [] = []"
| "answers f s (c # cs) = (case f s c of (a, s') \<Rightarrow> a # answers f s' cs)"

fun call_storable :: "json_lists \<Rightarrow> store_call \<Rightarrow> bool" where
  "call_storable js (CallSave c r) = storable_record js r"
| "call_storable js _ = True"

lemma same_get:
  assumes "same_tasks js s m" and "\<not> sq_closed s"
  shows "rel_option (\<lambda>r t. scan_task js (i, r) = Inr t) (map_get (sq_rows s) i) (map_get (ms_tasks m) i)"
  using assms scans_get by (simp add: same_tasks_def)

lemma same_put:
  assumes "same_tasks js s m" and "scan_task js (i, r) = Inr t"
  shows "same_tasks js (s\<lparr>sq_rows := map_put (sq_rows s) i r\<rparr>) (m\<lparr>ms_tasks := map_put (ms_tasks m) i t\<rparr>)"
  using assms scans_put by (simp add: same_tasks_def)

lemma call_same:
  assumes "same_tasks js s m" and "call_storable js c"
  shows "fst (sql_call js s c) = fst (mem_call m c) \<and> same_tasks js (snd (sql_call js s c)) (snd (mem_call m c))"
proof -
  have cl: "ms_closed m = sq_closed s" using assms(1) by (simp add: same_tasks_def)
  show ?thesis
  proof (cases c)
    case (CallSave d r)
    then show ?thesis using assms cl same_put [OF assms(1) scan_columns, of r]
      by (auto simp: SaveTaskSQL_def SaveTask_def done_answer_def)
  next
    case (CallGet d i)
    then show ?thesis using assms(1) cl same_get [OF assms(1), of i]
      by (auto simp: GetTaskSQL_def GetRecord_def split: option.splits)
  next
    case (CallUpdate d i st fin err res)
    show ?thesis
    proof (cases "d \<or> i = [] \<or> sq_closed s")
      case False
      then have g: "rel_option (\<lambda>r t. scan_task js (i, r) = Inr t) (map_get (sq_rows s) i) (map_get (ms_tasks m) i)"
        using same_get [OF assms(1)] by simp
      show ?thesis
      proof (cases "map_get (sq_rows s) i")
        case None
        then show ?thesis using g False cl assms(1) CallUpdate by (simp add: UpdateStatusSQL_def UpdateStatus_def done_answer_def)
      next
        case (Some r)
        then obtain t where t: "scan_task js (i, r) = Inr t" "map_get (ms_tasks m) i = Some t" using g by (auto simp: option_rel_Some1)
        show ?thesis using same_put [OF assms(1) scan_update [OF t(1), of st fin err res]] Some t(2) False cl CallUpdate
          by (simp add: UpdateStatusSQL_def UpdateStatus_def done_answer_def)
      qed
    qed (use assms(1) cl CallUpdate in \<open>auto simp: UpdateStatusSQL_def UpdateStatus_def done_answer_def\<close>)
  next
    case (CallList d f)
    then show ?thesis using assms(1) cl list_same [of js "sq_rows s" "ms_tasks m" "tf_Limit f" "tf_Offset f" f]
      by (auto simp: ListTasksSQL_def ListRecords_def same_tasks_def)
  next
    case CallClose
    then show ?thesis by (simp add: same_tasks_def CloseSQL_def CloseStore_def)
  qed
qed

text \<open>C31. The SQLite store refines the in-memory store: as long as the database serves the statements, any sequence of calls,
  canceled ones, listings with filters and pages, and closing included, gets the same answers from both.\<close>

theorem sqlite_refines_memory:
  assumes "list_all (call_storable js) calls"
  shows "answers (sql_call js) (NewSQLiteStore []) calls = answers mem_call NewMemoryStore calls"
proof -
  have "answers (sql_call js) s cs = answers mem_call m cs" if "same_tasks js s m" "list_all (call_storable js) cs" for s m cs
    using that by (induction cs arbitrary: s m) (auto simp: split_beta dest: call_same)
  moreover have "same_tasks js (NewSQLiteStore []) NewMemoryStore"
    by (simp add: same_tasks_def NewSQLiteStore_def NewMemoryStore_def)
  ultimately show ?thesis using assms by blast
qed


section \<open>The interface\<close>

definition find_row :: "json_lists \<Rightarrow> SQLiteStore \<Rightarrow> string \<Rightarrow> TaskRecord option" where
  "find_row js s i = (case GetTaskSQL js True False s i of Inl _ \<Rightarrow> None | Inr r \<Rightarrow> Some r)"

definition list_all_rows :: "json_lists \<Rightarrow> SQLiteStore \<Rightarrow> TaskRecord list" where
  "list_all_rows js s = (case ListTasksSQL js True False s all_tasks of Inl _ \<Rightarrow> [] | Inr rs \<Rightarrow> rs)"

definition sql_ready :: "json_lists \<Rightarrow> SQLiteStore \<Rightarrow> bool" where
  "sql_ready js s \<longleftrightarrow> (\<exists>m. same_tasks js s m \<and> store_ready m)"

lemma find_row_same:
  assumes "same_tasks js s m" shows "find_row js s i = find_record m i"
proof -
  have "fst (sql_call js s (CallGet False i)) = fst (mem_call m (CallGet False i))" by (rule conjunct1 [OF call_same [OF assms]]) simp
  then show ?thesis by (auto simp: find_row_def find_record_def split: sum.splits sql_error.splits)
qed

lemma list_all_rows_same:
  assumes "same_tasks js s m" shows "list_all_rows js s = list_all_records m"
proof -
  have "fst (sql_call js s (CallList False all_tasks)) = fst (mem_call m (CallList False all_tasks))"
    by (rule conjunct1 [OF call_same [OF assms]]) simp
  then show ?thesis by (auto simp: list_all_rows_def list_all_records_def split: sum.splits sql_error.splits)
qed

lemma save_same:
  "same_tasks js s m \<Longrightarrow> storable_record js r \<Longrightarrow> same_tasks js (snd (SaveTaskSQL js True False s r)) (snd (SaveTask False m r))"
  using call_same [of js s m "CallSave False r"] by simp

lemma update_same:
  "same_tasks js s m \<Longrightarrow> same_tasks js (snd (UpdateStatusSQL True False s j st fin err res)) (snd (UpdateStatus False m j st fin err res))"
  using call_same [of js s m "CallUpdate False j st fin err res"] by simp

interpretation sql: task_store
  "\<lambda>s r. snd (SaveTaskSQL js True False s r)"
  "\<lambda>s j st fin err res. snd (UpdateStatusSQL True False s j st fin err res)"
  "find_row js" "list_all_rows js" "sql_ready js" "storable_record js" for js
proof (unfold_locales, goal_cases)
  case (1 s r i)
  then obtain m where m: "same_tasks js s m" "store_ready m" unfolding sql_ready_def by blast
  show ?case unfolding find_row_same [OF save_same [OF m(1) 1(2)]] find_row_same [OF m(1)]
    by (rule mem.lookup_save [OF m(2) TrueI 1(3)])
next
  case (2 s j st fin err res i)
  then obtain m where m: "same_tasks js s m" "store_ready m" unfolding sql_ready_def by blast
  show ?case unfolding find_row_same [OF update_same [OF m(1)]] find_row_same [OF m(1)]
    by (rule mem.lookup_update [OF m(2) 2(2)])
next
  case (3 s r)
  then show ?case unfolding sql_ready_def using save_same store_ready_save by blast
next
  case (4 s j st fin err res)
  then show ?case unfolding sql_ready_def using update_same store_ready_update by blast
next
  case (5 s r)
  then obtain m where m: "same_tasks js s m" "store_ready m" unfolding sql_ready_def by blast
  show ?case unfolding list_all_rows_same [OF m(1)] find_row_same [OF m(1)] by (rule mem.records_lookup [OF m(2)])
qed

text \<open>A table that was closed is found again when the file is opened, which the memory store does not give.\<close>

lemma reopen_keeps_rows:
  assumes "sql_ready js s" shows "find_row js (NewSQLiteStore (sq_rows (CloseSQL s))) i = find_row js s i"
proof -
  have "\<not> sq_closed s" using assms unfolding sql_ready_def same_tasks_def store_ready_def by auto
  then show ?thesis by (simp add: find_row_def GetTaskSQL_def NewSQLiteStore_def CloseSQL_def)
qed

section \<open>Witness\<close>

definition sample_lists :: json_lists where
  "sample_lists = \<lparr>js_marshal = (\<lambda>xs. if xs = [] then ''null'' else ''[]''), js_unmarshal = (\<lambda>_. Some [])\<rparr>"

definition sample_calls :: "store_call list" where
  "sample_calls = [CallSave False (sample_record ''a'' 1), CallSave False (sample_record ''b'' 2), CallUpdate False ''a'' TaskStatusCompleted 7 [] ''ok'',
     CallList False (all_tasks\<lparr>tf_Limit := 1\<rparr>), CallGet True ''a'', CallGet False ''a'', CallClose, CallGet False ''a'']"

theorem sqlite_refines_memory_witness:
  "answers (sql_call sample_lists) (NewSQLiteStore []) sample_calls = answers mem_call NewMemoryStore sample_calls \<and>
   answers mem_call NewMemoryStore sample_calls ! 3 = ListAnswer (Inr [sample_record ''b'' 2]) \<and>
   answers mem_call NewMemoryStore sample_calls ! 7 = RecordAnswer (Inl ErrStoreClosed)"
proof -
  have "list_all (call_storable sample_lists) sample_calls"
    by (simp add: sample_calls_def storable_record_def sample_record_def sample_lists_def read_list_def)
  from sqlite_refines_memory [OF this] show ?thesis by (intro conjI) (simp, code_simp+)
qed

end
