(* ===== verification/Webhooks.thy ===== *)
theory Webhooks
  imports Task_Lifecycle "HOL-Library.Sublist"
begin

text \<open>
  Webhooks: the table and its queries (\<open>pkg/server/store/webhookstore.go\<close>), the dispatcher with its bounded queue
  (\<open>pkg/server/webhook/dispatcher.go\<close>) and the endpoints (\<open>pkg/server/http/handlers.go\<close>). The table is a list of
  rows in the order of insertion, times are seconds, HMAC-SHA256 in hexadecimal and \<open>json.Marshal\<close> of a notification are
  parameters, and a failing statement is an argument. What the receiver answers is only logged.
\<close>

section \<open>The table\<close>

record WebhookRecord =
  wh_ID :: string
  wh_URL :: string
  wh_Secret :: string
  wh_Events :: "string list"
  wh_CreatedAt :: int
  wh_Active :: bool

record webhook_row =
  wr_id :: string
  wr_url :: string
  wr_secret :: string
  wr_events :: string
  wr_created_at :: int
  wr_active :: int

fun joinStrings :: "string list \<Rightarrow> string" where
  "joinStrings [] = []"
| "joinStrings [s] = s"
| "joinStrings (s # t # ss) = s @ CHR '','' # joinStrings (t # ss)"

fun splitSimple :: "string \<Rightarrow> string list" where
  "splitSimple [] = [[]]"
| "splitSimple (c # s) =
     (if c = CHR '','' then [] # splitSimple s
      else case splitSimple s of [] \<Rightarrow> [[c]] | p # ps \<Rightarrow> (c # p) # ps)"

definition splitStrings :: "string \<Rightarrow> string list" where
  "splitStrings s = (if s = [] then [] else filter (\<lambda>p. p \<noteq> []) (splitSimple s))"

definition CreateWebhook :: "bool \<Rightarrow> webhook_row list \<Rightarrow> WebhookRecord \<Rightarrow> bool \<times> webhook_row list" where
  "CreateWebhook served rows w =
     (if \<not> served \<or> list_ex (\<lambda>r. wr_id r = wh_ID w) rows then (False, rows)
      else (True, rows @ [\<lparr>wr_id = wh_ID w, wr_url = wh_URL w, wr_secret = wh_Secret w, wr_events = joinStrings (wh_Events w),
                          wr_created_at = wh_CreatedAt w, wr_active = (if wh_Active w then 1 else 0)\<rparr>]))"

definition row_webhook :: "webhook_row \<Rightarrow> WebhookRecord" where
  "row_webhook r =
     \<lparr>wh_ID = wr_id r, wh_URL = wr_url r, wh_Secret = wr_secret r, wh_Events = splitStrings (wr_events r),
      wh_CreatedAt = wr_created_at r, wh_Active = (wr_active r \<noteq> 0)\<rparr>"

definition GetWebhook :: "webhook_row list \<Rightarrow> string \<Rightarrow> WebhookRecord option" where
  "GetWebhook rows i = map_option row_webhook (find (\<lambda>r. wr_id r = i) rows)"

definition DeleteWebhook :: "bool \<Rightarrow> webhook_row list \<Rightarrow> string \<Rightarrow> bool \<times> webhook_row list" where
  "DeleteWebhook served rows i = (if \<not> served then (False, rows) else (True, filter (\<lambda>r. wr_id r \<noteq> i) rows))"

text \<open>\<open>ORDER BY created_at DESC\<close>, rows of the same second in the order of insertion.\<close>

definition ListWebhooks :: "webhook_row list \<Rightarrow> WebhookRecord list" where
  "ListWebhooks rows = map row_webhook (sort_key (\<lambda>r. - wr_created_at r) rows)"

definition wants :: "string \<Rightarrow> WebhookRecord \<Rightarrow> bool" where
  "wants event w \<longleftrightarrow> list_ex (\<lambda>e. e = event \<or> e = ''*'') (wh_Events w)"

definition ListActiveWebhooks :: "webhook_row list \<Rightarrow> string \<Rightarrow> WebhookRecord list" where
  "ListActiveWebhooks rows event = filter (\<lambda>w. wh_Active w \<and> wants event w) (ListWebhooks rows)"

section \<open>The dispatcher\<close>

record Notification =
  wn_ID :: string
  wn_Event :: string
  wn_Timestamp :: int
  wn_TaskID :: string
  wn_Status :: string
  wn_Error :: "string option"
  wn_Result :: "string option"

record webhook_call =
  wc_url :: string
  wc_event :: string
  wc_id :: string
  wc_signature :: "string option"
  wc_payload :: string

record Dispatcher =
  wd_queue :: "Notification list"
  wd_stopped :: bool

definition queue_cap :: nat where
  "queue_cap = 100"

definition NewDispatcher :: Dispatcher where
  "NewDispatcher = \<lparr>wd_queue = [], wd_stopped = False\<rparr>"

definition signPayload :: "(string \<Rightarrow> string \<Rightarrow> string) \<Rightarrow> string \<Rightarrow> string \<Rightarrow> string" where
  "signPayload hmac payload secret = ''sha256='' @ hmac secret payload"

definition sendWebhook ::
  "(string \<Rightarrow> string \<Rightarrow> string) \<Rightarrow> (Notification \<Rightarrow> string) \<Rightarrow> WebhookRecord \<Rightarrow> Notification \<Rightarrow> webhook_call" where
  "sendWebhook hmac marshal w n =
     \<lparr>wc_url = wh_URL w, wc_event = wn_Event n, wc_id = wn_ID n,
      wc_signature = (if wh_Secret w = [] then None else Some (signPayload hmac (marshal n) (wh_Secret w))),
      wc_payload = marshal n\<rparr>"

definition sendToWebhooks ::
  "(string \<Rightarrow> string \<Rightarrow> string) \<Rightarrow> (Notification \<Rightarrow> string) \<Rightarrow> bool \<Rightarrow> webhook_row list \<Rightarrow> Notification \<Rightarrow> webhook_call list" where
  "sendToWebhooks hmac marshal served rows n =
     (if \<not> served then [] else map (\<lambda>w. sendWebhook hmac marshal w n) (ListActiveWebhooks rows (wn_Event n)))"

definition Notify ::
  "int \<Rightarrow> Dispatcher \<Rightarrow> string \<Rightarrow> string \<Rightarrow> string \<Rightarrow> string option \<Rightarrow> string option \<Rightarrow> Dispatcher" where
  "Notify now d event taskID status result err =
     (let n = \<lparr>wn_ID = ''notif-'' @ decimal now, wn_Event = event, wn_Timestamp = unix now, wn_TaskID = taskID,
               wn_Status = status, wn_Error = err, wn_Result = result\<rparr> in
      if length (wd_queue d) < queue_cap then d\<lparr>wd_queue := wd_queue d @ [n]\<rparr> else d)"

definition NotifyTaskCompleted where
  "NotifyTaskCompleted now d taskID result = Notify now d ''task.completed'' taskID ''completed'' (Some result) None"

definition NotifyTaskFailed where
  "NotifyTaskFailed now d taskID err = Notify now d ''task.failed'' taskID ''failed'' None (Some err)"

definition NotifyTaskTimeout where
  "NotifyTaskTimeout now d taskID err = Notify now d ''task.timeout'' taskID ''timeout'' None (Some err)"

text \<open>The end of a task, from \<open>pkg/server/http/scheduler.go\<close>; a canceled task notifies nobody.\<close>

definition notify_dispatcher :: "int \<Rightarrow> Dispatcher \<Rightarrow> ManagedTask \<Rightarrow> Dispatcher" where
  "notify_dispatcher now d t =
     (if t_Status t = TaskStatusCompleted then NotifyTaskCompleted now d (t_TaskID t) []
      else if t_Status t = TaskStatusFailed
      then let msg = (case t_Error t of None \<Rightarrow> ''task failed'' | Some e \<Rightarrow> ep_Message e);
               event = (case t_Error t of
                          None \<Rightarrow> ''task.failed''
                        | Some e \<Rightarrow> if ep_Code e \<in> {''TASK_TIMEOUT'', ''TASK_INACTIVITY_TIMEOUT''} then ''task.timeout'' else ''task.failed'')
           in Notify now d event (t_TaskID t) ''failed'' None (Some msg)
      else d)"

text \<open>One turn of \<open>processLoop\<close>: it ends once the dispatcher is stopped.\<close>

definition process_turn ::
  "(string \<Rightarrow> string \<Rightarrow> string) \<Rightarrow> (Notification \<Rightarrow> string) \<Rightarrow> bool \<Rightarrow> webhook_row list \<Rightarrow> Dispatcher \<Rightarrow> webhook_call list \<times> Dispatcher" where
  "process_turn hmac marshal served rows d =
     (case wd_queue d of
        [] \<Rightarrow> ([], d)
      | n # q \<Rightarrow> if wd_stopped d then ([], d) else (sendToWebhooks hmac marshal served rows n, d\<lparr>wd_queue := q\<rparr>))"

definition StopDispatcher :: "Dispatcher \<Rightarrow> Dispatcher" where
  "StopDispatcher d = d\<lparr>wd_stopped := True\<rparr>"

section \<open>Endpoints\<close>

record CreateWebhookRequest =
  cw_URL :: string
  cw_Secret :: string
  cw_Events :: "string list"

record WebhookResponse =
  wp_ID :: string
  wp_URL :: string
  wp_Events :: "string list"
  wp_CreatedAt :: int
  wp_Active :: bool

datatype 'a webhook_reply = WebhooksOff | WebhookBody | WebhookURLMissing | WebhookNoEvents | WebhookIdMissing | WebhookFailed | WebhookDone 'a

definition handleCreateWebhook ::
  "bool \<Rightarrow> int \<Rightarrow> webhook_row list option \<Rightarrow> CreateWebhookRequest option \<Rightarrow> WebhookResponse webhook_reply \<times> webhook_row list option" where
  "handleCreateWebhook served now st body =
     (case st of
        None \<Rightarrow> (WebhooksOff, st)
      | Some rows \<Rightarrow>
          (case body of
             None \<Rightarrow> (WebhookBody, st)
           | Some req \<Rightarrow>
               if cw_URL req = [] then (WebhookURLMissing, st)
               else if cw_Events req = [] then (WebhookNoEvents, st)
               else let i = ''wh-'' @ decimal now;
                        w = \<lparr>wh_ID = i, wh_URL = cw_URL req, wh_Secret = cw_Secret req, wh_Events = cw_Events req,
                             wh_CreatedAt = unix now, wh_Active = True\<rparr>
                    in (case CreateWebhook served rows w of
                          (False, _) \<Rightarrow> (WebhookFailed, st)
                        | (True, rows') \<Rightarrow>
                            (WebhookDone \<lparr>wp_ID = i, wp_URL = cw_URL req, wp_Events = cw_Events req,
                               wp_CreatedAt = wh_CreatedAt w, wp_Active = True\<rparr>, Some rows'))))"

definition handleListWebhooks :: "bool \<Rightarrow> webhook_row list option \<Rightarrow> WebhookResponse list webhook_reply" where
  "handleListWebhooks served st =
     (case st of
        None \<Rightarrow> WebhooksOff
      | Some rows \<Rightarrow>
          if \<not> served then WebhookFailed
          else WebhookDone (map (\<lambda>w. \<lparr>wp_ID = wh_ID w, wp_URL = wh_URL w, wp_Events = wh_Events w,
                 wp_CreatedAt = wh_CreatedAt w, wp_Active = wh_Active w\<rparr>) (ListWebhooks rows)))"

definition handleDeleteWebhook :: "bool \<Rightarrow> webhook_row list option \<Rightarrow> string \<Rightarrow> string webhook_reply \<times> webhook_row list option" where
  "handleDeleteWebhook served st path =
     (case st of
        None \<Rightarrow> (WebhooksOff, st)
      | Some rows \<Rightarrow>
          let i = TrimPrefix path ''/v1/webhooks/'' in
          if i = [] then (WebhookIdMissing, st)
          else (case DeleteWebhook served rows i of
                  (False, _) \<Rightarrow> (WebhookFailed, st)
                | (True, rows') \<Rightarrow> (WebhookDone i, Some rows')))"

section \<open>Event lists\<close>

definition plain_event :: "string \<Rightarrow> bool" where
  "plain_event e \<longleftrightarrow> e \<noteq> [] \<and> CHR '','' \<notin> set e"

lemma splitSimple_plain: "CHR '','' \<notin> set s \<Longrightarrow> splitSimple s = [s]"
  by (induction s) auto

lemma splitSimple_nonempty [simp]: "splitSimple s \<noteq> []"
  by (induction s) (auto split: list.split)

lemma splitSimple_cut: "splitSimple (s @ CHR '','' # t) = splitSimple s @ splitSimple t"
  by (induction s) (auto split: list.splits)

lemma splitStrings_cut: "splitStrings (s @ CHR '','' # t) = splitStrings s @ splitStrings t"
  by (simp add: splitStrings_def splitSimple_cut)

text \<open>What is read back of an event list: every entry cut at its commas, empty parts dropped.\<close>

lemma splitStrings_joinStrings: "splitStrings (joinStrings es) = concat (map splitStrings es)"
  by (induction es rule: joinStrings.induct) (simp_all add: splitStrings_cut, simp add: splitStrings_def)

lemma splitStrings_plain: "plain_event e \<Longrightarrow> splitStrings e = [e]"
  by (simp add: plain_event_def splitStrings_def splitSimple_plain)

lemma events_roundtrip:
  assumes "list_all plain_event es" shows "splitStrings (joinStrings es) = es"
  using assms unfolding splitStrings_joinStrings by (induction es) (simp_all add: splitStrings_plain)

text \<open>An event name with a comma is stored as several names.\<close>

lemma comma_event_split: "splitStrings (joinStrings [''task.completed,task.failed'']) = [''task.completed'', ''task.failed'']"
  by code_simp


section \<open>Delivery\<close>

definition webhook_columns :: "WebhookRecord \<Rightarrow> webhook_row" where
  "webhook_columns w =
     \<lparr>wr_id = wh_ID w, wr_url = wh_URL w, wr_secret = wh_Secret w, wr_events = joinStrings (wh_Events w),
      wr_created_at = wh_CreatedAt w, wr_active = (if wh_Active w then 1 else 0)\<rparr>"

datatype webhook_op = OpCreate bool int CreateWebhookRequest | OpDelete bool string

fun webhook_step :: "webhook_row list \<Rightarrow> webhook_op \<Rightarrow> webhook_row list" where
  "webhook_step rows (OpCreate served now req) = the (snd (handleCreateWebhook served now (Some rows) (Some req)))"
| "webhook_step rows (OpDelete served path) = the (snd (handleDeleteWebhook served (Some rows) path))"

text \<open>What a client would say is registered: a request that was accepted and not deleted since.\<close>

definition registered_hook :: "int \<Rightarrow> CreateWebhookRequest \<Rightarrow> WebhookRecord" where
  "registered_hook now req =
     \<lparr>wh_ID = ''wh-'' @ decimal now, wh_URL = cw_URL req, wh_Secret = cw_Secret req, wh_Events = cw_Events req,
      wh_CreatedAt = unix now, wh_Active = True\<rparr>"

fun registered_step :: "WebhookRecord list \<Rightarrow> webhook_op \<Rightarrow> WebhookRecord list" where
  "registered_step hooks (OpCreate served now req) =
     (if served \<and> cw_URL req \<noteq> [] \<and> cw_Events req \<noteq> [] \<and> \<not> list_ex (\<lambda>w. wh_ID w = ''wh-'' @ decimal now) hooks
      then hooks @ [registered_hook now req] else hooks)"
| "registered_step hooks (OpDelete served path) =
     (if served \<and> TrimPrefix path ''/v1/webhooks/'' \<noteq> [] then filter (\<lambda>w. wh_ID w \<noteq> TrimPrefix path ''/v1/webhooks/'') hooks else hooks)"

fun plain_op :: "webhook_op \<Rightarrow> bool" where
  "plain_op (OpCreate served now req) = list_all plain_event (cw_Events req)"
| "plain_op (OpDelete served path) = True"

lemma row_webhook_columns: "list_all plain_event (wh_Events w) \<Longrightarrow> row_webhook (webhook_columns w) = w"
  by (simp add: row_webhook_def webhook_columns_def events_roundtrip)

lemma webhook_step_registered:
  "webhook_step (map webhook_columns hooks) op = map webhook_columns (registered_step hooks op)"
  by (cases op)
    (auto simp: handleCreateWebhook_def CreateWebhook_def registered_hook_def webhook_columns_def handleDeleteWebhook_def
      DeleteWebhook_def Let_def list_ex_iff filter_map comp_def)

lemma webhook_run_registered:
  "foldl webhook_step (map webhook_columns hooks) ops = map webhook_columns (foldl registered_step hooks ops)"
  by (induction ops arbitrary: hooks) (simp_all add: webhook_step_registered)

definition hooks_plain :: "WebhookRecord list \<Rightarrow> bool" where
  "hooks_plain hooks \<longleftrightarrow> list_all (\<lambda>w. list_all plain_event (wh_Events w) \<and> wh_Active w) hooks"

lemma registered_step_plain: "plain_op op \<Longrightarrow> hooks_plain hooks \<Longrightarrow> hooks_plain (registered_step hooks op)"
  by (cases op) (auto simp: hooks_plain_def registered_hook_def list_all_iff)

lemma registered_plain: "list_all plain_op ops \<Longrightarrow> hooks_plain hooks \<Longrightarrow> hooks_plain (foldl registered_step hooks ops)"
  by (induction ops arbitrary: hooks) (simp_all add: registered_step_plain)

lemma insort_key_map: "insort_key f (g x) (map g us) = map g (insort_key (\<lambda>x. f (g x)) x us)"
  by (induction us) simp_all

lemma sort_key_rows: "sort_key f (map g xs) = map g (sort_key (\<lambda>x. f (g x)) xs)"
  by (induction xs) (simp_all add: insort_key_map)

text \<open>A notification goes to exactly the registered webhooks that ask for its event, each once, newest first, and signed with
  the secret of the webhook.\<close>

theorem webhooks_delivered:
  assumes "list_all plain_op ops"
  shows "sendToWebhooks hmac marshal True (foldl webhook_step [] ops) n =
    map (\<lambda>w. sendWebhook hmac marshal w n)
      (filter (wants (wn_Event n)) (sort_key (\<lambda>w. - wh_CreatedAt w) (foldl registered_step [] ops)))"
proof -
  let ?hooks = "foldl registered_step [] ops"
  have p: "list_all plain_event (wh_Events w) \<and> wh_Active w" if "w \<in> set ?hooks" for w
    using registered_plain [OF assms, of "[]"] that by (simp add: hooks_plain_def list_all_iff)
  have "ListWebhooks (foldl webhook_step [] ops) = map (\<lambda>w. row_webhook (webhook_columns w)) (sort_key (\<lambda>w. - wh_CreatedAt w) ?hooks)"
    using webhook_run_registered [of "[]" ops] by (simp add: ListWebhooks_def sort_key_rows) (simp add: webhook_columns_def)
  also have "\<dots> = sort_key (\<lambda>w. - wh_CreatedAt w) ?hooks" by (rule map_idI) (use p row_webhook_columns in auto)
  finally have l: "ListWebhooks (foldl webhook_step [] ops) = sort_key (\<lambda>w. - wh_CreatedAt w) ?hooks" .
  have "filter (\<lambda>w. wh_Active w \<and> wants (wn_Event n) w) (sort_key (\<lambda>w. - wh_CreatedAt w) ?hooks) =
      filter (wants (wn_Event n)) (sort_key (\<lambda>w. - wh_CreatedAt w) ?hooks)"
    by (rule filter_cong) (use p in auto)
  then show ?thesis by (simp add: sendToWebhooks_def ListActiveWebhooks_def l)
qed

theorem webhooks_delivered_witness:
  "map (\<lambda>c. (wc_url c, wc_signature c)) (sendToWebhooks (\<lambda>k p. k @ p) wn_TaskID True
     (foldl webhook_step [] [OpCreate True 5 \<lparr>cw_URL = ''u1'', cw_Secret = [], cw_Events = [''task.failed'']\<rparr>,
        OpCreate True 6 \<lparr>cw_URL = ''u2'', cw_Secret = ''s'', cw_Events = [''*'']\<rparr>, OpDelete True ''/v1/webhooks/wh-5''])
     \<lparr>wn_ID = ''n'', wn_Event = ''task.failed'', wn_Timestamp = 1, wn_TaskID = ''t'', wn_Status = ''failed'',
      wn_Error = None, wn_Result = None\<rparr>) = [(''u2'', Some ''sha256=st'')]"
  by (subst webhooks_delivered) code_simp+

end
