(* ===== verification/Sse.thy ===== *)
theory Sse
  imports Go_Base "HOL-Library.Sublist"
begin

text \<open>
  Events on the wire: \<open>FormatSSE\<close> and \<open>ParseSSE\<close> of \<open>pkg/protocol/events.go\<close>. A wire event carries its payload as the raw
  JSON text. \<open>json.Marshal\<close> and \<open>json.Unmarshal\<close> of an event are parameters; the scanner refuses a line of 64 KB.
\<close>

section \<open>Formatting and parsing\<close>

record WireEvent =
  we_ID :: int
  we_TaskID :: string
  we_Timestamp :: int
  we_Type :: string
  we_Payload :: string

record event_json =
  ej_marshal :: "WireEvent \<Rightarrow> string option"
  ej_unmarshal :: "string \<Rightarrow> WireEvent option"

abbreviation lf :: char where
  "lf \<equiv> CHR 0x0A"

abbreviation cr :: char where
  "cr \<equiv> CHR 0x0D"

definition TrimRight :: "char set \<Rightarrow> string \<Rightarrow> string" where
  "TrimRight cs s = rev (dropWhile (\<lambda>c. c \<in> cs) (rev s))"

definition FormatSSE :: "event_json \<Rightarrow> WireEvent \<Rightarrow> string" where
  "FormatSSE js e =
     (case ej_marshal js e of
        None \<Rightarrow> []
      | Some data \<Rightarrow>
          ''id: '' @ decimal (we_ID e) @ [lf] @ ''event: '' @ we_Type e @ [lf] @ ''data: '' @ data @ [lf, lf])"

datatype sse_error = SseEmpty | SseBadID | SseTooLong | SseNoData | SseBadJSON

record sse_fields =
  sf_id :: "int option"
  sf_event :: string
  sf_data :: "string list"

text \<open>One line of a block; \<open>None\<close> for an id that is no number.\<close>

definition sse_field :: "sse_fields \<Rightarrow> string \<Rightarrow> sse_fields option" where
  "sse_field f raw =
     (let line = TrimRight {cr} raw in
      if HasPrefix line '':'' \<or> line = [] then Some f
      else case Index line '':'' of
             None \<Rightarrow> Some f
           | Some i \<Rightarrow>
               let field = take i line; val = TrimPrefix (drop (i + 1) line) '' '' in
               if field = ''id'' then (case Atoi val of None \<Rightarrow> None | Some n \<Rightarrow> Some (f\<lparr>sf_id := Some n\<rparr>))
               else if field = ''event'' then Some (f\<lparr>sf_event := val\<rparr>)
               else if field = ''data'' then Some (f\<lparr>sf_data := sf_data f @ [val]\<rparr>)
               else Some f)"

fun scan_sse :: "string list \<Rightarrow> sse_fields \<Rightarrow> sse_error + sse_fields" where
  "scan_sse [] f = Inr f"
| "scan_sse (l # ls) f =
     (if 65536 \<le> length l then Inl SseTooLong
      else case sse_field f l of None \<Rightarrow> Inl SseBadID | Some f' \<Rightarrow> scan_sse ls f')"

text \<open>The id and type lines only fill in what the JSON text leaves out.\<close>

definition sse_headers :: "sse_fields \<Rightarrow> WireEvent \<Rightarrow> WireEvent" where
  "sse_headers f evt =
     (let evt1 = (case sf_id f of
                    Some n \<Rightarrow> if we_ID evt = 0 then evt\<lparr>we_ID := n\<rparr> else evt
                  | None \<Rightarrow> evt)
      in if we_Type evt1 = [] \<and> sf_event f \<noteq> [] then evt1\<lparr>we_Type := sf_event f\<rparr> else evt1)"

definition ParseSSE :: "event_json \<Rightarrow> string \<Rightarrow> sse_error + WireEvent" where
  "ParseSSE js raw =
     (if TrimSpace raw = [] then Inl SseEmpty
      else case scan_sse (split_on lf raw) \<lparr>sf_id = None, sf_event = [], sf_data = []\<rparr> of
             Inl e \<Rightarrow> Inl e
           | Inr f \<Rightarrow>
               if sf_data f = [] then Inl SseNoData
               else (case ej_unmarshal js (Join (sf_data f) [lf]) of
                       None \<Rightarrow> Inl SseBadJSON
                     | Some evt \<Rightarrow> Inr (sse_headers f evt)))"

section \<open>Lines of an event\<close>

definition one_line :: "string \<Rightarrow> bool" where
  "one_line s \<longleftrightarrow> lf \<notin> set s \<and> cr \<notin> set s"

text \<open>The documented behaviour of \<open>encoding/json\<close> on an event that fits the scanner: the text decodes to the event, is one
  line, and no proper prefix of it is JSON.\<close>

definition wire_ok :: "event_json \<Rightarrow> WireEvent \<Rightarrow> bool" where
  "wire_ok js e \<longleftrightarrow>
     - (2 ^ 63) \<le> we_ID e \<and> we_ID e < 2 ^ 63 \<and> one_line (we_Type e) \<and> length (we_Type e) < 65000 \<and>
     (case ej_marshal js e of
        None \<Rightarrow> False
      | Some data \<Rightarrow> one_line data \<and> data \<noteq> [] \<and> length data < 65000 \<and> ej_unmarshal js data = Some e \<and>
          (\<forall>n < length data. ej_unmarshal js (take n data) = None))"

definition event_data :: "event_json \<Rightarrow> WireEvent \<Rightarrow> string" where
  "event_data js e = the (ej_marshal js e)"

definition id_line :: "WireEvent \<Rightarrow> string" where
  "id_line e = ''id: '' @ decimal (we_ID e)"

definition type_line :: "WireEvent \<Rightarrow> string" where
  "type_line e = ''event: '' @ we_Type e"

definition data_line :: "event_json \<Rightarrow> WireEvent \<Rightarrow> string" where
  "data_line js e = ''data: '' @ event_data js e"

lemma FormatSSE_lines:
  "wire_ok js e \<Longrightarrow> FormatSSE js e = id_line e @ [lf] @ type_line e @ [lf] @ data_line js e @ [lf] @ [lf]"
  by (auto simp: wire_ok_def FormatSSE_def id_line_def type_line_def data_line_def event_data_def split: option.splits)

lemma decimal_one_line: "one_line (decimal i)"
  using nat_digits_chars[of lf] nat_digits_chars[of cr] by (auto simp: one_line_def decimal_def)

lemma length_nat_digits: "n < 10 ^ Suc k \<Longrightarrow> length (nat_digits n) \<le> Suc k"
proof (induction k arbitrary: n)
  case 0
  then show ?case by (subst nat_digits.simps) simp
next
  case (Suc k)
  then have "length (nat_digits (n div 10)) \<le> Suc k" by (simp add: less_mult_imp_div_less mult.commute)
  then show ?case by (subst nat_digits.simps) simp
qed

lemma length_decimal:
  assumes "- (2 ^ 63) \<le> i" "i < 2 ^ 63"
  shows "length (decimal i) \<le> 21"
proof -
  have "nat \<bar>i\<bar> < 10 ^ Suc 19" using assms by simp
  from length_nat_digits[OF this] show ?thesis by (auto simp: decimal_def)
qed

lemma one_line_prefix: "one_line s \<Longrightarrow> prefix p s \<Longrightarrow> one_line p"
  by (auto simp: one_line_def dest: set_mono_prefix)

lemma TrimRight_one_line [simp]: "one_line s \<Longrightarrow> cs \<subseteq> {lf, cr} \<Longrightarrow> TrimRight cs s = s"
  by (cases s rule: rev_cases) (auto simp: TrimRight_def one_line_def)

lemma event_lines:
  assumes "wire_ok js e"
  shows "one_line (id_line e)" "one_line (type_line e)" "one_line (data_line js e)"
    "length (id_line e) < 65536" "length (type_line e) < 65536" "length (data_line js e) < 65536"
  using assms decimal_one_line[of "we_ID e"] length_decimal[of "we_ID e"]
  by (auto simp: wire_ok_def id_line_def type_line_def data_line_def event_data_def one_line_def split: option.splits)

section \<open>Round trip\<close>

lemma Index_colon: "CHR '':'' \<notin> set s \<Longrightarrow> Index (s @ CHR '':'' # t) '':'' = Some (length s)"
  by (induction s) (auto simp: HasPrefix_def)

lemma Index_no_colon: "CHR '':'' \<notin> set s \<Longrightarrow> Index s '':'' = None"
  by (induction s) (auto simp: HasPrefix_def)

text \<open>A piece of a line \<open>name: value\<close> is skipped, or it is this field with a piece of the value.\<close>

lemma sse_field_prefix:
  assumes p: "prefix p (name @ '': '' @ val)" and one: "one_line (name @ val)" and name: "name \<noteq> []" "CHR '':'' \<notin> set name"
  shows "length p \<le> length name \<and> sse_field f p = Some f \<or>
    (\<exists>n \<le> length val. sse_field f p =
       (if name = ''id'' then map_option (\<lambda>i. f\<lparr>sf_id := Some i\<rparr>) (Atoi (take n val))
        else if name = ''event'' then Some (f\<lparr>sf_event := take n val\<rparr>)
        else if name = ''data'' then Some (f\<lparr>sf_data := sf_data f @ [take n val]\<rparr>) else Some f) \<and>
       (n = length val \<and> val \<noteq> [] \<longrightarrow> p = name @ '': '' @ val) \<and> (p = name @ '': '' @ val \<longrightarrow> n = length val))"
proof (cases "length p \<le> length name")
  case True
  then have "prefix p name" using p by (metis prefix_length_prefix prefix_append prefix_order.order_refl)
  then have "CHR '':'' \<notin> set p" "one_line p" using one name by (auto simp: one_line_def dest: set_mono_prefix)
  then show ?thesis using True by (auto simp: sse_field_def Index_no_colon)
next
  case False
  then obtain q where q: "p = name @ CHR '':'' # q" "prefix q ('' '' @ val)"
    using p prefix_length_le[of p name] by (auto simp: prefix_append prefix_Cons)
  have clean: "one_line p" using one by (intro one_line_prefix[OF _ p]) (simp add: one_line_def)
  have i: "Index p '':'' = Some (length name)" using Index_colon name by (simp add: q)
  have no: "\<not> HasPrefix p '':''" "p \<noteq> []" using name by (cases name; auto simp: q HasPrefix_def)+
  define n where "n = length (TrimPrefix q '' '')"
  have v: "TrimPrefix q '' '' = take n val" "n \<le> length val"
    "n = length val \<and> val \<noteq> [] \<longrightarrow> q = '' '' @ val" "q = '' '' @ val \<longrightarrow> n = length val"
  proof -
    consider "q = []" | r where "q = CHR '' '' # r" "prefix r val" using q(2) by (cases q) auto
    then have "TrimPrefix q '' '' = take n val \<and> n \<le> length val \<and>
      (n = length val \<and> val \<noteq> [] \<longrightarrow> q = '' '' @ val) \<and> (q = '' '' @ val \<longrightarrow> n = length val)"
      by cases (auto simp: n_def TrimPrefix_def HasPrefix_def prefix_def)
    then show "TrimPrefix q '' '' = take n val" "n \<le> length val"
      "n = length val \<and> val \<noteq> [] \<longrightarrow> q = '' '' @ val" "q = '' '' @ val \<longrightarrow> n = length val" by simp_all
  qed
  have "sse_field f p =
       (if name = ''id'' then map_option (\<lambda>i. f\<lparr>sf_id := Some i\<rparr>) (Atoi (take n val))
        else if name = ''event'' then Some (f\<lparr>sf_event := take n val\<rparr>)
        else if name = ''data'' then Some (f\<lparr>sf_data := sf_data f @ [take n val]\<rparr>) else Some f)"
    using clean no i v(1) by (simp add: sse_field_def q Let_def split: option.split)
  then show ?thesis using v q(1) by auto
qed

lemma scan_event:
  assumes "wire_ok js e"
  shows "scan_sse [id_line e, type_line e, data_line js e] \<lparr>sf_id = None, sf_event = [], sf_data = []\<rparr> =
    Inr \<lparr>sf_id = Some (we_ID e), sf_event = we_Type e, sf_data = [event_data js e]\<rparr>"
proof -
  have one: "one_line (''id'' @ decimal (we_ID e))" "one_line (''event'' @ we_Type e)" "one_line (''data'' @ event_data js e)"
    using event_lines[OF assms] by (auto simp: one_line_def id_line_def type_line_def data_line_def)
  have id: "sse_field f (id_line e) = Some (f\<lparr>sf_id := Some (we_ID e)\<rparr>)" for f
    using sse_field_prefix[of "id_line e" "''id''" "decimal (we_ID e)" f] one(1) assms
    by (auto simp: id_line_def wire_ok_def Atoi_decimal)
  have ty: "sse_field f (type_line e) = Some (f\<lparr>sf_event := we_Type e\<rparr>)" for f
    using sse_field_prefix[of "type_line e" "''event''" "we_Type e" f] one(2) by (auto simp: type_line_def)
  have da: "sse_field f (data_line js e) = Some (f\<lparr>sf_data := sf_data f @ [event_data js e]\<rparr>)" for f
    using sse_field_prefix[of "data_line js e" "''data''" "event_data js e" f] one(3) by (auto simp: data_line_def)
  show ?thesis using event_lines[OF assms] by (simp add: id ty da)
qed

lemma TrimSpace_nonblank: "c \<in> set s \<Longrightarrow> \<not> is_space c \<Longrightarrow> TrimSpace s \<noteq> []"
proof
  assume c: "c \<in> set s" "\<not> is_space c" and "TrimSpace s = []"
  then have "\<forall>x \<in> set (dropWhile is_space s). is_space x" by (simp add: TrimSpace_def)
  then have "dropWhile is_space s = []" using hd_dropWhile[of is_space s] by (metis hd_in_set)
  with c show False by simp
qed

lemma blanks_dropped: "scan_sse (ls @ [[], []]) f = scan_sse ls f"
  by (induction ls arbitrary: f) (auto simp: sse_field_def TrimRight_def split: option.split)

lemma split_event_lines:
  assumes "wire_ok js e"
  shows "split_on lf (FormatSSE js e) = [id_line e, type_line e, data_line js e] @ [[], []]"
proof -
  have "lf \<notin> set (id_line e)" "lf \<notin> set (type_line e)" "lf \<notin> set (data_line js e)"
    using event_lines[OF assms] by (simp_all add: one_line_def)
  then have "split_on lf (id_line e @ lf # type_line e @ lf # data_line js e @ lf # lf # []) =
      [id_line e] @ [type_line e] @ [data_line js e] @ [[]] @ [[]]"
    by (simp add: split_on_append_delim split_on_single)
  then show ?thesis by (simp add: FormatSSE_lines[OF assms])
qed

lemma id_line_nonblank: "CHR ''i'' \<in> set (id_line e)"
  by (simp add: id_line_def)

lemma parse_lines:
  assumes "wire_ok js e" "TrimSpace raw \<noteq> []"
    "scan_sse (split_on lf raw) \<lparr>sf_id = None, sf_event = [], sf_data = []\<rparr> =
     scan_sse [id_line e, type_line e, data_line js e] \<lparr>sf_id = None, sf_event = [], sf_data = []\<rparr>"
  shows "ParseSSE js raw = Inr e"
proof -
  have "ej_unmarshal js (event_data js e) = Some e"
    using assms(1) by (auto simp: wire_ok_def event_data_def split: option.splits)
  moreover have "sse_headers \<lparr>sf_id = Some (we_ID e), sf_event = we_Type e, sf_data = [event_data js e]\<rparr> e = e"
    by (cases e) (simp add: sse_headers_def)
  ultimately show ?thesis
    using assms(2) unfolding ParseSSE_def assms(3)[THEN trans, OF scan_event[OF assms(1)]] by simp
qed

text \<open>
  C0. An event that \<open>FormatSSE\<close> writes is read back by \<open>ParseSSE\<close> as the same event, also without the blank line that ends
  the block.
\<close>

theorem sse_event_roundtrip:
  assumes "wire_ok js e"
  shows "ParseSSE js (FormatSSE js e) = Inr e \<and>
    ParseSSE js (Join [id_line e, type_line e, data_line js e] [lf]) = Inr e"
proof (intro conjI parse_lines[OF assms])
  have i: "CHR ''i'' \<in> set (FormatSSE js e)" "CHR ''i'' \<in> set (Join [id_line e, type_line e, data_line js e] [lf])"
    using id_line_nonblank[of e] by (auto simp: FormatSSE_lines[OF assms])
  show "TrimSpace (FormatSSE js e) \<noteq> []" "TrimSpace (Join [id_line e, type_line e, data_line js e] [lf]) \<noteq> []"
    using TrimSpace_nonblank[OF i(1)] TrimSpace_nonblank[OF i(2)] by (simp_all add: is_space_def)
  have "split_on lf (Join [id_line e, type_line e, data_line js e] [lf]) = [id_line e, type_line e, data_line js e]"
    using event_lines[OF assms] by (intro split_on_Join) (auto simp: one_line_def)
  then show "scan_sse (split_on lf (Join [id_line e, type_line e, data_line js e] [lf])) \<lparr>sf_id = None, sf_event = [], sf_data = []\<rparr> =
     scan_sse [id_line e, type_line e, data_line js e] \<lparr>sf_id = None, sf_event = [], sf_data = []\<rparr>" by simp
  show "scan_sse (split_on lf (FormatSSE js e)) \<lparr>sf_id = None, sf_event = [], sf_data = []\<rparr> =
     scan_sse [id_line e, type_line e, data_line js e] \<lparr>sf_id = None, sf_event = [], sf_data = []\<rparr>"
    by (simp only: split_event_lines[OF assms] blanks_dropped)
qed

section \<open>Cut events\<close>

text \<open>What is left of the lines of an event when the stream ends inside it.\<close>

definition cut_lines :: "event_json \<Rightarrow> WireEvent \<Rightarrow> string list \<Rightarrow> bool" where
  "cut_lines js e ls \<longleftrightarrow>
     (\<exists>p. p \<noteq> [] \<and>
        (ls = [p] \<and> prefix p (id_line e) \<or> ls = [id_line e, p] \<and> prefix p (type_line e) \<or>
         ls = [id_line e, type_line e, p] \<and> strict_prefix p (data_line js e)))"

lemma id_piece: "wire_ok js e \<Longrightarrow> prefix p (id_line e) \<Longrightarrow> sse_field f p = Some f' \<Longrightarrow> sf_data f' = sf_data f"
  using sse_field_prefix[of p "''id''" "decimal (we_ID e)" f] event_lines(1)[of js e]
  by (auto simp: id_line_def one_line_def map_option_case split: option.splits)

lemma type_piece: "wire_ok js e \<Longrightarrow> prefix p (type_line e) \<Longrightarrow> sse_field f p = Some f' \<Longrightarrow> sf_data f' = sf_data f"
  using sse_field_prefix[of p "''event''" "we_Type e" f] event_lines(2)[of js e]
  by (auto simp: type_line_def one_line_def)

lemma data_piece:
  assumes "wire_ok js e" "strict_prefix p (data_line js e)" "sse_field f p = Some f'"
  shows "sf_data f' = sf_data f \<or> (\<exists>n < length (event_data js e). sf_data f' = sf_data f @ [take n (event_data js e)])"
proof -
  have one: "one_line (''data'' @ event_data js e)"
    using event_lines(3)[OF assms(1)] by (simp add: data_line_def one_line_def)
  have "event_data js e \<noteq> []" using assms(1) by (auto simp: wire_ok_def event_data_def split: option.splits)
  then show ?thesis
    using sse_field_prefix[of p "''data''" "event_data js e" f] one assms(2,3)
    by (auto simp: data_line_def strict_prefix_def le_less)
qed

lemma cut_event_unparsed:
  assumes "wire_ok js e" "cut_lines js e ls"
  shows "\<exists>err. ParseSSE js (Join ls [lf]) = Inl err"
proof -
  let ?f = "\<lparr>sf_id = None, sf_event = [], sf_data = []\<rparr>"
  note el = event_lines[OF assms(1)]
  have lines: "split_on lf (Join ls [lf]) = ls"
    using assms(2) el one_line_prefix[OF el(1)] one_line_prefix[OF el(2)] one_line_prefix[OF el(3)]
    by (intro split_on_Join) (auto simp: cut_lines_def one_line_def strict_prefix_def)
  have data: "sf_data f = [] \<or> (\<exists>n < length (event_data js e). sf_data f = [take n (event_data js e)])"
    if sc: "scan_sse ls ?f = Inr f" for f
  proof -
    from assms(2) obtain p where "p \<noteq> []" and
      "ls = [p] \<and> prefix p (id_line e) \<or> ls = [id_line e, p] \<and> prefix p (type_line e) \<or>
       ls = [id_line e, type_line e, p] \<and> strict_prefix p (data_line js e)" by (auto simp: cut_lines_def)
    then consider "ls = [p]" "prefix p (id_line e)" | "ls = [id_line e, p]" "prefix p (type_line e)"
      | "ls = [id_line e, type_line e, p]" "strict_prefix p (data_line js e)" by blast
    then show ?thesis
    proof cases
      case 1
      then obtain f1 where "sse_field ?f p = Some f1" "f = f1" using sc by (auto split: option.splits if_splits)
      then show ?thesis using id_piece[OF assms(1) 1(2)] by fastforce
    next
      case 2
      then obtain f1 where "sse_field ?f (id_line e) = Some f1" "sse_field f1 p = Some f"
        using sc by (auto split: option.splits if_splits)
      then show ?thesis using id_piece[OF assms(1) prefix_order.order_refl] type_piece[OF assms(1) 2(2)] by fastforce
    next
      case 3
      then obtain f1 f2 where f: "sse_field ?f (id_line e) = Some f1" "sse_field f1 (type_line e) = Some f2" "sse_field f2 p = Some f"
        using sc by (auto split: option.splits if_splits)
      have "sf_data f2 = []"
        using id_piece[OF assms(1) prefix_order.order_refl f(1)] type_piece[OF assms(1) prefix_order.order_refl f(2)] by simp
      then show ?thesis using data_piece[OF assms(1) 3(2) f(3)] by simp
    qed
  qed
  have bad: "ej_unmarshal js (take n (event_data js e)) = None" if "n < length (event_data js e)" for n
    using assms(1) that by (auto simp: wire_ok_def event_data_def split: option.splits)
  show ?thesis
  proof (cases "scan_sse ls ?f")
    case (Inl err)
    then show ?thesis by (simp add: ParseSSE_def lines)
  next
    case (Inr f)
    from data[OF Inr] consider "sf_data f = []"
      | n where "n < length (event_data js e)" "sf_data f = [take n (event_data js e)]" by blast
    then have "sf_data f = [] \<or> ej_unmarshal js (Join (sf_data f) [lf]) = None"
    proof cases
      case 2
      show ?thesis unfolding 2(2) using bad[OF 2(1)] by simp
    qed simp
    then show ?thesis unfolding ParseSSE_def lines Inr by (cases "TrimSpace (Join ls [lf]) = []") auto
  qed
qed

text \<open>An event of 64 KB is written to the stream, but nothing can read it back: the scanner keeps its default buffer.\<close>

lemma large_event_unreadable:
  assumes "ej_marshal js e = Some data" "one_line data" "one_line (we_Type e)" "- (2 ^ 63) \<le> we_ID e" "we_ID e < 2 ^ 63"
    "length (we_Type e) < 65000" "65530 \<le> length data"
  shows "ParseSSE js (FormatSSE js e) = Inl SseTooLong"
proof -
  have whole: "FormatSSE js e = id_line e @ lf # type_line e @ lf # data_line js e @ lf # lf # []"
    using assms(1) by (simp add: FormatSSE_def id_line_def type_line_def data_line_def event_data_def)
  have "lf \<notin> set (id_line e)" "lf \<notin> set (type_line e)" "lf \<notin> set (data_line js e)"
    using assms(1-3) decimal_one_line[of "we_ID e"]
    by (auto simp: one_line_def id_line_def type_line_def data_line_def event_data_def)
  then have lines: "split_on lf (FormatSSE js e) = [id_line e, type_line e, data_line js e, [], []]"
    by (simp add: whole split_on_append_delim split_on_single)
  have id: "sse_field f (id_line e) = Some (f\<lparr>sf_id := Some (we_ID e)\<rparr>)" for f
    using sse_field_prefix[of "id_line e" "''id''" "decimal (we_ID e)" f] decimal_one_line[of "we_ID e"] assms(4,5)
    by (auto simp: id_line_def one_line_def Atoi_decimal)
  have ty: "sse_field f (type_line e) = Some (f\<lparr>sf_event := we_Type e\<rparr>)" for f
    using sse_field_prefix[of "type_line e" "''event''" "we_Type e" f] assms(3) by (auto simp: type_line_def one_line_def)
  have len: "length (id_line e) < 65536" "length (type_line e) < 65536" "65536 \<le> length (data_line js e)"
    using length_decimal[OF assms(4,5)] assms(1,6,7) by (simp_all add: id_line_def type_line_def data_line_def event_data_def)
  have "CHR ''i'' \<in> set (FormatSSE js e)" using id_line_nonblank[of e] by (simp add: whole)
  then have "TrimSpace (FormatSSE js e) \<noteq> []" using TrimSpace_nonblank[of "CHR ''i''"] by (simp add: is_space_def)
  then show ?thesis using len unfolding ParseSSE_def lines by (simp add: id ty)
qed

section \<open>Samples\<close>

definition sample_wire :: "string \<Rightarrow> WireEvent" where
  "sample_wire ty = \<lparr>we_ID = 1, we_TaskID = ''t'', we_Timestamp = 0, we_Type = ty, we_Payload = []\<rparr>"

definition sample_event_json :: event_json where
  "sample_event_json =
     \<lparr>ej_marshal = (\<lambda>e. if e = sample_wire ''status'' then Some ''{1}'' else if e = sample_wire ''completion'' then Some ''{2}'' else None),
      ej_unmarshal = (\<lambda>s. if s = ''{1}'' then Some (sample_wire ''status'') else if s = ''{2}'' then Some (sample_wire ''completion'') else None)\<rparr>"

lemma sample_wire_ok: "wire_ok sample_event_json (sample_wire ''status'')" "wire_ok sample_event_json (sample_wire ''completion'')"
  by (auto simp: wire_ok_def sample_event_json_def sample_wire_def one_line_def less_Suc_eq numeral_3_eq_3)

theorem sse_event_roundtrip_witness:
  "ParseSSE sample_event_json (FormatSSE sample_event_json (sample_wire ''status'')) = Inr (sample_wire ''status'')"
  using sse_event_roundtrip[OF sample_wire_ok(1)] by simp

end
