(* ===== verification/Worker.thy ===== *)
theory Worker
  imports Task_Lifecycle
begin

text \<open>
  The daemon of a worker node (\<open>pkg/server/worker/server.go\<close>): requests take an execution slot or a place in the
  queue, or are rejected with 429; a query of a running task waits for its answer in a channel of its own. A request is a
  number; the buffered channels \<open>sem\<close> and \<open>queueSem\<close> are the lists of the requests that hold a slot. An execution is cut
  where it waits, so the requests interleave freely. The runner is whatever it emits through the sink.
\<close>

section \<open>State\<close>

record WorkerConfig =
  wo_Concurrency :: int
  wo_QueueSize :: int
  wo_QueueTimeout :: int
  wo_BearerTokens :: "string list"

record WorkerServer =
  wk_config :: WorkerConfig
  wk_sem :: "nat list"
  wk_queueSem :: "nat list"
  wk_active :: "nat list"
  wk_activeTasks :: int
  wk_queuedTasks :: int
  wk_queries :: "string \<rightharpoonup> nat"
  wk_chans :: "nat \<Rightarrow> string list"
  wk_nextChan :: nat
  wk_sinks :: "nat \<Rightarrow> string list"

definition NewWorkerServer :: "WorkerConfig \<Rightarrow> WorkerServer" where
  "NewWorkerServer cfg0 =
     (let cfg1 = (if wo_Concurrency cfg0 \<le> 0 then cfg0\<lparr>wo_Concurrency := 2\<rparr> else cfg0);
          cfg2 = (if wo_QueueSize cfg1 \<le> 0 then cfg1\<lparr>wo_QueueSize := wo_Concurrency cfg1\<rparr> else cfg1);
          cfg = (if wo_QueueTimeout cfg2 \<le> 0 then cfg2\<lparr>wo_QueueTimeout := nanos 30\<rparr> else cfg2)
      in \<lparr>wk_config = cfg, wk_sem = [], wk_queueSem = [], wk_active = [], wk_activeTasks = 0, wk_queuedTasks = 0,
          wk_queries = Map.empty, wk_chans = (\<lambda>_. []), wk_nextChan = 0, wk_sinks = (\<lambda>_. [])\<rparr>)"

text \<open>The wrapper around the routes; every accepted credential is compared.\<close>

definition worker_authorized :: "WorkerServer \<Rightarrow> string \<Rightarrow> string \<Rightarrow> bool" where
  "worker_authorized s path auth =
     (let expected = map (\<lambda>tok. ''Bearer '' @ tok) (filter (\<lambda>tok. tok \<noteq> []) (wo_BearerTokens (wk_config s))) in
      expected = [] \<or> path = ''/healthz'' \<or> path = ''/healthz/'' \<or> auth \<in> set expected)"

abbreviation sem_free :: "WorkerServer \<Rightarrow> bool" where
  "sem_free s \<equiv> int (length (wk_sem s)) < wo_Concurrency (wk_config s)"

abbreviation queue_free :: "WorkerServer \<Rightarrow> bool" where
  "queue_free s \<equiv> int (length (wk_queueSem s)) < wo_QueueSize (wk_config s)"

section \<open>Execution\<close>

datatype admission = AcquiredSlot | AcquiredQueue | NodeFull

definition worker_task_id :: "int \<Rightarrow> TaskRequest \<Rightarrow> string" where
  "worker_task_id now req =
     (if rq_TaskID req \<noteq> [] then rq_TaskID req
      else if rq_IdempotencyKey req \<noteq> [] then rq_IdempotencyKey req
      else ''worker-task-'' @ decimal now)"

definition execute_admit :: "WorkerServer \<Rightarrow> nat \<Rightarrow> admission \<times> WorkerServer" where
  "execute_admit s rid =
     (if sem_free s then (AcquiredSlot, s\<lparr>wk_sem := rid # wk_sem s, wk_sinks := (wk_sinks s)(rid := [])\<rparr>)
      else if queue_free s
      then (AcquiredQueue, s\<lparr>wk_queueSem := rid # wk_queueSem s, wk_queuedTasks := wk_queuedTasks s + 1,
                             wk_sinks := (wk_sinks s)(rid := [])\<rparr>)
      else (NodeFull, s))"

text \<open>The first event of an admitted request.\<close>

definition first_status :: "admission \<Rightarrow> event_body list" where
  "first_status a =
     (case a of
        AcquiredSlot \<Rightarrow> [EventStatus (Some \<lparr>sp_Status = TaskStatusRunning, sp_Message = []\<rparr>)]
      | AcquiredQueue \<Rightarrow> [EventStatus (Some \<lparr>sp_Status = TaskStatusQueued, sp_Message = ''task queued waiting for execution slot''\<rparr>)]
      | NodeFull \<Rightarrow> [])"

definition leave_queue :: "WorkerServer \<Rightarrow> nat \<Rightarrow> WorkerServer" where
  "leave_queue s rid = s\<lparr>wk_queueSem := remove1 rid (wk_queueSem s), wk_queuedTasks := wk_queuedTasks s - 1\<rparr>"

definition queue_acquire :: "WorkerServer \<Rightarrow> nat \<Rightarrow> WorkerServer" where
  "queue_acquire s rid = leave_queue (s\<lparr>wk_sem := rid # wk_sem s\<rparr>) rid"

definition queue_timeout_event :: event_body where
  "queue_timeout_event =
     EventError (Some \<lparr>ep_Code = ''QUEUE_TIMEOUT'', ep_Message = ''queue timeout: exceeded wait time'', ep_Fatal = True\<rparr>)"

definition cleanup :: "WorkerServer \<Rightarrow> nat \<Rightarrow> WorkerServer" where
  "cleanup s rid = s\<lparr>wk_queries := (\<lambda>q. if q \<in> set (wk_sinks s rid) then None else wk_queries s q)\<rparr>"

definition run_begin :: "WorkerServer \<Rightarrow> nat \<Rightarrow> WorkerServer" where
  "run_begin s rid = s\<lparr>wk_active := rid # wk_active s, wk_activeTasks := wk_activeTasks s + 1\<rparr>"

text \<open>The deferred calls of a finished run, in their order.\<close>

definition run_end :: "WorkerServer \<Rightarrow> nat \<Rightarrow> WorkerServer" where
  "run_end s rid =
     (let s1 = s\<lparr>wk_active := remove1 rid (wk_active s), wk_activeTasks := wk_activeTasks s - 1\<rparr>;
          s2 = s1\<lparr>wk_sem := remove1 rid (wk_sem s1)\<rparr>
      in cleanup s2 rid)"

section \<open>Queries\<close>

definition RegisterWorkerQuery :: "WorkerServer \<Rightarrow> nat \<Rightarrow> string \<Rightarrow> nat \<times> WorkerServer" where
  "RegisterWorkerQuery s rid queryID =
     (let ch = wk_nextChan s in
      (ch, s\<lparr>wk_nextChan := ch + 1, wk_chans := (wk_chans s)(ch := []),
             wk_sinks := (wk_sinks s)(rid := wk_sinks s rid @ [queryID]),
             wk_queries := (wk_queries s)(queryID \<mapsto> ch)\<rparr>))"

datatype worker_reply = ReplyInvalid | QueryIDMissing | QueryUnknown | ReplyDelivered | ChannelUnavailable

text \<open>The send does not block: it needs room in the channel, which holds one answer.\<close>

definition handleWorkerReply :: "WorkerServer \<Rightarrow> (string \<times> string) option \<Rightarrow> worker_reply \<times> WorkerServer" where
  "handleWorkerReply s body =
     (case body of
        None \<Rightarrow> (ReplyInvalid, s)
      | Some (queryID, answer) \<Rightarrow>
          if queryID = [] then (QueryIDMissing, s)
          else (case wk_queries s queryID of
                  None \<Rightarrow> (QueryUnknown, s)
                | Some ch \<Rightarrow>
                    let s1 = s\<lparr>wk_queries := (wk_queries s)(queryID := None)\<rparr> in
                    if wk_chans s1 ch = [] then (ReplyDelivered, s1\<lparr>wk_chans := (wk_chans s1)(ch := [answer])\<rparr>)
                    else (ChannelUnavailable, s1)))"

text \<open>The runner takes the answer from its channel.\<close>

definition take_answer :: "WorkerServer \<Rightarrow> nat \<Rightarrow> WorkerServer" where
  "take_answer s ch = s\<lparr>wk_chans := (wk_chans s)(ch := [])\<rparr>"

definition handleWorkerHealthz :: "WorkerServer \<Rightarrow> int \<times> int" where
  "handleWorkerHealthz s = (wk_activeTasks s, wk_queuedTasks s)"

section \<open>Events of a request\<close>

record worker_sink =
  wsk_taskID :: string
  wsk_seq :: int
  wsk_sent :: "Event list"

text \<open>\<open>EmitEvent\<close> of the sink: nothing after the client is gone; the number is used up even if the write fails.\<close>

definition sink_emit :: "bool \<Rightarrow> bool \<Rightarrow> int \<Rightarrow> worker_sink \<Rightarrow> event_body \<Rightarrow> bool \<times> worker_sink" where
  "sink_emit gone written now k b =
     (if gone then (False, k)
      else let seq = wsk_seq k + 1;
               evt = \<lparr>ev_ID = seq, ev_TaskID = wsk_taskID k, ev_Timestamp = unix now, ev_Body = b\<rparr>
           in if written then (True, k\<lparr>wsk_seq := seq, wsk_sent := wsk_sent k @ [evt]\<rparr>) else (False, k\<lparr>wsk_seq := seq\<rparr>))"

section \<open>Interleaved requests\<close>

text \<open>Besides the server: the admitted requests that wait to run, and what was answered and executed so far, newest first.\<close>

datatype worker_event = Rejected nat | Executed nat | TimedOut nat | GoneAway nat

inductive worker_step :: "WorkerServer \<times> worker_event list \<Rightarrow> WorkerServer \<times> worker_event list \<Rightarrow> bool" where
  admit: "rid \<notin> set (wk_sem s) \<Longrightarrow> rid \<notin> set (wk_queueSem s) \<Longrightarrow> execute_admit s rid = (a, s') \<Longrightarrow> a \<noteq> NodeFull \<Longrightarrow>
    worker_step (s, ev) (s', ev)"
| reject: "execute_admit s rid = (NodeFull, s') \<Longrightarrow> worker_step (s, ev) (s', Rejected rid # ev)"
| dequeue: "rid \<in> set (wk_queueSem s) \<Longrightarrow> sem_free s \<Longrightarrow> worker_step (s, ev) (queue_acquire s rid, ev)"
| timeout: "rid \<in> set (wk_queueSem s) \<Longrightarrow> worker_step (s, ev) (cleanup (leave_queue s rid) rid, TimedOut rid # ev)"
| gone: "rid \<in> set (wk_queueSem s) \<Longrightarrow> worker_step (s, ev) (cleanup (leave_queue s rid) rid, GoneAway rid # ev)"
| run: "rid \<in> set (wk_sem s) \<Longrightarrow> rid \<notin> set (wk_active s) \<Longrightarrow> worker_step (s, ev) (run_begin s rid, Executed rid # ev)"
| finish: "rid \<in> set (wk_active s) \<Longrightarrow> worker_step (s, ev) (run_end s rid, ev)"
| ask: "rid \<in> set (wk_active s) \<Longrightarrow> RegisterWorkerQuery s rid q = (ch, s') \<Longrightarrow> worker_step (s, ev) (s', ev)"
| reply: "handleWorkerReply s body = (r, s') \<Longrightarrow> worker_step (s, ev) (s', ev)"
| answer: "worker_step (s, ev) (take_answer s ch, ev)"

definition slots_inv :: "WorkerServer \<Rightarrow> bool" where
  "slots_inv s \<longleftrightarrow>
     int (length (wk_sem s)) \<le> wo_Concurrency (wk_config s) \<and> int (length (wk_queueSem s)) \<le> wo_QueueSize (wk_config s) \<and>
     wk_activeTasks s = int (length (wk_active s)) \<and> wk_queuedTasks s = int (length (wk_queueSem s)) \<and>
     distinct (wk_sem s) \<and> distinct (wk_queueSem s) \<and> distinct (wk_active s) \<and>
     set (wk_active s) \<subseteq> set (wk_sem s) \<and> set (wk_sem s) \<inter> set (wk_queueSem s) = {}"

definition queries_inv :: "WorkerServer \<Rightarrow> bool" where
  "queries_inv s \<longleftrightarrow>
     (\<forall>q ch. wk_queries s q = Some ch \<longrightarrow> ch < wk_nextChan s \<and> wk_chans s ch = []) \<and>
     (\<forall>q q' ch. wk_queries s q = Some ch \<longrightarrow> wk_queries s q' = Some ch \<longrightarrow> q = q')"

lemmas worker_moves =
  execute_admit_def leave_queue_def queue_acquire_def cleanup_def run_begin_def run_end_def RegisterWorkerQuery_def
  handleWorkerReply_def take_answer_def Let_def

lemma remove1_int: "x \<in> set xs \<Longrightarrow> int (length (remove1 x xs)) = int (length xs) - 1"
  by (induction xs) auto

lemma slots_inv_cong:
  "slots_inv s \<Longrightarrow> wk_config s' = wk_config s \<Longrightarrow> wk_sem s' = wk_sem s \<Longrightarrow> wk_queueSem s' = wk_queueSem s \<Longrightarrow>
    wk_active s' = wk_active s \<Longrightarrow> wk_activeTasks s' = wk_activeTasks s \<Longrightarrow> wk_queuedTasks s' = wk_queuedTasks s \<Longrightarrow>
    slots_inv s'"
  by (simp add: slots_inv_def)

lemma reply_keeps_slots: "slots_inv s \<Longrightarrow> slots_inv (snd (handleWorkerReply s body))"
  by (erule slots_inv_cong) (simp_all add: handleWorkerReply_def Let_def split: option.split)

lemma slots_inv_step:
  assumes "worker_step x y" "slots_inv (fst x)"
  shows "slots_inv (fst y)"
  using assms
proof (cases rule: worker_step.cases)
  case (admit rid s a s' ev)
  then show ?thesis using assms(2) by (auto simp: slots_inv_def execute_admit_def split: if_splits)
next
  case (reject rid s s' ev)
  then show ?thesis using assms(2) by (auto simp: execute_admit_def split: if_splits)
next
  case (dequeue rid s ev)
  then have "int (length (remove1 rid (wk_queueSem s))) = int (length (wk_queueSem s)) - 1" by (simp add: remove1_int)
  with dequeue assms(2) show ?thesis by (auto simp: slots_inv_def queue_acquire_def leave_queue_def)
next
  case (timeout rid s ev)
  then have "int (length (remove1 rid (wk_queueSem s))) = int (length (wk_queueSem s)) - 1" by (simp add: remove1_int)
  with timeout assms(2) show ?thesis by (auto simp: slots_inv_def cleanup_def leave_queue_def)
next
  case (gone rid s ev)
  then have "int (length (remove1 rid (wk_queueSem s))) = int (length (wk_queueSem s)) - 1" by (simp add: remove1_int)
  with gone assms(2) show ?thesis by (auto simp: slots_inv_def cleanup_def leave_queue_def)
next
  case (run rid s ev)
  then show ?thesis using assms(2) by (auto simp: slots_inv_def run_begin_def)
next
  case (finish rid s ev)
  then have "int (length (remove1 rid (wk_active s))) = int (length (wk_active s)) - 1" by (simp add: remove1_int)
  moreover have "length (remove1 rid (wk_sem s)) \<le> length (wk_sem s)" by (simp add: length_remove1)
  ultimately show ?thesis using finish assms(2)
    by (auto simp: slots_inv_def run_end_def cleanup_def Let_def dest: notin_set_remove1)
next
  case (ask rid s q ch s' ev)
  then show ?thesis using assms(2) by (auto simp: slots_inv_def RegisterWorkerQuery_def Let_def)
next
  case (reply s body r s' ev)
  then show ?thesis using assms(2) reply_keeps_slots[of s body] by simp
next
  case (answer s ev ch)
  then show ?thesis using assms(2) by (auto simp: slots_inv_def take_answer_def)
qed

lemma queries_inv_cong:
  "queries_inv s \<Longrightarrow> wk_chans s' = wk_chans s \<Longrightarrow> wk_nextChan s' = wk_nextChan s \<Longrightarrow>
    (\<And>q ch. wk_queries s' q = Some ch \<Longrightarrow> wk_queries s q = Some ch) \<Longrightarrow> queries_inv s'"
  unfolding queries_inv_def by metis

lemma queries_inv_RegisterWorkerQuery:
  assumes "queries_inv s"
  shows "queries_inv (snd (RegisterWorkerQuery s rid q))"
  using assms unfolding queries_inv_def RegisterWorkerQuery_def Let_def
  by (auto simp: less_Suc_eq split: if_splits)

lemma queries_inv_reply:
  assumes "queries_inv s"
  shows "queries_inv (snd (handleWorkerReply s body)) \<and> fst (handleWorkerReply s body) \<noteq> ChannelUnavailable"
  using assms unfolding queries_inv_def handleWorkerReply_def Let_def
  by (auto split: option.splits if_splits)

lemma reply_outcome:
  assumes "queries_inv s"
  shows "q \<noteq> [] \<longrightarrow> fst (handleWorkerReply s (Some (q, a))) = (if q \<in> dom (wk_queries s) then ReplyDelivered else QueryUnknown)"
proof (cases "wk_queries s q")
  case (Some ch)
  then have "wk_chans s ch = []" using assms by (simp add: queries_inv_def)
  with Some show ?thesis by (simp add: handleWorkerReply_def Let_def dom_def)
qed (simp add: handleWorkerReply_def dom_def)

lemma queries_inv_step:
  assumes "worker_step x y" "queries_inv (fst x)"
  shows "queries_inv (fst y)"
  using assms(1)
proof (cases rule: worker_step.cases)
  case (ask rid s q ch s' ev)
  then show ?thesis using assms(2) queries_inv_RegisterWorkerQuery[of s rid q] by simp
next
  case (reply s body r s' ev)
  then show ?thesis using assms(2) queries_inv_reply[of s body] by simp
next
  case (answer s ev ch)
  then show ?thesis using assms(2) by (auto simp: queries_inv_def take_answer_def)
qed (use assms(2) in \<open>auto intro: queries_inv_cong simp: worker_moves split: if_splits\<close>)

lemma config_step: "worker_step x y \<Longrightarrow> wk_config (fst y) = wk_config (fst x)"
  by (erule worker_step.cases) (auto simp: worker_moves split: if_splits option.splits)

lemma config_reach: "worker_step\<^sup>*\<^sup>* x y \<Longrightarrow> wk_config (fst y) = wk_config (fst x)"
  by (induction rule: rtranclp_induct) (auto dest: config_step)

lemma NewWorkerServer_bounds:
  "0 < wo_Concurrency (wk_config (NewWorkerServer cfg)) \<and> 0 < wo_QueueSize (wk_config (NewWorkerServer cfg))"
  by (auto simp: NewWorkerServer_def Let_def)

lemma worker_inv_init: "slots_inv (NewWorkerServer cfg) \<and> queries_inv (NewWorkerServer cfg)"
  using NewWorkerServer_bounds[of cfg]
  by (auto simp: NewWorkerServer_def Let_def slots_inv_def queries_inv_def)

lemma worker_inv_reach:
  assumes "worker_step\<^sup>*\<^sup>* (NewWorkerServer cfg, []) (s, ev)"
  shows "slots_inv s \<and> queries_inv s"
proof -
  have "slots_inv (fst y) \<and> queries_inv (fst y)" if "worker_step\<^sup>*\<^sup>* (NewWorkerServer cfg, []) y" for y
    using that
  proof induction
    case base
    then show ?case using worker_inv_init by simp
  next
    case (step y z)
    then show ?case using slots_inv_step[OF step(2)] queries_inv_step[OF step(2)] by simp
  qed
  from this[OF assms] show ?thesis by simp
qed

lemma execute_admit_full:
  "slots_inv s \<Longrightarrow> fst (execute_admit s rid) = NodeFull \<longleftrightarrow>
     int (length (wk_sem s)) = wo_Concurrency (wk_config s) \<and> wk_queuedTasks s = wo_QueueSize (wk_config s)"
  by (auto simp: execute_admit_def slots_inv_def)


definition sample_worker :: WorkerConfig where
  "sample_worker = \<lparr>wo_Concurrency = 1, wo_QueueSize = 0, wo_QueueTimeout = 0, wo_BearerTokens = []\<rparr>"

abbreviation busy_worker :: WorkerServer where
  "busy_worker \<equiv> run_begin (snd (execute_admit (NewWorkerServer sample_worker) 1)) 1"

abbreviation full_worker :: WorkerServer where
  "full_worker \<equiv> snd (execute_admit busy_worker 2)"

lemmas worker_run =
  sample_worker_def NewWorkerServer_def run_begin_def execute_admit_def Let_def


text \<open>
  The queries of all requests share one map: when a request ends, its deferred \<open>cleanup\<close> removes the ids it registered,
  also where another running request has registered the same id since.
\<close>

lemma cleanup_drops_shared_id:
  assumes "q \<noteq> []"
  shows "fst (handleWorkerReply (run_end (snd (RegisterWorkerQuery (snd (RegisterWorkerQuery s 1 q)) 2 q)) 1) (Some (q, a))) = QueryUnknown"
  using assms by (simp add: RegisterWorkerQuery_def run_end_def cleanup_def handleWorkerReply_def Let_def)

end
