(* ===== verification/Remote_Runner.thy ===== *)
theory Remote_Runner
  imports Sse Worker
begin

text \<open>
  Running a task on another node (\<open>pkg/server/runner/remote.go\<close>): the request, the loop that reads the event stream of the
  worker, and the replies to its queries. A stream is the text that arrived and the way it ended. What the HTTP client
  returns, \<open>json\<close>, and the typed payload of an event (\<open>decode\<close>) are parameters. The run writes to an event sink, whose
  contract is the locale \<open>event_sink\<close>; the task of the coordinator and the sink of the worker provide it.
\<close>

section \<open>Event sinks\<close>

locale event_sink =
  fixes emit :: "event_body \<Rightarrow> 's \<Rightarrow> bool \<times> 's"
    and finished :: "'s \<Rightarrow> bool"
    and counter :: "'s \<Rightarrow> int"
  assumes refuses: "finished s \<Longrightarrow> emit b s = (False, s)"
    and counts: "emit b s = (True, s') \<Longrightarrow> counter s' = counter s + 1"
    and grows: "emit b s = (ok, s') \<Longrightarrow> counter s \<le> counter s'"

section \<open>Requests\<close>

record RemoteRunner =
  rr_endpoint :: string
  rr_token :: string

record http_call =
  hc_url :: string
  hc_auth :: "string option"
  hc_body :: string

definition endpoint_call :: "RemoteRunner \<Rightarrow> string \<Rightarrow> string \<Rightarrow> http_call" where
  "endpoint_call r path body =
     \<lparr>hc_url = TrimRight {CHR ''/''} (rr_endpoint r) @ path,
      hc_auth = (if rr_token r \<noteq> [] then Some (''Bearer '' @ rr_token r) else None), hc_body = body\<rparr>"

definition execute_call :: "(TaskRequest \<Rightarrow> string) \<Rightarrow> RemoteRunner \<Rightarrow> TaskRequest \<Rightarrow> http_call" where
  "execute_call marshal r req = endpoint_call r ''/v1/execute'' (marshal req)"

text \<open>What the goroutine of a query does with its answer; \<open>None\<close> stands for a closed channel or a cancelled context.\<close>

definition reply_call :: "(string \<Rightarrow> string \<Rightarrow> string) \<Rightarrow> RemoteRunner \<Rightarrow> string \<Rightarrow> string option \<Rightarrow> http_call option" where
  "reply_call marshal r queryID answer =
     (case answer of
        None \<Rightarrow> None
      | Some a \<Rightarrow> if a = [] then None else Some (endpoint_call r ''/v1/reply'' (marshal queryID a)))"

section \<open>Blocks\<close>

datatype block_end = BlockSkipped | BlockForwarded | BlockTerminal | BlockUnparsed sse_error | BlockRefused

record 's remote_env =
  re_json :: event_json
  re_decode :: "WireEvent \<Rightarrow> event_body"
  re_query :: "WireEvent \<Rightarrow> string option"
  re_emit :: "event_body \<Rightarrow> 's \<Rightarrow> bool \<times> 's"

definition terminal_event :: "WireEvent \<Rightarrow> bool" where
  "terminal_event e \<longleftrightarrow> we_Type e \<in> {''completion'', ''error''}"

text \<open>The queries whose goroutines were started, oldest first, travel with the sink.\<close>

definition forward_event :: "'s remote_env \<Rightarrow> WireEvent \<Rightarrow> 's \<times> string list \<Rightarrow> bool \<times> 's \<times> string list" where
  "forward_event env evt st =
     (case re_emit env (re_decode env evt) (fst st) of
        (False, s) \<Rightarrow> (False, s, snd st)
      | (True, s) \<Rightarrow>
          (True, s, snd st @ (if we_Type evt = ''query''
                              then (case re_query env evt of None \<Rightarrow> [] | Some q \<Rightarrow> if q \<noteq> [] then [q] else []) else [])))"

definition has_content :: "string list \<Rightarrow> bool" where
  "has_content ls \<longleftrightarrow> list_ex (\<lambda>l. TrimSpace l \<noteq> [] \<and> \<not> HasPrefix (TrimSpace l) '':'') ls"

definition processBlock :: "'s remote_env \<Rightarrow> string list \<Rightarrow> 's \<times> string list \<Rightarrow> block_end \<times> 's \<times> string list" where
  "processBlock env ls st =
     (if \<not> has_content ls then (BlockSkipped, st)
      else case ParseSSE (re_json env) (Join ls [lf]) of
             Inl e \<Rightarrow> (BlockUnparsed e, st)
           | Inr evt \<Rightarrow>
               (case forward_event env evt st of
                  (False, st') \<Rightarrow> (BlockRefused, st')
                | (True, st') \<Rightarrow> (if terminal_event evt then BlockTerminal else BlockForwarded, st')))"

section \<open>The stream\<close>

datatype transport_error = DialError | DNSError | OtherTransport

datatype remote_error =
  RunBadRequest | RunTransport transport_error | RunNodeBusy string string | RunStatus int string
  | RunUnparsed sse_error | RunRefused | RunNodeLost | RunRead

datatype stream_end = StreamEOF | StreamReset

text \<open>A run ends with \<open>Some None\<close> (no error) or \<open>Some (Some e)\<close>; \<open>None\<close> goes on reading.\<close>

fun block_result :: "block_end \<Rightarrow> remote_error option option" where
  "block_result BlockTerminal = Some None"
| "block_result (BlockUnparsed e) = Some (Some (RunUnparsed e))"
| "block_result BlockRefused = Some (Some RunRefused)"
| "block_result BlockSkipped = None"
| "block_result BlockForwarded = None"

fun remote_loop ::
  "'s remote_env \<Rightarrow> string list \<Rightarrow> string list \<Rightarrow> bool \<Rightarrow> 's \<times> string list \<Rightarrow>
   remote_error option option \<times> string list \<times> bool \<times> 's \<times> string list" where
  "remote_loop env [] blockLines sawEvent st = (None, blockLines, sawEvent, st)"
| "remote_loop env (l # ls) blockLines sawEvent st =
     (let cleanLine = TrimRight {lf, cr} l in
      if cleanLine \<noteq> [] then remote_loop env ls (blockLines @ [cleanLine]) sawEvent st
      else if blockLines = [] then remote_loop env ls [] sawEvent st
      else case processBlock env blockLines st of (b, st') \<Rightarrow>
             (case block_result b of
                Some r \<Rightarrow> (Some r, blockLines, sawEvent, st')
              | None \<Rightarrow> remote_loop env ls [] (sawEvent \<or> b = BlockForwarded) st'))"

text \<open>The end of the stream: a block in flight is flushed. A connection that is torn down before any event is a read error.\<close>

definition end_stream ::
  "'s remote_env \<Rightarrow> stream_end \<Rightarrow> remote_error option option \<times> string list \<times> bool \<times> 's \<times> string list \<Rightarrow>
   remote_error option \<times> 's \<times> string list" where
  "end_stream env ending x =
     (case x of (r, blockLines, sawEvent, st) \<Rightarrow>
        (case r of
           Some e \<Rightarrow> (e, st)
         | None \<Rightarrow>
             if blockLines = [] then (Some (if ending = StreamEOF \<or> sawEvent then RunNodeLost else RunRead), st)
             else case processBlock env blockLines st of (b, st') \<Rightarrow>
                    (case block_result b of
                       Some e \<Rightarrow> (e, st')
                     | None \<Rightarrow> (Some (if ending = StreamEOF \<or> sawEvent \<or> b = BlockForwarded then RunNodeLost else RunRead), st'))))"

text \<open>An incomplete last line is read at the end of the body, but lost with a torn connection.\<close>

definition read_stream :: "'s remote_env \<Rightarrow> string \<Rightarrow> stream_end \<Rightarrow> 's \<times> string list \<Rightarrow> remote_error option \<times> 's \<times> string list" where
  "read_stream env body ending st =
     (let ls = split_on lf body in
      end_stream env ending (remote_loop env (case ending of StreamEOF \<Rightarrow> ls | StreamReset \<Rightarrow> butlast ls) [] False st))"

section \<open>Runs\<close>

datatype http_do = BadURL | DoFailed transport_error | Responded int string stream_end

definition RemoteRun :: "'s remote_env \<Rightarrow> RemoteRunner \<Rightarrow> http_do \<Rightarrow> 's \<times> string list \<Rightarrow> remote_error option \<times> 's \<times> string list" where
  "RemoteRun env r resp st =
     (case resp of
        BadURL \<Rightarrow> (Some RunBadRequest, st)
      | DoFailed t \<Rightarrow> (Some (RunTransport t), st)
      | Responded code body ending \<Rightarrow>
          if code = 429 then (Some (RunNodeBusy (rr_endpoint r) body), st)
          else if code \<noteq> 200 then (Some (RunStatus code body), st)
          else read_stream env body ending st)"

section \<open>What a stream means\<close>

text \<open>The events in order, up to the first the sink refuses and the first terminal one.\<close>

fun forward_all :: "'s remote_env \<Rightarrow> WireEvent list \<Rightarrow> 's \<times> string list \<Rightarrow> remote_error option option \<times> 's \<times> string list" where
  "forward_all env [] st = (None, st)"
| "forward_all env (e # es) st =
     (case forward_event env e st of
        (False, st') \<Rightarrow> (Some (Some RunRefused), st')
      | (True, st') \<Rightarrow> if terminal_event e then (Some None, st') else forward_all env es st')"

definition stream_text :: "'s remote_env \<Rightarrow> WireEvent list \<Rightarrow> string" where
  "stream_text env es = concat (map (FormatSSE (re_json env)) es)"

abbreviation full_lines :: "'s remote_env \<Rightarrow> WireEvent \<Rightarrow> string list" where
  "full_lines env e \<equiv> [id_line e, type_line e, data_line (re_json env) e]"

lemma TrimSpace_Cons: "\<not> is_space c \<Longrightarrow> \<exists>t. TrimSpace (c # s) = c # t"
  by (rule exI[of _ "rev (dropWhile is_space (rev s))"]) (simp add: TrimSpace_def dropWhile_append dropWhile_eq_Nil_conv)

lemma id_piece_content:
  assumes "p \<noteq> []" "prefix p (id_line e)"
  shows "has_content (p # ls)"
proof -
  obtain t where "p = CHR ''i'' # t" using assms by (cases p) (auto simp: id_line_def)
  moreover obtain u where "TrimSpace (CHR ''i'' # t) = CHR ''i'' # u"
    using TrimSpace_Cons[of "CHR ''i''" t] by (auto simp: is_space_def)
  ultimately show ?thesis by (simp add: has_content_def HasPrefix_def)
qed

lemma process_full:
  assumes "wire_ok (re_json env) e"
  shows "processBlock env (full_lines env e) st =
    (case forward_event env e st of (False, st') \<Rightarrow> (BlockRefused, st')
     | (True, st') \<Rightarrow> (if terminal_event e then BlockTerminal else BlockForwarded, st'))"
proof -
  have "has_content (full_lines env e)" by (rule id_piece_content[of _ e]) (simp_all add: id_line_def)
  then show ?thesis using sse_event_roundtrip[OF assms] by (simp add: processBlock_def)
qed

lemma process_cut:
  assumes "wire_ok (re_json env) e" "cut_lines (re_json env) e ls"
  shows "\<exists>err. processBlock env ls st = (BlockUnparsed err, st)"
proof -
  obtain p ps where "ls = p # ps" "p \<noteq> []" "prefix p (id_line e)"
    using assms(2) by (auto simp: cut_lines_def id_line_def)
  then have "has_content ls" using id_piece_content by simp
  then show ?thesis using cut_event_unparsed[OF assms] by (auto simp: processBlock_def)
qed

lemma loop_gather:
  "list_all (\<lambda>l. one_line l \<and> l \<noteq> []) ls \<Longrightarrow> remote_loop env (ls @ rest) blk saw st = remote_loop env rest (blk @ ls) saw st"
  by (induction ls arbitrary: blk) auto

lemma full_lines_clean: "wire_ok (re_json env) e \<Longrightarrow> list_all (\<lambda>l. one_line l \<and> l \<noteq> []) (full_lines env e)"
  using event_lines by (simp add: id_line_def type_line_def data_line_def)

lemma loop_event:
  assumes "wire_ok (re_json env) e"
  shows "remote_loop env (full_lines env e @ [] # rest) [] saw st =
    (case forward_event env e st of
       (False, st') \<Rightarrow> (Some (Some RunRefused), full_lines env e, saw, st')
     | (True, st') \<Rightarrow> if terminal_event e then (Some None, full_lines env e, saw, st') else remote_loop env rest [] True st')"
proof -
  have "remote_loop env (full_lines env e @ [] # rest) [] saw st = remote_loop env ([] # rest) (full_lines env e) saw st"
    using loop_gather[OF full_lines_clean[OF assms], of env "[] # rest" "[]"] by simp
  moreover obtain a st' where "forward_event env e st = (a, st')" by (rule prod.exhaust)
  ultimately show ?thesis by (cases a) (simp_all add: process_full[OF assms] TrimRight_def)
qed

lemma stream_lines:
  assumes "wire_ok (re_json env) e"
  shows "split_on lf (FormatSSE (re_json env) e @ rest) = full_lines env e @ [] # split_on lf rest"
proof -
  have "lf \<notin> set l" if "l \<in> set (full_lines env e)" for l using event_lines[OF assms] that by (auto simp: one_line_def)
  then show ?thesis by (simp add: FormatSSE_lines[OF assms] split_on_append_delim split_on_single)
qed

section \<open>The end of a cut stream\<close>

text \<open>What arrived of the last event: nothing, a part that is no event, or all but the end of the block.\<close>

lemma prefix_line: "prefix q (a @ c # b) \<Longrightarrow> prefix q a \<or> (\<exists>p. q = a @ c # p \<and> prefix p b)"
  by (auto simp: prefix_append prefix_Cons)

lemma tail_lines:
  assumes ok: "wire_ok (re_json env) e" and q: "strict_prefix q (FormatSSE (re_json env) e)"
  obtains ls where "ls = [] \<or> cut_lines (re_json env) e ls \<or> ls = full_lines env e"
    "split_on lf q = ls @ [[]] \<or> (ls \<noteq> [] \<and> split_on lf q = ls)"
    "ls = full_lines env e \<Longrightarrow> length (FormatSSE (re_json env) e) \<le> length q + 2"
    "list_all (\<lambda>l. one_line l \<and> l \<noteq> []) ls"
proof -
  let ?i = "id_line e" and ?t = "type_line e" and ?d = "data_line (re_json env) e"
  note el = event_lines[OF ok]
  have ne: "?i \<noteq> []" "?t \<noteq> []" "?d \<noteq> []" by (simp_all add: id_line_def type_line_def data_line_def)
  have lfs: "lf \<notin> set ?i" "lf \<notin> set ?t" "lf \<notin> set ?d" using el by (simp_all add: one_line_def)
  have whole: "FormatSSE (re_json env) e = ?i @ [lf] @ ?t @ [lf] @ ?d @ [lf] @ [lf]" by (rule FormatSSE_lines[OF ok])
  have pre: "prefix q (?i @ lf # ?t @ lf # ?d @ lf # [lf])" "q \<noteq> ?i @ lf # ?t @ lf # ?d @ lf # [lf]"
    using q by (simp_all add: whole strict_prefix_def)
  consider "prefix q ?i"
    | p where "q = ?i @ lf # p" "prefix p ?t"
    | p where "q = ?i @ lf # ?t @ lf # p" "prefix p ?d"
    | "q = ?i @ lf # ?t @ lf # ?d @ [lf]"
  proof -
    from prefix_line[OF pre(1)] consider "prefix q ?i" | p where "q = ?i @ lf # p" "prefix p (?t @ lf # ?d @ lf # [lf])" by blast
    then show thesis
    proof cases
      case (2 p)
      from prefix_line[OF 2(2)] consider "prefix p ?t" | r where "p = ?t @ lf # r" "prefix r (?d @ lf # [lf])" by blast
      then show thesis
      proof cases
        case (2 r)
        from prefix_line[OF 2(2)] consider "prefix r ?d" | u where "r = ?d @ lf # u" "prefix u [lf]" by blast
        then show thesis
        proof cases
          case (2 u)
          then have "u = []" using pre(2) \<open>q = _\<close> \<open>p = _\<close> by (auto simp: prefix_Cons)
          then show thesis using that(4) 2(1) \<open>q = _\<close> \<open>p = _\<close> by simp
        qed (use that(3) \<open>q = _\<close> \<open>p = _\<close> in simp)
      qed (use that(2) \<open>q = _\<close> in simp)
    qed (use that(1) in simp)
  qed
  then show thesis
  proof cases
    case 1
    then have q: "one_line q" by (rule one_line_prefix[OF el(1)])
    then have s: "split_on lf q = [q]" by (simp add: one_line_def split_on_single)
    show thesis
    proof (cases "q = []")
      case True
      then show thesis using that[of "[]"] s by simp
    next
      case False
      then have "cut_lines (re_json env) e [q]" using 1 by (simp add: cut_lines_def)
      then show thesis using that[of "[q]"] s q False by simp
    qed
  next
    case (2 p)
    have "one_line p" by (rule one_line_prefix[OF el(2) 2(2)])
    then have p: "one_line p" "lf \<notin> set p" by (simp_all add: one_line_def)
    then have "split_on lf q = [?i, p]" using lfs by (simp add: 2(1) split_on_append_delim split_on_single)
    moreover have "cut_lines (re_json env) e (if p = [] then [?i] else [?i, p])"
      using 2(2) ne by (auto simp: cut_lines_def)
    ultimately show thesis using that[of "[?i]"] that[of "[?i, p]"] p el ne by (cases "p = []") simp_all
  next
    case (3 p)
    have "one_line p" by (rule one_line_prefix[OF el(3) 3(2)])
    then have p: "one_line p" "lf \<notin> set p" by (simp_all add: one_line_def)
    have s: "split_on lf q = [?i, ?t, p]" using lfs p by (simp add: 3(1) split_on_append_delim split_on_single)
    consider "p = []" | "p \<noteq> []" "strict_prefix p ?d" | "p = ?d" using 3(2) by (auto simp: strict_prefix_def)
    then show thesis
    proof cases
      case 1
      have "cut_lines (re_json env) e [?i, ?t]" using ne by (auto simp: cut_lines_def)
      then show thesis using that[of "[?i, ?t]"] s 1 el ne by auto
    next
      case 2
      then have "cut_lines (re_json env) e [?i, ?t, p]" by (auto simp: cut_lines_def)
      then show thesis using that[of "[?i, ?t, p]"] s 2 el ne p by auto
    next
      case 3
      then show thesis using that[of "[?i, ?t, p]"] s el ne \<open>q = _\<close> by (auto simp: whole)
    qed
  next
    case 4
    then have "split_on lf q = [?i, ?t, ?d, []]" using lfs by (simp add: split_on_append_delim split_on_single)
    then show thesis using that[of "[?i, ?t, ?d]"] el ne 4 by (auto simp: whole)
  qed
qed

definition ended_by :: "'s remote_env \<Rightarrow> WireEvent list \<Rightarrow> 's \<times> string list \<Rightarrow> remote_error option \<times> 's \<times> string list \<Rightarrow> bool" where
  "ended_by env es st out \<longleftrightarrow>
     (case forward_all env es st of
        (Some r, st') \<Rightarrow> out = (r, st')
      | (None, st') \<Rightarrow> \<exists>err. out = (Some err, st') \<and> (err = RunNodeLost \<or> err = RunRead \<or> (\<exists>x. err = RunUnparsed x)))"

lemma end_tail:
  assumes ok: "wire_ok (re_json env) e" and ls: "ls = [] \<or> cut_lines (re_json env) e ls \<or> ls = full_lines env e"
    and clean: "list_all (\<lambda>l. one_line l \<and> l \<noteq> []) ls" and t: "t = ls \<or> t = ls @ [[]]"
  shows "ended_by env (if ls = full_lines env e then [e] else []) st (end_stream env ending (remote_loop env t [] saw st))"
proof -
  have loop: "remote_loop env t [] saw st = (if t = ls then (None, ls, saw, st) else remote_loop env [[]] ls saw st)"
  proof (cases "t = ls")
    case True
    then show ?thesis using loop_gather[OF clean, of env "[]" "[]" saw st] by simp
  next
    case False
    then have "t = ls @ [[]]" using t by simp
    moreover have "remote_loop env (ls @ [[]]) [] saw st = remote_loop env [[]] ls saw st"
      using loop_gather[OF clean, of env "[[]]" "[]" saw st] by (simp only: append_Nil)
    ultimately show ?thesis using False by (simp only: if_False)
  qed
  consider "ls = []" | "ls \<noteq> []" "cut_lines (re_json env) e ls" "ls \<noteq> full_lines env e" | "ls = full_lines env e"
    using ls by blast
  then show ?thesis
  proof cases
    case 1
    then show ?thesis using t by (auto simp: ended_by_def end_stream_def TrimRight_def)
  next
    case 2
    then obtain err where "processBlock env ls st = (BlockUnparsed err, st)" using process_cut[OF ok] by blast
    with 2 show ?thesis unfolding loop by (simp add: ended_by_def end_stream_def TrimRight_def)
  next
    case 3
    then show ?thesis unfolding loop using process_full[OF ok, of st]
      by (auto simp: ended_by_def end_stream_def TrimRight_def split: prod.splits bool.splits)
  qed
qed

lemma butlast_tail:
  assumes "cut_lines (re_json env) e ls \<or> ls = full_lines env e"
  shows "butlast ls = [] \<or> cut_lines (re_json env) e (butlast ls)" "butlast ls \<noteq> full_lines env e"
proof -
  have "id_line e \<noteq> []" "type_line e \<noteq> []" by (simp_all add: id_line_def type_line_def)
  then show "butlast ls = [] \<or> cut_lines (re_json env) e (butlast ls)" "butlast ls \<noteq> full_lines env e"
    using assms by (auto simp: cut_lines_def)
qed

definition arrived :: "stream_end \<Rightarrow> string \<Rightarrow> string list" where
  "arrived ending body = (case ending of StreamEOF \<Rightarrow> split_on lf body | StreamReset \<Rightarrow> butlast (split_on lf body))"

lemma arrived_event:
  "wire_ok (re_json env) e \<Longrightarrow> arrived ending (FormatSSE (re_json env) e @ rest) = full_lines env e @ [] # arrived ending rest"
  by (simp add: arrived_def stream_lines butlast_append split: stream_end.split)

lemma cut_in_event:
  assumes ok: "wire_ok (re_json env) e" and q: "strict_prefix q (FormatSSE (re_json env) e)"
  shows "\<exists>k \<le> 1. (k = 1 \<longrightarrow> length (FormatSSE (re_json env) e) \<le> length q + 2) \<and>
    ended_by env (take k [e]) st (end_stream env ending (remote_loop env (arrived ending q) [] saw st))"
proof -
  obtain ls where ls: "ls = [] \<or> cut_lines (re_json env) e ls \<or> ls = full_lines env e"
    "split_on lf q = ls @ [[]] \<or> (ls \<noteq> [] \<and> split_on lf q = ls)"
    "ls = full_lines env e \<Longrightarrow> length (FormatSSE (re_json env) e) \<le> length q + 2"
    "list_all (\<lambda>l. one_line l \<and> l \<noteq> []) ls"
    using tail_lines[OF ok q] by blast
  show ?thesis
  proof (cases "ending = StreamReset \<and> ls \<noteq> [] \<and> split_on lf q = ls")
    case True
    then have "arrived ending q = butlast ls" by (simp add: arrived_def)
    moreover have "list_all (\<lambda>l. one_line l \<and> l \<noteq> []) (butlast ls)" using ls(4) by (auto simp: list_all_iff dest: in_set_butlastD)
    ultimately have "ended_by env [] st (end_stream env ending (remote_loop env (arrived ending q) [] saw st))"
      using end_tail[OF ok, of "butlast ls" "butlast ls" st ending saw] butlast_tail[of env e ls] True ls(1) by auto
    then show ?thesis by (intro exI[of _ 0]) simp
  next
    case False
    then have "arrived ending q = ls \<or> arrived ending q = ls @ [[]]"
      using ls(2) by (cases ending) (auto simp: arrived_def)
    from end_tail[OF ok ls(1,4) this, of st ending saw] show ?thesis
      using ls(3) by (intro exI[of _ "if ls = full_lines env e then 1 else 0"]) (auto split: if_splits)
  qed
qed

lemma stream_text_simps [simp]:
  "stream_text env [] = []" "stream_text env (e # es) = FormatSSE (re_json env) e @ stream_text env es"
  by (simp_all add: stream_text_def)

lemma stream_cut:
  assumes "list_all (wire_ok (re_json env)) ws" "prefix body (stream_text env ws)"
  shows "\<exists>k \<le> length ws. length (stream_text env (take k ws)) \<le> length body + 2 \<and>
    (k < length ws \<longrightarrow> length body < length (stream_text env (take (Suc k) ws))) \<and>
    ended_by env (take k ws) st (end_stream env ending (remote_loop env (arrived ending body) [] saw st))"
  using assms
proof (induction ws arbitrary: body st saw)
  case Nil
  then show ?case by (auto simp: arrived_def ended_by_def end_stream_def TrimRight_def split: stream_end.split)
next
  case (Cons e ws)
  then have ok: "wire_ok (re_json env) e" and oks: "list_all (wire_ok (re_json env)) ws" by simp_all
  consider rest where "body = FormatSSE (re_json env) e @ rest" "prefix rest (stream_text env ws)"
    | "strict_prefix body (FormatSSE (re_json env) e)"
    using Cons.prems(2) by (cases "body = FormatSSE (re_json env) e") (auto simp: prefix_append strict_prefix_def)
  then show ?case
  proof cases
    case (1 rest)
    have IH: "\<exists>k \<le> length ws. length (stream_text env (take k ws)) \<le> length rest + 2 \<and>
        (k < length ws \<longrightarrow> length rest < length (stream_text env (take (Suc k) ws))) \<and>
        ended_by env (take k ws) st' (end_stream env ending (remote_loop env (arrived ending rest) [] True st'))" for st'
      by (rule Cons.IH[OF oks 1(2)])
    obtain a st' where f: "forward_event env e st = (a, st')" by (rule prod.exhaust)
    obtain k where k: "k \<le> length ws" "length (stream_text env (take k ws)) \<le> length rest + 2"
        "k < length ws \<longrightarrow> length rest < length (stream_text env (take (Suc k) ws))"
        "ended_by env (take k ws) st' (end_stream env ending (remote_loop env (arrived ending rest) [] True st'))"
      using IH[of st'] by blast
    have "ended_by env (e # take k ws) st (end_stream env ending (remote_loop env (arrived ending body) [] saw st))"
      using k(4) unfolding 1(1) arrived_event[OF ok] loop_event[OF ok]
      by (cases a) (simp_all add: f ended_by_def end_stream_def)
    then show ?thesis using k(1-3) 1(1) by (intro exI[of _ "Suc k"]) auto
  next
    case 2
    from cut_in_event[OF ok 2, of st ending saw] obtain k where k: "k \<le> 1" "k = 1 \<longrightarrow> length (FormatSSE (re_json env) e) \<le> length body + 2"
      "ended_by env (take k [e]) st (end_stream env ending (remote_loop env (arrived ending body) [] saw st))" by blast
    have len: "length body < length (FormatSSE (re_json env) e)" using 2 by (rule prefix_length_less)
    from k(1) consider "k = 0" | "k = 1" by linarith
    then show ?thesis
    proof cases
      case 1
      then show ?thesis using k len by (intro exI[of _ 0]) simp
    next
      case 2
      then show ?thesis using k len by (intro exI[of _ 1]) simp
    qed
  qed
qed


section \<open>Runs and sinks\<close>

context event_sink
begin

lemma forward_refused: "re_emit env = emit \<Longrightarrow> finished (fst st) \<Longrightarrow> forward_event env e st = (False, st)"
  using refuses by (cases st) (simp add: forward_event_def)

lemma block_refused:
  assumes "re_emit env = emit" "finished (fst st)"
  shows "snd (processBlock env ls st) = st \<and> fst (processBlock env ls st) \<notin> {BlockForwarded, BlockTerminal}"
  using forward_refused[OF assms] by (simp add: processBlock_def split: sum.split)

lemma loop_refused:
  assumes "re_emit env = emit" "finished (fst st)"
  shows "\<exists>r blk saw'. remote_loop env ls blk0 saw st = (r, blk, saw', st) \<and> r \<noteq> Some None"
proof (induction ls arbitrary: blk0 saw)
  case (Cons l ls)
  obtain b where b: "processBlock env blk0 st = (b, st)" "b \<noteq> BlockForwarded" "b \<noteq> BlockTerminal"
    using block_refused[OF assms, of blk0] by (cases "processBlock env blk0 st") auto
  then show ?case using Cons.IH by (cases b) (simp_all add: Let_def)
qed simp

text \<open>A late stream does not touch a sink that is finished, and is no success.\<close>

lemma run_refused:
  assumes "re_emit env = emit" "finished (fst st)"
  shows "snd (RemoteRun env r resp st) = st \<and> fst (RemoteRun env r resp st) \<noteq> None"
proof (cases resp)
  case (Responded code body ending)
  obtain x blk saw where l: "remote_loop env (arrived ending body) [] False st = (x, blk, saw, st)" "x \<noteq> Some None"
    using loop_refused[OF assms] by blast
  obtain b where b: "processBlock env blk st = (b, st)" "b \<noteq> BlockForwarded" "b \<noteq> BlockTerminal"
    using block_refused[OF assms, of blk] by (cases "processBlock env blk st") auto
  have "read_stream env body ending st = end_stream env ending (x, blk, saw, st)"
    using l(1) by (simp add: read_stream_def arrived_def Let_def)
  then show ?thesis using l(2) b by (cases b) (auto simp: Responded RemoteRun_def end_stream_def split: option.split)
qed (simp_all add: RemoteRun_def)

lemma forward_counts:
  assumes "re_emit env = emit" "forward_event env e st = (ok, st')"
  shows "counter (fst st) \<le> counter (fst st') \<and> (ok \<longrightarrow> counter (fst st) < counter (fst st'))"
proof -
  obtain a s where e: "emit (re_decode env e) (fst st) = (a, s)" by (rule prod.exhaust)
  then show ?thesis
    using assms grows[OF e] counts[of "re_decode env e" "fst st" s] by (cases a) (auto simp: forward_event_def)
qed

lemma forward_all_counts:
  assumes "re_emit env = emit"
  shows "forward_all env es st = (r, st') \<Longrightarrow> counter (fst st) \<le> counter (fst st') \<and> (r = Some None \<longrightarrow> counter (fst st) < counter (fst st'))"
proof (induction es arbitrary: st)
  case (Cons e es)
  obtain a st1 where f: "forward_event env e st = (a, st1)" by (rule prod.exhaust)
  show ?case using Cons.prems Cons.IH[of st1] forward_counts[OF assms f] by (cases a) (fastforce simp: f split: if_splits)+
qed simp

end

definition task_emit :: "write_outcome \<Rightarrow> int \<Rightarrow> event_body \<Rightarrow> ManagedTask \<Rightarrow> bool \<times> ManagedTask" where
  "task_emit w now b t = (case EmitEvent w now t b of (Inl _, t', _) \<Rightarrow> (False, t') | (Inr _, t', _) \<Rightarrow> (True, t'))"

lemma EmitEvent_seq:
  assumes "EmitEvent w now t b = (r, t', n)"
  shows "t_eventSeq t \<le> t_eventSeq t' \<and> (\<forall>e. r = Inr e \<longrightarrow> t_eventSeq t' = t_eventSeq t + 1)"
proof (cases "isTerminalLocked t")
  case True
  then show ?thesis using assms by (auto simp: EmitEvent_def)
next
  case False
  let ?t1 = "(bump_seq t)\<lparr>t_LastActivityAt := unix now\<rparr>"
  show ?thesis
  proof (cases "apply_body now b ?t1")
    case None
    then show ?thesis using assms False by (auto simp: EmitEvent_def Let_def bump_seq_def)
  next
    case (Some x)
    then obtain t2 m where x: "apply_body now b ?t1 = Some (t2, m)" by (cases x) auto
    have "t_eventSeq t2 = t_eventSeq t + 1"
      using bookkeeping_apply_body[OF x] by (simp add: bookkeeping_def bump_seq_def)
    moreover obtain o' t3 where p: "publish w (next_event now b t) t2 = (o', t3)" by (rule prod.exhaust)
    moreover have "t_eventSeq t3 = t_eventSeq t2" using publish_fields(2)[of w "next_event now b t" t2] p by simp
    ultimately show ?thesis using assms False x by (cases o') (auto simp: EmitEvent_def Let_def)
  qed
qed

interpretation task_sink: event_sink "task_emit w now" isTerminalLocked t_eventSeq for w now
proof
  fix t t' :: ManagedTask and b ok
  show "isTerminalLocked t \<Longrightarrow> task_emit w now b t = (False, t)" by (simp add: task_emit_def EmitEvent_def)
  obtain r u n where e: "EmitEvent w now t b = (r, u, n)" by (rule prod_cases3)
  show "task_emit w now b t = (True, t') \<Longrightarrow> t_eventSeq t' = t_eventSeq t + 1"
    using EmitEvent_seq[OF e] by (auto simp: task_emit_def e split: sum.splits)
  show "task_emit w now b t = (ok, t') \<Longrightarrow> t_eventSeq t \<le> t_eventSeq t'"
    using EmitEvent_seq[OF e] by (auto simp: task_emit_def e split: sum.splits)
qed

interpretation worker_sink: event_sink "\<lambda>b k. sink_emit gone written now k b" "\<lambda>_. gone" wsk_seq for gone written now
  by unfold_locales (auto simp: sink_emit_def Let_def split: if_splits)

text \<open>
  C0. A task that has ended is not changed by a stream that is still read for it, and that run is no success.
\<close>

theorem late_stream_ignored:
  assumes "re_emit env = task_emit w now" "isTerminalLocked t"
  shows "snd (RemoteRun env r resp (t, asked)) = (t, asked) \<and> fst (RemoteRun env r resp (t, asked)) \<noteq> None"
  using task_sink.run_refused[OF assms(1), of "(t, asked)" r resp] assms(2) by simp

section \<open>Samples\<close>

definition sample_remote_env :: "(event_body \<Rightarrow> 's \<Rightarrow> bool \<times> 's) \<Rightarrow> 's remote_env" where
  "sample_remote_env em =
     \<lparr>re_json = sample_event_json,
      re_decode = (\<lambda>e. if we_Type e = ''status'' then EventStatus (Some \<lparr>sp_Status = TaskStatusRunning, sp_Message = []\<rparr>)
                       else EventCompletion (Some \<lparr>cp_Result = ''ok'', cp_Text = ''ok'', cp_CommitHash = [], cp_Branch = [],
                              cp_FilesChanged = [], cp_DurationMs = 0, cp_ExecutedLocally = False\<rparr>)),
      re_query = (\<lambda>_. None), re_emit = em\<rparr>"

abbreviation sample_remote :: "nat remote_env" where
  "sample_remote \<equiv> sample_remote_env (\<lambda>b n. (True, Suc n))"

abbreviation sample_stream :: "WireEvent list" where
  "sample_stream \<equiv> [sample_wire ''status'', sample_wire ''completion'']"

definition sample_node_runner :: RemoteRunner where
  "sample_node_runner = \<lparr>rr_endpoint = ''https://h'', rr_token = []\<rparr>"

lemma sample_forwarded: "fst (forward_all sample_remote sample_stream (0, [])) = Some None"
  by (simp add: sample_remote_env_def sample_event_json_def sample_wire_def forward_event_def terminal_event_def)


theorem late_stream_ignored_witness:
  "snd (RemoteRun (sample_remote_env (task_emit WriteOk 0)) sample_node_runner (Responded 200 ''data: {2}'' StreamEOF) (sample_task\<lparr>t_Status := TaskStatusCanceled\<rparr>, [])) =
     (sample_task\<lparr>t_Status := TaskStatusCanceled\<rparr>, [])"
  using late_stream_ignored[of "sample_remote_env (task_emit WriteOk 0)" WriteOk 0 "sample_task\<lparr>t_Status := TaskStatusCanceled\<rparr>"]
  by (simp add: sample_remote_env_def isTerminalLocked_def)

end
