(* ===== verification/Mesh_Runner.thy ===== *)
theory Mesh_Runner
  imports Remote_Runner Node_Registry
begin

text \<open>
  Routing a task to a node of the mesh (\<open>pkg/server/runner/mesh.go\<close>): a node is selected and reserved, the task is run on it,
  and the slot given back; only an attempt that no worker accepted is repeated on another node, and only a task that was
  offered to nobody runs locally. What the network answers to each attempt, the work of other requests on the registry
  meanwhile, and the local runner are arguments.
\<close>

section \<open>Sinks of an attempt\<close>

text \<open>The sink that names the node with its first event; the flag is its \<open>sync.Once\<close>.\<close>

definition attributed_emit ::
  "(string \<Rightarrow> 's \<Rightarrow> 's) \<Rightarrow> string \<Rightarrow> (event_body \<Rightarrow> 's \<Rightarrow> bool \<times> 's) \<Rightarrow> event_body \<Rightarrow> 's \<times> bool \<Rightarrow> bool \<times> 's \<times> bool" where
  "attributed_emit attribute nodeID emit b st =
     (let s = (if snd st \<or> nodeID = [] then fst st else attribute nodeID (fst st)) in
      case emit b s of (ok, s') \<Rightarrow> (ok, s', True))"

text \<open>The sink of the local runner marks its completion.\<close>

fun mark_local :: "event_body \<Rightarrow> event_body" where
  "mark_local (EventCompletion (Some c)) = EventCompletion (Some (c\<lparr>cp_ExecutedLocally := True\<rparr>))"
| "mark_local b = b"

definition local_emit :: "(event_body \<Rightarrow> 's \<Rightarrow> bool \<times> 's) \<Rightarrow> event_body \<Rightarrow> 's \<Rightarrow> bool \<times> 's" where
  "local_emit emit b s = emit (mark_local b) s"

section \<open>Attempts\<close>

record 's MeshRunner =
  mr_selector :: bool
  mr_fallback :: "((event_body \<Rightarrow> 's \<Rightarrow> bool \<times> 's) \<Rightarrow> 's \<Rightarrow> bool \<times> 's) option"
  mr_token :: string
  mr_env :: "'s remote_env"
  mr_attribute :: "string \<Rightarrow> 's \<Rightarrow> 's"

definition NewMeshRunner ::
  "bool \<Rightarrow> ((event_body \<Rightarrow> 's \<Rightarrow> bool \<times> 's) \<Rightarrow> 's \<Rightarrow> bool \<times> 's) option \<Rightarrow> string \<Rightarrow> string \<Rightarrow> 's remote_env \<Rightarrow>
   (string \<Rightarrow> 's \<Rightarrow> 's) \<Rightarrow> 's MeshRunner" where
  "NewMeshRunner selector fallback token dispatchToken env attribute =
     \<lparr>mr_selector = selector, mr_fallback = fallback, mr_token = (if dispatchToken = [] then token else dispatchToken),
      mr_env = env, mr_attribute = attribute\<rparr>"

text \<open>The environment of an attempt: the time of the selection, the answer of a node, and what others do to the registry.\<close>

record dispatch_env =
  ae_now :: int
  ae_answer :: "string \<Rightarrow> http_do"
  ae_others :: "Registry \<Rightarrow> Registry"

record 's mesh_state =
  ms_registry :: Registry
  ms_sink :: 's
  ms_asked :: "string list"
  ms_tried :: "(string \<times> http_do) list"

datatype select_error = SelectFailed registry_error | NoEndpoint | NoSelector

definition selectNodeForAttempt ::
  "(rat \<Rightarrow> rat) \<Rightarrow> int \<Rightarrow> Registry \<Rightarrow> TaskRequest \<Rightarrow> (select_error + NodeInfo) \<times> Registry" where
  "selectNodeForAttempt rnd now r req =
     (case SelectAndReserve rnd now r (rq_Agent req) (rq_Tags req) of
        (Inl e, r') \<Rightarrow> (Inl (SelectFailed e), r')
      | (Inr node, r') \<Rightarrow>
          if ni_Endpoint node = [] then (Inl NoEndpoint, ReleaseNode r' (ni_NodeID node)) else (Inr node, r'))"

text \<open>The run on a node writes to the task through the attributing sink.\<close>

definition attempt_remote :: "'s MeshRunner \<Rightarrow> string \<Rightarrow> ('s \<times> bool) remote_env" where
  "attempt_remote m nodeID =
     \<lparr>re_json = re_json (mr_env m), re_decode = re_decode (mr_env m), re_query = re_query (mr_env m),
      re_emit = attributed_emit (mr_attribute m) nodeID (re_emit (mr_env m))\<rparr>"

definition runOnNode ::
  "'s MeshRunner \<Rightarrow> dispatch_env \<Rightarrow> NodeInfo \<Rightarrow> 's mesh_state \<Rightarrow> remote_error option \<times> 's mesh_state" where
  "runOnNode m a node ms =
     (let resp = ae_answer a (ni_NodeID node) in
      case RemoteRun (attempt_remote m (ni_NodeID node)) \<lparr>rr_endpoint = ni_Endpoint node, rr_token = mr_token m\<rparr> resp
             ((ms_sink ms, False), ms_asked ms) of
           (r, (s, _), asked) \<Rightarrow>
             (r, ms\<lparr>ms_registry := ReleaseNode (ae_others a (ms_registry ms)) (ni_NodeID node), ms_sink := s,
                    ms_asked := asked, ms_tried := ms_tried ms @ [(ni_NodeID node, resp)]\<rparr>))"

definition isPreAcceptanceTransportError :: "remote_error \<Rightarrow> bool" where
  "isPreAcceptanceTransportError e \<longleftrightarrow> e = RunTransport DialError \<or> e = RunTransport DNSError"

fun IsNodeBusyError :: "remote_error \<Rightarrow> bool" where
  "IsNodeBusyError (RunNodeBusy endpoint body) = True"
| "IsNodeBusyError _ = False"

definition meshDispatchAttempts :: nat where
  "meshDispatchAttempts = 3"

text \<open>\<open>Inl\<close> is a dispatch that ran, with or without an error; \<open>Inr\<close> says that no node was ever offered the task.\<close>

fun dispatchToMesh ::
  "(rat \<Rightarrow> rat) \<Rightarrow> 's MeshRunner \<Rightarrow> TaskRequest \<Rightarrow> dispatch_env list \<Rightarrow> remote_error option \<Rightarrow> 's mesh_state \<Rightarrow>
   (remote_error option + select_error) \<times> 's mesh_state" where
  "dispatchToMesh rnd m req [] lastErr ms = (Inl lastErr, ms)"
| "dispatchToMesh rnd m req (a # as) lastErr ms =
     (case selectNodeForAttempt rnd (ae_now a) (ms_registry ms) req of
        (Inl e, r) \<Rightarrow>
          let ms' = ms\<lparr>ms_registry := r\<rparr> in
          (case lastErr of Some e' \<Rightarrow> (Inl (Some e'), ms') | None \<Rightarrow> (Inr e, ms'))
      | (Inr node, r) \<Rightarrow>
          (case runOnNode m a node (ms\<lparr>ms_registry := r\<rparr>) of
             (None, ms1) \<Rightarrow> (Inl None, ms1)
           | (Some e, ms1) \<Rightarrow>
               if IsNodeBusyError e then dispatchToMesh rnd m req as (Some e) ms1
               else if \<not> isPreAcceptanceTransportError e then (Inl (Some e), ms1)
               else dispatchToMesh rnd m req as (Some e)
                      (ms1\<lparr>ms_registry := snd (MarkNodeUnreachable (ms_registry ms1) (ni_NodeID node))\<rparr>)))"

datatype mesh_end = MeshDone | MeshFailed remote_error | MeshLocal bool | MeshNoWorker select_error

definition run_local :: "'s MeshRunner \<Rightarrow> select_error \<Rightarrow> 's mesh_state \<Rightarrow> mesh_end \<times> 's mesh_state" where
  "run_local m err ms =
     (case mr_fallback m of
        None \<Rightarrow> (MeshNoWorker err, ms)
      | Some runner \<Rightarrow>
          (case runner (local_emit (re_emit (mr_env m))) (ms_sink ms) of
             (ok, s) \<Rightarrow> (MeshLocal ok, ms\<lparr>ms_sink := s\<rparr>)))"

definition MeshRun ::
  "(rat \<Rightarrow> rat) \<Rightarrow> 's MeshRunner \<Rightarrow> TaskRequest \<Rightarrow> (nat \<Rightarrow> dispatch_env) \<Rightarrow> 's mesh_state \<Rightarrow> mesh_end \<times> 's mesh_state" where
  "MeshRun rnd m req envs ms =
     (if \<not> mr_selector m then run_local m NoSelector ms
      else case dispatchToMesh rnd m req (map envs [0..<meshDispatchAttempts]) None ms of
             (Inl None, ms') \<Rightarrow> (MeshDone, ms')
           | (Inl (Some e), ms') \<Rightarrow> (MeshFailed e, ms')
           | (Inr err, ms') \<Rightarrow> run_local m err ms')"

section \<open>At most one node\<close>

text \<open>Whether a worker may have started the task: not before the connection stands, and not after a 429.\<close>

fun reached :: "http_do \<Rightarrow> bool" where
  "reached BadURL = False"
| "reached (DoFailed t) = (t = OtherTransport)"
| "reached (Responded code body ending) = (code \<noteq> 429)"

lemma loop_error:
  "remote_loop env ls blk saw st = (Some (Some e), x) \<Longrightarrow> e = RunRefused \<or> (\<exists>u. e = RunUnparsed u)"
proof (induction ls arbitrary: blk saw st)
  case (Cons l ls)
  then show ?case
    by (cases "processBlock env blk st"; cases "fst (processBlock env blk st)") (auto simp: Let_def split: if_splits)
qed simp

lemma stream_error:
  assumes "read_stream env body ending st = (Some e, st')"
  shows "\<not> IsNodeBusyError e \<and> \<not> isPreAcceptanceTransportError e"
proof -
  obtain r blk saw st1 where l: "remote_loop env (arrived ending body) [] False st = (r, blk, saw, st1)" by (rule prod_cases4)
  obtain b st2 where b: "processBlock env blk st1 = (b, st2)" by (rule prod.exhaust)
  have "end_stream env ending (r, blk, saw, st1) = (Some e, st')"
    using assms l by (simp add: read_stream_def arrived_def Let_def)
  then have "e = RunRefused \<or> (\<exists>u. e = RunUnparsed u) \<or> e = RunNodeLost \<or> e = RunRead"
    using loop_error[of env "arrived ending body" "[]" False st e] l b
    by (cases b) (auto simp: end_stream_def split: option.splits if_splits)
  then show ?thesis by (auto simp: isPreAcceptanceTransportError_def)
qed

lemma unreached_run: "\<not> reached h \<Longrightarrow> snd (RemoteRun env r h st) = st \<and> fst (RemoteRun env r h st) \<noteq> None"
  by (cases h) (auto simp: RemoteRun_def)

lemma retried_unreached:
  "RemoteRun env r h st = (Some e, st') \<Longrightarrow> IsNodeBusyError e \<or> isPreAcceptanceTransportError e \<Longrightarrow> \<not> reached h"
proof (cases h)
  case (Responded code body ending)
  then show "RemoteRun env r h st = (Some e, st') \<Longrightarrow> IsNodeBusyError e \<or> isPreAcceptanceTransportError e \<Longrightarrow> \<not> reached h"
    using stream_error[of env body ending st e st']
    by (auto simp: RemoteRun_def isPreAcceptanceTransportError_def simp del: split_paired_All split: if_splits)
qed (auto simp: RemoteRun_def isPreAcceptanceTransportError_def)

lemma selectLocked_inFlight: "rg_inFlight (snd (selectLocked rnd now r agent tags)) = rg_inFlight r"
  by (auto simp: selectLocked_def Let_def split: option.split)

lemma select_slot:
  assumes "\<forall>n. 0 \<le> rg_inFlight r n"
  shows "selectNodeForAttempt rnd now r req = (Inl e, r') \<Longrightarrow> rg_inFlight r' = rg_inFlight r"
    and "selectNodeForAttempt rnd now r req = (Inr node, r') \<Longrightarrow>
      rg_inFlight r' = (rg_inFlight r)(ni_NodeID node := rg_inFlight r (ni_NodeID node) + 1)"
proof -
  obtain x r1 where x: "selectLocked rnd now r (rq_Agent req) (rq_Tags req) = (x, r1)" by (rule prod.exhaust)
  have r1: "rg_inFlight r1 = rg_inFlight r" using selectLocked_inFlight[of rnd now r "rq_Agent req" "rq_Tags req"] x by simp
  have pos: "0 < rg_inFlight r n + 1" for n using assms by (simp add: le_imp_0_less add.commute)
  show "selectNodeForAttempt rnd now r req = (Inl e, r') \<Longrightarrow> rg_inFlight r' = rg_inFlight r"
    using x r1 pos by (cases x) (auto simp: selectNodeForAttempt_def SelectAndReserve_def ReleaseNode_def Let_def split: if_splits)
  show "selectNodeForAttempt rnd now r req = (Inr node, r') \<Longrightarrow>
      rg_inFlight r' = (rg_inFlight r)(ni_NodeID node := rg_inFlight r (ni_NodeID node) + 1)"
    using x r1 by (cases x) (auto simp: selectNodeForAttempt_def SelectAndReserve_def Let_def split: if_splits)
qed

lemma unreachable_inFlight [simp]: "rg_inFlight (snd (MarkNodeUnreachable r n)) = rg_inFlight r"
  by (simp add: MarkNodeUnreachable_def split: option.split)

definition keeps_slots :: "dispatch_env \<Rightarrow> bool" where
  "keeps_slots a \<longleftrightarrow> (\<forall>r. rg_inFlight (ae_others a r) = rg_inFlight r)"

text \<open>The run of one attempt as it counts for the task.\<close>

definition run_of :: "'s MeshRunner \<Rightarrow> 's mesh_state \<Rightarrow> string \<times> http_do \<Rightarrow> remote_error option \<times> 's \<times> string list \<Rightarrow> bool" where
  "run_of m ms try out \<longleftrightarrow>
     (\<exists>rr once. RemoteRun (attempt_remote m (fst try)) rr (snd try) ((ms_sink ms, False), ms_asked ms) =
        (fst out, (fst (snd out), once), snd (snd out)))"

lemma runOnNode_run:
  assumes "runOnNode m a node ms = (r, ms')"
  shows "ms_tried ms' = ms_tried ms @ [(ni_NodeID node, ae_answer a (ni_NodeID node))]"
    "run_of m ms (ni_NodeID node, ae_answer a (ni_NodeID node)) (r, ms_sink ms', ms_asked ms')"
    "ms_registry ms' = ReleaseNode (ae_others a (ms_registry ms)) (ni_NodeID node)"
proof -
  obtain x s once asked where run: "RemoteRun (attempt_remote m (ni_NodeID node)) \<lparr>rr_endpoint = ni_Endpoint node, rr_token = mr_token m\<rparr>
      (ae_answer a (ni_NodeID node)) ((ms_sink ms, False), ms_asked ms) = (x, (s, once), asked)" by (metis prod.exhaust)
  then have out: "r = x" "ms' = ms\<lparr>ms_registry := ReleaseNode (ae_others a (ms_registry ms)) (ni_NodeID node), ms_sink := s,
      ms_asked := asked, ms_tried := ms_tried ms @ [(ni_NodeID node, ae_answer a (ni_NodeID node))]\<rparr>"
    using assms by (simp_all add: runOnNode_def)
  show "run_of m ms (ni_NodeID node, ae_answer a (ni_NodeID node)) (r, ms_sink ms', ms_asked ms')"
    unfolding run_of_def using run by (auto simp: out)
  show "ms_tried ms' = ms_tried ms @ [(ni_NodeID node, ae_answer a (ni_NodeID node))]"
    "ms_registry ms' = ReleaseNode (ae_others a (ms_registry ms)) (ni_NodeID node)" by (simp_all add: out)
qed

definition dispatched ::
  "'s MeshRunner \<Rightarrow> 's mesh_state \<Rightarrow> (string \<times> http_do) list \<Rightarrow> remote_error option \<Rightarrow> 's mesh_state \<Rightarrow> bool" where
  "dispatched m ms new r ms' \<longleftrightarrow>
     new \<noteq> [] \<and> (\<forall>x \<in> set (butlast new). \<not> reached (snd x)) \<and> run_of m ms (last new) (r, ms_sink ms', ms_asked ms')"

lemma unreached_same:
  assumes "run_of m ms try (r, s, asked)" "\<not> reached (snd try)"
  shows "s = ms_sink ms \<and> asked = ms_asked ms \<and> r \<noteq> None"
proof -
  obtain rr once where "RemoteRun (attempt_remote m (fst try)) rr (snd try) ((ms_sink ms, False), ms_asked ms) = (r, (s, once), asked)"
    using assms(1) by (auto simp: run_of_def)
  then show ?thesis using unreached_run[OF assms(2), of "attempt_remote m (fst try)" rr "((ms_sink ms, False), ms_asked ms)"] by auto
qed

lemma retried_same:
  assumes "run_of m ms try (Some e, s, asked)" "IsNodeBusyError e \<or> isPreAcceptanceTransportError e"
  shows "\<not> reached (snd try)"
  using assms retried_unreached by (fastforce simp: run_of_def)

lemma run_of_cong:
  "ms_sink ms' = ms_sink ms \<Longrightarrow> ms_asked ms' = ms_asked ms \<Longrightarrow> run_of m ms' try out = run_of m ms try out"
  by (simp add: run_of_def)

lemma attempt_slots:
  assumes "\<forall>n. 0 \<le> rg_inFlight r n" "keeps_slots a" "selectNodeForAttempt rnd now r req = (Inr node, r1)"
  shows "rg_inFlight (ReleaseNode (ae_others a r1) (ni_NodeID node)) = rg_inFlight r"
proof -
  have "rg_inFlight (ae_others a r1) = (rg_inFlight r)(ni_NodeID node := rg_inFlight r (ni_NodeID node) + 1)"
    using assms(2) select_slot(2)[OF assms(1,3)] by (simp add: keeps_slots_def)
  moreover have "0 < rg_inFlight r (ni_NodeID node) + 1" using assms(1) by (simp add: le_imp_0_less add.commute)
  ultimately show ?thesis by (simp add: ReleaseNode_def)
qed

definition dispatch_goes ::
  "'s MeshRunner \<Rightarrow> 's mesh_state \<Rightarrow> dispatch_env list \<Rightarrow> remote_error option \<Rightarrow> remote_error option + select_error \<Rightarrow>
   's mesh_state \<Rightarrow> bool" where
  "dispatch_goes m ms as lastErr out ms' \<longleftrightarrow>
     rg_inFlight (ms_registry ms') = rg_inFlight (ms_registry ms) \<and>
     (\<exists>new. ms_tried ms' = ms_tried ms @ new \<and> length new \<le> length as \<and>
        (if new = []
         then ms_sink ms' = ms_sink ms \<and> ms_asked ms' = ms_asked ms \<and>
           (out = Inl lastErr \<and> (lastErr = None \<longrightarrow> as = []) \<or> lastErr = None \<and> (\<exists>e. out = Inr e))
         else \<exists>r. out = Inl r \<and> dispatched m ms new r ms'))"

lemma dispatch_retry:
  assumes x: "run_of m ms x (Some e, ms_sink ms2, ms_asked ms2)" "\<not> reached (snd x)"
    and slots: "rg_inFlight (ms_registry ms2) = rg_inFlight (ms_registry ms)" and tried: "ms_tried ms2 = ms_tried ms @ [x]"
    and IH: "dispatch_goes m ms2 as (Some e) out ms'"
  shows "dispatch_goes m ms (a # as) lastErr out ms'"
proof -
  note same = unreached_same[OF x]
  obtain new where new: "ms_tried ms' = ms_tried ms2 @ new" "length new \<le> length as"
    "if new = [] then ms_sink ms' = ms_sink ms2 \<and> ms_asked ms' = ms_asked ms2 \<and> out = Inl (Some e)
     else \<exists>r. out = Inl r \<and> dispatched m ms2 new r ms'"
    using IH by (auto simp: dispatch_goes_def split: if_splits)
  have "\<exists>r. out = Inl r \<and> dispatched m ms (x # new) r ms'"
  proof (cases "new = []")
    case True
    then show ?thesis using new(3) x same by (simp add: dispatched_def)
  next
    case False
    then obtain r where "out = Inl r" "dispatched m ms2 new r ms'" using new(3) by auto
    then show ?thesis using x(2) False run_of_cong[of ms2 ms m] same by (simp add: dispatched_def)
  qed
  moreover have "rg_inFlight (ms_registry ms') = rg_inFlight (ms_registry ms)" using IH slots by (simp add: dispatch_goes_def)
  ultimately show ?thesis
    unfolding dispatch_goes_def using new(1,2) tried by (intro conjI exI[of _ "x # new"]) auto
qed

lemma dispatch_once:
  assumes "list_all keeps_slots as" "\<forall>n. 0 \<le> rg_inFlight (ms_registry ms) n" "dispatchToMesh rnd m req as lastErr ms = (out, ms')"
  shows "dispatch_goes m ms as lastErr out ms'"
  using assms
proof (induction as arbitrary: lastErr ms)
  case Nil
  then show ?case by (auto simp: dispatch_goes_def)
next
  case (Cons a as)
  obtain sel r1 where sel: "selectNodeForAttempt rnd (ae_now a) (ms_registry ms) req = (sel, r1)" by (rule prod.exhaust)
  show ?case
  proof (cases sel)
    case (Inl e)
    then have slots: "rg_inFlight r1 = rg_inFlight (ms_registry ms)" using select_slot(1)[OF Cons.prems(2)] sel by simp
    have "ms' = ms\<lparr>ms_registry := r1\<rparr>" "out = (case lastErr of None \<Rightarrow> Inr e | Some e' \<Rightarrow> Inl (Some e'))"
      using Cons.prems(3) by (simp_all add: sel Inl Let_def split: option.splits)
    then show ?thesis
      unfolding dispatch_goes_def using slots by (intro conjI exI[of _ "[]"]) (simp_all split: option.split)
  next
    case (Inr node)
    let ?x = "(ni_NodeID node, ae_answer a (ni_NodeID node))"
    obtain r ms1 where run: "runOnNode m a node (ms\<lparr>ms_registry := r1\<rparr>) = (r, ms1)" by (rule prod.exhaust)
    note ro = runOnNode_run[OF run]
    have x: "run_of m ms ?x (r, ms_sink ms1, ms_asked ms1)" using ro(2) run_of_cong[of "ms\<lparr>ms_registry := r1\<rparr>" ms m] by simp
    have slots: "rg_inFlight (ms_registry ms1) = rg_inFlight (ms_registry ms)"
      using attempt_slots[OF Cons.prems(2), of a rnd "ae_now a" req node r1] Cons.prems(1) sel Inr ro(3) by simp
    have tried: "ms_tried ms1 = ms_tried ms @ [?x]" using ro(1) by simp
    have stop: "dispatch_goes m ms (a # as) lastErr (Inl r) ms1"
      unfolding dispatch_goes_def dispatched_def using x slots tried by (intro conjI exI[of _ "[?x]"]) auto
    show ?thesis
    proof (cases r)
      case None
      then show ?thesis using Cons.prems(3) sel Inr run stop by simp
    next
      case (Some e)
      show ?thesis
      proof (cases "IsNodeBusyError e \<or> isPreAcceptanceTransportError e")
        case False
        then show ?thesis using Cons.prems(3) sel Inr run stop Some by simp
      next
        case True
        define ms2 where "ms2 = (if IsNodeBusyError e then ms1
          else ms1\<lparr>ms_registry := snd (MarkNodeUnreachable (ms_registry ms1) (ni_NodeID node))\<rparr>)"
        have "dispatchToMesh rnd m req as (Some e) ms2 = (out, ms')"
          using Cons.prems(3) sel Inr run Some True by (auto simp: ms2_def)
        moreover have "rg_inFlight (ms_registry ms2) = rg_inFlight (ms_registry ms)" using slots by (simp add: ms2_def)
        moreover have "ms_tried ms2 = ms_tried ms @ [?x]" "run_of m ms ?x (Some e, ms_sink ms2, ms_asked ms2)"
          using tried x Some by (simp_all add: ms2_def)
        ultimately show ?thesis
          using dispatch_retry[of m ms ?x e ms2 as out ms' a lastErr] Cons.IH[of ms2 "Some e"] Cons.prems(1,2)
            retried_same[of m ms ?x e] True x Some by simp
      qed
    qed
  qed
qed

text \<open>How a run of the mesh runner may end: \<open>new\<close> are the attempts it made.\<close>

definition ran_once :: "'s MeshRunner \<Rightarrow> 's mesh_state \<Rightarrow> mesh_end \<times> 's mesh_state \<Rightarrow> bool" where
  "ran_once m ms res \<longleftrightarrow>
     (\<exists>new. ms_tried (snd res) = ms_tried ms @ new \<and> length new \<le> 3 \<and>
        rg_inFlight (ms_registry (snd res)) = rg_inFlight (ms_registry ms) \<and>
        (case fst res of
           MeshDone \<Rightarrow> dispatched m ms new None (snd res)
         | MeshFailed e \<Rightarrow> dispatched m ms new (Some e) (snd res)
         | MeshLocal ok \<Rightarrow> new = [] \<and> (\<exists>runner. mr_fallback m = Some runner \<and>
             runner (local_emit (re_emit (mr_env m))) (ms_sink ms) = (ok, ms_sink (snd res)))
         | MeshNoWorker e \<Rightarrow> new = [] \<and> mr_fallback m = None \<and> ms_sink (snd res) = ms_sink ms))"

lemma run_local_once:
  assumes "ms_tried ms1 = ms_tried ms" "ms_sink ms1 = ms_sink ms" "rg_inFlight (ms_registry ms1) = rg_inFlight (ms_registry ms)"
  shows "ran_once m ms (run_local m err ms1)"
proof (cases "mr_fallback m")
  case None
  then show ?thesis using assms by (simp add: ran_once_def run_local_def)
next
  case (Some runner)
  obtain ok s where "runner (local_emit (re_emit (mr_env m))) (ms_sink ms) = (ok, s)" by (rule prod.exhaust)
  then show ?thesis using assms Some by (simp add: ran_once_def run_local_def)
qed

text \<open>C28. 
  C0. A task is executed by at most one node: of the at most three attempts all but the last were not accepted by a worker,
  and events, node name and result of the task are those of the last attempt. Only a task that was offered to no node runs
  on the local runner. Every reservation is given back.
\<close>

theorem mesh_runs_once:
  assumes "\<forall>k. keeps_slots (envs k)" "\<forall>n. 0 \<le> rg_inFlight (ms_registry ms) n"
  shows "ran_once m ms (MeshRun rnd m req envs ms)"
proof (cases "mr_selector m")
  case False
  then show ?thesis using run_local_once[of ms ms m NoSelector] by (simp add: MeshRun_def)
next
  case True
  let ?as = "map envs [0..<meshDispatchAttempts]"
  obtain out ms' where d: "dispatchToMesh rnd m req ?as None ms = (out, ms')" by (rule prod.exhaust)
  have ok: "dispatch_goes m ms ?as None out ms'"
    by (rule dispatch_once[OF _ assms(2) d]) (use assms(1) in \<open>simp add: list_all_iff\<close>)
  have len: "?as \<noteq> []" "length ?as = 3" by (simp_all add: meshDispatchAttempts_def)
  from ok obtain new where new: "ms_tried ms' = ms_tried ms @ new" "length new \<le> 3"
    "rg_inFlight (ms_registry ms') = rg_inFlight (ms_registry ms)"
    "if new = [] then ms_sink ms' = ms_sink ms \<and> (\<exists>e. out = Inr e) else \<exists>r. out = Inl r \<and> dispatched m ms new r ms'"
    unfolding dispatch_goes_def len(2) using len(1) by (metis (full_types))
  show ?thesis
  proof (cases "new = []")
    case True
    then obtain e where "out = Inr e" using new(4) by auto
    then show ?thesis using run_local_once[of ms' ms m e] new True d \<open>mr_selector m\<close> by (simp add: MeshRun_def)
  next
    case False
    then obtain r where r: "out = Inl r" "dispatched m ms new r ms'" using new(4) by auto
    then show ?thesis using new d \<open>mr_selector m\<close> by (cases r) (auto simp: MeshRun_def ran_once_def)
  qed
qed

section \<open>Samples\<close>

definition mesh_order :: TaskRequest where
  "mesh_order = sample_request\<lparr>rq_Agent := ''coder'', rq_Tags := [''go'']\<rparr>"

definition sample_mesh_runner :: "nat MeshRunner" where
  "sample_mesh_runner = NewMeshRunner True None [] ''tok'' sample_remote (\<lambda>_ s. s)"

definition sample_attempts :: "http_do \<Rightarrow> http_do \<Rightarrow> nat \<Rightarrow> dispatch_env" where
  "sample_attempts first later k =
     \<lparr>ae_now = 100000000000, ae_answer = (\<lambda>_. if k = 0 then first else later), ae_others = (\<lambda>r. r)\<rparr>"

definition sample_mesh_state :: "Registry \<Rightarrow> nat mesh_state" where
  "sample_mesh_state r = \<lparr>ms_registry = r, ms_sink = 0, ms_asked = [], ms_tried = []\<rparr>"

lemma sample_mesh_failed:
  "fst (MeshRun id sample_mesh_runner mesh_order (sample_attempts (DoFailed DialError) (Responded 500 [] StreamEOF))
     (sample_mesh_state sample_registry)) = MeshFailed (RunStatus 500 []) \<and>
   map fst (ms_tried (snd (MeshRun id sample_mesh_runner mesh_order
     (sample_attempts (DoFailed DialError) (Responded 500 [] StreamEOF)) (sample_mesh_state sample_registry)))) = [''b'', ''c'']"
  by code_simp

theorem mesh_runs_once_witness:
  "ran_once sample_mesh_runner (sample_mesh_state sample_registry)
     (MeshRun id sample_mesh_runner mesh_order (sample_attempts (DoFailed DialError) (Responded 500 [] StreamEOF))
        (sample_mesh_state sample_registry)) \<and>
   fst (MeshRun id sample_mesh_runner mesh_order (sample_attempts (DoFailed DialError) (Responded 500 [] StreamEOF))
     (sample_mesh_state sample_registry)) = MeshFailed (RunStatus 500 [])"
  using sample_mesh_failed
  by (intro conjI mesh_runs_once)
    (simp_all add: keeps_slots_def sample_attempts_def sample_mesh_state_def sample_registry_def NewRegistry_def)

text \<open>A busy node is only passed over while it ties with another: here it reports no load and answers 429, so it gets all
  three attempts, and the task fails although another node has free slots.\<close>

lemma busy_node_asked_again:
  "(case MeshRun id sample_mesh_runner mesh_order (sample_attempts (Responded 429 [] StreamEOF) (Responded 429 [] StreamEOF))
       (sample_mesh_state (sample_registry\<lparr>rg_nodes := [(''a'', sample_node ''a'' 0 2), (''b'', sample_node ''b'' 1 4)]\<rparr>)) of
      (MeshFailed e, ms) \<Rightarrow> IsNodeBusyError e \<and> map fst (ms_tried ms) = [''a'', ''a'', ''a''] | _ \<Rightarrow> False)"
  by code_simp

end
