(* ===== verification/Spec2Isabelle.thy ===== *)
theory Spec2Isabelle
  imports Branch_Locks Node_Registry Runner_Loop Settlement_Safety Join_Catchup Join_Territory
    Agent_Leases Middleware_Safety Task_Handlers_Safety Workspace Mesh_Safety
    Sqlite_Store Webhooks Mesh_Runner
begin

text \<open>
  A verification library for \<^bold>\<open>gentle-mesh\<close>, a Go program that lets coding agents on several machines
  work on the same repositories. A \<^emph>\<open>coordinator\<close> accepts tasks, keeps them from editing the same
  territory, and runs them on the nodes of a mesh; \<^emph>\<open>agents\<close> agree on work by signed contract envelopes
  and settle it with a chain of signed receipts.

  \<^bold>\<open>The parts and the theories that model them.\<close> Definitions keep the names of the Go code; fields carry a
  short prefix of their struct. Paths are under \<open>src/\<close>.

  \<^item> \<open>Go_Base\<close>, \<open>Go_Path\<close>, \<open>Go_Filepath\<close>, \<open>Go_Unicode\<close>: what the code uses of the Go library: strings, \<open>path.Clean\<close>,
    \<open>path.Match\<close>, \<open>filepath.Join/Rel/Dir\<close>, UTF-8 and UTF-16, maps as association lists without duplicate keys.
  \<^item> \<open>Territory\<close> (\<open>pkg/protocol/federation.go\<close>): edit territories, repository identity, overlap of surfaces, \<open>ClashesWith\<close>
    and \<open>FindConflict\<close>. Collision is characterised by \<open>ClashesWith_iff\<close> and is symmetric.
  \<^item> \<open>Branch_Locks\<close>, \<open>Idempotency\<close>, \<open>Node_Registry\<close> (\<open>pkg/server/registry\<close>): the three tables of the coordinator. A branch
    has one holder (locale \<open>exclusive_lock\<close>), a key gives one task within its time to live, selection
    returns an eligible node of least rank.
  \<^item> \<open>Task_Log\<close>, \<open>Task_Lifecycle\<close>, \<open>Task_Stream\<close> (\<open>pkg/protocol/events.go\<close>, \<open>pkg/server/task/logger.go\<close>, \<open>task.go\<close>): the
    append-only log with failing and torn writes, the status machine, events and subscriptions. A finished
    task is never changed again, and a live subscription holds what a replay of the log returns.
  \<^item> \<open>Task_Store\<close>, \<open>Task_Manager\<close>, \<open>Task_Persistence\<close> (\<open>pkg/server/store\<close>, \<open>pkg/server/task/manager.go\<close>): the store
    interface (locale \<open>task_store\<close>, interpreted on the in-memory store), the manager, and restarts: pending
    tasks are failed, finished ones kept, event ids stay increasing, the store mirrors the tasks.
  \<^item> \<open>Sqlite_Store\<close> (\<open>pkg/server/store/sqlite.go\<close>): the tasks table and its statements, the second interpretation of
    \<open>task_store\<close>; it answers every sequence of calls as the in-memory store does.
  \<^item> \<open>Webhooks\<close> (\<open>pkg/server/store/webhookstore.go\<close>, \<open>pkg/server/webhook\<close>): registered webhooks, the bounded queue of
    notifications, signed delivery.
  \<^item> \<open>Federation\<close> (\<open>pkg/server/federation/manager.go\<close>): peers, synchronisation, the federated conflict search.
  \<^item> \<open>Scheduler\<close>, \<open>Scheduler_Safety\<close>, \<open>Runner_Loop\<close> (\<open>pkg/server/http/scheduler.go\<close>): priority queue, dispatch under
    branch locks, drain, cancel, the retry loop. Two unfinished tasks never run on one branch of one repository.
  \<^item> \<open>Jcs\<close>, \<open>Jcs_Canonical\<close> (\<open>pkg/jcs\<close>): the strict JSON parser and the RFC 8785 serializer. Canonical text is stable, and
    equal exactly for equal values.
  \<^item> \<open>Signing\<close>, \<open>Go_Host\<close> (\<open>pkg/signing\<close>): signers, base64, and the record \<open>go_host\<close> of what comes from outside.
  \<^item> \<open>Contract\<close>, \<open>Contract_Safety\<close> (\<open>pkg/envelope\<close>): envelopes, leases, validation, the contract state machine, hashing
    and signatures. A hash binds the terms of the contract up to a SHA-256 collision.
  \<^item> \<open>Receipt\<close>, \<open>Receipt_Chain\<close>, \<open>Receipt_Safety\<close>, \<open>Receipt_Append\<close> (\<open>pkg/receipt\<close>): receipts, the SQLite table and its
    indexes, chain verification, the append loop under contention. Saved chains are gap-free and linked, every
    reachable chain verifies, and a verified chain is a prefix of what the executor signed.
  \<^item> \<open>Git_Safe\<close> (\<open>pkg/gitsafe\<close>), \<open>Assertions\<close>, \<open>Evaluator\<close>, \<open>Evaluator_Safety\<close>, \<open>Settlement\<close>, \<open>Settlement_Safety\<close>
    (\<open>pkg/settlement\<close>): git commands with filters disabled, the command policy, the assertion evaluator, and the
    engine. Evaluation stays inside the workspace, the verdict reflects the last evaluation, and a contract
    is settled once (locale \<open>contract_ledger\<close>, interpreted on the receipts table).
  \<^item> \<open>Join_Log\<close>, \<open>Join_Safety\<close>, \<open>Join_Project\<close>, \<open>Join_Refinement\<close>, \<open>Join_Snapshot\<close>, \<open>Join_Catchup\<close>, \<open>Join_Territory\<close>
    (\<open>pkg/joinlog\<close>): the hash-chained log of mesh events (locale \<open>hash_chain\<close>), its projection into tables, snapshots,
    the endpoints by which a worker joins, worktree inspection. The log verifies and its head binds its events, the
    projection refines a fold over abstract maps, a joining worker ends up with the mesh of the whole log.
  \<^item> \<open>Agent\<close>, \<open>Agent_Decisions\<close>, \<open>Agent_Safety\<close>, \<open>Agent_Leases\<close> (\<open>integration/agent/server.go\<close>): the agent that leases,
    settles, times out and records decisions, on top of contracts, settlement and receipts. Its chains verify at
    every reachable moment, leases go to authentic envelopes only, the reaper spares renewed leases, timeouts are final.

  \<^item> \<open>Token_Store\<close>, \<open>Cert_Store\<close>, \<open>Enrollment\<close>, \<open>Enrollment_Safety\<close> (\<open>pkg/server/store\<close>, \<open>pkg/pki\<close>, the certificate
    handlers): tokens, certificates and the revocation ledger, enrollment in its four steps with other requests in
    between. A token pays for as many certificates as it was created for, and no node gets two.
  \<^item> \<open>Go_Net\<close>, \<open>Middleware\<close>, \<open>Middleware_Safety\<close> (\<open>pkg/server/http/middleware.go\<close>, \<open>server.go\<close>): host parsing, the chain of
    checks before a handler, the routes, the rate limiter. Requests need the credentials of their route, and a revoked
    certificate is never served again.
  \<^item> \<open>Task_Handlers\<close>, \<open>Task_Handlers_Safety\<close>, \<open>Workspace\<close>, \<open>Mesh_Handlers\<close>, \<open>Mesh_Safety\<close>, \<open>Public_Key\<close>
    (\<open>pkg/server/http/handlers.go\<close>, \<open>pkg/signing/validate.go\<close>): the endpoints. Requests of one idempotency key get one task,
    file answers stay inside the workspace, and a registered node is in the join log and its projection.
  \<^item> \<open>Worker\<close> (\<open>pkg/server/worker/server.go\<close>): the daemon that executes tasks in a bounded number of slots with a bounded
    queue, and delivers the replies to queries. Its requests interleave as an inductive step relation.
  \<^item> \<open>Sse\<close> (\<open>pkg/protocol/events.go\<close>), \<open>Remote_Runner\<close>, \<open>Mesh_Runner\<close> (\<open>pkg/server/runner/remote.go\<close>, \<open>mesh.go\<close>): the text
    of events, the run that reads them from another node, and the choice of that node. The locale \<open>event_sink\<close> is the
    interface a run writes to, interpreted on the task of the coordinator and on the sink of the worker. Of a stream cut
    anywhere the run passes on exactly the events that arrived whole, and a task is executed by at most one node.

  \<^bold>\<open>Modelling choices.\<close> A Go string is a list of bytes (\<^typ>\<open>string\<close>); times are integers of nanoseconds; a mutex makes
  each call one step, and code that drops the mutex in between (peer synchronisation, the end of a runner, the reaper) is
  two steps that other calls may separate. The outcome of a log write, a database statement or an HTTP request is
  an argument of the operation, so that every error path is a branch of the model. Other writers of a database
  are arbitrary functions on its table that keep its invariant. Errors are values of datatypes with the
  constructors the code returns. SHA-256, Ed25519, URL and regular expression matching, float parsing and
  formatting and the operating system are fields of \<open>go_host\<close> and \<open>system\<close> or arguments; what a theorem needs of them
  is a named hypothesis (\<open>ed25519_ok\<close>, \<open>number_format_ok\<close>, \<open>digest_ok\<close>) with a concrete instance in its witness.

  \<^bold>\<open>Loops.\<close> No definition takes fuel: loops are structural recursions or \<open>function\<close>s with a termination proof (the
  parser, path matching, symbolic link resolution), and retry loops recurse on the number of attempts left.

  \<^bold>\<open>Not modelled.\<close> Schema creation and migration of the databases; listening, shutdown and panic recovery of the
  servers; the runners that start processes (\<open>pi.go\<close>, \<open>gentleshell.go\<close>, \<open>simulated.go\<close>), whose effect on a task is an
  arbitrary list of task operations; key files and the cryptography of certificates; the agent card and the A2A message
  types; the client bridge, the agent's HTTP client and test-only endpoints, the shell library, the command line and
  the test scenarios.
\<close>

end
